(* ===== verification/IeeeFloat.thy ===== *)
theory IeeeFloat
  imports Prelude
begin

text \<open>
  The floating-point types of the C++ code. A value is an exact rational, an infinity, a NaN or
  the negative zero; an operation computes the exact result and rounds it to nearest, ties to
  even, in the format of its type (\<open>b32\<close> for \<^verbatim>\<open>float\<close>, \<open>b64\<close> for \<^verbatim>\<open>double\<close>, \<open>x80\<close> for the x87
  \<^verbatim>\<open>long double\<close>, \<open>b128\<close> for \<^verbatim>\<open>__float128\<close>). Gradual underflow, overflow to infinity and the
  signs of zeros follow IEEE 754. No contraction to fused multiply-add is assumed, which holds
  for the translation units modelled here: only the AVX files are compiled with \<^verbatim>\<open>-mfma\<close>.
\<close>

datatype fl = NaN | PosInf | NegInf | NegZero | Fin rat

record fmt =
  prec :: int
  qmin :: int
  emax :: int

definition b32 :: fmt where "b32 = \<lparr>prec = 24, qmin = - 149, emax = 128\<rparr>"
definition b64 :: fmt where "b64 = \<lparr>prec = 53, qmin = - 1074, emax = 1024\<rparr>"
definition x80 :: fmt where "x80 = \<lparr>prec = 64, qmin = - 16445, emax = 16384\<rparr>"
definition b128 :: fmt where "b128 = \<lparr>prec = 113, qmin = - 16494, emax = 16384\<rparr>"

lemmas fmt_defs = b32_def b64_def x80_def b128_def

section \<open>Rounding\<close>

fun nat_log2 :: "nat \<Rightarrow> nat" where
  "nat_log2 n = (if n < 2 then 0 else Suc (nat_log2 (n div 2)))"

declare nat_log2.simps [simp del]

text \<open>The exponent \<open>e\<close> with \<open>2 powi e \<le> x < 2 powi (e + 1)\<close>, for \<open>x > 0\<close>.\<close>

definition ilog2 :: "rat \<Rightarrow> int" where
  "ilog2 x = (let (n, d) = quotient_of x;
                  e = int (nat_log2 (nat n)) - int (nat_log2 (nat d))
              in if 2 powi e \<le> x then e else e - 1)"

text \<open>Round half to even.\<close>

definition rhe :: "rat \<Rightarrow> int" where
  "rhe r = (let f = \<lfloor>r\<rfloor>; d = r - of_int f in
     if d < 1 / 2 then f else if d > 1 / 2 then f + 1 else if even f then f else f + 1)"

definition quantum :: "fmt \<Rightarrow> rat \<Rightarrow> int" where
  "quantum F x = max (qmin F) (ilog2 \<bar>x\<bar> - prec F + 1)"

definition rnd_rat :: "fmt \<Rightarrow> rat \<Rightarrow> rat" where
  "rnd_rat F x = of_int (rhe (x / 2 powi quantum F x)) * 2 powi quantum F x"

definition rnd :: "fmt \<Rightarrow> rat \<Rightarrow> fl" where
  "rnd F x =
    (if x = 0 then Fin 0
     else let y = rnd_rat F x in
       if \<bar>y\<bar> \<ge> 2 powi emax F then (if x < 0 then NegInf else PosInf)
       else if y = 0 then (if x < 0 then NegZero else Fin 0)
       else Fin y)"

section \<open>Operations\<close>

definition fis_finite :: "fl \<Rightarrow> bool" where
  "fis_finite a = (case a of Fin _ \<Rightarrow> True | NegZero \<Rightarrow> True | _ \<Rightarrow> False)"

text \<open>The rational value of a finite number; 0 for the others, which no rule below reads.\<close>

definition fval :: "fl \<Rightarrow> rat" where
  "fval a = (case a of Fin x \<Rightarrow> x | _ \<Rightarrow> 0)"

definition fsign :: "fl \<Rightarrow> bool" where
  "fsign a = (case a of Fin x \<Rightarrow> x < 0 | NegZero \<Rightarrow> True | NegInf \<Rightarrow> True | _ \<Rightarrow> False)"

definition signed_zero :: "bool \<Rightarrow> fl" where
  "signed_zero s = (if s then NegZero else Fin 0)"

definition signed_inf :: "bool \<Rightarrow> fl" where
  "signed_inf s = (if s then NegInf else PosInf)"

fun fneg :: "fl \<Rightarrow> fl" where
  "fneg NaN = NaN"
| "fneg PosInf = NegInf"
| "fneg NegInf = PosInf"
| "fneg NegZero = Fin 0"
| "fneg (Fin x) = (if x = 0 then NegZero else Fin (- x))"

fun fabs :: "fl \<Rightarrow> fl" where
  "fabs NaN = NaN"
| "fabs PosInf = PosInf"
| "fabs NegInf = PosInf"
| "fabs NegZero = Fin 0"
| "fabs (Fin x) = Fin \<bar>x\<bar>"

definition fadd :: "fmt \<Rightarrow> fl \<Rightarrow> fl \<Rightarrow> fl" where
  "fadd F a b =
    (if a = NaN \<or> b = NaN then NaN
     else if a = PosInf then (if b = NegInf then NaN else PosInf)
     else if a = NegInf then (if b = PosInf then NaN else NegInf)
     else if b = PosInf \<or> b = NegInf then b
     else if a = NegZero \<and> b = NegZero then NegZero
     else rnd F (fval a + fval b))"

definition fsub :: "fmt \<Rightarrow> fl \<Rightarrow> fl \<Rightarrow> fl" where
  "fsub F a b = fadd F a (fneg b)"

definition fmul :: "fmt \<Rightarrow> fl \<Rightarrow> fl \<Rightarrow> fl" where
  "fmul F a b =
    (let s = (fsign a \<noteq> fsign b) in
     if a = NaN \<or> b = NaN then NaN
     else if \<not> fis_finite a then
       (if fis_finite b \<and> fval b = 0 then NaN else signed_inf s)
     else if \<not> fis_finite b then (if fval a = 0 then NaN else signed_inf s)
     else if fval a * fval b = 0 then signed_zero s
     else rnd F (fval a * fval b))"

definition fdiv :: "fmt \<Rightarrow> fl \<Rightarrow> fl \<Rightarrow> fl" where
  "fdiv F a b =
    (let s = (fsign a \<noteq> fsign b) in
     if a = NaN \<or> b = NaN then NaN
     else if \<not> fis_finite a then (if fis_finite b then signed_inf s else NaN)
     else if \<not> fis_finite b then signed_zero s
     else if fval b = 0 then (if fval a = 0 then NaN else signed_inf s)
     else if fval a = 0 then signed_zero s
     else rnd F (fval a / fval b))"

definition flt :: "fl \<Rightarrow> fl \<Rightarrow> bool" where
  "flt a b \<longleftrightarrow>
    a \<noteq> NaN \<and> b \<noteq> NaN \<and>
    (if a = NegInf then b \<noteq> NegInf
     else if b = PosInf then a \<noteq> PosInf
     else if a = PosInf \<or> b = NegInf then False
     else fval a < fval b)"

definition feq :: "fl \<Rightarrow> fl \<Rightarrow> bool" where
  "feq a b \<longleftrightarrow>
    a \<noteq> NaN \<and> b \<noteq> NaN \<and>
    (if fis_finite a \<and> fis_finite b then fval a = fval b else a = b)"

definition fle :: "fl \<Rightarrow> fl \<Rightarrow> bool" where
  "fle a b \<longleftrightarrow> flt a b \<or> feq a b"

text \<open>\<^verbatim>\<open>std::max\<close>, \<^verbatim>\<open>std::min\<close> and \<^verbatim>\<open>std::clamp\<close> on floating-point values.\<close>

definition fmax :: "fl \<Rightarrow> fl \<Rightarrow> fl" where "fmax a b = (if flt a b then b else a)"
definition fmin :: "fl \<Rightarrow> fl \<Rightarrow> fl" where "fmin a b = (if flt b a then b else a)"
definition fclamp :: "fl \<Rightarrow> fl \<Rightarrow> fl \<Rightarrow> fl" where
  "fclamp v lo hi = (if flt v lo then lo else if flt hi v then hi else v)"

text \<open>Conversion of an integer, and between formats.\<close>

definition f_of_int :: "fmt \<Rightarrow> int \<Rightarrow> fl" where "f_of_int F i = rnd F (of_int i)"

definition fconv :: "fmt \<Rightarrow> fl \<Rightarrow> fl" where
  "fconv F a = (case a of Fin x \<Rightarrow> rnd F x | _ \<Rightarrow> a)"

definition fldexp :: "fmt \<Rightarrow> fl \<Rightarrow> int \<Rightarrow> fl" where
  "fldexp F a n = (case a of Fin x \<Rightarrow> rnd F (x * 2 powi n) | _ \<Rightarrow> a)"

definition ffloor :: "fl \<Rightarrow> fl" where
  "ffloor a = (case a of Fin x \<Rightarrow> Fin (of_int \<lfloor>x\<rfloor>) | _ \<Rightarrow> a)"

definition rtrunc :: "rat \<Rightarrow> int" where
  "rtrunc x = (if 0 \<le> x then \<lfloor>x\<rfloor> else - \<lfloor>- x\<rfloor>)"

text \<open>\<^verbatim>\<open>std::fmod\<close>: exact, with the sign of the dividend.\<close>

definition ffmod :: "fl \<Rightarrow> fl \<Rightarrow> fl" where
  "ffmod a b =
    (if a = NaN \<or> b = NaN \<or> \<not> fis_finite a \<or> (fis_finite b \<and> fval b = 0) then NaN
     else if \<not> fis_finite b then a
     else let r = fval a - of_int (rtrunc (fval a / fval b)) * fval b in
       if r = 0 then signed_zero (fsign a) else Fin r)"

text \<open>The correctly rounded square root, from the integer square root of the scaled argument.\<close>

fun isqrt :: "nat \<Rightarrow> nat" where
  "isqrt n = (if n = 0 then 0
     else let r = 2 * isqrt (n div 4) in if (r + 1) * (r + 1) \<le> n then r + 1 else r)"

declare isqrt.simps [simp del]

definition fsqrt :: "fmt \<Rightarrow> fl \<Rightarrow> fl" where
  "fsqrt F a =
    (case a of
       NaN \<Rightarrow> NaN | PosInf \<Rightarrow> PosInf | NegInf \<Rightarrow> NaN | NegZero \<Rightarrow> NegZero
     | Fin x \<Rightarrow>
         if x < 0 then NaN
         else if x = 0 then Fin 0
         else let q = ilog2 x div 2 - prec F + 1;
                  r = x / 2 powi (2 * q);
                  s = int (isqrt (nat \<lfloor>r\<rfloor>));
                  mid = (of_int s + 1 / 2) * (of_int s + 1 / 2);
                  m = (if r < mid then s else if mid < r then s + 1
                       else if even s then s else s + 1)
              in Fin (of_int m * 2 powi q))"

text \<open>
  \<^verbatim>\<open>std::llround\<close> and \<^verbatim>\<open>std::lround\<close>: half away from zero. The result of an argument outside the
  64-bit range, and of a NaN, is unspecified: \<open>None\<close>.
\<close>

definition rat_round_away :: "rat \<Rightarrow> int" where
  "rat_round_away x = (if 0 \<le> x then \<lfloor>x + 1 / 2\<rfloor> else - \<lfloor>- x + 1 / 2\<rfloor>)"

definition fllround :: "fl \<Rightarrow> int option" where
  "fllround a =
    (if fis_finite a then
       (let i = rat_round_away (fval a) in if - (2 ^ 63) \<le> i \<and> i < 2 ^ 63 then Some i else None)
     else None)"

text \<open>A cast to a 64-bit integer truncates; out of range it is undefined: \<open>None\<close>.\<close>

definition f_to_i64 :: "fl \<Rightarrow> int option" where
  "f_to_i64 a =
    (if fis_finite a then
       (let i = rtrunc (fval a) in if - (2 ^ 63) \<le> i \<and> i < 2 ^ 63 then Some i else None)
     else None)"

lemmas f_op_defs = fadd_def fsub_def fmul_def fdiv_def flt_def feq_def fle_def fmax_def
  fmin_def fclamp_def f_of_int_def fconv_def fldexp_def fis_finite_def fval_def fsign_def
  signed_zero_def signed_inf_def

section \<open>Facts about rounding and order\<close>

lemma nat_log2_bounds: "0 < n \<Longrightarrow> 2 ^ nat_log2 n \<le> n \<and> n < 2 ^ Suc (nat_log2 n)"
proof (induction n rule: nat_log2.induct)
  case (1 n)
  show ?case
  proof (cases "n < 2")
    case True
    with "1.prems" show ?thesis by (simp add: nat_log2.simps [of n])
  next
    case False
    then have "0 < n div 2" by simp
    with 1 False have "2 ^ nat_log2 (n div 2) \<le> n div 2" "n div 2 < 2 ^ Suc (nat_log2 (n div 2))"
      by simp_all
    with False show ?thesis by (simp add: nat_log2.simps [of n]) linarith
  qed
qed

lemma two_powi_pos [simp]: "0 < (2::rat) powi e"
  by (rule zero_less_power_int) simp

lemma two_powi_Suc: "(2::rat) powi (e + 1) = 2 * 2 powi e"
  by (simp add: power_int_add_1')

lemma two_powi_less_iff: "(2::rat) powi a < 2 powi b \<longleftrightarrow> a < b"
proof
  assume "(2::rat) powi a < 2 powi b"
  then show "a < b"
    using power_int_increasing [of b a "2::rat"] by (cases "b \<le> a") auto
next
  assume "a < b"
  then show "(2::rat) powi a < 2 powi b" by (rule power_int_strict_increasing) simp
qed

lemma two_powi_le_iff: "(2::rat) powi a \<le> 2 powi b \<longleftrightarrow> a \<le> b"
  using two_powi_less_iff [of b a] by (simp add: not_less [symmetric])

lemma ilog2_spec:
  assumes "0 < x"
  shows "2 powi ilog2 x \<le> x \<and> x < 2 powi (ilog2 x + 1)"
proof -
  obtain n d where nd: "quotient_of x = (n, d)" by (cases "quotient_of x")
  then have x: "x = of_int n / of_int d" and d: "0 < d"
    by (simp_all add: quotient_of_div quotient_of_denom_pos)
  with assms have n: "0 < n" by (simp add: zero_less_divide_iff)
  define a where "a = nat_log2 (nat n)"
  define b where "b = nat_log2 (nat d)"
  have an: "2 ^ a \<le> n" "n < 2 ^ Suc a"
    using nat_log2_bounds [of "nat n"] n by (auto simp: a_def le_nat_iff nat_less_iff)
  have bd: "2 ^ b \<le> d" "d < 2 ^ Suc b"
    using nat_log2_bounds [of "nat d"] d by (auto simp: b_def le_nat_iff nat_less_iff)
  have ra: "(2::rat) ^ a \<le> of_int n" "of_int n < (2::rat) ^ Suc a"
    using an by (metis of_int_le_iff of_int_numeral of_int_power, metis of_int_less_iff of_int_numeral of_int_power)
  have rb: "(2::rat) ^ b \<le> of_int d" "of_int d < (2::rat) ^ Suc b"
    using bd by (metis of_int_le_iff of_int_numeral of_int_power, metis of_int_less_iff of_int_numeral of_int_power)
  let ?e = "int a - int b"
  have pe: "(2::rat) powi ?e = 2 ^ a / 2 ^ b" by (simp add: power_int_diff)
  have up: "x < 2 powi (?e + 1)"
  proof -
    have "x < 2 ^ Suc a / 2 ^ b"
      unfolding x using ra(2) rb(1) d by (intro frac_less) (use n in auto)
    then show ?thesis by (simp add: two_powi_Suc pe)
  qed
  have lo: "2 powi (?e - 1) \<le> x"
  proof -
    have "(2::rat) ^ a / 2 ^ Suc b \<le> x"
      unfolding x using ra(1) rb(2) d by (intro frac_le) (use n in auto)
    moreover have "(2::rat) powi (?e - 1) = 2 ^ a / 2 ^ Suc b"
      using pe by (simp add: power_int_diff)
    ultimately show ?thesis by simp
  qed
  have "ilog2 x = (if 2 powi ?e \<le> x then ?e else ?e - 1)"
    by (simp add: ilog2_def nd a_def b_def Let_def)
  with up lo show ?thesis by (cases "2 powi ?e \<le> x") auto
qed

lemma ilog2_less:
  assumes "0 < x" and "x < 2 powi e"
  shows "ilog2 x < e"
proof -
  have "2 powi ilog2 x < (2::rat) powi e" using ilog2_spec [OF assms(1)] assms(2) by linarith
  then show ?thesis by (simp add: two_powi_less_iff)
qed

lemma ilog2_ge:
  assumes "2 powi e \<le> x"
  shows "e \<le> ilog2 x"
proof -
  have "0 < x" using assms two_powi_pos [of e] by linarith
  then have "2 powi e < (2::rat) powi (ilog2 x + 1)" using ilog2_spec [of x] assms by linarith
  then show ?thesis by (simp add: two_powi_less_iff)
qed

lemma rhe_error: "\<bar>of_int (rhe r) - r\<bar> \<le> 1 / 2"
proof -
  have "of_int \<lfloor>r\<rfloor> \<le> r" "r < of_int \<lfloor>r\<rfloor> + 1" by linarith+
  then show ?thesis by (auto simp: rhe_def Let_def abs_le_iff)
qed

lemma rhe_of_int [simp]: "rhe (of_int i) = i"
  by (simp add: rhe_def)

lemma rhe_0 [simp]: "rhe 0 = 0"
  using rhe_of_int [of 0] by simp

lemma rhe_le_of_int: "r \<le> of_int i \<Longrightarrow> rhe r \<le> i"
  and of_int_le_rhe: "of_int i \<le> r \<Longrightarrow> i \<le> rhe r"
proof -
  assume r: "r \<le> of_int i"
  show "rhe r \<le> i"
  proof (cases "r = of_int i")
    case False
    with r have "\<lfloor>r\<rfloor> < i" by linarith
    then show ?thesis by (auto simp: rhe_def Let_def)
  qed simp
next
  assume "of_int i \<le> r"
  then have "i \<le> \<lfloor>r\<rfloor>" by linarith
  then show "i \<le> rhe r" by (auto simp: rhe_def Let_def)
qed

lemma quantum_ge: "qmin F \<le> quantum F x"
  by (simp add: quantum_def)

lemma rnd_rat_error: "\<bar>rnd_rat F x - x\<bar> \<le> 2 powi quantum F x / 2"
proof -
  let ?q = "(2::rat) powi quantum F x"
  have "rnd_rat F x - x = (of_int (rhe (x / ?q)) - x / ?q) * ?q"
    by (simp add: rnd_rat_def left_diff_distrib)
  then have "\<bar>rnd_rat F x - x\<bar> = \<bar>of_int (rhe (x / ?q)) - x / ?q\<bar> * ?q"
    by (simp add: abs_mult)
  also have "\<dots> \<le> 1 / 2 * ?q"
    by (rule mult_right_mono) (rule rhe_error, simp add: less_imp_le)
  finally show ?thesis by simp
qed

lemma quantum_le:
  assumes "x \<noteq> 0" and "\<bar>x\<bar> < 2 powi e" and "qmin F \<le> e - prec F"
  shows "quantum F x \<le> e - prec F"
  using ilog2_less [of "\<bar>x\<bar>" e] assms by (simp add: quantum_def)

text \<open>A multiple of the quantum rounds to itself.\<close>

lemma rnd_rat_exact:
  assumes "x = of_int m * 2 powi e" and "quantum F x \<le> e"
  shows "rnd_rat F x = x"
proof -
  let ?q = "quantum F x"
  obtain k where k: "e = ?q + int k" using assms(2) by (metis add.commute nat_0_le diff_add_cancel diff_ge_0_iff_ge)
  have "x / 2 powi ?q = of_int (m * 2 ^ k)"
  proof -
    have "(2::rat) powi e = 2 powi ?q * 2 ^ k" by (subst k) (simp add: power_int_add)
    then have "x = of_int (m * 2 ^ k) * 2 powi ?q" by (subst assms(1)) simp
    then show ?thesis by (metis nonzero_mult_div_cancel_right order_less_irrefl two_powi_pos)
  qed
  then have "rnd_rat F x = of_int (m * 2 ^ k) * 2 powi ?q"
    by (simp only: rnd_rat_def rhe_of_int)
  also have "\<dots> = x"
    using \<open>x / 2 powi ?q = of_int (m * 2 ^ k)\<close> by (metis nonzero_eq_divide_eq order_less_irrefl two_powi_pos)
  finally show ?thesis .
qed

text \<open>Integers below \<open>2 ^ prec\<close> are exact.\<close>

lemma rnd_rat_int:
  assumes "\<bar>m\<bar> < 2 ^ nat (prec F)" and "0 \<le> prec F" and "qmin F \<le> 0" and "m \<noteq> 0"
  shows "rnd_rat F (of_int m) = of_int m"
proof (rule rnd_rat_exact [where m = m and e = 0])
  have "\<bar>of_int m :: rat\<bar> < 2 ^ nat (prec F)"
    using assms(1) by (metis of_int_abs of_int_less_iff of_int_numeral of_int_power)
  then have "\<bar>of_int m :: rat\<bar> < 2 powi prec F"
    using assms(2) by (simp add: power_int_def)
  with assms show "quantum F (of_int m) \<le> 0"
    using quantum_le [of "of_int m" "prec F" F] by simp
qed simp

lemma rnd_int:
  assumes "\<bar>m\<bar> < 2 ^ nat (prec F)" and "0 \<le> prec F" and "qmin F \<le> 0" and "prec F \<le> emax F"
  shows "rnd F (of_int m) = Fin (of_int m)"
proof (cases "m = 0")
  case False
  have "\<bar>of_int m :: rat\<bar> < 2 ^ nat (prec F)"
    using assms(1) by (metis of_int_abs of_int_less_iff of_int_numeral of_int_power)
  then have "\<bar>of_int m :: rat\<bar> < 2 powi prec F"
    using assms(2) by (simp add: power_int_def)
  also have "\<dots> \<le> 2 powi emax F" using assms(4) by (simp add: two_powi_le_iff)
  finally show ?thesis using False rnd_rat_int [OF assms(1-3) False] by (simp add: rnd_def Let_def)
qed (simp add: rnd_def)

text \<open>Rounding does not cross an integer bound: the unit interval maps into itself.\<close>

lemma rnd_rat_unit:
  assumes "0 \<le> x" and "x \<le> 1" and "qmin F \<le> 0" and "1 \<le> prec F"
  shows "0 \<le> rnd_rat F x \<and> rnd_rat F x \<le> 1"
proof (cases "x = 0")
  case True
  then show ?thesis by (simp add: rnd_rat_def)
next
  case False
  with assms have "x < 2 powi 1" and p: "0 < x" by simp_all
  then have "ilog2 x < 1" using ilog2_less by blast
  with assms have "quantum F x \<le> 0" by (simp add: quantum_def)
  then obtain k where k: "quantum F x = - int k" by (metis nonpos_int_cases)
  have s: "x / 2 powi quantum F x = x * 2 ^ k"
    by (simp add: k power_int_minus divide_inverse)
  have "x * 2 ^ k \<le> of_int (2 ^ k)" using assms by (simp add: mult_le_cancel_right1)
  then have u: "rhe (x * 2 ^ k) \<le> 2 ^ k" by (rule rhe_le_of_int)
  have l: "0 \<le> rhe (x * 2 ^ k)" by (rule of_int_le_rhe) (use p in simp)
  have "rnd_rat F x = of_int (rhe (x * 2 ^ k)) / 2 ^ k"
    unfolding rnd_rat_def s by (simp add: k power_int_minus divide_inverse)
  moreover have "(of_int (rhe (x * 2 ^ k)) :: rat) \<le> 2 ^ k"
    using u by (metis of_int_le_iff of_int_numeral of_int_power)
  ultimately show ?thesis using l by (simp add: divide_le_eq_1)
qed

lemma isqrt_spec: "isqrt n * isqrt n \<le> n \<and> n < (isqrt n + 1) * (isqrt n + 1)"
proof (induction n rule: isqrt.induct)
  case (1 n)
  show ?case
  proof (cases "n = 0")
    case True
    then show ?thesis by (simp add: isqrt.simps [of 0])
  next
    case False
    define k where "k = isqrt (n div 4)"
    have IH: "k * k \<le> n div 4" "n div 4 < (k + 1) * (k + 1)" using 1 False by (simp_all add: k_def)
    have lo: "4 * (k * k) \<le> n" using IH(1) by linarith
    have hi: "n < 4 * ((k + 1) * (k + 1))" using IH(2) by linarith
    have "isqrt n = (if (2 * k + 1) * (2 * k + 1) \<le> n then 2 * k + 1 else 2 * k)"
      using False by (simp add: isqrt.simps [of n] k_def Let_def)
    with lo hi show ?thesis by (auto simp: algebra_simps)
  qed
qed

text \<open>Order of the finite and infinite values.\<close>

lemma flt_irrefl [simp]: "\<not> flt a a"
  by (cases a) (auto simp: flt_def)

lemma flt_trans: "flt a b \<Longrightarrow> flt b c \<Longrightarrow> flt a c"
  by (cases a; cases b; cases c) (auto simp: flt_def fval_def)

lemma flt_not_sym: "flt a b \<Longrightarrow> \<not> flt b a"
  by (cases a; cases b) (auto simp: flt_def fval_def)

lemma flt_le_trans: "\<not> flt b a \<Longrightarrow> flt b c \<Longrightarrow> a \<noteq> NaN \<Longrightarrow> flt a c"
  by (cases a; cases b; cases c) (auto simp: flt_def fval_def)

lemma not_flt_trans: "\<not> flt b a \<Longrightarrow> \<not> flt c b \<Longrightarrow> b \<noteq> NaN \<Longrightarrow> \<not> flt c a"
  by (cases a; cases b; cases c) (auto simp: flt_def fval_def)

lemma flt_Fin [simp]: "flt (Fin x) (Fin y) \<longleftrightarrow> x < y"
  and feq_Fin [simp]: "feq (Fin x) (Fin y) \<longleftrightarrow> x = y"
  and fle_Fin [simp]: "fle (Fin x) (Fin y) \<longleftrightarrow> x \<le> y"
  by (auto simp: flt_def feq_def fle_def fval_def fis_finite_def)

lemma fclamp_range:
  assumes "fis_finite v" and "lo \<le> hi"
  shows "fis_finite (fclamp v (Fin lo) (Fin hi))
       \<and> lo \<le> fval (fclamp v (Fin lo) (Fin hi)) \<and> fval (fclamp v (Fin lo) (Fin hi)) \<le> hi"
  using assms by (cases v) (auto simp: fclamp_def flt_def fval_def fis_finite_def)

text \<open>Numbers that are not below zero.\<close>

definition fnonneg :: "fl \<Rightarrow> bool" where
  "fnonneg a \<longleftrightarrow> a \<noteq> NaN \<and> \<not> flt a (Fin 0)"

lemma fnonneg_simps [simp]:
  "fnonneg PosInf" "fnonneg NegZero" "\<not> fnonneg NaN" "\<not> fnonneg NegInf" "fnonneg (Fin x) \<longleftrightarrow> 0 \<le> x"
  by (auto simp: fnonneg_def flt_def fval_def)

lemma fnonneg_rnd: "0 \<le> x \<Longrightarrow> fnonneg (rnd F x)"
proof -
  assume x: "0 \<le> x"
  then have "0 \<le> rhe (x / 2 powi quantum F x)" by (intro of_int_le_rhe) simp
  then have "0 \<le> rnd_rat F x" by (simp add: rnd_rat_def)
  with x show ?thesis by (simp add: rnd_def Let_def)
qed

lemma fnonneg_add: "fnonneg a \<Longrightarrow> fnonneg b \<Longrightarrow> fnonneg (fadd F a b)"
  by (cases a; cases b) (simp_all add: fadd_def fval_def fnonneg_rnd)

lemma fnonneg_square: "fis_finite a \<Longrightarrow> fnonneg (fmul F a a)"
  by (cases a) (simp_all add: fmul_def fis_finite_def fval_def signed_zero_def fsign_def fnonneg_rnd)

lemma fnonneg_scale: "0 < h \<Longrightarrow> fnonneg a \<Longrightarrow> fnonneg (fmul F (Fin h) a)"
  by (cases a) (auto simp: fmul_def fis_finite_def fval_def signed_zero_def signed_inf_def fsign_def
      fnonneg_rnd)

lemma fnonneg_div: "0 < h \<Longrightarrow> fnonneg a \<Longrightarrow> fnonneg (fdiv F a (Fin h))"
  by (cases a) (auto simp: fdiv_def fis_finite_def fval_def signed_zero_def signed_inf_def fsign_def
      fnonneg_rnd)

lemma fnonneg_sqrt: "fnonneg a \<Longrightarrow> fnonneg (fsqrt F a)"
  by (cases a) (auto simp: fsqrt_def Let_def)

end
