(* ===== verification/MeshData.thy ===== *)
theory MeshData
  imports IeeeFloat
begin

text \<open>
  Triangle meshes (\<^verbatim>\<open>compute/mesh.hpp\<close>): vertices, indices in groups of three, and the bounding box.
\<close>

type_synonym vec3 = "fl \<times> fl \<times> fl"

record mesh =
  me_vertices :: "vec3 list"
  me_indices :: "nat list"

definition empty_mesh :: mesh where "empty_mesh = \<lparr>me_vertices = [], me_indices = []\<rparr>"

definition triangle_count :: "mesh \<Rightarrow> nat" where "triangle_count m = length (me_indices m) div 3"

record bbox =
  bb_lo :: vec3
  bb_hi :: vec3

definition lower_corner :: "vec3 \<Rightarrow> vec3 \<Rightarrow> vec3" where
  "lower_corner lo v = (case (lo, v) of ((lx, ly, lz), (x, y, z)) \<Rightarrow>
     (if flt x lx then x else lx, if flt y ly then y else ly, if flt z lz then z else lz))"

definition upper_corner :: "vec3 \<Rightarrow> vec3 \<Rightarrow> vec3" where
  "upper_corner hi v = (case (hi, v) of ((hx, hy, hz), (x, y, z)) \<Rightarrow>
     (if flt hx x then x else hx, if flt hy y then y else hy, if flt hz z then z else hz))"

definition compute_bbox :: "mesh \<Rightarrow> bbox" where
  "compute_bbox m =
    (case me_vertices m of
       [] \<Rightarrow> \<lparr>bb_lo = (Fin 0, Fin 0, Fin 0), bb_hi = (Fin 0, Fin 0, Fin 0)\<rparr>
     | v # vs \<Rightarrow> \<lparr>bb_lo = foldl lower_corner v (v # vs), bb_hi = foldl upper_corner v (v # vs)\<rparr>)"

end
