(* ===== verification/JsonValue.thy ===== *)
theory JsonValue
  imports IeeeFloat "HOL-Library.List_Lexorder"
begin

text \<open>
  JSON values as the handlers see them (nlohmann::json 3.11): the value types, the lookups \<^verbatim>\<open>contains\<close>,
  \<^verbatim>\<open>value\<close> and \<^verbatim>\<open>operator[]\<close>, and the conversions of \<^verbatim>\<open>get\<close> with the exception of each mismatch. Objects are
  association lists in the order of their keys, which is the order in which \<^verbatim>\<open>items()\<close> visits them.
  Signed and unsigned integers are one constructor: no code of the repository tells them apart.
\<close>

section \<open>Values\<close>

datatype json =
    JNull
  | JBool bool
  | JInt int
  | JFloat fl
  | JString string
  | JArray "json list"
  | JObject "(string \<times> json) list"

definition is_object :: "json \<Rightarrow> bool" where
  "is_object j = (case j of JObject _ \<Rightarrow> True | _ \<Rightarrow> False)"

definition is_number :: "json \<Rightarrow> bool" where
  "is_number j = (case j of JInt _ \<Rightarrow> True | JFloat _ \<Rightarrow> True | _ \<Rightarrow> False)"

definition is_number_integer :: "json \<Rightarrow> bool" where
  "is_number_integer j = (case j of JInt _ \<Rightarrow> True | _ \<Rightarrow> False)"

definition is_boolean :: "json \<Rightarrow> bool" where
  "is_boolean j = (case j of JBool _ \<Rightarrow> True | _ \<Rightarrow> False)"

definition is_array :: "json \<Rightarrow> bool" where
  "is_array j = (case j of JArray _ \<Rightarrow> True | _ \<Rightarrow> False)"

definition elements :: "json \<Rightarrow> json list" where
  "elements j = (case j of JArray xs \<Rightarrow> xs | _ \<Rightarrow> [])"

definition items :: "json \<Rightarrow> (string \<times> json) list" where
  "items j = (case j of JObject m \<Rightarrow> m | _ \<Rightarrow> [])"

definition find_key :: "json \<Rightarrow> string \<Rightarrow> json option" where
  "find_key j k = map_of (items j) k"

definition json_contains :: "json \<Rightarrow> string \<Rightarrow> bool" where
  "json_contains j k \<longleftrightarrow> find_key j k \<noteq> None"

section \<open>Conversions\<close>

definition get_double :: "json \<Rightarrow> fl res" where
  "get_double j = (case j of JInt i \<Rightarrow> Inr (f_of_int b64 i) | JFloat x \<Rightarrow> Inr x | _ \<Rightarrow> Inl TypeError)"

definition get_bool :: "json \<Rightarrow> bool res" where
  "get_bool j = (case j of JBool b \<Rightarrow> Inr b | _ \<Rightarrow> Inl TypeError)"

definition get_string :: "json \<Rightarrow> string res" where
  "get_string j = (case j of JString s \<Rightarrow> Inr s | _ \<Rightarrow> Inl TypeError)"

text \<open>
  A conversion to a w-bit integer wraps an integer, accepts a boolean, and truncates a floating-point
  number, which is undefined when the result does not fit.
\<close>

definition wrap_int :: "nat \<Rightarrow> int \<Rightarrow> int" where
  "wrap_int w i = (i + 2 ^ (w - 1)) mod 2 ^ w - 2 ^ (w - 1)"

definition get_int :: "nat \<Rightarrow> json \<Rightarrow> int res" where
  "get_int w j =
    (case j of
       JInt i \<Rightarrow> Inr (wrap_int w i)
     | JBool b \<Rightarrow> Inr (if b then 1 else 0)
     | JFloat x \<Rightarrow>
         (if fis_finite x \<and> - (2 ^ (w - 1)) \<le> rtrunc (fval x) \<and> rtrunc (fval x) < 2 ^ (w - 1)
          then Inr (rtrunc (fval x)) else Inl Undefined)
     | _ \<Rightarrow> Inl TypeError)"

text \<open>\<^verbatim>\<open>j.value(key, default)\<close>\<close>

definition json_value :: "(json \<Rightarrow> 'a res) \<Rightarrow> json \<Rightarrow> string \<Rightarrow> 'a \<Rightarrow> 'a res" where
  "json_value get j k d =
    (if \<not> is_object j then Inl TypeError
     else case find_key j k of None \<Rightarrow> Inr d | Some v \<Rightarrow> get v)"

text \<open>\<^verbatim>\<open>j[key] = v\<close>: the entry is replaced or inserted at its place; null becomes an object.\<close>

fun put_entry :: "string \<Rightarrow> json \<Rightarrow> (string \<times> json) list \<Rightarrow> (string \<times> json) list" where
  "put_entry k v [] = [(k, v)]"
| "put_entry k v ((k', v') # m) =
    (if k = k' then (k, v) # m else if k < k' then (k, v) # (k', v') # m else (k', v') # put_entry k v m)"

definition json_put :: "string \<Rightarrow> json \<Rightarrow> json \<Rightarrow> json res" where
  "json_put k v j =
    (case j of
       JObject m \<Rightarrow> Inr (JObject (put_entry k v m))
     | JNull \<Rightarrow> Inr (JObject [(k, v)])
     | _ \<Rightarrow> Inl TypeError)"

text \<open>Assignments to several keys, one after the other.\<close>

fun put_all :: "(string \<times> json) list \<Rightarrow> json \<Rightarrow> json res" where
  "put_all [] j = Inr j"
| "put_all ((k, v) # es) j = res_bind (json_put k v j) (put_all es)"

section \<open>Facts\<close>

lemmas json_kind_defs = is_object_def is_number_def is_number_integer_def is_boolean_def is_array_def

lemma put_entry_lookup [simp]: "map_of (put_entry k v m) = (map_of m)(k \<mapsto> v)"
  by (induction m) (auto simp: fun_eq_iff)

lemma json_put_find:
  "json_put k v j = Inr j' \<Longrightarrow> find_key j' = (find_key j)(k \<mapsto> v) \<and> is_object j'"
  by (auto simp: json_put_def find_key_def items_def is_object_def split: json.splits)

lemma json_put_object: "is_object j \<Longrightarrow> \<exists>j'. json_put k v j = Inr j'"
  by (auto simp: json_put_def is_object_def split: json.splits)

lemma wrap_int_id: "0 < w \<Longrightarrow> - (2 ^ (w - 1)) \<le> i \<Longrightarrow> i < 2 ^ (w - 1) \<Longrightarrow> wrap_int w i = i"
proof -
  assume w: "0 < w" and i: "- (2 ^ (w - 1)) \<le> i" "i < 2 ^ (w - 1)"
  have "(2::int) ^ w = 2 * 2 ^ (w - 1)" using w by (simp add: power_eq_if)
  then have "(i + 2 ^ (w - 1)) mod 2 ^ w = i + 2 ^ (w - 1)" using i by (intro mod_pos_pos_trivial) linarith+
  then show ?thesis by (simp add: wrap_int_def)
qed

lemma get_int_defined: "get_int w j \<noteq> Inl OutOfRange"
  by (auto simp: get_int_def split: json.splits)

lemma get_errors [simp]:
  "get_string j = Inl e \<Longrightarrow> e = TypeError"
  "get_bool j = Inl e \<Longrightarrow> e = TypeError"
  "get_double j = Inl e \<Longrightarrow> e = TypeError"
  by (auto simp: get_string_def get_bool_def get_double_def split: json.splits)

lemma json_value_error:
  "json_value get j k d = Inl e \<Longrightarrow> e = TypeError \<or> (\<exists>v. get v = Inl e)"
  by (auto simp: json_value_def split: if_splits option.splits)

lemma get_double_number: "is_number j \<Longrightarrow> \<exists>x. get_double j = Inr x"
  by (auto simp: is_number_def get_double_def split: json.splits)

text \<open>The members of an object are smaller than the object: the recursion over nested values.\<close>

lemma size_element: "j \<in> set xs \<Longrightarrow> size j < size (JArray xs)"
  by (induction xs) auto

end
