(* ===== verification/MeshIo.thy ===== *)
theory MeshIo
  imports MeshData JsonValue "HOL-Library.Word"
begin

unbundle bit_operations_syntax

text \<open>
  Mesh files (\<^verbatim>\<open>compute/mesh_io.cpp\<close>): binary STL and GLB. The object representation of a float, \<open>bits\<close>, and the
  serialisation of a JSON value, \<open>dump\<close>, are parameters; numbers are stored with the low byte first, as on the
  machines the program is built for. The outcome of the file operations is given, and a file is its content.
\<close>

type_synonym file_byte = "8 word"

section \<open>Bytes\<close>

definition u32_bytes :: "32 word \<Rightarrow> file_byte list" where
  "u32_bytes v = [ucast v, ucast (drop_bit 8 v), ucast (drop_bit 16 v), ucast (drop_bit 24 v)]"

definition text_bytes :: "string \<Rightarrow> file_byte list" where "text_bytes s = map of_char s"

definition vec3_words :: "(fl \<Rightarrow> 32 word) \<Rightarrow> vec3 \<Rightarrow> 32 word list" where
  "vec3_words bits v = (case v of (x, y, z) \<Rightarrow> [bits x, bits y, bits z])"

definition words_bytes :: "32 word list \<Rightarrow> file_byte list" where "words_bytes ws = concat (map u32_bytes ws)"

section \<open>STL\<close>

definition stl_header :: "file_byte list" where
  "stl_header = (let s = text_bytes ''fractal_studio HS mesh'' in s @ replicate (80 - length s) 0)"

fun index_triples :: "nat list \<Rightarrow> (nat \<times> nat \<times> nat) list" where
  "index_triples (a # b # c # is) = (a, b, c) # index_triples is"
| "index_triples is = []"

definition valid_triples :: "mesh \<Rightarrow> (nat \<times> nat \<times> nat) list" where
  "valid_triples m = filter (\<lambda>(a, b, c). a < length (me_vertices m) \<and> b < length (me_vertices m) \<and> c < length (me_vertices m))
    (index_triples (me_indices m))"

definition facet_normal :: "vec3 \<Rightarrow> vec3 \<Rightarrow> vec3 \<Rightarrow> vec3" where
  "facet_normal a b c =
    (case (a, b, c) of ((ax, ay, az), (bx, by, bz), (cx, cy, cz)) \<Rightarrow>
      let ux = fsub b32 bx ax; uy = fsub b32 by ay; uz = fsub b32 bz az;
          vx = fsub b32 cx ax; vy = fsub b32 cy ay; vz = fsub b32 cz az;
          nx = fsub b32 (fmul b32 uy vz) (fmul b32 uz vy);
          ny = fsub b32 (fmul b32 uz vx) (fmul b32 ux vz);
          nz = fsub b32 (fmul b32 ux vy) (fmul b32 uy vx);
          len = fsqrt b32 (fadd b32 (fadd b32 (fmul b32 nx nx) (fmul b32 ny ny)) (fmul b32 nz nz))
      in if flt (Fin 0) len then (fdiv b32 nx len, fdiv b32 ny len, fdiv b32 nz len) else (nx, ny, nz))"

definition facet_words :: "(fl \<Rightarrow> 32 word) \<Rightarrow> mesh \<Rightarrow> nat \<times> nat \<times> nat \<Rightarrow> 32 word list" where
  "facet_words bits m t =
    (case t of (ia, ib, ic) \<Rightarrow>
      let a = me_vertices m ! ia; b = me_vertices m ! ib; c = me_vertices m ! ic
      in vec3_words bits (facet_normal a b c) @ vec3_words bits a @ vec3_words bits b @ vec3_words bits c)"

definition stl_facet :: "(fl \<Rightarrow> 32 word) \<Rightarrow> mesh \<Rightarrow> nat \<times> nat \<times> nat \<Rightarrow> file_byte list" where
  "stl_facet bits m t = words_bytes (facet_words bits m t) @ [0, 0]"

definition stl_bytes :: "(fl \<Rightarrow> 32 word) \<Rightarrow> mesh \<Rightarrow> file_byte list" where
  "stl_bytes bits m = stl_header @ u32_bytes (of_nat (length (valid_triples m)))
     @ concat (map (stl_facet bits m) (valid_triples m))"

section \<open>GLB\<close>

definition jobject :: "(string \<times> json) list \<Rightarrow> json" where
  "jobject kvs = JObject (fold (\<lambda>(k, v) m. put_entry k v m) kvs [])"

definition json_vec3 :: "vec3 \<Rightarrow> json" where
  "json_vec3 v = (case v of (x, y, z) \<Rightarrow> JArray [JFloat x, JFloat y, JFloat z])"

record glb_layout =
  gl_vertex_count :: "32 word"
  gl_index_count :: "32 word"
  gl_pos_bytes :: nat
  gl_idx_bytes :: nat

text \<open>The byte counts are products of 32-bit numbers.\<close>

definition glb_layout_of :: "mesh \<Rightarrow> glb_layout" where
  "glb_layout_of m =
    (let vc = of_nat (length (me_vertices m)); ic = of_nat (length (me_indices m))
     in \<lparr>gl_vertex_count = vc, gl_index_count = ic, gl_pos_bytes = unat (vc * 12), gl_idx_bytes = unat (ic * 4)\<rparr>)"

definition gltf_json :: "mesh \<Rightarrow> json" where
  "gltf_json m =
    (let l = glb_layout_of m; bb = compute_bbox m; jn = (\<lambda>n. JInt (int n)) in
     jobject
      [(''asset'', jobject [(''version'', JString ''2.0''), (''generator'', JString ''fractal_studio'')]),
       (''scene'', JInt 0),
       (''scenes'', JArray [jobject [(''nodes'', JArray [JInt 0])]]),
       (''nodes'', JArray [jobject [(''mesh'', JInt 0)]]),
       (''meshes'', JArray [jobject [(''primitives'', JArray [jobject
          [(''attributes'', jobject [(''POSITION'', JInt 0)]), (''indices'', JInt 1), (''mode'', JInt 4)]])]]),
       (''accessors'', JArray
          [jobject [(''bufferView'', JInt 0), (''componentType'', JInt 5126), (''count'', jn (unat (gl_vertex_count l))),
             (''type'', JString ''VEC3''), (''min'', json_vec3 (bb_lo bb)), (''max'', json_vec3 (bb_hi bb))],
           jobject [(''bufferView'', JInt 1), (''componentType'', JInt 5125), (''count'', jn (unat (gl_index_count l))),
             (''type'', JString ''SCALAR'')]]),
       (''bufferViews'', JArray
          [jobject [(''buffer'', JInt 0), (''byteOffset'', JInt 0), (''byteLength'', jn (gl_pos_bytes l)), (''target'', JInt 34962)],
           jobject [(''buffer'', JInt 0), (''byteOffset'', jn (gl_pos_bytes l)), (''byteLength'', jn (gl_idx_bytes l)),
             (''target'', JInt 34963)]]),
       (''buffers'', JArray [jobject [(''byteLength'', jn (gl_pos_bytes l + gl_idx_bytes l))]])])"

definition pad4 :: "'a \<Rightarrow> 'a list \<Rightarrow> 'a list" where
  "pad4 x xs = xs @ replicate ((4 - length xs mod 4) mod 4) x"

definition glb_bin :: "(fl \<Rightarrow> 32 word) \<Rightarrow> mesh \<Rightarrow> file_byte list" where
  "glb_bin bits m =
    (let l = glb_layout_of m in
     take (gl_pos_bytes l) (words_bytes (concat (map (vec3_words bits) (me_vertices m))))
     @ take (gl_idx_bytes l) (words_bytes (map of_nat (me_indices m))))"

definition glb_bytes :: "(json \<Rightarrow> string) \<Rightarrow> (fl \<Rightarrow> 32 word) \<Rightarrow> mesh \<Rightarrow> file_byte list res" where
  "glb_bytes dump bits m =
    throw_if (me_vertices m = [] \<or> me_indices m = []) (RuntimeError ''writeGlb: empty mesh'')
    (let js = pad4 (CHR '' '') (dump (gltf_json m)); bin = pad4 0 (glb_bin bits m);
         json_len = of_nat (length js); bin_len = of_nat (length bin);
         total_len = 12 + (8 + json_len) + (8 + bin_len)
     in Inr (text_bytes ''glTF'' @ u32_bytes 2 @ u32_bytes total_len
        @ u32_bytes json_len @ text_bytes ''JSON'' @ text_bytes js
        @ u32_bytes bin_len @ text_bytes ''BIN'' @ [0] @ bin))"

section \<open>Files\<close>

type_synonym mesh_files = "string \<Rightarrow> file_byte list option"

text \<open>Whether the temporary file opens and takes all bytes, and whether the first and the second rename succeed.\<close>

record file_outcome =
  fo_opened :: bool
  fo_written :: bool
  fo_renamed :: bool
  fo_replaced :: bool

definition temp_path :: "string \<Rightarrow> string" where "temp_path path = path @ ''.tmp''"

definition finalize_temp_file :: "file_outcome \<Rightarrow> string \<Rightarrow> string \<Rightarrow> mesh_files \<Rightarrow> mesh_files \<times> unit res" where
  "finalize_temp_file out label path fs =
    (let tmp = temp_path path; moved = (\<lambda>fs. fs(path := fs tmp, tmp := None))
     in if fo_renamed out then (moved fs, Inr ())
        else
          let fs = fs(path := None)
          in if fo_replaced out then (moved fs, Inr ())
             else (fs(tmp := None), Inl (RuntimeError (label @ '': cannot finalize '' @ path))))"

definition write_mesh_file :: "file_outcome \<Rightarrow> string \<Rightarrow> string \<Rightarrow> file_byte list \<Rightarrow> mesh_files \<Rightarrow> mesh_files \<times> unit res" where
  "write_mesh_file out label path bytes fs =
    (let tmp = temp_path path in
     if \<not> fo_opened out then (fs, Inl (RuntimeError (label @ '': cannot open '' @ tmp)))
     else if \<not> fo_written out then (fs(tmp := None), Inl (RuntimeError (label @ '': write failed '' @ path)))
     else finalize_temp_file out label path (fs(tmp := Some bytes)))"

definition write_stl_binary :: "(fl \<Rightarrow> 32 word) \<Rightarrow> file_outcome \<Rightarrow> string \<Rightarrow> mesh \<Rightarrow> mesh_files \<Rightarrow> mesh_files \<times> unit res" where
  "write_stl_binary bits out path m fs = write_mesh_file out ''writeStlBinary'' path (stl_bytes bits m) fs"

definition write_glb ::
    "(json \<Rightarrow> string) \<Rightarrow> (fl \<Rightarrow> 32 word) \<Rightarrow> file_outcome \<Rightarrow> string \<Rightarrow> mesh \<Rightarrow> mesh_files \<Rightarrow> mesh_files \<times> unit res" where
  "write_glb dump bits out path m fs =
    (case glb_bytes dump bits m of Inl e \<Rightarrow> (fs, Inl e) | Inr bytes \<Rightarrow> write_mesh_file out ''writeGlb'' path bytes fs)"

end
