(* ===== verification/MeshIoProperties.thy ===== *)
theory MeshIoProperties
  imports MeshIo
begin

text \<open>
  Theorems on mesh files: a reader of either format recovers what was written, and a file at its final path is
  always complete.
\<close>

section \<open>Reading words\<close>

fun read_words :: "nat \<Rightarrow> file_byte list \<Rightarrow> (32 word list \<times> file_byte list) option" where
  "read_words 0 bs = Some ([], bs)"
| "read_words (Suc n) (a # b # c # d # bs) =
    map_option (\<lambda>(ws, r). ((ucast a OR push_bit 8 (ucast b) OR push_bit 16 (ucast c) OR push_bit 24 (ucast d)) # ws, r))
      (read_words n bs)"
| "read_words (Suc n) bs = None"

lemma u32_join:
  "ucast (ucast v :: file_byte) OR push_bit 8 (ucast (ucast (drop_bit 8 v) :: file_byte)) OR push_bit 16 (ucast (ucast (drop_bit 16 v) :: file_byte))
    OR push_bit 24 (ucast (ucast (drop_bit 24 v) :: file_byte)) = (v :: 32 word)"
proof (rule bit_word_eqI)
  fix n assume "n < LENGTH(32)"
  then have n: "n < 32" by simp
  then consider "n < 8" | "8 \<le> n \<and> n < 16" | "16 \<le> n \<and> n < 24" | "24 \<le> n" by linarith
  then show "bit (ucast (ucast v :: file_byte) OR push_bit 8 (ucast (ucast (drop_bit 8 v) :: file_byte)) OR push_bit 16 (ucast (ucast (drop_bit 16 v) :: file_byte))
    OR push_bit 24 (ucast (ucast (drop_bit 24 v) :: file_byte)) :: 32 word) n = bit v n"
    using n by cases (auto simp: bit_or_iff bit_push_bit_iff bit_ucast_iff bit_drop_bit_eq)
qed

lemma read_words_written: "read_words (length ws) (words_bytes ws @ bs) = Some (ws, bs)"
  by (induction ws) (simp_all add: words_bytes_def u32_bytes_def u32_join)

lemma read_word: "read_words (Suc 0) (u32_bytes w @ bs) = Some ([w], bs)"
  using read_words_written [of "[w]"] by (simp add: words_bytes_def)

lemma u32_bytes_length [simp]: "length (u32_bytes w) = 4" by (simp add: u32_bytes_def)

lemma words_bytes_length [simp]: "length (words_bytes ws) = 4 * length ws"
  by (induction ws) (simp_all add: words_bytes_def)

section \<open>STL\<close>

fun read_facets :: "nat \<Rightarrow> file_byte list \<Rightarrow> (32 word list list \<times> file_byte list) option" where
  "read_facets 0 bs = Some ([], bs)"
| "read_facets (Suc n) bs =
    (case read_words 12 bs of
       Some (f, _ # _ # bs') \<Rightarrow> map_option (\<lambda>(fs, r). (f # fs, r)) (read_facets n bs')
     | _ \<Rightarrow> None)"

text \<open>The facets of a binary STL file, each a normal and three corners; the file ends with the last facet.\<close>

definition read_stl :: "file_byte list \<Rightarrow> 32 word list list option" where
  "read_stl bs =
    (case read_words 1 (drop 80 bs) of
       Some ([n], r) \<Rightarrow> (case read_facets (unat n) r of Some (fs, []) \<Rightarrow> Some fs | _ \<Rightarrow> None)
     | _ \<Rightarrow> None)"

lemma facet_words_length: "length (facet_words bits m t) = 12"
  by (cases t) (simp add: facet_words_def vec3_words_def Let_def split: prod.split)

lemma read_facets_written:
  "read_facets (length ts) (concat (map (stl_facet bits m) ts) @ r) = Some (map (facet_words bits m) ts, r)"
proof (induction ts)
  case (Cons t ts)
  have "read_words 12 (words_bytes (facet_words bits m t) @ bs) = Some (facet_words bits m t, bs)" for bs
    using read_words_written [of "facet_words bits m t" bs] by (simp add: facet_words_length)
  with Cons show ?case by (simp add: stl_facet_def)
qed simp

lemma stl_header_length: "length stl_header = 80" by (simp add: stl_header_def text_bytes_def Let_def)

lemma stl_length: "length (stl_bytes bits m) = 84 + 50 * length (valid_triples m)"
proof -
  have "length (concat (map (stl_facet bits m) ts)) = 50 * length ts" for ts
    by (induction ts) (simp_all add: stl_facet_def facet_words_length)
  then show ?thesis by (simp add: stl_bytes_def stl_header_length)
qed

section \<open>GLB\<close>

text \<open>A GLB container: header, JSON chunk, binary chunk, with consistent lengths and alignment.\<close>

definition read_chunk :: "file_byte list \<Rightarrow> file_byte list \<Rightarrow> (file_byte list \<times> file_byte list) option" where
  "read_chunk tag bs =
    (case read_words 1 bs of
       Some ([n], r) \<Rightarrow>
         if take 4 r = tag \<and> unat n \<le> length (drop 4 r) \<and> unat n mod 4 = 0
         then Some (take (unat n) (drop 4 r), drop (unat n) (drop 4 r)) else None
     | _ \<Rightarrow> None)"

definition read_glb :: "file_byte list \<Rightarrow> (file_byte list \<times> file_byte list) option" where
  "read_glb bs =
    (if take 4 bs \<noteq> text_bytes ''glTF'' then None
     else case read_words 2 (drop 4 bs) of
         Some ([version, n], r) \<Rightarrow>
           if version \<noteq> 2 \<or> unat n \<noteq> length bs then None
           else (case read_chunk (text_bytes ''JSON'') r of
                   None \<Rightarrow> None
                 | Some (js, r') \<Rightarrow>
                     (case read_chunk (text_bytes ''BIN'' @ [0]) r' of Some (bin, []) \<Rightarrow> Some (js, bin) | _ \<Rightarrow> None))
       | _ \<Rightarrow> None)"

lemma pad4_length: "length (pad4 x xs) mod 4 = 0" "length (pad4 x xs) < length xs + 4"
proof -
  have "(n + (4 - n mod 4) mod 4) mod 4 = 0" for n :: nat
  proof -
    have "r \<in> {0, 1, 2, 3} \<Longrightarrow> (r + (4 - r) mod 4) mod 4 = 0" for r :: nat by auto
    moreover have "n mod 4 \<in> {0, 1, 2, 3}" using mod_less_divisor [of 4 n] by auto
    ultimately show ?thesis by (metis mod_add_left_eq)
  qed
  then show "length (pad4 x xs) mod 4 = 0" "length (pad4 x xs) < length xs + 4"
    unfolding pad4_def length_append length_replicate by simp_all
qed

lemma read_chunk_written:
  assumes "length body < 2 ^ 32" "length body mod 4 = 0" "length tag = 4"
  shows "read_chunk tag (u32_bytes (of_nat (length body)) @ tag @ body @ r) = Some (body, r)"
proof -
  have "unat (of_nat (length body) :: 32 word) = length body" using assms(1) by (simp add: unat_of_nat)
  with assms(2,3) show ?thesis by (simp add: read_chunk_def read_word)
qed

lemma text_bytes_length [simp]: "length (text_bytes s) = length s" by (simp add: text_bytes_def)

lemma vec3_words_concat: "length (concat (map (vec3_words bits) vs)) = 3 * length vs"
  by (induction vs) (simp_all add: vec3_words_def split: prod.split)

lemma glb_layout_exact:
  assumes "12 * length (me_vertices m) < 2 ^ 32" "4 * length (me_indices m) < 2 ^ 32"
  shows "gl_pos_bytes (glb_layout_of m) = 12 * length (me_vertices m)" "gl_idx_bytes (glb_layout_of m) = 4 * length (me_indices m)"
proof -
  have v: "of_nat n * 12 = (of_nat (12 * n) :: 32 word)" "of_nat n * 4 = (of_nat (4 * n) :: 32 word)" for n
    by (simp_all add: mult.commute)
  show "gl_pos_bytes (glb_layout_of m) = 12 * length (me_vertices m)" "gl_idx_bytes (glb_layout_of m) = 4 * length (me_indices m)"
    unfolding glb_layout_of_def Let_def glb_layout.simps v using assms by (simp_all add: unat_of_nat del: of_nat_mult)
qed

section \<open>Properties\<close>

text \<open>
  Round trip of binary STL: a reader finds as many facets as the mesh has triangles with valid indices, each
  with its normal and the coordinates of its three corners, and the file has no other byte.
\<close>
theorem stl_roundtrip:
  assumes "length (valid_triples m) < 2 ^ 32"
  shows "read_stl (stl_bytes bits m) = Some (map (facet_words bits m) (valid_triples m))
    \<and> length (stl_bytes bits m) = 84 + 50 * length (valid_triples m)"
proof -
  have "unat (of_nat (length (valid_triples m)) :: 32 word) = length (valid_triples m)" using assms by (simp add: unat_of_nat)
  moreover have "drop 80 (stl_bytes bits m) = u32_bytes (of_nat (length (valid_triples m)))
     @ concat (map (stl_facet bits m) (valid_triples m))" by (simp add: stl_bytes_def stl_header_length)
  moreover have "read_facets (length (valid_triples m)) (concat (map (stl_facet bits m) (valid_triples m)))
     = Some (map (facet_words bits m) (valid_triples m), [])"
    using read_facets_written [of "valid_triples m" bits m "[]"] by simp
  ultimately show ?thesis by (simp add: read_stl_def read_word stl_length)
qed

definition one_triangle :: mesh where
  "one_triangle = \<lparr>me_vertices = [(Fin 0, Fin 0, Fin 0), (Fin 1, Fin 0, Fin 0), (Fin 0, Fin 1, Fin 0)], me_indices = [0, 1, 2, 0, 1, 3]\<rparr>"

theorem stl_roundtrip_witness:
  "\<forall>bits. length (stl_bytes bits one_triangle) = 134 \<and> read_stl (stl_bytes bits one_triangle) \<noteq> None"
proof
  fix bits
  have "length (valid_triples one_triangle) = 1" by (simp add: valid_triples_def one_triangle_def)
  then show "length (stl_bytes bits one_triangle) = 134 \<and> read_stl (stl_bytes bits one_triangle) \<noteq> None"
    using stl_roundtrip [of one_triangle bits] by simp
qed

text \<open>
  C24: Round trip of GLB: while the counts fit 32 bits, the container is well-formed (magic, version, total length,
  chunk lengths and alignment), its first chunk is the JSON text padded with spaces, and its binary chunk holds
  the coordinates of the vertices and, from the offset that the JSON names, the indices.
\<close>
theorem glb_roundtrip:
  assumes "glb_bytes dump bits m = Inr bs" "length bs < 2 ^ 32" "12 * length (me_vertices m) < 2 ^ 32"
    "4 * length (me_indices m) < 2 ^ 32"
  shows "read_glb bs = Some (text_bytes (pad4 (CHR '' '') (dump (gltf_json m))), pad4 0 (glb_bin bits m))
    \<and> glb_bin bits m = words_bytes (concat (map (vec3_words bits) (me_vertices m))) @ words_bytes (map of_nat (me_indices m))
    \<and> gl_pos_bytes (glb_layout_of m) = length (words_bytes (concat (map (vec3_words bits) (me_vertices m))))
    \<and> gl_pos_bytes (glb_layout_of m) + gl_idx_bytes (glb_layout_of m) = length (glb_bin bits m)"
proof -
  note l = glb_layout_exact [OF assms(3,4)]
  have bin: "glb_bin bits m = words_bytes (concat (map (vec3_words bits) (me_vertices m))) @ words_bytes (map of_nat (me_indices m))"
    unfolding glb_bin_def Let_def l by (simp add: vec3_words_concat)
  let ?js = "text_bytes (pad4 (CHR '' '') (dump (gltf_json m)))" and ?bin = "pad4 0 (glb_bin bits m)"
  let ?n = "12 + (8 + length ?js) + (8 + length ?bin)"
  have bs: "bs = text_bytes ''glTF'' @ u32_bytes 2 @ u32_bytes (of_nat ?n)
      @ u32_bytes (of_nat (length ?js)) @ text_bytes ''JSON'' @ ?js
      @ u32_bytes (of_nat (length ?bin)) @ (text_bytes ''BIN'' @ [0]) @ ?bin"
    using assms(1) by (auto simp: glb_bytes_def Let_def throw_if_Inr_iff)
  have n: "length bs = ?n" unfolding bs by simp
  have u: "unat (of_nat ?n :: 32 word) = ?n"
  proof -
    have "unat (of_nat k :: 32 word) = k" if "k < 2 ^ 32" for k using that by (simp add: unat_of_nat)
    from this [of ?n] show ?thesis using assms(2) unfolding n .
  qed
  have c1: "read_chunk (text_bytes ''JSON'') (u32_bytes (of_nat (length ?js)) @ text_bytes ''JSON'' @ ?js @ r) = Some (?js, r)" for r
    by (rule read_chunk_written) (use assms(2) n pad4_length(1) in simp_all)
  have c2: "read_chunk (text_bytes ''BIN'' @ [0]) (u32_bytes (of_nat (length ?bin)) @ (text_bytes ''BIN'' @ [0]) @ ?bin @ []) = Some (?bin, [])"
    by (rule read_chunk_written) (use assms(2) n pad4_length(1) in simp_all)
  have h: "read_words 2 (u32_bytes 2 @ u32_bytes (of_nat ?n) @ r) = Some ([2, of_nat ?n], r)" for r
    using read_words_written [of "[2, of_nat ?n]" r] by (simp add: words_bytes_def numeral_2_eq_2)
  have "take 4 bs = text_bytes ''glTF''" "drop 4 bs = u32_bytes 2 @ u32_bytes (of_nat ?n)
      @ u32_bytes (of_nat (length ?js)) @ text_bytes ''JSON'' @ ?js
      @ u32_bytes (of_nat (length ?bin)) @ (text_bytes ''BIN'' @ [0]) @ ?bin"
    unfolding bs by (simp_all add: text_bytes_def)
  then have "read_glb bs = Some (?js, ?bin)"
    unfolding read_glb_def by (simp only: h c1 c2 [unfolded append_Nil2] u n option.case list.case prod.case not_True_eq_False
        simp_thms if_False)
  then show ?thesis using bin l by (simp add: vec3_words_concat)
qed

theorem glb_roundtrip_witness:
  "\<forall>bits. \<exists>bs. glb_bytes (\<lambda>j. ''{}'') bits one_triangle = Inr bs \<and> length bs = 92 \<and> read_glb bs \<noteq> None"
proof
  fix bits
  have v: "length (me_vertices one_triangle) = 3" "length (me_indices one_triangle) = 6"
    "me_vertices one_triangle \<noteq> []" "me_indices one_triangle \<noteq> []" by (simp_all add: one_triangle_def)
  have b: "length (glb_bin bits one_triangle) = 60"
    unfolding glb_bin_def Let_def using glb_layout_exact [of one_triangle] v by (simp add: vec3_words_concat)
  obtain bs where bs: "glb_bytes (\<lambda>j. ''{}'') bits one_triangle = Inr bs" using v by (simp add: glb_bytes_def Let_def)
  moreover have "length bs = 92"
    using bs b v by (auto simp: glb_bytes_def Let_def throw_if_Inr_iff pad4_def)
  ultimately show "\<exists>bs. glb_bytes (\<lambda>j. ''{}'') bits one_triangle = Inr bs \<and> length bs = 92 \<and> read_glb bs \<noteq> None"
    using glb_roundtrip [OF bs] v by (intro exI [of _ bs]) simp
qed

text \<open>
  A mesh file at its path is never partial: after a success it has exactly the bytes of the mesh, after a
  failure it is what it was before or absent, no temporary file is left behind, and no other file is touched.
\<close>
theorem mesh_file_complete:
  "case write_mesh_file out label path bytes fs of (fs', r) \<Rightarrow>
    fs' path = (case r of Inr _ \<Rightarrow> Some bytes
                 | Inl _ \<Rightarrow> if fo_opened out \<and> fo_written out then None else fs path)
    \<and> fs' (temp_path path) = (if fo_opened out then None else fs (temp_path path))
    \<and> (\<forall>q. q \<notin> {path, temp_path path} \<longrightarrow> fs' q = fs q)"
proof -
  have "temp_path path \<noteq> path" by (simp add: temp_path_def)
  then show ?thesis by (auto simp: write_mesh_file_def finalize_temp_file_def Let_def)
qed

end
