(* ===== verification/OrbitLexer.thy ===== *)
theory OrbitLexer
  imports IeeeFloat
begin

text \<open>
  The lexer of the Orbit formula language (\<^verbatim>\<open>Lexer\<close> in \<^verbatim>\<open>compute/orbit_program.cpp\<close>), with the part
  of \<^verbatim>\<open>std::strtod\<close> that it can reach: it is called on a digit or a point only, so there is no
  sign, no leading space, no \<^verbatim>\<open>inf\<close> and no \<^verbatim>\<open>nan\<close>. The conversion is the correctly rounded one of
  theory \<open>IeeeFloat\<close>.
\<close>

section \<open>Number conversion\<close>

definition is_xdigit :: "char \<Rightarrow> bool" where
  "is_xdigit c \<longleftrightarrow> is_digit c \<or> 65 \<le> char_code c \<and> char_code c \<le> 70
     \<or> 97 \<le> char_code c \<and> char_code c \<le> 102"

definition xdigit_val :: "char \<Rightarrow> nat" where
  "xdigit_val c = (if is_digit c then digit_val c
     else if char_code c \<le> 70 then char_code c - 55 else char_code c - 87)"

definition digits_value :: "nat \<Rightarrow> (char \<Rightarrow> nat) \<Rightarrow> string \<Rightarrow> nat" where
  "digits_value base v ds = foldl (\<lambda>a d. base * a + v d) 0 ds"

text \<open>
  An optional exponent: the marker, an optional sign and at least one decimal digit, else nothing
  is consumed. The result is the exponent and the number of characters it takes.
\<close>

definition exponent_part :: "char list \<Rightarrow> string \<Rightarrow> int \<times> nat" where
  "exponent_part markers s =
    (case s of
       [] \<Rightarrow> (0, 0)
     | m # rest \<Rightarrow>
         let sign = (if rest \<noteq> [] \<and> (hd rest = CHR ''-'' \<or> hd rest = CHR ''+'') then 1 else 0);
             neg = (sign = 1 \<and> hd rest = CHR ''-'');
             ds = takeWhile is_digit (drop sign rest);
             k = int (digits_value 10 digit_val ds)
         in if m \<in> set markers \<and> ds \<noteq> []
            then ((if neg then - k else k), 1 + sign + length ds) else (0, 0))"

text \<open>Digits, an optional point and more digits: integer part, fraction, characters taken.\<close>

definition mantissa_part :: "(char \<Rightarrow> bool) \<Rightarrow> string \<Rightarrow> string \<times> string \<times> nat" where
  "mantissa_part isd s =
    (let ip = takeWhile isd s; rest = drop (length ip) s in
     if rest \<noteq> [] \<and> hd rest = CHR ''.''
     then let fp = takeWhile isd (tl rest) in (ip, fp, length ip + 1 + length fp)
     else (ip, [], length ip))"

definition strtod_dec :: "string \<Rightarrow> (fl \<times> nat) option" where
  "strtod_dec s =
    (let (ip, fp, n) = mantissa_part is_digit s in
     if ip = [] \<and> fp = [] then None
     else let (e, k) = exponent_part ''eE'' (drop n s);
              m = of_nat (digits_value 10 digit_val (ip @ fp)) * 10 powi (e - int (length fp))
          in Some (rnd b64 m, n + k))"

definition strtod_hex :: "string \<Rightarrow> (fl \<times> nat) option" where
  "strtod_hex s =
    (let (ip, fp, n) = mantissa_part is_xdigit s in
     if ip = [] \<and> fp = [] then None
     else let (e, k) = exponent_part ''pP'' (drop n s);
              m = of_nat (digits_value 16 xdigit_val (ip @ fp)) * 2 powi (e - 4 * int (length fp))
          in Some (rnd b64 m, n + k))"

text \<open>The value and the number of characters consumed; \<open>None\<close> when \<^verbatim>\<open>end == begin\<close>.\<close>

definition strtod :: "string \<Rightarrow> (fl \<times> nat) option" where
  "strtod s =
    (if take 2 s = ''0x'' \<or> take 2 s = ''0X'' then
       (case strtod_hex (drop 2 s) of
          Some (v, n) \<Rightarrow> Some (v, n + 2)
        | None \<Rightarrow> strtod_dec s)
     else strtod_dec s)"

section \<open>Tokens\<close>

datatype token_kind =
    T_End | T_Number | T_Identifier | T_Plus | T_Minus | T_Star | T_Slash | T_Caret
  | T_LParen | T_RParen | T_Comma

record token =
  tk_kind :: token_kind
  tk_text :: string
  tk_number :: fl
  tk_position :: nat

definition mk_token :: "token_kind \<Rightarrow> string \<Rightarrow> fl \<Rightarrow> nat \<Rightarrow> token" where
  "mk_token k s v p = \<lparr>tk_kind = k, tk_text = s, tk_number = v, tk_position = p\<rparr>"

definition punctuation :: "char \<Rightarrow> token_kind option" where
  "punctuation ch =
    (if ch = CHR ''+'' then Some T_Plus else if ch = CHR ''-'' then Some T_Minus
     else if ch = CHR ''*'' then Some T_Star else if ch = CHR ''/'' then Some T_Slash
     else if ch = CHR ''^'' then Some T_Caret else if ch = CHR ''('' then Some T_LParen
     else if ch = CHR '')'' then Some T_RParen else if ch = CHR '','' then Some T_Comma
     else None)"

definition is_ident_char :: "char \<Rightarrow> bool" where
  "is_ident_char ch \<longleftrightarrow> is_alnum ch \<or> ch = CHR ''_''"

text \<open>\<^verbatim>\<open>Lexer::next\<close>: the token at \<open>pos\<close> and the position after it.\<close>

definition lex_next :: "string \<Rightarrow> nat \<Rightarrow> (token \<times> nat) res" where
  "lex_next source pos =
    (let start = pos + length (takeWhile is_space (drop pos source)) in
     case drop start source of
       [] \<Rightarrow> Inr (mk_token T_End [] (Fin 0) start, start)
     | ch # rest \<Rightarrow>
         (case punctuation ch of
            Some k \<Rightarrow> Inr (mk_token k [ch] (Fin 0) start, start + 1)
          | None \<Rightarrow>
              if is_digit ch \<or> ch = CHR ''.'' then
                (case strtod (ch # rest) of
                   None \<Rightarrow> Inl (FormulaError ''INVALID_NUMBER'' start ''invalid or non-finite number'')
                 | Some (v, n) \<Rightarrow>
                     if \<not> fis_finite v
                     then Inl (FormulaError ''INVALID_NUMBER'' start ''invalid or non-finite number'')
                     else Inr (mk_token T_Number (take n (ch # rest)) v start, start + n))
              else if is_alpha ch \<or> ch = CHR ''_'' then
                let n = length (takeWhile is_ident_char rest)
                in Inr (mk_token T_Identifier (take (n + 1) (ch # rest)) (Fin 0) start, start + n + 1)
              else Inl (FormulaError ''INVALID_CHARACTER'' start
                     ''character is not part of the formula DSL'')))"

section \<open>Progress\<close>

declare takeWhile_length_le [simp del]

lemma mantissa_part_length:
  assumes "mantissa_part isd s = (ip, fp, n)"
  shows "n \<le> length s \<and> length ip + length fp \<le> n"
proof -
  define rest where "rest = drop (length (takeWhile isd s)) s"
  have len: "length (takeWhile isd s) + length rest = length s"
    unfolding rest_def by (simp add: length_takeWhile_le)
  have m: "mantissa_part isd s =
    (if rest \<noteq> [] \<and> hd rest = CHR ''.''
     then (takeWhile isd s, takeWhile isd (tl rest),
           length (takeWhile isd s) + 1 + length (takeWhile isd (tl rest)))
     else (takeWhile isd s, [], length (takeWhile isd s)))"
    by (simp add: mantissa_part_def Let_def rest_def)
  show ?thesis
  proof (cases "rest \<noteq> [] \<and> hd rest = CHR ''.''")
    case True
    then have "length (takeWhile isd (tl rest)) + 1 \<le> length rest"
      using length_takeWhile_le [of isd "tl rest"] by (cases rest) auto
    with True m assms len show ?thesis by auto
  next
    case False
    with m assms len show ?thesis by auto
  qed
qed

lemma exponent_part_length:
  assumes "exponent_part ms s = (e, k)"
  shows "k \<le> length s"
proof (cases s)
  case Nil
  with assms show ?thesis by (simp add: exponent_part_def)
next
  case (Cons m rest)
  have "length (takeWhile is_digit (drop j rest)) \<le> length rest - j" for j
    using length_takeWhile_le [of is_digit "drop j rest"] by simp
  from this [of 0] this [of 1] assms Cons show ?thesis
    by (cases rest) (auto simp: exponent_part_def Let_def split: if_splits)
qed

lemma strtod_dec_length:
  assumes "strtod_dec s = Some (v, n)"
  shows "0 < n \<and> n \<le> length s"
proof -
  obtain ip fp m where m: "mantissa_part is_digit s = (ip, fp, m)" by (cases "mantissa_part is_digit s")
  obtain e k where e: "exponent_part ''eE'' (drop m s) = (e, k)" by (cases "exponent_part ''eE'' (drop m s)")
  have "ip \<noteq> [] \<or> fp \<noteq> []" "n = m + k"
    using assms by (auto simp: strtod_dec_def m e split: if_splits)
  moreover from this(1) have "0 < length ip + length fp" by (cases ip; cases fp) auto
  moreover have "m \<le> length s" "length ip + length fp \<le> m" "k \<le> length s - m"
    using mantissa_part_length [OF m] exponent_part_length [OF e] by simp_all
  ultimately show ?thesis by linarith
qed

lemma strtod_hex_length:
  assumes "strtod_hex s = Some (v, n)"
  shows "n \<le> length s"
proof -
  obtain ip fp m where m: "mantissa_part is_xdigit s = (ip, fp, m)" by (cases "mantissa_part is_xdigit s")
  obtain e k where e: "exponent_part ''pP'' (drop m s) = (e, k)" by (cases "exponent_part ''pP'' (drop m s)")
  have "n = m + k" using assms by (auto simp: strtod_hex_def m e split: if_splits)
  then show ?thesis
    using mantissa_part_length [OF m] exponent_part_length [OF e] by auto
qed

lemma strtod_length: "strtod s = Some (v, n) \<Longrightarrow> 0 < n \<and> n \<le> length s"
proof -
  assume s: "strtod s = Some (v, n)"
  show ?thesis
  proof (cases "(take 2 s = ''0x'' \<or> take 2 s = ''0X'') \<and> strtod_hex (drop 2 s) \<noteq> None")
    case True
    then obtain m where "strtod_hex (drop 2 s) = Some (v, m)" "n = m + 2"
      using s by (auto simp: strtod_def)
    moreover have "2 \<le> length s" using True by (cases s; cases "tl s") auto
    ultimately show ?thesis using strtod_hex_length [of "drop 2 s" v m] by simp
  next
    case False
    then have "strtod_dec s = Some (v, n)"
      using s by (auto simp: strtod_def split: if_splits option.splits)
    then show ?thesis by (rule strtod_dec_length)
  qed
qed

text \<open>Every token but the last one consumes a character, and no token reads past the source.\<close>

lemma lex_next_progress:
  assumes "lex_next src pos = Inr (t, pos')" and "pos \<le> length src"
  shows "pos \<le> pos' \<and> pos' \<le> length src \<and> (tk_kind t \<noteq> T_End \<longrightarrow> pos < pos')"
proof -
  define start where "start = pos + length (takeWhile is_space (drop pos src))"
  have st: "pos \<le> start" "start \<le> length src"
    using length_takeWhile_le [of is_space "drop pos src"] assms(2) by (auto simp: start_def)
  show ?thesis
  proof (cases "drop start src")
    case Nil
    with assms(1) st show ?thesis
      by (auto simp: lex_next_def Let_def start_def [symmetric] mk_token_def)
  next
    case (Cons ch rest)
    then have len: "start + 1 + length rest = length src"
      by (metis add.commute add_diff_cancel_right' drop_eq_Nil2 length_Cons length_drop linorder_not_le
          list.distinct(1) add_Suc_right le_add_diff_inverse less_or_eq_imp_le plus_1_eq_Suc)
    have id: "length (takeWhile is_ident_char rest) \<le> length rest" by (rule length_takeWhile_le)
    have sd: "strtod (ch # rest) = Some (v, n) \<Longrightarrow> 0 < n \<and> n \<le> Suc (length rest)" for v n
      using strtod_length by fastforce
    from assms(1) show ?thesis
      unfolding lex_next_def Let_def start_def [symmetric] Cons
      using st len id sd by (fastforce split: option.splits if_splits simp: mk_token_def)
  qed
qed

lemma lex_next_error: "lex_next src pos = Inl e \<Longrightarrow> \<exists>code p msg. e = FormulaError code p msg"
  by (auto simp: lex_next_def Let_def split: list.splits option.splits if_splits)

end
