(* ===== verification/OrbitParser.thy ===== *)
theory OrbitParser
  imports OrbitLexer
begin

text \<open>
  The parser of the Orbit formula language (\<^verbatim>\<open>Parser\<close> in \<^verbatim>\<open>compute/orbit_program.cpp\<close>): a Pratt
  parser with the limits of 256 nodes and nesting 32. Its methods are mutually recursive; they take
  a fuel here and return \<open>None\<close> when it runs out. \<open>parse_fuel_enough\<close> below shows that the
  length of the source plus two is always enough, so \<open>parse\<close> never returns \<open>None\<close>.
\<close>

definition MAX_AST_NODES :: nat where "MAX_AST_NODES = 256"
definition MAX_AST_DEPTH :: nat where "MAX_AST_DEPTH = 32"

datatype node_kind = N_Number | N_Variable | N_Unary | N_Binary | N_Call

datatype orbit_type = Real_Type | Complex_Type

datatype node = Node (n_kind: node_kind) (n_text: string) (n_number: fl) (n_position: nat)
  (n_children: "node list") (n_type: orbit_type)

record pstate =
  ps_pos :: nat
  ps_current :: token
  ps_count :: nat

type_synonym 'a pres = "('a \<times> pstate) res option"

definition p_bind :: "'a pres \<Rightarrow> ('a \<Rightarrow> pstate \<Rightarrow> 'b pres) \<Rightarrow> 'b pres" where
  "p_bind m f =
    (case m of
       None \<Rightarrow> None
     | Some (Inl e) \<Rightarrow> Some (Inl e)
     | Some (Inr (x, s)) \<Rightarrow> f x s)"

definition p_return :: "'a \<Rightarrow> pstate \<Rightarrow> 'a pres" where
  "p_return x s = Some (Inr (x, s))"

definition p_fail :: "string \<Rightarrow> token \<Rightarrow> string \<Rightarrow> 'a pres" where
  "p_fail code t msg = Some (Inl (FormulaError code (tk_position t) msg))"

section \<open>The parser\<close>

definition left_binding_power :: "token_kind \<Rightarrow> nat" where
  "left_binding_power k =
    (if k = T_Plus \<or> k = T_Minus then 10
     else if k = T_Star \<or> k = T_Slash then 20
     else if k = T_Caret then 30 else 0)"

definition make_node :: "node_kind \<Rightarrow> token \<Rightarrow> nat \<Rightarrow> pstate \<Rightarrow> (node list \<Rightarrow> node) pres" where
  "make_node kind t depth s =
    (if depth > MAX_AST_DEPTH then p_fail ''FORMULA_TOO_DEEP'' t ''formula nesting exceeds 32 levels''
     else if ps_count s + 1 > MAX_AST_NODES
     then p_fail ''FORMULA_TOO_COMPLEX'' t ''formula exceeds 256 AST nodes''
     else p_return (\<lambda>cs. Node kind (tk_text t) (tk_number t) (tk_position t) cs Complex_Type)
            (s\<lparr>ps_count := ps_count s + 1\<rparr>))"

definition advance :: "string \<Rightarrow> pstate \<Rightarrow> unit pres" where
  "advance src s =
    (case lex_next src (ps_pos s) of
       Inl e \<Rightarrow> Some (Inl e)
     | Inr (t, p) \<Rightarrow> Some (Inr ((), s\<lparr>ps_pos := p, ps_current := t\<rparr>)))"

definition reserved_variables :: "string list" where
  "reserved_variables = [''z'', ''c'', ''n'', ''i'', ''pi'', ''e'']"

definition function_arities :: "(string \<times> nat) list" where
  "function_arities =
   [(''sin'', 1), (''cos'', 1), (''tan'', 1), (''exp'', 1), (''log'', 1), (''sqrt'', 1), (''abs'', 1),
    (''conj'', 1), (''sinh'', 1), (''cosh'', 1), (''tanh'', 1), (''real'', 1), (''imag'', 1), (''pow'', 2)]"

definition expected_rparen :: string where
  "expected_rparen = ''expected '' @ [CHR 0x27, CHR '')'', CHR 0x27]"

text \<open>
  The methods take the recursive call of \<^verbatim>\<open>expression\<close> as an argument \<open>E\<close> (right binding power,
  depth); \<open>expression\<close> below ties the knot. The two loops, \<^verbatim>\<open>while\<close> in \<^verbatim>\<open>expression\<close> and
  \<^verbatim>\<open>for (;;)\<close> over the arguments of a call, are recursions of their own.
\<close>

type_synonym expr_parser = "nat \<Rightarrow> nat \<Rightarrow> pstate \<Rightarrow> node pres"

definition infix_expr :: "expr_parser \<Rightarrow> token \<Rightarrow> node \<Rightarrow> nat \<Rightarrow> pstate \<Rightarrow> node pres" where
  "infix_expr E t left depth s =
    p_bind (make_node N_Binary t depth s) (\<lambda>mk s.
    let binding = left_binding_power (tk_kind t) in
    p_bind (E (if tk_kind t = T_Caret then binding - 1 else binding) (depth + 1) s) (\<lambda>e s.
    p_return (mk [left, e]) s))"

primrec infix_loop ::
    "nat \<Rightarrow> string \<Rightarrow> expr_parser \<Rightarrow> nat \<Rightarrow> nat \<Rightarrow> node \<Rightarrow> pstate \<Rightarrow> node pres" where
  "infix_loop 0 src E rbp depth left s = None"
| "infix_loop (Suc k) src E rbp depth left s =
    (if rbp < left_binding_power (tk_kind (ps_current s)) then
       let t = ps_current s in
       p_bind (advance src s) (\<lambda>_ s.
       p_bind (infix_expr E t left depth s) (\<lambda>left s.
       infix_loop k src E rbp depth left s))
     else p_return left s)"

primrec call_args ::
    "nat \<Rightarrow> string \<Rightarrow> expr_parser \<Rightarrow> nat \<Rightarrow> node list \<Rightarrow> pstate \<Rightarrow> node list pres" where
  "call_args 0 src E depth acc s = None"
| "call_args (Suc k) src E depth acc s =
    p_bind (E 0 (depth + 1) s) (\<lambda>e s.
    if tk_kind (ps_current s) \<noteq> T_Comma then p_return (acc @ [e]) s
    else p_bind (advance src s) (\<lambda>_ s. call_args k src E depth (acc @ [e]) s))"

definition call_expr ::
    "nat \<Rightarrow> string \<Rightarrow> expr_parser \<Rightarrow> token \<Rightarrow> nat \<Rightarrow> pstate \<Rightarrow> node pres" where
  "call_expr k src E t depth s =
    (case map_of function_arities (tk_text t) of
       None \<Rightarrow> p_fail ''UNKNOWN_FUNCTION'' t (''unknown function: '' @ tk_text t)
     | Some arity \<Rightarrow>
         p_bind (advance src s) (\<lambda>_ s.
         p_bind (make_node N_Call t depth s) (\<lambda>mk s.
         p_bind (if tk_kind (ps_current s) \<noteq> T_RParen then call_args k src E depth [] s
                 else p_return [] s) (\<lambda>cs s.
         if tk_kind (ps_current s) \<noteq> T_RParen
         then p_fail ''EXPECTED_RPAREN'' (ps_current s) (expected_rparen @ '' after arguments'')
         else p_bind (advance src s) (\<lambda>_ s.
         if length cs \<noteq> arity
         then p_fail ''INVALID_ARITY'' t (tk_text t @ '' expects '' @ nat_digits arity @ '' argument(s)'')
         else p_return (mk cs) s)))))"

definition prefix_expr ::
    "nat \<Rightarrow> string \<Rightarrow> string list \<Rightarrow> expr_parser \<Rightarrow> token \<Rightarrow> nat \<Rightarrow> pstate \<Rightarrow> node pres" where
  "prefix_expr k src ps E t depth s =
    (if tk_kind t = T_Number then
       p_bind (make_node N_Number t depth s) (\<lambda>mk s. p_return (mk []) s)
     else if tk_kind t = T_Plus \<or> tk_kind t = T_Minus then
       p_bind (make_node N_Unary t depth s) (\<lambda>mk s.
       p_bind (E 25 (depth + 1) s) (\<lambda>e s. p_return (mk [e]) s))
     else if tk_kind t = T_LParen then
       p_bind (E 0 (depth + 1) s) (\<lambda>e s.
       if tk_kind (ps_current s) \<noteq> T_RParen
       then p_fail ''EXPECTED_RPAREN'' (ps_current s) expected_rparen
       else p_bind (advance src s) (\<lambda>_ s. p_return e s))
     else if tk_kind t \<noteq> T_Identifier
     then p_fail ''EXPECTED_EXPRESSION'' t ''expected expression''
     else if tk_kind (ps_current s) \<noteq> T_LParen then
       (if tk_text t \<notin> set reserved_variables \<and> tk_text t \<notin> set ps
        then p_fail ''UNKNOWN_IDENTIFIER'' t (''unknown variable or parameter: '' @ tk_text t)
        else p_bind (make_node N_Variable t depth s) (\<lambda>mk s. p_return (mk []) s))
     else call_expr k src E t depth s)"

primrec expression :: "nat \<Rightarrow> string \<Rightarrow> string list \<Rightarrow> expr_parser" where
  "expression 0 src ps = (\<lambda>rbp depth s. None)"
| "expression (Suc k) src ps = (\<lambda>rbp depth s.
     let t = ps_current s in
     p_bind (advance src s) (\<lambda>_ s.
     p_bind (prefix_expr k src ps (expression k src ps) t depth s) (\<lambda>left s.
     infix_loop k src (expression k src ps) rbp depth left s)))"

definition parse_fuel :: "string \<Rightarrow> nat" where
  "parse_fuel src = length src + 2"

text \<open>Construction of the parser and \<^verbatim>\<open>parse()\<close>: the tree and the final node count.\<close>

definition parse :: "string \<Rightarrow> string list \<Rightarrow> (node \<times> nat) res option" where
  "parse src ps =
    (case lex_next src 0 of
       Inl e \<Rightarrow> Some (Inl e)
     | Inr (t, p) \<Rightarrow>
         (case expression (parse_fuel src) src ps 0 1 \<lparr>ps_pos = p, ps_current = t, ps_count = 0\<rparr> of
            None \<Rightarrow> None
          | Some (Inl e) \<Rightarrow> Some (Inl e)
          | Some (Inr (tree, s)) \<Rightarrow>
              if tk_kind (ps_current s) \<noteq> T_End
              then Some (Inl (FormulaError ''UNEXPECTED_TOKEN'' (tk_position (ps_current s))
                     ''unexpected token after formula''))
              else Some (Inr (tree, ps_count s))))"

section \<open>What the parser guarantees\<close>

fun node_size :: "node \<Rightarrow> nat" where
  "node_size (Node k t v p cs ty) = 1 + sum_list (map node_size cs)"

text \<open>A node the compiler can handle: arities, names and operators as the grammar has them.\<close>

fun wf_node :: "string list \<Rightarrow> node \<Rightarrow> bool" where
  "wf_node ps (Node k t v p cs ty) \<longleftrightarrow>
    (\<forall>c\<in>set cs. wf_node ps c) \<and>
    (case k of
       N_Number \<Rightarrow> cs = [] \<and> fis_finite v
     | N_Variable \<Rightarrow> cs = [] \<and> (t \<in> set reserved_variables \<or> t \<in> set ps)
     | N_Unary \<Rightarrow> length cs = 1 \<and> t \<in> {''+'', ''-''}
     | N_Binary \<Rightarrow> length cs = 2 \<and> t \<in> {''+'', ''-'', ''*'', ''/'', ''^''}
     | N_Call \<Rightarrow> map_of function_arities t = Some (length cs))"

definition tok_ok :: "token \<Rightarrow> bool" where
  "tok_ok t \<longleftrightarrow>
    (case tk_kind t of
       T_Number \<Rightarrow> fis_finite (tk_number t)
     | T_Plus \<Rightarrow> tk_text t = ''+'' | T_Minus \<Rightarrow> tk_text t = ''-'' | T_Star \<Rightarrow> tk_text t = ''*''
     | T_Slash \<Rightarrow> tk_text t = ''/'' | T_Caret \<Rightarrow> tk_text t = ''^'' | _ \<Rightarrow> True)"

text \<open>Characters left, the current token included: the measure of the parser.\<close>

definition remaining :: "string \<Rightarrow> pstate \<Rightarrow> nat" where
  "remaining src s = length src - ps_pos s + (if tk_kind (ps_current s) = T_End then 0 else 1)"

definition p_inv :: "string \<Rightarrow> pstate \<Rightarrow> bool" where
  "p_inv src s \<longleftrightarrow> ps_pos s \<le> length src \<and> tok_ok (ps_current s) \<and> ps_count s \<le> MAX_AST_NODES"

text \<open>A run that ends, fails only with a formula error, and otherwise satisfies \<open>Q\<close>.\<close>

definition p_spec :: "'a pres \<Rightarrow> ('a \<Rightarrow> pstate \<Rightarrow> bool) \<Rightarrow> bool" where
  "p_spec m Q \<longleftrightarrow>
    (case m of
       None \<Rightarrow> False
     | Some (Inl e) \<Rightarrow> (\<exists>code pos msg. e = FormulaError code pos msg)
     | Some (Inr (x, s)) \<Rightarrow> Q x s)"

lemma p_spec_return [simp]: "p_spec (p_return x s) Q \<longleftrightarrow> Q x s"
  by (simp add: p_spec_def p_return_def)

lemma p_spec_fail [simp]: "p_spec (p_fail c t m) Q"
  by (simp add: p_spec_def p_fail_def)

lemma p_spec_bind:
  assumes "p_spec m Q" and "\<And>x s. Q x s \<Longrightarrow> p_spec (f x s) R"
  shows "p_spec (p_bind m f) R"
proof (cases m)
  case None
  then show ?thesis using assms(1) by (simp add: p_spec_def)
next
  case (Some r)
  show ?thesis
  proof (cases r)
    case (Inl e)
    then show ?thesis using assms(1) Some by (simp add: p_spec_def p_bind_def)
  next
    case (Inr xs)
    obtain x s where "xs = (x, s)" by (cases xs)
    then show ?thesis using assms(1) assms(2) [of x s] Some Inr
      by (simp add: p_bind_def) (simp add: p_spec_def)
  qed
qed

lemma p_spec_mono: "p_spec m Q \<Longrightarrow> (\<And>x s. Q x s \<Longrightarrow> R x s) \<Longrightarrow> p_spec m R"
  by (auto simp: p_spec_def split: option.splits sum.splits)

lemma punctuation_tok_ok: "punctuation ch = Some k \<Longrightarrow> tok_ok (mk_token k [ch] v p)"
  by (auto simp: punctuation_def tok_ok_def mk_token_def split: if_splits)

lemma lex_next_tok_ok: "lex_next src pos = Inr (t, p) \<Longrightarrow> tok_ok t"
proof -
  have k: "tok_ok (mk_token T_End x v p)" "tok_ok (mk_token T_Identifier x v p)"
    "tok_ok (mk_token T_Number x v p) \<longleftrightarrow> fis_finite v" for x v p
    by (simp_all add: tok_ok_def mk_token_def)
  show "lex_next src pos = Inr (t, p) \<Longrightarrow> tok_ok t"
    by (auto simp: lex_next_def Let_def k punctuation_tok_ok
        split: list.splits option.splits if_splits)
qed

lemma advance_spec:
  assumes "p_inv src s"
  shows "p_spec (advance src s) (\<lambda>_ s'. p_inv src s' \<and> ps_count s' = ps_count s \<and>
    remaining src s' \<le> remaining src s - (if tk_kind (ps_current s) = T_End then 0 else 1))"
proof (cases "lex_next src (ps_pos s)")
  case (Inl e)
  then show ?thesis using lex_next_error [OF Inl] by (simp add: advance_def p_spec_def)
next
  case (Inr tp)
  obtain t p where tp: "tp = (t, p)" by (cases tp)
  have "ps_pos s \<le> p \<and> p \<le> length src \<and> (tk_kind t \<noteq> T_End \<longrightarrow> ps_pos s < p)" "tok_ok t"
    using lex_next_progress [of src "ps_pos s" t p] lex_next_tok_ok [of src "ps_pos s" t p] Inr tp assms
    by (simp_all add: p_inv_def)
  with assms show ?thesis
    by (auto simp: advance_def Inr tp p_spec_def p_inv_def remaining_def)
qed

lemma make_node_spec:
  assumes "p_inv src s"
  shows "p_spec (make_node k t depth s) (\<lambda>mk s'. p_inv src s' \<and> ps_count s' = ps_count s + 1 \<and>
    remaining src s' = remaining src s \<and> ps_current s' = ps_current s \<and>
    mk = (\<lambda>cs. Node k (tk_text t) (tk_number t) (tk_position t) cs Complex_Type))"
  using assms by (auto simp: make_node_def p_inv_def remaining_def)

text \<open>The contract of \<^verbatim>\<open>expression\<close>, when at most \<open>n\<close> characters are left.\<close>

definition node_post :: "string \<Rightarrow> string list \<Rightarrow> pstate \<Rightarrow> nat \<Rightarrow> node \<Rightarrow> pstate \<Rightarrow> bool" where
  "node_post src ps s m e s' \<longleftrightarrow>
    p_inv src s' \<and> wf_node ps e \<and> ps_count s' + m = ps_count s + node_size e
    \<and> remaining src s' \<le> remaining src s"

definition E_ok :: "string \<Rightarrow> string list \<Rightarrow> nat \<Rightarrow> expr_parser \<Rightarrow> bool" where
  "E_ok src ps n E \<longleftrightarrow>
    (\<forall>rbp depth s. p_inv src s \<and> remaining src s \<le> n \<longrightarrow> p_spec (E rbp depth s) (node_post src ps s 0))"

lemma E_okD:
  "E_ok src ps n E \<Longrightarrow> p_inv src s \<Longrightarrow> remaining src s \<le> n
   \<Longrightarrow> p_spec (E rbp depth s) (node_post src ps s 0)"
  by (simp add: E_ok_def)

lemma infix_spec:
  assumes E: "E_ok src ps n E" and s: "p_inv src s" "remaining src s \<le> n" and l: "wf_node ps left"
    and t: "tok_ok t" "0 < left_binding_power (tk_kind t)"
  shows "p_spec (infix_expr E t left depth s) (node_post src ps s (node_size left))"
  unfolding infix_expr_def
proof (rule p_spec_bind [OF make_node_spec [OF s(1)]])
  fix mk s1
  assume 1: "p_inv src s1 \<and> ps_count s1 = ps_count s + 1 \<and> remaining src s1 = remaining src s \<and>
    ps_current s1 = ps_current s \<and>
    mk = (\<lambda>cs. Node N_Binary (tk_text t) (tk_number t) (tk_position t) cs Complex_Type)"
  have op: "tk_text t \<in> {''+'', ''-'', ''*'', ''/'', ''^''}"
    using t by (cases "tk_kind t") (auto simp: tok_ok_def left_binding_power_def)
  show "p_spec (let binding = left_binding_power (tk_kind t) in
      p_bind (E (if tk_kind t = T_Caret then binding - 1 else binding) (depth + 1) s1)
        (\<lambda>e s. p_return (mk [left, e]) s)) (node_post src ps s (node_size left))"
    unfolding Let_def
    by (rule p_spec_bind [OF E_okD [OF E]]) (use 1 s l op in \<open>auto simp: node_post_def\<close>)
qed

lemma loop_spec:
  assumes E: "E_ok src ps n E"
  shows "p_inv src s \<Longrightarrow> remaining src s \<le> n \<Longrightarrow> remaining src s < k \<Longrightarrow> wf_node ps left
    \<Longrightarrow> p_spec (infix_loop k src E rbp depth left s) (node_post src ps s (node_size left))"
proof (induction k arbitrary: s left)
  case 0
  then show ?case by simp
next
  case (Suc k)
  show ?case
  proof (cases "rbp < left_binding_power (tk_kind (ps_current s))")
    case False
    with Suc.prems show ?thesis by (simp add: node_post_def)
  next
    case True
    let ?t = "ps_current s"
    have ne: "tk_kind ?t \<noteq> T_End" using True by (auto simp: left_binding_power_def)
    have tok: "tok_ok ?t" using Suc.prems(1) by (simp add: p_inv_def)
    have r: "0 < remaining src s" using ne by (simp add: remaining_def)
    show ?thesis
      unfolding infix_loop.simps Let_def if_P [OF True]
    proof (rule p_spec_bind [OF advance_spec [OF Suc.prems(1)]], rule p_spec_bind)
      fix s1
      assume 1: "p_inv src s1 \<and> ps_count s1 = ps_count s \<and>
        remaining src s1 \<le> remaining src s - (if tk_kind ?t = T_End then 0 else 1)"
      show "p_spec (infix_expr E ?t left depth s1) (node_post src ps s1 (node_size left))"
        using 1 ne Suc.prems True by (intro infix_spec [OF E] tok) auto
      fix left' s2
      assume 2: "node_post src ps s1 (node_size left) left' s2"
      have "p_spec (infix_loop k src E rbp depth left' s2) (node_post src ps s2 (node_size left'))"
        using 1 2 ne r Suc.prems by (intro Suc.IH) (auto simp: node_post_def)
      then show "p_spec (infix_loop k src E rbp depth left' s2) (node_post src ps s (node_size left))"
        by (rule p_spec_mono) (use 1 2 in \<open>auto simp: node_post_def\<close>)
    qed
  qed
qed

definition args_post ::
    "string \<Rightarrow> string list \<Rightarrow> pstate \<Rightarrow> node list \<Rightarrow> node list \<Rightarrow> pstate \<Rightarrow> bool" where
  "args_post src ps s acc cs s' \<longleftrightarrow>
    p_inv src s' \<and> (\<forall>c\<in>set cs. wf_node ps c)
    \<and> ps_count s' + sum_list (map node_size acc) = ps_count s + sum_list (map node_size cs)
    \<and> remaining src s' \<le> remaining src s"

lemma args_spec:
  assumes E: "E_ok src ps n E"
  shows "p_inv src s \<Longrightarrow> remaining src s \<le> n \<Longrightarrow> remaining src s < k \<Longrightarrow> \<forall>c\<in>set acc. wf_node ps c
    \<Longrightarrow> p_spec (call_args k src E depth acc s) (args_post src ps s acc)"
proof (induction k arbitrary: s acc)
  case 0
  then show ?case by simp
next
  case (Suc k)
  show ?case
    unfolding call_args.simps
  proof (rule p_spec_bind [OF E_okD [OF E Suc.prems(1,2)]])
    fix e s1
    assume 1: "node_post src ps s 0 e s1"
    show "p_spec (if tk_kind (ps_current s1) \<noteq> T_Comma then p_return (acc @ [e]) s1
      else p_bind (advance src s1) (\<lambda>_. call_args k src E depth (acc @ [e]))) (args_post src ps s acc)"
    proof (cases "tk_kind (ps_current s1) = T_Comma")
      case False
      with 1 Suc.prems show ?thesis by (auto simp: node_post_def args_post_def)
    next
      case True
      then have r: "0 < remaining src s1" by (simp add: remaining_def)
      have i1: "p_inv src s1" using 1 by (simp add: node_post_def)
      have "p_spec (p_bind (advance src s1) (\<lambda>_. call_args k src E depth (acc @ [e]))) (args_post src ps s acc)"
      proof (rule p_spec_bind [OF advance_spec [OF i1]])
        fix s2
        assume 2: "p_inv src s2 \<and> ps_count s2 = ps_count s1 \<and>
          remaining src s2 \<le> remaining src s1 - (if tk_kind (ps_current s1) = T_End then 0 else 1)"
        have "p_spec (call_args k src E depth (acc @ [e]) s2) (args_post src ps s2 (acc @ [e]))"
          using 1 2 True r Suc.prems by (intro Suc.IH) (auto simp: node_post_def)
        then show "p_spec (call_args k src E depth (acc @ [e]) s2) (args_post src ps s acc)"
          by (rule p_spec_mono) (use 1 2 in \<open>auto simp: node_post_def args_post_def\<close>)
      qed
      with True show ?thesis by simp
    qed
  qed
qed

lemma call_spec:
  assumes E: "E_ok src ps n E" and s: "p_inv src s" "remaining src s \<le> n" "remaining src s \<le> k"
    and p: "tk_kind (ps_current s) = T_LParen"
  shows "p_spec (call_expr k src E t depth s) (node_post src ps s 0)"
proof (cases "map_of function_arities (tk_text t)")
  case None
  then show ?thesis by (simp add: call_expr_def)
next
  case (Some arity)
  have r: "0 < remaining src s" using p by (simp add: remaining_def)
  have body: "p_spec (p_bind (make_node N_Call t depth s1) (\<lambda>mk s.
      p_bind (if tk_kind (ps_current s) \<noteq> T_RParen then call_args k src E depth [] s else p_return [] s)
        (\<lambda>cs s. if tk_kind (ps_current s) \<noteq> T_RParen
          then p_fail ''EXPECTED_RPAREN'' (ps_current s) (expected_rparen @ '' after arguments'')
          else p_bind (advance src s) (\<lambda>_ s. if length cs \<noteq> arity
            then p_fail ''INVALID_ARITY'' t (tk_text t @ '' expects '' @ nat_digits arity @ '' argument(s)'')
            else p_return (mk cs) s)))) (node_post src ps s 0)"
    if 1: "p_inv src s1" "ps_count s1 = ps_count s" "remaining src s1 < remaining src s" for s1
  proof (rule p_spec_bind [OF make_node_spec [OF 1(1)]], rule p_spec_bind [where Q = "\<lambda>cs s'.
        p_inv src s' \<and> (\<forall>c\<in>set cs. wf_node ps c) \<and> remaining src s' \<le> remaining src s
        \<and> ps_count s' = ps_count s + 1 + sum_list (map node_size cs)"])
    fix mk s2
    assume 2: "p_inv src s2 \<and> ps_count s2 = ps_count s1 + 1 \<and> remaining src s2 = remaining src s1 \<and>
      ps_current s2 = ps_current s1 \<and>
      mk = (\<lambda>cs. Node N_Call (tk_text t) (tk_number t) (tk_position t) cs Complex_Type)"
    have "p_spec (call_args k src E depth [] s2) (args_post src ps s2 [])"
      using 1 2 s by (intro args_spec [OF E]) auto
    then have "p_spec (call_args k src E depth [] s2) (\<lambda>cs s'.
        p_inv src s' \<and> (\<forall>c\<in>set cs. wf_node ps c) \<and> remaining src s' \<le> remaining src s
        \<and> ps_count s' = ps_count s + 1 + sum_list (map node_size cs))"
      by (rule p_spec_mono) (use 1 2 in \<open>auto simp: args_post_def\<close>)
    then show "p_spec (if tk_kind (ps_current s2) \<noteq> T_RParen then call_args k src E depth [] s2
        else p_return [] s2) (\<lambda>cs s'.
        p_inv src s' \<and> (\<forall>c\<in>set cs. wf_node ps c) \<and> remaining src s' \<le> remaining src s
        \<and> ps_count s' = ps_count s + 1 + sum_list (map node_size cs))"
      using 1 2 by simp
    fix cs s3
    assume 3: "p_inv src s3 \<and> (\<forall>c\<in>set cs. wf_node ps c) \<and> remaining src s3 \<le> remaining src s
      \<and> ps_count s3 = ps_count s + 1 + sum_list (map node_size cs)"
    have "p_spec (p_bind (advance src s3) (\<lambda>_ s. if length cs \<noteq> arity
            then p_fail ''INVALID_ARITY'' t (tk_text t @ '' expects '' @ nat_digits arity @ '' argument(s)'')
            else p_return (mk cs) s)) (node_post src ps s 0)"
      by (rule p_spec_bind [OF advance_spec]) (use 2 3 Some in \<open>auto simp: node_post_def\<close>)
    then show "p_spec (if tk_kind (ps_current s3) \<noteq> T_RParen
          then p_fail ''EXPECTED_RPAREN'' (ps_current s3) (expected_rparen @ '' after arguments'')
          else p_bind (advance src s3) (\<lambda>_ s. if length cs \<noteq> arity
            then p_fail ''INVALID_ARITY'' t (tk_text t @ '' expects '' @ nat_digits arity @ '' argument(s)'')
            else p_return (mk cs) s)) (node_post src ps s 0)"
      by simp
  qed
  show ?thesis
    unfolding call_expr_def Some option.case
    by (rule p_spec_bind [OF advance_spec [OF s(1)]], rule body) (use p r in auto)
qed

lemma prefix_spec:
  assumes E: "E_ok src ps n E" and s: "p_inv src s" "remaining src s \<le> n" "remaining src s \<le> k"
    and t: "tok_ok t"
  shows "p_spec (prefix_expr k src ps E t depth s) (node_post src ps s 0)"
proof -
  note mk = make_node_spec [OF s(1)]
  have leaf: "p_spec (p_bind (make_node kd t depth s) (\<lambda>mk s. p_return (mk []) s)) (node_post src ps s 0)"
    if "wf_node ps (Node kd (tk_text t) (tk_number t) (tk_position t) [] Complex_Type)" for kd
    by (rule p_spec_bind [OF mk]) (use that in \<open>auto simp: node_post_def\<close>)
  have unary: "p_spec (p_bind (make_node N_Unary t depth s) (\<lambda>mk s.
       p_bind (E 25 (depth + 1) s) (\<lambda>e s. p_return (mk [e]) s))) (node_post src ps s 0)"
    if op: "tk_text t \<in> {''+'', ''-''}"
  proof (rule p_spec_bind [OF mk])
    fix mk s1
    assume 1: "p_inv src s1 \<and> ps_count s1 = ps_count s + 1 \<and> remaining src s1 = remaining src s \<and>
      ps_current s1 = ps_current s \<and>
      mk = (\<lambda>cs. Node N_Unary (tk_text t) (tk_number t) (tk_position t) cs Complex_Type)"
    show "p_spec (p_bind (E 25 (depth + 1) s1) (\<lambda>e s. p_return (mk [e]) s)) (node_post src ps s 0)"
      by (rule p_spec_bind [OF E_okD [OF E]]) (use 1 s op in \<open>auto simp: node_post_def\<close>)
  qed
  have paren: "p_spec (p_bind (E 0 (depth + 1) s) (\<lambda>e s.
       if tk_kind (ps_current s) \<noteq> T_RParen
       then p_fail ''EXPECTED_RPAREN'' (ps_current s) expected_rparen
       else p_bind (advance src s) (\<lambda>_ s. p_return e s))) (node_post src ps s 0)"
  proof (rule p_spec_bind [OF E_okD [OF E s(1,2)]])
    fix e s1
    assume 1: "node_post src ps s 0 e s1"
    have "p_spec (p_bind (advance src s1) (\<lambda>_ s. p_return e s)) (node_post src ps s 0)"
      by (rule p_spec_bind [OF advance_spec]) (use 1 in \<open>auto simp: node_post_def\<close>)
    then show "p_spec (if tk_kind (ps_current s1) \<noteq> T_RParen
       then p_fail ''EXPECTED_RPAREN'' (ps_current s1) expected_rparen
       else p_bind (advance src s1) (\<lambda>_ s. p_return e s)) (node_post src ps s 0)" by simp
  qed
  show ?thesis
    using t leaf [of N_Number] leaf [of N_Variable] unary paren call_spec [OF E s]
    by (auto simp: prefix_expr_def tok_ok_def)
qed

lemma expression_spec: "E_ok src ps n (expression (n + 1) src ps)"
proof (induction n)
  case 0
  show ?case
    unfolding E_ok_def
  proof (intro allI impI)
    fix rbp depth s
    assume s: "p_inv src s \<and> remaining src s \<le> 0"
    then have "tk_kind (ps_current s) = T_End" by (auto simp: remaining_def split: if_splits)
    have "p_spec (p_bind (advance src s) (\<lambda>_ s1. p_bind (prefix_expr 0 src ps (expression 0 src ps)
        (ps_current s) depth s1) (\<lambda>left s. infix_loop 0 src (expression 0 src ps) rbp depth left s)))
      (node_post src ps s 0)"
      by (rule p_spec_bind [OF advance_spec], use s in simp, rule p_spec_bind [where Q = "\<lambda>_ _. False"])
        (simp_all add: prefix_expr_def \<open>tk_kind (ps_current s) = T_End\<close>)
    then show "p_spec (expression (0 + 1) src ps rbp depth s) (node_post src ps s 0)"
      by (simp add: Let_def)
  qed
next
  case (Suc n)
  let ?E = "expression (Suc n) src ps"
  have E: "E_ok src ps n ?E" using Suc by simp
  show ?case
    unfolding E_ok_def
  proof (intro allI impI)
    fix rbp depth s
    assume s: "p_inv src s \<and> remaining src s \<le> Suc n"
    let ?t = "ps_current s"
    have tok: "tok_ok ?t" using s by (simp add: p_inv_def)
    have "p_spec (p_bind (advance src s) (\<lambda>_ s1. p_bind (prefix_expr (Suc n) src ps ?E ?t depth s1)
        (\<lambda>left s. infix_loop (Suc n) src ?E rbp depth left s))) (node_post src ps s 0)"
    proof (rule p_spec_bind [OF advance_spec])
      show "p_inv src s" using s by simp
      fix s1
      assume 1: "p_inv src s1 \<and> ps_count s1 = ps_count s \<and>
        remaining src s1 \<le> remaining src s - (if tk_kind ?t = T_End then 0 else 1)"
      show "p_spec (p_bind (prefix_expr (Suc n) src ps ?E ?t depth s1)
        (\<lambda>left s. infix_loop (Suc n) src ?E rbp depth left s)) (node_post src ps s 0)"
      proof (cases "tk_kind ?t = T_End")
        case True
        then show ?thesis
          by (intro p_spec_bind [where Q = "\<lambda>_ _. False"]) (simp_all add: prefix_expr_def)
      next
        case False
        then have r: "0 < remaining src s" by (simp add: remaining_def)
        show ?thesis
        proof (rule p_spec_bind [OF prefix_spec [OF E _ _ _ tok]])
          fix e s2
          assume 2: "node_post src ps s1 0 e s2"
          have "p_spec (infix_loop (Suc n) src ?E rbp depth e s2) (node_post src ps s2 (node_size e))"
            using 1 2 s False r by (intro loop_spec [OF E]) (auto simp: node_post_def)
          then show "p_spec (infix_loop (Suc n) src ?E rbp depth e s2) (node_post src ps s 0)"
            by (rule p_spec_mono) (use 1 2 in \<open>auto simp: node_post_def\<close>)
        qed (use 1 s False r in auto)
      qed
    qed
    then show "p_spec (expression (Suc n + 1) src ps rbp depth s) (node_post src ps s 0)"
      by (simp add: Let_def)
  qed
qed

text \<open>The three cases of a parse.\<close>

lemma parse_spec:
  "case parse src ps of
     None \<Rightarrow> False
   | Some (Inl e) \<Rightarrow> (\<exists>code pos msg. e = FormulaError code pos msg)
   | Some (Inr (tree, n)) \<Rightarrow> wf_node ps tree \<and> n = node_size tree \<and> n \<le> 256"
proof (cases "lex_next src 0")
  case (Inl e)
  then show ?thesis using lex_next_error [OF Inl] by (simp add: parse_def)
next
  case (Inr tp)
  obtain t p where tp: "tp = (t, p)" by (cases tp)
  let ?s = "\<lparr>ps_pos = p, ps_current = t, ps_count = 0\<rparr>"
  have inv: "p_inv src ?s"
    using lex_next_progress [of src 0 t p] lex_next_tok_ok [of src 0 t p] Inr tp
    by (simp add: p_inv_def)
  have rem: "remaining src ?s \<le> length src + 1" by (simp add: remaining_def le_SucI)
  have sp: "p_spec (expression (parse_fuel src) src ps 0 1 ?s) (node_post src ps ?s 0)"
    using expression_spec [of src ps "length src + 1"] inv rem
    by (simp add: E_ok_def parse_fuel_def del: expression.simps)
  show ?thesis
  proof (cases "expression (parse_fuel src) src ps 0 1 ?s")
    case None
    with sp show ?thesis by (simp add: p_spec_def)
  next
    case (Some r)
    with sp show ?thesis
      by (cases r) (auto simp: p_spec_def parse_def Inr tp node_post_def p_inv_def MAX_AST_NODES_def)
  qed
qed

lemma parse_total: "\<exists>r. parse src ps = Some r"
  using parse_spec [where src = src and ps = ps] by (cases "parse src ps") auto

lemma parse_error: "parse src ps = Some (Inl e) \<Longrightarrow> \<exists>code pos msg. e = FormulaError code pos msg"
  using parse_spec [where src = src and ps = ps] by simp

lemma parse_tree:
  "parse src ps = Some (Inr (tree, n)) \<Longrightarrow> wf_node ps tree \<and> n = node_size tree \<and> n \<le> 256"
  using parse_spec [where src = src and ps = ps] by simp

section \<open>Evaluation on a concrete source\<close>

lemma expression_numeral:
  "expression (numeral v) src ps rbp depth s =
     (let t = ps_current s in
     p_bind (advance src s) (\<lambda>_ s.
     p_bind (prefix_expr (pred_numeral v) src ps (expression (pred_numeral v) src ps) t depth s) (\<lambda>left s.
     infix_loop (pred_numeral v) src (expression (pred_numeral v) src ps) rbp depth left s)))"
  by (simp add: numeral_eq_Suc)

lemma infix_loop_numeral:
  "infix_loop (numeral v) src E rbp depth left s =
    (if rbp < left_binding_power (tk_kind (ps_current s)) then
       let t = ps_current s in
       p_bind (advance src s) (\<lambda>_ s.
       p_bind (infix_expr E t left depth s) (\<lambda>left s.
       infix_loop (pred_numeral v) src E rbp depth left s))
     else p_return left s)"
  by (simp add: numeral_eq_Suc)

lemma advance_lexed:
  "lex_next src (ps_pos s) = Inr (t, p) \<Longrightarrow> advance src s = Some (Inr ((), s\<lparr>ps_pos := p, ps_current := t\<rparr>))"
  by (simp add: advance_def)

lemma p_bind_some: "p_bind (Some (Inr (x, s))) f = f x s"
  by (simp add: p_bind_def)

lemmas parser_eval = p_bind_some expression_numeral infix_loop_numeral advance_lexed p_return_def
  prefix_expr_def infix_expr_def make_node_def MAX_AST_NODES_def MAX_AST_DEPTH_def mk_token_def
  reserved_variables_def left_binding_power_def

section \<open>Properties\<close>

text \<open>
  C16: the parser is total and safe. On every source and every set of parameter names it returns
  (the fuel never runs out); a rejection is a \<^verbatim>\<open>FormulaCompileError\<close>; an accepted
  formula is a well-formed tree (every operator and function has its number of arguments, every
  variable is declared, every literal is finite), its node count is the number of nodes counted,
  and that is at most 256.
\<close>

theorem parse_total_wf:
  "case parse src ps of
     None \<Rightarrow> False
   | Some (Inl e) \<Rightarrow> (\<exists>code pos msg. e = FormulaError code pos msg)
   | Some (Inr (tree, n)) \<Rightarrow> wf_node ps tree \<and> n = node_size tree \<and> n \<le> 256"
  by (rule parse_spec)

end
