(* ===== verification/Variants.thy ===== *)
theory Variants
  imports IeeeFloat
begin

text \<open>
  \<^verbatim>\<open>compute/complex.hpp\<close>, \<^verbatim>\<open>compute/scalar.hpp\<close> and \<^verbatim>\<open>compute/variants.hpp\<close>: the complex type
  templated on a scalar, the sixteen Mandelbrot-family step functions and the cached quadratic
  step. A C++ template on the scalar \<^verbatim>\<open>S\<close> is a definition that takes the operations of \<^verbatim>\<open>S\<close> as a
  record; \<open>double_ops\<close> is the instance for \<^verbatim>\<open>double\<close>, and theory \<open>Fixed64\<close> gives the one for the
  fixed-point types. The transcendental functions of \<^verbatim>\<open><cmath>\<close> are not correctly rounded by the
  C++ standard, so they stay a parameter, \<open>libm\<close>.
\<close>

record 's scalar_ops =
  s_add :: "'s \<Rightarrow> 's \<Rightarrow> 's"
  s_sub :: "'s \<Rightarrow> 's \<Rightarrow> 's"
  s_mul :: "'s \<Rightarrow> 's \<Rightarrow> 's"
  s_neg :: "'s \<Rightarrow> 's"
  s_abs :: "'s \<Rightarrow> 's"
  s_of_int :: "int \<Rightarrow> 's"
  s_of_double :: "fl \<Rightarrow> 's"
  s_to_double :: "'s \<Rightarrow> fl"
  s_less :: "'s \<Rightarrow> 's \<Rightarrow> bool"

record libm =
  m_sin :: "fl \<Rightarrow> fl"
  m_cos :: "fl \<Rightarrow> fl"
  m_sinh :: "fl \<Rightarrow> fl"
  m_cosh :: "fl \<Rightarrow> fl"
  m_exp :: "fl \<Rightarrow> fl"

text \<open>\<^verbatim>\<open>scalar.hpp\<close>: the operations of \<^verbatim>\<open>double\<close>.\<close>

definition double_ops :: "fl scalar_ops" where
  "double_ops = \<lparr>s_add = fadd b64, s_sub = fsub b64, s_mul = fmul b64, s_neg = fneg,
     s_abs = fabs, s_of_int = f_of_int b64, s_of_double = (\<lambda>x. x), s_to_double = (\<lambda>x. x),
     s_less = flt\<rparr>"

section \<open>Complex numbers\<close>

record 's cx =
  re :: 's
  im :: 's

definition mk_cx :: "'s \<Rightarrow> 's \<Rightarrow> 's cx" where
  "mk_cx a b = \<lparr>re = a, im = b\<rparr>"

definition cx_add :: "'s scalar_ops \<Rightarrow> 's cx \<Rightarrow> 's cx \<Rightarrow> 's cx" where
  "cx_add S a b = mk_cx (s_add S (re a) (re b)) (s_add S (im a) (im b))"

definition cx_sub :: "'s scalar_ops \<Rightarrow> 's cx \<Rightarrow> 's cx \<Rightarrow> 's cx" where
  "cx_sub S a b = mk_cx (s_sub S (re a) (re b)) (s_sub S (im a) (im b))"

definition cx_mul :: "'s scalar_ops \<Rightarrow> 's cx \<Rightarrow> 's cx \<Rightarrow> 's cx" where
  "cx_mul S a b = mk_cx
     (s_sub S (s_mul S (re a) (re b)) (s_mul S (im a) (im b)))
     (s_add S (s_mul S (re a) (im b)) (s_mul S (im a) (re b)))"

definition cx_sqr :: "'s scalar_ops \<Rightarrow> 's cx \<Rightarrow> 's cx" where
  "cx_sqr S a = mk_cx
     (s_sub S (s_mul S (re a) (re a)) (s_mul S (im a) (im a)))
     (s_mul S (s_mul S (s_of_int S 2) (re a)) (im a))"

definition cx_norm2 :: "'s scalar_ops \<Rightarrow> 's cx \<Rightarrow> 's" where
  "cx_norm2 S a = s_add S (s_mul S (re a) (re a)) (s_mul S (im a) (im a))"

definition conj_sqr :: "'s scalar_ops \<Rightarrow> 's cx \<Rightarrow> 's cx" where
  "conj_sqr S z = mk_cx
     (s_sub S (s_mul S (re z) (re z)) (s_mul S (im z) (im z)))
     (s_neg S (s_mul S (s_mul S (s_of_int S 2) (re z)) (im z)))"

section \<open>The variants\<close>

datatype variant = Mandelbrot | Tri | Boat | Duck | Bell | Fish | Vase | Bird | Mask | Ship
  | SinZ | CosZ | ExpZ | SinhZ | CoshZ | TanZ | Custom

text \<open>\<^verbatim>\<open>static_cast<int>(variant)\<close>.\<close>

fun variant_id :: "variant \<Rightarrow> int" where
  "variant_id Mandelbrot = 0" | "variant_id Tri = 1" | "variant_id Boat = 2"
| "variant_id Duck = 3" | "variant_id Bell = 4" | "variant_id Fish = 5"
| "variant_id Vase = 6" | "variant_id Bird = 7" | "variant_id Mask = 8"
| "variant_id Ship = 9" | "variant_id SinZ = 10" | "variant_id CosZ = 11"
| "variant_id ExpZ = 12" | "variant_id SinhZ = 13" | "variant_id CoshZ = 14"
| "variant_id TanZ = 15" | "variant_id Custom = 100"

text \<open>The declaration order makes the variants a linear order, as their enumerators are.\<close>

instantiation variant :: linorder
begin

definition less_eq_variant :: "variant \<Rightarrow> variant \<Rightarrow> bool" where
  "less_eq_variant a b \<longleftrightarrow> variant_id a \<le> variant_id b"

definition less_variant :: "variant \<Rightarrow> variant \<Rightarrow> bool" where
  "less_variant a b \<longleftrightarrow> variant_id a < variant_id b"

instance
proof
  fix x y z :: variant
  show "x < y \<longleftrightarrow> x \<le> y \<and> \<not> y \<le> x"
    by (auto simp: less_variant_def less_eq_variant_def)
  show "x \<le> x" by (simp add: less_eq_variant_def)
  show "x \<le> y \<Longrightarrow> y \<le> z \<Longrightarrow> x \<le> z" by (simp add: less_eq_variant_def)
  show "x \<le> y \<or> y \<le> x" by (auto simp: less_eq_variant_def)
  show "x \<le> y \<Longrightarrow> y \<le> x \<Longrightarrow> x = y"
    by (cases x; cases y) (simp_all add: less_eq_variant_def)
qed

end

section \<open>Transcendental helpers (double)\<close>

definition dsub :: "fl \<Rightarrow> fl \<Rightarrow> fl" where "dsub = fsub b64"
definition dadd :: "fl \<Rightarrow> fl \<Rightarrow> fl" where "dadd = fadd b64"
definition dmul :: "fl \<Rightarrow> fl \<Rightarrow> fl" where "dmul = fmul b64"
definition ddiv :: "fl \<Rightarrow> fl \<Rightarrow> fl" where "ddiv = fdiv b64"

definition cx_sin :: "libm \<Rightarrow> fl cx \<Rightarrow> fl cx" where
  "cx_sin L z = mk_cx (dmul (m_sin L (re z)) (m_cosh L (im z)))
                      (dmul (m_cos L (re z)) (m_sinh L (im z)))"

definition cx_cos :: "libm \<Rightarrow> fl cx \<Rightarrow> fl cx" where
  "cx_cos L z = mk_cx (dmul (m_cos L (re z)) (m_cosh L (im z)))
                      (dmul (fneg (m_sin L (re z))) (m_sinh L (im z)))"

definition cx_exp :: "libm \<Rightarrow> fl cx \<Rightarrow> fl cx" where
  "cx_exp L z = (let ex = m_exp L (re z) in
     mk_cx (dmul ex (m_cos L (im z))) (dmul ex (m_sin L (im z))))"

definition cx_sinh :: "libm \<Rightarrow> fl cx \<Rightarrow> fl cx" where
  "cx_sinh L z = mk_cx (dmul (m_sinh L (re z)) (m_cos L (im z)))
                       (dmul (m_cosh L (re z)) (m_sin L (im z)))"

definition cx_cosh :: "libm \<Rightarrow> fl cx \<Rightarrow> fl cx" where
  "cx_cosh L z = mk_cx (dmul (m_cosh L (re z)) (m_cos L (im z)))
                       (dmul (m_sinh L (re z)) (m_sin L (im z)))"

definition cx_tan :: "libm \<Rightarrow> fl cx \<Rightarrow> fl cx" where
  "cx_tan L z =
    (let denom = dadd (m_cos L (dmul (Fin 2) (re z))) (m_cosh L (dmul (Fin 2) (im z))) in
     if feq denom (Fin 0) then mk_cx (Fin 0) (Fin 0)
     else mk_cx (ddiv (m_sin L (dmul (Fin 2) (re z))) denom)
                (ddiv (m_sinh L (dmul (Fin 2) (im z))) denom))"

definition apply_trig ::
    "'s scalar_ops \<Rightarrow> 's cx \<Rightarrow> 's cx \<Rightarrow> (fl cx \<Rightarrow> fl cx) \<Rightarrow> 's cx" where
  "apply_trig S z c fn =
    (let zd = mk_cx (s_to_double S (re z)) (s_to_double S (im z));
         cd = mk_cx (s_to_double S (re c)) (s_to_double S (im c));
         rd = fn zd
     in mk_cx (s_of_double S (dadd (re rd) (re cd))) (s_of_double S (dadd (im rd) (im cd))))"

section \<open>Names\<close>

fun variant_name :: "variant \<Rightarrow> string" where
  "variant_name Mandelbrot = ''mandelbrot''"
| "variant_name Tri = ''tricorn''"
| "variant_name Boat = ''burning_ship''"
| "variant_name Duck = ''celtic''"
| "variant_name Bell = ''heart''"
| "variant_name Fish = ''buffalo''"
| "variant_name Vase = ''perp_buffalo''"
| "variant_name Bird = ''celtic_ship''"
| "variant_name Mask = ''mandelceltic''"
| "variant_name Ship = ''perp_ship''"
| "variant_name SinZ = ''sin_z''"
| "variant_name CosZ = ''cos_z''"
| "variant_name ExpZ = ''exp_z''"
| "variant_name SinhZ = ''sinh_z''"
| "variant_name CoshZ = ''cosh_z''"
| "variant_name TanZ = ''tan_z''"
| "variant_name Custom = ''custom''"

text \<open>The table of \<^verbatim>\<open>variant_from_name\<close>, in its order; the first match wins.\<close>

definition variant_table :: "(string \<times> variant) list" where
  "variant_table =
   [(''mandelbrot'', Mandelbrot), (''tricorn'', Tri), (''burning_ship'', Boat),
    (''celtic'', Duck), (''heart'', Bell), (''buffalo'', Fish), (''perp_buffalo'', Vase),
    (''celtic_ship'', Bird), (''mandelceltic'', Mask), (''perp_ship'', Ship),
    (''sin_z'', SinZ), (''cos_z'', CosZ), (''exp_z'', ExpZ), (''sinh_z'', SinhZ),
    (''cosh_z'', CoshZ), (''tan_z'', TanZ),
    (''perp_burning_ship'', Duck), (''perp_mandelbrot'', Bell), (''mandelbar_celtic'', Vase),
    (''perp_celtic'', Ship),
    (''tri'', Tri), (''boat'', Boat), (''duck'', Duck), (''bell'', Bell), (''fish'', Fish),
    (''vase'', Vase), (''bird'', Bird), (''mask'', Mask), (''ship'', Ship)]"

text \<open>
  The pointer loop \<^verbatim>\<open>while (*a && *b && *a == *b) { ++a; ++b; }\<close> and the test that both strings
  ended, over strings without the terminating NUL.
\<close>

fun cstr_match :: "string \<Rightarrow> string \<Rightarrow> bool" where
  "cstr_match (a # as) (b # bs) = (if a = b then cstr_match as bs else False)"
| "cstr_match [] [] = True"
| "cstr_match _ _ = False"

fun table_lookup :: "(string \<times> 'v) list \<Rightarrow> string \<Rightarrow> 'v option" where
  "table_lookup [] name = None"
| "table_lookup ((n, v) # es) name = (if cstr_match n name then Some v else table_lookup es name)"

definition variant_from_name :: "string \<Rightarrow> variant option" where
  "variant_from_name name = table_lookup variant_table name"

lemma cstr_match_eq [simp]: "cstr_match a b \<longleftrightarrow> a = b"
  by (induction a b rule: cstr_match.induct) auto

lemma table_lookup_map_of: "table_lookup t n = map_of t n"
  by (induction t n rule: table_lookup.induct) auto

section \<open>Classification\<close>

definition variant_needs_scalar_fallback :: "variant \<Rightarrow> bool" where
  "variant_needs_scalar_fallback v =
    (case v of SinZ \<Rightarrow> True | CosZ \<Rightarrow> True | ExpZ \<Rightarrow> True | SinhZ \<Rightarrow> True | CoshZ \<Rightarrow> True
     | TanZ \<Rightarrow> True | _ \<Rightarrow> False)"

definition variant_is_transcendental :: "variant \<Rightarrow> bool" where
  "variant_is_transcendental v =
    (case v of SinZ \<Rightarrow> True | CosZ \<Rightarrow> True | ExpZ \<Rightarrow> True | SinhZ \<Rightarrow> True | CoshZ \<Rightarrow> True
     | TanZ \<Rightarrow> True | _ \<Rightarrow> False)"

definition variant_default_bailout :: "variant \<Rightarrow> fl" where
  "variant_default_bailout v = (if variant_is_transcendental v then Fin 64 else Fin 2)"

definition variant_default_bailout_sq :: "variant \<Rightarrow> fl" where
  "variant_default_bailout_sq v = (let r = variant_default_bailout v in dmul r r)"

definition variant_supports_axis_transition :: "variant \<Rightarrow> bool" where
  "variant_supports_axis_transition v \<longleftrightarrow> 0 \<le> variant_id v \<and> variant_id v \<le> 9"

definition variant_transition_post_abs_real :: "variant \<Rightarrow> bool" where
  "variant_transition_post_abs_real v =
    (case v of Fish \<Rightarrow> True | Vase \<Rightarrow> True | Bird \<Rightarrow> True | Mask \<Rightarrow> True | Ship \<Rightarrow> True
     | _ \<Rightarrow> False)"

definition variant_transition_real_projection :: "variant \<Rightarrow> fl \<Rightarrow> fl \<Rightarrow> fl" where
  "variant_transition_real_projection v x2 axis2 =
    (let q = dsub x2 axis2 in if variant_transition_post_abs_real v then fabs q else q)"

definition variant_transition_imag_projection :: "variant \<Rightarrow> fl \<Rightarrow> fl \<Rightarrow> fl" where
  "variant_transition_imag_projection v x axis =
    (case v of
       Tri \<Rightarrow> dmul (dmul (Fin (- 2)) x) axis
     | Vase \<Rightarrow> dmul (dmul (Fin (- 2)) x) axis
     | Boat \<Rightarrow> dmul (Fin 2) (fabs (dmul x axis))
     | Bird \<Rightarrow> dmul (Fin 2) (fabs (dmul x axis))
     | Duck \<Rightarrow> dmul (dmul (Fin 2) x) (fabs axis)
     | Mask \<Rightarrow> dmul (dmul (Fin 2) x) (fabs axis)
     | Bell \<Rightarrow> dmul (dmul (Fin (- 2)) (fabs x)) axis
     | Ship \<Rightarrow> dmul (dmul (Fin (- 2)) (fabs x)) axis
     | _ \<Rightarrow> dmul (dmul (Fin 2) x) axis)"

section \<open>The step functions\<close>

text \<open>
  \<^verbatim>\<open>variant_step\<close>. The template has no branch for \<^verbatim>\<open>Custom\<close> (the function would fall off its
  end, and the code never instantiates it); the model returns \<open>None\<close> there.
\<close>

definition variant_step ::
    "'s scalar_ops \<Rightarrow> libm \<Rightarrow> variant \<Rightarrow> 's cx \<Rightarrow> 's cx \<Rightarrow> 's cx option" where
  "variant_step S L V z c =
    (case V of
       Mandelbrot \<Rightarrow> Some (cx_add S (cx_sqr S z) c)
     | Tri \<Rightarrow> Some (cx_add S (conj_sqr S z) c)
     | Boat \<Rightarrow> (let w = mk_cx (s_abs S (re z)) (s_abs S (im z))
                in Some (cx_add S (cx_sqr S w) c))
     | Duck \<Rightarrow> (let w = mk_cx (re z) (s_abs S (im z)) in Some (cx_add S (cx_sqr S w) c))
     | Bell \<Rightarrow> (let w = mk_cx (s_abs S (re z)) (s_neg S (im z))
                in Some (cx_add S (cx_sqr S w) c))
     | Fish \<Rightarrow> (let w = cx_sqr S z; w = w\<lparr>re := s_abs S (re w)\<rparr> in Some (cx_add S w c))
     | Vase \<Rightarrow> (let w = cx_sqr S z; w = w\<lparr>re := s_abs S (re w)\<rparr>; w = w\<lparr>im := s_neg S (im w)\<rparr>
                in Some (cx_add S w c))
     | Bird \<Rightarrow> (let w = cx_sqr S z; w = w\<lparr>re := s_abs S (re w)\<rparr>; w = w\<lparr>im := s_abs S (im w)\<rparr>
                in Some (cx_add S w c))
     | Mask \<Rightarrow> (let w = mk_cx (re z) (s_abs S (im z)); w = cx_sqr S w;
                    w = w\<lparr>re := s_abs S (re w)\<rparr>
                in Some (cx_add S w c))
     | Ship \<Rightarrow> (let w = mk_cx (s_abs S (re z)) (im z); w = cx_sqr S w;
                    w = w\<lparr>re := s_abs S (re w)\<rparr>; w = w\<lparr>im := s_neg S (im w)\<rparr>
                in Some (cx_add S w c))
     | SinZ \<Rightarrow> Some (apply_trig S z c (cx_sin L))
     | CosZ \<Rightarrow> Some (apply_trig S z c (cx_cos L))
     | ExpZ \<Rightarrow> Some (apply_trig S z c (cx_exp L))
     | SinhZ \<Rightarrow> Some (apply_trig S z c (cx_sinh L))
     | CoshZ \<Rightarrow> Some (apply_trig S z c (cx_cosh L))
     | TanZ \<Rightarrow> Some (apply_trig S z c (cx_tan L))
     | Custom \<Rightarrow> None)"

text \<open>
  \<^verbatim>\<open>step_cached\<close>: the quadratic step over cached squares \<open>x2\<close>, \<open>y2\<close>. It is guarded by a
  \<^verbatim>\<open>static_assert\<close> that the variant is quadratic; \<open>None\<close> is the rejected instantiation.
\<close>

definition step_cached ::
    "'s scalar_ops \<Rightarrow> variant \<Rightarrow> 's \<Rightarrow> 's \<Rightarrow> 's \<Rightarrow> 's \<Rightarrow> 's \<Rightarrow> 's \<Rightarrow> ('s \<times> 's) option" where
  "step_cached S V x y x2 y2 cx cy =
    (let two = s_of_int S 2;
         sq_re = s_sub S x2 y2;
         mul2 = (\<lambda>a b. s_mul S (s_mul S two a) b)
     in case V of
       Mandelbrot \<Rightarrow> (let sq_im = mul2 x y in Some (s_add S sq_re cx, s_add S sq_im cy))
     | Tri \<Rightarrow> (let sq_im = mul2 x y in Some (s_add S sq_re cx, s_add S (s_neg S sq_im) cy))
     | Boat \<Rightarrow> (let sq_im = mul2 (s_abs S x) (s_abs S y)
                in Some (s_add S sq_re cx, s_add S sq_im cy))
     | Duck \<Rightarrow> (let sq_im = mul2 x (s_abs S y) in Some (s_add S sq_re cx, s_add S sq_im cy))
     | Bell \<Rightarrow> (let sq_im = mul2 (s_abs S x) (s_neg S y)
                in Some (s_add S sq_re cx, s_add S sq_im cy))
     | Fish \<Rightarrow> (let sq_im = mul2 x y
                in Some (s_add S (s_abs S sq_re) cx, s_add S sq_im cy))
     | Vase \<Rightarrow> (let sq_im = mul2 x y
                in Some (s_add S (s_abs S sq_re) cx, s_add S (s_neg S sq_im) cy))
     | Bird \<Rightarrow> (let sq_im = mul2 x y
                in Some (s_add S (s_abs S sq_re) cx, s_add S (s_abs S sq_im) cy))
     | Mask \<Rightarrow> (let sq_im = mul2 x (s_abs S y)
                in Some (s_add S (s_abs S sq_re) cx, s_add S sq_im cy))
     | Ship \<Rightarrow> (let sq_im = mul2 (s_abs S x) y
                in Some (s_add S (s_abs S sq_re) cx, s_add S (s_neg S sq_im) cy))
     | _ \<Rightarrow> None)"

section \<open>The interface of a quadratic scalar\<close>

text \<open>
  The kernels instantiate the step templates on several scalars. What the cached step needs of
  the scalar is that squaring ignores the sign, although neither negation nor absolute value is
  exact on every scalar (both saturate on fixed point).
\<close>

locale quad_scalar =
  fixes S :: "'s scalar_ops"
  assumes abs_sq: "s_mul S (s_abs S x) (s_abs S x) = s_mul S x x"
    and neg_sq: "s_mul S (s_neg S x) (s_neg S x) = s_mul S x x"
begin

lemma step_cached_is_variant_step:
  assumes "\<not> variant_is_transcendental V" and "V \<noteq> Custom"
  shows "map_option (\<lambda>(a, b). mk_cx a b)
           (step_cached S V (re z) (im z) (s_mul S (re z) (re z)) (s_mul S (im z) (im z))
              (re c) (im c))
         = variant_step S L V z c"
  using assms
  by (cases V)
    (simp_all add: step_cached_def variant_step_def variant_is_transcendental_def cx_add_def
      cx_sqr_def conj_sqr_def mk_cx_def Let_def abs_sq neg_sq)

end

lemma fmul_fabs_fabs: "fmul F (fabs a) (fabs a) = fmul F a a"
  by (cases a) (simp_all add: fmul_def fsign_def fis_finite_def fval_def signed_zero_def)

lemma fmul_fneg_fneg: "fmul F (fneg a) (fneg a) = fmul F a a"
  by (cases a) (simp_all add: fmul_def fsign_def fis_finite_def fval_def signed_zero_def)

interpretation dbl: quad_scalar double_ops
  by unfold_locales (simp_all add: double_ops_def fmul_fabs_fabs fmul_fneg_fneg)

text \<open>
  on \<^verbatim>\<open>double\<close> the cached step of the hot loops computes exactly the step function of the
  variant, for each of the ten quadratic variants and for every input, NaN, infinities and
  signed zeros included, when its cached squares are the current ones.
\<close>

theorem double_step_cached_correct:
  assumes "\<not> variant_is_transcendental V" and "V \<noteq> Custom"
  shows "map_option (\<lambda>(a, b). mk_cx a b)
           (step_cached double_ops V (re z) (im z) (s_mul double_ops (re z) (re z))
              (s_mul double_ops (im z) (im z)) (re c) (im c))
         = variant_step double_ops L V z c"
  using assms by (rule dbl.step_cached_is_variant_step)

theorem double_step_cached_correct_witness:
  "step_cached double_ops Bell (Fin (- 1)) (Fin 1) (Fin 1) (Fin 1) (Fin 0) (Fin 0)
     = Some (Fin 0, Fin (- 2))"
proof -
  have r: "rnd b64 (of_int i) = Fin (of_int i)" if "\<bar>i\<bar> < 2 ^ 53" for i :: int
    by (rule rnd_int) (use that in \<open>simp_all add: b64_def\<close>)
  have r2: "rnd b64 (- 2) = Fin (- 2)" "rnd b64 2 = Fin 2" "rnd b64 1 = Fin 1" "rnd b64 0 = Fin 0"
    using r [of "- 2"] r [of 2] r [of 1] r [of 0] by simp_all
  have "map_option (\<lambda>(a, b). mk_cx a b)
      (step_cached double_ops Bell (Fin (- 1)) (Fin 1)
        (s_mul double_ops (Fin (- 1)) (Fin (- 1))) (s_mul double_ops (Fin 1) (Fin 1))
        (Fin 0) (Fin 0))
    = variant_step double_ops L Bell (mk_cx (Fin (- 1)) (Fin 1)) (mk_cx (Fin 0) (Fin 0))"
    for L
    using double_step_cached_correct
      [of Bell "mk_cx (Fin (- 1)) (Fin 1)" "mk_cx (Fin 0) (Fin 0)" L]
    by (simp add: variant_is_transcendental_def mk_cx_def)
  then show ?thesis
    by (simp add: variant_step_def double_ops_def cx_add_def cx_sqr_def mk_cx_def Let_def
        fmul_def fadd_def fsub_def fval_def fsign_def fis_finite_def f_of_int_def r2
        step_cached_def)
qed

text \<open>
  Names and variants round-trip: every builtin variant is found again under the name the
  code prints for it, and \<^verbatim>\<open>custom\<close> is the one name that no lookup accepts, so no request can
  select the native custom step by name.
\<close>

theorem variant_name_roundtrip:
  "variant_from_name (variant_name v) = (if v = Custom then None else Some v)
   \<and> variant_from_name n \<noteq> Some Custom"
proof
  show "variant_from_name (variant_name v) = (if v = Custom then None else Some v)"
    by (cases v) (simp_all add: variant_from_name_def variant_table_def)
  have "Custom \<notin> snd ` set variant_table" by (simp add: variant_table_def)
  then show "variant_from_name n \<noteq> Some Custom"
    by (force simp: variant_from_name_def table_lookup_map_of dest: map_of_SomeD)
qed

end
