(* ===== verification/OrbitCode.thy ===== *)
theory OrbitCode
  imports OrbitParser Variants
begin

text \<open>
  The compiler of the Orbit formula language and its stack machine (\<^verbatim>\<open>inferTypes\<close>, \<^verbatim>\<open>compileNode\<close>,
  \<^verbatim>\<open>evaluate\<close> in \<^verbatim>\<open>compute/orbit_program.cpp\<close>), and their correctness: the code of a parsed
  formula computes the value of its tree, and never under- or overflows the stack.

  The complex functions of the C++ runtime (\<^verbatim>\<open>std::sin\<close>, \<^verbatim>\<open>std::pow\<close>, multiplication and division of
  \<^verbatim>\<open>std::complex<double>\<close>) are the fields of a record \<open>cmath\<close>, an argument of the definitions.
\<close>

definition MAX_PROGRAM_OPERATIONS :: nat where "MAX_PROGRAM_OPERATIONS = 512"

section \<open>Printing a double with 17 significant digits\<close>

text \<open>The decimal exponent: \<open>10 powi e \<le> x < 10 powi (e + 1)\<close>, for \<open>x > 0\<close>.\<close>

definition dec_exp :: "rat \<Rightarrow> int" where
  "dec_exp x =
    (if 1 \<le> x then int (length (nat_digits (nat \<lfloor>x\<rfloor>))) - 1
     else let d = length (nat_digits (nat \<lfloor>1 / x\<rfloor>))
          in if 1 / x = 10 ^ (d - 1) then - int (d - 1) else - int d)"

definition strip_zeros :: "string \<Rightarrow> string" where
  "strip_zeros ds = rev (dropWhile (\<lambda>c. c = CHR ''0'') (rev ds))"

definition show_exponent :: "int \<Rightarrow> string" where
  "show_exponent e =
    (let s = nat_digits (nat \<bar>e\<bar>) in
     (if e < 0 then ''e-'' else ''e+'') @ (if length s < 2 then ''0'' @ s else s))"

definition show_pos17 :: "rat \<Rightarrow> string" where
  "show_pos17 x =
    (let e0 = dec_exp x;
         m0 = rhe (x / 10 powi (e0 - 16));
         (e, m) = (if m0 \<ge> 10 ^ 17 then (e0 + 1, 10 ^ 16) else (e0, m0));
         ds = strip_zeros (nat_digits (nat m))
     in if e < -4 \<or> 17 \<le> e then
          take 1 ds @ (if length ds > 1 then ''.'' @ drop 1 ds else []) @ show_exponent e
        else if 0 \<le> e then
          let k = nat (e + 1);
              ip = take k ds @ replicate (k - length ds) (CHR ''0'');
              fp = drop k ds
          in ip @ (if fp = [] then [] else ''.'' @ fp)
        else ''0.'' @ replicate (nat (- e - 1)) (CHR ''0'') @ ds)"

text \<open>\<^verbatim>\<open>std::setprecision(17) << x\<close>.\<close>

definition show_double17 :: "fl \<Rightarrow> string" where
  "show_double17 x =
    (case x of
       NaN \<Rightarrow> ''nan'' | PosInf \<Rightarrow> ''inf'' | NegInf \<Rightarrow> ''-inf'' | NegZero \<Rightarrow> ''-0''
     | Fin r \<Rightarrow> if r = 0 then ''0'' else if r < 0 then CHR ''-'' # show_pos17 (- r) else show_pos17 r)"

section \<open>Instructions\<close>

type_synonym cplx = "fl cx"

record cmath =
  c_mul :: "cplx \<Rightarrow> cplx \<Rightarrow> cplx"
  c_div :: "cplx \<Rightarrow> cplx \<Rightarrow> cplx"
  c_pow :: "cplx \<Rightarrow> cplx \<Rightarrow> cplx"
  c_sin :: "cplx \<Rightarrow> cplx"
  c_cos :: "cplx \<Rightarrow> cplx"
  c_tan :: "cplx \<Rightarrow> cplx"
  c_exp :: "cplx \<Rightarrow> cplx"
  c_log :: "cplx \<Rightarrow> cplx"
  c_sqrt :: "cplx \<Rightarrow> cplx"
  c_abs :: "cplx \<Rightarrow> fl"
  c_sinh :: "cplx \<Rightarrow> cplx"
  c_cosh :: "cplx \<Rightarrow> cplx"
  c_tanh :: "cplx \<Rightarrow> cplx"

datatype opcode =
    Op_Number | Op_Z | Op_C | Op_N | Op_Parameter | Op_Neg | Op_Add | Op_Sub | Op_Mul | Op_Div | Op_Pow
  | Op_Sin | Op_Cos | Op_Tan | Op_Exp | Op_Log | Op_Sqrt | Op_Abs | Op_Conj | Op_Sinh | Op_Cosh
  | Op_Tanh | Op_Real | Op_Imag

record instruction =
  i_op :: opcode
  i_value :: cplx
  i_index :: nat

definition ins :: "opcode \<Rightarrow> instruction" where
  "ins p = \<lparr>i_op = p, i_value = mk_cx (Fin 0) (Fin 0), i_index = 0\<rparr>"

definition ins_number :: "fl \<Rightarrow> fl \<Rightarrow> instruction" where
  "ins_number a b = \<lparr>i_op = Op_Number, i_value = mk_cx a b, i_index = 0\<rparr>"

definition ins_parameter :: "nat \<Rightarrow> instruction" where
  "ins_parameter k = \<lparr>i_op = Op_Parameter, i_value = mk_cx (Fin 0) (Fin 0), i_index = k\<rparr>"

section \<open>Type inference\<close>

fun type_name :: "orbit_type \<Rightarrow> string" where
  "type_name Real_Type = ''real''" | "type_name Complex_Type = ''complex''"

text \<open>\<^verbatim>\<open>parameters.at(...)\<close> and \<^verbatim>\<open>functions.at(...)\<close>.\<close>

definition map_at :: "(string \<times> 'v) list \<Rightarrow> string \<Rightarrow> 'v res" where
  "map_at t k = (case map_of t k of None \<Rightarrow> Inl OutOfRange | Some v \<Rightarrow> Inr v)"

definition front :: "'v list \<Rightarrow> 'v res" where
  "front xs = (case xs of [] \<Rightarrow> Inl Undefined | x # _ \<Rightarrow> Inr x)"

definition variable_type :: "(string \<times> orbit_type) list \<Rightarrow> string \<Rightarrow> orbit_type res" where
  "variable_type types t =
    (if t = ''z'' \<or> t = ''c'' \<or> t = ''i'' then Inr Complex_Type
     else if t = ''n'' \<or> t = ''pi'' \<or> t = ''e'' then Inr Real_Type
     else map_at types t)"

definition inner_type :: "node_kind \<Rightarrow> string \<Rightarrow> orbit_type list \<Rightarrow> orbit_type res" where
  "inner_type k t child_types =
    (if k = N_Unary then front child_types
     else if k = N_Binary then
       (if t = ''^'' then Inr Complex_Type
        else Inr (if list_ex (\<lambda>ty. ty = Complex_Type) child_types then Complex_Type else Real_Type))
     else if t = ''abs'' \<or> t = ''real'' \<or> t = ''imag'' then Inr Real_Type
     else if t = ''pow'' \<or> t = ''log'' \<or> t = ''sqrt'' then Inr Complex_Type
     else front child_types)"

fun infer_types :: "(string \<times> orbit_type) list \<Rightarrow> node \<Rightarrow> node res"
  and infer_list :: "(string \<times> orbit_type) list \<Rightarrow> node list \<Rightarrow> node list res" where
  "infer_types types (Node k t v p cs ty) =
    (if k = N_Number then Inr (Node k t v p cs Real_Type)
     else if k = N_Variable then
       res_bind (variable_type types t) (\<lambda>ty. Inr (Node k t v p cs ty))
     else
       res_bind (infer_list types cs) (\<lambda>cs.
       res_bind (inner_type k t (map n_type cs)) (\<lambda>ty. Inr (Node k t v p cs ty))))"
| "infer_list types [] = Inr []"
| "infer_list types (c # cs) =
    res_bind (infer_types types c) (\<lambda>c. res_bind (infer_list types cs) (\<lambda>cs. Inr (c # cs)))"

section \<open>Compilation\<close>

definition std_pi :: fl where "std_pi = Fin (884279719003555 / 281474976710656)"
definition std_e :: fl where "std_e = Fin (6121026514868073 / 2251799813685248)"

definition function_ops :: "(string \<times> opcode) list" where
  "function_ops =
   [(''sin'', Op_Sin), (''cos'', Op_Cos), (''tan'', Op_Tan), (''exp'', Op_Exp), (''log'', Op_Log),
    (''pow'', Op_Pow), (''sqrt'', Op_Sqrt), (''abs'', Op_Abs), (''conj'', Op_Conj), (''sinh'', Op_Sinh),
    (''cosh'', Op_Cosh), (''tanh'', Op_Tanh), (''real'', Op_Real), (''imag'', Op_Imag)]"

definition compile_variable :: "(string \<times> nat) list \<Rightarrow> string \<Rightarrow> instruction res" where
  "compile_variable indexes t =
    (if t = ''z'' then Inr (ins Op_Z)
     else if t = ''c'' then Inr (ins Op_C)
     else if t = ''n'' then Inr (ins Op_N)
     else if t = ''i'' then Inr (ins_number (Fin 0) (Fin 1))
     else if t = ''pi'' then Inr (ins_number std_pi (Fin 0))
     else if t = ''e'' then Inr (ins_number std_e (Fin 0))
     else res_bind (map_at indexes t) (\<lambda>k. Inr (ins_parameter k)))"

definition binary_op :: "string \<Rightarrow> opcode" where
  "binary_op t =
    (if t = ''+'' then Op_Add else if t = ''-'' then Op_Sub else if t = ''*'' then Op_Mul
     else if t = ''/'' then Op_Div else Op_Pow)"

definition inner_code :: "node_kind \<Rightarrow> string \<Rightarrow> instruction list res" where
  "inner_code k t =
    (if k = N_Unary then Inr (if t = ''-'' then [ins Op_Neg] else [])
     else if k = N_Binary then Inr [ins (binary_op t)]
     else res_bind (map_at function_ops t) (\<lambda>p. Inr [ins p]))"

text \<open>Both outputs, the code and the canonical text, in the order they are appended.\<close>

fun compile_node :: "(string \<times> nat) list \<Rightarrow> node \<Rightarrow> (instruction list \<times> string) res"
  and compile_list :: "(string \<times> nat) list \<Rightarrow> node list \<Rightarrow> (instruction list \<times> string) res" where
  "compile_node indexes (Node k t v p cs ty) =
    (if k = N_Number then
       Inr ([ins_number v (Fin 0)], ''num:real('' @ show_double17 v @ '')'')
     else if k = N_Variable then
       res_bind (compile_variable indexes t) (\<lambda>i.
       Inr ([i], ''var:'' @ type_name ty @ ''('' @ t @ '')''))
     else
       res_bind (compile_list indexes cs) (\<lambda>(code, canon).
       res_bind (inner_code k t) (\<lambda>own.
       Inr (code @ own,
         (if k = N_Call then ''call:'' else if k = N_Unary then ''unary:'' else ''binary:'')
         @ type_name ty @ ''('' @ t @ canon @ '')''))))"
| "compile_list indexes [] = Inr ([], [])"
| "compile_list indexes (c # cs) =
    res_bind (compile_node indexes c) (\<lambda>(code, canon).
    res_bind (compile_list indexes cs) (\<lambda>(codes, canons).
    Inr (code @ codes, CHR '','' # canon @ canons)))"

section \<open>The stack machine\<close>

text \<open>
  The stack is a list with its top first; \<^verbatim>\<open>stack[top - 1]\<close> on an empty stack reads outside the
  array (\<open>Undefined\<close>).
\<close>

definition push :: "cplx \<Rightarrow> cplx list \<Rightarrow> cplx list res" where
  "push v st =
    (if length st \<ge> MAX_PROGRAM_OPERATIONS then Inl (RuntimeError ''formula bytecode stack overflow'')
     else Inr (v # st))"

definition on_top :: "(cplx \<Rightarrow> cplx) \<Rightarrow> cplx list \<Rightarrow> cplx list res" where
  "on_top f st = (case st of [] \<Rightarrow> Inl Undefined | a # st \<Rightarrow> Inr (f a # st))"

definition on_two :: "(cplx \<Rightarrow> cplx \<Rightarrow> cplx) \<Rightarrow> cplx list \<Rightarrow> cplx list res" where
  "on_two f st =
    (case st of
       [] \<Rightarrow> Inl (RuntimeError ''formula bytecode stack underflow'')
     | b # st \<Rightarrow> on_top (\<lambda>a. f a b) st)"

definition cplx_neg :: "cplx \<Rightarrow> cplx" where "cplx_neg a = mk_cx (fneg (re a)) (fneg (im a))"
definition cplx_add :: "cplx \<Rightarrow> cplx \<Rightarrow> cplx" where
  "cplx_add a b = mk_cx (dadd (re a) (re b)) (dadd (im a) (im b))"
definition cplx_sub :: "cplx \<Rightarrow> cplx \<Rightarrow> cplx" where
  "cplx_sub a b = mk_cx (dsub (re a) (re b)) (dsub (im a) (im b))"
definition cplx_conj :: "cplx \<Rightarrow> cplx" where "cplx_conj a = mk_cx (re a) (fneg (im a))"

fun unary_fun :: "cmath \<Rightarrow> opcode \<Rightarrow> cplx \<Rightarrow> cplx" where
  "unary_fun M Op_Neg a = cplx_neg a"
| "unary_fun M Op_Sin a = c_sin M a"
| "unary_fun M Op_Cos a = c_cos M a"
| "unary_fun M Op_Tan a = c_tan M a"
| "unary_fun M Op_Exp a = c_exp M a"
| "unary_fun M Op_Log a = c_log M a"
| "unary_fun M Op_Sqrt a = c_sqrt M a"
| "unary_fun M Op_Abs a = mk_cx (c_abs M a) (Fin 0)"
| "unary_fun M Op_Conj a = cplx_conj a"
| "unary_fun M Op_Sinh a = c_sinh M a"
| "unary_fun M Op_Cosh a = c_cosh M a"
| "unary_fun M Op_Tanh a = c_tanh M a"
| "unary_fun M Op_Real a = mk_cx (re a) (Fin 0)"
| "unary_fun M Op_Imag a = mk_cx (im a) (Fin 0)"
| "unary_fun M _ a = a"

fun binary_fun :: "cmath \<Rightarrow> opcode \<Rightarrow> cplx \<Rightarrow> cplx \<Rightarrow> cplx" where
  "binary_fun M Op_Add a b = cplx_add a b"
| "binary_fun M Op_Sub a b = cplx_sub a b"
| "binary_fun M Op_Mul a b = c_mul M a b"
| "binary_fun M Op_Div a b = c_div M a b"
| "binary_fun M Op_Pow a b = c_pow M a b"
| "binary_fun M _ a b = a"

definition exec1 ::
    "cmath \<Rightarrow> cplx list \<Rightarrow> cplx \<Rightarrow> cplx \<Rightarrow> int \<Rightarrow> instruction \<Rightarrow> cplx list \<Rightarrow> cplx list res" where
  "exec1 M params z c n i st =
    (case i_op i of
       Op_Number \<Rightarrow> push (i_value i) st
     | Op_Z \<Rightarrow> push z st
     | Op_C \<Rightarrow> push c st
     | Op_N \<Rightarrow> push (mk_cx (f_of_int b64 n) (Fin 0)) st
     | Op_Parameter \<Rightarrow>
         (if i_index i < length params then push (params ! i_index i) st else Inl OutOfRange)
     | Op_Add \<Rightarrow> on_two (binary_fun M Op_Add) st
     | Op_Sub \<Rightarrow> on_two (binary_fun M Op_Sub) st
     | Op_Mul \<Rightarrow> on_two (binary_fun M Op_Mul) st
     | Op_Div \<Rightarrow> on_two (binary_fun M Op_Div) st
     | Op_Pow \<Rightarrow> on_two (binary_fun M Op_Pow) st
     | p \<Rightarrow> on_top (unary_fun M p) st)"

fun exec ::
    "cmath \<Rightarrow> cplx list \<Rightarrow> cplx \<Rightarrow> cplx \<Rightarrow> int \<Rightarrow> instruction list \<Rightarrow> cplx list \<Rightarrow> cplx list res" where
  "exec M params z c n [] st = Inr st"
| "exec M params z c n (i # is) st =
    res_bind (exec1 M params z c n i st) (exec M params z c n is)"

definition evaluate ::
    "cmath \<Rightarrow> instruction list \<Rightarrow> cplx list \<Rightarrow> cplx \<Rightarrow> cplx \<Rightarrow> int \<Rightarrow> cplx res" where
  "evaluate M code params z c n =
    res_bind (exec M params z c n code []) (\<lambda>st.
    (case st of [v] \<Rightarrow> Inr v | _ \<Rightarrow> Inl (RuntimeError ''invalid formula bytecode stack'')))"

section \<open>The value of a tree\<close>

text \<open>The meaning of a formula, on its tree: what the bytecode is measured against.\<close>

definition variable_value :: "(string \<Rightarrow> cplx) \<Rightarrow> cplx \<Rightarrow> cplx \<Rightarrow> int \<Rightarrow> string \<Rightarrow> cplx" where
  "variable_value env z c n t =
    (if t = ''z'' then z else if t = ''c'' then c
     else if t = ''n'' then mk_cx (f_of_int b64 n) (Fin 0)
     else if t = ''i'' then mk_cx (Fin 0) (Fin 1)
     else if t = ''pi'' then mk_cx std_pi (Fin 0)
     else if t = ''e'' then mk_cx std_e (Fin 0)
     else env t)"

fun apply_args :: "(cplx \<Rightarrow> cplx) \<Rightarrow> (cplx \<Rightarrow> cplx \<Rightarrow> cplx) \<Rightarrow> cplx list \<Rightarrow> cplx" where
  "apply_args f g [a] = f a"
| "apply_args f g [a, b] = g a b"
| "apply_args f g _ = mk_cx NaN NaN"

fun eval_tree :: "cmath \<Rightarrow> (string \<Rightarrow> cplx) \<Rightarrow> cplx \<Rightarrow> cplx \<Rightarrow> int \<Rightarrow> node \<Rightarrow> cplx" where
  "eval_tree M env z c n (Node k t v p cs ty) =
    (let args = map (eval_tree M env z c n) cs in
     case k of
       N_Number \<Rightarrow> mk_cx v (Fin 0)
     | N_Variable \<Rightarrow> variable_value env z c n t
     | N_Unary \<Rightarrow> apply_args (if t = ''-'' then cplx_neg else (\<lambda>a. a)) (\<lambda>a b. a) args
     | N_Binary \<Rightarrow> apply_args (\<lambda>a. a) (binary_fun M (binary_op t)) args
     | N_Call \<Rightarrow> apply_args (unary_fun M (the (map_of function_ops t)))
                  (binary_fun M (the (map_of function_ops t))) args)"

section \<open>Correctness of the compiler\<close>

lemma variable_type_ok:
  assumes "t \<in> set reserved_variables \<or> t \<in> set (map fst types)"
  shows "\<exists>ty. variable_type types t = Inr ty"
proof (cases "t \<in> set reserved_variables")
  case True
  then show ?thesis by (auto simp: reserved_variables_def variable_type_def)
next
  case False
  then obtain ty where "map_of types t = Some ty"
    using assms by (metis list.set_map map_of_eq_None_iff not_Some_eq)
  then show ?thesis by (simp add: variable_type_def map_at_def)
qed

lemma inner_type_ok: "k = N_Binary \<or> tys \<noteq> [] \<Longrightarrow> \<exists>ty. inner_type k t tys = Inr ty"
  by (cases tys) (auto simp: inner_type_def front_def)

lemma infer_ok:
  "wf_node ps tree \<Longrightarrow> set ps \<subseteq> set (map fst types) \<Longrightarrow>
    \<exists>tree'. infer_types types tree = Inr tree' \<and> wf_node ps tree' \<and> node_size tree' = node_size tree
      \<and> eval_tree M env z c n tree' = eval_tree M env z c n tree"
  and infer_list_ok:
  "\<forall>a\<in>set cs. wf_node ps a \<Longrightarrow> set ps \<subseteq> set (map fst types) \<Longrightarrow>
    \<exists>cs'. infer_list types cs = Inr cs' \<and> (\<forall>a\<in>set cs'. wf_node ps a)
      \<and> map node_size cs' = map node_size cs
      \<and> map (eval_tree M env z c n) cs' = map (eval_tree M env z c n) cs"
proof (induction types tree and types cs rule: infer_types_infer_list.induct)
  case (1 types k t v p cs ty)
  show ?case
  proof (cases "k = N_Number \<or> k = N_Variable")
    case True
    show ?thesis
    proof (cases "k = N_Number")
      case True
      then show ?thesis using 1(2) by simp
    next
      case False
      with True have k: "k = N_Variable" by simp
      then have "t \<in> set reserved_variables \<or> t \<in> set (map fst types)" using 1(2,3) by auto
      then obtain ty' where "variable_type types t = Inr ty'" using variable_type_ok by blast
      then show ?thesis using k 1(2) by simp
    qed
  next
    case False
    then obtain cs' where cs': "infer_list types cs = Inr cs'" "\<forall>a\<in>set cs'. wf_node ps a"
      "map node_size cs' = map node_size cs"
      "map (eval_tree M env z c n) cs' = map (eval_tree M env z c n) cs"
      using 1 by (auto simp: Let_def)
    have len: "length cs' = length cs" using cs'(3) by (metis length_map)
    have ar: "0 < a" if "map_of function_arities t = Some a" for a
      using that by (auto simp: function_arities_def split: if_splits)
    have "cs' \<noteq> []" if "k \<noteq> N_Binary"
      using 1(2) False that len ar by (cases k) auto
    then obtain ty' where "inner_type k t (map n_type cs') = Inr ty'"
      using inner_type_ok [of k "map n_type cs'" t] by auto
    then have r: "infer_types types (Node k t v p cs ty) = Inr (Node k t v p cs' ty')"
      using False cs'(1) by simp
    have "wf_node ps (Node k t v p cs' ty')"
      using 1(2) cs'(2) len False by (cases k) simp_all
    moreover have "node_size (Node k t v p cs' ty') = node_size (Node k t v p cs ty)"
      by (simp add: cs'(3))
    moreover have "eval_tree M env z c n (Node k t v p cs' ty') = eval_tree M env z c n (Node k t v p cs ty)"
      by (simp add: cs'(4))
    ultimately show ?thesis using r by blast
  qed
next
  case (2 types)
  then show ?case by simp
next
  case (3 types a cs)
  then show ?case by fastforce
qed

lemma exec_append:
  "exec M params z c n (xs @ ys) st = res_bind (exec M params z c n xs st) (exec M params z c n ys)"
proof (induction xs arbitrary: st)
  case (Cons i xs)
  then show ?case by (cases "exec1 M params z c n i st") simp_all
qed simp

definition unary_opcode :: "opcode \<Rightarrow> bool" where
  "unary_opcode p \<longleftrightarrow> p \<notin> {Op_Number, Op_Z, Op_C, Op_N, Op_Parameter, Op_Add, Op_Sub, Op_Mul, Op_Div, Op_Pow}"

lemma exec1_unary: "unary_opcode p \<Longrightarrow> exec1 M params z c n (ins p) (a # st) = Inr (unary_fun M p a # st)"
  by (cases p) (simp_all add: unary_opcode_def exec1_def ins_def on_top_def)

lemma exec1_binary:
  "p \<in> {Op_Add, Op_Sub, Op_Mul, Op_Div, Op_Pow} \<Longrightarrow>
   exec1 M params z c n (ins p) (b # a # st) = Inr (binary_fun M p a b # st)"
  by (auto simp: exec1_def ins_def on_two_def on_top_def)

lemma function_kinds:
  "map_of function_arities t = Some a \<Longrightarrow>
   a = 1 \<and> (\<exists>p. map_of function_ops t = Some p \<and> unary_opcode p)
   \<or> a = 2 \<and> map_of function_ops t = Some Op_Pow"
  by (auto simp: function_arities_def function_ops_def unary_opcode_def split: if_splits)

text \<open>The environment that a parameter table describes.\<close>

definition env_ok :: "(string \<times> nat) list \<Rightarrow> cplx list \<Rightarrow> (string \<Rightarrow> cplx) \<Rightarrow> bool" where
  "env_ok indexes params env \<longleftrightarrow>
    (\<forall>t k. map_of indexes t = Some k \<longrightarrow> k < length params \<and> params ! k = env t)"

text \<open>The code of an inner node, on the values of its children.\<close>

lemma inner_code_ok:
  assumes "wf_node ps (Node k t v p cs ty)" and "k \<noteq> N_Number" and "k \<noteq> N_Variable"
  shows "\<exists>own. inner_code k t = Inr own \<and> length own \<le> 1 \<and>
    exec M params z c n own (rev (map (eval_tree M env z c n) cs) @ st)
      = Inr (eval_tree M env z c n (Node k t v p cs ty) # st)"
proof (cases k)
  case N_Unary
  then obtain a where "cs = [a]" using assms(1) by (cases cs) auto
  with N_Unary show ?thesis
    using exec1_unary [of Op_Neg] by (simp add: inner_code_def unary_opcode_def)
next
  case N_Binary
  then obtain a b where "cs = [a, b]" using assms(1) by (cases cs; cases "tl cs") auto
  with N_Binary show ?thesis
    using exec1_binary [of "binary_op t"] by (auto simp: inner_code_def binary_op_def)
next
  case N_Call
  then have ar: "map_of function_arities t = Some (length cs)" using assms(1) by simp
  from function_kinds [OF ar] show ?thesis
  proof
    assume "length cs = 1 \<and> (\<exists>p. map_of function_ops t = Some p \<and> unary_opcode p)"
    then obtain p a where "map_of function_ops t = Some p" "unary_opcode p" "cs = [a]"
      by (cases cs) auto
    with N_Call show ?thesis using exec1_unary [of p] by (simp add: inner_code_def map_at_def)
  next
    assume f: "length cs = 2 \<and> map_of function_ops t = Some Op_Pow"
    then obtain a b where "cs = [a, b]" by (cases cs; cases "tl cs") auto
    with N_Call f show ?thesis using exec1_binary [of Op_Pow] by (simp add: inner_code_def map_at_def)
  qed
qed (use assms in simp_all)

lemma compile_variable_ok:
  assumes t: "t \<in> set reserved_variables \<or> t \<in> set (map fst indexes)" and e: "env_ok indexes params env"
  shows "\<exists>i. compile_variable indexes t = Inr i \<and> (\<forall>st. length st < MAX_PROGRAM_OPERATIONS \<longrightarrow>
      exec1 M params z c n i st = Inr (variable_value env z c n t # st))"
proof (cases "t \<in> set reserved_variables")
  case True
  then show ?thesis
    by (auto simp: compile_variable_def reserved_variables_def ins_def ins_number_def exec1_def
        push_def variable_value_def)
next
  case False
  then obtain k where k: "map_of indexes t = Some k"
    using t by (metis list.set_map map_of_eq_None_iff not_Some_eq)
  with e have "k < length params" "params ! k = env t" by (auto simp: env_ok_def)
  with False k show ?thesis
    by (simp add: compile_variable_def reserved_variables_def map_at_def ins_parameter_def exec1_def
        push_def variable_value_def)
qed

lemma compile_ok:
  "wf_node ps tree \<Longrightarrow> set ps \<subseteq> set (map fst indexes) \<Longrightarrow> env_ok indexes params env \<Longrightarrow>
    \<exists>code canon. compile_node indexes tree = Inr (code, canon) \<and> length code \<le> node_size tree \<and>
      (\<forall>st. length st + node_size tree \<le> MAX_PROGRAM_OPERATIONS \<longrightarrow>
        exec M params z c n code st = Inr (eval_tree M env z c n tree # st))"
  and compile_list_ok:
  "\<forall>a\<in>set cs. wf_node ps a \<Longrightarrow> set ps \<subseteq> set (map fst indexes) \<Longrightarrow> env_ok indexes params env \<Longrightarrow>
    \<exists>code canon. compile_list indexes cs = Inr (code, canon)
      \<and> length code \<le> sum_list (map node_size cs) \<and>
      (\<forall>st. length st + sum_list (map node_size cs) \<le> MAX_PROGRAM_OPERATIONS \<longrightarrow>
        exec M params z c n code st = Inr (rev (map (eval_tree M env z c n) cs) @ st))"
proof (induction indexes tree and indexes cs rule: compile_node_compile_list.induct)
  case (1 indexes k t v p cs ty)
  show ?case
  proof (cases "k = N_Number \<or> k = N_Variable")
    case True
    then have cs: "cs = []" using 1(2) by auto
    show ?thesis
    proof (cases "k = N_Number")
      case True
      then show ?thesis
        using cs by (auto simp: ins_number_def exec1_def push_def)
    next
      case False
      with True have k: "k = N_Variable" by simp
      then have "t \<in> set reserved_variables \<or> t \<in> set (map fst indexes)" using 1(2,3) by auto
      from compile_variable_ok [OF this 1(4), of M z c n]
      obtain i where "compile_variable indexes t = Inr i"
        and "\<And>st. length st < MAX_PROGRAM_OPERATIONS \<Longrightarrow>
          exec1 M params z c n i st = Inr (variable_value env z c n t # st)"
        by auto
      then show ?thesis using k cs by auto
    qed
  next
    case False
    then obtain code canon where cc: "compile_list indexes cs = Inr (code, canon)"
      "length code \<le> sum_list (map node_size cs)"
      "\<And>st. length st + sum_list (map node_size cs) \<le> MAX_PROGRAM_OPERATIONS \<Longrightarrow>
        exec M params z c n code st = Inr (rev (map (eval_tree M env z c n) cs) @ st)"
      using 1 by auto
    obtain own where own: "inner_code k t = Inr own" "length own \<le> 1"
      "\<And>st. exec M params z c n own (rev (map (eval_tree M env z c n) cs) @ st)
        = Inr (eval_tree M env z c n (Node k t v p cs ty) # st)"
    proof -
      have "\<exists>own. inner_code k t = Inr own"
        using inner_code_ok [OF 1(2)] False by blast
      then obtain own where o: "inner_code k t = Inr own" by blast
      show ?thesis
        by (rule that [OF o]) (use inner_code_ok [OF 1(2), of M params z c n env] False o in auto)
    qed
    show ?thesis
      using False cc own by (auto simp: exec_append simp del: eval_tree.simps)
  qed
next
  case (2 indexes)
  then show ?case by simp
next
  case (3 indexes a cs)
  obtain code canon where a: "compile_node indexes a = Inr (code, canon)" "length code \<le> node_size a"
    "\<And>st. length st + node_size a \<le> MAX_PROGRAM_OPERATIONS \<Longrightarrow>
        exec M params z c n code st = Inr (eval_tree M env z c n a # st)"
    using 3 by auto
  obtain codes canons where cs: "compile_list indexes cs = Inr (codes, canons)"
    "length codes \<le> sum_list (map node_size cs)"
    "\<And>st. length st + sum_list (map node_size cs) \<le> MAX_PROGRAM_OPERATIONS \<Longrightarrow>
        exec M params z c n codes st = Inr (rev (map (eval_tree M env z c n) cs) @ st)"
    using 3(2) [OF a(1) refl] 3(3-5) by auto
  have "0 < node_size a" by (cases a) simp
  then show ?case using a cs by (auto simp: exec_append)
qed

end
