(* ===== verification/OrbitProgram.thy ===== *)
theory OrbitProgram
  imports OrbitCode "HOL-Library.List_Lexorder"
begin

text \<open>
  Orbit Programs (\<^verbatim>\<open>OrbitProgram\<close> in \<^verbatim>\<open>compute/orbit_program.cpp\<close>): builtin variants, compiled
  formulas, and repeating sequences of programs. SHA-256 comes from OpenSSL and is the argument \<open>H\<close>;
  the failure of an OpenSSL call (memory exhaustion) is left out, as \<^verbatim>\<open>std::bad_alloc\<close> is everywhere.
\<close>

definition MAX_SOURCE_BYTES :: nat where "MAX_SOURCE_BYTES = 4096"
definition MAX_PARAMETERS :: nat where "MAX_PARAMETERS = 16"
definition MAX_SEQUENCE_STEPS :: nat where "MAX_SEQUENCE_STEPS = 64"

section \<open>Data\<close>

datatype escape_certification = CertifiedFinite | NoFiniteBound | Unverified

record escape_analysis =
  ea_status :: escape_certification
  ea_radius :: fl
  ea_reason :: string

definition has_finite_radius :: "escape_analysis \<Rightarrow> bool" where
  "has_finite_radius a \<longleftrightarrow> ea_status a = CertifiedFinite \<and> flt (Fin 0) (ea_radius a)"

fun escape_certification_name :: "escape_certification \<Rightarrow> string" where
  "escape_certification_name CertifiedFinite = ''certified_finite''"
| "escape_certification_name NoFiniteBound = ''no_finite_bound''"
| "escape_certification_name Unverified = ''unverified''"

record orbit_parameter =
  par_name :: string
  par_value :: cplx
  par_type :: orbit_type

datatype impl_kind = K_Builtin | K_Formula | K_Sequence

datatype program = Program
  (p_kind: impl_kind) (p_variant: variant) (p_code: "instruction list") (p_params: "cplx list")
  (p_steps: "(int \<times> program) list") (p_cycle_span: int) (p_escape: escape_analysis)
  (p_canonical: string) (p_hash: string) (p_operation_count: nat) (p_node_count: nat) (p_depth: nat)

section \<open>Builtin programs\<close>

definition builtin :: "(string \<Rightarrow> string) \<Rightarrow> variant \<Rightarrow> program res" where
  "builtin H v =
    (if v = Custom then Inl (RuntimeError ''custom is not a builtin Orbit Program formula'')
     else
       let canonical = ''builtin:'' @ variant_name v;
           escape = (if 0 \<le> variant_id v \<and> variant_id v \<le> 9
             then \<lparr>ea_status = CertifiedFinite, ea_radius = Fin 2,
                   ea_reason = ''quadratic Mandelbrot-family norm-preserving template''\<rparr>
             else \<lparr>ea_status = Unverified, ea_radius = Fin 0,
                   ea_reason = ''transcendental builtin has no certified radial escape bound''\<rparr>)
       in Inr (Program K_Builtin v [] [] [] 0 escape canonical (H canonical) 1 1 1))"

section \<open>Formula programs\<close>

text \<open>The accumulators of the parameter loop: names, indexes, types, values, canonical text.\<close>

record param_acc =
  pa_names :: "string list"
  pa_indexes :: "(string \<times> nat) list"
  pa_types :: "(string \<times> orbit_type) list"
  pa_values :: "cplx list"
  pa_canonical :: string

definition param_error :: "string \<Rightarrow> string \<Rightarrow> exn" where
  "param_error code msg = FormulaError code 0 msg"

definition valid_param_name :: "string \<Rightarrow> bool" where
  "valid_param_name s \<longleftrightarrow> s \<noteq> [] \<and> is_alpha (hd s) \<and> list_all (\<lambda>ch. is_alnum ch \<or> ch = CHR ''_'') s"

definition add_param :: "orbit_parameter \<Rightarrow> param_acc \<Rightarrow> param_acc res" where
  "add_param q a =
    (throw_if (\<not> valid_param_name (par_name q))
       (param_error ''INVALID_PARAMETER'' (''invalid parameter name: '' @ par_name q))
    (throw_if (par_name q \<in> set (pa_names a))
       (param_error ''DUPLICATE_PARAMETER'' (''duplicate parameter: '' @ par_name q))
    (throw_if (par_name q \<in> set reserved_variables)
       (param_error ''RESERVED_PARAMETER'' (''parameter uses a reserved name: '' @ par_name q))
    (throw_if (\<not> fis_finite (re (par_value q)) \<or> \<not> fis_finite (im (par_value q)))
       (param_error ''INVALID_PARAMETER_VALUE'' (''parameter value must be finite: '' @ par_name q))
    (throw_if (par_type q = Real_Type \<and> \<not> feq (im (par_value q)) (Fin 0))
       (param_error ''INVALID_PARAMETER_VALUE''
          (''real parameter has a non-zero imaginary part: '' @ par_name q))
    (Inr \<lparr>pa_names = par_name q # pa_names a,
          pa_indexes = pa_indexes a @ [(par_name q, length (pa_values a))],
          pa_types = pa_types a @ [(par_name q, par_type q)],
          pa_values = pa_values a @ [par_value q],
          pa_canonical = pa_canonical a @ par_name q @ '':'' @ type_name (par_type q) @ ''=''
            @ show_double17 (re (par_value q)) @ '','' @ show_double17 (im (par_value q)) @ '';''\<rparr>))))))"

fun add_params :: "orbit_parameter list \<Rightarrow> param_acc \<Rightarrow> param_acc res" where
  "add_params [] a = Inr a"
| "add_params (q # qs) a = res_bind (add_param q a) (add_params qs)"

definition no_params :: param_acc where
  "no_params = \<lparr>pa_names = [], pa_indexes = [], pa_types = [], pa_values = [], pa_canonical = []\<rparr>"

definition formula_escape :: escape_analysis where
  "formula_escape = \<lparr>ea_status = Unverified, ea_radius = Fin 0,
     ea_reason = ''arbitrary DSL formula has no certified radial escape proof''\<rparr>"

text \<open>The part after the parameters; the parser's \<open>None\<close> cannot occur (\<open>parse_total_wf\<close>).\<close>

definition compile_formula :: "(string \<Rightarrow> string) \<Rightarrow> string \<Rightarrow> param_acc \<Rightarrow> program res" where
  "compile_formula H source a =
    (case parse source (pa_names a) of
       None \<Rightarrow> Inl Undefined
     | Some parsed \<Rightarrow>
         res_bind parsed (\<lambda>(ast, count).
         res_bind (infer_types (pa_types a) ast) (\<lambda>ast.
         res_bind (compile_node (pa_indexes a) ast) (\<lambda>(code, canon).
         throw_if (length code > MAX_PROGRAM_OPERATIONS)
           (FormulaError ''FORMULA_TOO_COMPLEX'' 0 ''formula exceeds bytecode operation budget'')
         (let canonical = ''dsl1{'' @ pa_canonical a @ ''}:'' @ canon
          in Inr (Program K_Formula Mandelbrot code (pa_values a) [] 0 formula_escape canonical
                    (H canonical) (length code) count 1))))))"

definition formula :: "(string \<Rightarrow> string) \<Rightarrow> string \<Rightarrow> orbit_parameter list \<Rightarrow> program res" where
  "formula H source parameters =
    throw_if (source = []) (FormulaError ''EMPTY_FORMULA'' 0 ''formula is empty'')
    (throw_if (length source > MAX_SOURCE_BYTES)
       (FormulaError ''FORMULA_TOO_LONG'' MAX_SOURCE_BYTES ''formula exceeds 4096 bytes'')
    (throw_if (length parameters > MAX_PARAMETERS)
       (FormulaError ''TOO_MANY_PARAMETERS'' 0 ''formula declares more than 16 parameters'')
    (res_bind (add_params (sort_key par_name parameters) no_params) (compile_formula H source))))"

section \<open>Sequences\<close>

record seq_acc =
  sa_steps :: "(int \<times> program) list"
  sa_cycle_span :: int
  sa_escape :: escape_analysis
  sa_canonical :: string
  sa_operation_count :: nat
  sa_node_count :: nat
  sa_depth :: nat

definition common_radius :: "escape_analysis \<Rightarrow> bool" where
  "common_radius e \<longleftrightarrow> has_finite_radius e
     \<and> \<not> flt (rnd b64 (1 / 10 ^ 12)) (fabs (dsub (ea_radius e) (Fin 2)))"

definition seq_step :: "int \<times> program option \<Rightarrow> seq_acc \<Rightarrow> seq_acc res" where
  "seq_step st a =
    (case st of
       (sp, None) \<Rightarrow> Inl (RuntimeError ''Orbit Program sequence span must be in 1..1000000'')
     | (sp, Some p) \<Rightarrow>
         throw_if (sp < 1 \<or> sp > 1000000)
           (RuntimeError ''Orbit Program sequence span must be in 1..1000000'')
         (throw_if (sa_cycle_span a > 1000000 - sp)
           (RuntimeError ''Orbit Program sequence cycle exceeds 1000000 iterations'')
         (throw_if (int (sa_node_count a) > (int MAX_AST_NODES - int (p_node_count p)) mod 2 ^ 64)
           (RuntimeError ''Orbit Program exceeds 256 total nodes'')
         (let depth = max (sa_depth a) (1 + p_depth p) in
          throw_if (depth > MAX_AST_DEPTH)
            (RuntimeError ''Orbit Program nesting exceeds 32 levels'')
          (Inr \<lparr>sa_steps = sa_steps a @ [(sp, p)],
                sa_cycle_span = sa_cycle_span a + sp,
                sa_escape = (if common_radius (p_escape p) then sa_escape a
                  else \<lparr>ea_status = Unverified, ea_radius = Fin 0,
                    ea_reason = ''at least one sequence step lacks the common quadratic escape certificate''\<rparr>),
                sa_canonical = sa_canonical a @ show_int sp @ '':'' @ p_canonical p @ '';'',
                sa_operation_count = max (sa_operation_count a) (p_operation_count p),
                sa_node_count = sa_node_count a + p_node_count p,
                sa_depth = depth\<rparr>)))))"

fun seq_steps :: "(int \<times> program option) list \<Rightarrow> seq_acc \<Rightarrow> seq_acc res" where
  "seq_steps [] a = Inr a"
| "seq_steps (st # sts) a = res_bind (seq_step st a) (seq_steps sts)"

definition seq_start :: seq_acc where
  "seq_start = \<lparr>sa_steps = [], sa_cycle_span = 0,
     sa_escape = \<lparr>ea_status = CertifiedFinite, ea_radius = Fin 2,
       ea_reason = ''all sequence steps share the certified quadratic family bound''\<rparr>,
     sa_canonical = ''sequence1('', sa_operation_count = 0, sa_node_count = 1, sa_depth = 1\<rparr>"

definition sequence :: "(string \<Rightarrow> string) \<Rightarrow> (int \<times> program option) list \<Rightarrow> bool \<Rightarrow> program res" where
  "sequence H steps rep =
    throw_if (\<not> rep) (RuntimeError ''Orbit Program v1 sequences must repeat'')
    (throw_if (steps = [] \<or> length steps > MAX_SEQUENCE_STEPS)
       (RuntimeError ''Orbit Program sequence needs 1..64 steps'')
    (res_bind (seq_steps steps seq_start) (\<lambda>a.
     let canonical = sa_canonical a @ '')''
     in Inr (Program K_Sequence Mandelbrot [] [] (sa_steps a) (sa_cycle_span a) (sa_escape a)
               canonical (H canonical) (sa_operation_count a) (sa_node_count a) (sa_depth a)))))"

section \<open>One iteration\<close>

definition builtin_step :: "libm \<Rightarrow> variant \<Rightarrow> cplx \<Rightarrow> cplx \<Rightarrow> cplx res" where
  "builtin_step L v z c =
    (case variant_step double_ops L v z c of
       None \<Rightarrow> Inl (RuntimeError ''unsupported builtin Orbit Program variant'')
     | Some w \<Rightarrow> Inr w)"

fun step :: "cmath \<Rightarrow> libm \<Rightarrow> program \<Rightarrow> cplx \<Rightarrow> cplx \<Rightarrow> int \<Rightarrow> cplx res"
  and step_at :: "cmath \<Rightarrow> libm \<Rightarrow> (int \<times> program) list \<Rightarrow> int \<Rightarrow> cplx \<Rightarrow> cplx \<Rightarrow> int \<Rightarrow> cplx res" where
  "step M L (Program kind v code params steps cycle esc canon h ops nodes depth) z c n =
    (case kind of
       K_Builtin \<Rightarrow> builtin_step L v z c
     | K_Formula \<Rightarrow> evaluate M code params z c n
     | K_Sequence \<Rightarrow>
         if cycle = 0 then Inl Undefined
         else
           let offset = tmod n cycle;
               offset = (if offset < 0 then offset + cycle else offset)
           in step_at M L steps offset z c n)"
| "step_at M L [] offset z c n = Inl (RuntimeError ''invalid Orbit Program sequence state'')"
| "step_at M L ((sp, p) # rest) offset z c n =
    (if offset < sp then step M L p z c n else step_at M L rest (offset - sp) z c n)"

section \<open>Formula programs are correct\<close>

text \<open>The value of a parameter, as the caller declared it.\<close>

definition param_env :: "orbit_parameter list \<Rightarrow> string \<Rightarrow> cplx" where
  "param_env qs t =
    (case map_of (map (\<lambda>q. (par_name q, par_value q)) qs) t of None \<Rightarrow> mk_cx NaN NaN | Some v \<Rightarrow> v)"

definition acc_ok :: "orbit_parameter list \<Rightarrow> param_acc \<Rightarrow> bool" where
  "acc_ok qs a \<longleftrightarrow>
    distinct (map par_name qs) \<and> pa_names a = rev (map par_name qs)
    \<and> map fst (pa_indexes a) = map par_name qs \<and> map fst (pa_types a) = map par_name qs
    \<and> pa_values a = map par_value qs \<and> map snd (pa_indexes a) = [0..<length qs]"

lemma add_param_ok:
  "add_param q a = Inr a' \<Longrightarrow> acc_ok qs a \<Longrightarrow> acc_ok (qs @ [q]) a'"
  by (auto simp: add_param_def acc_ok_def throw_if_def split: if_splits)

lemma add_params_ok:
  "add_params rest a = Inr a' \<Longrightarrow> acc_ok qs a \<Longrightarrow> acc_ok (qs @ rest) a'"
proof (induction rest arbitrary: a qs)
  case (Cons q rest)
  then show ?case
    using add_param_ok by (fastforce simp: res_bind_Inr_iff)
qed simp

lemma acc_ok_no_params: "acc_ok [] no_params"
  by (simp add: acc_ok_def no_params_def)

lemma acc_ok_env: "acc_ok qs a \<Longrightarrow> env_ok (pa_indexes a) (pa_values a) (param_env qs)"
  unfolding env_ok_def
proof (intro allI impI)
  fix t k
  assume a: "acc_ok qs a" and m: "map_of (pa_indexes a) t = Some k"
  have "pa_indexes a = zip (map par_name qs) [0..<length qs]"
    using a by (metis acc_ok_def zip_map_fst_snd)
  with m have "(t, k) \<in> set (zip (map par_name qs) [0..<length qs])" by (metis map_of_SomeD)
  then have k: "k < length qs" "par_name (qs ! k) = t" by (auto simp: set_zip)
  have "distinct (map fst (map (\<lambda>q. (par_name q, par_value q)) qs))"
    using a by (simp add: acc_ok_def comp_def)
  moreover have "(t, par_value (qs ! k)) \<in> set (map (\<lambda>q. (par_name q, par_value q)) qs)"
    using k by (metis (mono_tags, lifting) length_map nth_map nth_mem)
  ultimately have "map_of (map (\<lambda>q. (par_name q, par_value q)) qs) t = Some (par_value (qs ! k))"
    by (rule map_of_is_SomeI)
  with a k show "k < length (pa_values a) \<and> pa_values a ! k = param_env qs t"
    by (simp add: acc_ok_def param_env_def)
qed

text \<open>The environment does not depend on the order the loop takes.\<close>

lemma param_env_sort:
  assumes "distinct (map par_name qs)"
  shows "param_env (sort_key par_name qs) = param_env qs"
proof
  fix t
  let ?f = "\<lambda>q. (par_name q, par_value q)"
  have "map_of (map ?f (sort_key par_name qs)) = map_of (map ?f qs)"
  proof (rule map_of_eqI)
    show "set (map fst (map ?f (sort_key par_name qs))) = set (map fst (map ?f qs))" by simp
    have d: "distinct (map fst (map ?f qs))" using assms by (simp add: comp_def)
    have "distinct (map par_name (sort_key par_name qs))"
      using assms by (simp add: distinct_map)
    then have d': "distinct (map fst (map ?f (sort_key par_name qs)))" by (simp add: comp_def)
    show "\<forall>k\<in>set (map fst (map ?f (sort_key par_name qs))).
        map_of (map ?f (sort_key par_name qs)) k = map_of (map ?f qs) k"
    proof
      fix k
      assume "k \<in> set (map fst (map ?f (sort_key par_name qs)))"
      then obtain q where q: "q \<in> set qs" "k = par_name q" by auto
      then have "(k, par_value q) \<in> set (map ?f qs)"
        "(k, par_value q) \<in> set (map ?f (sort_key par_name qs))" by auto
      then show "map_of (map ?f (sort_key par_name qs)) k = map_of (map ?f qs) k"
        using map_of_is_SomeI [OF d] map_of_is_SomeI [OF d'] by simp
    qed
  qed
  then show "param_env (sort_key par_name qs) t = param_env qs t" by (simp add: param_env_def)
qed

definition formula_value ::
    "orbit_parameter list \<Rightarrow> node \<Rightarrow> cmath \<Rightarrow> cplx \<Rightarrow> cplx \<Rightarrow> int \<Rightarrow> cplx" where
  "formula_value qs tree M z c n = eval_tree M (param_env qs) z c n tree"

lemma compile_formula_ok:
  assumes "acc_ok qs a"
  shows "case compile_formula H source a of
      Inl e \<Rightarrow> (\<exists>code pos msg. e = FormulaError code pos msg) \<and> parse source (pa_names a) = Some (Inl e)
    | Inr p \<Rightarrow> \<exists>tree count. parse source (pa_names a) = Some (Inr (tree, count))
        \<and> p_kind p = K_Formula \<and> p_node_count p = count \<and> count \<le> 256 \<and> p_depth p = 1
        \<and> p_operation_count p \<le> count \<and> p_escape p = formula_escape
        \<and> (\<forall>M L z c n. step M L p z c n = Inr (formula_value qs tree M z c n))"
proof -
  obtain r where r: "parse source (pa_names a) = Some r" using parse_total by blast
  show ?thesis
  proof (cases r)
    case (Inl e)
    then show ?thesis using r parse_error [of source "pa_names a" e] by (simp add: compile_formula_def)
  next
    case (Inr tc)
    obtain tree count where tc: "tc = (tree, count)" by (cases tc)
    have t: "wf_node (pa_names a) tree" "count = node_size tree" "count \<le> 256"
      using parse_tree r Inr tc by auto
    have names: "set (pa_names a) \<subseteq> set (map fst (pa_types a))"
      "set (pa_names a) \<subseteq> set (map fst (pa_indexes a))"
      using assms by (auto simp: acc_ok_def simp flip: set_map)
    have e: "env_ok (pa_indexes a) (pa_values a) (param_env qs)" by (rule acc_ok_env [OF assms])
    obtain tree' where i: "infer_types (pa_types a) tree = Inr tree'" "wf_node (pa_names a) tree'"
        "node_size tree' = node_size tree"
      using infer_ok [OF t(1) names(1)] by blast
    have ev: "eval_tree M (param_env qs) z c n tree' = eval_tree M (param_env qs) z c n tree" for M z c n
      using infer_ok [OF t(1) names(1), of M "param_env qs" z c n] i(1) by simp
    obtain code canon where c: "compile_node (pa_indexes a) tree' = Inr (code, canon)"
        "length code \<le> node_size tree'"
      using compile_ok [OF i(2) names(2) e] by blast
    have x: "exec M (pa_values a) z c' n code [] = Inr [eval_tree M (param_env qs) z c' n tree]" for M z c' n
      using compile_ok [OF i(2) names(2) e, of M z c' n] c(1) i(3) t ev
      by (auto simp: MAX_PROGRAM_OPERATIONS_def)
    have small: "\<not> length code > MAX_PROGRAM_OPERATIONS"
      using c(2) i(3) t by (simp add: MAX_PROGRAM_OPERATIONS_def)
    show ?thesis
      using r Inr tc i c t small x
      by (simp add: compile_formula_def Let_def evaluate_def formula_value_def)
  qed
qed

lemma formula_ok:
  assumes "formula H source qs = Inr p"
  shows "\<exists>ns tree count. set ns = par_name ` set qs \<and> parse source ns = Some (Inr (tree, count))
    \<and> p_kind p = K_Formula \<and> p_node_count p = count \<and> count \<le> 256 \<and> p_depth p = 1
    \<and> p_operation_count p \<le> count \<and> p_escape p = formula_escape
    \<and> (\<forall>M L z c n. step M L p z c n = Inr (formula_value qs tree M z c n))"
proof -
  obtain a where a: "add_params (sort_key par_name qs) no_params = Inr a" "compile_formula H source a = Inr p"
    using assms by (auto simp: formula_def fsd_split)
  have ok: "acc_ok (sort_key par_name qs) a"
    using add_params_ok [OF a(1) acc_ok_no_params] by simp
  then have d: "distinct (map par_name qs)" by (simp add: acc_ok_def distinct_map)
  have v: "formula_value (sort_key par_name qs) = formula_value qs"
    by (intro ext) (simp add: formula_value_def param_env_sort [OF d])
  have n: "set (pa_names a) = par_name ` set qs" using ok by (simp add: acc_ok_def)
  show ?thesis
    using compile_formula_ok [OF ok, where H = H and source = source] n unfolding a(2) v by auto
qed

lemma formula_error:
  assumes "formula H source qs = Inl e"
  shows "\<exists>code pos msg. e = FormulaError code pos msg"
proof -
  have add: "add_params rest a = Inl e \<Longrightarrow> \<exists>code pos msg. e = FormulaError code pos msg" for rest a
  proof (induction rest arbitrary: a)
    case (Cons q rest)
    then show ?case
      by (cases "add_param q a") (auto simp: add_param_def param_error_def throw_if_def split: if_splits)
  qed simp
  have comp: "\<exists>code pos msg. e = FormulaError code pos msg"
    if "add_params (sort_key par_name qs) no_params = Inr a" "compile_formula H source a = Inl e" for a
    using compile_formula_ok [of "sort_key par_name qs" a, where H = H and source = source]
      add_params_ok [OF that(1) acc_ok_no_params] that(2) by simp
  show ?thesis
    using assms add comp by (auto simp: formula_def fsd_split)
qed

section \<open>Sequences are correct\<close>

definition expand :: "(int \<times> program) list \<Rightarrow> program list" where
  "expand steps = concat (map (\<lambda>(k, p). replicate (nat k) p) steps)"

lemma step_at_expand:
  "\<forall>(k, p)\<in>set steps. 1 \<le> k \<Longrightarrow> 0 \<le> off \<Longrightarrow> off < sum_list (map fst steps)
   \<Longrightarrow> step_at M L steps off z c n = step M L (expand steps ! nat off) z c n"
proof (induction steps arbitrary: off)
  case (Cons kp steps)
  obtain k p where kp: "kp = (k, p)" by (cases kp)
  have e: "expand (kp # steps) = replicate (nat k) p @ expand steps" by (simp add: expand_def kp)
  show ?case
  proof (cases "off < k")
    case True
    then have "nat off < nat k" using Cons.prems(2) by simp
    with True show ?thesis by (simp add: kp e [unfolded kp] nth_append)
  next
    case False
    then have "expand (kp # steps) ! nat off = expand steps ! nat (off - k)"
      using Cons.prems by (simp add: e [unfolded kp] nth_append nat_diff_distrib kp)
    then show ?thesis
      using Cons.IH [of "off - k"] Cons.prems False by (simp add: kp)
  qed
qed simp

lemma normalized_offset:
  assumes "0 < m"
  shows "(if tmod n m < 0 then tmod n m + m else tmod n m) = n mod m"
proof (cases "0 \<le> n")
  case True
  moreover have "\<not> n mod m < 0" using assms by (simp add: not_less)
  ultimately show ?thesis using assms by (simp add: tmod_nonneg)
next
  case False
  with assms have t: "tmod n m = - ((- n) mod m)" by (simp add: tmod_neg)
  show ?thesis
  proof (cases "(- n) mod m = 0")
    case True
    then have "n mod m = 0" by (simp flip: dvd_eq_mod_eq_0)
    with True t show ?thesis by simp
  next
    case False
    moreover have "0 \<le> (- n) mod m" using assms by simp
    ultimately show ?thesis using t zmod_zminus1_eq_if [of "- n" m] by simp
  qed
qed

text \<open>Builtin with a radial bound at the leaves, nothing else.\<close>

fun quadratic_only :: "program \<Rightarrow> bool" where
  "quadratic_only (Program kind v code params steps cycle esc canon h ops nodes depth) \<longleftrightarrow>
    (case kind of
       K_Builtin \<Rightarrow> variant_id v \<le> 9
     | K_Formula \<Rightarrow> False
     | K_Sequence \<Rightarrow> \<forall>(k, p)\<in>set steps. quadratic_only p)"

definition limits_ok :: "program \<Rightarrow> bool" where
  "limits_ok p \<longleftrightarrow> 1 \<le> p_node_count p \<and> p_node_count p \<le> MAX_AST_NODES \<and> p_depth p \<le> MAX_AST_DEPTH
     \<and> p_operation_count p \<le> MAX_AST_NODES \<and> p_cycle_span p \<le> 1000000"

lemma seq_step_ok:
  assumes "seq_step st a = Inr a'"
  obtains k p where "st = (k, Some p)" "1 \<le> k" "sa_steps a' = sa_steps a @ [(k, p)]"
    "sa_cycle_span a' = sa_cycle_span a + k" "sa_cycle_span a' \<le> 1000000"
    "limits_ok p \<Longrightarrow> sa_node_count a' \<le> MAX_AST_NODES" "sa_node_count a \<le> sa_node_count a'"
    "sa_depth a' \<le> MAX_AST_DEPTH" "sa_operation_count a' = max (sa_operation_count a) (p_operation_count p)"
    "has_finite_radius (sa_escape a') \<Longrightarrow> has_finite_radius (sa_escape a) \<and> has_finite_radius (p_escape p)"
proof -
  obtain k q where st: "st = (k, q)" by (cases st)
  obtain p where q: "q = Some p" using assms by (cases q) (auto simp: seq_step_def st)
  have nodes: "sa_node_count a + p_node_count p \<le> MAX_AST_NODES"
    if "limits_ok p" "\<not> int (sa_node_count a) > (int MAX_AST_NODES - int (p_node_count p)) mod 2 ^ 64"
  proof -
    have "(int MAX_AST_NODES - int (p_node_count p)) mod 2 ^ 64 = int MAX_AST_NODES - int (p_node_count p)"
      using that(1) by (intro mod_pos_pos_trivial) (auto simp: limits_ok_def MAX_AST_NODES_def)
    with that(2) show ?thesis by linarith
  qed
  show thesis
    using assms nodes
    by (intro that [of k p])
       (auto simp: seq_step_def st q throw_if_def Let_def common_radius_def has_finite_radius_def
          split: if_splits)
qed

lemma seq_steps_ok:
  "seq_steps sts a = Inr a' \<Longrightarrow>
    (\<forall>(k, q)\<in>set sts. 1 \<le> k \<and> q \<noteq> None)
    \<and> sa_steps a' = sa_steps a @ map (\<lambda>(k, q). (k, the q)) sts
    \<and> sa_cycle_span a' = sa_cycle_span a + sum_list (map fst sts)
    \<and> (sa_cycle_span a \<le> 1000000 \<longrightarrow> sa_cycle_span a' \<le> 1000000)
    \<and> sa_node_count a \<le> sa_node_count a'
    \<and> (sa_depth a \<le> MAX_AST_DEPTH \<longrightarrow> sa_depth a' \<le> MAX_AST_DEPTH)
    \<and> ((\<forall>(k, q)\<in>set sts. limits_ok (the q)) \<longrightarrow>
         (sa_node_count a \<le> MAX_AST_NODES \<longrightarrow> sa_node_count a' \<le> MAX_AST_NODES)
         \<and> (sa_operation_count a \<le> MAX_AST_NODES \<longrightarrow> sa_operation_count a' \<le> MAX_AST_NODES))
    \<and> (has_finite_radius (sa_escape a') \<longrightarrow>
         has_finite_radius (sa_escape a) \<and> (\<forall>(k, q)\<in>set sts. has_finite_radius (p_escape (the q))))"
proof (induction sts arbitrary: a)
  case (Cons st sts)
  obtain b where b: "seq_step st a = Inr b" "seq_steps sts b = Inr a'"
    using Cons.prems by (auto simp: fsd_split)
  obtain k p where kp: "st = (k, Some p)" "1 \<le> k" "sa_steps b = sa_steps a @ [(k, p)]"
    "sa_cycle_span b = sa_cycle_span a + k" "sa_cycle_span b \<le> 1000000"
    "limits_ok p \<Longrightarrow> sa_node_count b \<le> MAX_AST_NODES" "sa_node_count a \<le> sa_node_count b"
    "sa_depth b \<le> MAX_AST_DEPTH" "sa_operation_count b = max (sa_operation_count a) (p_operation_count p)"
    "has_finite_radius (sa_escape b) \<Longrightarrow> has_finite_radius (sa_escape a) \<and> has_finite_radius (p_escape p)"
    using seq_step_ok [OF b(1)] by metis
  have lim: "limits_ok p \<Longrightarrow> p_operation_count p \<le> MAX_AST_NODES" by (simp add: limits_ok_def)
  show ?case
    using Cons.IH [OF b(2)] kp lim by auto
qed simp

text \<open>The programs that the three constructors build.\<close>

inductive built :: "(string \<Rightarrow> string) \<Rightarrow> program \<Rightarrow> bool" for H where
  built_builtin: "builtin H v = Inr p \<Longrightarrow> built H p"
| built_formula: "formula H source qs = Inr p \<Longrightarrow> built H p"
| built_sequence: "\<forall>(k, q)\<in>set steps. \<forall>r. q = Some r \<longrightarrow> built H r \<Longrightarrow> sequence H steps rep = Inr p
    \<Longrightarrow> built H p"

lemma builtin_ok:
  assumes "builtin H v = Inr p"
  shows "limits_ok p" "\<exists>w. step M L p z c n = Inr w"
    "has_finite_radius (p_escape p) \<Longrightarrow> quadratic_only p"
proof -
  have v: "v \<noteq> Custom" using assms by (auto simp: builtin_def)
  then have "\<exists>w. variant_step double_ops L v z c = Some w" by (cases v) (simp_all add: variant_step_def Let_def)
  with assms v show "limits_ok p" "\<exists>w. step M L p z c n = Inr w"
    "has_finite_radius (p_escape p) \<Longrightarrow> quadratic_only p"
    by (auto simp: builtin_def Let_def limits_ok_def MAX_AST_NODES_def MAX_AST_DEPTH_def
        builtin_step_def has_finite_radius_def split: if_splits)
qed

text \<open>What the constructor of sequences establishes.\<close>

lemma sequence_ok:
  assumes "sequence H steps rep = Inr p"
  defines "inner \<equiv> map (\<lambda>(k, q). (k, the q)) steps"
  shows "p_kind p = K_Sequence" "p_steps p = inner" "p_cycle_span p = sum_list (map fst inner)"
    "\<forall>(k, q)\<in>set steps. 1 \<le> k \<and> q \<noteq> None" "steps \<noteq> []" "1 \<le> p_cycle_span p" "p_cycle_span p \<le> 1000000"
    "\<forall>(k, q)\<in>set steps. limits_ok (the q) \<Longrightarrow> limits_ok p"
    "has_finite_radius (p_escape p) \<Longrightarrow> \<forall>(k, q)\<in>set steps. has_finite_radius (p_escape (the q))"
proof -
  obtain a where a: "steps \<noteq> []" "seq_steps steps seq_start = Inr a"
    "p = Program K_Sequence Mandelbrot [] [] (sa_steps a) (sa_cycle_span a) (sa_escape a)
       (sa_canonical a @ '')'') (H (sa_canonical a @ '')'')) (sa_operation_count a) (sa_node_count a) (sa_depth a)"
    using assms(1) by (auto simp: sequence_def fsd_split Let_def)
  note s = seq_steps_ok [OF a(2)]
  have fst: "map fst inner = map fst steps" by (auto simp: inner_def)
  have start: "sa_steps seq_start = []" "sa_cycle_span seq_start = 0" "sa_node_count seq_start = 1"
    "sa_depth seq_start = 1" "sa_operation_count seq_start = 0"
    by (simp_all add: seq_start_def)
  have pos: "sum_list (map fst sts) \<ge> (if sts = [] then 0 else 1)"
    if "\<forall>(k, q)\<in>set sts. 1 \<le> k" for sts :: "(int \<times> program option) list"
    using that by (induction sts) (auto split: if_splits)
  show "p_kind p = K_Sequence" "p_steps p = inner"
    using s a(3) start by (simp_all add: inner_def)
  have "p_cycle_span p = sum_list (map fst steps)" using s a(3) start by simp
  then show "p_cycle_span p = sum_list (map fst inner)" by (simp only: fst)
  show "\<forall>(k, q)\<in>set steps. 1 \<le> k \<and> q \<noteq> None" "steps \<noteq> []" using s a(1) by simp_all
  show "1 \<le> p_cycle_span p" using s a pos [of steps] start by (auto split: if_splits)
  show le: "p_cycle_span p \<le> 1000000" using s a(3) start by simp
  show "limits_ok p" if "\<forall>(k, q)\<in>set steps. limits_ok (the q)"
    using s a(3) start that le by (simp add: limits_ok_def MAX_AST_NODES_def MAX_AST_DEPTH_def)
  show "has_finite_radius (p_escape p) \<Longrightarrow> \<forall>(k, q)\<in>set steps. has_finite_radius (p_escape (the q))"
    using s a(3) by simp
qed

lemma step_sequence:
  assumes "p_kind p = K_Sequence" and "0 < p_cycle_span p"
  shows "step M L p z c n = step_at M L (p_steps p) (n mod p_cycle_span p) z c n"
proof (cases p)
  case (Program kind v code params steps cycle esc canon h ops nodes depth)
  with assms show ?thesis using normalized_offset [of cycle n] by (simp add: Let_def)
qed

text \<open>Every program that is built is within the limits, total, and honestly certified.\<close>

lemma built_ok:
  assumes "built H p"
  shows "limits_ok p \<and> (\<forall>M L z c n. \<exists>w. step M L p z c n = Inr w)
    \<and> (has_finite_radius (p_escape p) \<longrightarrow> quadratic_only p)"
  using assms
proof (induction rule: built.induct)
  case (built_builtin v p)
  then show ?case using builtin_ok by blast
next
  case (built_formula source qs p)
  from formula_ok [OF built_formula] obtain ns tree count where f: "parse source ns = Some (Inr (tree, count))"
    "p_kind p = K_Formula" "p_node_count p = count" "count \<le> 256" "p_depth p = 1"
    "p_operation_count p \<le> count" "p_escape p = formula_escape"
    and st: "\<forall>M L z c n. step M L p z c n = Inr (formula_value qs tree M z c n)"
    by (elim exE conjE) (rule that)
  moreover have "1 \<le> count" using parse_tree [OF f(1)] by (cases tree) simp
  moreover have "p_cycle_span p \<le> 1000000"
  proof -
    obtain a where "compile_formula H source a = Inr p"
      using built_formula by (auto simp: formula_def fsd_split)
    then show ?thesis by (auto simp: compile_formula_def fsd_split Let_def split: option.splits)
  qed
  ultimately show ?case
    using st by (simp add: limits_ok_def MAX_AST_NODES_def MAX_AST_DEPTH_def formula_escape_def
        has_finite_radius_def)
next
  case (built_sequence steps rep p)
  note s = sequence_ok [OF built_sequence(2)]
  have ih: "limits_ok (the q) \<and> (\<forall>M L z c n. \<exists>w. step M L (the q) z c n = Inr w)
      \<and> (has_finite_radius (p_escape (the q)) \<longrightarrow> quadratic_only (the q))"
    if "(k, q) \<in> set steps" for k q
    using built_sequence(1) s(4) that by fastforce
  let ?inner = "map (\<lambda>(k, q). (k, the q)) steps"
  have in_set: "\<exists>k q. (k, q) \<in> set steps \<and> r = the q" if "r \<in> set (expand ?inner)" for r
    using that by (auto simp: expand_def)
  have pos: "\<forall>(k, r)\<in>set ?inner. 1 \<le> k" using s(4) by auto
  have len: "int (length (expand xs)) = sum_list (map fst xs)" if "\<forall>(k, r)\<in>set xs. 1 \<le> k"
    for xs :: "(int \<times> program) list"
    using that by (induction xs) (auto simp: expand_def)
  have total: "\<exists>w. step M L p z c n = Inr w" for M L z c n
  proof -
    let ?off = "n mod p_cycle_span p"
    have off: "0 \<le> ?off" "?off < sum_list (map fst ?inner)" using s(3,6) by auto
    then have "nat ?off < length (expand ?inner)" using len [OF pos] by linarith
    then have "expand ?inner ! nat ?off \<in> set (expand ?inner)" by simp
    then obtain k q where "(k, q) \<in> set steps" "expand ?inner ! nat ?off = the q" using in_set by blast
    then obtain w where "step M L (expand ?inner ! nat ?off) z c n = Inr w" using ih [of k q] by metis
    moreover have "step M L p z c n = step M L (expand ?inner ! nat ?off) z c n"
      using step_sequence [OF s(1), of M L z c n] s(2,6) step_at_expand [OF pos off] by simp
    ultimately show ?thesis by simp
  qed
  have "limits_ok p" by (rule s(8)) (use ih in auto)
  moreover have "quadratic_only p" if "has_finite_radius (p_escape p)"
  proof (cases p)
    case (Program kind v code params st cycle esc canon h ops nodes depth)
    have "\<forall>(k, q)\<in>set steps. quadratic_only (the q)" using s(9) [OF that] ih by fastforce
    then show ?thesis using Program s(1,2) by auto
  qed
  ultimately show ?case using total by blast
qed

section \<open>A sample formula\<close>

definition square :: string where "square = ''z*z+c''"
lemma lex_square:
  "lex_next square 0 = Inr (mk_token T_Identifier ''z'' (Fin 0) 0, 1)"
  "lex_next square 1 = Inr (mk_token T_Star ''*'' (Fin 0) 1, 2)"
  "lex_next square (Suc 0) = Inr (mk_token T_Star ''*'' (Fin 0) 1, 2)"
  "lex_next square 2 = Inr (mk_token T_Identifier ''z'' (Fin 0) 2, 3)"
  "lex_next square 3 = Inr (mk_token T_Plus ''+'' (Fin 0) 3, 4)"
  "lex_next square 4 = Inr (mk_token T_Identifier ''c'' (Fin 0) 4, 5)"
  "lex_next square 5 = Inr (mk_token T_End [] (Fin 0) 5, 5)"
  by (simp_all add: square_def lex_next_def Let_def punctuation_def char_class_defs is_ident_char_def numeral_eq_Suc)

definition square_tree :: node where
  "square_tree = Node N_Binary ''+'' (Fin 0) 3
    [Node N_Binary ''*'' (Fin 0) 1 [Node N_Variable ''z'' (Fin 0) 0 [] Complex_Type,
        Node N_Variable ''z'' (Fin 0) 2 [] Complex_Type] Complex_Type,
     Node N_Variable ''c'' (Fin 0) 4 [] Complex_Type] Complex_Type"

lemma fuel_square: "parse_fuel square = 7" by (simp add: parse_fuel_def square_def)

lemma parse_square: "parse square [] = Some (Inr (square_tree, 5))"
  by (simp add: parse_def fuel_square lex_square parser_eval square_tree_def Let_def del: expression.simps infix_loop.simps)

lemma formula_square: "\<exists>p. formula H square [] = Inr p"
proof -
  have "square \<noteq> []" "length square \<le> 4096" by (simp_all add: square_def)
  then show ?thesis
  by (simp add: formula_def MAX_SOURCE_BYTES_def no_params_def compile_formula_def parse_square square_tree_def
   variable_type_def inner_type_def compile_variable_def inner_code_def Let_def MAX_PROGRAM_OPERATIONS_def)
qed

section \<open>Properties\<close>

text \<open>
  C1: a formula computes its tree. Every formula that the constructor accepts parses to a tree, and
  one iteration of the compiled program, for every start point, parameter and iteration number and
  every implementation of the complex functions, ends without an error and returns the value of
  that tree under the declared parameters. The stack machine neither under- nor overflows, and no
  parameter index is out of range.
\<close>

theorem formula_computes_tree:
  assumes "formula H source qs = Inr p"
  shows "\<exists>ns tree. set ns = par_name ` set qs \<and> parse source ns = Some (Inr (tree, p_node_count p))
    \<and> (\<forall>M L z c n. step M L p z c n = Inr (eval_tree M (param_env qs) z c n tree))"
  using formula_ok [OF assms] by (auto simp: formula_value_def)

theorem formula_computes_tree_witness:
  "\<forall>H. \<exists>p ns tree. formula H square [] = Inr p \<and> parse square ns = Some (Inr (tree, p_node_count p))
    \<and> (\<forall>M L z c n. step M L p z c n = Inr (eval_tree M (param_env []) z c n tree))"
proof
  fix H
  obtain p where p: "formula H square [] = Inr p" using formula_square by blast
  from formula_computes_tree [OF this] p
  show "\<exists>p ns tree. formula H square [] = Inr p \<and> parse square ns = Some (Inr (tree, p_node_count p))
    \<and> (\<forall>M L z c n. step M L p z c n = Inr (eval_tree M (param_env []) z c n tree))" by blast
qed

text \<open>
  a formula is rejected with a \<^verbatim>\<open>FormulaCompileError\<close>, whatever the source and the parameters:
  no other exception and no undefined step is reachable from the constructor.
\<close>

theorem formula_rejects_with_formula_error:
  assumes "formula H source qs = Inl e"
  shows "\<exists>code pos msg. e = FormulaError code pos msg"
  by (rule formula_error [OF assms])

theorem formula_rejects_with_formula_error_witness:
  "\<exists>code pos msg. FormulaError ''EMPTY_FORMULA'' 0 ''formula is empty'' = FormulaError code pos msg"
  by (rule formula_rejects_with_formula_error [of "\<lambda>s. s" "[]" "[]"]) (simp add: formula_def)

text \<open>
  C23: every Orbit Program can be iterated. A program made by the three constructors, nested to any
  depth, steps without an exception at every point and every iteration number (negative ones
  included), and it has at most 256 nodes, a nesting of at most 32 and a cycle of at most 1000000.
\<close>

theorem orbit_program_total:
  assumes "built H p"
  shows "(\<exists>w. step M L p z c n = Inr w) \<and> p_node_count p \<le> 256 \<and> p_depth p \<le> 32
    \<and> p_cycle_span p \<le> 1000000"
  using built_ok [OF assms] by (simp add: limits_ok_def MAX_AST_NODES_def MAX_AST_DEPTH_def)

theorem orbit_program_total_witness:
  "\<forall>H. \<exists>p. built H p \<and> p_kind p = K_Formula \<and>
    (\<forall>M L z c n. \<exists>w. step M L p z c n = Inr w) \<and> p_node_count p \<le> 256"
proof
  fix H
  obtain p where p: "formula H square [] = Inr p" using formula_square by blast
  then have b: "built H p" by (rule built_formula)
  have "p_kind p = K_Formula"
    using p by (auto simp: formula_def compile_formula_def fsd_split Let_def split: option.splits)
  then show "\<exists>p. built H p \<and> p_kind p = K_Formula \<and>
    (\<forall>M L z c n. \<exists>w. step M L p z c n = Inr w) \<and> p_node_count p \<le> 256"
    using orbit_program_total [OF b] b by blast
qed

text \<open>
  a finite escape radius is reported only for programs that consist of quadratic builtins: no
  formula and no transcendental map hides in a sequence that carries a certificate.
\<close>

theorem certificate_only_quadratic:
  assumes "built H p" and "has_finite_radius (p_escape p)"
  shows "quadratic_only p"
  using built_ok [OF assms(1)] assms(2) by blast

theorem certificate_only_quadratic_witness:
  "\<forall>H. \<exists>p. builtin H Ship = Inr p \<and> has_finite_radius (p_escape p) \<and> quadratic_only p"
proof
  fix H
  obtain p where p: "builtin H Ship = Inr p" by (simp add: builtin_def Let_def)
  then have "has_finite_radius (p_escape p)" by (auto simp: builtin_def has_finite_radius_def Let_def)
  then show "\<exists>p. builtin H Ship = Inr p \<and> has_finite_radius (p_escape p) \<and> quadratic_only p"
    using certificate_only_quadratic [OF built_builtin [OF p]] p by blast
qed

text \<open>
  a sequence repeats its schedule. At iteration \<open>n\<close> it runs the program in position \<open>n\<close> modulo the
  cycle of the list in which every program occurs as often as its span.
\<close>

theorem sequence_schedule:
  assumes "sequence H steps rep = Inr p"
  shows "step M L p z c n =
    step M L (expand (map (\<lambda>(k, q). (k, the q)) steps) ! nat (n mod sum_list (map fst steps))) z c n"
proof -
  let ?inner = "map (\<lambda>(k, q). (k, the q)) steps"
  note s = sequence_ok [OF assms]
  have fst: "map fst ?inner = map fst steps" by auto
  have "\<forall>(k, r)\<in>set ?inner. 1 \<le> k" using s(4) by auto
  moreover have "0 \<le> n mod p_cycle_span p" "n mod p_cycle_span p < sum_list (map fst ?inner)"
    using s(3,6) by auto
  ultimately have "step M L p z c n = step M L (expand ?inner ! nat (n mod p_cycle_span p)) z c n"
    using step_sequence [OF s(1), of M L z c n] s(2,6) step_at_expand by simp
  then show ?thesis by (simp only: s(3) fst)
qed

theorem sequence_schedule_witness:
  "\<forall>H. \<exists>p q r. builtin H Mandelbrot = Inr q \<and> builtin H Ship = Inr r
    \<and> sequence H [(2, Some q), (1, Some r)] True = Inr p
    \<and> (\<forall>M L z c. step M L p z c 5 = step M L r z c 5)"
proof
  fix H
  obtain q where q: "builtin H Mandelbrot = Inr q" by (simp add: builtin_def Let_def)
  obtain r where r: "builtin H Ship = Inr r" by (simp add: builtin_def Let_def)
  have n: "p_node_count q = 1" "p_depth q = 1" "p_node_count r = 1" "p_depth r = 1"
    using q r by (auto simp: builtin_def Let_def)
  obtain p where p: "sequence H [(2, Some q), (1, Some r)] True = Inr p"
    by (simp add: sequence_def MAX_SEQUENCE_STEPS_def seq_step_def seq_start_def n MAX_AST_NODES_def
        MAX_AST_DEPTH_def Let_def)
  have "expand [(2, q), (1, r)] ! 2 = r" by (simp add: expand_def numeral_eq_Suc)
  then have "step M L p z c 5 = step M L r z c 5" for M L z c
    using sequence_schedule [OF p, of M L z c 5] by simp
  with p q r show "\<exists>p q r. builtin H Mandelbrot = Inr q \<and> builtin H Ship = Inr r
    \<and> sequence H [(2, Some q), (1, Some r)] True = Inr p
    \<and> (\<forall>M L z c. step M L p z c 5 = step M L r z c 5)" by blast
qed

end
