(* ===== verification/Fixed64.thy ===== *)
theory Fixed64
  imports Variants
begin

text \<open>
  \<^verbatim>\<open>compute/scalar/fx64.hpp\<close>: the signed 64-bit fixed-point scalars \<^verbatim>\<open>Fixed64<FRAC>\<close> with
  \<open>raw = Q * 2 ^ FRAC\<close>. The template argument is a natural number argument of the definitions
  and the raw value a 64-bit word. Products are formed in \<^verbatim>\<open>__int128\<close>, which holds every product
  of two 64-bit values (\<open>int128_holds_product\<close> below), so they are integers here; addition and
  subtraction are the word operations, where the C++ leaves overflow undefined (theory
  \<open>EscapeTime\<close> shows when none happens).
\<close>

type_synonym i64 = "64 word"
type_synonym u64 = "64 word"

datatype fx = Fx (raw: i64)

definition i64_max :: int where "i64_max = 2 ^ 63 - 1"
definition i64_min :: int where "i64_min = - (2 ^ 63)"
definition u64_max :: int where "u64_max = 2 ^ 64 - 1"

lemmas int_limits = i64_max_def i64_min_def u64_max_def

lemma sint_eqD:
  assumes "sint (a::i64) = sint b"
  shows "a = b"
proof -
  have "(word_of_int (sint a) :: i64) = word_of_int (sint b)" by (simp only: assms)
  then show ?thesis by simp
qed

section \<open>Comparison\<close>

definition fx_le :: "fx \<Rightarrow> fx \<Rightarrow> bool" where
  "fx_le a b \<longleftrightarrow> sint (raw a) \<le> sint (raw b)"

definition fx_lt :: "fx \<Rightarrow> fx \<Rightarrow> bool" where
  "fx_lt a b \<longleftrightarrow> sint (raw a) < sint (raw b)"

lemmas fx_cmp_defs = fx_le_def fx_lt_def

instantiation fx :: linorder
begin

definition "less_eq_fx = fx_le"
definition "less_fx = fx_lt"

instance
proof
  fix x y z :: fx
  show "x < y \<longleftrightarrow> x \<le> y \<and> \<not> y \<le> x" by (auto simp: less_fx_def less_eq_fx_def fx_cmp_defs)
  show "x \<le> x" by (simp add: less_eq_fx_def fx_cmp_defs)
  show "x \<le> y \<Longrightarrow> y \<le> z \<Longrightarrow> x \<le> z" by (simp add: less_eq_fx_def fx_cmp_defs)
  show "x \<le> y \<or> y \<le> x" by (auto simp: less_eq_fx_def fx_cmp_defs)
  show "x \<le> y \<Longrightarrow> y \<le> x \<Longrightarrow> x = y"
    by (cases x; cases y) (auto simp: less_eq_fx_def fx_cmp_defs intro: sint_eqD)
qed

end

section \<open>Construction and conversion\<close>

definition fx_of_int :: "nat \<Rightarrow> int \<Rightarrow> fx" where
  "fx_of_int FRAC v = Fx (push_bit FRAC (word_of_int v))"

definition fx_scale :: "nat \<Rightarrow> fl" where
  "fx_scale FRAC = Fin (2 ^ FRAC)"

text \<open>
  The cast of a NaN is undefined in C++; the model takes what the x86-64 conversion
  instruction returns, \<^verbatim>\<open>INT64_MIN\<close>. No other argument reaches the default.
\<close>

definition cast_i64 :: "fl \<Rightarrow> int" where
  "cast_i64 x = (case f_to_i64 x of Some i \<Rightarrow> i | None \<Rightarrow> i64_min)"

definition fx_from_double :: "nat \<Rightarrow> fl \<Rightarrow> fx" where
  "fx_from_double FRAC x =
    (let hi = fdiv b64 (f_of_int b64 i64_max) (fx_scale FRAC);
         lo = fdiv b64 (f_of_int b64 i64_min) (fx_scale FRAC)
     in if fle hi x then Fx (word_of_int i64_max)
        else if fle x lo then Fx (word_of_int i64_min)
        else Fx (word_of_int (cast_i64 (fmul b64 x (fx_scale FRAC)))))"

definition fx_to_double :: "nat \<Rightarrow> fx \<Rightarrow> fl" where
  "fx_to_double FRAC x = fdiv b64 (f_of_int b64 (sint (raw x))) (fx_scale FRAC)"

section \<open>Arithmetic\<close>

definition fx_add :: "fx \<Rightarrow> fx \<Rightarrow> fx" where
  "fx_add a b = Fx (raw a + raw b)"

definition fx_sub :: "fx \<Rightarrow> fx \<Rightarrow> fx" where
  "fx_sub a b = Fx (raw a - raw b)"

definition fx_neg :: "fx \<Rightarrow> fx" where
  "fx_neg a = Fx (if raw a = word_of_int i64_min then word_of_int i64_max else - raw a)"

definition fx_mul :: "nat \<Rightarrow> fx \<Rightarrow> fx \<Rightarrow> fx" where
  "fx_mul FRAC a b =
    (let p = sint (raw a) * sint (raw b); q = p div 2 ^ FRAC
     in if q > i64_max then Fx (word_of_int i64_max)
        else if q < i64_min then Fx (word_of_int i64_min)
        else Fx (word_of_int q))"

definition fx_sqr :: "nat \<Rightarrow> fx \<Rightarrow> fx" where
  "fx_sqr FRAC a =
    (let p = sint (raw a) * sint (raw a); q = p div 2 ^ FRAC
     in if q > i64_max then Fx (word_of_int i64_max) else Fx (word_of_int q))"

definition fx_abs :: "fx \<Rightarrow> fx" where
  "fx_abs x =
    (if sint (raw x) \<ge> 0 then x
     else if raw x = word_of_int i64_min then Fx (word_of_int i64_max)
     else Fx (- raw x))"

definition fx_ops :: "nat \<Rightarrow> fx scalar_ops" where
  "fx_ops FRAC = \<lparr>s_add = fx_add, s_sub = fx_sub, s_mul = fx_mul FRAC, s_neg = fx_neg,
     s_abs = fx_abs, s_of_int = fx_of_int FRAC, s_of_double = fx_from_double FRAC,
     s_to_double = fx_to_double FRAC, s_less = (<)\<rparr>"

section \<open>Reading words as integers\<close>

lemma sint_range: "i64_min \<le> sint (w::i64)" "sint (w::i64) \<le> i64_max"
  using sint_ge [of w] sint_lt [of w] by (simp_all add: int_limits)

lemma sint_word_of_int:
  "i64_min \<le> k \<Longrightarrow> k \<le> i64_max \<Longrightarrow> sint (word_of_int k :: i64) = k"
  by (simp add: int_limits signed_of_int signed_take_bit_int_eq_self)

lemma sint_limits [simp]:
  "sint (word_of_int i64_max :: i64) = i64_max" "sint (word_of_int i64_min :: i64) = i64_min"
  by (rule sint_word_of_int; simp add: int_limits)+

lemma eq_min_iff: "(w::i64) = word_of_int i64_min \<longleftrightarrow> sint w = i64_min"
  by (metis sint_limits(2) sint_eqD)

lemma int128_holds_product:
  "- (2 ^ 127) \<le> sint (a::i64) * sint (b::i64) \<and> sint a * sint b < 2 ^ 127"
proof -
  have "\<bar>sint a\<bar> \<le> 2 ^ 63" "\<bar>sint b\<bar> \<le> 2 ^ 63"
    using sint_range [of a] sint_range [of b] by (simp_all add: int_limits abs_le_iff)
  then have "\<bar>sint a * sint b\<bar> \<le> 2 ^ 63 * 2 ^ 63"
    unfolding abs_mult by (intro mult_mono) auto
  then show ?thesis by (simp add: abs_le_iff)
qed

definition clamp64 :: "int \<Rightarrow> int" where
  "clamp64 k = max i64_min (min i64_max k)"

lemma clamp64_range: "i64_min \<le> clamp64 k" "clamp64 k \<le> i64_max"
  by (auto simp: clamp64_def int_limits)

lemma clamp64_id [simp]: "i64_min \<le> k \<Longrightarrow> k \<le> i64_max \<Longrightarrow> clamp64 k = k"
  by (simp add: clamp64_def)

lemma sint_fx_mul:
  "sint (raw (fx_mul FRAC a b)) = clamp64 ((sint (raw a) * sint (raw b)) div 2 ^ FRAC)"
  by (auto simp: fx_mul_def Let_def clamp64_def sint_word_of_int) (simp add: int_limits)+

lemma sint_fx_neg: "sint (raw (fx_neg a)) = clamp64 (- sint (raw a))"
proof (cases "sint (raw a) = i64_min")
  case True
  then have "raw a = word_of_int i64_min" by (simp add: eq_min_iff)
  then show ?thesis by (simp add: fx_neg_def clamp64_def) (simp add: int_limits)
next
  case False
  have "sint (- raw a) = - sint (raw a)"
  proof -
    have "- raw a = word_of_int (- sint (raw a))" by simp
    also have "sint \<dots> = - sint (raw a)"
      using sint_range [of "raw a"] False by (intro sint_word_of_int) (auto simp: int_limits)
    finally show ?thesis .
  qed
  moreover have "clamp64 (- sint (raw a)) = - sint (raw a)"
    using sint_range [of "raw a"] False by (intro clamp64_id) (auto simp: int_limits)
  ultimately show ?thesis using False by (simp add: fx_neg_def eq_min_iff)
qed

lemma sint_fx_abs: "sint (raw (fx_abs a)) = min i64_max \<bar>sint (raw a)\<bar>"
proof (cases "0 \<le> sint (raw a)")
  case True
  then show ?thesis using sint_range [of "raw a"] by (simp add: fx_abs_def)
next
  case False
  have "fx_abs a = fx_neg a" using False by (simp add: fx_abs_def fx_neg_def)
  moreover have "clamp64 (- sint (raw a)) = min i64_max \<bar>sint (raw a)\<bar>"
    using False by (simp add: clamp64_def int_limits)
  ultimately show ?thesis by (simp add: sint_fx_neg)
qed

lemma fx_eqI: "sint (raw a) = sint (raw b) \<Longrightarrow> a = b"
  by (cases a; cases b) (simp add: sint_eqD)

text \<open>Exact addition and subtraction, when the result is in range.\<close>

lemma sint_fx_add:
  assumes "i64_min \<le> sint (raw a) + sint (raw b)" "sint (raw a) + sint (raw b) \<le> i64_max"
  shows "sint (raw (fx_add a b)) = sint (raw a) + sint (raw b)"
proof -
  have "raw a + raw b = word_of_int (sint (raw a) + sint (raw b))" by simp
  then show ?thesis using sint_word_of_int [OF assms] by (simp add: fx_add_def)
qed

lemma sint_fx_sub:
  assumes "i64_min \<le> sint (raw a) - sint (raw b)" "sint (raw a) - sint (raw b) \<le> i64_max"
  shows "sint (raw (fx_sub a b)) = sint (raw a) - sint (raw b)"
proof -
  have "raw a - raw b = word_of_int (sint (raw a) - sint (raw b))" by simp
  then show ?thesis using sint_word_of_int [OF assms] by (simp add: fx_sub_def)
qed

section \<open>The quadratic-scalar interface\<close>

text \<open>
  Negation and absolute value saturate at \<^verbatim>\<open>INT64_MIN\<close>, but the square of either value already
  saturates for every format with \<open>FRAC < 63\<close>, so squaring still ignores the sign.
\<close>

lemma square_saturates:
  assumes "FRAC < 63"
  shows "clamp64 ((i64_max * i64_max) div 2 ^ FRAC) = clamp64 ((i64_min * i64_min) div 2 ^ FRAC)"
proof -
  have big: "i64_max \<le> p div 2 ^ FRAC" if "2 ^ 62 * i64_max \<le> p" for p :: int
  proof -
    have "(2::int) ^ FRAC \<le> 2 ^ 62" using assms by (intro power_increasing) auto
    then have "i64_max * 2 ^ FRAC \<le> i64_max * 2 ^ 62"
      by (intro mult_left_mono) (simp_all add: int_limits)
    then have "i64_max * 2 ^ FRAC \<le> p" using that by (simp add: mult.commute)
    then have "(i64_max * 2 ^ FRAC) div 2 ^ FRAC \<le> p div 2 ^ FRAC"
      by (rule zdiv_mono1) simp
    then show ?thesis by simp
  qed
  have "i64_max \<le> (i64_max * i64_max) div 2 ^ FRAC" by (rule big) (simp add: int_limits)
  moreover have "i64_max \<le> (i64_min * i64_min) div 2 ^ FRAC" by (rule big) (simp add: int_limits)
  ultimately show ?thesis by (simp add: clamp64_def)
qed

lemma fx_mul_sign:
  assumes "FRAC < 63" and "sint (raw y) = min i64_max (- sint (raw x)) \<or> sint (raw y) = sint (raw x)"
  shows "fx_mul FRAC y y = fx_mul FRAC x x"
proof (rule fx_eqI)
  have "sint (raw x) = i64_min \<and> sint (raw y) = i64_max
        \<or> sint (raw y) = - sint (raw x) \<or> sint (raw y) = sint (raw x)"
    using assms(2) sint_range [of "raw x"] by (auto simp: int_limits min_def split: if_splits)
  then show "sint (raw (fx_mul FRAC y y)) = sint (raw (fx_mul FRAC x x))"
    using square_saturates [OF assms(1)] by (auto simp: sint_fx_mul)
qed

lemma fx_quad_scalar: "FRAC < 63 \<Longrightarrow> quad_scalar (fx_ops FRAC)"
proof (unfold_locales, goal_cases)
  case (1 x)
  have "sint (raw (fx_abs x)) = min i64_max (- sint (raw x))
      \<or> sint (raw (fx_abs x)) = sint (raw x)"
    using sint_range [of "raw x"] by (auto simp: sint_fx_abs abs_if)
  with 1 show ?case using fx_mul_sign [of FRAC "fx_abs x" x] by (simp add: fx_ops_def)
next
  case (2 x)
  have "sint (raw (fx_neg x)) = min i64_max (- sint (raw x))"
    using sint_range [of "raw x"] by (auto simp: sint_fx_neg clamp64_def int_limits)
  with 2 show ?case using fx_mul_sign [of FRAC "fx_neg x" x] by (simp add: fx_ops_def)
qed

text \<open>The three formats of the code: \<^verbatim>\<open>FxQ657\<close> (\<^verbatim>\<open>Fx64\<close>), \<^verbatim>\<open>FxQ459\<close>, \<^verbatim>\<open>FxQ360\<close>.\<close>

interpretation q57: quad_scalar "fx_ops 57" by (rule fx_quad_scalar) simp
interpretation q59: quad_scalar "fx_ops 59" by (rule fx_quad_scalar) simp
interpretation q60: quad_scalar "fx_ops 60" by (rule fx_quad_scalar) simp

section \<open>Properties\<close>

text \<open>
  fixed-point multiplication is exact multiplication followed by rounding down and
  saturation to the 64-bit range: for every format and every pair of raw values, the signed
  reading of the product is \<open>clamp (\<lfloor>a * b / 2 ^ FRAC\<rfloor>)\<close>; \<^verbatim>\<open>sqr()\<close> is the same
  function on the diagonal.
\<close>

theorem fx_mul_exact:
  "sint (raw (fx_mul FRAC a b))
     = max i64_min (min i64_max (\<lfloor>(of_int (sint (raw a)) * of_int (sint (raw b))) / 2 ^ FRAC :: rat\<rfloor>))
   \<and> fx_sqr FRAC a = fx_mul FRAC a a"
proof (intro conjI)
  have "\<lfloor>(of_int (sint (raw a)) * of_int (sint (raw b))) / 2 ^ FRAC :: rat\<rfloor>
      = (sint (raw a) * sint (raw b)) div 2 ^ FRAC"
    by (metis floor_divide_of_int_eq of_int_mult of_int_numeral of_int_power)
  then show "sint (raw (fx_mul FRAC a b))
     = max i64_min (min i64_max (\<lfloor>(of_int (sint (raw a)) * of_int (sint (raw b))) / 2 ^ FRAC :: rat\<rfloor>))"
    by (simp add: sint_fx_mul clamp64_def)
  have "0 \<le> (sint (raw a) * sint (raw a)) div 2 ^ FRAC" by (simp add: pos_imp_zdiv_nonneg_iff)
  then show "fx_sqr FRAC a = fx_mul FRAC a a"
    by (auto simp: fx_sqr_def fx_mul_def Let_def int_limits)
qed

text \<open>
  the cached quadratic step is the variant's step on all three fixed-point formats, for
  every raw value, \<^verbatim>\<open>INT64_MIN\<close> included: the saturating negation and absolute value of
  \<^verbatim>\<open>Fixed64\<close> do not disturb the reuse of the cached squares.
\<close>

theorem fx_step_cached_correct:
  assumes "\<not> variant_is_transcendental V" and "V \<noteq> Custom" and "FRAC \<in> {57, 59, 60}"
  shows "map_option (\<lambda>(a, b). mk_cx a b)
           (step_cached (fx_ops FRAC) V (re z) (im z) (fx_mul FRAC (re z) (re z))
              (fx_mul FRAC (im z) (im z)) (re c) (im c))
         = variant_step (fx_ops FRAC) L V z c"
  using assms q57.step_cached_is_variant_step [OF assms(1,2), of z c L]
    q59.step_cached_is_variant_step [OF assms(1,2), of z c L]
    q60.step_cached_is_variant_step [OF assms(1,2), of z c L]
  by (auto simp: fx_ops_def)

theorem fx_step_cached_correct_witness:
  "\<forall>L. map_option (\<lambda>(a, b). mk_cx a b)
     (step_cached (fx_ops 60) Ship (Fx (word_of_int i64_min)) (Fx 5)
        (fx_mul 60 (Fx (word_of_int i64_min)) (Fx (word_of_int i64_min))) (fx_mul 60 (Fx 5) (Fx 5))
        (Fx 1) (Fx 2))
   = variant_step (fx_ops 60) L Ship (mk_cx (Fx (word_of_int i64_min)) (Fx 5)) (mk_cx (Fx 1) (Fx 2))"
  using fx_step_cached_correct [of Ship 60 "mk_cx (Fx (word_of_int i64_min)) (Fx 5)"
      "mk_cx (Fx 1) (Fx 2)"]
  by (simp add: variant_is_transcendental_def mk_cx_def)

end
