(* ===== verification/FixedRaw.thy ===== *)
theory FixedRaw
  imports Fixed64
begin

text \<open>
  \<^verbatim>\<open>compute/fx64_raw.hpp\<close>: the host-side raw helpers of the fixed-point render paths, that is
  saturating squares and magnitudes, conversions, and the fixed-point viewport with its pixel
  coordinates. \<^verbatim>\<open>uint64_t\<close> and \<^verbatim>\<open>int64_t\<close> are 64-bit words, \<^verbatim>\<open>__int128\<close> values are integers (each
  is a product or a sum of a few 64-bit values), and \<^verbatim>\<open>long double\<close> is the \<open>x80\<close> format.
\<close>

definition two_q60 :: u64 where "two_q60 = 0x2000000000000000"
definition two_sqrt2_q60_floor :: u64 where "two_sqrt2_q60_floor = 0x2D413CCCFE779921"

record viewport_raw =
  center_re_raw :: i64
  center_im_raw :: i64
  span_re_raw :: i64
  span_im_raw :: i64
  vp_width :: int
  vp_height :: int
  first_re_raw :: i64
  first_im_raw :: i64
  step_re_raw :: i64
  step_im_raw :: i64
  julia_re_raw :: i64
  julia_im_raw :: i64
  bailout_raw :: u64
  bailout2_raw :: u64
  two_raw :: u64
  two_sqrt2_floor_raw :: u64
  bailout2_q57 :: u64

section \<open>Squares and magnitudes\<close>

definition abs_i64_to_u64 :: "i64 \<Rightarrow> u64" where
  "abs_i64_to_u64 x = (let ux = x in if sint x < 0 then not ux + 1 else ux)"

definition fixed_square_q_sat_raw_cpu :: "nat \<Rightarrow> i64 \<Rightarrow> u64" where
  "fixed_square_q_sat_raw_cpu FRAC r =
    (let a = abs_i64_to_u64 r; product = uint a * uint a; shifted = product div 2 ^ FRAC
     in if shifted > u64_max then word_of_int u64_max else word_of_int shifted)"

definition fixed_square_q_sat_raw :: "nat \<Rightarrow> i64 \<Rightarrow> u64" where
  "fixed_square_q_sat_raw FRAC r = fixed_square_q_sat_raw_cpu FRAC r"

definition fixed_mag2_q_sat_cpu :: "nat \<Rightarrow> i64 \<Rightarrow> i64 \<Rightarrow> u64" where
  "fixed_mag2_q_sat_cpu FRAC re_raw im_raw =
    (let re2 = fixed_square_q_sat_raw_cpu FRAC re_raw;
         im2 = fixed_square_q_sat_raw_cpu FRAC im_raw;
         sum = re2 + im2
     in if sum < re2 then word_of_int u64_max else sum)"

definition fixed_mag2_q_sat :: "nat \<Rightarrow> i64 \<Rightarrow> i64 \<Rightarrow> u64" where
  "fixed_mag2_q_sat FRAC re_raw im_raw = fixed_mag2_q_sat_cpu FRAC re_raw im_raw"

definition fixed_component_escaped_q :: "i64 \<Rightarrow> i64 \<Rightarrow> u64 \<Rightarrow> bool" where
  "fixed_component_escaped_q re_raw im_raw bailout \<longleftrightarrow>
     abs_i64_to_u64 re_raw > bailout \<or> abs_i64_to_u64 im_raw > bailout"

definition fixed_escaped_q_cpu :: "nat \<Rightarrow> i64 \<Rightarrow> i64 \<Rightarrow> u64 \<Rightarrow> bool" where
  "fixed_escaped_q_cpu FRAC re_raw im_raw bailout2 \<longleftrightarrow>
     fixed_mag2_q_sat_cpu FRAC re_raw im_raw > bailout2"

definition fixed_escaped_q :: "nat \<Rightarrow> i64 \<Rightarrow> i64 \<Rightarrow> u64 \<Rightarrow> bool" where
  "fixed_escaped_q FRAC re_raw im_raw bailout2 \<longleftrightarrow> fixed_escaped_q_cpu FRAC re_raw im_raw bailout2"

definition fixed_mag2_q_to_double :: "nat \<Rightarrow> u64 \<Rightarrow> fl" where
  "fixed_mag2_q_to_double FRAC m = fdiv b64 (f_of_int b64 (uint m)) (fx_scale FRAC)"

definition fixed_mag2_q_to_abs :: "nat \<Rightarrow> u64 \<Rightarrow> fl" where
  "fixed_mag2_q_to_abs FRAC m = fsqrt b64 (fixed_mag2_q_to_double FRAC m)"

section \<open>Conversions\<close>

definition scaled_x80 :: "nat \<Rightarrow> fl \<Rightarrow> fl" where
  "scaled_x80 FRAC x = fmul x80 (fconv x80 x) (fldexp x80 (Fin 1) (int FRAC))"

definition fixed_round_to_raw_sat :: "nat \<Rightarrow> fl \<Rightarrow> i64" where
  "fixed_round_to_raw_sat FRAC x =
    (if \<not> fis_finite x then (if flt x (Fin 0) then word_of_int i64_min else word_of_int i64_max)
     else let scaled = scaled_x80 FRAC x in
       if fle (f_of_int x80 i64_max) scaled then word_of_int i64_max
       else if fle scaled (f_of_int x80 i64_min) then word_of_int i64_min
       else case fllround scaled of Some i \<Rightarrow> word_of_int i | None \<Rightarrow> word_of_int i64_min)"

definition fixed_round_to_uraw_sat :: "nat \<Rightarrow> fl \<Rightarrow> u64" where
  "fixed_round_to_uraw_sat FRAC x =
    (if \<not> fis_finite x \<or> fle x (Fin 0) then 0
     else let scaled = scaled_x80 FRAC x in
       if fle (f_of_int x80 u64_max) scaled then word_of_int u64_max
       else word_of_int (rtrunc (fval (ffloor (fadd x80 scaled (Fin (1 / 2)))))))"

definition fixed_saturate_i128 :: "int \<Rightarrow> i64" where
  "fixed_saturate_i128 v =
    (if v > i64_max then word_of_int i64_max
     else if v < i64_min then word_of_int i64_min else word_of_int v)"

definition fixed_two_raw_const :: "nat \<Rightarrow> u64" where
  "fixed_two_raw_const FRAC = push_bit (FRAC + 1) 1"

definition fixed_two_sqrt2_floor_raw_const :: "nat \<Rightarrow> u64" where
  "fixed_two_sqrt2_floor_raw_const FRAC = (if FRAC = 60 then two_sqrt2_q60_floor else 0)"

section \<open>The viewport\<close>

definition make_fixed_viewport_raw ::
    "nat \<Rightarrow> fl \<Rightarrow> fl \<Rightarrow> fl \<Rightarrow> fl \<Rightarrow> int \<Rightarrow> int \<Rightarrow> fl \<Rightarrow> fl \<Rightarrow> fl \<Rightarrow> fl \<Rightarrow> viewport_raw" where
  "make_fixed_viewport_raw FRAC center_re center_im scale viewport_aspect width height
      julia_re julia_im bailout bailout_sq =
    (let c_re = fixed_round_to_raw_sat FRAC center_re;
         c_im = fixed_round_to_raw_sat FRAC center_im;
         scale_raw = fixed_round_to_raw_sat FRAC scale;
         span_re_value = fixed_round_to_raw_sat FRAC (dmul scale viewport_aspect);
         span_im = sint scale_raw;
         span_re = sint span_re_value;
         step_re = (if width > 0 then fixed_saturate_i128 (tdiv span_re width) else 0);
         step_im = (if height > 0 then fixed_saturate_i128 (tdiv span_im height) else 0);
         b2 = fixed_round_to_uraw_sat FRAC bailout_sq
     in \<lparr>center_re_raw = c_re, center_im_raw = c_im,
         span_re_raw = span_re_value, span_im_raw = scale_raw,
         vp_width = width, vp_height = height,
         first_re_raw =
           fixed_saturate_i128 (sint c_re - tdiv span_re 2 + tdiv (sint step_re) 2),
         first_im_raw =
           fixed_saturate_i128 (sint c_im + tdiv span_im 2 - tdiv (sint step_im) 2),
         step_re_raw = step_re, step_im_raw = step_im,
         julia_re_raw = fixed_round_to_raw_sat FRAC julia_re,
         julia_im_raw = fixed_round_to_raw_sat FRAC julia_im,
         bailout_raw = fixed_round_to_uraw_sat FRAC bailout,
         bailout2_raw = b2,
         two_raw = fixed_two_raw_const FRAC,
         two_sqrt2_floor_raw = fixed_two_sqrt2_floor_raw_const FRAC,
         bailout2_q57 = b2\<rparr>)"

text \<open>The 64-bit division and remainder of C++, on words.\<close>

definition sdiv64 :: "i64 \<Rightarrow> i64 \<Rightarrow> i64" where
  "sdiv64 a b = word_of_int (tdiv (sint a) (sint b))"

definition smod64 :: "i64 \<Rightarrow> i64 \<Rightarrow> i64" where
  "smod64 a b = word_of_int (tmod (sint a) (sint b))"

definition fixed_pixel_re_raw :: "viewport_raw \<Rightarrow> int \<Rightarrow> i64" where
  "fixed_pixel_re_raw v x =
    (if vp_width v > 0 then
       let denominator = word_of_int (2 * vp_width v);
           numerator_factor = word_of_int (2 * x + 1);
           quotient = sdiv64 (span_re_raw v) denominator;
           remainder = smod64 (span_re_raw v) denominator;
           offset = quotient * numerator_factor
                      + sdiv64 (remainder * numerator_factor) denominator
       in center_re_raw v - sdiv64 (span_re_raw v) 2 + offset
     else fixed_saturate_i128 (sint (first_re_raw v) + x * sint (step_re_raw v)))"

definition fixed_pixel_im_raw :: "viewport_raw \<Rightarrow> int \<Rightarrow> i64" where
  "fixed_pixel_im_raw v y =
    (if vp_height v > 0 then
       let denominator = word_of_int (2 * vp_height v);
           numerator_factor = word_of_int (2 * y + 1);
           quotient = sdiv64 (span_im_raw v) denominator;
           remainder = smod64 (span_im_raw v) denominator;
           offset = quotient * numerator_factor
                      + sdiv64 (remainder * numerator_factor) denominator
       in center_im_raw v + sdiv64 (span_im_raw v) 2 - offset
     else fixed_saturate_i128 (sint (first_im_raw v) - y * sint (step_im_raw v)))"

section \<open>The Q6.57 names\<close>

definition fx64_square_q57_sat_raw_cpu :: "i64 \<Rightarrow> u64" where
  "fx64_square_q57_sat_raw_cpu r = fixed_square_q_sat_raw_cpu 57 r"
definition fx64_square_q57_sat_raw :: "i64 \<Rightarrow> u64" where
  "fx64_square_q57_sat_raw r = fixed_square_q_sat_raw 57 r"
definition fx64_mag2_q57_sat_cpu :: "i64 \<Rightarrow> i64 \<Rightarrow> u64" where
  "fx64_mag2_q57_sat_cpu re_raw im_raw = fixed_mag2_q_sat_cpu 57 re_raw im_raw"
definition fx64_mag2_q57_sat :: "i64 \<Rightarrow> i64 \<Rightarrow> u64" where
  "fx64_mag2_q57_sat re_raw im_raw = fixed_mag2_q_sat 57 re_raw im_raw"
definition fx64_component_escaped_q57 :: "i64 \<Rightarrow> i64 \<Rightarrow> u64 \<Rightarrow> bool" where
  "fx64_component_escaped_q57 re_raw im_raw b = fixed_component_escaped_q re_raw im_raw b"
definition fx64_escaped_q57_cpu :: "i64 \<Rightarrow> i64 \<Rightarrow> u64 \<Rightarrow> bool" where
  "fx64_escaped_q57_cpu re_raw im_raw b2 = fixed_escaped_q_cpu 57 re_raw im_raw b2"
definition fx64_escaped_q57 :: "i64 \<Rightarrow> i64 \<Rightarrow> u64 \<Rightarrow> bool" where
  "fx64_escaped_q57 re_raw im_raw b2 = fx64_escaped_q57_cpu re_raw im_raw b2"
definition fx64_mag2_q57_to_double :: "u64 \<Rightarrow> fl" where
  "fx64_mag2_q57_to_double m = fixed_mag2_q_to_double 57 m"
definition fx64_mag2_q57_to_abs :: "u64 \<Rightarrow> fl" where
  "fx64_mag2_q57_to_abs m = fixed_mag2_q_to_abs 57 m"
definition fx64_round_to_raw_sat :: "fl \<Rightarrow> i64" where
  "fx64_round_to_raw_sat x = fixed_round_to_raw_sat 57 x"
definition fx64_round_to_uraw_sat :: "fl \<Rightarrow> u64" where
  "fx64_round_to_uraw_sat x = fixed_round_to_uraw_sat 57 x"
definition fx64_saturate_i128 :: "int \<Rightarrow> i64" where
  "fx64_saturate_i128 v = fixed_saturate_i128 v"
definition make_fx64_viewport_raw ::
    "fl \<Rightarrow> fl \<Rightarrow> fl \<Rightarrow> fl \<Rightarrow> int \<Rightarrow> int \<Rightarrow> fl \<Rightarrow> fl \<Rightarrow> fl \<Rightarrow> fl \<Rightarrow> viewport_raw" where
  "make_fx64_viewport_raw = make_fixed_viewport_raw 57"
definition fx64_pixel_re_raw :: "viewport_raw \<Rightarrow> int \<Rightarrow> i64" where
  "fx64_pixel_re_raw v x = fixed_pixel_re_raw v x"
definition fx64_pixel_im_raw :: "viewport_raw \<Rightarrow> int \<Rightarrow> i64" where
  "fx64_pixel_im_raw v y = fixed_pixel_im_raw v y"

section \<open>Facts about squares and magnitudes\<close>

lemma uint_abs_i64: "uint (abs_i64_to_u64 x) = \<bar>sint x\<bar>"
proof (cases "sint x < 0")
  case True
  have "not x + 1 = - x" by (simp add: minus_eq_not_plus_1)
  also have "- x = word_of_int (- sint x)" by simp
  finally have "abs_i64_to_u64 x = word_of_int (- sint x)" using True by (simp add: abs_i64_to_u64_def)
  moreover have "uint (word_of_int (- sint x) :: u64) = - sint x"
    using True sint_range [of x] by (intro uint_word_of_int_eq [THEN trans])
      (simp add: take_bit_int_eq_self int_limits)
  ultimately show ?thesis using True by simp
next
  case False
  then have "uint x = sint x"
    using sint_range [of x] by (simp add: uint_sint take_bit_int_eq_self int_limits)
  with False show ?thesis by (simp add: abs_i64_to_u64_def)
qed

lemma uint_word_of_int_id: "0 \<le> k \<Longrightarrow> k \<le> u64_max \<Longrightarrow> uint (word_of_int k :: u64) = k"
  by (simp add: uint_word_of_int_eq take_bit_int_eq_self u64_max_def)

lemma uint_square:
  "uint (fixed_square_q_sat_raw_cpu FRAC r) = min u64_max ((sint r)\<^sup>2 div 2 ^ FRAC)"
proof -
  have "0 \<le> (sint r)\<^sup>2 div 2 ^ FRAC" by (simp add: pos_imp_zdiv_nonneg_iff)
  then show ?thesis
    by (auto simp: fixed_square_q_sat_raw_cpu_def Let_def uint_abs_i64 uint_word_of_int_id
        power2_eq_square abs_mult_self_eq u64_max_def)
qed

text \<open>The unsigned saturating sum \<^verbatim>\<open>sum < a ? UINT64_MAX : sum\<close>.\<close>

lemma uint_sat_add:
  "uint (if (a::u64) + b < a then word_of_int u64_max else a + b) = min u64_max (uint a + uint b)"
proof -
  have "0 \<le> uint a" "0 \<le> uint b" "uint a < 2 ^ 64" "uint b < 2 ^ 64"
    using uint_lt2p [of a] uint_lt2p [of b] by simp_all
  then show ?thesis
    by (auto simp: uint_word_of_int_id word_less_alt uint_plus_if' u64_max_def)
qed

lemma uint_mag2:
  "uint (fixed_mag2_q_sat_cpu FRAC a b)
     = min u64_max ((sint a)\<^sup>2 div 2 ^ FRAC + (sint b)\<^sup>2 div 2 ^ FRAC)"
proof -
  have "0 \<le> (sint a)\<^sup>2 div 2 ^ FRAC" "0 \<le> (sint b)\<^sup>2 div 2 ^ FRAC"
    by (simp_all add: pos_imp_zdiv_nonneg_iff)
  then show ?thesis
    unfolding fixed_mag2_q_sat_cpu_def Let_def uint_sat_add uint_square
    by (auto simp: min_def u64_max_def)
qed

lemma word_le_uint_iff: "(a::u64) > b \<longleftrightarrow> uint b < uint a"
  by (simp add: word_less_alt)

section \<open>Facts about pixel coordinates\<close>

lemma strength_reduced_division:
  fixes s D N :: int
  assumes "0 < D"
  shows "s div D * N + ((s mod D) * N) div D = (s * N) div D"
proof -
  have "s * N = (s div D * N) * D + (s mod D) * N"
    by (metis distrib_right div_mult_mod_eq mult.assoc mult.commute)
  then show ?thesis using assms by simp
qed

lemma pixel_offset_bounds:
  assumes "0 \<le> s" and "0 \<le> x" and "x < (w::int)"
  shows "0 \<le> (s * (2 * x + 1)) div (2 * w) \<and> (s * (2 * x + 1)) div (2 * w) \<le> s"
proof
  show "0 \<le> (s * (2 * x + 1)) div (2 * w)"
    using assms by (simp add: pos_imp_zdiv_nonneg_iff)
  have "s * (2 * x + 1) \<le> s * (2 * w)" using assms by (intro mult_left_mono) auto
  then have "(s * (2 * x + 1)) div (2 * w) \<le> (s * (2 * w)) div (2 * w)"
    using assms by (intro zdiv_mono1) auto
  then show "(s * (2 * x + 1)) div (2 * w) \<le> s" using assms by simp
qed

text \<open>The 64-bit words that both coordinate functions compute.\<close>

lemma pixel_offset_word:
  fixes s :: i64
  assumes "0 \<le> sint s" and "0 \<le> x" and "x < w" and "w < 2 ^ 30"
  shows "sdiv64 s (word_of_int (2 * w)) * word_of_int (2 * x + 1)
       + sdiv64 (smod64 s (word_of_int (2 * w)) * word_of_int (2 * x + 1)) (word_of_int (2 * w))
     = word_of_int ((sint s * (2 * x + 1)) div (2 * w))"
proof -
  let ?D = "2 * w" and ?N = "2 * x + 1" and ?s = "sint s"
  have D: "sint (word_of_int ?D :: i64) = ?D"
    by (rule sint_word_of_int) (use assms in \<open>auto simp: int_limits\<close>)
  have D0: "0 < ?D" using assms by linarith
  have r: "0 \<le> ?s mod ?D" "?s mod ?D < ?D" using D0 by simp_all
  have "(?s mod ?D) * ?N \<le> ?D * ?D" using r assms by (intro mult_mono) linarith+
  also have "\<dots> \<le> 2 ^ 31 * 2 ^ 31" using assms by (intro mult_mono) auto
  finally have "(?s mod ?D) * ?N \<le> 2 ^ 62" by simp
  then have rN: "sint (word_of_int ((?s mod ?D) * ?N) :: i64) = (?s mod ?D) * ?N"
    using r assms by (intro sint_word_of_int) (auto simp: int_limits intro: order_trans [of _ 0])
  have "sdiv64 (word_of_int ((?s mod ?D) * ?N)) (word_of_int ?D)
      = word_of_int (((?s mod ?D) * ?N) div ?D)"
    using r D0 assms by (simp add: sdiv64_def rN D tdiv_nonneg del: of_int_mult)
  moreover have "sdiv64 s (word_of_int ?D) = word_of_int (?s div ?D)"
    and "smod64 s (word_of_int ?D) = word_of_int (?s mod ?D)"
    using assms D D0 by (simp_all add: sdiv64_def smod64_def tdiv_nonneg tmod_nonneg del: of_int_mult)
  ultimately show ?thesis
    using strength_reduced_division [OF D0, of ?s ?N]
    by (simp flip: of_int_mult of_int_add)
qed

section \<open>Properties\<close>

text \<open>
  the fixed-point magnitude is exact up to rounding down each square, and saturates instead
  of wrapping: for every pair of raw values it is
  \<open>min (2 ^ 64 - 1) (\<lfloor>re\<^sup>2 / 2 ^ FRAC\<rfloor> + \<lfloor>im\<^sup>2 / 2 ^ FRAC\<rfloor>)\<close>, so the escape test of
  the raw paths compares the true magnitude with the threshold whatever the orbit does.
\<close>

theorem fixed_mag2_saturates:
  "uint (fixed_mag2_q_sat FRAC a b)
     = min u64_max ((sint a)\<^sup>2 div 2 ^ FRAC + (sint b)\<^sup>2 div 2 ^ FRAC)
   \<and> (fixed_escaped_q FRAC a b bail
     \<longleftrightarrow> uint bail < min u64_max ((sint a)\<^sup>2 div 2 ^ FRAC + (sint b)\<^sup>2 div 2 ^ FRAC))"
  by (simp_all add: fixed_mag2_q_sat_def uint_mag2 fixed_escaped_q_def fixed_escaped_q_cpu_def
      word_le_uint_iff)

text \<open>
  pixel coordinates of a fixed-point viewport are exact. The code divides the span first, so
  as to stay in 64 bits, and adds the scaled remainder; the result is the coordinate
  \<open>center - span / 2 + \<lfloor>span * (2 x + 1) / (2 width)\<rfloor>\<close> of the pixel's centre, with no intermediate
  overflow, for every column of an image below \<open>2 ^ 30\<close> columns whose window is in range.
\<close>

theorem fixed_pixel_re_exact:
  assumes "0 \<le> sint (span_re_raw v)" and "0 \<le> x" and "x < vp_width v" and "vp_width v < 2 ^ 30"
    and "i64_min \<le> sint (center_re_raw v) - sint (span_re_raw v) div 2"
    and "sint (center_re_raw v) - sint (span_re_raw v) div 2 + sint (span_re_raw v) \<le> i64_max"
  shows "sint (fixed_pixel_re_raw v x)
     = sint (center_re_raw v) - sint (span_re_raw v) div 2
       + (sint (span_re_raw v) * (2 * x + 1)) div (2 * vp_width v)"
proof -
  let ?c = "sint (center_re_raw v)" and ?s = "sint (span_re_raw v)"
  let ?o = "(?s * (2 * x + 1)) div (2 * vp_width v)"
  have half: "sdiv64 (span_re_raw v) 2 = word_of_int (?s div 2)"
    using assms(1) by (simp add: sdiv64_def tdiv_nonneg)
  have "fixed_pixel_re_raw v x = center_re_raw v - word_of_int (?s div 2) + word_of_int ?o"
    using assms(1-4) by (simp add: fixed_pixel_re_raw_def Let_def half pixel_offset_word del: of_int_add of_int_mult)
  also have "\<dots> = word_of_int (?c - ?s div 2 + ?o)" by simp
  finally show ?thesis
    using pixel_offset_bounds [OF assms(1-3)] assms(5,6) by (simp only:) (rule sint_word_of_int, linarith+)
qed

text \<open>A window of width and height 3 around the origin, four pixels wide and high.\<close>

definition sample_viewport :: viewport_raw where
  "sample_viewport = \<lparr>center_re_raw = 0, center_im_raw = 0, span_re_raw = 3 * 2 ^ 57,
     span_im_raw = 3 * 2 ^ 57, vp_width = 4, vp_height = 4, first_re_raw = 0, first_im_raw = 0,
     step_re_raw = 0, step_im_raw = 0, julia_re_raw = 0, julia_im_raw = 0, bailout_raw = 2 ^ 58,
     bailout2_raw = 2 ^ 59, two_raw = 2 ^ 58, two_sqrt2_floor_raw = 0, bailout2_q57 = 2 ^ 59\<rparr>"

theorem fixed_pixel_re_exact_witness:
  "sint (fixed_pixel_re_raw sample_viewport 0) = - (9 * 2 ^ 54)"
  using fixed_pixel_re_exact [of sample_viewport 0]
  by (simp add: sample_viewport_def int_limits)

text \<open>The same for rows, whose coordinate decreases from the top edge.\<close>

theorem fixed_pixel_im_exact:
  assumes "0 \<le> sint (span_im_raw v)" and "0 \<le> y" and "y < vp_height v" and "vp_height v < 2 ^ 30"
    and "sint (center_im_raw v) + sint (span_im_raw v) div 2 \<le> i64_max"
    and "i64_min \<le> sint (center_im_raw v) + sint (span_im_raw v) div 2 - sint (span_im_raw v)"
  shows "sint (fixed_pixel_im_raw v y)
     = sint (center_im_raw v) + sint (span_im_raw v) div 2
       - (sint (span_im_raw v) * (2 * y + 1)) div (2 * vp_height v)"
proof -
  let ?c = "sint (center_im_raw v)" and ?s = "sint (span_im_raw v)"
  let ?o = "(?s * (2 * y + 1)) div (2 * vp_height v)"
  have half: "sdiv64 (span_im_raw v) 2 = word_of_int (?s div 2)"
    using assms(1) by (simp add: sdiv64_def tdiv_nonneg)
  have "fixed_pixel_im_raw v y = center_im_raw v + word_of_int (?s div 2) - word_of_int ?o"
    using assms(1-4) by (simp add: fixed_pixel_im_raw_def Let_def half pixel_offset_word del: of_int_add of_int_mult)
  also have "\<dots> = word_of_int (?c + ?s div 2 - ?o)" by simp
  finally show ?thesis
    using pixel_offset_bounds [OF assms(1-3)] assms(5,6) by (simp only:) (rule sint_word_of_int, linarith+)
qed

theorem fixed_pixel_im_exact_witness:
  "sint (fixed_pixel_im_raw sample_viewport 0) = 9 * 2 ^ 54"
  using fixed_pixel_im_exact [of sample_viewport 0]
  by (simp add: sample_viewport_def int_limits)

end
