(* ===== verification/EscapeTime.thy ===== *)
theory EscapeTime
  imports FixedRaw
begin

unbundle bit_operations_syntax

text \<open>
  \<^verbatim>\<open>compute/escape_time.hpp\<close>: the per-pixel iteration kernels. \<^verbatim>\<open>NeedMask\<close>, the gate and the
  variant are template arguments of the C++ and ordinary arguments here; a template instance
  that a \<^verbatim>\<open>static_assert\<close> rejects is \<open>None\<close>. The loop \<^verbatim>\<open>for (i = 0; i < max_iter; i++)\<close> is a
  recursion on the number of iterations left.
\<close>

section \<open>Metrics and result masks\<close>

datatype metric = Escape | MinAbs | MaxAbs | Envelope | MinPairwiseDist | MandelShipAgree

fun metric_id :: "metric \<Rightarrow> int" where
  "metric_id Escape = 0" | "metric_id MinAbs = 1" | "metric_id MaxAbs = 2"
| "metric_id Envelope = 3" | "metric_id MinPairwiseDist = 4" | "metric_id MandelShipAgree = 5"

fun metric_name :: "metric \<Rightarrow> string" where
  "metric_name Escape = ''escape''"
| "metric_name MinAbs = ''min_abs''"
| "metric_name MaxAbs = ''max_abs''"
| "metric_name Envelope = ''envelope''"
| "metric_name MinPairwiseDist = ''min_pairwise_dist''"
| "metric_name MandelShipAgree = ''mandel_ship_agree''"

definition metric_table :: "(string \<times> metric) list" where
  "metric_table =
   [(''escape'', Escape), (''min_abs'', MinAbs), (''max_abs'', MaxAbs), (''envelope'', Envelope),
    (''min_pairwise_dist'', MinPairwiseDist), (''mandel_ship_agree'', MandelShipAgree)]"

definition metric_from_name :: "string \<Rightarrow> metric option" where
  "metric_from_name name = table_lookup metric_table name"

type_synonym mask = "32 word"

definition Field_Iter :: mask where "Field_Iter = 1"
definition Field_MinAbs :: mask where "Field_MinAbs = 2"
definition Field_MaxAbs :: mask where "Field_MaxAbs = 4"
definition Field_Extra :: mask where "Field_Extra = 8"
definition Field_Norm :: mask where "Field_Norm = 16"
definition Field_Escaped :: mask where "Field_Escaped = 32"

lemmas field_defs = Field_Iter_def Field_MinAbs_def Field_MaxAbs_def Field_Extra_def
  Field_Norm_def Field_Escaped_def

definition iter_result_wants :: "mask \<Rightarrow> mask \<Rightarrow> bool" where
  "iter_result_wants m field \<longleftrightarrow> m AND field \<noteq> 0"

record iter_result =
  r_iter :: int
  r_min_abs :: fl
  r_max_abs :: fl
  r_extra :: fl
  r_norm :: fl
  r_escaped :: bool
  r_valid_mask :: mask

definition make_iter_result :: "mask \<Rightarrow> iter_result" where
  "make_iter_result need =
    (let add = (\<lambda>f v. if iter_result_wants need f then v OR f else v)
     in \<lparr>r_iter = 0, r_min_abs = PosInf, r_max_abs = Fin 0, r_extra = PosInf, r_norm = Fin 0,
         r_escaped = False,
         r_valid_mask = add Field_Escaped (add Field_Norm (add Field_Extra (add Field_MaxAbs
           (add Field_MinAbs (add Field_Iter 0)))))\<rparr>)"

section \<open>Fixed-point iteration\<close>

definition add_u64_sat :: "u64 \<Rightarrow> u64 \<Rightarrow> u64" where
  "add_u64_sat a b = (let sum = a + b in if sum < a then word_of_int u64_max else sum)"

definition u64_to_i64_sat :: "u64 \<Rightarrow> i64" where
  "u64_to_i64_sat v = (if v > word_of_int i64_max then word_of_int i64_max else v)"

definition finish_fixed_escape ::
    "mask \<Rightarrow> nat \<Rightarrow> iter_result \<Rightarrow> int \<Rightarrow> u64 \<Rightarrow> u64 \<Rightarrow> u64 \<Rightarrow> iter_result" where
  "finish_fixed_escape need FRAC r iter mag2_raw min_mag2_raw max_mag2_raw =
    (let r = (if iter_result_wants need Field_Iter then r\<lparr>r_iter := iter\<rparr> else r);
         r = (if iter_result_wants need Field_Norm
              then r\<lparr>r_norm := fixed_mag2_q_to_double FRAC mag2_raw\<rparr> else r);
         r = (if iter_result_wants need Field_Escaped then r\<lparr>r_escaped := True\<rparr> else r);
         r = (if iter_result_wants need Field_MinAbs
              then r\<lparr>r_min_abs := fixed_mag2_q_to_abs FRAC min_mag2_raw\<rparr> else r);
         r = (if iter_result_wants need Field_MaxAbs
              then r\<lparr>r_max_abs := fixed_mag2_q_to_abs FRAC max_mag2_raw\<rparr> else r)
     in r)"

datatype fixed_escape_gate = Direct | Component | L1

text \<open>The constants of a fixed-point render: \<^verbatim>\<open>bailout_raw\<close>, \<^verbatim>\<open>bailout2_raw\<close>, \<^verbatim>\<open>two_raw\<close>,
  \<^verbatim>\<open>two_sqrt2_floor_raw\<close>.\<close>

record fixed_consts =
  k_bailout :: u64
  k_bailout2 :: u64
  k_two :: u64
  k_two_sqrt2_floor :: u64

text \<open>The cheap gate before the magnitude: \<open>(escaped_now, l1_raw)\<close>.\<close>

definition fixed_gate :: "fixed_escape_gate \<Rightarrow> fixed_consts \<Rightarrow> fx \<Rightarrow> fx \<Rightarrow> bool \<times> u64" where
  "fixed_gate gate k x y =
    (if gate = Direct then (False, 0)
     else
       let ax = abs_i64_to_u64 (raw x); ay = abs_i64_to_u64 (raw y);
           escaped = (ax > k_bailout k \<or> ay > k_bailout k)
       in if gate = L1 \<and> \<not> escaped then
            let l1 = add_u64_sat ax ay in (l1 > k_two_sqrt2_floor k, l1)
          else (escaped, 0))"

definition track_min :: "mask \<Rightarrow> bool" where "track_min need = iter_result_wants need Field_MinAbs"
definition track_max :: "mask \<Rightarrow> bool" where "track_max need = iter_result_wants need Field_MaxAbs"
definition wants_norm :: "mask \<Rightarrow> bool" where "wants_norm need = iter_result_wants need Field_Norm"
definition can_gate :: "mask \<Rightarrow> bool" where
  "can_gate need \<longleftrightarrow> \<not> (track_min need \<or> track_max need \<or> wants_norm need)"

text \<open>Running minimum and maximum of the magnitude.\<close>

definition upd_min :: "mask \<Rightarrow> u64 \<Rightarrow> u64 \<Rightarrow> u64" where
  "upd_min need mn m = (if track_min need then min mn m else mn)"
definition upd_max :: "mask \<Rightarrow> u64 \<Rightarrow> u64 \<Rightarrow> u64" where
  "upd_max need mx m = (if track_max need then max mx m else mx)"

text \<open>
  The block under \<^verbatim>\<open>if (precheck_initial_z0)\<close>: \<open>Inl r\<close> when it returns, otherwise the raw squares
  and the running extrema. The branch \<^verbatim>\<open>else if (!have_mag2 && ...)\<close> of the code is dead (its
  condition implies that the block above computed the magnitude), and is kept.
\<close>

definition fixed_precheck ::
    "nat \<Rightarrow> fixed_escape_gate \<Rightarrow> mask \<Rightarrow> fixed_consts \<Rightarrow> fx \<Rightarrow> fx \<Rightarrow> iter_result
     \<Rightarrow> iter_result + (u64 \<times> u64 \<times> u64 \<times> u64)" where
  "fixed_precheck FRAC gate need k x y r =
    (let (escaped, l1) = fixed_gate gate k x y;
         sqx = fixed_square_q_sat_raw_cpu FRAC (raw x);
         sqy = fixed_square_q_sat_raw_cpu FRAC (raw y);
         early = (gate = Direct \<or> track_min need \<or> track_max need \<or> wants_norm need);
         mn0 = word_of_int u64_max; mx0 = 0;
         (x2, y2, mag2, have, mn, mx) =
           (if early then (let m = add_u64_sat sqx sqy
                           in (sqx, sqy, m, True, upd_min need mn0 m, upd_max need mx0 m))
            else (0, 0, 0, False, mn0, mx0));
         (escaped, x2, y2, mag2, mn, mx) =
           (if \<not> escaped then
              let (x2, y2, mag2) = (if \<not> have then (sqx, sqy, add_u64_sat sqx sqy)
                                    else (x2, y2, mag2))
              in ((if gate = L1 then l1 > k_two k \<and> mag2 > k_bailout2 k
                   else mag2 > k_bailout2 k), x2, y2, mag2, mn, mx)
            else if \<not> have \<and> (track_min need \<or> track_max need \<or> wants_norm need) then
              let m = add_u64_sat sqx sqy
              in (escaped, sqx, sqy, m, upd_min need mn m, upd_max need mx m)
            else (escaped, x2, y2, mag2, mn, mx))
     in if escaped then Inl (finish_fixed_escape need FRAC r 0 mag2 mn mx)
        else Inr (x2, y2, mn, mx))"

text \<open>
  One iteration of the loop, after the step: \<open>(escaped_now, mag2_raw, nx2_raw, ny2_raw, min, max)\<close>.
\<close>

definition fixed_escape_test ::
    "nat \<Rightarrow> fixed_escape_gate \<Rightarrow> mask \<Rightarrow> fixed_consts \<Rightarrow> fx \<Rightarrow> fx \<Rightarrow> u64 \<Rightarrow> u64
     \<Rightarrow> bool \<times> u64 \<times> u64 \<times> u64 \<times> u64 \<times> u64" where
  "fixed_escape_test FRAC gate need k nx ny mn mx =
    (let (escaped, l1) = (if can_gate need then fixed_gate gate k nx ny else (False, 0))
     in if \<not> escaped then
          let nx2 = fixed_square_q_sat_raw_cpu FRAC (raw nx);
              ny2 = fixed_square_q_sat_raw_cpu FRAC (raw ny);
              mag2 = add_u64_sat nx2 ny2;
              mn = upd_min need mn mag2;
              mx = upd_max need mx mag2;
              escaped = (if can_gate need \<and> gate = L1
                         then l1 > k_two k \<and> mag2 > k_bailout2 k
                         else mag2 > k_bailout2 k)
          in (escaped, mag2, nx2, ny2, mn, mx)
        else (True, 0, 0, 0, mn, mx))"

definition fixed_finish_bounded ::
    "mask \<Rightarrow> nat \<Rightarrow> iter_result \<Rightarrow> int \<Rightarrow> u64 \<Rightarrow> u64 \<Rightarrow> iter_result" where
  "fixed_finish_bounded need FRAC r max_iter mn mx =
    (let r = (if iter_result_wants need Field_Iter then r\<lparr>r_iter := max_iter\<rparr> else r);
         r = (if iter_result_wants need Field_Escaped then r\<lparr>r_escaped := False\<rparr> else r);
         r = (if track_min need then r\<lparr>r_min_abs := fixed_mag2_q_to_abs FRAC mn\<rparr> else r);
         r = (if track_max need then r\<lparr>r_max_abs := fixed_mag2_q_to_abs FRAC mx\<rparr> else r)
     in r)"

fun fixed_loop ::
    "nat \<Rightarrow> nat \<Rightarrow> fixed_escape_gate \<Rightarrow> mask \<Rightarrow> variant \<Rightarrow> fixed_consts \<Rightarrow> fx cx
     \<Rightarrow> iter_result \<Rightarrow> int \<Rightarrow> fx \<Rightarrow> fx \<Rightarrow> fx \<Rightarrow> fx \<Rightarrow> u64 \<Rightarrow> u64 \<Rightarrow> iter_result option" where
  "fixed_loop 0 FRAC gate need V k c r i x y x2 y2 mn mx =
     Some (fixed_finish_bounded need FRAC r i mn mx)"
| "fixed_loop (Suc n) FRAC gate need V k c r i x y x2 y2 mn mx =
     (case step_cached (fx_ops FRAC) V x y x2 y2 (re c) (im c) of
        None \<Rightarrow> None
      | Some (nx, ny) \<Rightarrow>
          let (escaped, mag2, nx2, ny2, mn, mx) = fixed_escape_test FRAC gate need k nx ny mn mx
          in if escaped then Some (finish_fixed_escape need FRAC r i mag2 mn mx)
             else fixed_loop n FRAC gate need V k c r (i + 1) nx ny
                    (Fx (u64_to_i64_sat nx2)) (Fx (u64_to_i64_sat ny2)) mn mx)"

text \<open>
  \<^verbatim>\<open>iterate_fixed_int_masked\<close>. At the end of the loop \<open>i\<close> is \<^verbatim>\<open>max_iter\<close> when that is not negative,
  and the loop does not run otherwise; \<open>fixed_bound\<close> is the value the code reports then.
\<close>

definition start_squares :: "nat \<Rightarrow> fx \<Rightarrow> fx \<Rightarrow> u64 \<Rightarrow> u64 \<Rightarrow> u64 \<times> u64" where
  "start_squares FRAC x y x2 y2 =
    (if x2 = 0 \<and> y2 = 0 \<and> (raw x \<noteq> 0 \<or> raw y \<noteq> 0)
     then (fixed_square_q_sat_raw_cpu FRAC (raw x), fixed_square_q_sat_raw_cpu FRAC (raw y))
     else (x2, y2))"

definition iterate_fixed_int_masked ::
    "nat \<Rightarrow> fixed_escape_gate \<Rightarrow> mask \<Rightarrow> variant \<Rightarrow> fx cx \<Rightarrow> fx cx \<Rightarrow> int \<Rightarrow> fixed_consts \<Rightarrow> bool
     \<Rightarrow> iter_result option" where
  "iterate_fixed_int_masked FRAC gate need V z c max_iter k precheck =
    (if iter_result_wants need Field_Extra \<or> variant_is_transcendental V then None
     else
       let r = make_iter_result need;
           x = re z; y = im z;
           pre = (if precheck then fixed_precheck FRAC gate need k x y r
                  else Inr (0, 0, word_of_int u64_max, 0))
       in case pre of
            Inl r' \<Rightarrow> Some r'
          | Inr (x2_raw, y2_raw, mn, mx) \<Rightarrow>
              let (x2_raw, y2_raw) = start_squares FRAC x y x2_raw y2_raw;
                  x2 = Fx (u64_to_i64_sat x2_raw); y2 = Fx (u64_to_i64_sat y2_raw)
              in if max_iter < 0 then Some (fixed_finish_bounded need FRAC r max_iter mn mx)
                 else fixed_loop (nat max_iter) FRAC gate need V k c r 0 x y x2 y2 mn mx)"

definition iterate_fx64_int_masked ::
    "mask \<Rightarrow> variant \<Rightarrow> fx cx \<Rightarrow> fx cx \<Rightarrow> int \<Rightarrow> u64 \<Rightarrow> u64 \<Rightarrow> iter_result option" where
  "iterate_fx64_int_masked need V z c max_iter bailout bailout2 =
     iterate_fixed_int_masked 57 Direct need V z c max_iter
       \<lparr>k_bailout = bailout, k_bailout2 = bailout2, k_two = 0, k_two_sqrt2_floor = 0\<rparr> False"

section \<open>Floating-point iteration\<close>

text \<open>The tail of both floating-point loops: square roots of the running extrema.\<close>

definition root_extrema :: "mask \<Rightarrow> iter_result \<Rightarrow> iter_result" where
  "root_extrema need r =
    (let r = (if iter_result_wants need Field_MinAbs \<and> \<not> feq (r_min_abs r) PosInf
              then r\<lparr>r_min_abs := fsqrt b64 (r_min_abs r)\<rparr> else r);
         r = (if iter_result_wants need Field_MaxAbs \<and> \<not> feq (r_max_abs r) (Fin 0)
              then r\<lparr>r_max_abs := fsqrt b64 (r_max_abs r)\<rparr> else r)
     in r)"

definition finish_escape :: "mask \<Rightarrow> iter_result \<Rightarrow> int \<Rightarrow> fl \<Rightarrow> iter_result" where
  "finish_escape need r i n2 =
    (let r = (if iter_result_wants need Field_Iter then r\<lparr>r_iter := i\<rparr> else r);
         r = (if iter_result_wants need Field_Norm then r\<lparr>r_norm := n2\<rparr> else r);
         r = (if iter_result_wants need Field_Escaped then r\<lparr>r_escaped := True\<rparr> else r)
     in root_extrema need r)"

definition finish_bounded :: "mask \<Rightarrow> iter_result \<Rightarrow> int \<Rightarrow> iter_result" where
  "finish_bounded need r max_iter =
    (let r = (if iter_result_wants need Field_Iter then r\<lparr>r_iter := max_iter\<rparr> else r);
         r = (if iter_result_wants need Field_Escaped then r\<lparr>r_escaped := False\<rparr> else r)
     in root_extrema need r)"

definition track_extrema :: "mask \<Rightarrow> iter_result \<Rightarrow> fl \<Rightarrow> iter_result" where
  "track_extrema need r n2 =
    (let r = (if iter_result_wants need Field_MinAbs \<and> flt n2 (r_min_abs r)
              then r\<lparr>r_min_abs := n2\<rparr> else r);
         r = (if iter_result_wants need Field_MaxAbs \<and> flt (r_max_abs r) n2
              then r\<lparr>r_max_abs := n2\<rparr> else r)
     in r)"

text \<open>The finiteness test and the squared magnitude of a new point: \<open>(finite, nx2, ny2, n2_s, n2)\<close>.\<close>

definition quad_norm :: "'s scalar_ops \<Rightarrow> 's \<Rightarrow> 's \<Rightarrow> bool \<times> 's \<times> 's \<times> 's \<times> fl" where
  "quad_norm S nx ny =
    (let finite_z = (fis_finite (s_to_double S nx) \<and> fis_finite (s_to_double S ny)) in
     if finite_z then
       let nx2 = s_mul S nx nx; ny2 = s_mul S ny ny; n2_s = s_add S nx2 ny2
       in (True, nx2, ny2, n2_s, s_to_double S n2_s)
     else (False, s_of_int S 0, s_of_int S 0, s_of_int S 0, PosInf))"

fun quad_loop ::
    "nat \<Rightarrow> 's scalar_ops \<Rightarrow> mask \<Rightarrow> variant \<Rightarrow> 's cx \<Rightarrow> 's \<Rightarrow> iter_result \<Rightarrow> int
     \<Rightarrow> 's \<Rightarrow> 's \<Rightarrow> 's \<Rightarrow> 's \<Rightarrow> iter_result option" where
  "quad_loop 0 S need V c bail r i x y x2 y2 = Some (finish_bounded need r i)"
| "quad_loop (Suc n) S need V c bail r i x y x2 y2 =
     (case step_cached S V x y x2 y2 (re c) (im c) of
        None \<Rightarrow> None
      | Some (nx, ny) \<Rightarrow>
          let (finite_z, nx2, ny2, n2_s, n2) = quad_norm S nx ny;
              r = track_extrema need r n2
          in if \<not> finite_z \<or> s_less S bail n2_s then Some (finish_escape need r i n2)
             else quad_loop n S need V c bail r (i + 1) nx ny nx2 ny2)"

definition iterate_quadratic_cached_masked ::
    "'s scalar_ops \<Rightarrow> mask \<Rightarrow> variant \<Rightarrow> 's cx \<Rightarrow> 's cx \<Rightarrow> int \<Rightarrow> fl \<Rightarrow> iter_result option" where
  "iterate_quadratic_cached_masked S need V z c max_iter bailout_sq =
    (if iter_result_wants need Field_Extra \<or> variant_is_transcendental V then None
     else if max_iter < 0 then Some (finish_bounded need (make_iter_result need) max_iter)
     else quad_loop (nat max_iter) S need V c (s_of_double S bailout_sq) (make_iter_result need) 0
            (re z) (im z) (s_mul S (re z) (re z)) (s_mul S (im z) (im z)))"

text \<open>The point test of the transcendental loop and of the pairwise loop, in \<^verbatim>\<open>double\<close>.\<close>

definition double_norm :: "'s scalar_ops \<Rightarrow> 's cx \<Rightarrow> bool \<times> fl \<times> fl \<times> fl" where
  "double_norm S z =
    (let zre = s_to_double S (re z); zim = s_to_double S (im z);
         finite_z = (fis_finite zre \<and> fis_finite zim);
         n2 = (if finite_z then dadd (dmul zre zre) (dmul zim zim) else PosInf)
     in (finite_z, zre, zim, n2))"

definition component_escaped :: "fl \<Rightarrow> fl \<Rightarrow> fl \<Rightarrow> bool" where
  "component_escaped zre zim bailout \<longleftrightarrow> fle bailout (fmax (fabs zre) (fabs zim))"

fun trig_loop ::
    "nat \<Rightarrow> 's scalar_ops \<Rightarrow> libm \<Rightarrow> mask \<Rightarrow> variant \<Rightarrow> 's cx \<Rightarrow> fl \<Rightarrow> iter_result \<Rightarrow> int
     \<Rightarrow> 's cx \<Rightarrow> iter_result option" where
  "trig_loop 0 S L need V c bailout r i z = Some (finish_bounded need r i)"
| "trig_loop (Suc n) S L need V c bailout r i z =
     (case variant_step S L V z c of
        None \<Rightarrow> None
      | Some z \<Rightarrow>
          let (finite_z, zre, zim, n2) = double_norm S z;
              r = track_extrema need r n2
          in if \<not> finite_z \<or> component_escaped zre zim bailout
             then Some (finish_escape need r i n2)
             else trig_loop n S L need V c bailout r (i + 1) z)"

definition iterate_masked ::
    "'s scalar_ops \<Rightarrow> libm \<Rightarrow> mask \<Rightarrow> variant \<Rightarrow> 's cx \<Rightarrow> 's cx \<Rightarrow> int \<Rightarrow> fl \<Rightarrow> fl
     \<Rightarrow> iter_result option" where
  "iterate_masked S L need V z c max_iter bailout bailout_sq =
    (if iter_result_wants need Field_Extra then None
     else if \<not> variant_is_transcendental V then
       iterate_quadratic_cached_masked S need V z c max_iter bailout_sq
     else if max_iter < 0 then Some (finish_bounded need (make_iter_result need) max_iter)
     else trig_loop (nat max_iter) S L need V c bailout (make_iter_result need) 0 z)"

section \<open>Pairwise distance\<close>

definition pair_d2 :: "'s scalar_ops \<Rightarrow> fl \<Rightarrow> fl \<Rightarrow> 's cx \<Rightarrow> fl" where
  "pair_d2 S zre zim prior =
    (let dr = dsub zre (s_to_double S (re prior)); di = dsub zim (s_to_double S (im prior))
     in dadd (dmul dr dr) (dmul di di))"

definition pair_min :: "'s scalar_ops \<Rightarrow> fl \<Rightarrow> fl \<Rightarrow> 's cx list \<Rightarrow> fl \<Rightarrow> fl" where
  "pair_min S zre zim orbit e =
     foldl (\<lambda>e prior. let d2 = pair_d2 S zre zim prior in if flt d2 e then d2 else e) e orbit"

definition point_escaped :: "variant \<Rightarrow> bool \<Rightarrow> fl \<Rightarrow> fl \<Rightarrow> fl \<Rightarrow> fl \<Rightarrow> fl \<Rightarrow> bool" where
  "point_escaped V finite_z zre zim n2 bailout bailout_sq \<longleftrightarrow>
     \<not> finite_z \<or> (if variant_is_transcendental V then component_escaped zre zim bailout
                  else flt bailout_sq n2)"

text \<open>The loop returns the orbit buffer \<^verbatim>\<open>orbit_scratch\<close> and the minimum so far.\<close>

fun pairwise_loop ::
    "nat \<Rightarrow> 's scalar_ops \<Rightarrow> libm \<Rightarrow> variant \<Rightarrow> 's cx \<Rightarrow> fl \<Rightarrow> fl \<Rightarrow> 's cx \<Rightarrow> 's cx list \<Rightarrow> fl
     \<Rightarrow> ('s cx list \<times> fl) option" where
  "pairwise_loop 0 S L V c bailout bailout_sq z orbit e = Some (orbit, e)"
| "pairwise_loop (Suc n) S L V c bailout bailout_sq z orbit e =
     (case variant_step S L V z c of
        None \<Rightarrow> None
      | Some z \<Rightarrow>
          let (finite_z, zre, zim, n2) = double_norm S z;
              e = pair_min S zre zim orbit e;
              orbit = orbit @ [z]
          in if point_escaped V finite_z zre zim n2 bailout bailout_sq then Some (orbit, e)
             else pairwise_loop n S L V c bailout bailout_sq z orbit e)"

definition pairwise_result :: "fl \<Rightarrow> iter_result" where
  "pairwise_result e =
    \<lparr>r_iter = 0, r_min_abs = PosInf, r_max_abs = Fin 0, r_extra = e, r_norm = Fin 0,
     r_escaped = False, r_valid_mask = Field_Extra\<rparr>"

definition iterate_pairwise ::
    "'s scalar_ops \<Rightarrow> libm \<Rightarrow> variant \<Rightarrow> 's cx \<Rightarrow> 's cx \<Rightarrow> int \<Rightarrow> fl \<Rightarrow> fl \<Rightarrow> int \<Rightarrow> 's cx list
     \<Rightarrow> (iter_result \<times> 's cx list) option" where
  "iterate_pairwise S L V z c max_iter bailout bailout_sq pairwise_cap scratch =
    (if pairwise_cap \<le> 0 then Some (pairwise_result PosInf, scratch)
     else case pairwise_loop (nat (min max_iter pairwise_cap)) S L V c bailout bailout_sq z [] PosInf of
            None \<Rightarrow> None
          | Some (orbit, e) \<Rightarrow>
              Some (pairwise_result (if \<not> feq e PosInf then fsqrt b64 e else e), orbit))"

end
