(* ===== verification/HeightField.thy ===== *)
theory HeightField
  imports MeshData OrbitProgram EscapeTime
begin

unbundle bit_operations_syntax

text \<open>
  The height field and its mesh (\<^verbatim>\<open>compute/hs/heightfield_mesh.cpp\<close>): the metric of every pixel, computed tile
  by tile, and the closed mesh over it. The cancellation callback is a function of the place where it is asked.
\<close>

section \<open>Parameters\<close>

record hs_params =
  hp_center_re :: fl
  hp_center_im :: fl
  hp_scale :: fl
  hp_resolution :: int
  hp_iterations :: int
  hp_bailout :: fl
  hp_bailout_sq :: fl
  hp_variant :: variant
  hp_metric :: metric
  hp_pairwise_cap :: int
  hp_height_scale :: fl
  hp_height_clamp :: fl
  hp_orbit_program :: "program option"

text \<open>The answers at the head of a tile, inside the orbit loop of a pixel, and after the field.\<close>

record hs_cancel =
  hc_tile :: "int \<Rightarrow> bool"
  hc_iteration :: "int \<Rightarrow> int \<Rightarrow> int \<Rightarrow> bool"
  hc_field :: bool
  hc_mesh :: bool

section \<open>Tiles\<close>

definition hs_tiles :: "int \<Rightarrow> int" where "hs_tiles N = tdiv (N + 32 - 1) 32"

definition hs_tile_pixels :: "int \<Rightarrow> int \<Rightarrow> (int \<times> int) list" where
  "hs_tile_pixels N t =
    (let tiles = hs_tiles N;
         row0 = tdiv t tiles * 32; col0 = tmod t tiles * 32;
         row1 = min N (row0 + 32); col1 = min N (col0 + 32)
     in List.product [row0..row1 - 1] [col0..col1 - 1])"

fun write_pixels :: "int \<Rightarrow> (int \<Rightarrow> int \<Rightarrow> fl res) \<Rightarrow> (int \<times> int) list \<Rightarrow> fl list \<Rightarrow> fl list res" where
  "write_pixels N pixel [] field = Inr field"
| "write_pixels N pixel ((row, col) # ps) field =
    res_bind (pixel row col) (\<lambda>v. write_pixels N pixel ps (field[nat (row * N + col) := v]))"

definition tile_order :: "int \<Rightarrow> (int \<Rightarrow> bool) \<Rightarrow> (int \<times> int) list" where
  "tile_order N cancelled =
    concat (map (\<lambda>t. if cancelled t then [] else hs_tile_pixels N t) [0..hs_tiles N * hs_tiles N - 1])"

definition fill_tiles :: "int \<Rightarrow> (int \<Rightarrow> bool) \<Rightarrow> (int \<Rightarrow> int \<Rightarrow> fl res) \<Rightarrow> fl list res" where
  "fill_tiles N cancelled pixel =
    write_pixels N pixel (tile_order N cancelled) (replicate (nat (N * N)) (Fin 0))"

section \<open>The metric of a pixel\<close>

definition hs_raw_value :: "metric \<Rightarrow> iter_result \<Rightarrow> fl \<Rightarrow> int \<Rightarrow> fl" where
  "hs_raw_value M r height_clamp iterations =
    (case M of
       Escape \<Rightarrow> if r_escaped r then ddiv (f_of_int b64 (r_iter r)) (f_of_int b64 iterations) else Fin 1
     | MinAbs \<Rightarrow> if fis_finite (r_min_abs r) then r_min_abs r else height_clamp
     | MaxAbs \<Rightarrow> r_max_abs r
     | Envelope \<Rightarrow> dmul (Fin (1 / 2)) (dadd (r_min_abs r) (r_max_abs r))
     | _ \<Rightarrow> if fis_finite (r_extra r) then r_extra r else height_clamp)"

definition hs_need :: "metric \<Rightarrow> mask" where
  "hs_need M =
    (case M of
       Escape \<Rightarrow> Field_Iter OR Field_Escaped
     | MinAbs \<Rightarrow> Field_MinAbs
     | MaxAbs \<Rightarrow> Field_MaxAbs
     | Envelope \<Rightarrow> Field_MinAbs OR Field_MaxAbs
     | _ \<Rightarrow> Field_Extra)"

definition pixel_offset :: "int \<Rightarrow> int \<Rightarrow> fl \<Rightarrow> fl" where
  "pixel_offset N k extent = dmul (ddiv (dadd (f_of_int b64 k) (Fin (1 / 2))) (f_of_int b64 N)) extent"

definition hs_point :: "hs_params \<Rightarrow> int \<Rightarrow> int \<Rightarrow> fl cx" where
  "hs_point p row col =
    (let extent = hp_scale p;
         re_min = dsub (hp_center_re p) (dmul extent (Fin (1 / 2)));
         im_max = dadd (hp_center_im p) (dmul extent (Fin (1 / 2)))
     in mk_cx (dadd re_min (pixel_offset (hp_resolution p) col extent))
          (dsub im_max (pixel_offset (hp_resolution p) row extent)))"

definition hs_pairwise_cap :: "hs_params \<Rightarrow> int" where
  "hs_pairwise_cap p = max 1 (min (hp_iterations p) (hp_pairwise_cap p))"

definition clamp_height :: "fl \<Rightarrow> fl \<Rightarrow> fl" where
  "clamp_height height_clamp v =
    (let v = (if flt height_clamp v then height_clamp else v) in if \<not> fis_finite v then height_clamp else v)"

definition hs_pixel :: "libm \<Rightarrow> hs_params \<Rightarrow> variant \<Rightarrow> int \<Rightarrow> int \<Rightarrow> fl res" where
  "hs_pixel L p V row col =
    (let c = hs_point p row col; z0 = mk_cx (Fin 0) (Fin 0);
         r = (if hp_metric p = MinPairwiseDist
              then map_option fst (iterate_pairwise double_ops L V z0 c (hp_iterations p) (hp_bailout p)
                     (hp_bailout_sq p) (hs_pairwise_cap p) [])
              else iterate_masked double_ops L (hs_need (hp_metric p)) V z0 c (hp_iterations p) (hp_bailout p)
                     (hp_bailout_sq p))
     in case r of
          None \<Rightarrow> Inl Undefined
        | Some r \<Rightarrow> Inr (clamp_height (hp_height_clamp p)
            (hs_raw_value (hp_metric p) r (hp_height_clamp p) (hp_iterations p))))"

section \<open>The metric of a pixel under an Orbit Program\<close>

record hs_orbit =
  ho_escape_iteration :: int
  ho_escaped :: bool
  ho_min_norm :: fl
  ho_max_norm :: fl
  ho_min_pair :: fl
  ho_orbit :: "fl cx list"

definition hs_orbit_start :: "int \<Rightarrow> hs_orbit" where
  "hs_orbit_start iterations = \<lparr>ho_escape_iteration = iterations, ho_escaped = False, ho_min_norm = PosInf,
     ho_max_norm = Fin 0, ho_min_pair = PosInf, ho_orbit = []\<rparr>"

definition prior_distance :: "fl cx \<Rightarrow> fl cx \<Rightarrow> fl" where
  "prior_distance z prior =
    (let dr = dsub (re z) (re prior); di = dsub (im z) (im prior) in dadd (dmul dr dr) (dmul di di))"

definition hs_orbit_track :: "metric \<Rightarrow> int \<Rightarrow> fl cx \<Rightarrow> fl \<Rightarrow> hs_orbit \<Rightarrow> hs_orbit" where
  "hs_orbit_track M pairwise_cap z norm_sq s =
    (let s = s\<lparr>ho_min_norm := fmin (ho_min_norm s) norm_sq, ho_max_norm := fmax (ho_max_norm s) norm_sq\<rparr>
     in if M = MinPairwiseDist \<and> int (length (ho_orbit s)) < pairwise_cap
        then s\<lparr>ho_min_pair := foldl (\<lambda>m prior. fmin m (prior_distance z prior)) (ho_min_pair s) (ho_orbit s),
               ho_orbit := ho_orbit s @ [z]\<rparr>
        else s)"

fun hs_orbit_loop ::
    "nat \<Rightarrow> (fl cx \<Rightarrow> int \<Rightarrow> fl cx res) \<Rightarrow> (int \<Rightarrow> bool) \<Rightarrow> metric \<Rightarrow> int \<Rightarrow> fl option \<Rightarrow> int \<Rightarrow> fl cx \<Rightarrow> hs_orbit \<Rightarrow> hs_orbit res" where
  "hs_orbit_loop 0 iterate cancelled M pairwise_cap radius_sq i z s = Inr s"
| "hs_orbit_loop (Suc n) iterate cancelled M pairwise_cap radius_sq i z s =
    (if i AND 63 = 0 \<and> cancelled i then Inr s
     else res_bind (iterate z i) (\<lambda>z.
       if \<not> fis_finite (re z) \<or> \<not> fis_finite (im z) then Inr s
       else
         let norm_sq = dadd (dmul (re z) (re z)) (dmul (im z) (im z)) in
         if \<not> fis_finite norm_sq then Inr s
         else
           let s = hs_orbit_track M pairwise_cap z norm_sq s;
               outside = (case radius_sq of None \<Rightarrow> False | Some r \<Rightarrow> flt r norm_sq)
           in if outside then Inr (s\<lparr>ho_escaped := True, ho_escape_iteration := i\<rparr>)
              else if M = MinPairwiseDist \<and> i + 1 \<ge> pairwise_cap then Inr s
              else hs_orbit_loop n iterate cancelled M pairwise_cap radius_sq (i + 1) z s))"

definition hs_orbit_value :: "metric \<Rightarrow> fl \<Rightarrow> int \<Rightarrow> hs_orbit \<Rightarrow> fl" where
  "hs_orbit_value M height_clamp iterations s =
    (let v = (case M of
         Escape \<Rightarrow> if ho_escaped s then ddiv (f_of_int b64 (ho_escape_iteration s)) (f_of_int b64 iterations) else Fin 1
       | MinAbs \<Rightarrow> if fis_finite (ho_min_norm s) then fsqrt b64 (ho_min_norm s) else height_clamp
       | MaxAbs \<Rightarrow> if fis_finite (ho_max_norm s) then fsqrt b64 (ho_max_norm s) else height_clamp
       | Envelope \<Rightarrow>
           if fis_finite (ho_min_norm s) \<and> fis_finite (ho_max_norm s)
           then dmul (Fin (1 / 2)) (dadd (fsqrt b64 (ho_min_norm s)) (fsqrt b64 (ho_max_norm s))) else height_clamp
       | MinPairwiseDist \<Rightarrow> if fis_finite (ho_min_pair s) then fsqrt b64 (ho_min_pair s) else height_clamp
       | MandelShipAgree \<Rightarrow> height_clamp);
       v = (if \<not> fis_finite v \<or> flt height_clamp v then height_clamp else v)
     in if flt v (Fin 0) then Fin 0 else v)"

definition hs_radius_sq :: "program \<Rightarrow> fl option" where
  "hs_radius_sq prog =
    (if has_finite_radius (p_escape prog) then Some (dmul (ea_radius (p_escape prog)) (ea_radius (p_escape prog)))
     else None)"

definition hs_orbit_pixel :: "cmath \<Rightarrow> libm \<Rightarrow> hs_params \<Rightarrow> program \<Rightarrow> (int \<Rightarrow> int \<Rightarrow> int \<Rightarrow> bool) \<Rightarrow> int \<Rightarrow> int \<Rightarrow> fl res" where
  "hs_orbit_pixel Mth L p prog cancelled row col =
    (let c = hs_point p row col in
     res_bind (hs_orbit_loop (nat (hp_iterations p)) (\<lambda>z i. step Mth L prog z c i) (cancelled row col) (hp_metric p)
         (hs_pairwise_cap p) (hs_radius_sq prog) 0 (mk_cx (Fin 0) (Fin 0)) (hs_orbit_start (hp_iterations p)))
       (\<lambda>s. Inr (hs_orbit_value (hp_metric p) (hp_height_clamp p) (hp_iterations p) s)))"

section \<open>The field\<close>

text \<open>The metric \<^verbatim>\<open>mandel_ship_agree\<close> leaves the vector of the caller as it is, which is empty.\<close>

definition compute_hs_field :: "cmath \<Rightarrow> libm \<Rightarrow> hs_params \<Rightarrow> hs_cancel \<Rightarrow> fl list res" where
  "compute_hs_field Mth L p cancel =
    (let N = hp_resolution p in
     res_bind
       (case hp_orbit_program p of
          Some prog \<Rightarrow>
            throw_if (hp_metric p = MandelShipAgree)
              (RuntimeError ''Orbit Program does not support mandel_ship_agree HS metric'')
              (fill_tiles N (hc_tile cancel) (hs_orbit_pixel Mth L p prog (hc_iteration cancel)))
        | None \<Rightarrow>
            if hp_metric p = MandelShipAgree then Inr []
            else fill_tiles N (hc_tile cancel) (hs_pixel L p (if hp_variant p = Custom then Mandelbrot else hp_variant p)))
       (\<lambda>field. throw_if (hc_field cancel) (RuntimeError ''cancelled'') (Inr field)))"

section \<open>The mesh\<close>

definition grid_coordinate :: "nat \<Rightarrow> nat \<Rightarrow> fl" where
  "grid_coordinate n k = dsub (ddiv (f_of_int b64 (int k)) (f_of_int b64 (int n - 1))) (Fin (1 / 2))"

definition top_x :: "nat \<Rightarrow> nat \<Rightarrow> fl" where "top_x n col = fconv b32 (grid_coordinate n col)"
definition top_y :: "nat \<Rightarrow> nat \<Rightarrow> fl" where "top_y n row = fconv b32 (fneg (grid_coordinate n row))"

definition top_vertices :: "nat \<Rightarrow> fl \<Rightarrow> fl list \<Rightarrow> vec3 list" where
  "top_vertices n height_scale field =
    (let lo = foldl (\<lambda>lo v. if flt v lo then v else lo) PosInf field;
         hi = foldl (\<lambda>hi v. if flt hi v then v else hi) NegInf field;
         denom = (if flt lo hi then dsub hi lo else Fin 1)
     in map (\<lambda>(row, col). (top_x n col, top_y n row,
          fconv b32 (dmul (ddiv (dsub (field ! (row * n + col)) lo) denom) height_scale)))
          (List.product [0..<n] [0..<n]))"

definition top_triangles :: "nat \<Rightarrow> nat list" where
  "top_triangles n = concat (map (\<lambda>(row, col).
     let a = row * n + col; b = row * n + col + 1; c = (row + 1) * n + col; d = (row + 1) * n + col + 1
     in [a, c, b, b, c, d]) (List.product [0..<n - 1] [0..<n - 1]))"

text \<open>A wall hangs from a line of the top surface to a line of new vertices that starts at \<open>base\<close>.\<close>

definition outward_wall :: "(nat \<Rightarrow> nat) \<Rightarrow> nat \<Rightarrow> nat \<Rightarrow> nat list" where
  "outward_wall line base n = concat (map (\<lambda>i.
     let tc = line i; tc1 = line (i + 1); bc = base + i; bc1 = base + i + 1
     in [tc, tc1, bc, tc1, bc1, bc]) [0..<n - 1])"

definition reversed_wall :: "(nat \<Rightarrow> nat) \<Rightarrow> nat \<Rightarrow> nat \<Rightarrow> nat list" where
  "reversed_wall line base n = concat (map (\<lambda>i.
     let tc = line i; tc1 = line (i + 1); bc = base + i; bc1 = base + i + 1
     in [tc1, tc, bc1, tc, bc, bc1]) [0..<n - 1])"

definition bottom_triangles :: "nat \<Rightarrow> nat list" where
  "bottom_triangles nw = [nw, nw + 1, nw + 2, nw, nw + 2, nw + 3]"

definition wall_vertices :: "nat \<Rightarrow> vec3 list" where
  "wall_vertices n =
    map (\<lambda>col. (top_x n col, top_y n 0, Fin 0)) [0..<n] @ map (\<lambda>col. (top_x n col, top_y n (n - 1), Fin 0)) [0..<n]
    @ map (\<lambda>row. (top_x n (n - 1), top_y n row, Fin 0)) [0..<n] @ map (\<lambda>row. (top_x n 0, top_y n row, Fin 0)) [0..<n]"

definition bottom_vertices :: "vec3 list" where
  "bottom_vertices = [(Fin (- 1 / 2), Fin (1 / 2), Fin 0), (Fin (1 / 2), Fin (1 / 2), Fin 0),
     (Fin (1 / 2), Fin (- 1 / 2), Fin 0), (Fin (- 1 / 2), Fin (- 1 / 2), Fin 0)]"

definition hs_indices :: "nat \<Rightarrow> nat list" where
  "hs_indices n = top_triangles n
    @ outward_wall (\<lambda>col. col) (n * n) n
    @ reversed_wall (\<lambda>col. (n - 1) * n + col) (n * n + n) n
    @ outward_wall (\<lambda>row. row * n + (n - 1)) (n * n + 2 * n) n
    @ reversed_wall (\<lambda>row. row * n) (n * n + 3 * n) n
    @ bottom_triangles (n * n + 4 * n)"

definition clamp_resolution :: "int \<Rightarrow> int" where "clamp_resolution r = max 4 (min 4096 r)"

text \<open>Reading the field behind its end is undefined.\<close>

definition build_hs_mesh :: "cmath \<Rightarrow> libm \<Rightarrow> hs_params \<Rightarrow> hs_cancel \<Rightarrow> mesh res" where
  "build_hs_mesh Mth L p cancel =
    (let N = clamp_resolution (hp_resolution p); n = nat N in
     res_bind (compute_hs_field Mth L (p\<lparr>hp_resolution := N\<rparr>) cancel) (\<lambda>field.
     throw_if (hc_mesh cancel) (RuntimeError ''cancelled'')
     (throw_if (length field < n * n) Undefined
     (Inr \<lparr>me_vertices = top_vertices n (hp_height_scale p) field @ wall_vertices n @ bottom_vertices,
           me_indices = hs_indices n\<rparr>))))"

end
