(* ===== verification/MarchingTables.thy ===== *)
theory MarchingTables
  imports MarchingCubes
begin

text \<open>
  The tables of marching cubes are checked as a whole: the edges of a row are the crossed ones, and the
  triangles of a cell leave open exactly the segments that the four corners of each face determine, so that two
  neighbours agree on the face they share.
\<close>

section \<open>Sides of triangles\<close>

definition triangle_sides :: "('a \<times> 'a \<times> 'a) list \<Rightarrow> ('a \<times> 'a) list" where
  "triangle_sides ts = concat (map (\<lambda>(a, b, c). [(a, b), (b, c), (c, a)]) ts)"

text \<open>How often a side occurs more often than its reverse.\<close>

definition excess :: "('a \<times> 'a) list \<Rightarrow> 'a \<times> 'a \<Rightarrow> int" where
  "excess S = (\<lambda>(u, v). int (count_list S (u, v)) - int (count_list S (v, u)))"

function cancels :: "('a \<times> 'a) list \<Rightarrow> bool" where
  "cancels [] \<longleftrightarrow> True"
| "cancels ((u, v) # S) \<longleftrightarrow> (v, u) \<in> set S \<and> cancels (remove1 (v, u) S)"
  by pat_completeness auto
termination by (relation "measure length") (auto simp: length_remove1 le_imp_less_Suc)

lemma excess_Nil [simp]: "excess [] p = 0" by (cases p) (simp add: excess_def)

lemma excess_append [simp]: "excess (S @ T) p = excess S p + excess T p" by (cases p) (simp add: excess_def)

lemma excess_Cons: "excess (s # S) p = excess [s] p + excess S p"
  using excess_append [of "[s]" S p] by simp

lemma excess_remove1:
  "x \<in> set S \<Longrightarrow> excess (map g S) p = excess [g x] p + excess (map g (remove1 x S)) p"
proof (induction S)
  case (Cons y S)
  show ?case
  proof (cases "x = y")
    case True
    then show ?thesis using excess_Cons [of "g y" "map g S" p] by simp
  next
    case False
    then have "excess (map g S) p = excess [g x] p + excess (map g (remove1 x S)) p" using Cons by simp
    with False show ?thesis
      using excess_Cons [of "g y" "map g S" p] excess_Cons [of "g y" "map g (remove1 x S)" p] by simp
  qed
qed simp

lemma excess_single: "excess [(u, v)] (a, b) = of_bool (u = a \<and> v = b) - of_bool (u = b \<and> v = a)"
proof -
  have "count_list [x] y = of_bool (x = y)" for x y :: "'a \<times> 'a" by simp
  then show ?thesis unfolding excess_def case_prod_conv by (simp only: of_nat_of_bool prod.inject)
qed

lemma excess_pair: "excess [(u, v), (v, u)] p = 0"
  using excess_append [of "[(u, v)]" "[(v, u)]" p] by (cases p) (simp add: excess_single conj_commute)

text \<open>Sides that cancel still do so when the edges are renamed.\<close>

lemma cancels_excess: "cancels S \<Longrightarrow> excess (map (map_prod f f) S) p = 0"
proof (induction S rule: cancels.induct)
  case (2 u v S)
  then have e: "excess (map (map_prod f f) (remove1 (v, u) S)) p = 0" and m: "(v, u) \<in> set S" by auto
  have "excess (map (map_prod f f) S) p = excess [(f v, f u)] p" using excess_remove1 [OF m, of "map_prod f f" p] e by simp
  then show ?case
    using excess_pair [of "f u" "f v" p] excess_Cons [of "(f u, f v)" "[(f v, f u)]" p]
      excess_Cons [of "(f u, f v)" "map (map_prod f f) S" p] by simp
qed simp

section \<open>Faces\<close>

text \<open>The corners of the lower and of the upper face across an axis, in matching order, and the edges of the faces.\<close>

definition lower_corners :: "nat \<Rightarrow> nat list" where
  "lower_corners a = [[0, 3, 4, 7], [0, 1, 4, 5], [0, 1, 2, 3]] ! a"

definition upper_corners :: "nat \<Rightarrow> nat list" where
  "upper_corners a = [[1, 2, 5, 6], [3, 2, 7, 6], [4, 5, 6, 7]] ! a"

definition upper_edge :: "nat \<Rightarrow> int \<Rightarrow> int" where
  "upper_edge a e = the (map_of ([[(3, 1), (7, 5), (8, 9), (11, 10)], [(0, 2), (4, 6), (8, 11), (9, 10)],
     [(0, 4), (1, 5), (2, 6), (3, 7)]] ! a) e)"

definition pattern :: "bool list \<Rightarrow> nat" where
  "pattern bs = sum_list (map (\<lambda>(b, k). if b then k else 0) (zip bs [1, 2, 4, 8]))"

text \<open>The open segments that a cell leaves in its lower face, by the pattern of the corners below the level.\<close>

definition face_segments :: "nat \<Rightarrow> nat \<Rightarrow> (int \<times> int) list" where
  "face_segments a k = [
     [[], [(8, 3)], [(3, 11)], [(8, 11)],
      [(7, 8)], [(7, 3)], [(3, 11), (7, 8)], [(7, 11)],
      [(11, 7)], [(8, 3), (11, 7)], [(3, 7)], [(8, 7)],
      [(11, 8)], [(11, 3)], [(3, 8)], []],
     [[], [(0, 8)], [(9, 0)], [(9, 8)],
      [(8, 4)], [(0, 4)], [(8, 4), (9, 0)], [(9, 4)],
      [(4, 9)], [(0, 8), (4, 9)], [(4, 0)], [(4, 8)],
      [(8, 9)], [(0, 9)], [(8, 0)], []],
     [[], [(3, 0)], [(0, 1)], [(3, 1)],
      [(1, 2)], [(1, 2), (3, 0)], [(0, 2)], [(3, 2)],
      [(2, 3)], [(2, 0)], [(0, 1), (2, 3)], [(2, 1)],
      [(1, 3)], [(1, 0)], [(0, 3)], []]] ! a ! k"

definition mask_pattern :: "int \<Rightarrow> nat list \<Rightarrow> nat" where
  "mask_pattern cfg cs = pattern (map (bit cfg) cs)"

definition swap_sides :: "('a \<times> 'a) list \<Rightarrow> ('a \<times> 'a) list" where "swap_sides S = map prod.swap S"

definition upper_segments :: "nat \<Rightarrow> nat \<Rightarrow> (int \<times> int) list" where
  "upper_segments a k = map (map_prod (upper_edge a) (upper_edge a)) (face_segments a k)"

section \<open>Rows\<close>

text \<open>The triangles of a row as far as its first fifteen entries go.\<close>

fun row_prefix :: "int list \<Rightarrow> (int \<times> int \<times> int) list" where
  "row_prefix (a # b # c # row) = (if a = - 1 then [] else (a, b, c) # row_prefix row)"
| "row_prefix row = []"

definition unterminated :: "int set" where "unterminated = {122, 181, 218, 229}"

definition row_closed :: "int \<Rightarrow> int list \<Rightarrow> bool" where
  "row_closed cfg row \<longleftrightarrow> cancels (triangle_sides (row_prefix row)
     @ concat (map (\<lambda>a. swap_sides (face_segments a (mask_pattern cfg (lower_corners a)))
          @ upper_segments a (mask_pattern cfg (upper_corners a))) [0, 1, 2]))"

definition row_edges :: "int \<Rightarrow> int \<Rightarrow> int list \<Rightarrow> bool" where
  "row_edges cfg edges row \<longleftrightarrow>
     list_all (\<lambda>e. bit edges e = (bit cfg (fst (edge_corners ! e)) \<noteq> bit cfg (snd (edge_corners ! e)))) [0..<12]
     \<and> list_all (\<lambda>(a, b, c). list_all (\<lambda>e. 0 \<le> e \<and> e < 12 \<and> bit edges (nat e)) [a, b, c]) (row_prefix row)
     \<and> length (row_prefix row) \<le> 5
     \<and> row_triangles row = (if cfg \<in> unterminated then None else Some (row_prefix row))"

fun all_rows :: "(int \<Rightarrow> int \<Rightarrow> int list \<Rightarrow> bool) \<Rightarrow> int \<Rightarrow> int list \<Rightarrow> int list list \<Rightarrow> bool" where
  "all_rows P n (e # es) (r # rs) \<longleftrightarrow> P n e r \<and> all_rows P (n + 1) es rs"
| "all_rows P n es rs \<longleftrightarrow> True"


lemma rows_checked: "all_rows row_edges 0 edge_table tri_table"
  by code_simp

lemma rows_closed: "all_rows (\<lambda>n e. row_closed n) 0 edge_table tri_table"
  by code_simp

lemma all_rows_nth:
  "all_rows P n es rs \<Longrightarrow> i < length es \<Longrightarrow> i < length rs \<Longrightarrow> P (n + int i) (es ! i) (rs ! i)"
proof (induction P n es rs arbitrary: i rule: all_rows.induct)
  case (1 P n e es r rs)
  then show ?case using 1(1) [of "i - 1"] by (cases i) (simp_all add: ac_simps)
qed simp_all

lemma table_lengths: "length edge_table = 256" "length tri_table = 256"
  by (simp_all add: edge_table_def tri_table_def)

lemma row_facts:
  assumes "0 \<le> cfg" "cfg < 256"
  shows "row_edges cfg (edge_table ! nat cfg) (tri_table ! nat cfg)" "row_closed cfg (tri_table ! nat cfg)"
  using all_rows_nth [OF rows_checked, of "nat cfg"] all_rows_nth [OF rows_closed, of "nat cfg"] assms
  by (simp_all add: table_lengths nat_less_iff)

end
