(* ===== verification/MarchingProperties.thy ===== *)
theory MarchingProperties
  imports MarchingTables
begin

text \<open>
  Theorems on marching cubes: the extracted surface is closed except in the boundary of the grid, every index is
  the number of a vertex, and the rows without an end mark are the only inputs on which the walk leaves the table.
\<close>

section \<open>Masks\<close>

definition mask_upto :: "fl \<Rightarrow> fl list \<Rightarrow> nat \<Rightarrow> int" where
  "mask_upto level c n = fold (\<lambda>i m. if flt (c ! i) level then m OR push_bit i 1 else m) [0..<n] 0"

lemma mask_upto_Suc:
  "mask_upto level c (Suc n) = (if flt (c ! n) level then mask_upto level c n OR push_bit n 1 else mask_upto level c n)"
  by (simp add: mask_upto_def)

lemma mask_upto_range: "0 \<le> mask_upto level c n \<and> mask_upto level c n < 2 ^ n"
proof (induction n)
  case (Suc n)
  have p: "(2::int) ^ n \<le> 2 ^ Suc n" by (rule power_increasing) simp_all
  have m: "mask_upto level c n < 2 ^ Suc n" using less_le_trans [OF conjunct2 [OF Suc] p] .
  have q: "push_bit n 1 < (2::int) ^ Suc n" "0 \<le> push_bit n (1::int)" by (simp_all add: push_bit_eq_mult)
  from OR_upper [OF conjunct1 [OF Suc] m q(1)] m q(2) conjunct1 [OF Suc]
  show ?case unfolding mask_upto_Suc by (simp only: or_nonnegative_int_iff split: if_split) simp
qed (simp add: mask_upto_def)

lemma bit_mask_upto: "bit (mask_upto level c n) i = (i < n \<and> flt (c ! i) level)"
proof (induction n)
  case (Suc n)
  have "bit (push_bit n (1::int)) i = (i = n)" by (auto simp: bit_exp_iff push_bit_eq_mult)
  then show ?case using Suc by (cases "i = n") (simp_all add: mask_upto_Suc bit_or_iff less_Suc_eq)
qed (simp add: mask_upto_def)

lemma cell_mask_upto: "cell_mask level c = mask_upto level c 8"
  unfolding cell_mask_def mask_upto_def ..

lemma cell_mask_range: "0 \<le> cell_mask level c" "cell_mask level c < 256"
  using mask_upto_range [of level c 8] by (simp_all add: cell_mask_upto)

lemma bit_cell_mask: "i < 8 \<Longrightarrow> bit (cell_mask level c) i = flt (c ! i) level"
  by (simp add: cell_mask_upto bit_mask_upto)

section \<open>Sites and faces\<close>

text \<open>A site is an edge of the grid: its lower corner and its axis.\<close>

type_synonym grid_edge = "(int \<times> int \<times> int) \<times> nat"

definition edge_site :: "nat \<Rightarrow> grid_edge" where
  "edge_site e = (case edge_corners ! e of (a, b) \<Rightarrow> case (corner_offset ! a, corner_offset ! b) of
     ((ax, ay, az), (bx, by, bz)) \<Rightarrow>
       ((min ax bx, min ay by, min az bz), if ax \<noteq> bx then 0 else if ay \<noteq> by then 1 else 2))"

definition site :: "int \<times> int \<times> int \<Rightarrow> int \<Rightarrow> grid_edge" where
  "site p e = (case (p, edge_site (nat e)) of ((x, y, z), ((dx, dy, dz), axis)) \<Rightarrow> ((x + dx, y + dy, z + dz), axis))"

definition coord :: "nat \<Rightarrow> int \<times> int \<times> int \<Rightarrow> int" where
  "coord a p = (case p of (x, y, z) \<Rightarrow> if a = 0 then x else if a = 1 then y else z)"

definition shift :: "nat \<Rightarrow> int \<times> int \<times> int \<Rightarrow> int \<times> int \<times> int" where
  "shift a p = (case p of (x, y, z) \<Rightarrow> if a = 0 then (x + 1, y, z) else if a = 1 then (x, y + 1, z) else (x, y, z + 1))"

definition in_plane :: "nat \<Rightarrow> int \<Rightarrow> grid_edge \<Rightarrow> bool" where
  "in_plane a k s \<longleftrightarrow> snd s \<noteq> a \<and> coord a (fst s) = k"

definition lower_edges :: "nat \<Rightarrow> int list" where
  "lower_edges a = [[3, 7, 8, 11], [0, 4, 8, 9], [0, 1, 2, 3]] ! a"

lemma axis_cases: "(a::nat) < 3 \<Longrightarrow> a = 0 \<or> a = 1 \<or> a = 2" by auto

lemmas lattice_defs = lower_edges_def upper_edge_def site_def edge_site_def edge_corners_def corner_offset_def shift_def
  in_plane_def coord_def

lemma site_upper:
  assumes "a < 3" "e \<in> set (lower_edges a)"
  shows "site p (upper_edge a e) = site (shift a p) e"
proof -
  obtain x y z where p: "p = (x, y, z)" by (cases p)
  from axis_cases [OF assms(1)] show ?thesis
  proof (elim disjE)
    assume a: "a = 0"
    then have "e \<in> {3, 7, 8, 11}" using assms(2) by (simp add: lower_edges_def)
    then show ?thesis unfolding a p by (elim insertE emptyE) (simp_all add: lattice_defs)
  next
    assume a: "a = 1"
    then have "e \<in> {0, 4, 8, 9}" using assms(2) by (simp add: lower_edges_def)
    then show ?thesis unfolding a p by (elim insertE emptyE) (simp_all add: lattice_defs)
  next
    assume a: "a = 2"
    then have "e \<in> {0, 1, 2, 3}" using assms(2) by (simp add: lower_edges_def)
    then show ?thesis unfolding a p by (elim insertE emptyE) (simp_all add: lattice_defs)
  qed
qed

lemma site_in_plane:
  assumes "a < 3" "e \<in> set (lower_edges a)"
  shows "in_plane a (coord a p) (site p e)"
proof -
  obtain x y z where p: "p = (x, y, z)" by (cases p)
  from axis_cases [OF assms(1)] show ?thesis
  proof (elim disjE)
    assume a: "a = 0"
    then have "e \<in> {3, 7, 8, 11}" using assms(2) by (simp add: lower_edges_def)
    then show ?thesis unfolding a p by (elim insertE emptyE) (simp_all add: lattice_defs)
  next
    assume a: "a = 1"
    then have "e \<in> {0, 4, 8, 9}" using assms(2) by (simp add: lower_edges_def)
    then show ?thesis unfolding a p by (elim insertE emptyE) (simp_all add: lattice_defs)
  next
    assume a: "a = 2"
    then have "e \<in> {0, 1, 2, 3}" using assms(2) by (simp add: lower_edges_def)
    then show ?thesis unfolding a p by (elim insertE emptyE) (simp_all add: lattice_defs)
  qed
qed

lemma pattern_less: "pattern [a, b, c, d] < 16"
  by (simp add: pattern_def)

lemma segments_in_face:
  "\<forall>a\<in>set [0, 1, 2]. \<forall>k\<in>set [0..<16]. \<forall>(u, v)\<in>set (face_segments a k). u \<in> set (lower_edges a) \<and> v \<in> set (lower_edges a)"
  by code_simp

definition face_pattern :: "mc_field \<Rightarrow> fl \<Rightarrow> nat \<Rightarrow> int \<times> int \<times> int \<Rightarrow> nat" where
  "face_pattern F level a p = pattern (map (\<lambda>c. flt (corner_values F p ! c) level) (lower_corners a))"

lemma lower_pattern: "a < 3 \<Longrightarrow> mask_pattern (cell_mask level (corner_values F p)) (lower_corners a) = face_pattern F level a p"
  by (auto dest!: axis_cases simp: mask_pattern_def face_pattern_def lower_corners_def bit_cell_mask)

lemma upper_pattern:
  "a < 3 \<Longrightarrow> mask_pattern (cell_mask level (corner_values F p)) (upper_corners a) = face_pattern F level a (shift a p)"
  by (cases p) (auto dest!: axis_cases simp: mask_pattern_def face_pattern_def lower_corners_def upper_corners_def
      bit_cell_mask corner_values_def corner_offset_def shift_def ac_simps)

lemma face_pattern_less: "a < 3 \<Longrightarrow> face_pattern F level a p < 16"
  by (auto dest!: axis_cases simp: face_pattern_def lower_corners_def pattern_less)

section \<open>The open segments of a cell\<close>

definition cell_triangles :: "mc_field \<Rightarrow> fl \<Rightarrow> int \<times> int \<times> int \<Rightarrow> (int \<times> int \<times> int) list" where
  "cell_triangles F level p = row_prefix (tri_table ! nat (cell_mask level (corner_values F p)))"

definition on_sites :: "int \<times> int \<times> int \<Rightarrow> (int \<times> int) list \<Rightarrow> (grid_edge \<times> grid_edge) list" where
  "on_sites p S = map (map_prod (site p) (site p)) S"

definition cell_sides :: "mc_field \<Rightarrow> fl \<Rightarrow> int \<times> int \<times> int \<Rightarrow> (grid_edge \<times> grid_edge) list" where
  "cell_sides F level p = on_sites p (triangle_sides (cell_triangles F level p))"

definition face_sides :: "mc_field \<Rightarrow> fl \<Rightarrow> nat \<Rightarrow> int \<times> int \<times> int \<Rightarrow> (grid_edge \<times> grid_edge) list" where
  "face_sides F level a p = on_sites p (face_segments a (face_pattern F level a p))"

lemma on_sites_append [simp]: "on_sites p (S @ T) = on_sites p S @ on_sites p T" by (simp add: on_sites_def)

lemma excess_swap: "excess (on_sites p (swap_sides S)) s = - excess (on_sites p S) s"
proof (induction S)
  case (Cons t S)
  then show ?case
    using excess_Cons [of "map_prod (site p) (site p) (prod.swap t)" "on_sites p (swap_sides S)" s]
      excess_Cons [of "map_prod (site p) (site p) t" "on_sites p S" s]
    by (cases t; cases s) (simp add: swap_sides_def on_sites_def excess_single conj_commute)
qed (simp add: swap_sides_def on_sites_def)

lemma segments_of_face:
  "a < 3 \<Longrightarrow> k < 16 \<Longrightarrow> (u, v) \<in> set (face_segments a k) \<Longrightarrow> u \<in> set (lower_edges a) \<and> v \<in> set (lower_edges a)"
  using segments_in_face axis_cases [of a] by fastforce

lemma on_upper: "a < 3 \<Longrightarrow> k < 16 \<Longrightarrow> on_sites p (upper_segments a k) = on_sites (shift a p) (face_segments a k)"
  unfolding upper_segments_def on_sites_def map_map
proof (rule map_cong [OF refl])
  fix s assume s: "s \<in> set (face_segments a k)" and a: "a < 3" and k: "k < 16"
  obtain u v where uv: "s = (u, v)" by (rule prod.exhaust)
  then show "(map_prod (site p) (site p) \<circ> map_prod (upper_edge a) (upper_edge a)) s
      = map_prod (site (shift a p)) (site (shift a p)) s"
    using segments_of_face [OF a k s [unfolded uv]] site_upper [OF a, of u p] site_upper [OF a, of v p] by simp
qed

lemma cell_excess:
  "excess (cell_sides F level p) s = (\<Sum>a\<in>{0, 1, 2}. excess (face_sides F level a p) s - excess (face_sides F level a (shift a p)) s)"
proof -
  let ?m = "cell_mask level (corner_values F p)"
  let ?S = "\<lambda>a. swap_sides (face_segments a (mask_pattern ?m (lower_corners a))) @ upper_segments a (mask_pattern ?m (upper_corners a))"
  have "cancels (triangle_sides (cell_triangles F level p) @ concat (map ?S [0, 1, 2]))"
    using row_facts(2) [OF cell_mask_range] unfolding row_closed_def cell_triangles_def .
  from cancels_excess [OF this, of "site p" s, folded on_sites_def]
  have "excess (cell_sides F level p) s + (excess (on_sites p (?S 0)) s + (excess (on_sites p (?S 1)) s + excess (on_sites p (?S 2)) s)) = 0"
    by (simp add: cell_sides_def)
  moreover have "excess (on_sites p (?S a)) s = excess (face_sides F level a (shift a p)) s - excess (face_sides F level a p) s"
    if "a < 3" for a
    using that by (simp add: excess_swap lower_pattern upper_pattern on_upper face_pattern_less face_sides_def)
  ultimately show ?thesis by simp
qed

lemma face_sides_in_plane:
  assumes "a < 3" "excess (face_sides F level a p) (U, V) \<noteq> 0"
  shows "in_plane a (coord a p) U" "in_plane a (coord a p) V"
proof -
  have "count_list (face_sides F level a p) (U, V) \<noteq> 0 \<or> count_list (face_sides F level a p) (V, U) \<noteq> 0"
    using assms(2) by (auto simp: excess_def)
  then have "(U, V) \<in> set (face_sides F level a p) \<or> (V, U) \<in> set (face_sides F level a p)"
    by (auto simp: count_list_0_iff)
  then obtain u v where "(u, v) \<in> set (face_segments a (face_pattern F level a p))"
    "U = site p u \<and> V = site p v \<or> V = site p u \<and> U = site p v"
    by (auto simp: face_sides_def on_sites_def)
  then show "in_plane a (coord a p) U" "in_plane a (coord a p) V"
    using segments_of_face [OF assms(1) face_pattern_less [OF assms(1)]] site_in_plane [OF assms(1)] by blast+
qed

section \<open>All cells\<close>

lemma excess_concat: "excess (concat Ss) s = sum_list (map (\<lambda>S. excess S s) Ss)"
  by (induction Ss) simp_all

definition cell_box :: "mc_field \<Rightarrow> (int \<times> int \<times> int) set" where
  "cell_box F = {0..mf_nx F - 2} \<times> {0..mf_ny F - 2} \<times> {0..mf_nz F - 2}"

lemma set_grid_cells: "set (grid_cells F) = cell_box F"
  by (auto simp: grid_cells_def cell_box_def)

lemma distinct_grid_cells: "distinct (grid_cells F)"
proof -
  have g: "grid_cells F = map (\<lambda>(z, y, x). (x, y, z)) (List.product [0..mf_nz F - 2] (List.product [0..mf_ny F - 2] [0..mf_nx F - 2]))"
    by (simp add: grid_cells_def product_concat_map map_concat comp_def)
  have "inj_on (\<lambda>(z, y, x). (x, y, z) :: int \<times> int \<times> int) A" for A by (auto simp: inj_on_def)
  then show ?thesis unfolding g by (simp add: distinct_map distinct_product)
qed

lemma sum_shift:
  fixes g :: "'p \<Rightarrow> int"
  assumes "finite S" "inj f"
    and lower: "\<And>p. p \<in> S \<Longrightarrow> p \<notin> f ` S \<Longrightarrow> g p = 0" and upper: "\<And>p. p \<in> S \<Longrightarrow> f p \<notin> S \<Longrightarrow> g (f p) = 0"
  shows "(\<Sum>p\<in>S. g p - g (f p)) = 0"
proof -
  have "(\<Sum>p\<in>S. g (f p)) = sum g (f ` S)" using assms(2) by (simp add: sum.reindex inj_on_subset)
  also have "\<dots> = sum g (f ` S \<inter> S)" using assms(1) upper by (intro sum.mono_neutral_right) auto
  finally have "(\<Sum>p\<in>S. g (f p)) = sum g (f ` S \<inter> S)" .
  moreover have "sum g S = sum g (f ` S \<inter> S)" using assms(1) lower by (intro sum.mono_neutral_right) auto
  ultimately show ?thesis by (simp add: sum_subtractf)
qed

text \<open>The pairs of sites in one of the six planes that bound the grid.\<close>

definition grid_extent :: "mc_field \<Rightarrow> nat \<Rightarrow> int" where
  "grid_extent F a = (if a = 0 then mf_nx F else if a = 1 then mf_ny F else mf_nz F)"

definition in_boundary :: "mc_field \<Rightarrow> grid_edge \<Rightarrow> grid_edge \<Rightarrow> bool" where
  "in_boundary F U V \<longleftrightarrow> (\<exists>a\<in>{0, 1, 2}. \<exists>k\<in>{0, grid_extent F a - 1}. in_plane a k U \<and> in_plane a k V)"

definition all_sides :: "mc_field \<Rightarrow> fl \<Rightarrow> (grid_edge \<times> grid_edge) list" where
  "all_sides F level = concat (map (cell_sides F level) (grid_cells F))"

lemma shift_lower: "a < 3 \<Longrightarrow> p \<in> cell_box F \<Longrightarrow> p \<notin> shift a ` cell_box F \<Longrightarrow> coord a p = 0"
proof -
  assume a: "a < 3" and p: "p \<in> cell_box F" and n: "p \<notin> shift a ` cell_box F"
  obtain x y z where xyz: "p = (x, y, z)" by (cases p)
  let ?q = "if a = 0 then (x - 1, y, z) else if a = 1 then (x, y - 1, z) else (x, y, z - 1)"
  have "p = shift a ?q" by (simp add: xyz shift_def)
  then have "?q \<notin> cell_box F" using n by blast
  then show "coord a p = 0" using p axis_cases [OF a] by (elim disjE) (auto simp: xyz cell_box_def coord_def)
qed

lemma shift_upper: "a < 3 \<Longrightarrow> p \<in> cell_box F \<Longrightarrow> shift a p \<notin> cell_box F \<Longrightarrow> coord a (shift a p) = grid_extent F a - 1"
  by (cases p; drule axis_cases; elim disjE) (auto simp: cell_box_def coord_def shift_def grid_extent_def)

lemma surface_closed:
  assumes "\<not> in_boundary F U V"
  shows "count_list (all_sides F level) (U, V) = count_list (all_sides F level) (V, U)"
proof -
  have z: "excess (face_sides F level a p) (U, V) = 0"
    if "a < 3" "coord a p = 0 \<or> coord a p = grid_extent F a - 1" for a p
  proof (rule ccontr)
    assume "excess (face_sides F level a p) (U, V) \<noteq> 0"
    from face_sides_in_plane [OF that(1) this] have "in_plane a (coord a p) U \<and> in_plane a (coord a p) V" by simp
    moreover have "a \<in> {0, 1, 2}" "coord a p \<in> {0, grid_extent F a - 1}" using axis_cases [OF that(1)] that(2) by simp_all
    ultimately show False using assms unfolding in_boundary_def by blast
  qed
  have t: "(\<Sum>p\<in>cell_box F. excess (face_sides F level a p) (U, V) - excess (face_sides F level a (shift a p)) (U, V)) = 0"
    if "a < 3" for a
  proof (rule sum_shift)
    show "finite (cell_box F)" by (simp add: cell_box_def)
    show "inj (shift a)" by (auto simp: inj_def shift_def split: if_splits)
    show "excess (face_sides F level a p) (U, V) = 0" if "p \<in> cell_box F" "p \<notin> shift a ` cell_box F" for p
      using z [OF \<open>a < 3\<close>] shift_lower [OF \<open>a < 3\<close> that] by simp
    show "excess (face_sides F level a (shift a p)) (U, V) = 0" if "p \<in> cell_box F" "shift a p \<notin> cell_box F" for p
      using z [OF \<open>a < 3\<close>] shift_upper [OF \<open>a < 3\<close> that] by simp
  qed
  have "excess (all_sides F level) (U, V) = sum_list (map (\<lambda>p. excess (cell_sides F level p) (U, V)) (grid_cells F))"
    by (simp add: all_sides_def excess_concat comp_def)
  also have "\<dots> = (\<Sum>p\<in>cell_box F. excess (cell_sides F level p) (U, V))"
    using sum_list_distinct_conv_sum_set [OF distinct_grid_cells] by (simp add: set_grid_cells)
  also have "\<dots> = 0" unfolding cell_excess by (subst sum.swap) (simp add: t)
  finally show ?thesis by (simp add: excess_def)
qed

section \<open>The mesh of the walk\<close>

definition cell_edge_list :: "mc_field \<Rightarrow> fl \<Rightarrow> int \<times> int \<times> int \<Rightarrow> nat list" where
  "cell_edge_list F level p = filter (bit (edge_table ! nat (cell_mask level (corner_values F p)))) [0..<12]"

text \<open>The site and the coordinates of every vertex, in the order in which the walk adds them.\<close>

definition vertex_keys :: "mc_field \<Rightarrow> fl \<Rightarrow> (int \<times> int \<times> int) list \<Rightarrow> ((int \<times> int \<times> int) \<times> nat) list" where
  "vertex_keys F level ps = concat (map (\<lambda>p. map (Pair p) (cell_edge_list F level p)) ps)"

definition vertex_sites :: "mc_field \<Rightarrow> fl \<Rightarrow> grid_edge list" where
  "vertex_sites F level = map (\<lambda>(p, e). site p (int e)) (vertex_keys F level (grid_cells F))"

definition triangle_corners :: "('a \<times> 'a \<times> 'a) list \<Rightarrow> 'a list" where
  "triangle_corners ts = concat (map (\<lambda>(a, b, c). [a, b, c]) ts)"

fun corner_sides :: "'a list \<Rightarrow> ('a \<times> 'a) list" where
  "corner_sides (a # b # c # cs) = [(a, b), (b, c), (c, a)] @ corner_sides cs"
| "corner_sides cs = []"

abbreviation key_vertex :: "mc_field \<Rightarrow> fl \<Rightarrow> (int \<times> int \<times> int) \<times> nat \<Rightarrow> vec3" where
  "key_vertex F level k \<equiv> edge_vertex F level (fst k) (snd k)"

text \<open>The edges of one cell: no vertex is ever found in the cache, since its keys name the cell.\<close>

lemma cell_edges_spec:
  assumes "cell_edges F level p edges es st ev = (st', ev')" "distinct es" "\<forall>e\<in>set es. ms_cache st (p, e) = None"
    "length (me_vertices (ms_mesh st)) + length es < 2 ^ 32"
  shows "me_vertices (ms_mesh st') = me_vertices (ms_mesh st) @ map (edge_vertex F level p) (filter (bit edges) es)
    \<and> me_indices (ms_mesh st') = me_indices (ms_mesh st)
    \<and> (\<forall>q e. ms_cache st' (q, e) \<noteq> None \<longrightarrow> q = p \<or> ms_cache st (q, e) \<noteq> None)
    \<and> length ev' = length ev
    \<and> (\<forall>e. e \<notin> set es \<longrightarrow> ev' ! e = ev ! e)
    \<and> (\<forall>e\<in>set es. bit edges e \<longrightarrow> e < length ev \<longrightarrow> (\<exists>i < length (filter (bit edges) es).
         ev' ! e = length (me_vertices (ms_mesh st)) + i \<and> filter (bit edges) es ! i = e))"
  using assms
proof (induction F level p edges es st ev arbitrary: st' ev' rule: cell_edges.induct)
  case (2 F level p edges e es st ev)
  show ?case
  proof (cases "bit edges e")
    case False
    have c: "cell_edges F level p edges es st ev = (st', ev')" using 2(3) False by simp
    have "distinct es" "\<forall>e\<in>set es. ms_cache st (p, e) = None" "length (me_vertices (ms_mesh st)) + length es < 2 ^ 32"
      using 2(4-6) by simp_all
    note ih = 2(2) [OF False c this]
    have f: "filter (bit edges) (e # es) = filter (bit edges) es" using False by simp
    show ?thesis unfolding f using ih False by simp
  next
    case True
    let ?V = "me_vertices (ms_mesh st)"
    define st1 where "st1 = \<lparr>ms_mesh = (ms_mesh st)\<lparr>me_vertices := ?V @ [edge_vertex F level p e]\<rparr>,
      ms_cache = (ms_cache st)((p, e) := Some (length ?V))\<rparr>"
    have g: "get_vertex F level p e st = (st1, length ?V)"
      using 2(5,6) by (simp add: get_vertex_def st1_def Let_def)
    have c: "cell_edges F level p edges es st1 (ev[e := length ?V]) = (st', ev')"
      using 2(3) True g by simp
    have ih: "me_vertices (ms_mesh st') = me_vertices (ms_mesh st1) @ map (edge_vertex F level p) (filter (bit edges) es)
      \<and> me_indices (ms_mesh st') = me_indices (ms_mesh st1)
      \<and> (\<forall>q e. ms_cache st' (q, e) \<noteq> None \<longrightarrow> q = p \<or> ms_cache st1 (q, e) \<noteq> None)
      \<and> length ev' = length (ev[e := length ?V])
      \<and> (\<forall>x. x \<notin> set es \<longrightarrow> ev' ! x = ev[e := length ?V] ! x)
      \<and> (\<forall>x\<in>set es. bit edges x \<longrightarrow> x < length (ev[e := length ?V]) \<longrightarrow> (\<exists>i < length (filter (bit edges) es).
           ev' ! x = length (me_vertices (ms_mesh st1)) + i \<and> filter (bit edges) es ! i = x))"
    proof (rule 2(1) [OF True g [symmetric] c])
      show "distinct es" using 2(4) by simp
      show "\<forall>x\<in>set es. ms_cache st1 (p, x) = None" using 2(4,5) by (auto simp: st1_def)
      show "length (me_vertices (ms_mesh st1)) + length es < 2 ^ 32" using 2(6) by (simp add: st1_def)
    qed
    have V: "me_vertices (ms_mesh st') = ?V @ map (edge_vertex F level p) (filter (bit edges) (e # es))"
      using ih True by (simp add: st1_def)
    have cache: "\<forall>q x. ms_cache st' (q, x) \<noteq> None \<longrightarrow> q = p \<or> ms_cache st (q, x) \<noteq> None"
    proof (intro allI impI)
      fix q x assume "ms_cache st' (q, x) \<noteq> None"
      with ih have "q = p \<or> ms_cache st1 (q, x) \<noteq> None" by blast
      then show "q = p \<or> ms_cache st (q, x) \<noteq> None" by (cases "q = p") (simp_all add: st1_def)
    qed
    have keep: "\<forall>x. x \<notin> set (e # es) \<longrightarrow> ev' ! x = ev ! x" using ih by simp
    have found: "\<exists>i < length (filter (bit edges) (e # es)). ev' ! x = length ?V + i \<and> filter (bit edges) (e # es) ! i = x"
      if "x \<in> set (e # es)" "bit edges x" "x < length ev" for x
    proof (cases "x = e")
      case True
      have "e \<notin> set es" using 2(4) by simp
      then have "ev' ! e = length ?V" using ih that(3) True by simp
      with True that(2) show ?thesis by (intro exI [of _ 0]) simp
    next
      case False
      with that have "x \<in> set es" by simp
      with that(2,3) ih obtain i where "i < length (filter (bit edges) es)"
        "ev' ! x = length (me_vertices (ms_mesh st1)) + i" "filter (bit edges) es ! i = x" by (metis length_list_update)
      then show ?thesis using True by (intro exI [of _ "Suc i"]) (simp add: st1_def)
    qed
    show ?thesis using V cache keep found ih by (simp add: st1_def)
  qed
qed simp

lemma cell_row:
  "row_edges (cell_mask level (corner_values F p)) (edge_table ! nat (cell_mask level (corner_values F p)))
     (tri_table ! nat (cell_mask level (corner_values F p)))"
  using row_facts(1) [OF cell_mask_range] .

lemma triangle_edges:
  "(a, b, c) \<in> set (cell_triangles F level p) \<Longrightarrow> x \<in> {a, b, c} \<Longrightarrow> 0 \<le> x \<and> nat x \<in> set (cell_edge_list F level p)"
  using cell_row [of level F p] unfolding row_edges_def cell_triangles_def cell_edge_list_def list_all_iff by fastforce

lemma cell_triangle_count: "length (cell_triangles F level p) \<le> 5"
  using cell_row [of level F p] by (simp add: row_edges_def cell_triangles_def)

lemma corner_sides_triangles: "corner_sides (triangle_corners ts) = triangle_sides ts"
  by (induction ts) (auto simp: triangle_corners_def triangle_sides_def)

text \<open>What is known of the walk when the cells \<open>past\<close> are behind it.\<close>

definition marched :: "mc_field \<Rightarrow> fl \<Rightarrow> (int \<times> int \<times> int) list \<Rightarrow> mc_state \<Rightarrow> bool" where
  "marched F level past st \<longleftrightarrow>
    me_vertices (ms_mesh st) = map (key_vertex F level) (vertex_keys F level past)
    \<and> set (me_indices (ms_mesh st)) \<subseteq> {..<length (vertex_keys F level past)}
    \<and> map ((!) (map (\<lambda>(p, e). site p (int e)) (vertex_keys F level past))) (me_indices (ms_mesh st))
      = concat (map (\<lambda>p. map (site p) (triangle_corners (cell_triangles F level p))) past)
    \<and> (\<forall>q e. ms_cache st (q, e) \<noteq> None \<longrightarrow> q \<in> set past)"

lemma cell_keys_length: "length (cell_edge_list F level p) \<le> 12"
  unfolding cell_edge_list_def using length_filter_le [of _ "[0..<12]"] by (rule le_trans) simp

lemma vertex_keys_length: "length (vertex_keys F level ps) \<le> 12 * length ps"
  by (induction ps) (use cell_keys_length in \<open>auto simp: vertex_keys_def intro: add_mono\<close>)

lemma terminated_row:
  "row_triangles (tri_table ! nat (cell_mask level (corner_values F p))) = (if cell_mask level (corner_values F p) \<in> unterminated
     then None else Some (cell_triangles F level p))"
  using cell_row [of level F p] by (simp add: row_edges_def cell_triangles_def)

lemma no_edges_no_triangles:
  assumes "edge_table ! nat (cell_mask level (corner_values F p)) = 0"
  shows "cell_edge_list F level p = [] \<and> cell_triangles F level p = []"
proof -
  have e: "cell_edge_list F level p = []" using assms by (simp add: cell_edge_list_def)
  moreover have "cell_triangles F level p = []"
  proof (cases "cell_triangles F level p")
    case (Cons t ts)
    obtain a b c where "t = (a, b, c)" by (rule prod_cases3)
    with Cons triangle_edges [of a b c F level p a] e show ?thesis by simp
  qed simp
  ultimately show ?thesis ..
qed

lemma march_cell_marched:
  assumes m: "marched F level past st" and "march_cell F level p st = Some st'" "p \<notin> set past"
    and b: "12 * (length past + 1) < 2 ^ 32"
  shows "marched F level (past @ [p]) st'"
proof -
  let ?mask = "cell_mask level (corner_values F p)"
  let ?keys = "vertex_keys F level past" and ?new = "map (Pair p) (cell_edge_list F level p)"
  have k: "vertex_keys F level (past @ [p]) = ?keys @ ?new" by (simp add: vertex_keys_def)
  show ?thesis
  proof (cases "edge_table ! nat ?mask = 0")
    case True
    then show ?thesis
      using assms(2) m no_edges_no_triangles [OF True] by (auto simp: march_cell_def marched_def k triangle_corners_def)
  next
    case False
    let ?n = "length ?keys"
    obtain st1 ev where ce: "cell_edges F level p (edge_table ! nat ?mask) [0..<12] st (replicate 12 0) = (st1, ev)"
      by (rule prod.exhaust)
    have st': "st' = push_triangles ev (cell_triangles F level p) st1"
      using assms(2) False ce terminated_row [of level F p] by (simp add: march_cell_def Let_def split: if_splits)
    have n: "length (me_vertices (ms_mesh st)) = ?n" using m by (simp add: marched_def)
    have small: "length (me_vertices (ms_mesh st)) + length [0..<12::nat] < 2 ^ 32"
      using vertex_keys_length [of F level past] b unfolding n by simp
    have fresh: "\<forall>e\<in>set [0..<12]. ms_cache st (p, e) = None" using m assms(3) unfolding marched_def by blast
    note spec = cell_edges_spec [OF ce distinct_upt fresh small, folded cell_edge_list_def, unfolded n]
    have ev: "\<exists>i < length (cell_edge_list F level p). ev ! e = ?n + i \<and> cell_edge_list F level p ! i = e"
      if "e \<in> set (cell_edge_list F level p)" for e
      using spec that by (auto simp: cell_edge_list_def)
    let ?sites = "map (\<lambda>(p, e). site p (int e)) (?keys @ ?new)"
    have here: "ev ! nat x < ?n + length (cell_edge_list F level p) \<and> ?sites ! (ev ! nat x) = site p x"
      if "(a, b, c) \<in> set (cell_triangles F level p)" "x \<in> {a, b, c}" for a b c x
    proof -
      have x: "0 \<le> x" "nat x \<in> set (cell_edge_list F level p)" using triangle_edges [OF that] by simp_all
      from ev [OF x(2)] obtain i where "i < length (cell_edge_list F level p)" "ev ! nat x = ?n + i"
        "cell_edge_list F level p ! i = nat x" by blast
      then show ?thesis using x(1) by (simp add: nth_append)
    qed
    let ?corners = "concat (map (\<lambda>(a, b, c). [ev ! nat a, ev ! nat b, ev ! nat c]) (cell_triangles F level p))"
    have I: "me_indices (ms_mesh st') = me_indices (ms_mesh st) @ ?corners"
      using spec by (simp add: st' push_triangles_def)
    have V: "me_vertices (ms_mesh st') = map (key_vertex F level) (?keys @ ?new)"
      using spec m by (simp add: st' push_triangles_def marched_def comp_def)
    have new_range: "set ?corners \<subseteq> {..<length (?keys @ ?new)}"
      using here by (auto split: prod.splits)
    have new_sites: "map ((!) ?sites) ?corners = map (site p) (triangle_corners (cell_triangles F level p))"
    proof -
      have "map ((!) ?sites) (case t of (a, b, c) \<Rightarrow> [ev ! nat a, ev ! nat b, ev ! nat c])
          = map (site p) (case t of (a, b, c) \<Rightarrow> [a, b, c])" if t: "t \<in> set (cell_triangles F level p)" for t
      proof -
        obtain a b c where abc: "t = (a, b, c)" by (rule prod_cases3)
        have "?sites ! (ev ! nat x) = site p x" if "x \<in> {a, b, c}" for x using here [OF t [unfolded abc] that] ..
        then show ?thesis unfolding abc prod.case list.map by blast
      qed
      then show ?thesis unfolding triangle_corners_def map_concat map_map by (intro arg_cong [of _ _ concat] map_cong) simp_all
    qed
    have old_sites: "map ((!) ?sites) (me_indices (ms_mesh st)) = map ((!) (map (\<lambda>(p, e). site p (int e)) ?keys)) (me_indices (ms_mesh st))"
      using m by (intro map_cong) (auto simp: marched_def nth_append)
    have cache: "\<forall>q e. ms_cache st' (q, e) \<noteq> None \<longrightarrow> q \<in> set (past @ [p])"
    proof (intro allI impI)
      fix q e assume "ms_cache st' (q, e) \<noteq> None"
      then have "ms_cache st1 (q, e) \<noteq> None" by (simp add: st' push_triangles_def)
      with spec have "q = p \<or> ms_cache st (q, e) \<noteq> None" by blast
      moreover have "q \<in> set past" if "ms_cache st (q, e) \<noteq> None" using m that unfolding marched_def by blast
      ultimately show "q \<in> set (past @ [p])" by (elim disjE) simp_all
    qed
    have range: "set (me_indices (ms_mesh st')) \<subseteq> {..<length (?keys @ ?new)}"
      using m new_range unfolding I by (auto simp: marched_def)
    have S: "map ((!) ?sites) (me_indices (ms_mesh st'))
        = concat (map (\<lambda>p. map (site p) (triangle_corners (cell_triangles F level p))) (past @ [p]))"
      using m old_sites new_sites unfolding I by (simp add: marched_def)
    show ?thesis unfolding marched_def k using V range S cache by blast
  qed
qed

lemma march_cells_marched:
  "marched F level past st \<Longrightarrow> march_cells F level ps st = Some st' \<Longrightarrow> distinct (past @ ps)
    \<Longrightarrow> 12 * length (past @ ps) < 2 ^ 32 \<Longrightarrow> marched F level (past @ ps) st'"
proof (induction ps arbitrary: past st)
  case (Cons p ps)
  from Cons(3) obtain st1 where st1: "march_cell F level p st = Some st1" "march_cells F level ps st1 = Some st'"
    by (auto simp: Option.bind_eq_Some_conv)
  have "marched F level (past @ [p]) st1"
    by (rule march_cell_marched [OF Cons(2) st1(1)]) (use Cons(4,5) in auto)
  from Cons(1) [OF this st1(2)] Cons(4,5) show ?case by simp
qed simp

lemma start_marched: "marched F level [] start_march"
  by (simp add: marched_def start_march_def empty_mesh_def vertex_keys_def)

lemma no_cells: "mf_nx F < 2 \<or> mf_ny F < 2 \<or> mf_nz F < 2 \<Longrightarrow> grid_cells F = []"
  by (auto simp: grid_cells_def)

lemma marching_cubes_march:
  "marching_cubes F level = map_option ms_mesh (march_cells F level (grid_cells F) start_march)"
  using no_cells [of F] by (auto simp: marching_cubes_def start_march_def)

lemma marching_marched:
  assumes "marching_cubes F level = Some m" "12 * length (grid_cells F) < 2 ^ 32"
  obtains st where "marched F level (grid_cells F) st" "m = ms_mesh st"
proof -
  from assms(1) obtain st where "march_cells F level (grid_cells F) start_march = Some st" "m = ms_mesh st"
    by (auto simp: marching_cubes_march)
  with march_cells_marched [OF start_marched, of F level "grid_cells F" st] distinct_grid_cells assms(2) that
  show thesis by simp
qed

text \<open>A vertex is added for every crossed edge of every cell, although neighbours share their edges.\<close>

lemma vertices_not_shared:
  assumes "marching_cubes F level = Some m" "12 * length (grid_cells F) < 2 ^ 32"
  shows "me_vertices m = concat (map (\<lambda>p. map (edge_vertex F level p) (cell_edge_list F level p)) (grid_cells F))"
  using marching_marched [OF assms] by (auto simp: marched_def vertex_keys_def map_concat comp_def)

lemma march_cells_None: "march_cells F level ps st = None \<longleftrightarrow> (\<exists>p\<in>set ps. cell_mask level (corner_values F p) \<in> unterminated)"
proof (induction ps arbitrary: st)
  case (Cons p ps)
  have "\<forall>cfg\<in>{122, 181, 218, 229}. edge_table ! nat cfg \<noteq> 0" by (simp add: edge_table_def)
  then have "march_cell F level p st = None \<longleftrightarrow> cell_mask level (corner_values F p) \<in> unterminated"
    by (auto simp: march_cell_def Let_def terminated_row unterminated_def split: prod.split)
  with Cons show ?case by (cases "march_cell F level p st") auto
qed simp

lemma marched_sides:
  assumes "marched F level (grid_cells F) st"
  shows "corner_sides (map ((!) (vertex_sites F level)) (me_indices (ms_mesh st))) = all_sides F level"
proof -
  have "corner_sides (triangle_corners ts @ cs) = triangle_sides ts @ corner_sides cs" for ts and cs :: "grid_edge list"
    by (induction ts) (auto simp: triangle_corners_def triangle_sides_def)
  moreover have "map (site p) (triangle_corners ts) = triangle_corners (map (\<lambda>(a, b, c). (site p a, site p b, site p c)) ts)"
    "triangle_sides (map (\<lambda>(a, b, c). (site p a, site p b, site p c)) ts) = on_sites p (triangle_sides ts)" for p ts
    by (induction ts) (auto simp: triangle_corners_def triangle_sides_def on_sites_def)
  ultimately have "corner_sides (concat (map (\<lambda>p. map (site p) (triangle_corners (cell_triangles F level p))) ps))
      = concat (map (cell_sides F level) ps)" for ps
    by (induction ps) (simp_all add: cell_sides_def)
  then show ?thesis using assms by (simp add: marched_def vertex_sites_def all_sides_def)
qed

section \<open>Properties\<close>

text \<open>
  C7: The extracted surface is closed: every vertex lies on an edge of the grid, every index is the number of a
  vertex, and every side of a triangle that does not lie in the boundary of the grid occurs as often in one
  direction as in the other, so that no triangle ends in the interior.
\<close>
theorem isosurface_closed:
  assumes "marching_cubes F level = Some m" "12 * length (grid_cells F) < 2 ^ 32"
  shows "length (vertex_sites F level) = length (me_vertices m)
    \<and> (\<forall>i < length (me_vertices m). \<exists>p\<in>cell_box F. \<exists>e < 12.
         me_vertices m ! i = edge_vertex F level p e \<and> vertex_sites F level ! i = site p (int e))
    \<and> set (me_indices m) \<subseteq> {..<length (me_vertices m)}
    \<and> (\<forall>U V. \<not> in_boundary F U V \<longrightarrow>
         count_list (corner_sides (map ((!) (vertex_sites F level)) (me_indices m))) (U, V)
         = count_list (corner_sides (map ((!) (vertex_sites F level)) (me_indices m))) (V, U))"
proof -
  from marching_marched [OF assms] obtain st where st: "marched F level (grid_cells F) st" and m: "m = ms_mesh st" .
  let ?keys = "vertex_keys F level (grid_cells F)"
  have V: "me_vertices m = map (key_vertex F level) ?keys" using st by (simp add: marched_def m)
  have l: "length (vertex_sites F level) = length (me_vertices m)" by (simp add: V vertex_sites_def)
  have "\<exists>p\<in>cell_box F. \<exists>e < 12. me_vertices m ! i = edge_vertex F level p e \<and> vertex_sites F level ! i = site p (int e)"
    if "i < length (me_vertices m)" for i
  proof -
    obtain p e where pe: "?keys ! i = (p, e)" by (rule prod.exhaust)
    have "(p, e) \<in> set ?keys" using that unfolding V pe [symmetric] by simp
    then have "p \<in> cell_box F" "e < 12" by (auto simp: vertex_keys_def cell_edge_list_def set_grid_cells)
    then show ?thesis using that pe by (intro bexI [of _ p] exI [of _ e]) (simp_all add: V vertex_sites_def)
  qed
  moreover have "set (me_indices m) \<subseteq> {..<length (me_vertices m)}" using st by (simp add: marched_def m V [unfolded m])
  moreover have "\<forall>U V. \<not> in_boundary F U V \<longrightarrow>
      count_list (corner_sides (map ((!) (vertex_sites F level)) (me_indices m))) (U, V)
      = count_list (corner_sides (map ((!) (vertex_sites F level)) (me_indices m))) (V, U)"
    unfolding m marched_sides [OF st] using surface_closed by blast
  ultimately show ?thesis using l by blast
qed

text \<open>A grid of three points a side whose middle point is below the level: an octahedron.\<close>

definition ball_field :: mc_field where
  "ball_field = \<lparr>mf_nx = 3, mf_ny = 3, mf_nz = 3, mf_data = (replicate 27 (Fin 1))[13 := Fin (- 1)]\<rparr>"

lemma ball_cells: "length (grid_cells ball_field) = 8" "\<forall>p\<in>cell_box ball_field. cell_mask (Fin 0) (corner_values ball_field p) \<notin> unterminated"
  unfolding set_grid_cells [symmetric] by code_simp+

theorem isosurface_closed_witness:
  "\<exists>m. marching_cubes ball_field (Fin 0) = Some m
    \<and> count_list (corner_sides (map ((!) (vertex_sites ball_field (Fin 0))) (me_indices m))) (site (0, 0, 0) 5, site (0, 0, 0) 6)
      = count_list (corner_sides (map ((!) (vertex_sites ball_field (Fin 0))) (me_indices m))) (site (0, 0, 0) 6, site (0, 0, 0) 5)"
proof -
  have "marching_cubes ball_field (Fin 0) \<noteq> None"
    using ball_cells by (simp add: marching_cubes_march march_cells_None set_grid_cells)
  then obtain m where m: "marching_cubes ball_field (Fin 0) = Some m" by blast
  have "\<not> in_boundary ball_field (site (0, 0, 0) 5) (site (0, 0, 0) 6)" by code_simp
  moreover have "12 * length (grid_cells ball_field) < 2 ^ 32" by (simp add: ball_cells)
  ultimately show ?thesis using m isosurface_closed [OF m] by blast
qed

text \<open>
  C17: The walk leaves the triangle table exactly when a cell has one of the four corner patterns whose rows lack
  the end mark; for every other field it returns a mesh.
\<close>
theorem marching_undefined_iff:
  "marching_cubes F level = None \<longleftrightarrow> (\<exists>p\<in>cell_box F. cell_mask level (corner_values F p) \<in> unterminated)"
  by (simp add: marching_cubes_march march_cells_None set_grid_cells)

end
