(* ===== verification/HeightProperties.thy ===== *)
theory HeightProperties
  imports HeightField MarchingProperties
begin

text \<open>
  Theorems on the height field and its mesh: a field that is returned holds the metric of every pixel, the mesh
  is well-formed and its top surface is joined to the walls without a gap, and the one metric that has no field.
\<close>

section \<open>Tiles\<close>

lemma hs_tiles_pos: "0 < N \<Longrightarrow> hs_tiles N = (N + 31) div 32 \<and> 0 < hs_tiles N"
proof -
  assume "0 < N"
  then have "hs_tiles N = (N + 31) div 32" by (simp add: hs_tiles_def tdiv_nonneg add.commute)
  moreover have "1 \<le> (N + 31) div 32" using \<open>0 < N\<close> by linarith
  ultimately show ?thesis by simp
qed

lemma pixel_index_inj:
  fixes N :: int
  assumes "0 \<le> c" "c < N" "0 \<le> c'" "c' < N" "0 \<le> r" "0 \<le> r'" "nat (r * N + c) = nat (r' * N + c')"
  shows "r = r' \<and> c = c'"
proof -
  have e: "r * N + c = r' * N + c'" using assms by (simp add: eq_nat_nat_iff)
  have "(r * N + c) div N = r" "(r' * N + c') div N = r'" using assms by simp_all
  with e show ?thesis by simp
qed

lemma pixel_index_range:
  fixes N :: int
  assumes "0 \<le> c" "c < N" "0 \<le> r" "r < N"
  shows "nat (r * N + c) < nat (N * N)"
proof -
  have "r * N + c < (r + 1) * N" using assms by (simp add: distrib_right)
  also have "\<dots> \<le> N * N" using assms by (intro mult_right_mono) simp_all
  finally show ?thesis using assms by (simp add: nat_less_eq_zless)
qed

abbreviation in_grid :: "int \<Rightarrow> int \<times> int \<Rightarrow> bool" where
  "in_grid N rc \<equiv> 0 \<le> fst rc \<and> fst rc < N \<and> 0 \<le> snd rc \<and> snd rc < N"

lemma write_pixels_spec:
  assumes "write_pixels N pixel ps field = Inr field'" "\<forall>rc\<in>set ps. in_grid N rc" "length field = nat (N * N)"
  shows "length field' = nat (N * N)
    \<and> (\<forall>(r, c)\<in>set ps. pixel r c = Inr (field' ! nat (r * N + c)))
    \<and> (\<forall>i. i \<notin> (\<lambda>(r, c). nat (r * N + c)) ` set ps \<longrightarrow> field' ! i = field ! i)"
  using assms
proof (induction N pixel ps field rule: write_pixels.induct)
  case (2 N pixel r c ps field)
  from 2(2) obtain v where v: "pixel r c = Inr v"
    and w: "write_pixels N pixel ps (field[nat (r * N + c) := v]) = Inr field'"
    by (auto simp: res_bind_Inr_iff)
  have ih: "length field' = nat (N * N) \<and> (\<forall>(r, c)\<in>set ps. pixel r c = Inr (field' ! nat (r * N + c)))
      \<and> (\<forall>i. i \<notin> (\<lambda>(r, c). nat (r * N + c)) ` set ps \<longrightarrow> field' ! i = field[nat (r * N + c) := v] ! i)"
    by (rule 2(1) [OF v w]) (use 2(3,4) in simp_all)
  have "pixel r c = Inr (field' ! nat (r * N + c))"
  proof (cases "(r, c) \<in> set ps")
    case True
    then show ?thesis using ih by blast
  next
    case False
    have "nat (r * N + c) \<notin> (\<lambda>(r, c). nat (r * N + c)) ` set ps"
    proof
      assume "nat (r * N + c) \<in> (\<lambda>(r, c). nat (r * N + c)) ` set ps"
      then obtain r' c' where m: "(r', c') \<in> set ps" and e: "nat (r * N + c) = nat (r' * N + c')" by auto
      have "in_grid N (r, c)" "in_grid N (r', c')" using 2(3) m by auto
      then have "r = r' \<and> c = c'" using pixel_index_inj [of c N c' r r'] e by simp
      with m False show False by simp
    qed
    then have "field' ! nat (r * N + c) = field[nat (r * N + c) := v] ! nat (r * N + c)" using ih by blast
    moreover have "nat (r * N + c) < length field" using pixel_index_range [of c N r] 2(3,4) by simp
    ultimately show ?thesis using v by simp
  qed
  with ih show ?case by auto
qed simp

lemma tile_order_in_grid: "0 < N \<Longrightarrow> rc \<in> set (tile_order N cancelled) \<Longrightarrow> in_grid N rc"
  using hs_tiles_pos [of N]
  by (auto simp: tile_order_def hs_tile_pixels_def Let_def tdiv_nonneg tmod_nonneg pos_imp_zdiv_nonneg_iff
      intro: order_trans [rotated] split: if_splits)

lemma tile_order_complete:
  assumes N: "0 < N" and g: "0 \<le> r" "r < N" "0 \<le> c" "c < N"
  shows "(r, c) \<in> set (tile_order N (\<lambda>t. False))"
proof -
  let ?T = "hs_tiles N" and ?t = "r div 32 * hs_tiles N + c div 32"
  have T: "?T = (N + 31) div 32" "0 < ?T" using hs_tiles_pos [OF N] by simp_all
  have q: "0 \<le> r div 32" "r div 32 < ?T" "0 \<le> c div 32" "c div 32 < ?T" using g unfolding T by linarith+
  have d: "tdiv ?t ?T = r div 32" "tmod ?t ?T = c div 32"
    using q by (simp_all add: tdiv_nonneg tmod_nonneg)
  have "?t < (r div 32 + 1) * ?T" using q by (simp add: distrib_right)
  also have "\<dots> \<le> ?T * ?T" using q by (intro mult_right_mono) simp_all
  finally have t: "?t \<in> set [0..?T * ?T - 1]" using q by simp
  have "(r, c) \<in> set (hs_tile_pixels N ?t)"
  proof -
    have "k div 32 * 32 \<le> k \<and> k < k div 32 * 32 + 32" for k :: int by linarith
    then show ?thesis using g by (simp add: hs_tile_pixels_def Let_def d)
  qed
  with t show ?thesis unfolding tile_order_def by (auto simp del: set_upto)
qed

lemma fill_tiles_complete:
  assumes "fill_tiles N (\<lambda>t. False) pixel = Inr field" "0 < N"
  shows "length field = nat (N * N)"
    "0 \<le> r \<Longrightarrow> r < N \<Longrightarrow> 0 \<le> c \<Longrightarrow> c < N \<Longrightarrow> pixel r c = Inr (field ! nat (r * N + c))"
proof -
  have "\<forall>rc\<in>set (tile_order N (\<lambda>t. False)). in_grid N rc" using tile_order_in_grid [OF assms(2)] by blast
  note spec = write_pixels_spec [OF assms(1) [unfolded fill_tiles_def] this length_replicate]
  show "length field = nat (N * N)" using spec by blast
  show "pixel r c = Inr (field ! nat (r * N + c))" if "0 \<le> r" "r < N" "0 \<le> c" "c < N"
    using spec tile_order_complete [OF assms(2) that] by blast
qed

section \<open>Heights\<close>

lemma clamp_height_bounds: "fis_finite h \<Longrightarrow> fis_finite (clamp_height h v) \<and> \<not> flt h (clamp_height h v)"
  by (simp add: clamp_height_def Let_def)

lemma orbit_value_bounds:
  assumes "fis_finite h" "\<not> flt h (Fin 0)"
  shows "fis_finite (hs_orbit_value M h n s) \<and> \<not> flt h (hs_orbit_value M h n s) \<and> \<not> flt (hs_orbit_value M h n s) (Fin 0)"
proof -
  define v where "v = (case M of
         Escape \<Rightarrow> if ho_escaped s then ddiv (f_of_int b64 (ho_escape_iteration s)) (f_of_int b64 n) else Fin 1
       | MinAbs \<Rightarrow> if fis_finite (ho_min_norm s) then fsqrt b64 (ho_min_norm s) else h
       | MaxAbs \<Rightarrow> if fis_finite (ho_max_norm s) then fsqrt b64 (ho_max_norm s) else h
       | Envelope \<Rightarrow>
           if fis_finite (ho_min_norm s) \<and> fis_finite (ho_max_norm s)
           then dmul (Fin (1 / 2)) (dadd (fsqrt b64 (ho_min_norm s)) (fsqrt b64 (ho_max_norm s))) else h
       | MinPairwiseDist \<Rightarrow> if fis_finite (ho_min_pair s) then fsqrt b64 (ho_min_pair s) else h
       | MandelShipAgree \<Rightarrow> h)"
  have "hs_orbit_value M h n s = (let v = (if \<not> fis_finite v \<or> flt h v then h else v) in if flt v (Fin 0) then Fin 0 else v)"
    by (simp add: hs_orbit_value_def v_def)
  then show ?thesis using assms by (simp add: Let_def fis_finite_def)
qed

definition pixel_height :: "cmath \<Rightarrow> libm \<Rightarrow> hs_params \<Rightarrow> int \<Rightarrow> int \<Rightarrow> fl res" where
  "pixel_height Mth L p r c =
    (case hp_orbit_program p of
       Some prog \<Rightarrow> hs_orbit_pixel Mth L p prog (\<lambda>r c i. False) r c
     | None \<Rightarrow> hs_pixel L p (if hp_variant p = Custom then Mandelbrot else hp_variant p) r c)"

lemma pixel_height_bounds:
  assumes "pixel_height Mth L p r c = Inr h" "fis_finite (hp_height_clamp p)" "\<not> flt (hp_height_clamp p) (Fin 0)"
  shows "fis_finite h \<and> \<not> flt (hp_height_clamp p) h"
  using assms clamp_height_bounds [OF assms(2)] orbit_value_bounds [OF assms(2,3)]
  by (auto simp: pixel_height_def hs_pixel_def hs_orbit_pixel_def Let_def res_bind_Inr_iff split: option.splits if_splits)

lemma field_pixels:
  assumes "compute_hs_field Mth L p cancel = Inr field" "0 < hp_resolution p" "hp_metric p \<noteq> MandelShipAgree"
    and token: "hc_field cancel \<or> (\<forall>t. \<not> hc_tile cancel t) \<and> (\<forall>r c i. \<not> hc_iteration cancel r c i)"
  shows "fill_tiles (hp_resolution p) (\<lambda>t. False) (pixel_height Mth L p) = Inr field"
proof -
  have "\<not> hc_field cancel" using assms(1) by (auto simp: compute_hs_field_def Let_def res_bind_Inr_iff throw_if_Inr_iff)
  with token have "hc_tile cancel = (\<lambda>t. False)" "hc_iteration cancel = (\<lambda>r c i. False)" by (auto simp: fun_eq_iff)
  then show ?thesis using assms(1,3)
    by (auto simp: compute_hs_field_def Let_def res_bind_Inr_iff throw_if_Inr_iff pixel_height_def [abs_def]
        split: option.splits if_splits)
qed

section \<open>Sides of the mesh\<close>

lemma corner_sides_append: "3 dvd length xs \<Longrightarrow> corner_sides (xs @ ys) = corner_sides xs @ corner_sides ys"
proof (induction xs rule: corner_sides.induct)
  case (1 a b c cs)
  then have "3 dvd length cs" unfolding list.size by presburger
  with 1 show ?case by simp
next
  case "2_2"
  then show ?case by (simp add: nat_dvd_not_less)
next
  case "2_3"
  then show ?case by (simp add: nat_dvd_not_less)
qed simp

lemma corner_sides_concat:
  "\<forall>x\<in>set xs. 3 dvd length (f x) \<Longrightarrow> corner_sides (concat (map f xs)) = concat (map (\<lambda>x. corner_sides (f x)) xs)
    \<and> 3 dvd length (concat (map f xs))"
  by (induction xs) (auto simp: corner_sides_append)

definition side :: "nat \<times> nat \<Rightarrow> nat \<Rightarrow> nat \<Rightarrow> int" where "side s x y = excess [(x, y)] s"

lemma side_rev: "side s y x = - side s x y"
  using excess_pair [of x y s] excess_Cons [of "(x, y)" "[(y, x)]" s] by (simp add: side_def)

lemma side_outside: "fst s < m \<Longrightarrow> snd s < m \<Longrightarrow> m \<le> x \<or> m \<le> y \<Longrightarrow> side s x y = 0"
  by (cases s) (auto simp: side_def excess_single)

lemma excess_six:
  "excess (corner_sides [a, b, c, d, e, f]) s = side s a b + side s b c + side s c a + side s d e + side s e f + side s f d"
  using excess_Cons [of "(a, b)" "[(b, c), (c, a), (d, e), (e, f), (f, d)]" s] excess_Cons [of "(b, c)" "[(c, a), (d, e), (e, f), (f, d)]" s]
    excess_Cons [of "(c, a)" "[(d, e), (e, f), (f, d)]" s] excess_Cons [of "(d, e)" "[(e, f), (f, d)]" s]
    excess_Cons [of "(e, f)" "[(f, d)]" s] by (simp add: side_def)

lemma excess_sixes:
  assumes "\<And>x. x \<in> set xs \<Longrightarrow> length (f x) = 6"
  shows "excess (corner_sides (concat (map f xs))) s = sum_list (map (\<lambda>x. excess (corner_sides (f x)) s) xs)"
    "3 dvd length (concat (map f xs))"
  using corner_sides_concat [of xs f] assms by (simp_all add: excess_concat comp_def)

lemma sum_product: "sum_list (map (\<lambda>(r, c). f r c) (List.product xs ys)) = sum_list (map (\<lambda>r. sum_list (map (f r) ys)) xs)"
  for f :: "'a \<Rightarrow> 'b \<Rightarrow> int"
  by (induction xs) (simp_all add: comp_def)

lemma sum_telescope: "sum_list (map (\<lambda>i. f i - f (i + 1)) [0..<m]) = f 0 - (f m :: int)"
  by (induction m) simp_all

lemma sum_list_swap: "sum_list (map (\<lambda>x. sum_list (map (f x) ys)) xs) = sum_list (map (\<lambda>y. sum_list (map (\<lambda>x. f x y) xs)) ys)"
  for f :: "'a \<Rightarrow> 'b \<Rightarrow> int"
  by (induction xs) (simp_all add: sum_list_addf)

text \<open>The excess of the top surface is that of its rim.\<close>

lemma top_excess:
  fixes n m s
  defines "h \<equiv> \<lambda>r c. side s (r * n + c) (r * n + c + 1)" and "v \<equiv> \<lambda>r c. side s (r * n + c) ((r + 1) * n + c)"
  assumes "m = n - 1"
  shows "excess (corner_sides (top_triangles n)) s
    = sum_list (map (\<lambda>r. v r 0 - v r m) [0..<m]) + sum_list (map (\<lambda>c. h m c - h 0 c) [0..<m])"
proof -
  have cell: "excess (corner_sides (case (r, c) of (row, col) \<Rightarrow>
       let a = row * n + col; b = row * n + col + 1; c = (row + 1) * n + col; d = (row + 1) * n + col + 1 in [a, c, b, b, c, d])) s
     = (v r c - v r (c + 1)) - (h r c - h (r + 1) c)" for r c
    using side_rev [of s "r * n + c" "r * n + c + 1"] side_rev [of s "(r + 1) * n + c" "r * n + c + 1"]
      side_rev [of s "(r + 1) * n + c + 1" "r * n + c + 1"]
    unfolding prod.case Let_def excess_six by (simp add: h_def v_def)
  have "excess (corner_sides (top_triangles n)) s
      = sum_list (map (\<lambda>(r, c). (v r c - v r (c + 1)) - (h r c - h (r + 1) c)) (List.product [0..<m] [0..<m]))"
    unfolding top_triangles_def assms(3) using cell
    by (subst excess_sixes) (auto simp: Let_def intro!: arg_cong [of _ _ sum_list] map_cong)
  also have "\<dots> = sum_list (map (\<lambda>r. sum_list (map (\<lambda>c. v r c - v r (c + 1)) [0..<m])) [0..<m])
      - sum_list (map (\<lambda>r. sum_list (map (\<lambda>c. h r c - h (r + 1) c) [0..<m])) [0..<m])"
    by (simp only: sum_product sum_list_subtractf)
  also have "\<dots> = sum_list (map (\<lambda>r. v r 0 - v r m) [0..<m]) - sum_list (map (\<lambda>c. h 0 c - h m c) [0..<m])"
    using sum_telescope [of "\<lambda>r. h r c" m for c] by (simp only: sum_telescope sum_list_swap [of "\<lambda>r c. h r c - h (r + 1) c"])
  finally show ?thesis by (simp add: sum_list_subtractf)
qed

lemma wall_excess:
  assumes "fst s < k" "snd s < k" "k \<le> base"
  shows "excess (corner_sides (outward_wall line base n)) s = sum_list (map (\<lambda>i. side s (line i) (line (i + 1))) [0..<n - 1])"
    "excess (corner_sides (reversed_wall line base n)) s = - sum_list (map (\<lambda>i. side s (line i) (line (i + 1))) [0..<n - 1])"
    "3 dvd length (outward_wall line base n)" "3 dvd length (reversed_wall line base n)"
proof -
  have z: "side s x y = 0" if "base \<le> x \<or> base \<le> y" for x y
    using side_outside [OF assms(1,2)] that assms(3) by (meson le_trans)
  show "excess (corner_sides (outward_wall line base n)) s = sum_list (map (\<lambda>i. side s (line i) (line (i + 1))) [0..<n - 1])"
    unfolding outward_wall_def
  proof (subst excess_sixes, goal_cases)
    case 2
    show ?case by (intro arg_cong [of _ _ sum_list] map_cong refl) (simp only: Let_def excess_six, simp add: z)
  qed (simp add: Let_def)
  have "excess (corner_sides (reversed_wall line base n)) s = sum_list (map (\<lambda>i. - side s (line i) (line (i + 1))) [0..<n - 1])"
    unfolding reversed_wall_def
  proof (subst excess_sixes, goal_cases)
    case 2
    show ?case
      by (intro arg_cong [of _ _ sum_list] map_cong refl) (simp only: Let_def excess_six, simp add: z, rule side_rev)
  qed (simp add: Let_def)
  then show "excess (corner_sides (reversed_wall line base n)) s = - sum_list (map (\<lambda>i. side s (line i) (line (i + 1))) [0..<n - 1])"
    by (simp add: uminus_sum_list_map comp_def)
  show "3 dvd length (outward_wall line base n)" "3 dvd length (reversed_wall line base n)"
    unfolding outward_wall_def reversed_wall_def by (rule excess_sixes(2), simp add: Let_def)+
qed

lemma rim_closed:
  assumes "0 < n" "fst s < n * n" "snd s < n * n"
  shows "excess (corner_sides (hs_indices n)) s = 0"
proof -
  note w = wall_excess [OF assms(2,3)]
  have top: "3 dvd length (top_triangles n)" unfolding top_triangles_def by (rule excess_sixes(2)) (auto simp: Let_def)
  have b: "excess (corner_sides (bottom_triangles (n * n + 4 * n))) s = 0"
    unfolding bottom_triangles_def excess_six using side_outside [OF assms(2,3)] by simp
  have "excess (corner_sides (hs_indices n)) s = excess (corner_sides (top_triangles n)) s
      + excess (corner_sides (outward_wall (\<lambda>col. col) (n * n) n)) s
      + excess (corner_sides (reversed_wall (\<lambda>col. (n - 1) * n + col) (n * n + n) n)) s
      + excess (corner_sides (outward_wall (\<lambda>row. row * n + (n - 1)) (n * n + 2 * n) n)) s
      + excess (corner_sides (reversed_wall (\<lambda>row. row * n) (n * n + 3 * n) n)) s
      + excess (corner_sides (bottom_triangles (n * n + 4 * n))) s"
    unfolding hs_indices_def by (simp add: corner_sides_append top w(3,4))
  also have "\<dots> = 0"
    unfolding b top_excess [OF refl] by (simp add: w sum_list_subtractf)
  finally show ?thesis .
qed

lemma length_concat_const: "\<forall>x\<in>set xs. length (f x) = k \<Longrightarrow> length (concat (map f xs)) = k * length xs"
  by (induction xs) simp_all

lemma index_lengths:
  "length (top_triangles n) = 6 * ((n - 1) * (n - 1))" "length (outward_wall line base n) = 6 * (n - 1)"
  "length (reversed_wall line base n) = 6 * (n - 1)" "length (bottom_triangles k) = 6"
  unfolding top_triangles_def outward_wall_def reversed_wall_def
    by (subst length_concat_const; auto simp: Let_def)+ (simp add: bottom_triangles_def)

lemma grid_index: "r < n \<Longrightarrow> c < n \<Longrightarrow> r * n + c < n * (n :: nat)"
proof -
  assume "r < n" "c < n"
  then have "r * n + c < Suc r * n" by simp
  also have "\<dots> \<le> n * n" using \<open>r < n\<close> by (intro mult_right_mono) simp_all
  finally show ?thesis .
qed

lemma top_range: "set (top_triangles n) \<subseteq> {..<n * n}"
proof
  fix i assume "i \<in> set (top_triangles n)"
  then obtain r c where rc: "r < n - 1" "c < n - 1"
    and i: "i \<in> {r * n + c, r * n + (c + 1), (r + 1) * n + c, (r + 1) * n + (c + 1)}"
    by (auto simp: top_triangles_def Let_def)
  have "r < n" "r + 1 < n" "c < n" "c + 1 < n" using rc by auto
  then show "i \<in> {..<n * n}" using i grid_index by blast
qed

lemma wall_range:
  assumes "\<And>i. i < n \<Longrightarrow> line i < k" "base + n \<le> k"
  shows "set (outward_wall line base n) \<subseteq> {..<k}" "set (reversed_wall line base n) \<subseteq> {..<k}"
proof -
  have l: "line i < k" "line (Suc i) < k" "base + i < k" "Suc (base + i) < k" if "i < n - 1" for i
    using that assms(1) [of i] assms(1) [of "Suc i"] assms(2) by linarith+
  show "set (outward_wall line base n) \<subseteq> {..<k}" "set (reversed_wall line base n) \<subseteq> {..<k}"
    using l unfolding outward_wall_def reversed_wall_def by (auto simp: Let_def)
qed

lemma hs_index_range: "set (hs_indices n) \<subseteq> {..<n * n + 4 * n + 4}"
proof -
  let ?k = "n * n + 4 * n + 4"
  have line: "i < ?k" "(n - 1) * n + i < ?k" "i * n + (n - 1) < ?k" "i * n < ?k" if "i < n" for i
    using that grid_index [of 0 n i] grid_index [of "n - 1" n i] grid_index [of i n "n - 1"] grid_index [of i n 0] by simp_all
  have "set (top_triangles n) \<subseteq> {..<?k}" using top_range [of n] by force
  moreover have "set (outward_wall (\<lambda>col. col) (n * n) n) \<subseteq> {..<?k}"
    "set (reversed_wall (\<lambda>col. (n - 1) * n + col) (n * n + n) n) \<subseteq> {..<?k}"
    "set (outward_wall (\<lambda>row. row * n + (n - 1)) (n * n + 2 * n) n) \<subseteq> {..<?k}"
    "set (reversed_wall (\<lambda>row. row * n) (n * n + 3 * n) n) \<subseteq> {..<?k}"
    by (intro wall_range line; simp)+
  moreover have "set (bottom_triangles (n * n + 4 * n)) \<subseteq> {..<?k}" by (simp add: bottom_triangles_def)
  ultimately show ?thesis unfolding hs_indices_def set_append by (intro Un_least)
qed

lemma vertex_lengths:
  "length (top_vertices n h field) = n * n" "length (wall_vertices n) = 4 * n" "length bottom_vertices = 4"
  by (simp_all add: top_vertices_def wall_vertices_def bottom_vertices_def Let_def)

lemma build_result:
  assumes "build_hs_mesh Mth L p cancel = Inr m" "n = nat (clamp_resolution (hp_resolution p))"
  shows "length (me_vertices m) = n * n + 4 * n + 4" "me_indices m = hs_indices n" "4 \<le> n" "n \<le> 4096"
  using assms by (auto simp: build_hs_mesh_def Let_def res_bind_Inr_iff throw_if_Inr_iff vertex_lengths clamp_resolution_def)

lemma write_pixels_total: "(\<And>r c. \<exists>v. pixel r c = Inr v) \<Longrightarrow> \<exists>field'. write_pixels N pixel ps field = Inr field'"
proof (induction N pixel ps field rule: write_pixels.induct)
  case (2 N pixel r c ps field)
  from 2(2) [of r c] obtain v where "pixel r c = Inr v" ..
  with 2(1) [OF this 2(2)] show ?case by simp
qed simp

section \<open>Properties\<close>

text \<open>
  C22: A height field that is returned is complete: given that the cancellation token stays raised once a tile or
  a pixel has seen it, the field holds the metric of every pixel of the grid at its place, and every height is
  finite and not above the clamp.
\<close>
theorem height_field_complete:
  assumes "compute_hs_field Mth L p cancel = Inr field" "0 < hp_resolution p" "hp_metric p \<noteq> MandelShipAgree"
    "hc_field cancel \<or> (\<forall>t. \<not> hc_tile cancel t) \<and> (\<forall>r c i. \<not> hc_iteration cancel r c i)"
    "fis_finite (hp_height_clamp p)" "\<not> flt (hp_height_clamp p) (Fin 0)"
    "0 \<le> row" "row < hp_resolution p" "0 \<le> col" "col < hp_resolution p"
  shows "length field = nat (hp_resolution p * hp_resolution p)
    \<and> pixel_height Mth L p row col = Inr (field ! nat (row * hp_resolution p + col))
    \<and> fis_finite (field ! nat (row * hp_resolution p + col))
    \<and> \<not> flt (hp_height_clamp p) (field ! nat (row * hp_resolution p + col))"
proof -
  note f = fill_tiles_complete [OF field_pixels [OF assms(1-4)] assms(2)]
  from pixel_height_bounds [OF f(2) [OF assms(7-10)] assms(5,6)] f(1) f(2) [OF assms(7-10)] show ?thesis by simp
qed

definition flat_params :: hs_params where
  "flat_params = \<lparr>hp_center_re = Fin 0, hp_center_im = Fin 0, hp_scale = Fin 3, hp_resolution = 4, hp_iterations = 0,
     hp_bailout = Fin 2, hp_bailout_sq = Fin 4, hp_variant = Mandelbrot, hp_metric = Escape, hp_pairwise_cap = 64,
     hp_height_scale = Fin 1, hp_height_clamp = Fin 2, hp_orbit_program = None\<rparr>"

definition no_cancel :: hs_cancel where
  "no_cancel = \<lparr>hc_tile = (\<lambda>t. False), hc_iteration = (\<lambda>r c i. False), hc_field = False, hc_mesh = False\<rparr>"

lemma flat_pixel: "hs_pixel L flat_params V r c = Inr (Fin 1)" if "\<not> variant_is_transcendental V"
  using that by (simp add: hs_pixel_def flat_params_def iterate_masked_def iterate_quadratic_cached_masked_def hs_need_def
      iter_result_wants_def field_defs Let_def hs_raw_value_def finish_bounded_def root_extrema_def make_iter_result_def
      clamp_height_def flt_def fval_def fis_finite_def)

lemma flat_field: "\<exists>field. compute_hs_field Mth L flat_params no_cancel = Inr field"
proof -
  have "\<exists>field. write_pixels N (hs_pixel L flat_params Mandelbrot) ps f = Inr field" for N ps f
    by (rule write_pixels_total) (simp add: flat_pixel variant_is_transcendental_def)
  from this [of 4 "tile_order 4 (\<lambda>t. False)" "replicate 16 (Fin 0)"]
  obtain field where "fill_tiles 4 (\<lambda>t. False) (hs_pixel L flat_params Mandelbrot) = Inr field" by (auto simp: fill_tiles_def)
  moreover have "hp_resolution flat_params = 4" "hp_orbit_program flat_params = None" "hp_metric flat_params = Escape"
    "hp_variant flat_params = Mandelbrot" "hc_tile no_cancel = (\<lambda>t. False)" "\<not> hc_field no_cancel"
    by (simp_all add: flat_params_def no_cancel_def)
  ultimately show ?thesis by (simp add: compute_hs_field_def Let_def)
qed

theorem height_field_complete_witness:
  "\<forall>Mth L. \<exists>field. compute_hs_field Mth L flat_params no_cancel = Inr field \<and> length field = 16
     \<and> field ! 11 = Fin 1"
proof (intro allI)
  fix Mth L
  obtain field where f: "compute_hs_field Mth L flat_params no_cancel = Inr field" using flat_field by blast
  have p: "pixel_height Mth L flat_params 2 3 = Inr (Fin 1)"
    using flat_pixel [of Mandelbrot L 2 3] by (simp add: pixel_height_def variant_is_transcendental_def) (simp add: flat_params_def)
  show "\<exists>field. compute_hs_field Mth L flat_params no_cancel = Inr field \<and> length field = 16 \<and> field ! 11 = Fin 1"
    using height_field_complete [OF f, of 2 3] f p
    by (intro exI [of _ field]) (simp add: flat_params_def no_cancel_def fis_finite_def flt_def fval_def)
qed

text \<open>
  C19: The mesh of a height field has a vertex for every index, and its top surface has no gap: every side between
  two vertices of the top surface, the ones shared with a wall included, occurs as often in one direction as in
  the other.
\<close>
theorem height_mesh_joined:
  assumes "build_hs_mesh Mth L p cancel = Inr m" "n = nat (clamp_resolution (hp_resolution p))"
  shows "length (me_vertices m) = n * n + 4 * n + 4 \<and> length (me_indices m) = 6 * ((n - 1) * (n - 1)) + 24 * (n - 1) + 6
    \<and> set (me_indices m) \<subseteq> {..<length (me_vertices m)} \<and> length (me_vertices m) < 2 ^ 32
    \<and> (\<forall>U < n * n. \<forall>V < n * n. count_list (corner_sides (me_indices m)) (U, V) = count_list (corner_sides (me_indices m)) (V, U))"
proof -
  note r = build_result [OF assms]
  have "n * n \<le> 4096 * 4096" using r(4) by (intro mult_mono) simp_all
  moreover have "excess (corner_sides (hs_indices n)) (U, V) = 0" if "U < n * n" "V < n * n" for U V
    by (rule rim_closed) (use that r(3) in auto)
  then have "\<forall>U < n * n. \<forall>V < n * n. count_list (corner_sides (hs_indices n)) (U, V) = count_list (corner_sides (hs_indices n)) (V, U)"
    by (simp add: excess_def)
  moreover have "length (hs_indices n) = 6 * ((n - 1) * (n - 1)) + 24 * (n - 1) + 6" by (simp add: hs_indices_def index_lengths)
  ultimately show ?thesis using r hs_index_range [of n] by simp
qed

theorem height_mesh_joined_witness:
  "\<forall>Mth L. \<exists>m. build_hs_mesh Mth L flat_params no_cancel = Inr m \<and> length (me_vertices m) = 36 \<and> length (me_indices m) = 132"
proof (intro allI)
  fix Mth L
  obtain field where f: "compute_hs_field Mth L flat_params no_cancel = Inr field" using flat_field by blast
  have c: "clamp_resolution (hp_resolution flat_params) = 4" "flat_params\<lparr>hp_resolution := 4\<rparr> = flat_params"
    by (simp_all add: clamp_resolution_def flat_params_def)
  have "length field = 16" using f fill_tiles_complete(1) [OF field_pixels [OF f]] by (simp add: flat_params_def no_cancel_def)
  then obtain m where m: "build_hs_mesh Mth L flat_params no_cancel = Inr m"
    by (simp add: build_hs_mesh_def c f Let_def) (simp add: no_cancel_def)
  show "\<exists>m. build_hs_mesh Mth L flat_params no_cancel = Inr m \<and> length (me_vertices m) = 36 \<and> length (me_indices m) = 132"
    using height_mesh_joined [OF m refl] m by (intro exI [of _ m]) (simp add: c)
qed

text \<open>
  C35: The metric \<^verbatim>\<open>mandel_ship_agree\<close> has no height field: without an Orbit Program the mesh is built from an empty
  field, whose elements are read although they do not exist.
\<close>
theorem agree_mesh_undefined:
  "build_hs_mesh Mth L (p\<lparr>hp_metric := MandelShipAgree, hp_orbit_program := None\<rparr>) (cancel\<lparr>hc_field := False, hc_mesh := False\<rparr>)
    = Inl Undefined"
proof -
  have "0 < nat (clamp_resolution r) * nat (clamp_resolution r)" for r by (simp add: clamp_resolution_def)
  then show ?thesis by (simp add: build_hs_mesh_def compute_hs_field_def Let_def)
qed

text \<open>The foot of a wall is a line of its own, which no triangle of the bottom shares.\<close>

lemma wall_foot_open:
  "count_list (corner_sides (hs_indices 4)) (17, 16) = 1" "count_list (corner_sides (hs_indices 4)) (16, 17) = 0"
  by code_simp+

end
