(* ===== verification/MapParams.thy ===== *)
theory MapParams
  imports Variants EscapeTime "HOL-Library.Multiset"
begin

unbundle bit_operations_syntax

text \<open>
  The parameters of a map render (\<^verbatim>\<open>compute/map_kernel.hpp\<close>): the record, the names of scalar types and
  perturbation modes, the automatic precision ladder, and the coarse-to-fine order in which tiles are
  computed.
\<close>

section \<open>Parameters\<close>

text \<open>
  The fields that these functions and the engine selection read. The pointers are represented by whether
  they are set.
\<close>

record map_params =
  mp_center_re :: fl
  mp_center_im :: fl
  mp_scale :: fl
  mp_viewport_aspect :: fl
  mp_width :: int
  mp_height :: int
  mp_iterations :: int
  mp_variant :: variant
  mp_metric :: metric
  mp_smooth :: bool
  mp_julia :: bool
  mp_julia_re :: fl
  mp_julia_im :: fl
  mp_scalar_type :: string
  mp_engine :: string
  mp_custom_step_fn :: bool
  mp_orbit_program :: bool

definition default_map_params :: map_params where
  "default_map_params = \<lparr>mp_center_re = Fin (- 3 / 4), mp_center_im = Fin 0, mp_scale = Fin 3,
     mp_viewport_aspect = Fin 0, mp_width = 1024, mp_height = 768, mp_iterations = 1024,
     mp_variant = Mandelbrot, mp_metric = Escape, mp_smooth = False, mp_julia = False, mp_julia_re = Fin 0,
     mp_julia_im = Fin 0, mp_scalar_type = ''auto'', mp_engine = ''openmp'', mp_custom_step_fn = False,
     mp_orbit_program = False\<rparr>"

definition map_viewport_aspect :: "map_params \<Rightarrow> fl" where
  "map_viewport_aspect p =
    (if fis_finite (mp_viewport_aspect p) \<and> flt (Fin 0) (mp_viewport_aspect p) then mp_viewport_aspect p
     else if mp_width p > 0 \<and> mp_height p > 0
     then fdiv b64 (f_of_int b64 (mp_width p)) (f_of_int b64 (mp_height p)) else Fin 1)"

section \<open>Scalar types\<close>

definition map_scalar_type_is_fp32 :: "string \<Rightarrow> bool" where
  "map_scalar_type_is_fp32 s \<longleftrightarrow> s = ''fp32'' \<or> s = ''float32'' \<or> s = ''float''"

definition map_scalar_type_is_fp64 :: "string \<Rightarrow> bool" where
  "map_scalar_type_is_fp64 s \<longleftrightarrow> s = ''fp64'' \<or> s = ''double'' \<or> s = ''float64''"

definition map_scalar_type_is_fp80 :: "string \<Rightarrow> bool" where
  "map_scalar_type_is_fp80 s \<longleftrightarrow> s = ''fp80'' \<or> s = ''long_double'' \<or> s = ''longdouble'' \<or> s = ''ldouble''"

definition map_scalar_type_is_fp128 :: "string \<Rightarrow> bool" where
  "map_scalar_type_is_fp128 s \<longleftrightarrow>
    s = ''fp128'' \<or> s = ''float128'' \<or> s = ''__float128'' \<or> s = ''quad'' \<or> s = ''binary128''"

definition map_scalar_type_is_auto :: "string \<Rightarrow> bool" where
  "map_scalar_type_is_auto s \<longleftrightarrow> s = [] \<or> s = ''auto''"

datatype perturb_ref = RefAuto | RefFp64 | RefFp128 | RefMpfr
datatype perturb_delta = DeltaFp32 | DeltaFp64 | DeltaFp128

record perturb_mode =
  pm_requested :: bool
  pm_ref :: perturb_ref
  pm_delta :: perturb_delta

definition no_perturb :: perturb_mode where
  "no_perturb = \<lparr>pm_requested = False, pm_ref = RefAuto, pm_delta = DeltaFp64\<rparr>"

fun perturb_ref_of :: "string \<Rightarrow> perturb_ref option" where
  "perturb_ref_of s =
    (if s = ''auto'' then Some RefAuto else if s = ''fp64'' then Some RefFp64
     else if s = ''fp128'' then Some RefFp128 else if s = ''mpfr'' then Some RefMpfr else None)"

fun perturb_delta_of :: "string \<Rightarrow> perturb_delta option" where
  "perturb_delta_of s =
    (if s = ''fp32'' then Some DeltaFp32 else if s = ''fp64'' then Some DeltaFp64
     else if s = ''fp128'' then Some DeltaFp128 else None)"

definition map_scalar_perturb_mode :: "string \<Rightarrow> perturb_mode" where
  "map_scalar_perturb_mode scalar =
    (if scalar = ''perturbation'' \<or> scalar = ''perturb'' then no_perturb\<lparr>pm_requested := True\<rparr>
     else let s = map (\<lambda>c. if c = CHR ''_'' then CHR ''-'' else c) scalar in
       if \<not> starts_with ''perturb-'' s then no_perturb
       else let body = drop 8 s in
         case str_find (CHR ''-'') body of
           None \<Rightarrow> no_perturb
         | Some dash \<Rightarrow>
             (case perturb_ref_of (take dash body) of
                None \<Rightarrow> no_perturb
              | Some r \<Rightarrow>
                  (case perturb_delta_of (drop (dash + 1) body) of
                     None \<Rightarrow> no_perturb\<lparr>pm_ref := r\<rparr>
                   | Some d \<Rightarrow> \<lparr>pm_requested = True, pm_ref = r, pm_delta = d\<rparr>)))"

definition map_pixel_step :: "map_params \<Rightarrow> fl" where
  "map_pixel_step p =
    (if \<not> flt (Fin 0) (mp_scale p) \<or> mp_height p \<le> 0 \<or> \<not> fis_finite (mp_scale p) then Fin 0
     else fdiv b64 (mp_scale p) (f_of_int b64 (mp_height p)))"

definition map_auto_fp32_is_adequate :: "map_params \<Rightarrow> bool" where
  "map_auto_fp32_is_adequate p =
    (let step = map_pixel_step p in
     if \<not> flt (Fin 0) step then False
     else let m = fmax (fmax (Fin 1) (fabs (mp_center_re p))) (fabs (mp_center_im p));
              m = (if mp_julia p then fmax (fmax m (fabs (mp_julia_re p))) (fabs (mp_julia_im p)) else m)
          in fle (fmul b64 (Fin 2) (fldexp b64 m (- 23))) step)"

text \<open>\<open>f128\<close> tells whether the build has \<^verbatim>\<open>__float128\<close>; decimal literals round to double.\<close>

definition map_effective_scalar_type :: "bool \<Rightarrow> map_params \<Rightarrow> string" where
  "map_effective_scalar_type f128 p =
    (let s = mp_scalar_type p in
     if map_scalar_type_is_fp32 s then ''fp32''
     else if map_scalar_type_is_fp64 s then ''fp64''
     else if map_scalar_type_is_fp80 s then ''fp80''
     else if map_scalar_type_is_fp128 s then ''fp128''
     else if \<not> map_scalar_type_is_auto s \<and> \<not> pm_requested (map_scalar_perturb_mode s) then s
     else if map_auto_fp32_is_adequate p then ''fp32''
     else if fle (rnd b64 (1 / 10 ^ 13)) (mp_scale p) then ''fp64''
     else if fle (rnd b64 (5 / 10 ^ 14)) (mp_scale p) then ''fx64''
     else if fle (rnd b64 (1 / 10 ^ 15)) (mp_scale p) then ''fp80''
     else if f128 then ''fp128'' else ''fp80'')"

section \<open>Progressive order\<close>

definition map_progressive_reverse_bits :: "32 word \<Rightarrow> nat \<Rightarrow> 32 word" where
  "map_progressive_reverse_bits value bits =
    fold (\<lambda>bit reversed. push_bit 1 reversed OR (drop_bit bit value AND 1)) [0..<bits] 0"

definition map_progressive_work_rank :: "32 word \<Rightarrow> 32 word \<Rightarrow> nat \<Rightarrow> 64 word" where
  "map_progressive_work_rank x y bits =
    (let rx = map_progressive_reverse_bits x bits; ry = map_progressive_reverse_bits y bits in
     fold (\<lambda>bit rank. rank OR push_bit (2 * bit) (ucast (drop_bit bit rx AND 1))
         OR push_bit (2 * bit + 1) (ucast (drop_bit bit ry AND 1))) [0..<bits] 0)"

text \<open>\<^verbatim>\<open>while ((1u << bits) < extent) ++bits\<close>; an extent is an \<^verbatim>\<open>int\<close>, so 31 steps are enough.\<close>

fun rank_bits :: "nat \<Rightarrow> nat \<Rightarrow> nat \<Rightarrow> nat" where
  "rank_bits 0 extent bits = bits"
| "rank_bits (Suc fuel) extent bits = (if 2 ^ bits < extent then rank_bits fuel extent (bits + 1) else bits)"

text \<open>
  The ranks are pairwise different (below), so the order that \<^verbatim>\<open>std::sort\<close> leaves open does not matter;
  products are those of tile counts, whose size the caller bounds by the image.
\<close>

definition map_field_progressive_order :: "int \<Rightarrow> int \<Rightarrow> bool \<Rightarrow> nat list" where
  "map_field_progressive_order columns rows progressive =
    (if columns \<le> 0 \<or> rows \<le> 0 then []
     else let cols = nat columns; rs = nat rows in
       if \<not> progressive then [0..<cols * rs]
       else let bits = rank_bits 31 (max cols rs) 0;
                ranked = concat (map (\<lambda>y. map (\<lambda>x.
                  (map_progressive_work_rank (word_of_nat x) (word_of_nat y) bits, y * cols + x)) [0..<cols]) [0..<rs])
            in map snd (sort_key fst ranked))"

subsection \<open>Bits of ranks\<close>

lemma bit_shift_in:
  fixes r v :: "32 word"
  assumes "n < 32"
  shows "bit (push_bit 1 r OR (drop_bit b v AND 1)) n \<longleftrightarrow> (1 \<le> n \<and> bit r (n - 1)) \<or> (n = 0 \<and> bit v b)"
  using assms by (simp only: bit_or_iff bit_push_bit_iff bit_and_iff bit_drop_bit_eq o_apply bit_1_iff
      possible_bit_word) auto

lemma bit_interleave:
  fixes w :: "32 word"
  assumes "n < 64" and "k < 64"
  shows "bit (push_bit k (ucast (drop_bit b w AND 1) :: 64 word)) n \<longleftrightarrow> n = k \<and> bit w b"
  using assms by (simp only: bit_or_iff bit_push_bit_iff bit_and_iff bit_drop_bit_eq o_apply bit_1_iff
      bit_ucast_iff possible_bit_word) auto

lemma bit_reverse:
  "b \<le> 32 \<Longrightarrow> n < 32 \<Longrightarrow> bit (map_progressive_reverse_bits v b) n \<longleftrightarrow> n < b \<and> bit v (b - 1 - n)"
proof (induction b arbitrary: n)
  case 0
  then show ?case by (simp add: map_progressive_reverse_bits_def)
next
  case (Suc b)
  have e: "map_progressive_reverse_bits v (Suc b)
      = push_bit 1 (map_progressive_reverse_bits v b) OR (drop_bit b v AND 1)"
    by (simp only: map_progressive_reverse_bits_def upt_Suc_append fold_append fold_simps o_apply le0)
  show ?case
    unfolding e bit_shift_in [OF Suc.prems(2)] using Suc.IH [of "n - 1"] Suc.prems by (cases n) auto
qed

lemma bit_rank_fold:
  fixes rx ry :: "32 word"
  assumes "b \<le> 32" and "n < 64"
  shows "bit (fold (\<lambda>k rank. rank OR push_bit (2 * k) (ucast (drop_bit k rx AND 1))
         OR push_bit (2 * k + 1) (ucast (drop_bit k ry AND 1))) [0..<b] (0 :: 64 word)) n
    \<longleftrightarrow> n div 2 < b \<and> (if even n then bit rx (n div 2) else bit ry (n div 2))"
  (is "bit (fold ?f [0..<b] 0) n \<longleftrightarrow> ?R b")
  using assms(1)
proof (induction b)
  case (Suc b)
  have k: "2 * b < 64" "2 * b + 1 < 64" using Suc.prems by simp_all
  have "fold ?f [0..<Suc b] 0 = ?f b (fold ?f [0..<b] 0)"
    by (simp only: upt_Suc_append fold_append fold_simps o_apply le0)
  then have "bit (fold ?f [0..<Suc b] 0) n \<longleftrightarrow> ?R b \<or> (n = 2 * b \<and> bit rx b) \<or> (n = 2 * b + 1 \<and> bit ry b)"
    using Suc bit_interleave [OF assms(2) k(1), of b rx] bit_interleave [OF assms(2) k(2), of b ry]
    by (simp only: bit_or_iff)
  also have "\<dots> \<longleftrightarrow> ?R (Suc b)"
    by (cases "n div 2 = b") (auto elim!: evenE oddE simp: less_Suc_eq)
  finally show ?case .
qed simp

lemma bit_rank:
  assumes "b \<le> 32" and "n < 64"
  shows "bit (map_progressive_work_rank x y b) n \<longleftrightarrow>
    n div 2 < b \<and> (if even n then bit x (b - 1 - n div 2) else bit y (b - 1 - n div 2))"
proof -
  have "n div 2 < 32" using assms(2) by simp
  with assms show ?thesis
    by (auto simp: map_progressive_work_rank_def Let_def bit_rank_fold bit_reverse simp del: One_nat_def)
qed

lemma rank_inj:
  assumes "b \<le> 32" and "unat x < 2 ^ b" "unat y < 2 ^ b" "unat x' < 2 ^ b" "unat y' < 2 ^ b"
    and "map_progressive_work_rank x y b = map_progressive_work_rank x' y' b"
  shows "x = x' \<and> y = y'"
proof -
  have hi: "\<not> bit w n" if "unat w < 2 ^ b" "b \<le> n" for w :: "32 word" and n
  proof
    assume "bit w n"
    then have "odd (unat w div 2 ^ n)" by (simp add: bit_unsigned_iff bit_iff_odd [symmetric] bit_imp_le_length)
    then have "2 ^ n \<le> unat w" by (metis div_less even_zero not_less)
    with that(1) power_increasing [OF that(2), of "2::nat"] show False by linarith
  qed
  have lo: "bit x n = bit x' n \<and> bit y n = bit y' n" if "n < b" for n
  proof -
    have n: "2 * (b - 1 - n) < 64" "2 * (b - 1 - n) + 1 < 64" using that assms(1) by simp_all
    have "b - 1 - (b - 1 - n) = n" "b - 1 - n < b" using that by simp_all
    with bit_rank [OF assms(1) n(1), of x y] bit_rank [OF assms(1) n(1), of x' y']
      bit_rank [OF assms(1) n(2), of x y] bit_rank [OF assms(1) n(2), of x' y'] assms(6)
    show ?thesis by simp
  qed
  show ?thesis
    by (auto intro!: bit_word_eqI) (metis hi lo assms(2-5) not_less)+
qed

lemma rank_bits_spec:
  "extent \<le> 2 ^ (bits + fuel) \<Longrightarrow> extent \<le> 2 ^ rank_bits fuel extent bits \<and> rank_bits fuel extent bits \<le> bits + fuel"
  by (induction fuel extent bits rule: rank_bits.induct) auto

section \<open>The order is a permutation, coarse to fine\<close>

definition ranked_cells :: "nat \<Rightarrow> nat \<Rightarrow> nat \<Rightarrow> (64 word \<times> nat) list" where
  "ranked_cells cols rs bits = concat (map (\<lambda>y. map (\<lambda>x.
     (map_progressive_work_rank (word_of_nat x) (word_of_nat y) bits, y * cols + x)) [0..<cols]) [0..<rs])"

lemma rows_are_upt: "concat (map (\<lambda>y. map (\<lambda>x. y * cols + x) [0..<cols]) [0..<rs]) = [0..<cols * rs]"
proof (induction rs)
  case (Suc rs)
  have "map (\<lambda>x. rs * cols + x) [0..<cols] = [rs * cols..<rs * cols + cols]"
    using map_add_upt [of "rs * cols" cols] by (simp add: add.commute)
  moreover have "[0..<cols * Suc rs] = [0..<cols * rs] @ [rs * cols..<rs * cols + cols]"
    using upt_add_eq_append [of 0 "cols * rs" cols] by (simp add: mult.commute add.commute)
  ultimately show ?case using Suc by simp
qed simp

lemma ranked_cells_indices: "map snd (ranked_cells cols rs bits) = [0..<cols * rs]"
  by (simp add: ranked_cells_def map_concat o_def rows_are_upt)

lemma progressive_order_perm:
  "mset (map_field_progressive_order columns rows progressive) = mset [0..<nat columns * nat rows]"
proof -
  have "mset (map snd (sort_key fst (ranked_cells c r b))) = mset [0..<c * r]" for c r b
    by (simp flip: ranked_cells_indices [of c r b] add: mset_map)
  then show ?thesis by (simp add: map_field_progressive_order_def Let_def flip: ranked_cells_def)
qed

lemma low_bits_clear: "(\<forall>n<m. \<not> bit (u :: nat) n) \<longleftrightarrow> take_bit m u = 0"
proof
  assume "\<forall>n<m. \<not> bit u n"
  then show "take_bit m u = 0" by (intro bit_eqI) (simp add: bit_take_bit_iff)
next
  assume "take_bit m u = 0"
  then show "\<forall>n<m. \<not> bit u n" by (metis bit_0_eq bit_take_bit_iff bot_apply bot_bool_def)
qed

lemma high_bits_clear: "(u :: nat) < 2 ^ m \<longleftrightarrow> (\<forall>n\<ge>m. \<not> bit u n)"
proof
  assume "u < 2 ^ m"
  then have "take_bit m u = u" by (simp add: take_bit_nat_eq_self_iff)
  then show "\<forall>n\<ge>m. \<not> bit u n" by (metis bit_take_bit_iff linorder_not_less)
next
  assume a: "\<forall>n\<ge>m. \<not> bit u n"
  have "take_bit m u = u"
    by (rule bit_eqI) (use a in \<open>auto simp: bit_take_bit_iff not_le [symmetric]\<close>)
  then show "u < 2 ^ m" by (simp add: take_bit_nat_eq_self_iff)
qed

lemma bit_unat: "bit (unat w) n \<longleftrightarrow> bit w n"
  by (auto simp: bit_unsigned_iff bit_imp_possible_bit)

lemma low_bits_dvd: "(\<forall>n<m. \<not> bit w n) \<longleftrightarrow> 2 ^ m dvd unat w"
  using low_bits_clear [of m "unat w"] by (simp add: bit_unat take_bit_eq_0_iff)

lemma rank_below_iff:
  assumes "b \<le> 32" and "k \<le> b"
  shows "unat (map_progressive_work_rank x y b) < 4 ^ k \<longleftrightarrow> 2 ^ (b - k) dvd unat x \<and> 2 ^ (b - k) dvd unat y"
proof -
  let ?r = "map_progressive_work_rank x y b"
  have "unat ?r < 4 ^ k \<longleftrightarrow> (\<forall>n\<ge>2 * k. \<not> bit ?r n)"
    using high_bits_clear [of "unat ?r" "2 * k"] by (simp add: bit_unat power_mult)
  also have "\<dots> \<longleftrightarrow> (\<forall>i<b - k. \<not> bit x i \<and> \<not> bit y i)"
  proof
    assume h: "\<forall>n\<ge>2 * k. \<not> bit ?r n"
    show "\<forall>i<b - k. \<not> bit x i \<and> \<not> bit y i"
    proof (intro allI impI)
      fix i assume "i < b - k"
      then have j: "k \<le> b - 1 - i" "b - 1 - i < b" "b - 1 - (b - 1 - i) = i" "b - 1 - i < 32" using assms by auto
      then have "\<not> bit ?r (2 * (b - 1 - i))" "\<not> bit ?r (2 * (b - 1 - i) + 1)" using h by simp_all
      moreover have n: "2 * (b - 1 - i) < 64" "2 * (b - 1 - i) + 1 < 64" using j(4) by simp_all
      ultimately show "\<not> bit x i \<and> \<not> bit y i"
        using bit_rank [OF assms(1) n(1), of x y] bit_rank [OF assms(1) n(2), of x y] j by simp
    qed
  next
    assume h: "\<forall>i<b - k. \<not> bit x i \<and> \<not> bit y i"
    show "\<forall>n\<ge>2 * k. \<not> bit ?r n"
    proof (intro allI impI notI)
      fix n assume n: "2 * k \<le> n" "bit ?r n"
      then have "n < 64" by (auto dest: bit_imp_le_length)
      with n bit_rank [OF assms(1), of n x y] have "n div 2 < b" "bit x (b - 1 - n div 2) \<or> bit y (b - 1 - n div 2)"
        by (auto split: if_splits)
      moreover have "b - 1 - n div 2 < b - k" using n(1) \<open>n div 2 < b\<close> by linarith
      ultimately show False using h by blast
    qed
  qed
  also have "\<dots> \<longleftrightarrow> 2 ^ (b - k) dvd unat x \<and> 2 ^ (b - k) dvd unat y"
    by (simp only: low_bits_dvd [symmetric]) blast
  finally show ?thesis .
qed

lemma map_progressive_bits: "0 < extent \<Longrightarrow> extent \<le> 2 ^ 31 \<Longrightarrow> extent \<le> 2 ^ rank_bits 31 extent 0 \<and> rank_bits 31 extent 0 \<le> 31"
  using rank_bits_spec [of extent 0 31] by simp

section \<open>Properties\<close>

text \<open>
  the progressive order computes every tile exactly once, whatever the grid, and so does the plain order.
\<close>

theorem progressive_order_complete:
  "mset (map_field_progressive_order columns rows progressive) = mset [0..<nat columns * nat rows]"
  by (rule progressive_order_perm)

text \<open>
  coarse to fine. On a grid of at most 2^b rows and columns the ranks of different tiles differ, so the
  order is determined, and the tiles of the first 4^k ranks are exactly those on the lattice of step
  2^(b - k) in both directions.
\<close>

theorem progressive_coarse_to_fine:
  assumes "b \<le> 32" and "k \<le> b" and "unat x < 2 ^ b" and "unat y < 2 ^ b"
  shows "(unat (map_progressive_work_rank x y b) < 4 ^ k \<longleftrightarrow> 2 ^ (b - k) dvd unat x \<and> 2 ^ (b - k) dvd unat y)
    \<and> (\<forall>x' y'. unat x' < 2 ^ b \<longrightarrow> unat y' < 2 ^ b \<longrightarrow>
        map_progressive_work_rank x' y' b = map_progressive_work_rank x y b \<longrightarrow> x' = x \<and> y' = y)"
  using rank_below_iff [OF assms(1,2)] rank_inj [OF assms(1)] assms(3,4) by blast

theorem progressive_coarse_to_fine_witness:
  "unat (map_progressive_work_rank 2 0 2) < 4 ^ 1"
  using progressive_coarse_to_fine [of 2 1 2 0] by simp

end
