(* ===== verification/EngineSelect.thy ===== *)
theory EngineSelect
  imports MapParams
begin

text \<open>
  Choice of the compute engine (\<^verbatim>\<open>compute/engine_select.cpp\<close>, \<^verbatim>\<open>compute/cpu_features.cpp\<close>): what the
  processor and the build offer, the cache of benchmark samples, the cost predicted from them, and the
  selection, which never returns an engine that cannot run the request.
\<close>

section \<open>Processor features\<close>

text \<open>
  \<^verbatim>\<open>ma_cpuid leaf subleaf\<close> is the instruction's answer (eax, ebx, ecx, edx), none for an unsupported leaf;
  \<^verbatim>\<open>ma_x86\<close> and the fields after it are how the program is built; the rest is what OpenMP, CUDA and the
  thread library report.
\<close>

record cuda_info =
  cu_available :: bool
  cu_device_count :: int
  cu_major :: int
  cu_minor :: int
  cu_total :: nat
  cu_free :: nat
  cu_name :: string

record machine =
  ma_cpuid :: "nat \<Rightarrow> nat \<Rightarrow> (32 word \<times> 32 word \<times> 32 word \<times> 32 word) option"
  ma_xcr0 :: "64 word"
  ma_x86 :: bool
  ma_avx2_kernel :: bool
  ma_avx512_kernel :: bool
  ma_float128 :: bool
  ma_omp_max_threads :: "int option"
  ma_cuda :: "cuda_info option"
  ma_concurrency :: int

definition os_avx_state_available :: "machine \<Rightarrow> bool" where
  "os_avx_state_available m =
    (case ma_cpuid m 1 0 of
       None \<Rightarrow> False
     | Some (eax, ebx, ecx, edx) \<Rightarrow>
         bit ecx 26 \<and> bit ecx 27 \<and> bit ecx 28 \<and> ma_xcr0 m AND 0x6 = 0x6)"

definition avx2_available :: "machine \<Rightarrow> bool" where
  "avx2_available m =
    (ma_x86 m \<and> os_avx_state_available m \<and>
     (case ma_cpuid m 7 0 of None \<Rightarrow> False | Some (eax, ebx, ecx, edx) \<Rightarrow> bit ebx 5))"

definition fma_available :: "machine \<Rightarrow> bool" where
  "fma_available m =
    (ma_x86 m \<and> os_avx_state_available m \<and>
     (case ma_cpuid m 1 0 of None \<Rightarrow> False | Some (eax, ebx, ecx, edx) \<Rightarrow> bit ecx 12))"

definition bmi2_available :: "machine \<Rightarrow> bool" where
  "bmi2_available m =
    (ma_x86 m \<and> (case ma_cpuid m 7 0 of None \<Rightarrow> False | Some (eax, ebx, ecx, edx) \<Rightarrow> bit ebx 8))"

definition avx512_os_state_available :: "machine \<Rightarrow> bool" where
  "avx512_os_state_available m = (ma_x86 m \<and> os_avx_state_available m \<and> ma_xcr0 m AND 0xE6 = 0xE6)"

definition avx512_available :: "machine \<Rightarrow> bool" where
  "avx512_available m =
    (ma_avx512_kernel m \<and> ma_x86 m \<and> avx512_os_state_available m \<and>
     (case ma_cpuid m 7 0 of None \<Rightarrow> False | Some (eax, ebx, ecx, edx) \<Rightarrow> bit ebx 16 \<and> bit ebx 17))"

definition avx512ifma_available :: "machine \<Rightarrow> bool" where
  "avx512ifma_available m =
    (ma_avx512_kernel m \<and> ma_x86 m \<and>
     (case ma_cpuid m 7 0 of None \<Rightarrow> False | Some (eax, ebx, ecx, edx) \<Rightarrow> bit ebx 21))"

section \<open>Capabilities\<close>

record capabilities =
  rc_openmp_compiled :: bool
  rc_openmp_runtime :: bool
  rc_avx2_compiled :: bool
  rc_avx2_runtime :: bool
  rc_fma_runtime :: bool
  rc_bmi2_runtime :: bool
  rc_avx512_compiled :: bool
  rc_avx512_runtime :: bool
  rc_avx512ifma_runtime :: bool
  rc_cuda_compiled :: bool
  rc_cuda_runtime :: bool
  rc_cuda_low_end :: bool
  rc_cuda_device_count :: int
  rc_cuda_compute_major :: int
  rc_cuda_compute_minor :: int
  rc_cuda_total_vram :: nat
  rc_cuda_free_vram :: nat
  rc_cuda_name :: string
  rc_logical_cores :: int
  rc_physical_cores :: int

definition physical_core_guess :: "int \<Rightarrow> int" where
  "physical_core_guess logical = max 1 (tdiv logical 2)"

definition is_low_end_cuda_device :: "int \<Rightarrow> nat \<Rightarrow> bool" where
  "is_low_end_cuda_device major vram \<longleftrightarrow> (major > 0 \<and> major \<le> 6) \<or> (vram > 0 \<and> vram \<le> 4 * 1024 * 1024 * 1024)"

definition runtime_capabilities :: "machine \<Rightarrow> capabilities" where
  "runtime_capabilities m =
    (let logical = max 1 (ma_concurrency m);
         c = \<lparr>rc_openmp_compiled = (ma_omp_max_threads m \<noteq> None),
           rc_openmp_runtime = (case ma_omp_max_threads m of Some n \<Rightarrow> n > 0 | None \<Rightarrow> True),
           rc_avx2_compiled = ma_avx2_kernel m, rc_avx2_runtime = avx2_available m,
           rc_fma_runtime = fma_available m, rc_bmi2_runtime = bmi2_available m,
           rc_avx512_compiled = ma_avx512_kernel m, rc_avx512_runtime = avx512_available m,
           rc_avx512ifma_runtime = avx512ifma_available m, rc_cuda_compiled = False, rc_cuda_runtime = False,
           rc_cuda_low_end = False, rc_cuda_device_count = 0, rc_cuda_compute_major = 0,
           rc_cuda_compute_minor = 0, rc_cuda_total_vram = 0, rc_cuda_free_vram = 0, rc_cuda_name = [],
           rc_logical_cores = logical, rc_physical_cores = physical_core_guess logical\<rparr>
     in case ma_cuda m of
          None \<Rightarrow> c
        | Some g \<Rightarrow> c\<lparr>rc_cuda_compiled := True, rc_cuda_runtime := cu_available g,
            rc_cuda_device_count := cu_device_count g, rc_cuda_compute_major := cu_major g,
            rc_cuda_compute_minor := cu_minor g, rc_cuda_total_vram := cu_total g,
            rc_cuda_free_vram := cu_free g, rc_cuda_name := cu_name g,
            rc_cuda_low_end := is_low_end_cuda_device (cu_major g) (cu_total g)\<rparr>)"

section \<open>The benchmark cache\<close>

record benchmark_entry =
  be_engine :: string
  be_scalar :: string
  be_mpix_per_sec :: fl
  be_available :: bool
  be_family :: string
  be_workload :: string
  be_work_units :: fl
  be_elapsed_ms :: fl
  be_sample_count :: int

definition same_benchmark_slot :: "benchmark_entry \<Rightarrow> benchmark_entry \<Rightarrow> bool" where
  "same_benchmark_slot a b \<longleftrightarrow> be_family a = be_family b \<and> be_workload a = be_workload b
    \<and> be_engine a = be_engine b \<and> be_scalar a = be_scalar b \<and> feq (be_work_units a) (be_work_units b)"

text \<open>The cache is the global \<^verbatim>\<open>g_bench_entries\<close>; every operation holds its mutex.\<close>

definition replace_benchmark_cache :: "benchmark_entry list \<Rightarrow> benchmark_entry list \<Rightarrow> benchmark_entry list" where
  "replace_benchmark_cache entries cache = entries"

definition update_benchmark_cache :: "benchmark_entry list \<Rightarrow> benchmark_entry list \<Rightarrow> benchmark_entry list" where
  "update_benchmark_cache entries cache = replace_benchmark_cache entries cache"

fun merge_entry :: "benchmark_entry \<Rightarrow> benchmark_entry list \<Rightarrow> benchmark_entry list" where
  "merge_entry incoming [] = [incoming]"
| "merge_entry incoming (current # cache) =
    (if same_benchmark_slot current incoming then incoming # cache else current # merge_entry incoming cache)"

definition merge_benchmark_cache :: "benchmark_entry list \<Rightarrow> benchmark_entry list \<Rightarrow> benchmark_entry list" where
  "merge_benchmark_cache entries cache = fold merge_entry entries cache"

definition clear_benchmark_cache :: "benchmark_entry list \<Rightarrow> benchmark_entry list" where
  "clear_benchmark_cache cache = []"

definition has_benchmark_cache :: "benchmark_entry list \<Rightarrow> bool" where
  "has_benchmark_cache cache = list_ex be_available cache"

section \<open>Predicted cost\<close>

record cost_point =
  cp_work :: fl
  cp_elapsed :: fl
  cp_count :: int

definition min_cost :: fl where "min_cost = rnd b64 (1 / 1000)"

definition interpolate_cost :: "cost_point \<Rightarrow> cost_point \<Rightarrow> fl \<Rightarrow> fl" where
  "interpolate_cost a b target =
    (let width = fsub b64 (cp_work b) (cp_work a) in
     if \<not> flt (Fin 0) width then fmax min_cost (cp_elapsed a)
     else let slope = fmax (Fin 0) (fdiv b64 (fsub b64 (cp_elapsed b) (cp_elapsed a)) width);
              predicted = fadd b64 (cp_elapsed a) (fmul b64 (fsub b64 target (cp_work a)) slope)
          in fmax min_cost predicted)"

definition positive_finite :: "fl \<Rightarrow> bool" where
  "positive_finite x \<longleftrightarrow> fis_finite x \<and> flt (Fin 0) x"

definition relevant_entries :: "string \<Rightarrow> string \<Rightarrow> string \<Rightarrow> benchmark_entry list \<Rightarrow> benchmark_entry list" where
  "relevant_entries family scalar engine entries =
    filter (\<lambda>e. be_available e \<and> be_family e = family \<and> be_scalar e = scalar \<and> be_engine e = engine) entries"

definition raw_points :: "benchmark_entry list \<Rightarrow> cost_point list" where
  "raw_points entries =
    map (\<lambda>e. \<lparr>cp_work = be_work_units e, cp_elapsed = be_elapsed_ms e, cp_count = max 1 (be_sample_count e)\<rparr>)
      (filter (\<lambda>e. positive_finite (be_work_units e) \<and> positive_finite (be_elapsed_ms e)) entries)"

definition legacy_speed :: "benchmark_entry list \<Rightarrow> fl" where
  "legacy_speed entries =
    fold (\<lambda>e speed. if positive_finite (be_mpix_per_sec e) then fmax speed (be_mpix_per_sec e) else speed)
      entries (Fin 0)"

text \<open>Repeated points are merged, weighted by their sample counts; the last point is kept apart.\<close>

fun coalesce :: "cost_point \<Rightarrow> cost_point list \<Rightarrow> cost_point list" where
  "coalesce last_point [] = [last_point]"
| "coalesce last_point (point # points) =
    (if \<not> feq (cp_work last_point) (cp_work point) then last_point # coalesce point points
     else let samples = cp_count last_point + cp_count point in
       coalesce \<lparr>cp_work = cp_work last_point,
         cp_elapsed = fdiv b64 (fadd b64 (fmul b64 (cp_elapsed last_point) (f_of_int b64 (cp_count last_point)))
           (fmul b64 (cp_elapsed point) (f_of_int b64 (cp_count point)))) (f_of_int b64 samples),
         cp_count = samples\<rparr> points)"

fun find_segment :: "cost_point list \<Rightarrow> fl \<Rightarrow> fl" where
  "find_segment (a # b # points) target =
    (if fle target (cp_work b) \<or> points = [] then interpolate_cost a b target
     else find_segment (b # points) target)"
| "find_segment _ target = Fin 0"

text \<open>
  \<^verbatim>\<open>std::sort\<close> leaves the order of points with the same work open: \<open>srt\<close> is what it does.
\<close>

definition sorts_points :: "(cost_point list \<Rightarrow> cost_point list) \<Rightarrow> bool" where
  "sorts_points srt \<longleftrightarrow> (\<forall>xs. mset (srt xs) = mset xs \<and>
     ((\<forall>p\<in>set xs. cp_work p \<noteq> NaN) \<longrightarrow> sorted_wrt (\<lambda>a b. \<not> flt (cp_work b) (cp_work a)) (srt xs)))"

fun insert_point :: "cost_point \<Rightarrow> cost_point list \<Rightarrow> cost_point list" where
  "insert_point p [] = [p]"
| "insert_point p (q # qs) = (if flt (cp_work q) (cp_work p) then q # insert_point p qs else p # q # qs)"

definition insertion_sort :: "cost_point list \<Rightarrow> cost_point list" where
  "insertion_sort xs = foldr insert_point xs []"

lemma mset_insert_point: "mset (insert_point p qs) = add_mset p (mset qs)"
  by (induction qs) auto

lemma insert_point_sorted:
  assumes "sorted_wrt (\<lambda>a b. \<not> flt (cp_work b) (cp_work a)) qs" "cp_work p \<noteq> NaN" "\<forall>q\<in>set qs. cp_work q \<noteq> NaN"
  shows "sorted_wrt (\<lambda>a b. \<not> flt (cp_work b) (cp_work a)) (insert_point p qs)"
  using assms
proof (induction qs)
  case (Cons q qs)
  have s: "set (insert_point p qs) = insert p (set qs)"
    using mset_insert_point [of p qs] by (metis set_mset_add_mset_insert set_mset_mset)
  show ?case
  proof (cases "flt (cp_work q) (cp_work p)")
    case True
    then show ?thesis using Cons flt_not_sym [OF True] by (auto simp: s)
  next
    case False
    then show ?thesis using Cons.prems not_flt_trans [of "cp_work q" "cp_work p"] by auto
  qed
qed simp

lemma insertion_sort_sorts: "sorts_points insertion_sort"
proof -
  have m: "mset (insertion_sort xs) = mset xs" for xs
    by (induction xs) (auto simp: insertion_sort_def mset_insert_point)
  have "(\<forall>p\<in>set xs. cp_work p \<noteq> NaN) \<longrightarrow> sorted_wrt (\<lambda>a b. \<not> flt (cp_work b) (cp_work a)) (insertion_sort xs)" for xs
  proof (induction xs)
    case (Cons x xs)
    have "set (insertion_sort xs) = set xs" using m by (metis set_mset_mset)
    then show ?case using Cons by (auto simp: insertion_sort_def intro!: insert_point_sorted)
  qed (simp add: insertion_sort_def)
  then show ?thesis using m by (simp add: sorts_points_def)
qed

definition predict_profiled_elapsed_ms ::
    "(cost_point list \<Rightarrow> cost_point list) \<Rightarrow> benchmark_entry list \<Rightarrow> string \<Rightarrow> string \<Rightarrow> string \<Rightarrow> fl \<Rightarrow> fl option" where
  "predict_profiled_elapsed_ms srt entries family scalar engine work_units =
    (let es = relevant_entries family scalar engine entries in
     case srt (raw_points es) of
       p # ps \<Rightarrow>
         (let target = fmax (Fin 0) work_units in
          case coalesce p ps of
            [only] \<Rightarrow>
              if \<not> flt (Fin 0) target then Some (cp_elapsed only)
              else Some (fmax min_cost (fdiv b64 (fmul b64 (cp_elapsed only) target) (cp_work only)))
          | points \<Rightarrow> Some (find_segment points target))
     | [] \<Rightarrow>
         if flt (Fin 0) (legacy_speed es)
         then Some (fdiv b64 (fmax (Fin 1) work_units) (legacy_speed es)) else None)"

section \<open>Selection\<close>

fun select_best ::
    "(string \<Rightarrow> fl option) \<Rightarrow> string list \<Rightarrow> string \<Rightarrow> fl \<Rightarrow> string" where
  "select_best predict [] best best_ms = best"
| "select_best predict (engine # engines) best best_ms =
    (case predict engine of
       None \<Rightarrow> select_best predict engines best best_ms
     | Some c \<Rightarrow>
         if fis_finite c \<and> flt c best_ms then select_best predict engines engine c
         else select_best predict engines best best_ms)"

definition select_profiled_engine ::
    "(cost_point list \<Rightarrow> cost_point list) \<Rightarrow> benchmark_entry list \<Rightarrow> string \<Rightarrow> string \<Rightarrow> fl \<Rightarrow> string list \<Rightarrow> string \<Rightarrow> string" where
  "select_profiled_engine srt entries family scalar work_units candidates fallback_engine =
    (let best = select_best (\<lambda>e. predict_profiled_elapsed_ms srt entries family scalar e work_units) candidates [] PosInf
     in if best = [] then fallback_engine else best)"

definition is_small_interactive_map :: "map_params \<Rightarrow> bool" where
  "is_small_interactive_map p =
    (let pixels = mp_width p * mp_height p; work = pixels * max 1 (mp_iterations p)
     in pixels < 900000 \<or> work < 600000000)"

definition map_work_is_large :: "map_params \<Rightarrow> bool" where
  "map_work_is_large p = (\<not> is_small_interactive_map p)"

definition is_cuda_metric_supported :: "metric \<Rightarrow> bool" where
  "is_cuda_metric_supported k \<longleftrightarrow> metric_id k \<ge> 0 \<and> metric_id k < 4"

definition is_vector_metric_supported :: "metric \<Rightarrow> bool" where
  "is_vector_metric_supported k \<longleftrightarrow> metric_id k \<ge> 0 \<and> metric_id k < 4"

definition canonical_map_profile_scalar :: "bool \<Rightarrow> map_params \<Rightarrow> bool \<Rightarrow> string" where
  "canonical_map_profile_scalar f128 p fx =
    (if fx then ''fx64''
     else let scalar = map_effective_scalar_type f128 p in
       if scalar = ''fp32'' then ''fp32''
       else if map_scalar_type_is_fp80 scalar then ''fp80''
       else if map_scalar_type_is_fp128 scalar then ''fp128''
       else ''fp64'')"

definition map_work_units :: "map_params \<Rightarrow> fl" where
  "map_work_units p = fmul b64 (fmul b64 (f_of_int b64 (max 1 (mp_width p))) (f_of_int b64 (max 1 (mp_height p))))
     (f_of_int b64 (max 1 (mp_iterations p)))"

definition map_engine_supported :: "machine \<Rightarrow> map_params \<Rightarrow> string \<Rightarrow> bool \<Rightarrow> bool" where
  "map_engine_supported m p engine fx =
    (if mp_orbit_program p \<or> mp_variant p = Custom \<or> mp_custom_step_fn p then engine = ''openmp''
     else if mp_smooth p then engine = ''openmp''
     else if variant_needs_scalar_fallback (mp_variant p) then engine = ''openmp''
     else let scalar = map_effective_scalar_type (ma_float128 m) p in
       if map_scalar_type_is_fp80 scalar \<or> map_scalar_type_is_fp128 scalar then engine = ''openmp''
       else if fx \<and> mp_metric p = MinPairwiseDist then engine = ''openmp''
       else let c = runtime_capabilities m in
         if engine = ''openmp'' then True
         else if engine = ''avx2'' then
           (if \<not> rc_avx2_compiled c \<or> \<not> rc_avx2_runtime c \<or> \<not> rc_fma_runtime c
               \<or> \<not> is_vector_metric_supported (mp_metric p) then False else \<not> fx)
         else if engine = ''avx512'' then
           (if \<not> rc_avx512_compiled c \<or> \<not> rc_avx512_runtime c \<or> \<not> is_vector_metric_supported (mp_metric p)
            then False else \<not> fx)
         else if engine = ''cuda'' then rc_cuda_runtime c \<and> is_cuda_metric_supported (mp_metric p)
         else if engine = ''hybrid'' then
           rc_cuda_runtime c \<and> is_cuda_metric_supported (mp_metric p) \<and> map_work_is_large p
         else False)"

fun supported_in_order :: "machine \<Rightarrow> map_params \<Rightarrow> bool \<Rightarrow> string list \<Rightarrow> string list \<Rightarrow> string list" where
  "supported_in_order m p fx [] out = out"
| "supported_in_order m p fx (engine # order) out =
    (if engine \<in> set out then supported_in_order m p fx order out
     else if map_engine_supported m p engine fx then supported_in_order m p fx order (out @ [engine])
     else supported_in_order m p fx order out)"

definition select_map_engine ::
    "(cost_point list \<Rightarrow> cost_point list) \<Rightarrow> machine \<Rightarrow> benchmark_entry list \<Rightarrow> map_params \<Rightarrow> bool \<Rightarrow> string \<Rightarrow> string" where
  "select_map_engine srt m cache p fx purpose =
    (if mp_engine p \<noteq> ''auto'' then
       (if mp_engine p = ''hybrid'' \<and> map_effective_scalar_type (ma_float128 m) p = ''fp32'' then
          (if map_engine_supported m p ''avx2'' False then ''avx2'' else ''openmp'')
        else if mp_engine p = ''hybrid'' \<and> \<not> map_work_is_large p then
          (if map_engine_supported m p ''avx512'' fx then ''avx512''
           else if map_engine_supported m p ''avx2'' fx then ''avx2'' else ''openmp'')
        else if map_engine_supported m p (mp_engine p) fx then mp_engine p else ''openmp'')
     else if mp_orbit_program p \<or> mp_variant p = Custom \<or> mp_custom_step_fn p \<or> mp_smooth p
         \<or> variant_needs_scalar_fallback (mp_variant p) then ''openmp''
     else
       let scalar = canonical_map_profile_scalar (ma_float128 m) p fx;
           large = map_work_is_large p;
           fallback_order = (if fx then [''cuda'', ''openmp'']
             else if scalar = ''fp32'' then [''cuda'', ''avx512'', ''avx2'', ''openmp'']
             else [''avx512'', ''avx2'', ''cuda'', ''openmp'']);
           candidates = supported_in_order m p fx fallback_order [];
           candidates = (if \<not> fx \<and> scalar = ''fp64'' \<and> (large \<or> purpose = ''batch'' \<or> purpose = ''volume'')
               \<and> map_engine_supported m p ''hybrid'' False then candidates @ [''hybrid''] else candidates);
           fallback = (case candidates of [] \<Rightarrow> ''openmp'' | c # _ \<Rightarrow> c)
       in if mp_metric p \<noteq> Escape then fallback
          else select_profiled_engine srt cache ''map_field'' scalar (map_work_units p) candidates fallback)"

section \<open>The cache keeps one sample per slot\<close>

lemma feq_sym: "feq a b \<longleftrightarrow> feq b a"
  by (auto simp: feq_def)

lemma feq_trans: "feq a b \<Longrightarrow> feq b c \<Longrightarrow> feq a c"
  by (auto simp: feq_def split: if_splits)

lemma slot_sym: "same_benchmark_slot a b \<Longrightarrow> same_benchmark_slot b a"
  by (simp add: same_benchmark_slot_def feq_sym)

lemma slot_trans: "same_benchmark_slot a b \<Longrightarrow> same_benchmark_slot b c \<Longrightarrow> same_benchmark_slot a c"
  by (auto simp: same_benchmark_slot_def intro: feq_trans)

definition one_per_slot :: "benchmark_entry list \<Rightarrow> bool" where
  "one_per_slot cache = sorted_wrt (\<lambda>a b. \<not> same_benchmark_slot a b) cache"

lemma set_merge_entry: "set (merge_entry e cache) \<subseteq> insert e (set cache)"
  by (induction cache) auto

lemma merge_entry_found: "e \<in> set (merge_entry e cache)"
  by (induction cache) auto

lemma merge_entry_one_per_slot: "one_per_slot cache \<Longrightarrow> one_per_slot (merge_entry e cache)"
proof (induction cache)
  case Nil
  show ?case by (simp add: one_per_slot_def)
next
  case (Cons c cache)
  have c: "\<forall>b\<in>set cache. \<not> same_benchmark_slot c b" and r: "one_per_slot cache"
    using Cons.prems by (auto simp: one_per_slot_def)
  show ?case
  proof (cases "same_benchmark_slot c e")
    case True
    have "\<forall>b\<in>set cache. \<not> same_benchmark_slot e b" using c True slot_trans by blast
    then show ?thesis using True r by (simp add: one_per_slot_def)
  next
    case False
    have "\<forall>b\<in>set (merge_entry e cache). \<not> same_benchmark_slot c b" using c False set_merge_entry by blast
    then show ?thesis using False Cons.IH [OF r] by (simp add: one_per_slot_def)
  qed
qed

lemma merge_cache_one_per_slot: "one_per_slot cache \<Longrightarrow> one_per_slot (merge_benchmark_cache es cache)"
  by (induction es arbitrary: cache) (auto simp: merge_benchmark_cache_def merge_entry_one_per_slot)

lemma merge_cache_last: "e \<in> set (merge_benchmark_cache (es @ [e]) cache)"
  by (simp add: merge_benchmark_cache_def merge_entry_found)

lemma one_per_slotD:
  assumes "one_per_slot cache" "x \<in> set cache" "e \<in> set cache" "same_benchmark_slot x e"
  shows "x = e"
proof -
  obtain i j where i: "i < length cache" "cache ! i = x" and j: "j < length cache" "cache ! j = e"
    using assms(2,3) by (auto simp: in_set_conv_nth)
  have "\<not> i < j" "\<not> j < i"
    using assms(1,4) i j slot_sym sorted_wrt_nth_less [of "\<lambda>a b. \<not> same_benchmark_slot a b" cache]
    by (auto simp: one_per_slot_def)
  then show ?thesis using i j by simp
qed

section \<open>The predicted cost\<close>

lemma fmax_floor: "m \<noteq> NaN \<Longrightarrow> fle m (fmax m x)"
  by (auto simp: fmax_def fle_def feq_def)

lemma rnd_not_NaN: "rnd fmt q \<noteq> NaN"
  by (simp add: rnd_def Let_def)

lemma min_cost_not_NaN: "min_cost \<noteq> NaN"
  by (simp add: min_cost_def rnd_not_NaN)

lemma fle_refl: "m \<noteq> NaN \<Longrightarrow> fle m m"
  by (auto simp: fle_def feq_def)

lemma interpolate_floor: "fle min_cost (interpolate_cost a b t)"
  by (simp add: interpolate_cost_def Let_def fmax_floor min_cost_not_NaN)

lemma find_segment_floor: "length points \<ge> 2 \<Longrightarrow> fle min_cost (find_segment points t)"
  by (induction points t rule: find_segment.induct) (auto simp: interpolate_floor Suc_le_eq neq_Nil_conv)

lemma coalesce_nonempty: "coalesce p ps \<noteq> []"
  by (induction p ps rule: coalesce.induct) (auto simp: Let_def)

lemma predict_floor:
  assumes "sorts_points srt" "raw_points (relevant_entries family scalar engine entries) \<noteq> []" "flt (Fin 0) w"
  obtains c where "predict_profiled_elapsed_ms srt entries family scalar engine w = Some c" "fle min_cost c"
proof -
  let ?r = "raw_points (relevant_entries family scalar engine entries)"
  have "mset (srt ?r) = mset ?r" using assms(1) by (simp add: sorts_points_def)
  then have "srt ?r \<noteq> []" using assms(2) by (metis mset_zero_iff)
  then obtain p ps where s: "srt ?r = p # ps" by (cases "srt ?r") auto
  have w: "fmax (Fin 0) w = w" using assms(3) by (simp add: fmax_def)
  obtain q qs where q: "coalesce p ps = q # qs" using coalesce_nonempty by (cases "coalesce p ps") auto
  show thesis
  proof (cases qs)
    case Nil
    then show thesis
      by (intro that) (auto simp: predict_profiled_elapsed_ms_def Let_def s w q assms(3) fmax_floor min_cost_not_NaN)
  next
    case (Cons r rs)
    then show thesis
      by (intro that) (auto simp: predict_profiled_elapsed_ms_def Let_def s w q
          intro!: find_segment_floor [of "q # r # rs", simplified])
  qed
qed

section \<open>The choice among candidates\<close>

text \<open>\<^verbatim>\<open>no_better predict es c\<close>: no candidate of \<^verbatim>\<open>es\<close> has a finite prediction below \<^verbatim>\<open>c\<close>.\<close>

definition no_better :: "(string \<Rightarrow> fl option) \<Rightarrow> string list \<Rightarrow> fl \<Rightarrow> bool" where
  "no_better predict es c \<longleftrightarrow> (\<forall>e\<in>set es. \<forall>d. predict e = Some d \<longrightarrow> fis_finite d \<longrightarrow> \<not> flt d c)"

definition best_of :: "(string \<Rightarrow> fl option) \<Rightarrow> string list \<Rightarrow> fl \<Rightarrow> string \<Rightarrow> bool" where
  "best_of predict es bound e \<longleftrightarrow>
     e \<in> set es \<and> (\<exists>c. predict e = Some c \<and> fis_finite c \<and> flt c bound \<and> no_better predict es c)"

lemma no_better_Cons:
  "no_better predict (e # es) c \<longleftrightarrow> (\<forall>d. predict e = Some d \<longrightarrow> fis_finite d \<longrightarrow> \<not> flt d c) \<and> no_better predict es c"
  by (auto simp: no_better_def)

lemma best_of_Cons: "best_of predict es b e \<Longrightarrow> \<not> (\<exists>d. predict x = Some d \<and> fis_finite d \<and> flt d b) \<Longrightarrow>
    best_of predict (x # es) b e"
  unfolding best_of_def no_better_Cons by (meson flt_trans list.set_intros(2))

lemma best_of_step: "best_of predict es c e \<Longrightarrow> predict x = Some c \<Longrightarrow> flt c b \<Longrightarrow> best_of predict (x # es) b e"
  unfolding best_of_def no_better_Cons
  by (metis flt_trans flt_irrefl list.set_intros(2) option.inject)

lemma best_of_head: "predict x = Some c \<Longrightarrow> fis_finite c \<Longrightarrow> flt c b \<Longrightarrow> no_better predict es c \<Longrightarrow>
    best_of predict (x # es) b x"
  unfolding best_of_def no_better_Cons by (metis flt_irrefl list.set_intros(1) option.inject)

lemma select_best_spec:
  "no_better predict es b \<and> select_best predict es best b = best \<or> best_of predict es b (select_best predict es best b)"
proof (induction predict es best b rule: select_best.induct)
  case (1 predict best b)
  then show ?case by (simp add: no_better_def)
next
  case (2 predict x es best b)
  show ?case
  proof (cases "\<exists>c. predict x = Some c \<and> fis_finite c \<and> flt c b")
    case True
    then obtain c where c: "predict x = Some c" "fis_finite c" "flt c b" by blast
    have s: "select_best predict (x # es) best b = select_best predict es x c" using c by simp
    show ?thesis unfolding s using "2.IH"(2) [OF c(1)] c best_of_head [of predict x c b es] best_of_step [of predict es c _ x b] by auto
  next
    case False
    have s: "select_best predict (x # es) best b = select_best predict es best b"
      using False by (auto split: option.split)
    have ih: "no_better predict es b \<and> select_best predict es best b = best
        \<or> best_of predict es b (select_best predict es best b)"
    proof (cases "predict x")
      case None
      then show ?thesis using "2.IH"(1) by simp
    next
      case (Some c)
      then show ?thesis using "2.IH"(3) [OF Some] False by auto
    qed
    then show ?thesis unfolding s no_better_Cons using False best_of_Cons [of predict es b _ x, OF _ False] by auto
  qed
qed

lemma flt_finite_PosInf: "fis_finite c \<Longrightarrow> flt c PosInf"
  by (auto simp: flt_def fis_finite_def)

lemma select_profiled_spec:
  fixes predict
  assumes ne: "[] \<notin> set candidates"
    and p: "predict = (\<lambda>e. predict_profiled_elapsed_ms srt entries family scalar e w)"
    and e: "e = select_profiled_engine srt entries family scalar w candidates fallback_engine"
  shows "(\<forall>x\<in>set candidates. \<forall>c. predict x = Some c \<longrightarrow> \<not> fis_finite c) \<and> e = fallback_engine
     \<or> e \<in> set candidates \<and> (\<exists>c. predict e = Some c \<and> fis_finite c \<and> no_better predict candidates c)"
proof -
  let ?b = "select_best predict candidates [] PosInf"
  have e': "e = (if ?b = [] then fallback_engine else ?b)"
    by (simp add: e p select_profiled_engine_def Let_def)
  show ?thesis
    using select_best_spec [of predict candidates PosInf "[]"] ne flt_finite_PosInf
    unfolding e' by (auto simp: no_better_def best_of_def)
qed

section \<open>The selected engine can run the request\<close>

lemma openmp_supported [simp]: "map_engine_supported m p ''openmp'' fx"
  by (simp add: map_engine_supported_def Let_def)

lemma supported_in_order_set:
  "set (supported_in_order m p fx order out) = set out \<union> {e \<in> set order. map_engine_supported m p e fx}"
  by (induction m p fx order out rule: supported_in_order.induct) auto

lemma select_profiled_in:
  "[] \<notin> set candidates \<Longrightarrow>
   select_profiled_engine srt entries family scalar w candidates fb \<in> insert fb (set candidates)"
  using select_profiled_spec [OF _ refl refl] by blast

lemmas engine_choice = select_map_engine_def Let_def canonical_map_profile_scalar_def

lemma list_case_in: "(case xs of [] \<Rightarrow> d | c # _ \<Rightarrow> c) \<in> insert d (set xs)"
  by (cases xs) auto

lemma select_map_engine_cases:
  fixes m p
  assumes e: "e = select_map_engine srt m cache p fx purpose"
  shows "map_engine_supported m p e fx \<and>
       (e = ''hybrid'' \<longrightarrow> map_effective_scalar_type (ma_float128 m) p \<noteq> ''fp32'')
     \<or> mp_engine p = ''hybrid'' \<and> map_effective_scalar_type (ma_float128 m) p = ''fp32'' \<and> e = ''avx2''
       \<and> map_engine_supported m p e False"
proof (cases "mp_engine p = ''auto''")
  case False
  then show ?thesis unfolding e by (simp add: select_map_engine_def)
next
  case True
  let ?s = "canonical_map_profile_scalar (ma_float128 m) p fx"
  define order where "order = (if fx then [''cuda'', ''openmp'']
             else if ?s = ''fp32'' then [''cuda'', ''avx512'', ''avx2'', ''openmp'']
             else [''avx512'', ''avx2'', ''cuda'', ''openmp''])"
  define hyb where "hyb = (\<not> fx \<and> ?s = ''fp64'' \<and> (map_work_is_large p \<or> purpose = ''batch'' \<or> purpose = ''volume'')
               \<and> map_engine_supported m p ''hybrid'' False)"
  define cs where "cs = (if hyb then supported_in_order m p fx order [] @ [''hybrid''] else supported_in_order m p fx order [])"
  define fb where "fb = (case cs of [] \<Rightarrow> ''openmp'' | c # _ \<Rightarrow> c)"
  have o: "set order \<subseteq> {''cuda'', ''avx512'', ''avx2'', ''openmp''}" by (simp add: order_def)
  have cs: "x \<in> set cs \<Longrightarrow> map_engine_supported m p x fx \<and> x \<noteq> [] \<and> (x = ''hybrid'' \<longrightarrow> hyb)" for x
  proof -
    assume x: "x \<in> set cs"
    have h: "hyb \<Longrightarrow> map_engine_supported m p ''hybrid'' fx" by (simp add: hyb_def)
    have "x \<in> set order \<and> map_engine_supported m p x fx \<or> hyb \<and> x = ''hybrid''"
      using x unfolding cs_def by (cases hyb) (auto simp: supported_in_order_set)
    then show ?thesis using o h by auto
  qed
  have fb: "fb \<in> insert ''openmp'' (set cs)" unfolding fb_def by (rule list_case_in)
  have "e = (if mp_orbit_program p \<or> mp_variant p = Custom \<or> mp_custom_step_fn p \<or> mp_smooth p
         \<or> variant_needs_scalar_fallback (mp_variant p) then ''openmp''
       else if mp_metric p \<noteq> Escape then fb
       else select_profiled_engine srt cache ''map_field'' ?s (map_work_units p) cs fb)"
    unfolding e select_map_engine_def Let_def fb_def cs_def hyb_def order_def
    by (simp only: True simp_thms if_False if_True)
  then have "e = ''openmp'' \<or> e = fb \<or> e = select_profiled_engine srt cache ''map_field'' ?s (map_work_units p) cs fb"
    by presburger
  moreover have "[] \<notin> set cs" using cs by blast
  ultimately have "e \<in> insert ''openmp'' (set cs)"
    using fb select_profiled_in [of cs srt cache "''map_field''" ?s "map_work_units p" fb] by auto
  then have "e = ''openmp'' \<or> map_engine_supported m p e fx \<and> (e = ''hybrid'' \<longrightarrow> hyb)" using cs by blast
  moreover have "hyb \<Longrightarrow> map_effective_scalar_type (ma_float128 m) p \<noteq> ''fp32''"
    by (auto simp: hyb_def canonical_map_profile_scalar_def Let_def split: if_splits)
  ultimately show ?thesis by auto
qed

section \<open>Predictions are not monotone\<close>

lemma strictly_sorted_unique:
  assumes "sorted_wrt (\<lambda>a b. flt (cp_work a) (cp_work b)) xs"
    and "mset ys = mset xs" "sorted_wrt (\<lambda>a b. \<not> flt (cp_work b) (cp_work a)) ys"
  shows "ys = xs"
  using assms
proof (induction xs arbitrary: ys)
  case Nil
  then show ?case by simp
next
  case (Cons a xs)
  then obtain b ys' where y: "ys = b # ys'" by (cases ys) auto
  have "b = a"
  proof (rule ccontr)
    assume n: "b \<noteq> a"
    have "b \<in> set xs" "a \<in> set ys'"
      using n Cons.prems(2) y set_mset_mset [of ys] set_mset_mset [of "a # xs"] by auto
    then show False using Cons.prems(1,3) y by auto
  qed
  then show ?case using Cons y by auto
qed

lemma sorts_points_sorted:
  "sorts_points srt \<Longrightarrow> \<forall>p\<in>set xs. cp_work p \<noteq> NaN \<Longrightarrow>
    sorted_wrt (\<lambda>a b. flt (cp_work a) (cp_work b)) xs \<Longrightarrow> srt xs = xs"
  by (rule strictly_sorted_unique) (auto simp: sorts_points_def)

definition sample :: "int \<Rightarrow> int \<Rightarrow> benchmark_entry" where
  "sample w t = \<lparr>be_engine = ''avx2'', be_scalar = ''fp64'', be_mpix_per_sec = Fin 0, be_available = True,
     be_family = ''map_field'', be_workload = ''w'', be_work_units = Fin (of_int w), be_elapsed_ms = Fin (of_int t),
     be_sample_count = 1\<rparr>"

definition noisy_samples :: "benchmark_entry list" where
  "noisy_samples = [sample 1 10, sample 2 5, sample 3 6]"

lemma min_cost_below: "1 < x \<Longrightarrow> flt min_cost (Fin x)"
proof -
  assume x: "1 < x"
  let ?r = "rnd_rat b64 (1 / 1000)"
  have r: "0 \<le> ?r \<and> ?r \<le> 1" using rnd_rat_unit [of "1 / 1000" b64] by (simp add: b64_def)
  have "(1 :: rat) < 2 powi emax b64" by (simp add: b64_def)
  with r have "\<bar>?r\<bar> < 2 powi emax b64" by linarith
  then show ?thesis using x r by (auto simp: min_cost_def rnd_def Let_def flt_def fval_def)
qed

lemma rnd_int_b64: "\<bar>m\<bar> < 2 ^ 53 \<Longrightarrow> rnd b64 (of_int m) = Fin (of_int m)"
  by (rule rnd_int) (simp_all add: b64_def)

lemmas rnd_small = rnd_int_b64 [of 1, simplified] rnd_int_b64 [of "- 5", simplified]
  rnd_int_b64 [of 10, simplified] rnd_int_b64 [of 6, simplified]

lemma noisy_predictions:
  assumes "sorts_points srt"
  shows "predict_profiled_elapsed_ms srt noisy_samples ''map_field'' ''fp64'' ''avx2'' (Fin 2) = Some (Fin 10)"
    and "predict_profiled_elapsed_ms srt noisy_samples ''map_field'' ''fp64'' ''avx2'' (Fin 3) = Some (Fin 6)"
proof -
  define pts where "pts = [\<lparr>cp_work = Fin 1, cp_elapsed = Fin 10, cp_count = 1\<rparr>,
    \<lparr>cp_work = Fin 2, cp_elapsed = Fin 5, cp_count = 1\<rparr>, \<lparr>cp_work = Fin 3, cp_elapsed = Fin 6, cp_count = 1\<rparr>]"
  have r: "raw_points (relevant_entries ''map_field'' ''fp64'' ''avx2'' noisy_samples) = pts"
    by (simp add: raw_points_def relevant_entries_def noisy_samples_def sample_def positive_finite_def fis_finite_def pts_def)
  have s: "srt pts = pts" by (rule sorts_points_sorted [OF assms]) (simp_all add: pts_def)
  have c: "coalesce (hd pts) (tl pts) = pts" by (simp add: pts_def)
  have i1: "interpolate_cost (pts ! 0) (pts ! 1) (Fin 2) = Fin 10"
    by (simp add: pts_def interpolate_cost_def Let_def fsub_def fadd_def fdiv_def fmul_def fmax_def fval_def
        fis_finite_def rnd_small flt_def [of "Fin 0" "Fin (-5)"] min_cost_below signed_zero_def fsign_def)
  have i2: "interpolate_cost (pts ! 1) (pts ! 2) (Fin 3) = Fin 6"
    by (simp add: pts_def interpolate_cost_def Let_def fsub_def fadd_def fdiv_def fmul_def fmax_def fval_def
        fis_finite_def rnd_small min_cost_below signed_zero_def fsign_def)
  show "predict_profiled_elapsed_ms srt noisy_samples ''map_field'' ''fp64'' ''avx2'' (Fin 2) = Some (Fin 10)"
    using s c i1 by (simp add: predict_profiled_elapsed_ms_def Let_def r) (simp add: pts_def fmax_def)
  show "predict_profiled_elapsed_ms srt noisy_samples ''map_field'' ''fp64'' ''avx2'' (Fin 3) = Some (Fin 6)"
    using s c i2 by (simp add: predict_profiled_elapsed_ms_def Let_def r) (simp add: pts_def fmax_def)
qed

section \<open>Properties\<close>

text \<open>
  C28: The engine selection never returns an engine that cannot run the request: the chosen engine passes
  the support check for the request's arithmetic, except that an explicit request for the hybrid engine
  with 32-bit scalars is turned into the AVX2 engine, checked for floating point. The hybrid engine, whose
  kernel computes in double precision, is never chosen for a 32-bit request.
\<close>
theorem selected_engine_runs:
  "(map_engine_supported m p (select_map_engine srt m cache p fx purpose) fx
    \<or> mp_engine p = ''hybrid'' \<and> map_effective_scalar_type (ma_float128 m) p = ''fp32''
      \<and> select_map_engine srt m cache p fx purpose = ''avx2'' \<and> map_engine_supported m p ''avx2'' False)
   \<and> \<not> (select_map_engine srt m cache p fx purpose = ''hybrid''
        \<and> map_effective_scalar_type (ma_float128 m) p = ''fp32'')"
  using select_map_engine_cases [of "select_map_engine srt m cache p fx purpose", OF refl] by auto

text \<open>
  Among the candidates the profiled choice has the smallest finite predicted time: either no
  candidate has a finite prediction and the fallback is returned, or the result is a candidate and no
  other candidate is predicted to be faster.
\<close>
theorem profiled_choice_fastest:
  assumes "[] \<notin> set candidates"
  shows "(\<forall>x\<in>set candidates. \<forall>c. predict_profiled_elapsed_ms srt entries family scalar x w = Some c \<longrightarrow>
            \<not> fis_finite c)
       \<and> select_profiled_engine srt entries family scalar w candidates fallback_engine = fallback_engine
     \<or> select_profiled_engine srt entries family scalar w candidates fallback_engine \<in> set candidates
       \<and> (\<exists>c. predict_profiled_elapsed_ms srt entries family scalar
                (select_profiled_engine srt entries family scalar w candidates fallback_engine) w = Some c
            \<and> fis_finite c
            \<and> (\<forall>x\<in>set candidates. \<forall>d. predict_profiled_elapsed_ms srt entries family scalar x w = Some d \<longrightarrow>
                 fis_finite d \<longrightarrow> \<not> flt d c))"
  using select_profiled_spec [OF assms refl refl] by (simp add: no_better_def)

theorem profiled_choice_fastest_witness:
  "select_profiled_engine insertion_sort noisy_samples ''map_field'' ''fp64'' (Fin 3) [''openmp'', ''avx2''] ''openmp''
     = ''avx2''"
proof -
  have ne: "[] \<notin> set [''openmp'', ''avx2'']" by simp
  have o: "predict_profiled_elapsed_ms insertion_sort noisy_samples ''map_field'' ''fp64'' ''openmp'' (Fin 3) = None"
    by (simp add: predict_profiled_elapsed_ms_def relevant_entries_def noisy_samples_def sample_def raw_points_def
        legacy_speed_def insertion_sort_def Let_def)
  show ?thesis
    using profiled_choice_fastest [OF ne, of insertion_sort noisy_samples "''map_field''" "''fp64''" "Fin 3" "''openmp''"]
      noisy_predictions(2) [OF insertion_sort_sorts] o by (auto simp: fis_finite_def)
qed

text \<open>
  With at least one usable sample and a positive amount of work, whatever the noise of the timings,
  the prediction exists and is at least a microsecond, so the comparison of engines never meets a
  negative or undefined cost.
\<close>
theorem prediction_floor:
  assumes "sorts_points srt" "raw_points (relevant_entries family scalar engine entries) \<noteq> []" "flt (Fin 0) w"
  shows "\<exists>c. predict_profiled_elapsed_ms srt entries family scalar engine w = Some c \<and> fle min_cost c"
  using predict_floor [OF assms] by blast

theorem prediction_floor_witness:
  "\<exists>c. predict_profiled_elapsed_ms insertion_sort noisy_samples ''map_field'' ''fp64'' ''avx2'' (Fin 3) = Some c
     \<and> fle min_cost c"
  by (rule prediction_floor [OF insertion_sort_sorts])
    (simp_all add: raw_points_def relevant_entries_def noisy_samples_def sample_def positive_finite_def fis_finite_def)

text \<open>
  The guard against a negative slope acts within one segment only: three samples with a noisy first timing
  predict 10 ms for 2 units of work and 6 ms for 3.
\<close>
theorem prediction_not_monotone:
  "predict_profiled_elapsed_ms insertion_sort noisy_samples ''map_field'' ''fp64'' ''avx2'' (Fin 2) = Some (Fin 10)
   \<and> predict_profiled_elapsed_ms insertion_sort noisy_samples ''map_field'' ''fp64'' ''avx2'' (Fin 3) = Some (Fin 6)"
  using noisy_predictions [OF insertion_sort_sorts] by simp

end
