(* ===== verification/TileScheduler.thy ===== *)
theory TileScheduler
  imports EngineSelect
begin

text \<open>
  The hybrid tile scheduler (\<^verbatim>\<open>compute/tile_scheduler.cpp\<close>) and the thread counts (\<^verbatim>\<open>compute/parallel.hpp\<close>):
  a frame is cut into tiles, and CPU workers and one GPU worker claim them from a shared counter. A step of a
  worker is one access to the shared state, so an execution is any interleaving of the workers' steps. What a
  renderer does to its pixels is not modelled; rendering a tile either completes or throws.
\<close>

section \<open>Tiles\<close>

record tile =
  ti_x :: int
  ti_y :: int
  ti_w :: int
  ti_h :: int

function offsets :: "int \<Rightarrow> int \<Rightarrow> int \<Rightarrow> int list" where
  "offsets tile_size limit t = (if tile_size \<le> 0 \<or> limit \<le> t then [] else t # offsets tile_size limit (t + tile_size))"
  by pat_completeness auto
termination by (relation "measure (\<lambda>(tile_size, limit, t). nat (limit - t))") auto

declare offsets.simps [simp del]

definition tile_at :: "int \<Rightarrow> int \<Rightarrow> int \<Rightarrow> int \<Rightarrow> int \<Rightarrow> tile" where
  "tile_at W H tile_size tx ty =
    \<lparr>ti_x = tx, ti_y = ty, ti_w = min tile_size (W - tx), ti_h = min tile_size (H - ty)\<rparr>"

text \<open>With a tile size that is not positive the loops do not end: \<open>None\<close>.\<close>

definition make_tiles :: "int \<Rightarrow> int \<Rightarrow> int \<Rightarrow> tile list option" where
  "make_tiles W H tile_size =
    (if tile_size \<le> 0 \<and> 0 < H then None
     else Some (concat (map (\<lambda>ty. map (\<lambda>tx. tile_at W H tile_size tx ty) (offsets tile_size W 0)) (offsets tile_size H 0))))"

section \<open>Scalar types and batches\<close>

definition supports_fx64_int_path :: "map_params \<Rightarrow> bool" where
  "supports_fx64_int_path p \<longleftrightarrow>
    variant_id (mp_variant p) \<ge> 0 \<and> variant_id (mp_variant p) \<le> 9 \<and> mp_metric p \<noteq> MinPairwiseDist \<and> \<not> mp_smooth p"

definition requested_q459 :: "bool \<Rightarrow> map_params \<Rightarrow> bool" where
  "requested_q459 f128 p \<longleftrightarrow> map_effective_scalar_type f128 p \<in> {''q4.59'', ''q459'', ''fx59'', ''fixed59''}"

definition requested_q360 :: "bool \<Rightarrow> map_params \<Rightarrow> bool" where
  "requested_q360 f128 p \<longleftrightarrow> map_effective_scalar_type f128 p \<in> {''q3.60'', ''q360'', ''fx60'', ''fixed60''}"

definition requested_fixed :: "bool \<Rightarrow> map_params \<Rightarrow> bool" where
  "requested_fixed f128 p \<longleftrightarrow> map_effective_scalar_type f128 p \<in>
    {''q3.60'', ''q360'', ''fx60'', ''fixed60'', ''q4.59'', ''q459'', ''fx59'', ''fixed59'', ''fx64'', ''q6.57'',
     ''q657'', ''fixed57''}"

definition clamp_batch :: "nat \<Rightarrow> nat \<Rightarrow> nat" where
  "clamp_batch tile_count batch =
    (let max_batch = max 1 (min 64 (if tile_count > 1 then tile_count - 1 else 1)) in max 1 (min max_batch batch))"

text \<open>\<open>None\<close>: \<^verbatim>\<open>std::llround\<close> of a number outside its range.\<close>

definition calibrated_gpu_batch ::
    "(cost_point list \<Rightarrow> cost_point list) \<Rightarrow> benchmark_entry list \<Rightarrow> map_params \<Rightarrow> int \<Rightarrow> string \<Rightarrow> string \<Rightarrow> int \<Rightarrow> nat \<Rightarrow> nat \<Rightarrow> nat option" where
  "calibrated_gpu_batch srt profile p tile_size scalar cpu_engine cpu_workers tile_count fallback =
    (let side = f_of_int b64 (max 1 tile_size);
         tile_work = fmul b64 (fmul b64 side side) (f_of_int b64 (max 1 (mp_iterations p)));
         clamp = clamp_batch tile_count
     in case (predict_profiled_elapsed_ms srt profile ''map_field'' scalar cpu_engine tile_work,
              predict_profiled_elapsed_ms srt profile ''map_field'' scalar ''cuda'' tile_work) of
          (Some cpu_ms, Some gpu_ms) \<Rightarrow>
            if \<not> fis_finite cpu_ms \<or> \<not> fis_finite gpu_ms \<or> \<not> flt (Fin 0) cpu_ms \<or> \<not> flt (Fin 0) gpu_ms
            then Some (clamp fallback)
            else
              let rate = fdiv b64 cpu_ms gpu_ms;
                  per_wave = fmul b64 (f_of_int b64 (max 1 cpu_workers)) rate;
                  share = fdiv b64 (fmul b64 (f_of_int b64 (int (max 1 tile_count))) rate) (fadd b64 (Fin 1) rate);
                  desired = fmin per_wave share
              in if \<not> fis_finite desired then Some (clamp fallback)
                 else map_option (\<lambda>i. clamp (nat (max 1 i))) (fllround desired)
        | _ \<Rightarrow> Some (clamp fallback))"

text \<open>
  The parameters of one tile (\<^verbatim>\<open>render_tile_cpu\<close>); \<open>rotation\<close> is the field \<^verbatim>\<open>rotation_deg\<close>, and the sine and
  cosine are those of \<^verbatim>\<open><cmath>\<close>.
\<close>

definition half :: fl where "half = Fin (1 / 2)"

definition tile_offset :: "map_params \<Rightarrow> int \<Rightarrow> int \<Rightarrow> int \<Rightarrow> fl" where
  "tile_offset base t extent total_extent =
    fsub b64 (fadd b64 (f_of_int b64 t) (fmul b64 (f_of_int b64 extent) half)) (fmul b64 (f_of_int b64 total_extent) half)"

definition tile_params :: "libm \<Rightarrow> fl \<Rightarrow> map_params \<Rightarrow> tile \<Rightarrow> string \<Rightarrow> string \<Rightarrow> map_params" where
  "tile_params L rotation base t engine scalar =
    (let span_im = mp_scale base; span_re = fmul b64 (mp_scale base) (map_viewport_aspect base);
         re_step = fdiv b64 span_re (f_of_int b64 (mp_width base));
         im_step = fdiv b64 span_im (f_of_int b64 (mp_height base));
         dx = fmul b64 (tile_offset base (ti_x t) (ti_w t) (mp_width base)) re_step;
         dy = fmul b64 (fneg (tile_offset base (ti_y t) (ti_h t) (mp_height base))) im_step;
         rad = fdiv b64 (fmul b64 rotation (rnd b64 (3141592653589793238462643383279502884 / 10 ^ 36))) (Fin 180);
         c = m_cos L rad; s = m_sin L rad;
         scale = fmul b64 (f_of_int b64 (ti_h t)) im_step
     in base\<lparr>mp_center_re := fsub b64 (fadd b64 (mp_center_re base) (fmul b64 dx c)) (fmul b64 dy s),
             mp_center_im := fadd b64 (fadd b64 (mp_center_im base) (fmul b64 dx s)) (fmul b64 dy c),
             mp_scale := scale,
             mp_viewport_aspect := fdiv b64 (fmul b64 (f_of_int b64 (ti_w t)) re_step) scale,
             mp_width := ti_w t, mp_height := ti_h t, mp_engine := engine, mp_scalar_type := scalar\<rparr>)"

section \<open>Thread counts\<close>

text \<open>\<^verbatim>\<open>std::strtol\<close> in base 10; \<open>None\<close> when nothing is consumed. Out of range it saturates, which is above every use.\<close>

definition strtol10 :: "string \<Rightarrow> int option" where
  "strtol10 s =
    (let s = dropWhile is_space s;
         negative = starts_with ''-'' s;
         s = (if negative \<or> starts_with ''+'' s then tl s else s);
         digits = takeWhile is_digit s;
         n = fold (\<lambda>c n. n * 10 + int (digit_val c)) digits 0
     in if digits = [] then None else Some (if negative then - n else n))"

record thread_env =
  te_render_threads :: "string option"
  te_thermal :: "string option"
  te_concurrency :: int
  te_procs :: "int option"

definition env_render_threads :: "thread_env \<Rightarrow> int" where
  "env_render_threads T =
    (case te_render_threads T of
       None \<Rightarrow> 0
     | Some s \<Rightarrow>
         if s = [] then 0
         else case strtol10 s of None \<Rightarrow> 0 | Some n \<Rightarrow> if n \<le> 0 \<or> n > 4096 then 0 else n)"

definition thermal_friendly_mode :: "thread_env \<Rightarrow> bool" where
  "thermal_friendly_mode T =
    (case te_thermal T of None \<Rightarrow> False | Some s \<Rightarrow> s \<noteq> [] \<and> hd s \<in> set ''1tTyY'')"

definition default_render_threads :: "thread_env \<Rightarrow> int" where
  "default_render_threads T =
    (if env_render_threads T > 0 then env_render_threads T
     else let threads = te_concurrency T;
              threads = (if threads \<le> 0 then 1 else threads);
              threads = (case te_procs T of None \<Rightarrow> threads | Some n \<Rightarrow> max threads n);
              threads = (if thermal_friendly_mode T then max 1 (tdiv (threads + 1) 2) else threads)
          in max 1 threads)"

definition resolve_render_threads :: "thread_env \<Rightarrow> int \<Rightarrow> int" where
  "resolve_render_threads T requested_threads =
    (if requested_threads > 0 then max 1 requested_threads else default_render_threads T)"

section \<open>Workers\<close>

text \<open>
  What a worker does next. \<open>Batch i l\<close> is the GPU worker between the tiles of the batch that ends before \<open>l\<close>;
  a CPU worker claims single tiles. \<open>Reporting i l g\<close> has rendered tile \<open>i\<close>, on the GPU when \<open>g\<close>. \<open>Failing e\<close>
  is about to record its exception.
\<close>

datatype worker =
    Checking
  | Claiming
  | Batch nat nat
  | Rendering nat nat
  | Reporting nat nat bool
  | Failing string
  | Stopped

text \<open>What a step meets: the answer of the cancel callback, the end of a rendering or callback, or its exception.\<close>

datatype event = Poll bool | Finished bool | Throws string

record config =
  cf_tiles :: nat
  cf_batch :: nat
  cf_cpus :: nat
  cf_gpu :: bool

record pool =
  po_next :: nat
  po_cancelled :: bool
  po_error :: "string option"
  po_cpu_tiles :: nat
  po_gpu_tiles :: nat
  po_done :: "nat list"
  po_workers :: "worker list"

text \<open>The GPU worker, when there is one, is the last of the list.\<close>

definition start_pool :: "config \<Rightarrow> pool" where
  "start_pool c = \<lparr>po_next = 0, po_cancelled = False, po_error = None, po_cpu_tiles = 0, po_gpu_tiles = 0, po_done = [],
     po_workers = replicate (cf_cpus c + (if cf_gpu c then 1 else 0)) Checking\<rparr>"

definition is_gpu_worker :: "config \<Rightarrow> nat \<Rightarrow> bool" where
  "is_gpu_worker c w \<longleftrightarrow> cf_gpu c \<and> w = cf_cpus c"

definition set_cancelled :: "pool \<Rightarrow> pool" where
  "set_cancelled s = s\<lparr>po_cancelled := True\<rparr>"

definition thrown :: "string \<Rightarrow> pool \<Rightarrow> pool \<times> worker" where
  "thrown e s = (set_cancelled s, if e = ''cancelled'' then Stopped else Failing e)"

definition claim_tiles :: "config \<Rightarrow> bool \<Rightarrow> pool \<Rightarrow> pool \<times> worker" where
  "claim_tiles c gpu s =
    (let first = po_next s; k = (if gpu then cf_batch c else 1); s' = s\<lparr>po_next := first + k\<rparr>
     in if first \<ge> cf_tiles c then (s', Stopped)
        else if gpu then (s', Batch first (min (cf_tiles c) (first + k)))
        else (s', Rendering first (first + 1)))"

definition count_tile :: "bool \<Rightarrow> pool \<Rightarrow> pool" where
  "count_tile on_gpu s =
    (if on_gpu then s\<lparr>po_gpu_tiles := po_gpu_tiles s + 1\<rparr> else s\<lparr>po_cpu_tiles := po_cpu_tiles s + 1\<rparr>)"

definition record_error :: "string \<Rightarrow> pool \<Rightarrow> pool" where
  "record_error e s = (case po_error s of None \<Rightarrow> s\<lparr>po_error := Some e\<rparr> | Some _ \<Rightarrow> s)"

fun worker_step :: "config \<Rightarrow> bool \<Rightarrow> event \<Rightarrow> pool \<Rightarrow> worker \<Rightarrow> (pool \<times> worker) option" where
  "worker_step c gpu (Poll r) s Checking =
    Some (if po_cancelled s \<or> r then (set_cancelled s, Stopped) else (s, Claiming))"
| "worker_step c gpu e s Claiming = Some (claim_tiles c gpu s)"
| "worker_step c gpu e s (Batch i l) =
    (if \<not> i < l then Some (s, Checking)
     else case e of
         Poll r \<Rightarrow> Some (if po_cancelled s \<or> r then (set_cancelled s, Checking) else (s, Rendering i l))
       | _ \<Rightarrow> None)"
| "worker_step c gpu (Finished g) s (Rendering i l) =
    Some (s\<lparr>po_done := po_done s @ [i]\<rparr>, Reporting i l (gpu \<and> g))"
| "worker_step c gpu (Throws x) s (Rendering i l) = Some (thrown x s)"
| "worker_step c gpu (Finished g) s (Reporting i l on_gpu) =
    Some (count_tile on_gpu s, if gpu then Batch (i + 1) l else Checking)"
| "worker_step c gpu (Throws x) s (Reporting i l on_gpu) = Some (thrown x (count_tile on_gpu s))"
| "worker_step c gpu e s (Failing x) = Some (record_error x s, Stopped)"
| "worker_step c gpu e s wk = None"

definition step_worker :: "config \<Rightarrow> nat \<Rightarrow> event \<Rightarrow> pool \<Rightarrow> pool option" where
  "step_worker c w e s =
    (if w < length (po_workers s) then
       map_option (\<lambda>(s', wk). s'\<lparr>po_workers := (po_workers s)[w := wk]\<rparr>)
         (worker_step c (is_gpu_worker c w) e s (po_workers s ! w))
     else None)"

inductive pool_step :: "config \<Rightarrow> pool \<Rightarrow> pool \<Rightarrow> bool" where
  Step: "step_worker c w e s = Some s' \<Longrightarrow> pool_step c s s'"

inductive_cases pool_stepE: "pool_step c s s'"

inductive pool_reachable :: "config \<Rightarrow> pool \<Rightarrow> bool" where
  Start: "pool_reachable c (start_pool c)"
| Next: "pool_reachable c s \<Longrightarrow> pool_step c s s' \<Longrightarrow> pool_reachable c s'"

definition all_stopped :: "pool \<Rightarrow> bool" where
  "all_stopped s \<longleftrightarrow> list_all (\<lambda>wk. wk = Stopped) (po_workers s)"

text \<open>After the workers have joined: the first error, or a cancellation, or the statistics.\<close>

record scheduler_stats =
  ss_cpu_tiles :: nat
  ss_gpu_tiles :: nat
  ss_engine_used :: string

definition engine_used :: "bool \<Rightarrow> bool \<Rightarrow> bool \<Rightarrow> nat \<Rightarrow> nat \<Rightarrow> string" where
  "engine_used use_gpu use_avx512 use_avx2 gpu_tiles cpu_tiles =
    (if use_gpu \<and> gpu_tiles > 0 \<and> cpu_tiles > 0 then ''hybrid''
     else if use_gpu \<and> gpu_tiles > 0 then ''cuda''
     else if use_avx512 then ''avx512'' else if use_avx2 then ''avx2'' else ''openmp'')"

definition join_workers :: "config \<Rightarrow> bool \<Rightarrow> bool \<Rightarrow> bool \<Rightarrow> pool \<Rightarrow> scheduler_stats res" where
  "join_workers c use_avx512 use_avx2 requested_cancel s =
    (case po_error s of
       Some e \<Rightarrow> Inl (RuntimeError e)
     | None \<Rightarrow>
         if po_cancelled s \<or> requested_cancel then Inl (RuntimeError ''cancelled'')
         else Inr \<lparr>ss_cpu_tiles = po_cpu_tiles s, ss_gpu_tiles = po_gpu_tiles s,
           ss_engine_used = engine_used (cf_gpu c) use_avx512 use_avx2 (po_gpu_tiles s) (po_cpu_tiles s)\<rparr>)"

text \<open>The configuration that \<^verbatim>\<open>render_map_hybrid\<close> computes before it starts the workers.\<close>

definition hybrid_config ::
    "machine \<Rightarrow> thread_env \<Rightarrow> (cost_point list \<Rightarrow> cost_point list) \<Rightarrow> benchmark_entry list \<Rightarrow> map_params \<Rightarrow> int \<Rightarrow> config option" where
  "hybrid_config m T srt profile p tile_size =
    (let fx = (requested_fixed (ma_float128 m) p \<and> supports_fx64_int_path p);
         use_avx512 = map_engine_supported m p ''avx512'' fx;
         use_avx2 = (\<not> use_avx512 \<and> map_engine_supported m p ''avx2'' fx);
         cpu_engine = (if use_avx512 then ''avx512'' else if use_avx2 then ''avx2'' else ''openmp'');
         fallback = (if rc_cuda_low_end (runtime_capabilities m) then 4 else 12)
     in Option.bind (make_tiles (mp_width p) (mp_height p) tile_size) (\<lambda>tiles.
        map_option (\<lambda>batch. \<lparr>cf_tiles = length tiles, cf_batch = batch, cf_cpus = nat (default_render_threads T),
            cf_gpu = map_engine_supported m p ''cuda'' fx\<rparr>)
          (calibrated_gpu_batch srt profile p tile_size (if fx then ''fx64'' else ''fp64'') cpu_engine
            (default_render_threads T) (length tiles) fallback)))"

end
