(* ===== verification/TileProperties.thy ===== *)
theory TileProperties
  imports TileScheduler
begin

text \<open>
  Theorems on the tile scheduler: the tiles partition the frame, every interleaving of the workers ends, and
  when the scheduler reports success every pixel has been rendered exactly once.
\<close>

section \<open>The tiles partition the frame\<close>

definition covers :: "tile \<Rightarrow> int \<Rightarrow> int \<Rightarrow> bool" where
  "covers t x y \<longleftrightarrow> ti_x t \<le> x \<and> x < ti_x t + ti_w t \<and> ti_y t \<le> y \<and> y < ti_y t + ti_h t"

lemma offsets_step: "0 < k \<Longrightarrow> t < limit \<Longrightarrow> offsets k limit t = t # offsets k limit (t + k)"
  and offsets_end: "limit \<le> t \<Longrightarrow> offsets k limit t = []"
  by (subst offsets.simps; simp)+

lemma set_offsets: "0 < k \<Longrightarrow> set (offsets k limit t) = {u. t \<le> u \<and> u < limit \<and> k dvd u - t}"
proof (induction k limit t rule: offsets.induct)
  case (1 k limit t)
  show ?case
  proof (cases "t < limit")
    case True
    have e: "(t + k \<le> u \<and> k dvd u - (t + k)) \<longleftrightarrow> (t \<le> u \<and> k dvd u - t \<and> u \<noteq> t)" for u
    proof
      assume a: "t + k \<le> u \<and> k dvd u - (t + k)"
      then obtain m where "u - (t + k) = k * m" by (auto elim: dvdE)
      then have "u - t = k * m + k" by (simp only: diff_add_eq diff_diff_eq [symmetric] eq_diff_eq diff_eq_eq add.commute add.left_commute)
      then have "u - t = k * (m + 1)" by (simp only: distrib_left mult_1_right)
      then show "t \<le> u \<and> k dvd u - t \<and> u \<noteq> t" using a 1(2) by auto
    next
      assume a: "t \<le> u \<and> k dvd u - t \<and> u \<noteq> t"
      then obtain m where m: "u - t = k * m" by (auto elim: dvdE)
      have "0 < k * m" unfolding m [symmetric] using a by simp
      then have "1 \<le> m" using 1(2) by (simp add: zero_less_mult_iff)
      then have "k * 1 \<le> k * m" using 1(2) by (intro mult_left_mono) auto
      then have "t + k \<le> u" using m by simp
      moreover have "u - (t + k) = k * (m - 1)" unfolding right_diff_distrib m [symmetric] by simp
      then have "k dvd u - (t + k)" by (rule dvdI)
      ultimately show "t + k \<le> u \<and> k dvd u - (t + k)" by simp
    qed
    have ih: "set (offsets k limit (t + k)) = {u. t + k \<le> u \<and> u < limit \<and> k dvd u - (t + k)}"
      using 1 True by simp
    show ?thesis
    proof (rule set_eqI)
      fix u
      show "u \<in> set (offsets k limit t) \<longleftrightarrow> u \<in> {u. t \<le> u \<and> u < limit \<and> k dvd u - t}"
        unfolding offsets_step [OF 1(2) True] using e [of u] True by (cases "u = t") (simp_all add: ih, blast)
    qed
  next
    case False
    then show ?thesis by (auto simp: offsets_end)
  qed
qed

lemma distinct_offsets: "0 < k \<Longrightarrow> distinct (offsets k limit t)"
proof (induction k limit t rule: offsets.induct)
  case (1 k limit t)
  show ?case
  proof (cases "t < limit")
    case True
    have "distinct (offsets k limit (t + k))" using 1 True by simp
    moreover have "t \<notin> set (offsets k limit (t + k))" using 1(2) by (simp add: set_offsets)
    ultimately show ?thesis unfolding offsets_step [OF 1(2) True] by simp
  next
    case False
    then show ?thesis by (simp add: offsets_end)
  qed
qed

lemma floor_offset:
  assumes "0 < k" "0 \<le> u" "k dvd u"
  shows "u \<le> (x::int) \<and> x < u + k \<longleftrightarrow> u = k * (x div k)"
proof -
  obtain m where m: "u = k * m" using assms(3) ..
  have "k * m \<le> x \<and> x < k * m + k \<longleftrightarrow> m = x div k"
  proof
    assume "k * m \<le> x \<and> x < k * m + k"
    then show "m = x div k" using int_div_pos_eq [of x k m "x - k * m"] by simp
  next
    assume "m = x div k"
    then have "k * m = x - x mod k" by (simp add: minus_mod_eq_mult_div)
    then show "k * m \<le> x \<and> x < k * m + k"
      using pos_mod_bound [OF assms(1), of x] pos_mod_sign [OF assms(1), of x] by linarith
  qed
  then show ?thesis using assms(1) m by simp
qed

lemma tile_covers:
  assumes "0 < k" "tx \<in> set (offsets k W 0)" "ty \<in> set (offsets k H 0)" "x < W" "y < H"
  shows "covers (tile_at W H k tx ty) x y \<longleftrightarrow> tx = k * (x div k) \<and> ty = k * (y div k)"
  using floor_offset [of k tx x] floor_offset [of k ty y] assms
  by (auto simp: covers_def tile_at_def set_offsets min_def)

lemma tile_list:
  assumes "make_tiles W H k = Some tiles" "0 < k"
  shows "tiles = map (\<lambda>(ty, tx). tile_at W H k tx ty) (List.product (offsets k H 0) (offsets k W 0))"
proof -
  have "concat (map (\<lambda>ty. map (f ty) xs) ys) = map (\<lambda>(ty, tx). f ty tx) (List.product ys xs)" for f :: "int \<Rightarrow> int \<Rightarrow> tile" and xs ys
    by (induction ys) (simp_all add: comp_def)
  with assms show ?thesis by (simp add: make_tiles_def)
qed

lemma tiles_partition:
  assumes "make_tiles W H k = Some tiles" "0 < k" "0 \<le> x" "x < W" "0 \<le> y" "y < H"
  shows "\<exists>!i. i < length tiles \<and> covers (tiles ! i) x y"
proof -
  let ?ps = "List.product (offsets k H 0) (offsets k W 0)" and ?p = "(k * (y div k), k * (x div k))"
  have d: "distinct ?ps" using distinct_offsets [OF assms(2)] by (simp add: distinct_product)
  have l: "length tiles = length ?ps" "\<And>i. i < length ?ps \<Longrightarrow> tiles ! i = tile_at W H k (snd (?ps ! i)) (fst (?ps ! i))"
    using tile_list [OF assms(1,2)] by (simp_all add: case_prod_beta)
  have c: "covers (tiles ! i) x y \<longleftrightarrow> ?ps ! i = ?p" if "i < length ?ps" for i
  proof -
    have "?ps ! i \<in> set ?ps" using that by (rule nth_mem)
    then have "snd (?ps ! i) \<in> set (offsets k W 0)" "fst (?ps ! i) \<in> set (offsets k H 0)"
      unfolding set_product by auto
    from tile_covers [OF assms(2) this assms(4,6)] l(2) [OF that] show ?thesis by (simp add: prod_eq_iff conj_commute)
  qed
  have "k * (z div k) \<in> set (offsets k limit 0)" if "0 \<le> z" "z < limit" for z limit
    using that assms(2) floor_offset [of k "k * (z div k)" z] by (auto simp: set_offsets pos_imp_zdiv_nonneg_iff)
  then have "?p \<in> set ?ps" using assms by (auto simp: set_product)
  then obtain j where "j < length ?ps" "?ps ! j = ?p" unfolding in_set_conv_nth by blast
  then show ?thesis
    using c l(1) nth_eq_iff_index_eq [OF d, of _ j] by (intro ex1I [of _ j]) (simp_all del: length_product, blast)
qed

section \<open>The invariant of the workers\<close>

text \<open>The tiles a worker has claimed and not rendered.\<close>

fun pending :: "worker \<Rightarrow> nat list" where
  "pending (Batch i l) = [i..<l]"
| "pending (Rendering i l) = [i..<l]"
| "pending (Reporting i l g) = [i + 1..<l]"
| "pending wk = []"

fun worker_ok :: "bool \<Rightarrow> nat \<Rightarrow> worker \<Rightarrow> bool" where
  "worker_ok gpu m (Batch i l) \<longleftrightarrow> gpu \<and> l \<le> m"
| "worker_ok gpu m (Rendering i l) \<longleftrightarrow> i < l \<and> l \<le> m \<and> (gpu \<or> l = i + 1)"
| "worker_ok gpu m (Reporting i l g) \<longleftrightarrow> i < l \<and> l \<le> m \<and> (gpu \<or> l = i + 1)"
| "worker_ok gpu m wk \<longleftrightarrow> True"

definition claimed_upto :: "config \<Rightarrow> pool \<Rightarrow> nat" where
  "claimed_upto c s = min (cf_tiles c) (po_next s)"

fun is_reporting :: "worker \<Rightarrow> bool" where
  "is_reporting (Reporting i l g) = True"
| "is_reporting wk = False"

fun is_failing :: "worker \<Rightarrow> bool" where
  "is_failing (Failing e) = True"
| "is_failing wk = False"

lemma worker_ok_mono: "worker_ok gpu m wk \<Longrightarrow> m \<le> m' \<Longrightarrow> worker_ok gpu m' wk"
  by (cases wk) auto

lemma upt_split: "i < l \<Longrightarrow> mset [i..<l] = add_mset i (mset [Suc i..<l])"
  by (simp add: upt_conv_Cons)

lemmas step_defs = thrown_def set_cancelled_def claim_tiles_def count_tile_def record_error_def claimed_upto_def Let_def

text \<open>What one step of a worker does, with the state of the worker itself left aside.\<close>

lemma worker_step_facts:
  assumes "worker_step c gpu e s wk = Some (s', wk')" "worker_ok gpu (claimed_upto c s) wk" "0 < cf_batch c"
  shows "po_next s \<le> po_next s'" "po_cancelled s \<Longrightarrow> po_cancelled s'"
    "worker_ok gpu (claimed_upto c s') wk'"
    "is_failing wk' \<Longrightarrow> po_cancelled s'" "is_failing wk \<Longrightarrow> po_cancelled s \<Longrightarrow> po_cancelled s'"
    "po_error s' \<noteq> None \<Longrightarrow> po_error s \<noteq> None \<or> is_failing wk"
    "wk' = Stopped \<Longrightarrow> wk \<noteq> Stopped \<Longrightarrow> po_cancelled s' \<or> is_failing wk \<or> cf_tiles c \<le> po_next s'"
    "po_cpu_tiles s' + po_gpu_tiles s' + (if is_reporting wk' then 1 else 0) + length (po_done s)
      = po_cpu_tiles s + po_gpu_tiles s + (if is_reporting wk then 1 else 0) + length (po_done s')"
    "po_workers s' = po_workers s"
  using assms
  by (cases wk; cases e; auto simp: step_defs split: if_splits option.splits)+

lemma worker_step_claims:
  assumes "worker_step c gpu e s wk = Some (s', wk')" "worker_ok gpu (claimed_upto c s) wk" "0 < cf_batch c"
  shows "mset (po_done s') + mset (pending wk')
      \<subseteq># mset (po_done s) + mset (pending wk) + mset [claimed_upto c s..<claimed_upto c s']
    \<and> (\<not> po_cancelled s' \<longrightarrow> \<not> is_failing wk \<longrightarrow> mset (po_done s') + mset (pending wk')
      = mset (po_done s) + mset (pending wk) + mset [claimed_upto c s..<claimed_upto c s'])"
proof (cases wk)
  case (Rendering i l)
  then have "mset [i..<l] = add_mset i (mset [Suc i..<l])" using assms(2) by (intro upt_split) simp
  then show ?thesis using assms Rendering by (cases e) (auto simp: step_defs)
next
  case Claiming
  then show ?thesis
    using assms
    by (cases e; cases "cf_tiles c = Suc (po_next s)") (auto simp: step_defs min_def split: if_splits)
next
  case (Batch i l)
  then show ?thesis using assms by (cases e) (auto simp: step_defs split: if_splits)
next
  case (Reporting i l g)
  then show ?thesis using assms by (cases e) (auto simp: step_defs split: if_splits)
qed (use assms in \<open>cases e; auto simp: step_defs split: if_splits option.splits\<close>)+

definition open_claims :: "pool \<Rightarrow> nat multiset" where
  "open_claims s = sum_list (map (\<lambda>wk. mset (pending wk)) (po_workers s))"

definition reporting :: "pool \<Rightarrow> nat" where
  "reporting s = sum_list (map (\<lambda>wk. if is_reporting wk then 1 else 0) (po_workers s))"

text \<open>
  The invariant: the tiles rendered and those claimed are, without repetition, tiles below the counter, and all
  of them unless the render is cancelled; every rendered tile is counted or about to be; a worker stops for no
  other reason than a cancellation, an exception or the end of the tiles.
\<close>

definition pool_inv :: "config \<Rightarrow> pool \<Rightarrow> bool" where
  "pool_inv c s \<longleftrightarrow>
    (\<forall>w < length (po_workers s). worker_ok (is_gpu_worker c w) (claimed_upto c s) (po_workers s ! w))
    \<and> mset (po_done s) + open_claims s \<subseteq># mset [0..<claimed_upto c s]
    \<and> (\<not> po_cancelled s \<longrightarrow> mset (po_done s) + open_claims s = mset [0..<claimed_upto c s])
    \<and> po_cpu_tiles s + po_gpu_tiles s + reporting s = length (po_done s)
    \<and> (\<forall>wk\<in>set (po_workers s). is_failing wk \<longrightarrow> po_cancelled s)
    \<and> (po_error s \<noteq> None \<longrightarrow> po_cancelled s)
    \<and> (\<forall>wk\<in>set (po_workers s). wk = Stopped \<longrightarrow> po_cancelled s \<or> cf_tiles c \<le> po_next s)"

lemma sum_list_change:
  fixes f :: "'a \<Rightarrow> 'b::ab_semigroup_add" and g :: "'a \<Rightarrow> 'c::cancel_comm_monoid_add"
  assumes "w < length xs"
  shows "sum_list (map g (xs[w := y])) + g (xs ! w) = sum_list (map g xs) + g y"
  using assms by (induction xs arbitrary: w) (auto simp: nth_Cons ac_simps split: nat.split)

lemma sum_list_replicate_zero: "sum_list (replicate n (0::'a::comm_monoid_add)) = 0"
  by (induction n) simp_all

lemma pool_inv_start: "pool_inv c (start_pool c)"
  by (auto simp: pool_inv_def start_pool_def open_claims_def reporting_def claimed_upto_def sum_list_replicate_zero)

lemma pool_stepD:
  assumes "pool_step c s s'"
  obtains w e s1 wk' where "w < length (po_workers s)"
    "worker_step c (is_gpu_worker c w) e s (po_workers s ! w) = Some (s1, wk')"
    "s' = s1\<lparr>po_workers := (po_workers s)[w := wk']\<rparr>"
  using assms by (auto simp: pool_step.simps step_worker_def split: if_splits)

lemma open_claims_update:
  assumes "w < length (po_workers s)" "po_workers s' = (po_workers s)[w := wk']"
  shows "open_claims s' + mset (pending (po_workers s ! w)) = open_claims s + mset (pending wk')"
    "reporting s' + (if is_reporting (po_workers s ! w) then 1 else 0) = reporting s + (if is_reporting wk' then 1 else 0)"
  using sum_list_change [OF assms(1), of "\<lambda>wk. mset (pending wk)" wk']
    sum_list_change [OF assms(1), of "\<lambda>wk. if is_reporting wk then 1 else 0 :: nat" wk'] assms(2)
  by (simp_all add: open_claims_def reporting_def)

lemma pool_inv_step:
  assumes inv: "pool_inv c s" and "pool_step c s s'" "0 < cf_batch c"
  shows "pool_inv c s'"
proof -
  from assms(2) obtain w e s1 wk' where w: "w < length (po_workers s)"
    and st: "worker_step c (is_gpu_worker c w) e s (po_workers s ! w) = Some (s1, wk')"
    and s': "s' = s1\<lparr>po_workers := (po_workers s)[w := wk']\<rparr>" by (rule pool_stepD)
  let ?wk = "po_workers s ! w" and ?m = "claimed_upto c s" and ?m1 = "claimed_upto c s1"
  have ok: "worker_ok (is_gpu_worker c w) ?m ?wk" using inv w by (simp add: pool_inv_def)
  note f = worker_step_facts [OF st ok assms(3)] and cl = worker_step_claims [OF st ok assms(3)]
  have cu: "claimed_upto c s' = ?m1" "?m \<le> ?m1" using f(1) by (auto simp: claimed_upto_def s')
  have wk: "?wk \<in> set (po_workers s)" using w by simp
  have s'f: "po_workers s' = (po_workers s)[w := wk']" "po_done s' = po_done s1" "po_cancelled s' = po_cancelled s1"
    "po_error s' = po_error s1" "po_next s' = po_next s1" "po_cpu_tiles s' = po_cpu_tiles s1" "po_gpu_tiles s' = po_gpu_tiles s1"
    by (simp_all add: s')
  have members: "x = wk' \<or> x \<in> set (po_workers s)" if "x \<in> set (po_workers s')" for x
    using that set_update_subset_insert [of "po_workers s" w wk'] by (auto simp: s')
  note oc = open_claims_update [OF w s'f(1)]
  have up: "mset [0..<?m1] = mset [0..<?m] + mset [?m..<?m1]"
    using cu(2) by (metis mset_append upt_add_eq_append le_add_diff_inverse zero_le)
  have 1: "\<forall>v < length (po_workers s'). worker_ok (is_gpu_worker c v) (claimed_upto c s') (po_workers s' ! v)"
  proof (intro allI impI)
    fix v assume "v < length (po_workers s')"
    then show "worker_ok (is_gpu_worker c v) (claimed_upto c s') (po_workers s' ! v)"
      using f(3) inv cu worker_ok_mono [OF _ cu(2)] w by (cases "v = w") (auto simp: s' pool_inv_def)
  qed
  have eq: "(mset (po_done s') + open_claims s') + (mset (po_done s) + mset (pending ?wk) + mset [?m..<?m1])
      = (mset (po_done s) + open_claims s + mset [?m..<?m1]) + (mset (po_done s1) + mset (pending wk'))"
    using oc(1) by (simp add: s'f ac_simps)
  have inv2: "mset (po_done s) + open_claims s \<subseteq># mset [0..<?m]" using inv by (simp add: pool_inv_def)
  have "mset (po_done s') + open_claims s' \<subseteq># mset (po_done s) + open_claims s + mset [?m..<?m1]"
    using cl eq by (metis mset_subset_eq_mono_add_left_cancel mset_subset_eq_add_right subset_mset.add_le_cancel_right
        subset_mset.add_left_mono)
  also have "\<dots> \<subseteq># mset [0..<?m1]" unfolding up using inv2 by (rule subset_mset.add_right_mono)
  finally have 2: "mset (po_done s') + open_claims s' \<subseteq># mset [0..<claimed_upto c s']" by (simp add: cu)
  have 3: "mset (po_done s') + open_claims s' = mset [0..<claimed_upto c s']" if "\<not> po_cancelled s'"
  proof -
    have nc: "\<not> po_cancelled s" "\<not> po_cancelled s1" using that f(2) by (auto simp: s'f)
    then have "\<not> is_failing ?wk" using inv wk by (auto simp: pool_inv_def)
    then have "mset (po_done s') + open_claims s' = mset (po_done s) + open_claims s + mset [?m..<?m1]"
      using cl eq nc by (metis add_right_cancel)
    also have "\<dots> = mset [0..<?m1]" using inv nc by (simp add: pool_inv_def up del: mset_upt)
    finally show ?thesis by (simp add: cu)
  qed
  have 4: "po_cpu_tiles s' + po_gpu_tiles s' + reporting s' = length (po_done s')"
  proof -
    have "po_cpu_tiles s + po_gpu_tiles s + reporting s = length (po_done s)" using inv by (simp add: pool_inv_def)
    with f(8) oc(2) show ?thesis by (simp add: s'f)
  qed
  have fail: "is_failing x \<Longrightarrow> x \<in> set (po_workers s) \<Longrightarrow> po_cancelled s" for x using inv by (auto simp: pool_inv_def)
  have 5: "\<forall>x\<in>set (po_workers s'). is_failing x \<longrightarrow> po_cancelled s'"
    using members fail f(2,4) by (metis s'f(3))
  have 6: "po_error s' \<noteq> None \<longrightarrow> po_cancelled s'"
    using f(2,6) fail wk inv by (metis s'f(3,4) pool_inv_def)
  have stop: "x \<in> set (po_workers s) \<Longrightarrow> x = Stopped \<Longrightarrow> po_cancelled s \<or> cf_tiles c \<le> po_next s" for x
    using inv by (auto simp: pool_inv_def)
  have 7: "x = Stopped \<longrightarrow> po_cancelled s' \<or> cf_tiles c \<le> po_next s'" if x: "x \<in> set (po_workers s')" for x
    using members [OF x]
  proof
    assume "x \<in> set (po_workers s)"
    then show ?thesis using stop f(1,2) by (metis s'f(3,5) le_trans)
  next
    assume "x = wk'"
    then show ?thesis
      using f(1,2,7) fail [OF _ wk] stop [OF wk] by (metis s'f(3,5) le_trans)
  qed
  show ?thesis unfolding pool_inv_def using 1 2 3 4 5 6 7 by blast
qed

theorem pool_invariant: "pool_reachable c s \<Longrightarrow> 0 < cf_batch c \<Longrightarrow> pool_inv c s"
  by (induction rule: pool_reachable.induct) (use pool_inv_start pool_inv_step in blast)+

lemma all_stopped_settled:
  assumes "all_stopped s"
  shows "open_claims s = {#}" "reporting s = 0"
proof -
  have z: "\<forall>x\<in>set xs. f x = 0 \<Longrightarrow> sum_list (map f xs) = 0" for f :: "worker \<Rightarrow> 'b::comm_monoid_add" and xs
    by (induction xs) simp_all
  have z2: "\<forall>x\<in>set xs. f x = 0 \<Longrightarrow> sum_list (map f xs) = 0" for f :: "worker \<Rightarrow> nat" and xs
    by (induction xs) simp_all
  show "open_claims s = {#}" "reporting s = 0"
    using assms by (auto simp: open_claims_def reporting_def all_stopped_def list_all_iff intro!: z z2)
qed

lemma workers_kept: "pool_reachable c s \<Longrightarrow> length (po_workers s) = cf_cpus c + (if cf_gpu c then 1 else 0)"
proof (induction rule: pool_reachable.induct)
  case (Next c s s')
  from Next(2) show ?case by (rule pool_stepD) (simp add: Next)
qed (simp add: start_pool_def)

lemma hybrid_rendered:
  assumes "pool_reachable c s" "all_stopped s" "join_workers c a5 a2 r s = Inr st" "0 < cf_batch c" "0 < cf_cpus c"
  shows "mset (po_done s) = mset [0..<cf_tiles c]" "ss_cpu_tiles st + ss_gpu_tiles st = cf_tiles c"
proof -
  have inv: "pool_inv c s" using assms(1,4) by (rule pool_invariant)
  have nc: "\<not> po_cancelled s" using assms(3) by (auto simp: join_workers_def split: option.splits if_splits)
  have st: "ss_cpu_tiles st = po_cpu_tiles s" "ss_gpu_tiles st = po_gpu_tiles s"
    using assms(3) by (auto simp: join_workers_def split: option.splits if_splits)
  have "po_workers s \<noteq> []" using workers_kept [OF assms(1)] assms(5) by auto
  then have "hd (po_workers s) \<in> set (po_workers s)" "hd (po_workers s) = Stopped"
    using assms(2) by (simp_all add: all_stopped_def list_all_iff)
  then have "cf_tiles c \<le> po_next s" using inv nc by (auto simp: pool_inv_def)
  then have m: "claimed_upto c s = cf_tiles c" by (simp add: claimed_upto_def)
  show d: "mset (po_done s) = mset [0..<cf_tiles c]"
    using inv nc m all_stopped_settled [OF assms(2)] by (simp add: pool_inv_def)
  have "length (po_done s) = cf_tiles c" using d by (metis size_mset length_upt diff_zero)
  then show "ss_cpu_tiles st + ss_gpu_tiles st = cf_tiles c"
    using inv all_stopped_settled [OF assms(2)] by (simp add: pool_inv_def st)
qed

section \<open>The workers end\<close>

fun worker_weight :: "worker \<Rightarrow> nat" where
  "worker_weight Checking = 2"
| "worker_weight Claiming = 1"
| "worker_weight (Batch i l) = 4 * (l - i) + 3"
| "worker_weight (Rendering i l) = 4 * (l - i) + 2"
| "worker_weight (Reporting i l g) = 4 * (l - i) + 1"
| "worker_weight (Failing e) = 1"
| "worker_weight Stopped = 0"

definition pool_weight :: "config \<Rightarrow> pool \<Rightarrow> nat" where
  "pool_weight c s = sum_list (map worker_weight (po_workers s)) + 7 * (cf_tiles c - po_next s)"

lemma worker_step_weight:
  assumes "worker_step c gpu e s wk = Some (s', wk')" "worker_ok gpu (claimed_upto c s) wk" "0 < cf_batch c"
  shows "worker_weight wk' + 7 * (cf_tiles c - po_next s') < worker_weight wk + 7 * (cf_tiles c - po_next s)"
  using assms by (cases wk; cases e; auto simp: step_defs split: if_splits option.splits)

lemma pool_step_weight:
  assumes "pool_inv c s" "pool_step c s s'" "0 < cf_batch c"
  shows "pool_weight c s' < pool_weight c s"
proof -
  from assms(2) obtain w e s1 wk' where w: "w < length (po_workers s)"
    and st: "worker_step c (is_gpu_worker c w) e s (po_workers s ! w) = Some (s1, wk')"
    and s': "s' = s1\<lparr>po_workers := (po_workers s)[w := wk']\<rparr>" by (rule pool_stepD)
  have "worker_ok (is_gpu_worker c w) (claimed_upto c s) (po_workers s ! w)" using assms(1) w by (simp add: pool_inv_def)
  from worker_step_weight [OF st this assms(3)] sum_list_change [OF w, of worker_weight wk']
  show ?thesis by (simp add: pool_weight_def s')
qed

lemma worker_can_step: "wk \<noteq> Stopped \<Longrightarrow> \<exists>e r. worker_step c gpu e s wk = Some r"
proof (cases wk)
  case (Batch i l)
  then show ?thesis by (intro exI [of _ "Poll False"]) auto
next
  case (Rendering i l)
  then show ?thesis by (intro exI [of _ "Finished False"]) auto
next
  case (Reporting i l g)
  then show ?thesis by (intro exI [of _ "Finished False"]) auto
qed (auto intro!: exI [of _ "Poll False"])

inductive pool_steps :: "config \<Rightarrow> nat \<Rightarrow> pool \<Rightarrow> pool \<Rightarrow> bool" where
  None: "pool_steps c 0 s s"
| More: "pool_steps c k s s' \<Longrightarrow> pool_step c s' s'' \<Longrightarrow> pool_steps c (Suc k) s s''"

lemma pool_steps_bound:
  assumes "pool_steps c k s s'" "pool_inv c s" "0 < cf_batch c"
  shows "pool_inv c s' \<and> k + pool_weight c s' \<le> pool_weight c s"
  using assms
proof (induction rule: pool_steps.induct)
  case (More c k s s' s'')
  then show ?case using pool_inv_step pool_step_weight by (metis Suc_leI add_Suc add_mono_thms_linordered_semiring(2) le_trans add_Suc_right)
qed simp

lemma start_weight: "pool_weight c (start_pool c) = 2 * (cf_cpus c + (if cf_gpu c then 1 else 0)) + 7 * cf_tiles c"
  by (simp add: pool_weight_def start_pool_def sum_list_replicate)

section \<open>Batches, thread counts and executions\<close>

text \<open>A batch of the GPU worker is between 1 and 64 tiles and, when there are two tiles, leaves one to the CPU workers.\<close>

lemma clamp_batch_bounds:
  "1 \<le> clamp_batch n b" "clamp_batch n b \<le> 64" "1 < n \<Longrightarrow> clamp_batch n b < n"
  by (auto simp: clamp_batch_def Let_def)

lemma calibrated_batch_bounds:
  assumes "calibrated_gpu_batch srt profile p k scalar cpu cpus n fallback = Some b"
  shows "1 \<le> b" "b \<le> 64" "1 < n \<Longrightarrow> b < n"
proof -
  obtain a where "b = clamp_batch n a"
    using assms by (auto simp: calibrated_gpu_batch_def Let_def split: option.splits if_splits)
  then show "1 \<le> b" "b \<le> 64" "1 < n \<Longrightarrow> b < n" using clamp_batch_bounds by simp_all
qed

lemma render_threads_positive: "1 \<le> default_render_threads T" "1 \<le> resolve_render_threads T r"
  by (auto simp: default_render_threads_def resolve_render_threads_def Let_def)

lemma hybrid_config_facts:
  assumes "hybrid_config m T srt profile p k = Some c" "make_tiles (mp_width p) (mp_height p) k = Some tiles"
  shows "cf_tiles c = length tiles" "0 < cf_batch c" "0 < cf_cpus c" "1 < cf_tiles c \<Longrightarrow> cf_batch c < cf_tiles c"
proof -
  from assms obtain b where c: "cf_tiles c = length tiles" "cf_batch c = b" "cf_cpus c = nat (default_render_threads T)"
    and b: "\<exists>scalar cpu fallback. calibrated_gpu_batch srt profile p k scalar cpu (default_render_threads T) (length tiles) fallback = Some b"
    unfolding hybrid_config_def Let_def by (auto, blast)
  show "cf_tiles c = length tiles" "0 < cf_batch c" "0 < cf_cpus c" "1 < cf_tiles c \<Longrightarrow> cf_batch c < cf_tiles c"
    using c b calibrated_batch_bounds render_threads_positive(1) [of T] by fastforce+
qed

text \<open>An execution given by its schedule.\<close>

fun run_schedule :: "config \<Rightarrow> (nat \<times> event) list \<Rightarrow> pool \<Rightarrow> pool option" where
  "run_schedule c [] s = Some s"
| "run_schedule c ((w, e) # es) s = (case step_worker c w e s of None \<Rightarrow> None | Some s' \<Rightarrow> run_schedule c es s')"

lemma run_schedule_reachable:
  "run_schedule c es s = Some s' \<Longrightarrow> pool_reachable c s \<Longrightarrow> pool_reachable c s'"
  by (induction c es s rule: run_schedule.induct)
    (auto split: option.splits intro: pool_reachable.intros pool_step.intros)

lemma run_schedule_steps:
  "run_schedule c es s = Some s' \<Longrightarrow> pool_steps c k s0 s \<Longrightarrow> pool_steps c (k + length es) s0 s'"
proof (induction c es s arbitrary: k rule: run_schedule.induct)
  case (2 c w e es s)
  then obtain s1 where s1: "step_worker c w e s = Some s1" "run_schedule c es s1 = Some s'" by (auto split: option.splits)
  with 2(1) [OF s1, of "Suc k"] 2(3) show ?case by (auto intro: pool_steps.intros pool_step.intros)
qed simp

lemma index_of_multiset:
  assumes "mset xs = mset [0..<n]" "i < n"
  shows "\<exists>!k. k < length xs \<and> xs ! k = i"
proof -
  have "distinct xs" "i \<in> set xs"
    using assms by (simp_all add: mset_eq_imp_distinct_iff [OF assms(1)]) (metis assms(1) atLeastLessThan_iff le0 set_mset_mset set_upt)
  then show ?thesis by (metis distinct_conv_nth in_set_conv_nth)
qed

section \<open>Properties\<close>

text \<open>
  C6: When the hybrid renderer reports success, whatever the interleaving of its workers, every pixel of the
  frame has been rendered by exactly one completed tile, and the two counters add up to the number of tiles.
\<close>
theorem pixels_rendered_once:
  assumes "hybrid_config m T srt profile p k = Some c" "make_tiles (mp_width p) (mp_height p) k = Some tiles" "0 < k"
    "pool_reachable c s" "all_stopped s" "join_workers c use_avx512 use_avx2 requested_cancel s = Inr stats"
    "0 \<le> x" "x < mp_width p" "0 \<le> y" "y < mp_height p"
  shows "(\<exists>!j. j < length (po_done s) \<and> po_done s ! j < length tiles \<and> covers (tiles ! (po_done s ! j)) x y)
    \<and> ss_cpu_tiles stats + ss_gpu_tiles stats = length tiles"
proof -
  note c = hybrid_config_facts [OF assms(1,2)]
  note r = hybrid_rendered [OF assms(4-6) c(2,3), unfolded c(1)]
  obtain i where i: "i < length tiles" "covers (tiles ! i) x y"
    and u: "\<And>i'. i' < length tiles \<Longrightarrow> covers (tiles ! i') x y \<Longrightarrow> i' = i"
    using tiles_partition [OF assms(2,3,7-10)] by blast
  from index_of_multiset [OF r(1) i(1)]
  have "\<exists>!j. j < length (po_done s) \<and> po_done s ! j < length tiles \<and> covers (tiles ! (po_done s ! j)) x y"
    using i u by metis
  with r(2) show ?thesis by simp
qed

definition plain_machine :: machine where
  "plain_machine = \<lparr>ma_cpuid = (\<lambda>leaf sub. None), ma_xcr0 = 0, ma_x86 = True, ma_avx2_kernel = False,
     ma_avx512_kernel = False, ma_float128 = False, ma_omp_max_threads = Some 1, ma_cuda = None, ma_concurrency = 1\<rparr>"

definition plain_threads :: thread_env where
  "plain_threads = \<lparr>te_render_threads = None, te_thermal = None, te_concurrency = 1, te_procs = None\<rparr>"

definition two_pixels :: map_params where
  "two_pixels = default_map_params\<lparr>mp_width := 2, mp_height := 1, mp_smooth := True\<rparr>"

definition two_tiles :: config where
  "two_tiles = \<lparr>cf_tiles = 2, cf_batch = 1, cf_cpus = 1, cf_gpu = False\<rparr>"

definition two_tiles_schedule :: "(nat \<times> event) list" where
  "two_tiles_schedule = (let tile = [Poll False, Poll False, Finished False, Finished False]
     in map (Pair 0) (tile @ tile @ [Poll False, Poll False]))"

lemma two_tiles_end:
  "run_schedule two_tiles two_tiles_schedule (start_pool two_tiles) =
    Some \<lparr>po_next = 3, po_cancelled = False, po_error = None, po_cpu_tiles = 2, po_gpu_tiles = 0, po_done = [0, 1],
      po_workers = [Stopped]\<rparr>"
  by code_simp

lemma two_pixels_tiles:
  "make_tiles 2 1 1 = Some [tile_at 2 1 1 0 0, tile_at 2 1 1 1 0]"
proof -
  have "offsets 1 2 0 = [0, 1]" "offsets 1 1 0 = [0]" by (simp_all add: offsets_step offsets_end)
  then show ?thesis by (simp add: make_tiles_def)
qed

lemma two_pixels_config: "hybrid_config plain_machine plain_threads id [] two_pixels 1 = Some two_tiles"
  by (simp add: hybrid_config_def two_pixels_def default_map_params_def two_pixels_tiles map_engine_supported_def
      calibrated_gpu_batch_def predict_profiled_elapsed_ms_def relevant_entries_def raw_points_def legacy_speed_def
      flt_def clamp_batch_def Let_def two_tiles_def default_render_threads_def env_render_threads_def
      thermal_friendly_mode_def plain_threads_def fval_def)

theorem pixels_rendered_once_witness:
  "\<exists>!j. j < length [0::nat, 1] \<and> [0, 1] ! j < length [tile_at 2 1 1 0 0, tile_at 2 1 1 1 0]
     \<and> covers ([tile_at 2 1 1 0 0, tile_at 2 1 1 1 0] ! ([0, 1] ! j)) 1 0"
proof -
  have "pool_reachable two_tiles (start_pool two_tiles)" by (rule pool_reachable.intros)
  from run_schedule_reachable [OF two_tiles_end this]
  have r: "pool_reachable two_tiles \<lparr>po_next = 3, po_cancelled = False, po_error = None, po_cpu_tiles = 2,
      po_gpu_tiles = 0, po_done = [0, 1], po_workers = [Stopped]\<rparr>" .
  have t: "make_tiles (mp_width two_pixels) (mp_height two_pixels) 1 = Some [tile_at 2 1 1 0 0, tile_at 2 1 1 1 0]"
    using two_pixels_tiles by (simp add: two_pixels_def)
  show ?thesis
    using pixels_rendered_once [OF two_pixels_config t _ r, of False False False _ 1 0]
    by (simp add: two_pixels_def all_stopped_def join_workers_def two_tiles_def)
qed

text \<open>
  C29: The workers of the hybrid renderer end under every interleaving: an execution has at most two steps per
  worker and seven per tile, and as long as a worker has not stopped some step is possible.
\<close>
theorem workers_end:
  assumes "0 < cf_batch c" "pool_steps c k (start_pool c) s"
  shows "k \<le> 2 * (cf_cpus c + (if cf_gpu c then 1 else 0)) + 7 * cf_tiles c \<and> (all_stopped s \<or> (\<exists>s'. pool_step c s s'))"
proof -
  have "k \<le> pool_weight c (start_pool c)" using pool_steps_bound [OF assms(2) pool_inv_start assms(1)] by simp
  moreover have "\<exists>s'. pool_step c s s'" if "\<not> all_stopped s"
  proof -
    from that obtain w where w: "w < length (po_workers s)" "po_workers s ! w \<noteq> Stopped"
      by (auto simp: all_stopped_def list_all_length)
    from worker_can_step [OF w(2)] obtain e r where "worker_step c (is_gpu_worker c w) e s (po_workers s ! w) = Some r" by blast
    then have "pool_step c s ((fst r)\<lparr>po_workers := (po_workers s)[w := snd r]\<rparr>)"
      using w(1) by (intro pool_step.intros [of _ w e]) (simp add: step_worker_def case_prod_beta)
    then show ?thesis by blast
  qed
  ultimately show ?thesis unfolding start_weight by blast
qed

theorem workers_end_witness:
  "0 + length two_tiles_schedule \<le> 2 * (cf_cpus two_tiles + (if cf_gpu two_tiles then 1 else 0)) + 7 * cf_tiles two_tiles"
  using workers_end [OF _ run_schedule_steps [OF two_tiles_end pool_steps.None]] by (simp add: two_tiles_def)

end
