(* ===== verification/HttpRange.thy ===== *)
theory HttpRange
  imports Prelude
begin

text \<open>
  \<^verbatim>\<open>backend/src/core/http_range.hpp\<close>: the parser of the HTTP \<^verbatim>\<open>Range\<close> header.
  \<^verbatim>\<open>std::uintmax_t\<close> values are natural numbers below \<open>2 ^ 64\<close>; the overflow guard of the
  decimal parser is written out.
\<close>

definition uintmax_max :: nat where
  "uintmax_max = 2 ^ 64 - 1"

record file_range =
  requested :: bool
  valid :: bool
  range_start :: nat
  range_end :: nat

fun parse_digits :: "nat \<Rightarrow> string \<Rightarrow> nat option" where
  "parse_digits parsed [] = Some parsed"
| "parse_digits parsed (c # cs) =
     (if \<not> is_digit c then None
      else if parsed > (uintmax_max - digit_val c) div 10 then None
      else parse_digits (parsed * 10 + digit_val c) cs)"

definition parse_unsigned_decimal :: "string \<Rightarrow> nat option" where
  "parse_unsigned_decimal text = (if text = [] then None else parse_digits 0 text)"

definition reject :: "file_range \<Rightarrow> file_range" where
  "reject r = r\<lparr>valid := False\<rparr>"

text \<open>The last check of the function, \<^verbatim>\<open>if (range.end < range.start) range.valid = false\<close>.\<close>

definition final_check :: "file_range \<Rightarrow> file_range" where
  "final_check r = (if range_end r < range_start r then reject r else r)"

text \<open>\<^verbatim>\<open>bytes=-N\<close>: the last \<open>N\<close> bytes (the branch \<^verbatim>\<open>dash == 0\<close>).\<close>

definition suffix_range :: "file_range \<Rightarrow> nat \<Rightarrow> string \<Rightarrow> file_range" where
  "suffix_range r file_size spec =
    (case parse_unsigned_decimal (drop 1 spec) of
       None \<Rightarrow> reject r
     | Some suffix \<Rightarrow>
         if suffix = 0 then reject r
         else final_check
           (r\<lparr>range_start := (if suffix \<ge> file_size then 0 else file_size - suffix)\<rparr>))"

text \<open>\<^verbatim>\<open>bytes=A-\<close> and \<^verbatim>\<open>bytes=A-B\<close> (the branch \<^verbatim>\<open>dash > 0\<close>).\<close>

definition explicit_range :: "file_range \<Rightarrow> nat \<Rightarrow> string \<Rightarrow> nat \<Rightarrow> file_range" where
  "explicit_range r file_size spec dash =
    (case parse_unsigned_decimal (take dash spec) of
       None \<Rightarrow> reject r
     | Some s \<Rightarrow>
         let r = r\<lparr>range_start := s\<rparr> in
         if s \<ge> file_size then reject r
         else if dash + 1 < length spec then
           (case parse_unsigned_decimal (drop (dash + 1) spec) of
              None \<Rightarrow> reject r
            | Some e \<Rightarrow>
                let r = r\<lparr>range_end := min e (file_size - 1)\<rparr> in
                if range_end r < range_start r then reject r else final_check r)
         else final_check r)"

definition range_init :: "nat \<Rightarrow> file_range" where
  "range_init file_size = \<lparr>requested = False, valid = True, range_start = 0,
     range_end = (if file_size = 0 then 0 else file_size - 1)\<rparr>"

definition parse_file_range :: "string \<Rightarrow> nat \<Rightarrow> bool \<Rightarrow> file_range" where
  "parse_file_range header file_size has_if_range =
    (let r = range_init file_size in
     if header = [] \<or> has_if_range then r
     else if str_find (CHR '','') header \<noteq> None then r
     else let r = r\<lparr>requested := True\<rparr> in
     if file_size = 0 \<or> \<not> starts_with ''bytes='' header then reject r
     else let spec = drop 6 header in
     case str_find (CHR ''-'') spec of
       None \<Rightarrow> reject r
     | Some dash \<Rightarrow>
         if str_find (CHR ''-'') (drop (dash + 1) spec) \<noteq> None then reject r
         else if dash = 0 then suffix_range r file_size spec
         else explicit_range r file_size spec dash)"

section \<open>The decimal parser\<close>

lemma parse_digits_bound:
  "parse_digits n s = Some m \<Longrightarrow> n \<le> uintmax_max \<Longrightarrow> m \<le> uintmax_max"
proof (induction n s rule: parse_digits.induct)
  case (1 parsed)
  then show ?case by simp
next
  case (2 parsed c cs)
  from "2.prems"(1) have d: "is_digit c"
    and b: "parsed \<le> (uintmax_max - digit_val c) div 10"
    and r: "parse_digits (parsed * 10 + digit_val c) cs = Some m"
    by (auto split: if_splits)
  from d have "digit_val c \<le> 9" by (rule digit_val_le)
  moreover have "(9::nat) \<le> uintmax_max" by (simp add: uintmax_max_def)
  ultimately have "digit_val c \<le> uintmax_max" by (rule order_trans)
  moreover have "parsed * 10 \<le> uintmax_max - digit_val c" using b by linarith
  ultimately have "parsed * 10 + digit_val c \<le> uintmax_max" by linarith
  with "2.IH" d b r show ?case by simp
qed

text \<open>On digits whose value fits, the parser computes the positional value.\<close>

fun dec_value :: "nat \<Rightarrow> string \<Rightarrow> nat" where
  "dec_value n [] = n"
| "dec_value n (c # cs) = dec_value (n * 10 + digit_val c) cs"

lemma dec_value_mono: "n \<le> dec_value n s"
  by (induction n s rule: dec_value.induct) auto

lemma parse_digits_value:
  "parse_digits n s = (if (\<forall>c \<in> set s. is_digit c) \<and> dec_value n s \<le> uintmax_max
     then Some (dec_value n s) else None)" if "n \<le> uintmax_max"
  using that
proof (induction n s rule: parse_digits.induct)
  case (1 parsed)
  then show ?case by simp
next
  case (2 parsed c cs)
  show ?case
  proof (cases "is_digit c")
    case False
    then show ?thesis by simp
  next
    case True
    then have d9: "digit_val c \<le> 9" by (rule digit_val_le)
    have big: "(9::nat) \<le> uintmax_max" by (simp add: uintmax_max_def)
    show ?thesis
    proof (cases "parsed > (uintmax_max - digit_val c) div 10")
      case over: True
      then have "parsed * 10 + digit_val c > uintmax_max" using d9 big by linarith
      then have "dec_value (parsed * 10 + digit_val c) cs > uintmax_max"
        using dec_value_mono order_less_le_trans by blast
      with over True show ?thesis by simp
    next
      case fits: False
      then have "parsed * 10 + digit_val c \<le> uintmax_max" using d9 big by linarith
      with 2 True fits show ?thesis by simp
    qed
  qed
qed

lemma dec_value_append: "dec_value n (a @ b) = dec_value (dec_value n a) b"
  by (induction n a rule: dec_value.induct) auto

lemma dec_value_nat_digits: "dec_value 0 (nat_digits n) = n"
proof (induction n rule: nat_digits.induct)
  case (1 n)
  show ?case
  proof (cases "n < 10")
    case True
    then show ?thesis by (subst nat_digits.simps) simp
  next
    case False
    with 1 have "dec_value 0 (nat_digits (n div 10)) = n div 10" by simp
    with False show ?thesis by (subst nat_digits.simps) (simp add: dec_value_append)
  qed
qed

lemma parse_nat_digits:
  "n \<le> uintmax_max \<Longrightarrow> parse_unsigned_decimal (nat_digits n) = Some n"
  by (simp add: parse_unsigned_decimal_def parse_digits_value dec_value_nat_digits
      nat_digits_is_digit)

lemma parse_unsigned_decimal_sound:
  assumes "parse_unsigned_decimal t = Some v"
  shows "t \<noteq> [] \<and> (\<forall>c \<in> set t. is_digit c) \<and> v = dec_value 0 t \<and> v \<le> uintmax_max"
  using assms
  by (auto simp: parse_unsigned_decimal_def parse_digits_value split: if_splits)

section \<open>The header\<close>

lemmas range_eval = parse_file_range_def range_init_def reject_def final_check_def
  suffix_range_def explicit_range_def parse_unsigned_decimal_def uintmax_max_def
  starts_with_def char_class_defs Let_def


definition inside :: "nat \<Rightarrow> file_range \<Rightarrow> bool" where
  "inside n r \<longleftrightarrow> (valid r \<longrightarrow> range_start r \<le> range_end r \<and> range_end r < n)"

lemma inside_reject [simp]: "inside n (reject r)"
  by (simp add: inside_def reject_def)

lemma inside_final_check: "range_end r < n \<Longrightarrow> inside n (final_check r)"
  by (simp add: inside_def final_check_def reject_def)

lemma inside_suffix: "range_end r < n \<Longrightarrow> inside n (suffix_range r n spec)"
  by (auto simp: suffix_range_def intro!: inside_final_check split: option.split)

lemma inside_explicit: "range_end r < n \<Longrightarrow> inside n (explicit_range r n spec dash)"
  by (auto simp: explicit_range_def Let_def intro!: inside_final_check split: option.split)

lemma inside_init: "0 < n \<Longrightarrow> inside n (range_init n)"
  by (simp add: inside_def range_init_def)

lemma inside_parse: "0 < n \<Longrightarrow> inside n (parse_file_range h n ir)"
  unfolding parse_file_range_def Let_def
  by (simp add: inside_init inside_suffix inside_explicit range_init_def split: option.split)
    (simp add: inside_def)

text \<open>
  whatever the header says, a range that the parser accepts lies inside the file: if the
  result is valid and the file is not empty, then \<open>start \<le> end < fileSize\<close>. The file server
  reads exactly \<open>end - start + 1\<close> bytes, so this is what keeps it inside the file.
\<close>

theorem range_inside_file:
  assumes "0 < n" and "valid (parse_file_range h n ir)"
  shows "range_start (parse_file_range h n ir) \<le> range_end (parse_file_range h n ir)
       \<and> range_end (parse_file_range h n ir) < n"
  using inside_parse [OF assms(1), of h ir] assms(2) by (simp add: inside_def)

theorem range_inside_file_witness:
  "range_start (parse_file_range ''bytes=2-100'' 10 False) = 2
   \<and> range_end (parse_file_range ''bytes=2-100'' 10 False) < 10"
proof -
  have e: "parse_file_range ''bytes=2-100'' 10 False
     = \<lparr>requested = True, valid = True, range_start = 2, range_end = 9\<rparr>"
    by (simp add: range_eval)
  show ?thesis using range_inside_file [of 10 "''bytes=2-100''" False] by (simp add: e)
qed

text \<open>The header a client writes for the bytes \<open>a\<close> to \<open>b\<close>.\<close>

definition range_header :: "nat \<Rightarrow> nat \<Rightarrow> string" where
  "range_header a b = ''bytes='' @ nat_digits a @ CHR ''-'' # nat_digits b"

lemma dash_comma_no_digit [simp]: "\<not> is_digit (CHR ''-'')" "\<not> is_digit (CHR '','')"
  by (simp_all add: char_class_defs)

lemma parse_range_header:
  assumes "0 < n"
  shows "parse_file_range (range_header a b) n False =
    explicit_range ((range_init n)\<lparr>requested := True\<rparr>) n
      (nat_digits a @ CHR ''-'' # nat_digits b) (length (nat_digits a))"
proof -
  let ?spec = "nat_digits a @ CHR ''-'' # nat_digits b"
  have dash: "str_find (CHR ''-'') ?spec = Some (length (nat_digits a))"
    by (rule str_find_split) (simp add: non_digit_notin_nat_digits)
  have nodash: "str_find (CHR ''-'') (nat_digits b) = None"
    by (simp add: str_find_None non_digit_notin_nat_digits)
  have "CHR '','' \<notin> set (range_header a b)"
    by (simp add: range_header_def non_digit_notin_nat_digits)
  then have comma: "str_find (CHR '','') (range_header a b) = None"
    by (simp add: str_find_None)
  have "starts_with ''bytes='' (range_header a b)" and "drop 6 (range_header a b) = ?spec"
    by (simp_all add: range_header_def starts_with_def)
  with assms dash nodash comma show ?thesis
    by (simp add: parse_file_range_def range_header_def)
qed

text \<open>
  A range header is read back as written: for \<open>bytes=a-b\<close> with \<open>a \<le> b\<close>, \<open>a\<close> inside the
  file and both numbers in the 64-bit range, the parser returns exactly the bytes \<open>a\<close> to
  \<open>min b (fileSize - 1)\<close>, and marks the range as requested and valid.
\<close>

theorem range_roundtrip:
  assumes "a \<le> b" and "a < n" and "b \<le> uintmax_max"
  shows "parse_file_range (range_header a b) n False =
    \<lparr>requested = True, valid = True, range_start = a, range_end = min b (n - 1)\<rparr>"
proof -
  have "a \<le> min b (n - 1)" using assms by simp
  with assms show ?thesis
    by (simp add: parse_range_header explicit_range_def parse_nat_digits final_check_def Let_def
        range_init_def)
qed

theorem range_roundtrip_witness:
  "parse_file_range (range_header 5 99) 60 False
     = \<lparr>requested = True, valid = True, range_start = 5, range_end = 59\<rparr>"
  using range_roundtrip [of 5 99 60] by (simp add: uintmax_max_def)

end
