(* ===== verification/FileSystem.thy ===== *)
theory FileSystem
  imports Prelude "HOL-Library.AList" "HOL-Library.Sublist"
begin

text \<open>
  The part of \<^verbatim>\<open>std::filesystem\<close> and of the operating system below it that the backend uses: paths as
  component lists, a file system as a list of entries, resolution of symbolic links, the status functions,
  iteration over a directory, and the operations that create, write, rename and remove. The order of the
  entries is arbitrary, which is what \<^verbatim>\<open>directory_iterator\<close> promises; operations of other processes between
  two calls are not modelled.
\<close>

section \<open>Paths\<close>

text \<open>A path is absolute: the list of its components from the root directory.\<close>

type_synonym path = "string list"

function split_slash :: "string \<Rightarrow> string list" where
  "split_slash s =
    (let seg = takeWhile (\<lambda>c. c \<noteq> CHR ''/'') s in
     case dropWhile (\<lambda>c. c \<noteq> CHR ''/'') s of
       [] \<Rightarrow> [seg]
     | slash # rest \<Rightarrow> seg # split_slash rest)"
  by pat_completeness auto
termination
proof (relation "measure length")
  fix s seg slash rest
  assume "dropWhile (\<lambda>c. c \<noteq> CHR ''/'') s = slash # (rest :: string)"
  then show "(rest, s) \<in> measure length"
    using length_dropWhile_le [of "\<lambda>c. c \<noteq> CHR ''/''" s] by simp
qed simp

declare split_slash.simps [simp del]

text \<open>The components; repeated separators count once, and a trailing one is dropped.\<close>

definition path_of :: "string \<Rightarrow> path" where
  "path_of s = filter (\<lambda>c. c \<noteq> []) (split_slash s)"

text \<open>Iterating over a path: as above, but a trailing separator gives an empty last element.\<close>

definition path_elements :: "string \<Rightarrow> string list" where
  "path_elements s =
    (if s = [] then []
     else path_of s @ (if last s = CHR ''/'' \<and> path_of s \<noteq> [] then [[]] else []))"

definition is_absolute :: "string \<Rightarrow> bool" where
  "is_absolute s \<longleftrightarrow> starts_with ''/'' s"

text \<open>\<^verbatim>\<open>p / s\<close>: an absolute right operand replaces the left one.\<close>

definition path_append :: "path \<Rightarrow> string \<Rightarrow> path" where
  "path_append p s = (if is_absolute s then path_of s else p @ path_of s)"

definition path_string :: "path \<Rightarrow> string" where
  "path_string p = concat (map (\<lambda>c. CHR ''/'' # c) p)"

definition plain_name :: "string \<Rightarrow> bool" where
  "plain_name c \<longleftrightarrow> c \<noteq> [] \<and> CHR ''/'' \<notin> set c \<and> c \<noteq> ''.'' \<and> c \<noteq> ''..''"

section \<open>Entries and resolution\<close>

datatype entry = Directory | Regular string | Link string

type_synonym files = "(path \<times> entry) list"

definition entry_at :: "files \<Rightarrow> path \<Rightarrow> entry option" where
  "entry_at fs p = (if p = [] then Some Directory else map_of fs p)"

text \<open>
  \<^verbatim>\<open>realpath\<close>: every component is looked up in the directory reached so far and a link continues with its
  target. \<open>Not_found\<close> is \<^verbatim>\<open>ENOENT\<close> or \<^verbatim>\<open>ENOTDIR\<close>; after 40 links the lookup is a \<open>Loop\<close> (\<^verbatim>\<open>ELOOP\<close>).
\<close>

datatype lookup = Found path | Not_found | Loop

datatype walk = Stuck | Move path | Follow string

definition step_to :: "files \<Rightarrow> path \<Rightarrow> string \<Rightarrow> walk" where
  "step_to fs here c =
    (if entry_at fs here \<noteq> Some Directory then Stuck
     else if c = [] \<or> c = ''.'' then Move here
     else if c = ''..'' then Move (butlast here)
     else case entry_at fs (here @ [c]) of
         None \<Rightarrow> Stuck
       | Some (Link target) \<Rightarrow> Follow target
       | Some _ \<Rightarrow> Move (here @ [c]))"

function resolve :: "nat \<Rightarrow> files \<Rightarrow> path \<Rightarrow> path \<Rightarrow> lookup" where
  "resolve links fs here [] = Found here"
| "resolve links fs here (c # cs) =
    (case step_to fs here c of
       Stuck \<Rightarrow> Not_found
     | Move d \<Rightarrow> resolve links fs d cs
     | Follow target \<Rightarrow>
         (case links of
            0 \<Rightarrow> Loop
          | Suc n \<Rightarrow> resolve n fs (if is_absolute target then [] else here) (path_of target @ cs)))"
  by pat_completeness auto
termination
  by (relation "inv_image (less_than <*lex*> less_than) (\<lambda>(links, fs, here, cs). (links, length cs))") auto

definition max_links :: nat where "max_links = 40"

definition look_up :: "files \<Rightarrow> path \<Rightarrow> lookup" where
  "look_up fs p = resolve max_links fs [] p"

definition canonical :: "files \<Rightarrow> path \<Rightarrow> path option" where
  "canonical fs p = (case look_up fs p of Found q \<Rightarrow> Some q | _ \<Rightarrow> None)"

definition status :: "files \<Rightarrow> path \<Rightarrow> entry option" where
  "status fs p = (case canonical fs p of None \<Rightarrow> None | Some q \<Rightarrow> entry_at fs q)"

definition symlink_status :: "files \<Rightarrow> path \<Rightarrow> entry option" where
  "symlink_status fs p =
    (if p = [] \<or> last p \<in> {[], ''.'', ''..''} then status fs p
     else case canonical fs (butlast p) of
         None \<Rightarrow> None
       | Some d \<Rightarrow> if entry_at fs d = Some Directory then entry_at fs (d @ [last p]) else None)"

definition path_exists :: "files \<Rightarrow> path \<Rightarrow> bool" where
  "path_exists fs p \<longleftrightarrow> status fs p \<noteq> None"

definition is_directory :: "files \<Rightarrow> path \<Rightarrow> bool" where
  "is_directory fs p \<longleftrightarrow> status fs p = Some Directory"

definition is_regular_file :: "files \<Rightarrow> path \<Rightarrow> bool" where
  "is_regular_file fs p \<longleftrightarrow> (case status fs p of Some (Regular _) \<Rightarrow> True | _ \<Rightarrow> False)"

definition is_link :: "entry option \<Rightarrow> bool" where
  "is_link e \<longleftrightarrow> (case e of Some (Link _) \<Rightarrow> True | _ \<Rightarrow> False)"

text \<open>The entries of a directory, given by its canonical path.\<close>

definition children :: "files \<Rightarrow> path \<Rightarrow> path list" where
  "children fs d = filter (\<lambda>p. p \<noteq> [] \<and> butlast p = d) (map fst fs)"

definition directory_entries :: "files \<Rightarrow> path \<Rightarrow> path list" where
  "directory_entries fs p =
    (case canonical fs p of
       None \<Rightarrow> []
     | Some d \<Rightarrow> if entry_at fs d = Some Directory then map (\<lambda>q. p @ [last q]) (children fs d) else [])"

text \<open>\<^verbatim>\<open>weakly_canonical\<close>: the canonical form of the longest existing prefix, then the rest, normalised.\<close>

fun existing_prefix :: "files \<Rightarrow> path \<Rightarrow> path \<Rightarrow> path \<times> path" where
  "existing_prefix fs done [] = (done, [])"
| "existing_prefix fs done (c # cs) =
    (if path_exists fs (done @ [c]) then existing_prefix fs (done @ [c]) cs else (done, c # cs))"

fun lexically_normal :: "path \<Rightarrow> path \<Rightarrow> path" where
  "lexically_normal done [] = done"
| "lexically_normal done (c # cs) =
    (if c = [] \<or> c = ''.'' then lexically_normal done cs
     else if c = ''..'' then lexically_normal (butlast done) cs
     else lexically_normal (done @ [c]) cs)"

definition weakly_canonical :: "files \<Rightarrow> path \<Rightarrow> path option" where
  "weakly_canonical fs p =
    (if path_exists fs p then canonical fs p
     else if look_up fs p = Loop then None
     else let (pre, rest) = existing_prefix fs [] p in
          case canonical fs pre of None \<Rightarrow> None | Some q \<Rightarrow> Some (lexically_normal q rest))"

section \<open>Operations\<close>

text \<open>
  What the system refuses (permissions, a full disk) is the argument \<open>refuse\<close>. The first component of
  each result tells whether the error code is set.
\<close>

datatype fs_op = Mkdir path | Write path | Rename path | Unlink path

definition create_directory :: "(fs_op \<Rightarrow> bool) \<Rightarrow> path \<Rightarrow> files \<Rightarrow> (bool \<times> bool) \<times> files" where
  "create_directory refuse p fs =
    (if p = [] then ((False, False), fs)
     else case canonical fs (butlast p) of
         None \<Rightarrow> ((True, False), fs)
       | Some d \<Rightarrow>
           if entry_at fs d \<noteq> Some Directory then ((True, False), fs)
           else if entry_at fs (d @ [last p]) \<noteq> None then ((\<not> is_directory fs p, False), fs)
           else if refuse (Mkdir p) then ((True, False), fs)
           else ((False, True), (d @ [last p], Directory) # fs))"

text \<open>\<^verbatim>\<open>create_directories\<close>: the missing prefixes, shortest first, up to the first error.\<close>

fun make_prefixes :: "(fs_op \<Rightarrow> bool) \<Rightarrow> path list \<Rightarrow> files \<Rightarrow> bool \<times> files" where
  "make_prefixes refuse [] fs = (False, fs)"
| "make_prefixes refuse (p # ps) fs =
    (case create_directory refuse p fs of
       ((True, _), fs) \<Rightarrow> (True, fs)
     | ((False, _), fs) \<Rightarrow> make_prefixes refuse ps fs)"

definition create_directories :: "(fs_op \<Rightarrow> bool) \<Rightarrow> path \<Rightarrow> files \<Rightarrow> bool \<times> files" where
  "create_directories refuse p fs = make_prefixes refuse (map (\<lambda>n. take n p) [1..<Suc (length p)]) fs"

definition remove_all :: "(fs_op \<Rightarrow> bool) \<Rightarrow> path \<Rightarrow> files \<Rightarrow> files" where
  "remove_all refuse p fs =
    (case canonical fs (butlast p) of
       None \<Rightarrow> fs
     | Some d \<Rightarrow> if refuse (Unlink p) then fs else filter (\<lambda>(q, _). \<not> prefix (d @ [last p]) q) fs)"

text \<open>\<^verbatim>\<open>ofstream\<close>: opening truncates or creates; an entry that is a link is followed.\<close>

definition write_file :: "(fs_op \<Rightarrow> bool) \<Rightarrow> path \<Rightarrow> string \<Rightarrow> files \<Rightarrow> bool \<times> files" where
  "write_file refuse p text fs =
    (if refuse (Write p) then (True, fs)
     else case canonical fs p of
         Some q \<Rightarrow>
           (case entry_at fs q of
              Some (Regular _) \<Rightarrow> (False, AList.update q (Regular text) fs)
            | _ \<Rightarrow> (True, fs))
       | None \<Rightarrow>
           (case canonical fs (butlast p) of
              None \<Rightarrow> (True, fs)
            | Some d \<Rightarrow>
                if entry_at fs d = Some Directory \<and> entry_at fs (d @ [last p]) = None
                then (False, (d @ [last p], Regular text) # fs) else (True, fs)))"

text \<open>\<^verbatim>\<open>rename\<close> of a regular file within one directory, the only use the code makes of it.\<close>

definition rename_file :: "(fs_op \<Rightarrow> bool) \<Rightarrow> path \<Rightarrow> path \<Rightarrow> files \<Rightarrow> bool \<times> files" where
  "rename_file refuse p q fs =
    (case (symlink_status fs p, canonical fs (butlast p), canonical fs (butlast q)) of
       (Some (Regular text), Some dp, Some dq) \<Rightarrow>
         if refuse (Rename p) \<or> entry_at fs dq \<noteq> Some Directory
            \<or> entry_at fs (dq @ [last q]) = Some Directory then (True, fs)
         else (False, AList.update (dq @ [last q]) (Regular text) (AList.delete (dp @ [last p]) fs))
     | _ \<Rightarrow> (True, fs))"

definition remove_file :: "(fs_op \<Rightarrow> bool) \<Rightarrow> path \<Rightarrow> files \<Rightarrow> bool \<times> files" where
  "remove_file refuse p fs =
    (case canonical fs (butlast p) of
       None \<Rightarrow> (False, fs)
     | Some d \<Rightarrow>
         (case entry_at fs (d @ [last p]) of
            None \<Rightarrow> (False, fs)
          | Some e \<Rightarrow>
              if refuse (Unlink p) \<or> (e = Directory \<and> children fs (d @ [last p]) \<noteq> []) then (True, fs)
              else (False, AList.delete (d @ [last p]) fs)))"

definition read_file :: "files \<Rightarrow> path \<Rightarrow> string" where
  "read_file fs p = (case status fs p of Some (Regular text) \<Rightarrow> text | _ \<Rightarrow> [])"

section \<open>Resolved paths\<close>

text \<open>A real path has only directories on the way, no link anywhere, and no dot components.\<close>

definition real_path :: "files \<Rightarrow> path \<Rightarrow> bool" where
  "real_path fs p \<longleftrightarrow> (\<forall>k<length p. entry_at fs (take k p) = Some Directory)
    \<and> (\<forall>k\<le>length p. entry_at fs (take k p) \<noteq> None \<and> \<not> is_link (entry_at fs (take k p)))
    \<and> (\<forall>c\<in>set p. c \<notin> {[], ''.'', ''..''})"

lemma real_path_Nil [simp]: "real_path fs []"
  by (simp add: real_path_def entry_at_def is_link_def)

lemma real_path_snoc:
  "real_path fs (p @ [c]) \<longleftrightarrow> real_path fs p \<and> entry_at fs p = Some Directory
    \<and> entry_at fs (p @ [c]) \<noteq> None \<and> \<not> is_link (entry_at fs (p @ [c])) \<and> c \<notin> {[], ''.'', ''..''}"
  by (auto simp: real_path_def less_Suc_eq le_Suc_eq)

lemma real_path_butlast: "real_path fs p \<Longrightarrow> real_path fs (butlast p)"
  by (cases p rule: rev_cases) (simp_all add: real_path_snoc)

lemma real_path_prefix: "real_path fs (p @ q) \<Longrightarrow> real_path fs p"
  by (induction q rule: rev_induct) (auto simp: real_path_snoc simp flip: append_assoc)

lemma step_to_Move:
  "step_to fs here c = Move d \<longleftrightarrow> entry_at fs here = Some Directory \<and>
    (if c \<in> {[], ''.''} then d = here else if c = ''..'' then d = butlast here
     else d = here @ [c] \<and> entry_at fs d \<noteq> None \<and> \<not> is_link (entry_at fs d))"
  by (auto simp: step_to_def is_link_def split: option.splits entry.splits)

lemma real_path_step: "real_path fs here \<Longrightarrow> step_to fs here c = Move d \<Longrightarrow> real_path fs d"
  by (auto simp: step_to_Move real_path_butlast real_path_snoc split: if_splits)

lemma resolve_real: "resolve n fs here cs = Found q \<Longrightarrow> real_path fs here \<Longrightarrow> real_path fs q"
proof (induction n fs here cs rule: resolve.induct)
  case (2 links fs here c cs)
  show ?case
  proof (cases "step_to fs here c")
    case (Move d)
    with 2(1) [OF Move] 2(3,4) real_path_step show ?thesis by simp
  next
    case (Follow target)
    with 2(3) obtain n where n: "links = Suc n" by (cases links) auto
    with Follow 2(2) [OF Follow n] 2(3,4) show ?thesis by (simp split: if_splits)
  qed (use 2(3) in simp)
qed simp

lemma resolve_append_real:
  "real_path fs (here @ p) \<Longrightarrow> resolve n fs here (p @ cs) = resolve n fs (here @ p) cs"
proof (induction p arbitrary: here)
  case (Cons c p)
  have "real_path fs (here @ [c])" using Cons.prems real_path_prefix [of fs "here @ [c]" p] by simp
  then have "step_to fs here c = Move (here @ [c])" by (simp add: step_to_Move real_path_snoc)
  with Cons.IH [of "here @ [c]"] Cons.prems show ?case by simp
qed simp

lemma look_up_real: "real_path fs p \<Longrightarrow> look_up fs (p @ cs) = resolve max_links fs p cs"
  using resolve_append_real [of fs "[]" p] by (simp add: look_up_def)

lemma canonical_real: "canonical fs p = Some q \<Longrightarrow> real_path fs q"
  by (auto simp: canonical_def look_up_def dest: resolve_real split: lookup.splits)

lemma canonical_of_real: "real_path fs p \<Longrightarrow> canonical fs p = Some p"
  using look_up_real [of fs p "[]"] by (simp add: canonical_def)

lemma status_real: "real_path fs p \<Longrightarrow> status fs p = entry_at fs p"
  by (simp add: status_def canonical_of_real)

lemma symlink_status_child:
  "real_path fs d \<Longrightarrow> entry_at fs d = Some Directory \<Longrightarrow> c \<notin> {[], ''.'', ''..''} \<Longrightarrow>
   symlink_status fs (d @ [c]) = entry_at fs (d @ [c])"
  by (simp add: symlink_status_def canonical_of_real)

text \<open>A failed lookup stays failed when links are followed further back or more of them are allowed.\<close>

lemma resolve_more_links: "resolve n fs here cs = Not_found \<Longrightarrow> n \<le> m \<Longrightarrow> resolve m fs here cs = Not_found"
proof (induction n fs here cs arbitrary: m rule: resolve.induct)
  case (2 links fs here c cs)
  show ?case
  proof (cases "step_to fs here c")
    case (Move d)
    with 2(1) [OF Move] 2(3,4) show ?thesis by simp
  next
    case (Follow target)
    with 2(3) obtain n where n: "links = Suc n" by (cases links) auto
    with 2(4) obtain k where "m = Suc k" "n \<le> k" by (cases m) auto
    with Follow n 2(2) [OF Follow n, of k] 2(3) show ?thesis by simp
  qed simp
qed simp

lemma resolve_append_lost:
  "resolve n fs here (xs @ ys) = Not_found \<Longrightarrow> resolve n fs here xs = Found q \<Longrightarrow>
   \<exists>m\<le>n. resolve m fs q ys = Not_found"
proof (induction n fs here xs rule: resolve.induct)
  case (2 links fs here c cs)
  show ?case
  proof (cases "step_to fs here c")
    case (Follow target)
    with 2(4) obtain n where n: "links = Suc n" by (cases links) auto
    with Follow 2(2) [OF Follow n] 2(3,4) show ?thesis by (auto intro: le_SucI)
  qed (use 2 in auto)
qed auto

lemma lexically_normal_plain:
  "\<forall>c\<in>set cs. c \<notin> {[], ''.'', ''..''} \<Longrightarrow> lexically_normal here cs = here @ cs"
  by (induction cs arbitrary: here) auto

lemma existing_prefix_extends:
  "existing_prefix fs here cs = (p, r) \<Longrightarrow> \<exists>cs'. cs = cs' @ r \<and> p = here @ cs'"
proof (induction fs here cs rule: existing_prefix.induct)
  case (2 fs here c cs)
  show ?case
  proof (cases "path_exists fs (here @ [c])")
    case True
    with 2 obtain cs' where "cs = cs' @ r" "p = (here @ [c]) @ cs'" by auto
    then show ?thesis by (intro exI [of _ "c # cs'"]) simp
  qed (use 2 in auto)
qed simp

text \<open>
  The weakly canonical form of an existing real directory continued by plain names: when the result
  exists here all, the path existed, so the result is its canonical form.
\<close>

lemma existing_prefix_keeps:
  "existing_prefix fs here (d @ cs) = (p, r) \<Longrightarrow> real_path fs (here @ d) \<Longrightarrow> \<exists>cs'. cs = cs' @ r \<and> p = here @ d @ cs'"
proof (induction d arbitrary: here)
  case Nil
  then show ?case using existing_prefix_extends [of fs here cs p r] by simp
next
  case (Cons c d)
  have r: "real_path fs (here @ [c])" using Cons.prems(2) real_path_prefix [of fs "here @ [c]" d] by simp
  then have "path_exists fs (here @ [c])"
    by (simp add: path_exists_def status_real real_path_snoc)
  with Cons.prems Cons.IH [of "here @ [c]"] show ?case by simp
qed

lemma weakly_canonical_regular:
  assumes "real_path fs d" and "\<forall>c\<in>set cs. c \<notin> {[], ''.'', ''..''}"
    and "weakly_canonical fs (d @ cs) = Some p" and "is_regular_file fs p"
  shows "canonical fs (d @ cs) = Some p"
proof (cases "path_exists fs (d @ cs)")
  case True
  with assms(3) show ?thesis by (simp add: weakly_canonical_def)
next
  case False
  obtain pre rest where pr: "existing_prefix fs [] (d @ cs) = (pre, rest)" by (cases "existing_prefix fs [] (d @ cs)")
  from existing_prefix_keeps [OF pr] assms(1) obtain cs' where cs: "cs = cs' @ rest" "pre = d @ cs'" by auto
  from False assms(3) pr obtain q where q: "canonical fs pre = Some q" "p = lexically_normal q rest"
    and notloop: "look_up fs (d @ cs) \<noteq> Loop"
    by (auto simp: weakly_canonical_def split: if_splits option.splits)
  have p: "p = q @ rest" using q(2) assms(2) cs by (simp add: lexically_normal_plain)
  have "look_up fs (pre @ rest) = Not_found"
  proof (cases "look_up fs (d @ cs)")
    case (Found r)
    then have "real_path fs r" by (auto simp: look_up_def dest: resolve_real)
    with Found False show ?thesis
      by (cases r rule: rev_cases)
        (auto simp: path_exists_def status_def canonical_def entry_at_def real_path_snoc)
  qed (use notloop cs in auto)
  moreover have "look_up fs pre = Found q" using q(1) by (auto simp: canonical_def split: lookup.splits)
  ultimately obtain m where "m \<le> max_links" "resolve m fs q rest = Not_found"
    unfolding look_up_def by (blast dest: resolve_append_lost)
  then have "look_up fs p = Not_found"
    using look_up_real [OF canonical_real [OF q(1)]] p by (simp add: resolve_more_links)
  with assms(4) show ?thesis by (simp add: is_regular_file_def status_def canonical_def)
qed

section \<open>Rendering\<close>

definition names_ok :: "path \<Rightarrow> bool" where
  "names_ok p \<longleftrightarrow> (\<forall>c\<in>set p. c \<noteq> [] \<and> CHR ''/'' \<notin> set c)"

lemma names_ok_simps [simp]:
  "names_ok []" "names_ok (c # p) \<longleftrightarrow> c \<noteq> [] \<and> CHR ''/'' \<notin> set c \<and> names_ok p"
  "names_ok (p @ q) \<longleftrightarrow> names_ok p \<and> names_ok q"
  by (auto simp: names_ok_def)

lemma split_slash_no_slash: "\<forall>c\<in>set (split_slash s). CHR ''/'' \<notin> set c"
proof (induction s rule: split_slash.induct)
  case (1 s)
  have "CHR ''/'' \<notin> set (takeWhile (\<lambda>c. c \<noteq> CHR ''/'') s)" by (auto dest: set_takeWhileD)
  with 1 show ?case by (subst split_slash.simps) (auto simp: Let_def split: list.splits)
qed

lemma names_ok_path_of [simp]: "names_ok (path_of s)"
  using split_slash_no_slash [of s] by (auto simp: names_ok_def path_of_def)

lemma names_ok_append [simp]: "names_ok p \<Longrightarrow> names_ok (path_append p s)"
  by (simp add: path_append_def)

lemma split_slash_plain: "CHR ''/'' \<notin> set c \<Longrightarrow> split_slash c = [c]"
proof -
  assume "CHR ''/'' \<notin> set c"
  then have "takeWhile (\<lambda>x. x \<noteq> CHR ''/'') c = c" "dropWhile (\<lambda>x. x \<noteq> CHR ''/'') c = []"
    by (auto simp: takeWhile_eq_all_conv dropWhile_eq_Nil_conv)
  then show ?thesis by (subst split_slash.simps) (simp only: Let_def list.case)
qed

lemma split_slash_Cons: "CHR ''/'' \<notin> set c \<Longrightarrow> split_slash (c @ CHR ''/'' # s) = c # split_slash s"
proof -
  assume "CHR ''/'' \<notin> set c"
  then have "takeWhile (\<lambda>x. x \<noteq> CHR ''/'') (c @ CHR ''/'' # s) = c"
    "dropWhile (\<lambda>x. x \<noteq> CHR ''/'') (c @ CHR ''/'' # s) = CHR ''/'' # s"
    by (induction c) auto
  then show ?thesis by (subst split_slash.simps) (simp only: Let_def list.case)
qed

lemma path_of_plain: "c \<noteq> [] \<Longrightarrow> CHR ''/'' \<notin> set c \<Longrightarrow> path_of c = [c]"
  by (simp add: path_of_def split_slash_plain)

lemma path_append_plain: "c \<noteq> [] \<Longrightarrow> CHR ''/'' \<notin> set c \<Longrightarrow> path_append p c = p @ [c]"
  by (cases c) (auto simp: path_append_def is_absolute_def starts_with_def path_of_plain)

lemma path_of_path_string: "names_ok p \<Longrightarrow> path_of (path_string p) = p"
proof (induction p)
  case Nil
  then show ?case by (simp add: path_string_def path_of_def split_slash_plain)
next
  case (Cons c p)
  have a: "split_slash (CHR ''/'' # s) = [] # split_slash s" for s
    using split_slash_Cons [of "[]" s] by simp
  have "split_slash (path_string (c # p)) = [] # c # tl (split_slash (path_string p))"
  proof (cases p)
    case Nil
    with Cons.prems show ?thesis
      by (simp add: path_string_def a split_slash_plain)
  next
    case (Cons c' p')
    with \<open>names_ok (c # p)\<close> show ?thesis
      by (simp add: path_string_def a split_slash_Cons)
  qed
  moreover have "hd (split_slash (path_string p)) = []"
    by (cases p) (simp_all add: path_string_def a split_slash_plain)
  moreover have "split_slash (path_string p) \<noteq> []" by (subst split_slash.simps) (simp add: Let_def split: list.split)
  ultimately have "path_of (path_string (c # p)) = c # path_of (path_string p)"
    using Cons.prems by (cases "split_slash (path_string p)") (auto simp: path_of_def)
  with Cons show ?case by simp
qed

section \<open>A created directory\<close>

lemma entry_at_Cons: "x \<noteq> [] \<Longrightarrow> entry_at ((x, e) # fs) p = (if p = x then Some e else entry_at fs p)"
  by (auto simp: entry_at_def)

lemma step_to_extend:
  "entry_at fs x = None \<Longrightarrow> step_to fs here c \<noteq> Stuck \<Longrightarrow> step_to ((x, e) # fs) here c = step_to fs here c"
proof -
  assume a: "entry_at fs x = None" "step_to fs here c \<noteq> Stuck"
  then have "x \<noteq> []" by (auto simp: entry_at_def)
  with a show ?thesis
    by (auto simp: step_to_def entry_at_Cons split: option.splits if_splits)
qed

lemma resolve_extend:
  "entry_at fs x = None \<Longrightarrow> resolve n fs here cs = Found q \<Longrightarrow> resolve n ((x, e) # fs) here cs = Found q"
proof (induction n fs here cs rule: resolve.induct)
  case (2 links fs here c cs)
  show ?case
  proof (cases "step_to fs here c")
    case Stuck
    with 2 show ?thesis by simp
  next
    case (Move d)
    with 2(1) [OF Move] 2(3,4) step_to_extend [OF 2(3), of here c e] show ?thesis by simp
  next
    case (Follow target)
    with 2(4) obtain n where n: "links = Suc n" by (cases links) auto
    with Follow 2(2) [OF Follow n] 2(3,4) step_to_extend [OF 2(3), of here c e] show ?thesis by simp
  qed
qed simp

lemma resolve_append_found:
  "resolve n fs here xs = Found q \<Longrightarrow> \<exists>m. resolve n fs here (xs @ ys) = resolve m fs q ys"
proof (induction n fs here xs rule: resolve.induct)
  case (2 links fs here c cs)
  show ?case
  proof (cases "step_to fs here c")
    case (Follow target)
    with 2(3) obtain n where n: "links = Suc n" by (cases links) auto
    with Follow 2(2) [OF Follow n] 2(3) show ?thesis by simp
  qed (use 2 in auto)
qed auto

lemma create_directory_done:
  assumes "create_directory refuse p fs = ((False, True), fs')" and "last p \<notin> {[], ''.'', ''..''}"
  shows "is_directory fs' p \<and> \<not> path_exists fs p"
proof -
  from assms(1) obtain d where p: "p \<noteq> []" and d: "canonical fs (butlast p) = Some d" "entry_at fs d = Some Directory"
    and none: "entry_at fs (d @ [last p]) = None" and fs': "fs' = (d @ [last p], Directory) # fs"
    by (auto simp: create_directory_def split: option.splits if_splits)
  from d(1) have f: "resolve max_links fs [] (butlast p) = Found d"
    by (auto simp: canonical_def look_up_def split: lookup.splits)
  have "resolve max_links fs' [] (butlast p) = Found d" by (simp add: fs' resolve_extend [OF none f])
  from resolve_append_found [OF this, of "[last p]"] p
  obtain m where m: "look_up fs' p = resolve m fs' d [last p]" by (auto simp: look_up_def)
  have "step_to fs' d (last p) = Move (d @ [last p])"
    using assms(2) d(2) by (auto simp: step_to_Move fs' entry_at_Cons is_link_def)
  with m have c: "canonical fs' p = Some (d @ [last p])" by (simp add: canonical_def)
  from resolve_append_found [OF f, of "[last p]"] p
  obtain k where k: "look_up fs p = resolve k fs d [last p]" by (auto simp: look_up_def)
  have "step_to fs d (last p) = Stuck" using assms(2) d(2) none by (auto simp: step_to_def)
  with k c show ?thesis by (simp add: is_directory_def path_exists_def status_def canonical_def fs' entry_at_Cons)
qed

section \<open>Replacing a file in a directory\<close>

text \<open>What the entries at and above a directory are decides whether its path is real.\<close>

lemma real_path_leaf:
  "real_path fs d \<Longrightarrow> \<forall>p. length p \<le> length d \<longrightarrow> entry_at fs' p = entry_at fs p \<Longrightarrow> real_path fs' d"
  by (simp add: real_path_def)

definition free_name :: "files \<Rightarrow> path \<Rightarrow> bool" where
  "free_name fs p \<longleftrightarrow> (case entry_at fs p of None \<Rightarrow> True | Some (Regular _) \<Rightarrow> True | _ \<Rightarrow> False)"

lemma write_in_directory:
  assumes "real_path fs d" and "entry_at fs d = Some Directory" and "n \<notin> {[], ''.'', ''..''}"
    and "free_name fs (d @ [n])" and "\<not> refuse (Write (d @ [n]))"
  shows "\<exists>fs'. write_file refuse (d @ [n]) text fs = (False, fs')
    \<and> (\<forall>p. entry_at fs' p = (if p = d @ [n] then Some (Regular text) else entry_at fs p))"
proof (cases "entry_at fs (d @ [n])")
  case None
  then have "step_to fs d n = Stuck" using assms(2,3) by (auto simp: step_to_def)
  then have "canonical fs (d @ [n]) = None" by (simp add: canonical_def look_up_real [OF assms(1)])
  with None assms show ?thesis by (simp add: write_file_def canonical_of_real entry_at_Cons)
next
  case (Some e)
  with assms(4) obtain old where old: "e = Regular old" by (cases e) (auto simp: free_name_def)
  then have "real_path fs (d @ [n])" using assms(1-3) Some by (simp add: real_path_snoc is_link_def)
  with Some old assms(5) show ?thesis
    by (auto simp: write_file_def canonical_of_real entry_at_def update_conv')
qed

lemma rename_in_directory:
  assumes "real_path fs d" and "entry_at fs d = Some Directory" and "n \<notin> {[], ''.'', ''..''}"
    and "entry_at fs (d @ [n]) = Some (Regular text)" and "free_name fs (d @ [m])" and "n \<noteq> m"
    and "\<not> refuse (Rename (d @ [n]))"
  shows "\<exists>fs'. rename_file refuse (d @ [n]) (d @ [m]) fs = (False, fs')
    \<and> (\<forall>p. entry_at fs' p = (if p = d @ [m] then Some (Regular text) else if p = d @ [n] then None
          else entry_at fs p))"
proof -
  have "entry_at fs (d @ [m]) \<noteq> Some Directory" using assms(5) by (auto simp: free_name_def)
  with assms show ?thesis
    by (auto simp: rename_file_def symlink_status_child canonical_of_real entry_at_def update_conv' delete_conv')
qed

lemma read_in_directory:
  "real_path fs d \<Longrightarrow> entry_at fs d = Some Directory \<Longrightarrow> n \<notin> {[], ''.'', ''..''} \<Longrightarrow>
   entry_at fs (d @ [n]) = Some (Regular text) \<Longrightarrow> read_file fs (d @ [n]) = text"
  by (simp add: read_file_def status_real real_path_snoc is_link_def)

end
