(* ===== verification/RunPaths.thy ===== *)
theory RunPaths
  imports FileSystem
begin

text \<open>
  From a run id and a relative name to a file (\<^verbatim>\<open>api/routes_common.hpp\<close>, \<^verbatim>\<open>api/routes_artifacts.cpp\<close>):
  the validation of both, the lookup of the run's directory in the flat or the categorised layout, the
  check that the file is inside it, and the listing of all artifacts. The main theorem is that no request
  reaches a file outside the directory of the run it names.
\<close>

section \<open>Validation\<close>

definition path_has_control_characters :: "string \<Rightarrow> bool" where
  "path_has_control_characters v \<longleftrightarrow> list_ex (\<lambda>c. char_code c < 32 \<or> char_code c = 127) v"

fun canonical_path_is_within :: "path \<Rightarrow> path \<Rightarrow> bool" where
  "canonical_path_is_within [] candidate = True"
| "canonical_path_is_within (r # rt) [] = False"
| "canonical_path_is_within (r # rt) (c # cs) = (r = c \<and> canonical_path_is_within rt cs)"

definition validate_run_id :: "string \<Rightarrow> unit res" where
  "validate_run_id i =
    (if i = [] \<or> sublist ''..'' i \<or> CHR ''/'' \<in> set i \<or> CHR 0x5C \<in> set i
        \<or> path_has_control_characters i \<or> is_absolute i
     then Inl (RuntimeError ''invalid runId path'') else Inr ())"

section \<open>The directory of a run\<close>

definition directly_contains_files :: "files \<Rightarrow> path \<Rightarrow> bool" where
  "directly_contains_files fs d \<longleftrightarrow>
    list_ex (\<lambda>p. \<not> is_link (symlink_status fs p) \<and> is_regular_file fs p) (directory_entries fs d)"

definition runs_path :: "path \<Rightarrow> path" where
  "runs_path repo = path_append (path_append (path_append repo ''fractal_studio'') ''runtime'') ''runs''"

text \<open>\<^verbatim>\<open>resolveCandidate\<close>: \<open>None\<close> is the empty path, a candidate that is no directory.\<close>

definition resolve_candidate :: "files \<Rightarrow> path \<Rightarrow> path \<Rightarrow> path option res" where
  "resolve_candidate fs runs_root candidate =
    (case symlink_status fs candidate of
       Some (Link _) \<Rightarrow> Inl (RuntimeError ''invalid run directory symlink'')
     | Some Directory \<Rightarrow>
         (case canonical fs candidate of
            None \<Rightarrow> Inl (RuntimeError ''invalid run directory path'')
          | Some c \<Rightarrow>
              if \<not> is_directory fs c \<or> \<not> canonical_path_is_within runs_root c
              then Inl (RuntimeError ''invalid run directory path'') else Inr (Some c))
     | _ \<Rightarrow> Inr None)"

fun search_categories :: "files \<Rightarrow> path \<Rightarrow> string \<Rightarrow> path list \<Rightarrow> path res" where
  "search_categories fs runs_root i [] = Inl (RuntimeError ''run not found'')"
| "search_categories fs runs_root i (category # categories) =
    (if is_link (symlink_status fs category) \<or> \<not> is_directory fs category \<or> directly_contains_files fs category
     then search_categories fs runs_root i categories
     else res_bind (resolve_candidate fs runs_root (path_append category i))
       (\<lambda>r. case r of Some nested \<Rightarrow> Inr nested | None \<Rightarrow> search_categories fs runs_root i categories))"

definition resolve_run_dir :: "files \<Rightarrow> path \<Rightarrow> string \<Rightarrow> path res" where
  "resolve_run_dir fs repo i = res_bind (validate_run_id i) (\<lambda>_.
    case canonical fs (runs_path repo) of
      None \<Rightarrow> Inl (RuntimeError ''run not found'')
    | Some runs_root \<Rightarrow>
        if \<not> is_directory fs runs_root then Inl (RuntimeError ''run not found'')
        else res_bind (resolve_candidate fs runs_root (path_append runs_root i)) (\<lambda>r.
          case r of
            Some flat \<Rightarrow>
              if flat = runs_root \<or> \<not> directly_contains_files fs flat
              then Inl (RuntimeError ''invalid run directory path'') else Inr flat
          | None \<Rightarrow> search_categories fs runs_root i (directory_entries fs runs_root)))"

section \<open>A file of a run\<close>

definition resolve_run_file :: "files \<Rightarrow> path \<Rightarrow> string \<Rightarrow> string \<Rightarrow> (path \<times> path) res" where
  "resolve_run_file fs repo i name =
    (if name = [] \<or> CHR 0x5C \<in> set name \<or> path_has_control_characters name \<or> is_absolute name
        \<or> list_ex (\<lambda>c. c = ''.'' \<or> c = ''..'' \<or> c = []) (path_elements name)
     then Inl (RuntimeError ''invalid run-relative path'')
     else res_bind (resolve_run_dir fs repo i) (\<lambda>run_dir.
       case weakly_canonical fs (run_dir @ path_elements name) of
         None \<Rightarrow> Inl (RuntimeError ''run file not found'')
       | Some p \<Rightarrow>
           if \<not> is_regular_file fs p then Inl (RuntimeError ''run file not found'')
           else if \<not> canonical_path_is_within run_dir p
           then Inl (RuntimeError ''invalid run-relative path'')
           else Inr (p, run_dir)))"

definition artifact_path_from_id :: "files \<Rightarrow> path \<Rightarrow> string \<Rightarrow> (path \<times> string \<times> path) res" where
  "artifact_path_from_id fs repo a =
    (case str_find (CHR '':'') a of
       None \<Rightarrow> Inl (RuntimeError ''invalid artifactId'')
     | Some n \<Rightarrow> res_bind (resolve_run_file fs repo (take n a) (drop (n + 1) a))
         (\<lambda>(p, run_dir). Inr (p, last p, run_dir)))"

section \<open>Listing\<close>

definition lower_ext :: "string \<Rightarrow> string" where
  "lower_ext name =
    (let ext = (if name = ''.'' \<or> name = ''..'' \<or> CHR ''.'' \<notin> set (tl name) then []
        else CHR ''.'' # rev (takeWhile (\<lambda>c. c \<noteq> CHR ''.'') (rev name)))
     in map (\<lambda>c. if is_upper c then char_of (char_code c + 32) else c) ext)"

definition kind_from_path :: "path \<Rightarrow> string" where
  "kind_from_path p =
    (let ext = lower_ext (last p) in
     if ext \<in> {''.png'', ''.jpg'', ''.jpeg'', ''.bmp'', ''.gif'', ''.webp''} then ''image''
     else if ext \<in> {''.mp4'', ''.avi'', ''.mov'', ''.mkv'', ''.webm''} then ''video''
     else if ext = ''.stl'' then ''stl''
     else if ext \<in> {''.glb'', ''.gltf''} then ''mesh''
     else if ext \<in> {''.json'', ''.csv'', ''.txt'', ''.md''} then ''report''
     else ''other'')"

definition content_type_from_path :: "path \<Rightarrow> string" where
  "content_type_from_path p =
    (let ext = lower_ext (last p) in
     if ext = ''.png'' then ''image/png''
     else if ext = ''.jpg'' \<or> ext = ''.jpeg'' then ''image/jpeg''
     else if ext = ''.gif'' then ''image/gif''
     else if ext = ''.webp'' then ''image/webp''
     else if ext = ''.bmp'' then ''image/bmp''
     else if ext = ''.mp4'' then ''video/mp4''
     else if ext = ''.webm'' then ''video/webm''
     else if ext = ''.mov'' then ''video/quicktime''
     else if ext = ''.stl'' then ''application/sla''
     else if ext = ''.glb'' then ''model/gltf-binary''
     else if ext = ''.gltf'' then ''model/gltf+json''
     else if ext = ''.json'' then ''application/json''
     else if ext = ''.csv'' then ''text/csv''
     else ''application/octet-stream'')"

record artifact_entry =
  ae_artifact_id :: string
  ae_run_id :: string
  ae_file_name :: string
  ae_path :: path
  ae_kind :: string
  ae_size :: nat

text \<open>The regular files below a directory; \<^verbatim>\<open>recursive_directory_iterator\<close> does not follow links.\<close>

definition collect_run_dir :: "files \<Rightarrow> path \<Rightarrow> string \<Rightarrow> artifact_entry list" where
  "collect_run_dir fs run_dir i =
    concat (map (\<lambda>(p, e). case e of
        Regular content \<Rightarrow>
          if strict_prefix run_dir p then
            let name = tl (path_string (drop (length run_dir) p)) in
            [\<lparr>ae_artifact_id = i @ '':'' @ name, ae_run_id = i, ae_file_name = name, ae_path = p,
              ae_kind = kind_from_path p, ae_size = length content\<rparr>]
          else []
      | _ \<Rightarrow> []) fs)"

definition collect_artifacts :: "files \<Rightarrow> path \<Rightarrow> artifact_entry list" where
  "collect_artifacts fs repo =
    (case canonical fs (runs_path repo) of
       None \<Rightarrow> []
     | Some runs_root \<Rightarrow>
         if \<not> is_directory fs runs_root then []
         else concat (map (\<lambda>p.
           if is_link (symlink_status fs p) \<or> \<not> is_directory fs p then []
           else case canonical fs p of
             None \<Rightarrow> []
           | Some category \<Rightarrow>
               if \<not> canonical_path_is_within runs_root category then []
               else if directly_contains_files fs category then collect_run_dir fs category (last category)
               else concat (map (\<lambda>q.
                 if is_link (symlink_status fs q) \<or> \<not> is_directory fs q then []
                 else case canonical fs q of
                   None \<Rightarrow> []
                 | Some run_dir \<Rightarrow>
                     if \<not> canonical_path_is_within runs_root run_dir then []
                     else collect_run_dir fs run_dir (last q))
                 (directory_entries fs category)))
           (directory_entries fs runs_root)))"

section \<open>Confinement\<close>

text \<open>Well-formed file systems: the name of every entry is a POSIX file name.\<close>

definition wf_files :: "files \<Rightarrow> bool" where
  "wf_files fs \<longleftrightarrow> (\<forall>p\<in>fst ` set fs. p \<noteq> [] \<and> (\<forall>c\<in>set p. plain_name c))"

lemma within_prefix: "canonical_path_is_within r c \<longleftrightarrow> prefix r c"
  by (induction r c rule: canonical_path_is_within.induct) auto

lemma validate_run_idD:
  "validate_run_id i = Inr u \<Longrightarrow> i \<noteq> [] \<and> i \<noteq> ''..'' \<and> CHR ''/'' \<notin> set i"
  by (auto simp: validate_run_id_def split: if_splits)

lemma candidate_child:
  assumes "real_path fs base" and "entry_at fs base = Some Directory" and "i \<notin> {[], ''.'', ''..''}"
    and "resolve_candidate fs runs (base @ [i]) = Inr (Some c)"
  shows "c = base @ [i] \<and> real_path fs c \<and> entry_at fs c = Some Directory \<and> prefix runs c"
proof -
  have "entry_at fs (base @ [i]) = Some Directory"
    using assms by (auto simp: resolve_candidate_def symlink_status_child split: option.splits entry.splits)
  moreover from this have r: "real_path fs (base @ [i])"
    using assms(1-3) by (simp add: real_path_snoc is_link_def)
  ultimately show ?thesis
    using assms by (auto simp: resolve_candidate_def symlink_status_child canonical_of_real within_prefix split: if_splits)
qed

lemma candidate_dot:
  assumes "real_path fs base" and "entry_at fs base = Some Directory"
  shows "resolve_candidate fs runs (base @ [''.'']) \<noteq> Inr None
    \<and> (resolve_candidate fs runs (base @ [''.'']) = Inr (Some c) \<longrightarrow> c = base)"
proof -
  have "step_to fs base ''.'' = Move base" using assms(2) by (simp add: step_to_def)
  then have "canonical fs (base @ [''.'']) = Some base"
    by (simp add: canonical_def look_up_real [OF assms(1)])
  moreover from this have "symlink_status fs (base @ [''.'']) = Some Directory"
    using assms(2) by (simp add: symlink_status_def status_def)
  ultimately show ?thesis by (simp add: resolve_candidate_def)
qed

lemma directory_entries_real:
  assumes "wf_files fs" and "real_path fs d" and "p \<in> set (directory_entries fs d)"
  shows "\<exists>c. p = d @ [c] \<and> c \<notin> {[], ''.'', ''..''}"
proof -
  from assms(2,3) obtain q where q: "q \<in> fst ` set fs" "p = d @ [last q]"
    by (auto simp: directory_entries_def canonical_of_real children_def split: if_splits)
  with assms(1) have "plain_name (last q)" by (auto simp: wf_files_def)
  with q show ?thesis by (auto simp: plain_name_def)
qed

lemma child_directory_real:
  assumes "real_path fs d" and "entry_at fs d = Some Directory" and "c \<notin> {[], ''.'', ''..''}"
    and "\<not> is_link (symlink_status fs (d @ [c]))" and "is_directory fs (d @ [c])"
  shows "real_path fs (d @ [c]) \<and> entry_at fs (d @ [c]) = Some Directory"
proof -
  have l: "\<not> is_link (entry_at fs (d @ [c]))" using assms by (simp add: symlink_status_child)
  have "entry_at fs (d @ [c]) \<noteq> None"
  proof
    assume "entry_at fs (d @ [c]) = None"
    then have "step_to fs d c = Stuck" using assms(2,3) by (auto simp: step_to_def)
    then have "canonical fs (d @ [c]) = None" by (simp add: canonical_def look_up_real [OF assms(1)])
    with assms(5) show False by (simp add: is_directory_def status_def)
  qed
  with l assms(1-3) have r: "real_path fs (d @ [c])" by (simp add: real_path_snoc)
  with assms(5) show ?thesis by (simp add: is_directory_def status_real)
qed

lemma search_categories_result:
  assumes "search_categories fs runs i ps = Inr d" and "wf_files fs" and "real_path fs runs"
    and "entry_at fs runs = Some Directory" and "set ps \<subseteq> set (directory_entries fs runs)"
    and "i \<notin> {[], ''.'', ''..''}" and "CHR ''/'' \<notin> set i"
  shows "\<exists>c. d = runs @ [c, i] \<and> real_path fs d \<and> entry_at fs d = Some Directory
    \<and> \<not> directly_contains_files fs (runs @ [c])"
  using assms
proof (induction ps)
  case (Cons p ps)
  show ?case
  proof (cases "is_link (symlink_status fs p) \<or> \<not> is_directory fs p \<or> directly_contains_files fs p")
    case True
    with Cons show ?thesis by simp
  next
    case False
    from directory_entries_real [OF assms(2,3), of p] Cons.prems(5) obtain c
      where c: "p = runs @ [c]" "c \<notin> {[], ''.'', ''..''}" by auto
    have p: "real_path fs p \<and> entry_at fs p = Some Directory"
      unfolding c(1) using False c by (intro child_directory_real assms(3,4)) auto
    have app: "path_append p i = p @ [i]" using assms(6,7) by (simp add: path_append_plain)
    show ?thesis
    proof (cases "resolve_candidate fs runs (p @ [i])")
      case (Inl e)
      with False app Cons.prems(1) show ?thesis by simp
    next
      case (Inr r)
      show ?thesis
      proof (cases r)
        case None
        with Inr False app Cons show ?thesis by simp
      next
        case (Some n)
        with candidate_child [of fs p i runs n] p assms(6) Inr
        have n: "n = p @ [i]" "real_path fs n" "entry_at fs n = Some Directory" by auto
        from Inr Some False app Cons.prems(1) have "d = n" by simp
        with n c False show ?thesis by auto
      qed
    qed
  qed
qed simp

lemma resolve_run_dir_result:
  assumes "resolve_run_dir fs repo i = Inr d" and "wf_files fs"
  shows "\<exists>runs. canonical fs (runs_path repo) = Some runs \<and> real_path fs d \<and> entry_at fs d = Some Directory
    \<and> (d = runs @ [i] \<and> directly_contains_files fs d
       \<or> (\<exists>c. d = runs @ [c, i] \<and> \<not> directly_contains_files fs (runs @ [c])))"
proof -
  obtain u runs where v: "validate_run_id i = Inr u" and runs: "canonical fs (runs_path repo) = Some runs"
    and dir: "is_directory fs runs"
    using assms(1) by (auto simp: resolve_run_dir_def fsd_split split: option.splits if_splits)
  note i = validate_run_idD [OF v]
  have real: "real_path fs runs" using runs by (rule canonical_real)
  have e: "entry_at fs runs = Some Directory" using dir by (simp add: is_directory_def status_real [OF real])
  have app: "path_append runs i = runs @ [i]" using i by (simp add: path_append_plain)
  obtain r where r: "resolve_candidate fs runs (runs @ [i]) = Inr r"
    using assms(1) v runs dir app by (auto simp: resolve_run_dir_def fsd_split)
  have step: "(case r of Some flat \<Rightarrow> if flat = runs \<or> \<not> directly_contains_files fs flat
              then Inl (RuntimeError ''invalid run directory path'') else Inr flat
          | None \<Rightarrow> search_categories fs runs i (directory_entries fs runs)) = Inr d"
    using assms(1) v runs dir app r by (simp add: resolve_run_dir_def)
  have dot: "i \<noteq> ''.''"
  proof
    assume "i = ''.''"
    with candidate_dot [OF real e, of runs] r step show False by (auto split: option.splits if_splits)
  qed
  show ?thesis
  proof (cases r)
    case None
    with step have "search_categories fs runs i (directory_entries fs runs) = Inr d" by simp
    from search_categories_result [OF this assms(2) real e] i dot runs show ?thesis by auto
  next
    case (Some flat)
    with candidate_child [OF real e, of i runs flat] r i dot step runs show ?thesis
      by (auto split: if_splits)
  qed
qed

lemma resolve_run_file_result:
  assumes "resolve_run_file fs repo i name = Inr (p, d)" and "wf_files fs"
  shows "resolve_run_dir fs repo i = Inr d \<and> real_path fs p \<and> (\<exists>content. entry_at fs p = Some (Regular content))
    \<and> strict_prefix d p \<and> canonical fs (d @ path_elements name) = Some p"
proof -
  have d: "resolve_run_dir fs repo i = Inr d"
    and w: "weakly_canonical fs (d @ path_elements name) = Some p" "is_regular_file fs p" "prefix d p"
    and plain: "\<forall>c\<in>set (path_elements name). c \<notin> {[], ''.'', ''..''}"
    using assms(1)
    by (auto simp: resolve_run_file_def fsd_split within_prefix list_ex_iff split: if_splits option.splits)
  from resolve_run_dir_result [OF d assms(2)] have dr: "real_path fs d" "entry_at fs d = Some Directory" by auto
  have c: "canonical fs (d @ path_elements name) = Some p"
    using weakly_canonical_regular [OF dr(1) plain w(1,2)] .
  then have r: "real_path fs p" by (rule canonical_real)
  with w(2) obtain content where "entry_at fs p = Some (Regular content)"
    by (auto simp: is_regular_file_def status_real split: option.splits entry.splits)
  with d c r w(3) dr(2) show ?thesis by (auto simp: strict_prefix_def)
qed

section \<open>Names of listed files\<close>

definition tree_files :: "files \<Rightarrow> bool" where
  "tree_files fs \<longleftrightarrow> wf_files fs \<and> distinct (map fst fs)
    \<and> (\<forall>p\<in>fst ` set fs. entry_at fs (butlast p) = Some Directory)"

lemma tree_files_real:
  "tree_files fs \<Longrightarrow> entry_at fs p \<noteq> None \<Longrightarrow> \<not> is_link (entry_at fs p) \<Longrightarrow> real_path fs p"
proof (induction p rule: rev_induct)
  case (snoc c p)
  then have k: "p @ [c] \<in> fst ` set fs" by (force simp: entry_at_def dest: map_of_SomeD)
  then have d: "entry_at fs p = Some Directory" using snoc.prems(1) by (force simp: tree_files_def)
  have "\<forall>x\<in>set (p @ [c]). plain_name x"
    using k snoc.prems(1) unfolding tree_files_def wf_files_def by blast
  then have "c \<notin> {[], ''.'', ''..''}" by (simp add: plain_name_def)
  with snoc d show ?case by (simp add: real_path_snoc is_link_def)
qed simp

lemma path_elements_rel:
  assumes "rel \<noteq> []" and "names_ok rel"
  shows "path_elements (tl (path_string rel)) = rel \<and> tl (path_string rel) \<noteq> [] \<and> \<not> is_absolute (tl (path_string rel))"
proof -
  obtain c rel' where rel: "rel = c # rel'" using assms(1) by (cases rel) auto
  have name: "tl (path_string rel) = c @ path_string rel'" by (simp add: rel path_string_def)
  have c: "c \<noteq> []" "CHR ''/'' \<notin> set c" using assms(2) by (simp_all add: rel)
  have of: "path_of (c @ path_string rel') = rel"
  proof -
    have "path_of (path_string rel) = path_of (c @ path_string rel')"
      using split_slash_Cons [of "[]" "c @ path_string rel'"]
      by (simp add: path_of_def path_string_def rel)
    with path_of_path_string [OF assms(2)] show ?thesis by simp
  qed
  have ne: "path_string rel' = [] \<or> last (path_string rel') \<noteq> CHR ''/''"
  proof (cases rel' rule: rev_cases)
    case (snoc xs x)
    with assms(2) have "x \<noteq> []" "CHR ''/'' \<notin> set x" by (simp_all add: rel)
    then have "last x \<noteq> CHR ''/''" by (metis last_in_set)
    with snoc \<open>x \<noteq> []\<close> show ?thesis by (simp add: path_string_def)
  qed (simp add: path_string_def)
  have "last c \<noteq> CHR ''/''" using c by (metis last_in_set)
  with ne have "last (c @ path_string rel') \<noteq> CHR ''/''" by (cases "path_string rel' = []") simp_all
  with of name c show ?thesis
    by (cases c) (auto simp: path_elements_def is_absolute_def starts_with_def rel)
qed

lemma collect_run_dirD:
  assumes "row \<in> set (collect_run_dir fs d i)" and "tree_files fs"
  shows "\<exists>rel content. rel \<noteq> [] \<and> ae_path row = d @ rel \<and> entry_at fs (d @ rel) = Some (Regular content)
    \<and> ae_size row = length content \<and> ae_file_name row = tl (path_string rel)
    \<and> ae_run_id row = i \<and> ae_artifact_id row = i @ '':'' @ ae_file_name row \<and> ae_kind row = kind_from_path (ae_path row)"
proof -
  from assms(1) obtain p content where p: "(p, Regular content) \<in> set fs" "strict_prefix d p"
    and row: "row = \<lparr>ae_artifact_id = i @ '':'' @ tl (path_string (drop (length d) p)), ae_run_id = i,
      ae_file_name = tl (path_string (drop (length d) p)), ae_path = p, ae_kind = kind_from_path p,
      ae_size = length content\<rparr>"
    by (auto simp: collect_run_dir_def Let_def split: entry.splits if_splits)
  from p(2) obtain rel where rel: "p = d @ rel" "rel \<noteq> []" by (auto elim: strict_prefixE')
  have "map_of fs p = Some (Regular content)" using p(1) assms(2) by (simp add: tree_files_def)
  with rel row show ?thesis by (intro exI [of _ rel] exI [of _ content]) (simp add: entry_at_def)
qed

lemma listed_served:
  assumes "tree_files fs" and "row \<in> set (collect_run_dir fs d i)" and "resolve_run_dir fs repo i = Inr d"
    and "CHR '':'' \<notin> set i" and "CHR 0x5C \<notin> set (ae_file_name row)" and "\<not> path_has_control_characters (ae_file_name row)"
  shows "artifact_path_from_id fs repo (ae_artifact_id row) = Inr (ae_path row, last (ae_path row), d)"
proof -
  from collect_run_dirD [OF assms(2,1)] obtain rel content where rel: "rel \<noteq> []" "ae_path row = d @ rel"
    "entry_at fs (d @ rel) = Some (Regular content)" "ae_file_name row = tl (path_string rel)"
    "ae_artifact_id row = i @ '':'' @ ae_file_name row" by blast
  have real: "real_path fs (d @ rel)"
    using assms(1) rel(3) by (intro tree_files_real) (simp_all add: is_link_def)
  have "d @ rel \<in> fst ` set fs" using rel(1,3) by (force simp: entry_at_def dest: map_of_SomeD)
  then have plain: "\<forall>c\<in>set rel. plain_name c" using assms(1) by (auto simp: tree_files_def wf_files_def)
  then have ok: "names_ok rel" by (simp add: names_ok_def plain_name_def)
  note el = path_elements_rel [OF rel(1) ok]
  have st: "status fs (d @ rel) = Some (Regular content)" using rel(3) by (simp add: status_real [OF real])
  have "weakly_canonical fs (d @ rel) = Some (d @ rel)"
    by (simp add: weakly_canonical_def path_exists_def st canonical_of_real [OF real])
  then have "resolve_run_file fs repo i (ae_file_name row) = Inr (d @ rel, d)"
    using el assms(3,5,6) plain st
    by (auto simp: resolve_run_file_def rel(4) list_ex_iff plain_name_def is_regular_file_def within_prefix)
  moreover have "str_find (CHR '':'') (ae_artifact_id row) = Some (length i)"
    using str_find_split [OF assms(4), of "ae_file_name row"] by (simp add: rel(5))
  ultimately show ?thesis by (simp add: artifact_path_from_id_def rel(2,5))
qed

section \<open>Properties\<close>

text \<open>
  C5: path confinement. In any file system, whatever links it has, a request that is granted names a run
  with a directory directly below the canonical runs root or below one category of it; the file served is
  a regular file, strictly inside that directory, and no component of its path is a link.
\<close>

theorem run_file_confined:
  assumes "resolve_run_file fs repo i name = Inr (p, d)" and "wf_files fs"
  shows "\<exists>runs. canonical fs (runs_path repo) = Some runs \<and> (d = runs @ [i] \<or> (\<exists>c. d = runs @ [c, i]))
    \<and> strict_prefix d p \<and> (\<exists>content. entry_at fs p = Some (Regular content))
    \<and> (\<forall>q. prefix q p \<longrightarrow> \<not> is_link (entry_at fs q))"
proof -
  from resolve_run_file_result [OF assms] have f: "resolve_run_dir fs repo i = Inr d" "real_path fs p"
    "\<exists>content. entry_at fs p = Some (Regular content)" "strict_prefix d p" by auto
  have "\<forall>q. prefix q p \<longrightarrow> \<not> is_link (entry_at fs q)"
    using f(2) by (metis append_eq_conv_conj length_append le_add1 prefix_def real_path_def)
  with f resolve_run_dir_result [OF f(1) assms(2)] show ?thesis by auto
qed

definition sample_files :: files where
  "sample_files =
    [([''r''], Directory), ([''r'', ''fractal_studio''], Directory), ([''r'', ''fractal_studio'', ''runtime''], Directory),
     ([''r'', ''fractal_studio'', ''runtime'', ''runs''], Directory),
     ([''r'', ''fractal_studio'', ''runtime'', ''runs'', ''x''], Directory),
     ([''r'', ''fractal_studio'', ''runtime'', ''runs'', ''x'', ''a.png''], Regular ''data''),
     ([''r'', ''fractal_studio'', ''runtime'', ''runs'', ''y''], Directory),
     ([''r'', ''fractal_studio'', ''runtime'', ''runs'', ''y'', ''a.png''], Regular ''data'')]"

lemma sample_run_served:
  assumes n: "n \<in> {''x'', ''y''}"
  shows "resolve_run_file sample_files [''r''] n ''a.png''
   = Inr ([''r'', ''fractal_studio'', ''runtime'', ''runs'', n, ''a.png''], [''r'', ''fractal_studio'', ''runtime'', ''runs'', n])"
proof -
  let ?d = "[''r'', ''fractal_studio'', ''runtime'', ''runs'']"
  have d: "runs_path [''r''] = ?d" by (simp add: runs_path_def path_append_plain)
  have e: "entry_at sample_files ?d = Some Directory" "entry_at sample_files (?d @ [n]) = Some Directory"
    "entry_at sample_files (?d @ [n, ''a.png'']) = Some (Regular ''data'')"
    using n by (auto simp: entry_at_def sample_files_def)
  have t: "tree_files sample_files"
    by (simp add: tree_files_def wf_files_def sample_files_def plain_name_def entry_at_def)
  have r: "real_path sample_files ?d" "real_path sample_files (?d @ [n])"
    "real_path sample_files (?d @ [n, ''a.png''])"
    using t e by (intro tree_files_real; simp add: is_link_def)+
  have ch: "directory_entries sample_files (?d @ [n]) = [?d @ [n, ''a.png'']]"
    using e(2) canonical_of_real [OF r(2)] by (simp add: directory_entries_def children_def) (use n in \<open>auto simp: sample_files_def\<close>)
  have reg: "is_regular_file sample_files (?d @ [n, ''a.png''])"
    by (simp only: is_regular_file_def status_real [OF r(3)] e(3) option.case entry.case)
  have "symlink_status sample_files ((?d @ [n]) @ [''a.png'']) = Some (Regular ''data'')"
    using e r n by (subst symlink_status_child) auto
  then have cf: "directly_contains_files sample_files (?d @ [n])"
    unfolding directly_contains_files_def ch using reg by (simp add: is_link_def)
  have "symlink_status sample_files (?d @ [n]) = Some Directory"
    using e r n by (subst symlink_status_child) auto
  then have "resolve_candidate sample_files ?d (?d @ [n]) = Inr (Some (?d @ [n]))"
    using e(2) by (simp add: resolve_candidate_def canonical_of_real [OF r(2), simplified] is_directory_def
        status_real [OF r(2), simplified])
  then have "resolve_run_dir sample_files [''r''] n = Inr (?d @ [n])"
    using cf e(1) n by (auto simp: resolve_run_dir_def d canonical_of_real [OF r(1)] validate_run_id_def
        path_has_control_characters_def char_code_def is_absolute_def starts_with_def is_directory_def
        status_real [OF r(1)] path_append_plain sublist_code)
  moreover have "path_elements ''a.png'' = [''a.png'']"
    by (simp add: path_elements_def path_of_plain)
  moreover have "weakly_canonical sample_files (?d @ [n, ''a.png'']) = Some (?d @ [n, ''a.png''])"
    using e(3) by (simp add: weakly_canonical_def path_exists_def status_real [OF r(3), simplified]
        canonical_of_real [OF r(3), simplified])
  ultimately show ?thesis
    using reg by (simp add: resolve_run_file_def path_has_control_characters_def char_code_def is_absolute_def
        starts_with_def)
qed

lemmas sample_served = sample_run_served [of "''x''", simplified]

theorem run_file_confined_witness:
  "\<exists>p d. resolve_run_file sample_files [''r''] ''x'' ''a.png'' = Inr (p, d) \<and> strict_prefix d p"
proof -
  have "wf_files sample_files" by (simp add: wf_files_def sample_files_def plain_name_def)
  from run_file_confined [OF sample_served this] sample_served show ?thesis by blast
qed

text \<open>
  C11: runs are separated. A file that is served for one run id is never served for another one, under
  whatever name it is asked for.
\<close>

theorem runs_separated:
  assumes "resolve_run_file fs repo i name = Inr (p, d)" and "resolve_run_file fs repo j name' = Inr (p', d')"
    and "wf_files fs" and "i \<noteq> j"
  shows "p \<noteq> p'"
proof
  assume eq: "p = p'"
  note f = resolve_run_file_result [OF assms(1,3)] and f' = resolve_run_file_result [OF assms(2,3)]
  obtain runs where runs: "canonical fs (runs_path repo) = Some runs"
    and d: "d = runs @ [i] \<and> directly_contains_files fs d
       \<or> (\<exists>c. d = runs @ [c, i] \<and> \<not> directly_contains_files fs (runs @ [c]))"
    using resolve_run_dir_result [OF conjunct1 [OF f] assms(3)] by auto
  have d': "d' = runs @ [j] \<and> directly_contains_files fs d'
       \<or> (\<exists>c. d' = runs @ [c, j] \<and> \<not> directly_contains_files fs (runs @ [c]))"
    using resolve_run_dir_result [OF conjunct1 [OF f'] assms(3)] runs by auto
  have "prefix d p" "prefix d' p" using f f' eq by (auto simp: strict_prefix_def)
  then have "prefix d d' \<or> prefix d' d" by (rule prefix_same_cases)
  with d d' assms(4) show False by auto
qed

theorem runs_separated_witness:
  "\<exists>p d p' d'. resolve_run_file sample_files [''r''] ''x'' ''a.png'' = Inr (p, d)
     \<and> resolve_run_file sample_files [''r''] ''y'' ''a.png'' = Inr (p', d') \<and> p \<noteq> p'"
proof -
  have "wf_files sample_files" by (simp add: wf_files_def sample_files_def plain_name_def)
  with runs_separated [OF sample_served sample_run_served [of "''y''"]] show ?thesis
    by (simp add: sample_served sample_run_served)
qed

text \<open>
  listed artifacts are served. In a tree of files, an artifact that the listing finds in the directory
  to which its run id resolves is served under its artifact id, with the path and name listed, unless the
  id has a colon or the name a backslash or control character, which the server refuses.
\<close>

theorem listed_artifact_served:
  assumes "tree_files fs" and "row \<in> set (collect_run_dir fs d i)" and "resolve_run_dir fs repo i = Inr d"
    and "CHR '':'' \<notin> set i" and "CHR 0x5C \<notin> set (ae_file_name row)" and "\<not> path_has_control_characters (ae_file_name row)"
  shows "artifact_path_from_id fs repo (ae_artifact_id row) = Inr (ae_path row, last (ae_path row), d)"
  using assms by (rule listed_served)

theorem listed_artifact_served_witness:
  "\<exists>row p d. row \<in> set (collect_run_dir sample_files d ''x'') \<and> ae_artifact_id row = ''x:a.png''
     \<and> artifact_path_from_id sample_files [''r''] ''x:a.png'' = Inr (p, ''a.png'', d)"
proof -
  let ?d = "[''r'', ''fractal_studio'', ''runtime'', ''runs'', ''x'']"
  let ?row = "\<lparr>ae_artifact_id = ''x:a.png'', ae_run_id = ''x'', ae_file_name = ''a.png'', ae_path = ?d @ [''a.png''],
    ae_kind = kind_from_path (?d @ [''a.png'']), ae_size = 4\<rparr>"
  have t: "tree_files sample_files"
    by (simp add: tree_files_def wf_files_def sample_files_def plain_name_def entry_at_def)
  have row: "?row \<in> set (collect_run_dir sample_files ?d ''x'')"
    by (simp add: collect_run_dir_def sample_files_def path_string_def strict_prefix_def Let_def)
  have wf: "wf_files sample_files" using t by (simp add: tree_files_def)
  have "resolve_run_dir sample_files [''r''] ''x'' = Inr ?d"
    using resolve_run_file_result [OF sample_served wf] by simp
  from listed_artifact_served [OF t row this] row show ?thesis
    by (intro exI [of _ ?row] exI [of _ "?d @ [''a.png'']"] exI [of _ ?d])
      (simp add: path_has_control_characters_def char_code_def)
qed

end
