(* ===== verification/UrlCodec.thy ===== *)
theory UrlCodec
  imports Prelude
begin

text \<open>
  The codecs of the HTTP interface (\<^verbatim>\<open>urlDecode\<close> and \<^verbatim>\<open>base64Encode\<close> of \<^verbatim>\<open>api/routes_common.hpp\<close>,
  \<^verbatim>\<open>urlEncodeQueryValue\<close> of \<^verbatim>\<open>api/routes_artifacts.cpp\<close>). A character is a byte.
\<close>

section \<open>Percent encoding\<close>

definition hex_digit :: "nat \<Rightarrow> char" where
  "hex_digit n = (if n < 10 then char_of (48 + n) else char_of (55 + n))"

definition unreserved :: "char \<Rightarrow> bool" where
  "unreserved c \<longleftrightarrow> is_alnum c \<or> c = CHR ''-'' \<or> c = CHR ''_'' \<or> c = CHR ''.'' \<or> c = CHR ''~''"

definition url_encode :: "string \<Rightarrow> string" where
  "url_encode v = concat (map (\<lambda>c. if unreserved c then [c]
     else [CHR ''%'', hex_digit (char_code c div 16), hex_digit (char_code c mod 16)]) v)"

text \<open>
  \<^verbatim>\<open>strtol(s, nullptr, 16)\<close>: white space, a sign, an optional \<^verbatim>\<open>0x\<close> before a digit, then digits; 0 when there
  are none. On two characters it never overflows.
\<close>

definition hex_value :: "char \<Rightarrow> nat option" where
  "hex_value c =
    (if is_digit c then Some (digit_val c)
     else if 65 \<le> char_code c \<and> char_code c \<le> 70 then Some (char_code c - 55)
     else if 97 \<le> char_code c \<and> char_code c \<le> 102 then Some (char_code c - 87)
     else None)"

fun hex_digits :: "nat \<Rightarrow> string \<Rightarrow> nat" where
  "hex_digits v [] = v"
| "hex_digits v (c # cs) = (case hex_value c of None \<Rightarrow> v | Some d \<Rightarrow> hex_digits (16 * v + d) cs)"

definition strtol16 :: "string \<Rightarrow> int" where
  "strtol16 s =
    (let s = dropWhile is_space s;
         neg = (s \<noteq> [] \<and> hd s = CHR ''-'');
         s = (if s \<noteq> [] \<and> (hd s = CHR ''-'' \<or> hd s = CHR ''+'') then tl s else s);
         s = (if 2 < length s \<and> s ! 0 = CHR ''0'' \<and> (s ! 1 = CHR ''x'' \<or> s ! 1 = CHR ''X'') \<and> hex_value (s ! 2) \<noteq> None
              then drop 2 s else s);
         v = int (hex_digits 0 s)
     in if neg then - v else v)"

text \<open>\<^verbatim>\<open>static_cast<char>\<close> keeps the low eight bits.\<close>

definition to_char :: "int \<Rightarrow> char" where
  "to_char v = char_of (nat (v mod 256))"

fun url_decode :: "string \<Rightarrow> string" where
  "url_decode [] = []"
| "url_decode (c # rest) =
    (if c = CHR ''%'' \<and> 2 \<le> length rest then to_char (strtol16 (take 2 rest)) # url_decode (drop 2 rest)
     else if c = CHR ''+'' then CHR '' '' # url_decode rest
     else c # url_decode rest)"

lemma hex_digit_facts:
  assumes "n < 16"
  shows "hex_value (hex_digit n) = Some n" "\<not> is_space (hex_digit n)"
    "hex_digit n \<noteq> CHR ''-''" "hex_digit n \<noteq> CHR ''+''"
proof -
  have "n \<in> {15, 14, 13, 12, 11, 10, 9} \<union> {8, 7, 6, 5} \<union> {4, 3, 2, 1, 0}" using assms by (simp, presburger)
  then show v: "hex_value (hex_digit n) = Some n" and "\<not> is_space (hex_digit n)"
    by (auto simp: hex_digit_def hex_value_def char_class_defs)
  have "hex_value CHR ''-'' = None" "hex_value CHR ''+'' = None" by (simp_all add: hex_value_def char_class_defs)
  with v show "hex_digit n \<noteq> CHR ''-''" "hex_digit n \<noteq> CHR ''+''" by auto
qed

lemma strtol16_hex: "a < 16 \<Longrightarrow> b < 16 \<Longrightarrow> strtol16 [hex_digit a, hex_digit b] = int (16 * a + b)"
  by (simp add: strtol16_def hex_digit_facts Let_def)

lemma to_char_code: "to_char (int (char_code c)) = c"
  by (simp add: to_char_def char_code_def nat_mod_distrib)

lemma decode_encode: "url_decode (url_encode v) = v"
proof (induction v)
  case (Cons c v)
  have "char_code c < 256" by (simp add: char_code_def)
  then have d: "char_code c div 16 < 16" "char_code c mod 16 < 16" by auto
  have "int (16 * (char_code c div 16) + char_code c mod 16) = int (char_code c)" by simp
  with strtol16_hex [OF d] have "to_char (strtol16 [hex_digit (char_code c div 16), hex_digit (char_code c mod 16)]) = c"
    by (simp only: to_char_code)
  moreover have "unreserved c \<Longrightarrow> c \<noteq> CHR ''%'' \<and> c \<noteq> CHR ''+''"
    by (auto simp: unreserved_def char_class_defs)
  ultimately show ?case using Cons by (simp add: url_encode_def)
qed (simp add: url_encode_def)

lemma hex_digit_unreserved: "n < 16 \<Longrightarrow> unreserved (hex_digit n)"
proof -
  have "hex_value c = Some n \<Longrightarrow> is_alnum c" for c
    by (auto simp: hex_value_def is_alnum_def is_alpha_def is_upper_def is_lower_def split: if_splits)
  with hex_digit_facts(1) [of n] show "n < 16 \<Longrightarrow> unreserved (hex_digit n)" by (simp add: unreserved_def)
qed

lemma encode_unreserved: "list_all (\<lambda>c. unreserved c \<or> c = CHR ''%'') (url_encode v)"
proof (induction v)
  case (Cons c v)
  have "char_code c < 256" by (simp add: char_code_def)
  then have "char_code c div 16 < 16" by auto
  with Cons show ?case by (simp add: url_encode_def hex_digit_unreserved)
qed (simp add: url_encode_def)

section \<open>Base64\<close>

unbundle bit_operations_syntax

definition base64_table :: string where
  "base64_table = ''ABCDEFGHIJKLMNOPQRSTUVWXYZabcdefghijklmnopqrstuvwxyz0123456789+/''"

definition base64_sextet :: "32 word \<Rightarrow> nat \<Rightarrow> char" where
  "base64_sextet v k = base64_table ! unat (drop_bit k v AND 0x3F)"

definition base64_group :: "8 word \<Rightarrow> 8 word \<Rightarrow> 8 word \<Rightarrow> 32 word" where
  "base64_group b0 b1 b2 = push_bit 16 (ucast b0) OR push_bit 8 (ucast b1) OR ucast b2"

fun base64_encode :: "8 word list \<Rightarrow> string" where
  "base64_encode [] = []"
| "base64_encode [b0] =
    (let v = base64_group b0 0 0
     in [base64_sextet v 18, base64_sextet v 12, CHR ''='', CHR ''=''])"
| "base64_encode [b0, b1] =
    (let v = base64_group b0 b1 0
     in [base64_sextet v 18, base64_sextet v 12, base64_sextet v 6, CHR ''=''])"
| "base64_encode (b0 # b1 # b2 # data) =
    (let v = base64_group b0 b1 b2
     in [base64_sextet v 18, base64_sextet v 12, base64_sextet v 6, base64_sextet v 0] @ base64_encode data)"

text \<open>The decoder of RFC 4648, the reference: four characters give three bytes, less one per padding.\<close>

definition sextet_of :: "char \<Rightarrow> 32 word" where
  "sextet_of c =
    (if is_upper c then of_nat (char_code c - 65)
     else if is_lower c then of_nat (char_code c - 71)
     else if is_digit c then of_nat (char_code c + 4)
     else if c = CHR ''+'' then 62 else 63)"

definition group_of :: "char \<Rightarrow> char \<Rightarrow> char \<Rightarrow> char \<Rightarrow> 32 word" where
  "group_of c0 c1 c2 c3 = push_bit 18 (sextet_of c0) OR push_bit 12 (sextet_of c1)
     OR push_bit 6 (sextet_of c2) OR sextet_of c3"

definition byte_of :: "32 word \<Rightarrow> nat \<Rightarrow> 8 word" where
  "byte_of v k = ucast (drop_bit k v)"

fun base64_decode :: "string \<Rightarrow> 8 word list" where
  "base64_decode (c0 # c1 # c2 # c3 # cs) =
    (let v = group_of c0 c1 (if c2 = CHR ''='' then CHR ''A'' else c2) (if c3 = CHR ''='' then CHR ''A'' else c3)
     in if c2 = CHR ''='' then [byte_of v 16]
        else if c3 = CHR ''='' then [byte_of v 16, byte_of v 8]
        else byte_of v 16 # byte_of v 8 # byte_of v 0 # base64_decode cs)"
| "base64_decode cs = []"

lemma sextet_of_table: "n < 64 \<Longrightarrow> sextet_of (base64_table ! n) = of_nat n \<and> base64_table ! n \<noteq> CHR ''=''"
proof -
  have "\<forall>n\<in>set [0..<64]. sextet_of (base64_table ! n) = of_nat n \<and> base64_table ! n \<noteq> CHR ''=''"
    by (simp add: upt_rec base64_table_def sextet_of_def char_class_defs)
  then show "n < 64 \<Longrightarrow> ?thesis" by simp
qed

lemma sextet_decode: "sextet_of (base64_sextet v k) = drop_bit k v AND 0x3F" "base64_sextet v k \<noteq> CHR ''=''"
proof -
  have "unat (drop_bit k v AND 0x3F) < 64"
    using word_and_le1 [of "drop_bit k v" "0x3F"] by (simp add: word_le_nat_alt)
  from sextet_of_table [OF this]
  show "sextet_of (base64_sextet v k) = drop_bit k v AND 0x3F" "base64_sextet v k \<noteq> CHR ''=''"
    by (simp_all add: base64_sextet_def)
qed

lemma bit_byte_high: "8 \<le> k \<Longrightarrow> \<not> bit (b :: 8 word) k"
  by (auto dest: bit_imp_le_length)

lemma bit_group_high: "24 \<le> k \<Longrightarrow> \<not> bit (base64_group b0 b1 b2) k"
  by (auto simp: base64_group_def bit_simps bit_byte_high)

lemma group_of_sextets:
  assumes "v = base64_group b0 b1 b2"
  shows "group_of (base64_sextet v 18) (base64_sextet v 12) (base64_sextet v 6) (base64_sextet v 0) = v"
proof (rule bit_word_eqI)
  fix n
  assume n: "n < LENGTH(32)"
  have m: "(0x3F :: 32 word) = mask 6" by (simp add: mask_eq_exp_minus_1)
  consider "n < 6" | "6 \<le> n" "n < 12" | "12 \<le> n" "n < 18" | "18 \<le> n" "n < 24" | "24 \<le> n" by linarith
  then show "bit (group_of (base64_sextet v 18) (base64_sextet v 12) (base64_sextet v 6) (base64_sextet v 0)) n = bit v n"
    by cases (use n bit_group_high [of n b0 b1 b2] in \<open>auto simp: group_of_def sextet_decode m bit_simps assms\<close>)
qed

lemma byte_of_group: "byte_of (base64_group b0 b1 b2) 16 = b0" "byte_of (base64_group b0 b1 b2) 8 = b1"
  "byte_of (base64_group b0 b1 b2) 0 = b2"
  by (rule bit_word_eqI, auto simp: byte_of_def base64_group_def bit_simps bit_byte_high)+

lemma sextet_zero: "base64_sextet (base64_group b0 0 0) 6 = CHR ''A''" "base64_sextet (base64_group b0 b1 0) 0 = CHR ''A''"
proof -
  have m: "(0x3F :: 32 word) = mask 6" by (simp add: mask_eq_exp_minus_1)
  have "drop_bit 6 (base64_group b0 0 0) AND 0x3F = 0" "drop_bit 0 (base64_group b0 b1 0) AND 0x3F = 0"
    by (rule bit_word_eqI, auto simp: m base64_group_def bit_simps)+
  then show "base64_sextet (base64_group b0 0 0) 6 = CHR ''A''" "base64_sextet (base64_group b0 b1 0) 0 = CHR ''A''"
    by (simp_all add: base64_sextet_def base64_table_def)
qed

lemma base64_decode_encode: "base64_decode (base64_encode data) = data"
proof (induction data rule: base64_encode.induct)
  case (2 b0)
  show ?case
    using group_of_sextets [OF refl, of b0 0 0]
    by (simp add: Let_def sextet_decode sextet_zero sextet_zero(2) [of b0 0] byte_of_group)
next
  case (3 b0 b1)
  show ?case
    using group_of_sextets [OF refl, of b0 b1 0]
    by (simp add: Let_def sextet_decode sextet_zero byte_of_group)
next
  case (4 b0 b1 b2 data)
  then show ?case
    using group_of_sextets [OF refl, of b0 b1 b2] by (simp add: Let_def sextet_decode byte_of_group)
qed simp

lemma base64_length: "length (base64_encode data) = 4 * ((length data + 2) div 3)"
proof (induction data rule: base64_encode.induct)
  case (4 b0 b1 b2 data)
  have "(length (b0 # b1 # b2 # data) + 2) div 3 = Suc ((length data + 2) div 3)" by simp
  with 4 show ?case by (simp add: Let_def)
qed (simp_all add: Let_def)

section \<open>Properties\<close>

text \<open>
  percent encoding loses nothing. Decoding an encoded query value gives the value, whatever bytes it
  has, and the encoding consists of unreserved characters and percent signs, so it can stand in a query.
\<close>

theorem url_roundtrip:
  "url_decode (url_encode v) = v \<and> list_all (\<lambda>c. unreserved c \<or> c = CHR ''%'') (url_encode v)"
  by (simp add: decode_encode encode_unreserved)

text \<open>
  base64 output is decoded to the input by the reference decoder, for any number of bytes, and its
  length is the one that is reserved for it.
\<close>

theorem base64_roundtrip:
  "base64_decode (base64_encode data) = data \<and> length (base64_encode data) = 4 * ((length data + 2) div 3)"
  by (simp add: base64_decode_encode base64_length)

end
