(* ===== verification/HttpServer.thy ===== *)
theory HttpServer
  imports HttpRange RunPaths UrlCodec JsonValue
begin

text \<open>
  The HTTP server (\<^verbatim>\<open>core/http_server.cpp\<close>): reading a request from a socket, the credential, the dispatch
  of a request to its route, and the streaming of artifacts. The routes themselves are an argument: a call
  runs on the server's state and replies or throws. The JSON parser and printer of nlohmann::json, the
  environment variables and the fresh request identifiers are arguments too.
\<close>

section \<open>Strings\<close>

definition crlf :: string where "crlf = [CHR 0x0D, CHR 0x0A]"
definition blank_line :: string where "blank_line = crlf @ crlf"

text \<open>\<^verbatim>\<open>std::string::find(s)\<close>: the first position of a substring.\<close>

fun find_sub :: "string \<Rightarrow> string \<Rightarrow> nat option" where
  "find_sub pat [] = (if pat = [] then Some 0 else None)"
| "find_sub pat (c # cs) = (if starts_with pat (c # cs) then Some 0 else map_option Suc (find_sub pat cs))"

definition to_lower :: "char \<Rightarrow> char" where
  "to_lower c = (if is_upper c then char_of (char_code c + 32) else c)"

definition ends_with :: "string \<Rightarrow> string \<Rightarrow> bool" where
  "ends_with p s \<longleftrightarrow> length p \<le> length s \<and> drop (length s - length p) s = p"

definition strip :: "char set \<Rightarrow> char set \<Rightarrow> string \<Rightarrow> string" where
  "strip front rear s = rev (dropWhile (\<lambda>c. c \<in> rear) (rev (dropWhile (\<lambda>c. c \<in> front) s)))"

definition space_tab :: "char set" where "space_tab = {CHR '' '', CHR 0x09}"

text \<open>The lines of a header, as the two loops over it cut them.\<close>

function header_lines :: "string \<Rightarrow> string list" where
  "header_lines s =
    (if s = [] then []
     else case find_sub crlf s of
         None \<Rightarrow> [s]
       | Some e \<Rightarrow> take e s # header_lines (drop (e + 2) s))"
  by pat_completeness auto
termination by (relation "measure length") auto

declare header_lines.simps [simp del]

section \<open>Environment and credential\<close>

text \<open>The values of \<^verbatim>\<open>FSD_COMPUTE_SERVICE_KEY\<close> and \<^verbatim>\<open>FSD_ENABLE_LEGACY_API\<close>, C strings, when they are set.\<close>

record settings =
  service_key :: "string option"
  legacy_flag :: "string option"

definition env_enabled :: "string option \<Rightarrow> bool \<Rightarrow> bool" where
  "env_enabled raw dflt =
    (case raw of
       None \<Rightarrow> dflt
     | Some v \<Rightarrow>
         if v = [] then dflt
         else map to_lower v \<notin> {''0'', ''false'', ''off'', ''no''})"

definition char_at :: "string \<Rightarrow> nat \<Rightarrow> 8 word" where
  "char_at s i = (if i < length s then of_nat (char_code (s ! i)) else 0)"

unbundle bit_operations_syntax

definition constant_time_equal :: "string \<Rightarrow> string \<Rightarrow> bool" where
  "constant_time_equal left right =
    (let count = max (length left) (length right);
         diff = word_of_int (uint ((of_nat (length left) :: 64 word) XOR of_nat (length right)));
         diff = fold (\<lambda>i d. d OR (char_at left i XOR char_at right i)) [0..<count] (diff :: 8 word)
     in diff = 0)"

definition header_line_value :: "string \<Rightarrow> string \<Rightarrow> string option" where
  "header_line_value wanted line =
    (case str_find (CHR '':'') line of
       None \<Rightarrow> None
     | Some colon \<Rightarrow>
         if map to_lower (take colon line) = map to_lower wanted
         then Some (strip space_tab space_tab (drop (colon + 1) line)) else None)"

fun first_header_value :: "string \<Rightarrow> string list \<Rightarrow> string" where
  "first_header_value wanted [] = []"
| "first_header_value wanted (l # ls) =
    (case header_line_value wanted l of Some v \<Rightarrow> v | None \<Rightarrow> first_header_value wanted ls)"

definition header_limit :: "string \<Rightarrow> nat" where
  "header_limit request = (case find_sub blank_line request of None \<Rightarrow> length request | Some h \<Rightarrow> h)"

definition request_header_value :: "string \<Rightarrow> string \<Rightarrow> string" where
  "request_header_value request wanted =
    (case find_sub crlf request of
       None \<Rightarrow> []
     | Some f \<Rightarrow> first_header_value wanted (header_lines (drop (f + 2) (take (header_limit request) request))))"

definition bearer :: string where "bearer = ''Bearer ''"

definition compute_authorized :: "settings \<Rightarrow> string \<Rightarrow> bool" where
  "compute_authorized E request =
    (case service_key E of
       None \<Rightarrow> False
     | Some key \<Rightarrow>
         if key = [] then False
         else let authorization = request_header_value request ''Authorization'' in
           starts_with bearer authorization \<and> constant_time_equal (drop (length bearer) authorization) key)"

section \<open>Reading a request\<close>

text \<open>
  A socket delivers a list of pieces; \<^verbatim>\<open>recv\<close> returns the next one, and 0 or an error when there is none.
  \<^verbatim>\<open>std::stoul\<close> skips blanks, takes a sign and wraps a negative number; it throws without digits or above
  \<open>2 ^ 64 - 1\<close>, which leaves the length 0. The sum of offsets is a \<^verbatim>\<open>std::size_t\<close> and wraps.
\<close>

definition header_cap :: nat where "header_cap = 2 ^ 24"
definition body_cap :: nat where "body_cap = 2 ^ 30"

fun recv_headers :: "string \<Rightarrow> string list \<Rightarrow> string \<times> string list \<times> bool" where
  "recv_headers buf [] = (buf, [], False)"
| "recv_headers buf (piece # rest) =
    (if piece = [] then (buf, rest, False)
     else let buf = buf @ piece in
       if find_sub blank_line buf \<noteq> None then (buf, rest, True)
       else if length buf > header_cap then (buf, rest, False)
       else recv_headers buf rest)"

definition stoul :: "string \<Rightarrow> nat option" where
  "stoul v =
    (let v = dropWhile is_space v;
         negative = starts_with ''-'' v;
         v = (if negative \<or> starts_with ''+'' v then tl v else v);
         digits = takeWhile is_digit v; n = dec_value 0 digits
     in if digits = [] \<or> n > uintmax_max then None
        else Some (if negative then (2 ^ 64 - n) mod 2 ^ 64 else n))"

definition length_key :: string where "length_key = ''Content-Length:''"

fun content_length_line :: "string list \<Rightarrow> nat" where
  "content_length_line [] = 0"
| "content_length_line (line # rest) =
    (if map to_lower (take (length length_key) line) = map to_lower length_key
     then (case stoul (strip space_tab (insert (CHR 0x0D) space_tab) (drop (length length_key) line)) of
             None \<Rightarrow> 0 | Some n \<Rightarrow> n)
     else content_length_line rest)"

definition content_length :: "string \<Rightarrow> nat" where
  "content_length headers = content_length_line (header_lines headers)"

fun recv_body :: "nat \<Rightarrow> string \<Rightarrow> string list \<Rightarrow> string" where
  "recv_body wanted buf pieces =
    (if length buf < wanted then
       (case pieces of
          [] \<Rightarrow> buf
        | piece # rest \<Rightarrow>
            if piece = [] then buf
            else if length (buf @ piece) > body_cap then buf @ piece
            else recv_body wanted (buf @ piece) rest)
     else buf)"

declare recv_body.simps [simp del]

definition read_request :: "string list \<Rightarrow> string" where
  "read_request pieces =
    (case recv_headers [] pieces of
       (buf, rest, found) \<Rightarrow>
         if \<not> found then buf
         else let header_end = the (find_sub blank_line buf);
                  body_start = header_end + 4
              in recv_body ((body_start + content_length (take header_end buf)) mod 2 ^ 64) buf rest)"

section \<open>Responses\<close>

definition status_texts :: "(int \<times> string) list" where
  "status_texts = [(201, ''Created''), (204, ''No Content''), (400, ''Bad Request''), (401, ''Unauthorized''),
     (403, ''Forbidden''), (404, ''Not Found''), (405, ''Method Not Allowed''), (409, ''Conflict''), (410, ''Gone''),
     (413, ''Payload Too Large''), (422, ''Unprocessable Entity''), (429, ''Too Many Requests''),
     (500, ''Internal Server Error''), (503, ''Service Unavailable'')]"

definition status_text :: "int \<Rightarrow> string" where
  "status_text s = (case map_of status_texts s of None \<Rightarrow> ''OK'' | Some t \<Rightarrow> t)"

definition make_http_response :: "int \<Rightarrow> string \<Rightarrow> string \<Rightarrow> string \<Rightarrow> string" where
  "make_http_response s body content_type extra_headers =
    ''HTTP/1.1 '' @ show_int s @ '' '' @ status_text s @ crlf
    @ ''Content-Type: '' @ content_type @ crlf
    @ ''Access-Control-Allow-Origin: *'' @ crlf
    @ ''Access-Control-Allow-Methods: GET, POST, OPTIONS'' @ crlf
    @ ''Access-Control-Allow-Headers: Content-Type, Authorization, Range, If-Range, X-Request-Id'' @ crlf
    @ ''Access-Control-Expose-Headers: ''
    @ ''X-FSD-Status, X-FSD-Request-Id, X-FSD-Generated-Ms, X-FSD-Engine, ''
    @ ''X-FSD-Scalar, X-FSD-Width, X-FSD-Height, X-FSD-Pixel-Format'' @ crlf
    @ extra_headers
    @ ''Content-Length: '' @ nat_digits (length body) @ crlf
    @ ''Connection: close'' @ blank_line @ body"

definition json_response :: "int \<Rightarrow> string \<Rightarrow> string" where
  "json_response s body = make_http_response s body ''application/json'' []"

definition quote_char :: char where "quote_char = CHR 0x22"
definition backslash :: char where "backslash = CHR 0x5C"

definition json_escape_char :: "char \<Rightarrow> string" where
  "json_escape_char c =
    (if c = quote_char then [backslash, quote_char]
     else if c = backslash then [backslash, backslash]
     else if c = CHR 0x0A then [backslash, CHR ''n'']
     else if c = CHR 0x0D then [backslash, CHR ''r'']
     else if c = CHR 0x09 then [backslash, CHR ''t'']
     else if char_code c < 32 then '' '' else [c])"

definition json_escape_string :: "string \<Rightarrow> string" where
  "json_escape_string s = concat (map json_escape_char s)"

definition json_error_body :: "string \<Rightarrow> string" where
  "json_error_body msg = ''{\"error\":\"'' @ json_escape_string msg @ ''\"}''"

section \<open>Routes\<close>

text \<open>The routes of the legacy interface and what they are given.\<close>

datatype legacy_endpoint =
    System_Check | System_Hardware | System_Capabilities | Map_Render | Map_Preempt | Map_Field_Session_Start |
    Map_Field_Session_Status | Map_Field_Session_Snapshot | Map_Field_Session_Result |
    Map_Field_Session_Acknowledge | Map_Field | Ln_Map_Render | Zoom_Video | Video_Preview | Video_Export |
    Transition_Video_Export | Transition_Video_Preview | Hs_Mesh | Hs_Field | Transition_Mesh | Transition_Voxels |
    Special_Points_Auto | Special_Points_Seed | Special_Points_Enumerate | Special_Points_Search |
    Special_Points_Results | Special_Points_Snap | Special_Points_List | Benchmark | Variant_Compile | Variant_List |
    Variant_Delete | Run_Status | Runs_List | Active_Tasks | Cancel_Run | Artifacts_List

datatype route_arg = No_Arg | Body_Arg | Query_Arg

text \<open>A call of a route with its arguments.\<close>

datatype route_call =
    Compute_Health
  | Compute_Capabilities
  | Compute_Validate string
  | Compute_Preview string
  | Compute_Create_Run string
  | Compute_Manifest string
  | Compute_Cancel string string
  | Compute_Status string
  | Map_Render_Inline string
  | Platform string string string string string
  | Cancel_Run_Id string string
  | Legacy legacy_endpoint string

text \<open>
  A route throws an \<^verbatim>\<open>HttpError\<close> with its status and body or another standard exception with its text.
  \<open>Lost\<close> is undefined behaviour.
\<close>

datatype failure = Http_Error int string | Std_Error string | Lost

record reply =
  rp_status :: int
  rp_body :: string
  rp_type :: string
  rp_headers :: string

type_synonym word64 = "64 word"
type_synonym ('s, 'a) act = "'s \<Rightarrow> (failure + 'a) \<times> 's"

definition act_return :: "'a \<Rightarrow> ('s, 'a) act" where
  "act_return x = (\<lambda>s. (Inr x, s))"

definition act_bind :: "('s, 'a) act \<Rightarrow> ('a \<Rightarrow> ('s, 'b) act) \<Rightarrow> ('s, 'b) act" where
  "act_bind m f = (\<lambda>s. case m s of (Inl e, s') \<Rightarrow> (Inl e, s') | (Inr x, s') \<Rightarrow> f x s')"

text \<open>The code outside the server: nlohmann's parser, printer and messages, the routes, and the choice of a contract.\<close>

record 's backend =
  be_parse :: "string \<Rightarrow> string + json"
  be_dump :: "json \<Rightarrow> string"
  be_what :: "exn \<Rightarrow> string"
  be_route :: "route_call \<Rightarrow> ('s, reply) act"
  be_production :: "'s \<Rightarrow> string \<Rightarrow> string \<Rightarrow> string \<Rightarrow> bool"
  be_random :: "'s \<Rightarrow> word64 \<times> word64"

definition from_json :: "'s backend \<Rightarrow> 'a res \<Rightarrow> ('s, 'a) act" where
  "from_json B r = (\<lambda>s. (case r of
      Inr x \<Rightarrow> Inr x
    | Inl Undefined \<Rightarrow> Inl Lost
    | Inl e \<Rightarrow> Inl (Std_Error (be_what B e)), s))"

definition parsed :: "'s backend \<Rightarrow> string \<Rightarrow> ('s, json) act" where
  "parsed B body = (\<lambda>s. (case be_parse B body of Inl e \<Rightarrow> Inl (Std_Error e) | Inr v \<Rightarrow> Inr v, s))"

text \<open>\<^verbatim>\<open>parseJsonBody\<close>: an empty or malformed body is an empty object.\<close>

definition parse_json_body :: "'s backend \<Rightarrow> string \<Rightarrow> json" where
  "parse_json_body B body =
    (if body = [] then JObject [] else case be_parse B body of Inl e \<Rightarrow> JObject [] | Inr v \<Rightarrow> v)"

definition call_json :: "'s backend \<Rightarrow> int \<Rightarrow> route_call \<Rightarrow> ('s, string) act" where
  "call_json B st c = act_bind (be_route B c) (\<lambda>r. act_return (json_response st (rp_body r)))"

definition call_full :: "'s backend \<Rightarrow> route_call \<Rightarrow> ('s, string) act" where
  "call_full B c = act_bind (be_route B c)
    (\<lambda>r. act_return (make_http_response (rp_status r) (rp_body r) (rp_type r) (rp_headers r)))"

definition is_inline_preview :: "json \<Rightarrow> bool res" where
  "is_inline_preview envelope =
    res_bind (json_value (get_int 32) envelope ''schemaVersion'' 0) (\<lambda>version.
      if version \<noteq> 1 then Inr False
      else res_bind (json_value get_string envelope ''kind'' []) (\<lambda>kind.
        Inr ((kind = ''map_image'' \<or> kind = ''transition_image'')
          \<and> (case find_key envelope ''payload'' of None \<Rightarrow> False | Some v \<Rightarrow> is_object v))))"

definition previews :: "'s backend \<Rightarrow> string \<Rightarrow> ('s, string) act" where
  "previews B body =
    act_bind (parsed B body) (\<lambda>envelope.
    act_bind (from_json B (is_inline_preview envelope)) (\<lambda>inline.
      if inline then
        act_bind (be_route B (Compute_Validate body)) (\<lambda>_.
          call_full B (Map_Render_Inline (be_dump B (the (find_key envelope ''payload'')))))
      else call_json B 200 (Compute_Preview body)))"

definition compute_runs_prefix :: string where "compute_runs_prefix = ''/compute/v1/runs/''"

text \<open>The routes below \<^verbatim>\<open>/compute/v1/runs/\<close>; \<open>None\<close> when no test matches.\<close>

definition compute_run_call :: "string \<Rightarrow> string \<Rightarrow> string \<Rightarrow> (int \<times> route_call) option" where
  "compute_run_call meth tail body =
    (let cut = (\<lambda>suffix. take (length tail - length suffix) tail);
         has = (\<lambda>suffix. length tail > length suffix \<and> ends_with suffix tail)
     in if meth = ''GET'' \<and> has ''/manifest'' then Some (200, Compute_Manifest (cut ''/manifest''))
        else if meth = ''POST'' \<and> has ''/cancel'' then Some (202, Compute_Cancel (cut ''/cancel'') body)
        else if meth = ''GET'' \<and> CHR ''/'' \<notin> set tail \<and> tail \<noteq> [] then Some (200, Compute_Status tail)
        else None)"

text \<open>\<^verbatim>\<open>isUuid\<close>: the regular expression, position by position.\<close>

definition is_hex :: "char \<Rightarrow> bool" where
  "is_hex c \<longleftrightarrow> is_digit c \<or> 97 \<le> char_code c \<and> char_code c \<le> 102 \<or> 65 \<le> char_code c \<and> char_code c \<le> 70"

definition uuid_char :: "char \<Rightarrow> char \<Rightarrow> bool" where
  "uuid_char pat c \<longleftrightarrow>
    (if pat = CHR ''-'' then c = CHR ''-''
     else if pat = CHR ''V'' then c \<in> set ''12345''
     else if pat = CHR ''R'' then c \<in> set ''89abAB'' else is_hex c)"

definition uuid_pattern :: string where "uuid_pattern = ''xxxxxxxx-xxxx-Vxxx-Rxxx-xxxxxxxxxxxx''"

definition is_uuid :: "string \<Rightarrow> bool" where
  "is_uuid v \<longleftrightarrow> list_all2 uuid_char uuid_pattern v"

text \<open>A fresh identifier: 16 bytes of two random words, lowest byte first, with the version and variant bits set.\<close>

definition uuid_bytes :: "word64 \<times> word64 \<Rightarrow> 8 word list" where
  "uuid_bytes r =
    (let word_bytes = (\<lambda>w. map (\<lambda>j. ucast (drop_bit (8 * j) w)) [0..<8]);
         bytes = word_bytes (fst r) @ word_bytes (snd r);
         bytes = bytes[6 := (bytes ! 6 AND 0x0F) OR 0x40]
     in bytes[8 := (bytes ! 8 AND 0x3F) OR 0x80])"

definition lower_hex :: "nat \<Rightarrow> char" where
  "lower_hex n = (if n < 10 then char_of (48 + n) else char_of (87 + n))"

definition hex_byte :: "8 word \<Rightarrow> string" where
  "hex_byte b = [lower_hex (unat b div 16), lower_hex (unat b mod 16)]"

definition platform_request_id :: "string \<Rightarrow> word64 \<times> word64 \<Rightarrow> string" where
  "platform_request_id candidate r =
    (if is_uuid candidate then candidate
     else concat (map (\<lambda>i. (if i \<in> {4, 6, 8, 10} then ''-'' else []) @ hex_byte (uuid_bytes r ! i)) [0..<16]))"

definition platform_paths :: "string set" where
  "platform_paths = {''/api/map/render-inline'', ''/api/map/render'', ''/api/video/export'', ''/api/hs/mesh'',
     ''/api/transition/mesh'', ''/api/runs/status'', ''/api/runs/cancel''}"

definition problem_body :: "'s backend \<Rightarrow> string \<Rightarrow> string \<Rightarrow> string \<Rightarrow> string" where
  "problem_body B code message i = be_dump B
    (JObject [(''code'', JString code), (''message'', JString message), (''requestId'', JString i)])"

definition request_id_candidate :: "'s backend \<Rightarrow> string \<Rightarrow> string \<Rightarrow> string" where
  "request_id_candidate B request body =
    (let header = request_header_value request ''X-Request-Id'' in
     if header = [] \<and> body \<noteq> [] then
       (case find_key (parse_json_body B body) ''requestId'' of Some (JString i) \<Rightarrow> i | _ \<Rightarrow> header)
     else header)"

definition legacy_routes :: "((string \<times> string) \<times> legacy_endpoint \<times> route_arg) list" where
  "legacy_routes =
    [((''GET'', ''/api/system/check''), System_Check, No_Arg),
     ((''GET'', ''/api/system/hardware''), System_Hardware, No_Arg),
     ((''GET'', ''/api/system/capabilities''), System_Capabilities, No_Arg),
     ((''POST'', ''/api/map/render''), Map_Render, Body_Arg),
     ((''POST'', ''/api/map/preempt''), Map_Preempt, Body_Arg),
     ((''POST'', ''/api/map/field/session/start''), Map_Field_Session_Start, Body_Arg),
     ((''POST'', ''/api/map/field/session/status''), Map_Field_Session_Status, Body_Arg),
     ((''POST'', ''/api/map/field/session/snapshot''), Map_Field_Session_Snapshot, Body_Arg),
     ((''POST'', ''/api/map/field/session/result''), Map_Field_Session_Result, Body_Arg),
     ((''POST'', ''/api/map/field/session/ack''), Map_Field_Session_Acknowledge, Body_Arg),
     ((''POST'', ''/api/map/field''), Map_Field, Body_Arg), ((''POST'', ''/api/map/ln''), Ln_Map_Render, Body_Arg),
     ((''POST'', ''/api/video/zoom''), Zoom_Video, Body_Arg),
     ((''POST'', ''/api/video/preview''), Video_Preview, Body_Arg),
     ((''POST'', ''/api/video/export''), Video_Export, Body_Arg),
     ((''POST'', ''/api/video/transition''), Transition_Video_Export, Body_Arg),
     ((''POST'', ''/api/video/transition-preview''), Transition_Video_Preview, Body_Arg),
     ((''POST'', ''/api/hs/mesh''), Hs_Mesh, Body_Arg), ((''POST'', ''/api/hs/field''), Hs_Field, Body_Arg),
     ((''POST'', ''/api/transition/mesh''), Transition_Mesh, Body_Arg),
     ((''POST'', ''/api/transition/voxels''), Transition_Voxels, Body_Arg),
     ((''POST'', ''/api/special-points/auto''), Special_Points_Auto, Body_Arg),
     ((''POST'', ''/api/special-points/seed''), Special_Points_Seed, Body_Arg),
     ((''POST'', ''/api/special-points/enumerate''), Special_Points_Enumerate, Body_Arg),
     ((''POST'', ''/api/special-points/search''), Special_Points_Search, Body_Arg),
     ((''GET'', ''/api/special-points/results''), Special_Points_Results, Query_Arg),
     ((''POST'', ''/api/special-points/snap''), Special_Points_Snap, Body_Arg),
     ((''GET'', ''/api/special-points''), Special_Points_List, Query_Arg),
     ((''POST'', ''/api/benchmark''), Benchmark, Body_Arg),
     ((''POST'', ''/api/variants/compile''), Variant_Compile, Body_Arg),
     ((''GET'', ''/api/variants''), Variant_List, No_Arg),
     ((''POST'', ''/api/variants/delete''), Variant_Delete, Body_Arg),
     ((''GET'', ''/api/runs/status''), Run_Status, Query_Arg), ((''GET'', ''/api/runs''), Runs_List, Query_Arg),
     ((''GET'', ''/api/tasks/active''), Active_Tasks, No_Arg),
     ((''POST'', ''/api/runs/cancel''), Cancel_Run, Body_Arg),
     ((''GET'', ''/api/artifacts''), Artifacts_List, Query_Arg)]"

definition run_cancel_path :: "string \<Rightarrow> bool" where
  "run_cancel_path p \<longleftrightarrow> starts_with ''/api/runs/'' p \<and> length p > 17 \<and> ends_with ''/cancel'' p"

text \<open>The routes after the gate of the legacy interface.\<close>

definition legacy_dispatch :: "'s backend \<Rightarrow> string \<Rightarrow> string \<Rightarrow> string \<Rightarrow> string \<Rightarrow> ('s, string) act" where
  "legacy_dispatch B meth p query body =
    (if meth = ''POST'' \<and> p = ''/api/map/render-inline'' then call_full B (Map_Render_Inline body)
     else case map_of legacy_routes (meth, p) of
       Some (e, a) \<Rightarrow>
         call_json B 200 (Legacy e (case a of No_Arg \<Rightarrow> [] | Body_Arg \<Rightarrow> body | Query_Arg \<Rightarrow> query))
     | None \<Rightarrow>
         if meth = ''POST'' \<and> run_cancel_path p
         then call_json B 200 (Cancel_Run_Id (take (length p - 10 - 7) (drop 10 p)) body)
         else if meth \<noteq> ''GET'' \<and> meth \<noteq> ''POST''
         then act_return (json_response 405 ''{\"error\":\"method not allowed\"}'')
         else act_return (json_response 404 ''{\"error\":\"not found\"}''))"

definition legacy_enabled :: "settings \<Rightarrow> bool" where
  "legacy_enabled E = env_enabled (legacy_flag E) False"

definition gated_legacy :: "settings \<Rightarrow> 's backend \<Rightarrow> string \<Rightarrow> string \<Rightarrow> string \<Rightarrow> string \<Rightarrow> ('s, string) act" where
  "gated_legacy E B meth p query body =
    (if starts_with ''/api/'' p \<and> \<not> legacy_enabled E
     then act_return (json_response 404 ''{\"error\":\"legacy API disabled\"}'')
     else legacy_dispatch B meth p query body)"

definition platform_dispatch ::
    "settings \<Rightarrow> 's backend \<Rightarrow> string \<Rightarrow> string \<Rightarrow> string \<Rightarrow> string \<Rightarrow> string \<Rightarrow> ('s, string) act" where
  "platform_dispatch E B request meth p query body =
    (\<lambda>s. let production = (\<not> legacy_enabled E \<or> be_production B s p query body) in
      (if p \<in> platform_paths \<and> (production \<or> request_header_value request ''Authorization'' \<noteq> []) then
         (let i = platform_request_id (request_id_candidate B request body) (be_random B s) in
           if \<not> compute_authorized E request then
             act_return (json_response 401
               (problem_body B ''compute_unauthorized'' ''valid Compute service credential required'' i))
           else if production then call_full B (Platform meth p query body i)
           else gated_legacy E B meth p query body)
       else gated_legacy E B meth p query body) s)"

definition unauthorized_body :: string where
  "unauthorized_body = ''{\"error\":{\"code\":\"COMPUTE_UNAUTHORIZED\",\"message\":''
     @ ''\"valid Compute service credential required\",\"details\":{}}}''"

definition compute_prefix :: string where "compute_prefix = ''/compute/v1/''"

definition dispatch ::
    "settings \<Rightarrow> 's backend \<Rightarrow> string \<Rightarrow> string \<Rightarrow> string \<Rightarrow> string \<Rightarrow> string \<Rightarrow> ('s, string) act" where
  "dispatch E B request meth p query body =
    (if meth = ''OPTIONS'' then act_return (json_response 200 ''{}'')
     else if meth = ''GET'' \<and> p = ''/compute/v1/health'' then call_json B 200 Compute_Health
     else if starts_with compute_prefix p \<and> \<not> compute_authorized E request
     then act_return (json_response 401 unauthorized_body)
     else if meth = ''GET'' \<and> p = ''/compute/v1/capabilities'' then call_json B 200 Compute_Capabilities
     else if meth = ''POST'' \<and> p = ''/compute/v1/previews'' then previews B body
     else if meth = ''POST'' \<and> p = ''/compute/v1/runs'' then call_json B 202 (Compute_Create_Run body)
     else case (if starts_with compute_runs_prefix p
                then compute_run_call meth (drop (length compute_runs_prefix) p) body else None) of
       Some (st, c) \<Rightarrow> call_json B st c
     | None \<Rightarrow> platform_dispatch E B request meth p query body)"

text \<open>The words of the request line, as \<^verbatim>\<open>operator>>\<close> reads them, and the split at the question mark.\<close>

definition next_word :: "string \<Rightarrow> string \<times> string" where
  "next_word s = (let s = dropWhile is_space s
     in (takeWhile (\<lambda>c. \<not> is_space c) s, dropWhile (\<lambda>c. \<not> is_space c) s))"

definition split_path :: "string \<Rightarrow> string \<times> string" where
  "split_path raw = (case str_find (CHR ''?'') raw of None \<Rightarrow> (raw, []) | Some q \<Rightarrow> (take q raw, drop (q + 1) raw))"

definition request_line :: "string \<Rightarrow> string \<times> string \<times> string" where
  "request_line head =
    (let (meth, rest) = next_word head; (raw, rest') = next_word rest; (p, query) = split_path raw
     in (meth, p, query))"

text \<open>\<^verbatim>\<open>handleRequest\<close>: the dispatch, and its two handlers of exceptions.\<close>

definition caught :: "(failure + string) \<times> 's \<Rightarrow> string option \<times> 's" where
  "caught r =
    (case r of
       (Inr response, s') \<Rightarrow> (Some response, s')
     | (Inl (Http_Error st b), s') \<Rightarrow> (Some (json_response st b), s')
     | (Inl (Std_Error what), s') \<Rightarrow> (Some (json_response 500 (json_error_body what)), s')
     | (Inl Lost, s') \<Rightarrow> (None, s'))"

definition handle_request :: "settings \<Rightarrow> 's backend \<Rightarrow> string \<Rightarrow> 's \<Rightarrow> string option \<times> 's" where
  "handle_request E B request s =
    (let (head, body) = (case find_sub blank_line request of
            None \<Rightarrow> (request, []) | Some h \<Rightarrow> (take h request, drop (h + 4) request));
         (meth, p, query) = request_line head
     in caught (dispatch E B request meth p query body s))"

section \<open>Streaming an artifact\<close>

text \<open>
  What the operating system decides during a connection: how many bytes each \<^verbatim>\<open>send\<close> takes and each \<^verbatim>\<open>read\<close>
  gives, by the number of the call; 0 is an error, a closed peer or the end.
\<close>

record io =
  io_send :: "nat \<Rightarrow> nat"
  io_read :: "nat \<Rightarrow> nat"

function send_bytes :: "io \<Rightarrow> nat \<Rightarrow> string \<Rightarrow> bool \<times> string \<times> nat" where
  "send_bytes io i data =
    (if data = [] then (True, [], i)
     else let n = io_send io i in
       if n = 0 then (False, [], Suc i)
       else case send_bytes io (Suc i) (drop n data) of (ok, sent, j) \<Rightarrow> (ok, take n data @ sent, j))"
  by pat_completeness auto
termination by (relation "measure (\<lambda>(io, i, data). length data)") auto

declare send_bytes.simps [simp del]

definition chunk_size :: nat where "chunk_size = 1024 * 1024"

function copy_file :: "io \<Rightarrow> nat \<Rightarrow> nat \<Rightarrow> string \<Rightarrow> nat \<Rightarrow> string" where
  "copy_file io i j content remaining =
    (if remaining = 0 then []
     else let wanted = min remaining chunk_size;
              got = min (io_read io j) (min wanted (length content))
          in if got = 0 then []
             else case send_bytes io i (take got content) of (ok, sent, i') \<Rightarrow>
               sent @ (if ok then copy_file io i' (Suc j) (drop got content) (remaining - got) else []))"
  by pat_completeness auto
termination by (relation "measure (\<lambda>(io, i, j, content, remaining). remaining)") auto

declare copy_file.simps [simp del]

definition safe_char :: "char \<Rightarrow> bool" where
  "safe_char c \<longleftrightarrow> is_lower c \<or> is_upper c \<or> is_digit c \<or> c \<in> set ''.-_ ''"

definition safe_download_name :: "string \<Rightarrow> string" where
  "safe_download_name name =
    (let safe = map (\<lambda>c. if safe_char c then c else CHR ''_'') name in if safe = [] then ''artifact'' else safe)"

definition is_server_path_within :: "path \<Rightarrow> path \<Rightarrow> bool" where
  "is_server_path_within root_path candidate \<longleftrightarrow> take (length root_path) candidate = root_path"

text \<open>
  \<^verbatim>\<open>open\<close> with \<^verbatim>\<open>O_NOFOLLOW\<close>: the directory is resolved, a link as last component is refused. The result is the
  real path, which \<^verbatim>\<open>/proc/self/fd\<close> reports, and what was opened.
\<close>

definition open_nofollow :: "files \<Rightarrow> path \<Rightarrow> (path \<times> entry) option" where
  "open_nofollow fs p =
    (if p = [] then None
     else case canonical fs (butlast p) of
       None \<Rightarrow> None
     | Some d \<Rightarrow>
         if entry_at fs d \<noteq> Some Directory then None
         else case entry_at fs (d @ [last p]) of
           None \<Rightarrow> None
         | Some (Link _) \<Rightarrow> None
         | Some e \<Rightarrow> Some (d @ [last p], e))"

fun query_param_at :: "bool \<Rightarrow> string \<Rightarrow> string \<Rightarrow> string" where
  "query_param_at first key query =
    (if first \<and> starts_with (key @ ''='') query then takeWhile (\<lambda>c. c \<noteq> CHR ''&'') (drop (length key + 1) query)
     else case query of [] \<Rightarrow> [] | c # rest \<Rightarrow> query_param_at (c = CHR ''&'') key rest)"

definition get_query_param :: "string \<Rightarrow> string \<Rightarrow> string" where
  "get_query_param query key = query_param_at True key query"

record artifact_file =
  af_path :: path
  af_run_dir :: path
  af_type :: string
  af_name :: string

definition artifact_file_route :: "files \<Rightarrow> path \<Rightarrow> string \<Rightarrow> artifact_file res" where
  "artifact_file_route fs repo query =
    res_bind (artifact_path_from_id fs repo (url_decode (get_query_param query ''artifactId''))) (\<lambda>(p, name, run_dir).
      if is_regular_file fs p
      then Inr \<lparr>af_path = p, af_run_dir = run_dir, af_type = content_type_from_path p, af_name = name\<rparr>
      else Inl (RuntimeError ''failed to stat artifact''))"

definition artifact_head :: "artifact_file \<Rightarrow> bool \<Rightarrow> file_range \<Rightarrow> nat \<Rightarrow> nat \<Rightarrow> string" where
  "artifact_head f download r file_size len =
    ''HTTP/1.1 '' @ (if requested r then ''206 Partial Content'' else ''200 OK'') @ crlf
    @ ''Content-Type: '' @ af_type f @ crlf
    @ ''Access-Control-Allow-Origin: *'' @ crlf
    @ ''Access-Control-Expose-Headers: Content-Disposition, Content-Length, Content-Range, Accept-Ranges'' @ crlf
    @ ''Accept-Ranges: bytes'' @ crlf
    @ (if requested r then ''Content-Range: bytes '' @ nat_digits (range_start r) @ ''-'' @ nat_digits (range_end r)
          @ ''/'' @ nat_digits file_size @ crlf else [])
    @ (if download then ''Content-Disposition: attachment; filename=\"'' @ safe_download_name (af_name f) @ ''\"'' @ crlf
       else [])
    @ ''Content-Length: '' @ nat_digits len @ crlf @ ''Connection: close'' @ blank_line"

definition unsatisfiable :: "nat \<Rightarrow> string" where
  "unsatisfiable file_size =
    ''HTTP/1.1 416 Range Not Satisfiable'' @ crlf @ ''Content-Range: bytes */'' @ nat_digits file_size @ crlf
    @ ''Access-Control-Allow-Origin: *'' @ crlf @ ''Content-Length: 0'' @ crlf @ ''Connection: close'' @ blank_line"

definition send_all :: "io \<Rightarrow> nat \<Rightarrow> string \<Rightarrow> string" where
  "send_all io i data = (case send_bytes io i data of (ok, sent, j) \<Rightarrow> sent)"

text \<open>
  Everything before the header is sent. \<open>fs\<close> is the file system while the path is validated, \<open>fs'\<close> when it is
  opened: other processes may have changed it in between.
\<close>

definition open_artifact ::
    "files \<Rightarrow> files \<Rightarrow> path \<Rightarrow> string \<Rightarrow> string \<Rightarrow> (artifact_file \<times> string \<times> file_range) res" where
  "open_artifact fs fs' repo request query =
    res_bind (artifact_file_route fs repo query) (\<lambda>f.
    case open_nofollow fs' (af_path f) of
      None \<Rightarrow> Inl (RuntimeError ''failed to open artifact'')
    | Some (opened, e) \<Rightarrow>
        case e of
          Regular content \<Rightarrow>
            if \<not> is_server_path_within (af_run_dir f) opened
            then Inl (RuntimeError ''artifact path changed during open'')
            else Inr (f, content, parse_file_range (request_header_value request ''Range'') (length content)
              (request_header_value request ''If-Range'' \<noteq> []))
        | _ \<Rightarrow> Inl (RuntimeError ''failed to stat artifact''))"

definition off_max :: nat where "off_max = 2 ^ 63 - 1"

definition send_artifact :: "io \<Rightarrow> bool \<Rightarrow> artifact_file \<Rightarrow> string \<Rightarrow> file_range \<Rightarrow> string res" where
  "send_artifact io download f content r =
    (let size = length content; len = (if size = 0 then 0 else range_end r - range_start r + 1) in
     if \<not> valid r then Inr (send_all io 0 (unsatisfiable size))
     else if 0 < len \<and> range_start r > off_max then Inl (RuntimeError ''artifact offset is too large'')
     else case send_bytes io 0 (artifact_head f download r size len) of (ok, sent, i) \<Rightarrow>
       Inr (sent @ (if ok \<and> 0 < len then copy_file io i 0 (drop (range_start r) content) len else [])))"

definition exn_text :: "(exn \<Rightarrow> string) \<Rightarrow> exn \<Rightarrow> string" where
  "exn_text what e = (case e of RuntimeError m \<Rightarrow> m | _ \<Rightarrow> what e)"

text \<open>\<open>None\<close>: the request is not for an artifact; otherwise the bytes that reach the client.\<close>

definition stream_artifact_response ::
    "settings \<Rightarrow> (exn \<Rightarrow> string) \<Rightarrow> files \<Rightarrow> files \<Rightarrow> path \<Rightarrow> io \<Rightarrow> string \<Rightarrow> string option" where
  "stream_artifact_response E what fs fs' repo io request =
    (let first_line = (case find_sub crlf request of None \<Rightarrow> request | Some e \<Rightarrow> take e request);
         (meth, p, query) = request_line first_line;
         download = (p = ''/api/artifacts/download''); compute_content = (p = ''/compute/v1/artifacts'');
         content = (p = ''/api/artifacts/content'' \<or> compute_content)
     in if meth \<noteq> ''GET'' \<or> (\<not> download \<and> \<not> content) then None
        else if compute_content \<and> \<not> compute_authorized E request
        then Some (send_all io 0 (json_response 401 unauthorized_body))
        else if \<not> compute_content \<and> \<not> legacy_enabled E
        then Some (send_all io 0 (json_response 404 ''{\"error\":\"legacy API disabled\"}''))
        else Some (case res_bind (open_artifact fs fs' repo request query)
            (\<lambda>(f, bytes, r). send_artifact io download f bytes r) of
          Inr out \<Rightarrow> out
        | Inl e \<Rightarrow> send_all io 0 (json_response 404 (json_error_body (exn_text what e)))))"

section \<open>A connection\<close>

definition serve_connection ::
    "settings \<Rightarrow> 's backend \<Rightarrow> files \<Rightarrow> files \<Rightarrow> path \<Rightarrow> io \<Rightarrow> string list \<Rightarrow> 's \<Rightarrow> string option \<times> 's" where
  "serve_connection E B fs fs' repo io pieces s =
    (let request = read_request pieces in
     if request = [] then (Some [], s)
     else case stream_artifact_response E (be_what B) fs fs' repo io request of
       Some out \<Rightarrow> (Some out, s)
     | None \<Rightarrow>
         case handle_request E B request s of
           (None, s') \<Rightarrow> (None, s')
         | (Some response, s') \<Rightarrow> (Some (send_all io 0 response), s'))"

end
