(* ===== verification/HttpProperties.thy ===== *)
theory HttpProperties
  imports HttpServer
begin

text \<open>
  Theorems on the HTTP server: which credentials are accepted, what runs without one, reading a request that
  arrives in pieces, and what a client receives of an artifact.
\<close>

section \<open>The credential\<close>

definition nul :: char where "nul = CHR 0x00"

lemma char_at_pad: "char_at s i = of_nat (char_code ((s @ replicate n nul) ! i))" if "i < length s + n"
  using that by (auto simp: char_at_def nth_append nul_def char_code_def)

lemma char_code_less: "char_code c < 256"
proof -
  have "char_code c = of_char (char_of (char_code c))" by (simp add: char_code_def)
  also have "\<dots> = char_code c mod 256" by (simp only: of_char_of)
  finally show ?thesis by linarith
qed

lemma char_at_eq: "(of_nat (char_code c) :: 8 word) = of_nat (char_code d) \<longleftrightarrow> c = d"
proof -
  have "(of_nat (char_code c) :: 8 word) = of_nat (char_code d) \<longleftrightarrow> char_code c = char_code d"
    using char_code_less [of c] char_code_less [of d] by (simp add: word_of_nat_eq_iff take_bit_nat_eq_self)
  then show ?thesis by (simp add: char_code_def)
qed

lemma or_zero_iff: "(a :: 8 word) OR b = 0 \<longleftrightarrow> a = 0 \<and> b = 0"
  by (auto simp: bit_eq_iff bit_or_iff)

lemma fold_or_zero: "fold (\<lambda>i d. d OR f i) xs (d :: 8 word) = 0 \<longleftrightarrow> d = 0 \<and> (\<forall>i\<in>set xs. f i = 0)"
  by (induction xs arbitrary: d) (auto simp: or_zero_iff)

lemma bytes_equal_iff:
  assumes "length a \<le> length b"
  shows "(\<forall>i<length b. char_at a i = char_at b i) \<longleftrightarrow> b = a @ replicate (length b - length a) nul"
proof -
  have "char_at a i = char_at b i \<longleftrightarrow> (a @ replicate (length b - length a) nul) ! i = b ! i" if "i < length b" for i
    using char_at_pad [of i a "length b - length a"] that assms by (simp add: char_at_def [of b] char_at_eq)
  then show ?thesis using assms by (auto simp: list_eq_iff_nth_eq [of b])
qed

lemma xor_zero_iff: "(a :: 8 word) XOR b = 0 \<longleftrightarrow> a = b"
  by (auto simp: bit_eq_iff bit_xor_iff)

lemma size_difference:
  assumes "m < 2 ^ 64" "n < 2 ^ 64"
  shows "(ucast ((of_nat m :: 64 word) XOR of_nat n) :: 8 word) = 0 \<longleftrightarrow> m mod 256 = n mod 256"
proof -
  have cast: "(ucast (of_nat k :: 64 word) :: 8 word) = of_nat k" if "k < 2 ^ 64" for k
    using that by (simp add: unsigned_of_nat take_bit_nat_eq_self)
  have "(ucast ((of_nat m :: 64 word) XOR of_nat n) :: 8 word)
      = ucast (of_nat m :: 64 word) XOR ucast (of_nat n :: 64 word)"
    by (rule unsigned_xor_eq)
  also have "\<dots> = (of_nat m :: 8 word) XOR of_nat n" by (simp only: cast assms)
  also have "\<dots> = 0 \<longleftrightarrow> (of_nat m :: 8 word) = of_nat n" by (rule xor_zero_iff)
  also have "\<dots> \<longleftrightarrow> m mod 256 = n mod 256"
    by (simp add: word_of_nat_eq_iff take_bit_eq_mod)
  finally show ?thesis .
qed

lemma constant_time_equal_iff:
  assumes "length presented < 2 ^ 64" "length key < 2 ^ 64" "nul \<notin> set key"
  shows "constant_time_equal presented key \<longleftrightarrow> (\<exists>n. presented = key @ replicate (256 * n) nul)"
proof -
  let ?c = "max (length presented) (length key)"
  have eq: "constant_time_equal presented key \<longleftrightarrow>
      length presented mod 256 = length key mod 256 \<and> (\<forall>i<?c. char_at presented i = char_at key i)"
    using size_difference [OF assms(1,2)]
    by (simp add: constant_time_equal_def fold_or_zero xor_zero_iff Ball_def)
  show ?thesis
  proof (cases "length presented < length key")
    case True
    have "char_at presented (length presented) \<noteq> char_at key (length presented)"
    proof -
      have "key ! length presented \<noteq> nul" using assms(3) True by (metis nth_mem)
      then show ?thesis using True char_at_eq [of nul] by (simp add: char_at_def nul_def char_code_def)
    qed
    then show ?thesis using True eq by (auto simp: max_def)
  next
    case False
    then have "?c = length presented" "length key \<le> length presented" by simp_all
    then have "constant_time_equal presented key \<longleftrightarrow> length presented mod 256 = length key mod 256
        \<and> presented = key @ replicate (length presented - length key) nul"
      using eq bytes_equal_iff [of key presented] by (simp only: eq_commute [of "char_at key _"])
    also have "\<dots> \<longleftrightarrow> (\<exists>n. presented = key @ replicate (256 * n) nul)"
    proof
      assume a: "length presented mod 256 = length key mod 256 \<and> presented = key @ replicate (length presented - length key) nul"
      then have "256 dvd length presented - length key" using \<open>length key \<le> length presented\<close> by (simp add: mod_eq_dvd_iff_nat)
      then obtain n where "length presented - length key = 256 * n" by (auto elim: dvdE)
      with a show "\<exists>n. presented = key @ replicate (256 * n) nul" by metis
    qed auto
    finally show ?thesis .
  qed
qed

lemma strip_length: "length (strip f r s) \<le> length s"
proof -
  have "length (dropWhile p xs) \<le> length xs" for p and xs :: string by (rule length_dropWhile_le)
  from this [of "\<lambda>c. c \<in> r" "rev (dropWhile (\<lambda>c. c \<in> f) s)"] this [of "\<lambda>c. c \<in> f" s]
  show ?thesis unfolding strip_def by simp
qed

lemma header_lines_length: "l \<in> set (header_lines s) \<Longrightarrow> length l \<le> length s"
proof (induction s rule: header_lines.induct)
  case (1 s)
  show ?case
  proof (cases "s = [] \<or> find_sub crlf s = None")
    case True
    then show ?thesis using 1 by (subst (asm) (2) header_lines.simps) (auto split: if_splits)
  next
    case False
    then obtain e where e: "s \<noteq> []" "find_sub crlf s = Some e" by auto
    then have "header_lines s = take e s # header_lines (drop (e + 2) s)" by (subst header_lines.simps) simp
    then show ?thesis using 1 e by fastforce
  qed
qed

lemma first_header_value_length:
  "(\<And>l. l \<in> set ls \<Longrightarrow> length l \<le> n) \<Longrightarrow> length (first_header_value w ls) \<le> n"
proof (induction ls)
  case (Cons l ls)
  have "length v \<le> length l" if "header_line_value w l = Some v" for v
    using that by (auto simp: header_line_value_def split: option.splits if_splits intro!: order_trans [OF strip_length])
  with Cons show ?case by (fastforce split: option.splits)
qed simp

lemma request_header_value_length: "length (request_header_value request w) \<le> length request"
  unfolding request_header_value_def
  by (auto split: option.split intro!: first_header_value_length dest!: header_lines_length)

text \<open>
  C25: the credential. A request is authorized exactly when a key is configured and the request's
  Authorization header is the word Bearer, a space and that key, which may only be followed by NUL
  characters in a number divisible by 256: the comparison pads with NUL and compares the lengths modulo 256.
\<close>

theorem credential_accepted:
  assumes "nul \<notin> set key" "key \<noteq> []" "length key < 2 ^ 64" "length request < 2 ^ 64" "service_key E = Some key"
  shows "compute_authorized E request \<longleftrightarrow>
    (\<exists>n. request_header_value request ''Authorization'' = bearer @ key @ replicate (256 * n) nul)"
proof -
  let ?h = "request_header_value request ''Authorization''"
  have "compute_authorized E request \<longleftrightarrow>
      starts_with bearer ?h \<and> (\<exists>n. drop (length bearer) ?h = key @ replicate (256 * n) nul)"
    using constant_time_equal_iff [of "drop (length bearer) ?h" key] assms request_header_value_length [of request "''Authorization''"]
    by (simp add: compute_authorized_def Let_def)
  also have "\<dots> \<longleftrightarrow> (\<exists>n. ?h = bearer @ key @ replicate (256 * n) nul)"
    unfolding starts_with_def by (metis append_eq_conv_conj append_take_drop_id)
  finally show ?thesis .
qed


text \<open>What the comparison accepts beside the key.\<close>

lemma padded_credential: "constant_time_equal (''k'' @ replicate 256 nul) ''k''"
  using constant_time_equal_iff [of "''k'' @ replicate 256 nul" "''k''"]
  by (auto simp: nul_def intro: exI [of _ 1])

text \<open>A fixed request and key for the witnesses.\<close>

definition sample_settings :: settings where
  "sample_settings = \<lparr>service_key = Some ''k'', legacy_flag = None\<rparr>"

definition sample_request :: string where
  "sample_request = ''GET /x HTTP/1.1'' @ crlf @ ''Authorization: Bearer k'' @ blank_line"

theorem credential_accepted_witness: "compute_authorized sample_settings sample_request"
proof -
  have "request_header_value sample_request ''Authorization'' = bearer @ ''k'' @ replicate (256 * 0) nul"
    by code_simp
  then show ?thesis
    using credential_accepted [of "''k''" sample_request sample_settings]
    by (auto simp: sample_settings_def nul_def sample_request_def crlf_def blank_line_def)
qed

section \<open>Reading a request\<close>

lemma find_sub_Some:
  "find_sub pat s = Some i \<Longrightarrow> starts_with pat (drop i s) \<and> i + length pat \<le> length s \<and> (\<forall>j<i. \<not> starts_with pat (drop j s))"
proof (induction pat s arbitrary: i rule: find_sub.induct)
  case (1 pat)
  then show ?case by (simp add: starts_with_def split: if_splits)
next
  case (2 pat c cs)
  show ?case
  proof (cases "starts_with pat (c # cs)")
    case True
    then have "length pat \<le> length (c # cs)" unfolding starts_with_def by (metis length_take min.cobounded1)
    with True 2 show ?thesis by simp
  next
    case False
    with 2 obtain j where "find_sub pat cs = Some j" "i = Suc j" by auto
    with 2 False show ?thesis by (auto simp: less_Suc_eq_0_disj)
  qed
qed

lemma find_sub_first:
  "pat \<noteq> [] \<Longrightarrow> starts_with pat (drop i s) \<Longrightarrow> \<forall>j<i. \<not> starts_with pat (drop j s) \<Longrightarrow> find_sub pat s = Some i"
proof (induction pat s arbitrary: i rule: find_sub.induct)
  case (1 pat)
  then show ?case by (simp add: starts_with_def)
next
  case (2 pat c cs)
  show ?case
  proof (cases i)
    case 0
    with 2 show ?thesis by simp
  next
    case (Suc k)
    then have "\<forall>j<k. \<not> starts_with pat (drop j cs)" "\<not> starts_with pat (c # cs)" using "2.prems"(3) by auto
    with 2 Suc show ?thesis by simp
  qed
qed

lemma starts_with_prefix: "i + length pat \<le> length a \<Longrightarrow> starts_with pat (drop i (a @ b)) = starts_with pat (drop i a)"
  by (simp add: starts_with_def)

lemma find_sub_append:
  assumes "find_sub pat a = Some i" "pat \<noteq> []"
  shows "find_sub pat (a @ b) = Some i"
proof -
  note f = find_sub_Some [OF assms(1)]
  show ?thesis
    by (rule find_sub_first [OF assms(2)]) (use f starts_with_prefix in auto)
qed

lemma find_sub_prefix:
  assumes "find_sub pat (a @ b) = Some i" "i + length pat \<le> length a" "pat \<noteq> []"
  shows "find_sub pat a = Some i"
proof -
  note f = find_sub_Some [OF assms(1)]
  show ?thesis
    by (rule find_sub_first [OF assms(3)]) (use f starts_with_prefix [where a = a and b = b] assms(2) in auto)
qed

lemma blank_line_length [simp]: "length blank_line = 4" "blank_line \<noteq> []"
  by (simp_all add: blank_line_def crlf_def)

lemma recv_headers_found:
  assumes "[] \<notin> set pieces" "find_sub blank_line (buf @ concat pieces) = Some h" "h + 4 \<le> header_cap"
    "find_sub blank_line buf = None"
  shows "\<exists>buf' rest. recv_headers buf pieces = (buf', rest, True) \<and> buf' @ concat rest = buf @ concat pieces
    \<and> find_sub blank_line buf' = Some h \<and> [] \<notin> set rest"
  using assms
proof (induction buf pieces rule: recv_headers.induct)
  case (1 buf)
  then show ?case by simp
next
  case (2 buf piece rest)
  let ?b = "buf @ piece"
  show ?case
  proof (cases "find_sub blank_line ?b")
    case (Some k)
    then have "k = h" using find_sub_append [OF Some, of "concat rest"] 2 by simp
    with Some 2 show ?thesis by auto
  next
    case None
    have "length ?b < h + 4"
    proof (rule ccontr)
      assume "\<not> length ?b < h + 4"
      then have "find_sub blank_line ?b = Some h"
        using find_sub_prefix [of blank_line ?b "concat rest" h] 2 by simp
      with None show False by simp
    qed
    moreover have "piece \<noteq> []" using 2(2) by auto
    ultimately show ?thesis using None 2 by simp
  qed
qed

lemma recv_body_all:
  assumes "[] \<notin> set pieces" "length (buf @ concat pieces) \<le> body_cap" "length (buf @ concat pieces) = wanted"
  shows "recv_body wanted buf pieces = buf @ concat pieces"
  using assms
proof (induction pieces arbitrary: buf)
  case Nil
  then show ?case by (subst recv_body.simps) simp
next
  case (Cons piece rest)
  then show ?case by (subst recv_body.simps) auto
qed

lemma reassembled:
  assumes "[] \<notin> set pieces" "find_sub blank_line (concat pieces) = Some h" "h + 4 \<le> header_cap"
    and "length (concat pieces) = h + 4 + content_length (take h (concat pieces))" "length (concat pieces) \<le> body_cap"
  shows "read_request pieces = concat pieces"
proof -
  have n: "find_sub blank_line [] = None" by simp
  have "find_sub blank_line ([] @ concat pieces) = Some h" using assms(2) by simp
  from recv_headers_found [OF assms(1) this assms(3) n] obtain buf rest where
    r: "recv_headers [] pieces = (buf, rest, True)" "buf @ concat rest = concat pieces" "find_sub blank_line buf = Some h"
      "[] \<notin> set rest" unfolding append_Nil by blast
  have t: "take h buf = take h (concat pieces)" using find_sub_Some [OF r(3)] unfolding r(2) [symmetric] by simp
  have "length (concat pieces) < 2 ^ 64" using assms(5) by (simp add: body_cap_def)
  then have m: "(h + 4 + content_length (take h buf)) mod 2 ^ 64 = length (concat pieces)"
    unfolding t assms(4) [symmetric] by (rule mod_less)
  have "recv_body (length (concat pieces)) buf rest = buf @ concat rest"
    by (rule recv_body_all [OF r(4)]) (use r(2) assms(5) in simp_all)
  then show ?thesis
    unfolding read_request_def r(1) prod.case Let_def r(3) option.sel m by (simp add: r(2))
qed

section \<open>Nothing runs without the credential\<close>

lemma state_kept [simp]: "snd (act_return x s) = s"
  by (simp add: act_return_def)

text \<open>The outcome does not depend on the routes, and leaves the state.\<close>

definition harmless :: "('r \<Rightarrow> 's \<Rightarrow> 'a \<times> 's) \<Rightarrow> bool" where
  "harmless f \<longleftrightarrow> (\<forall>r r' s. f r s = f r' s \<and> snd (f r s) = s)"

lemma harmless_return [simp]: "harmless (\<lambda>r. act_return x)"
  by (simp add: harmless_def)

lemma legacy_paths: "map_of legacy_routes (meth, p) = Some x \<Longrightarrow> starts_with ''/api/'' p"
proof -
  have "list_all (\<lambda>((m, p), _). starts_with ''/api/'' p) legacy_routes" by code_simp
  then show "map_of legacy_routes (meth, p) = Some x \<Longrightarrow> starts_with ''/api/'' p"
    by (fastforce simp: list_all_iff dest: map_of_SomeD)
qed

lemma starts_with_longer: "starts_with (a @ b) s \<Longrightarrow> starts_with a s"
proof -
  assume "starts_with (a @ b) s"
  then have "take (length a) (take (length a + length b) s) = take (length a) (a @ b)" by (simp add: starts_with_def)
  then show ?thesis by (simp add: starts_with_def min_absorb1)
qed

lemma cancel_path_api: "run_cancel_path p \<Longrightarrow> starts_with ''/api/'' p"
  using starts_with_longer [of "''/api/''" "''runs/''" p] by (simp add: run_cancel_path_def)

lemma closed_legacy:
  assumes "\<not> legacy_enabled E"
  shows "harmless (\<lambda>r. gated_legacy E (B\<lparr>be_route := r\<rparr>) meth p query body)"
proof (cases "starts_with ''/api/'' p")
  case True
  then show ?thesis by (simp add: gated_legacy_def assms)
next
  case False
  then have "map_of legacy_routes (meth, p) = None" using legacy_paths by (cases "map_of legacy_routes (meth, p)") auto
  moreover have "\<not> run_cancel_path p" using False cancel_path_api by blast
  moreover have "p \<noteq> ''/api/map/render-inline''" using False by (auto simp: starts_with_def)
  ultimately show ?thesis using False by (simp add: gated_legacy_def legacy_dispatch_def)
qed

lemma parse_independent: "parse_json_body (B\<lparr>be_route := r\<rparr>) body = parse_json_body B body"
  unfolding parse_json_body_def by simp

lemma candidate_independent: "request_id_candidate (B\<lparr>be_route := r\<rparr>) request body = request_id_candidate B request body"
  unfolding request_id_candidate_def parse_independent ..

lemma problem_independent: "problem_body (B\<lparr>be_route := r\<rparr>) c m i = problem_body B c m i"
  unfolding problem_body_def by simp

lemmas route_independent [simp] = parse_independent candidate_independent problem_independent

lemma closed_platform:
  assumes "\<not> compute_authorized E request" "\<not> legacy_enabled E"
  shows "harmless (\<lambda>r. platform_dispatch E (B\<lparr>be_route := r\<rparr>) request meth p query body)"
  using closed_legacy [OF assms(2), of B meth p query body]
  by (simp add: platform_dispatch_def assms harmless_def Let_def act_return_def)

lemma closed_dispatch:
  assumes "\<not> compute_authorized E request" "\<not> legacy_enabled E" "\<not> (meth = ''GET'' \<and> p = ''/compute/v1/health'')"
  shows "harmless (\<lambda>r. dispatch E (B\<lparr>be_route := r\<rparr>) request meth p query body)"
proof -
  have c: "starts_with compute_prefix ''/compute/v1/capabilities''" "starts_with compute_prefix ''/compute/v1/previews''"
    "starts_with compute_prefix ''/compute/v1/runs''"
    by (simp_all add: compute_prefix_def starts_with_def)
  have r: "starts_with compute_runs_prefix p \<Longrightarrow> starts_with compute_prefix p"
    using starts_with_longer [of compute_prefix "''runs/''" p] by (simp add: compute_prefix_def compute_runs_prefix_def)
  show ?thesis
  proof (cases "starts_with compute_prefix p")
    case True
    have "dispatch E (B\<lparr>be_route := r\<rparr>) request meth p query body
        = act_return (if meth = ''OPTIONS'' then json_response 200 ''{}'' else json_response 401 unauthorized_body)" for r
      using True assms by (auto simp: dispatch_def)
    then show ?thesis by simp
  next
    case False
    then have n: "p \<noteq> ''/compute/v1/capabilities''" "p \<noteq> ''/compute/v1/previews''" "p \<noteq> ''/compute/v1/runs''"
      "\<not> starts_with compute_runs_prefix p"
      using c r by auto
    then have "dispatch E (B\<lparr>be_route := r\<rparr>) request meth p query body
        = (if meth = ''OPTIONS'' then act_return (json_response 200 ''{}'')
           else platform_dispatch E (B\<lparr>be_route := r\<rparr>) request meth p query body)" for r
      using False assms(3) by (auto simp: dispatch_def)
    then show ?thesis using closed_platform [OF assms(1,2), of B meth p query body] by (cases "meth = ''OPTIONS''") simp_all
  qed
qed

definition request_head :: "string \<Rightarrow> string" where
  "request_head request = take (header_limit request) request"

definition health_probe :: "string \<Rightarrow> bool" where
  "health_probe request \<longleftrightarrow>
    (case request_line (request_head request) of (meth, p, query) \<Rightarrow> meth = ''GET'' \<and> p = ''/compute/v1/health'')"

lemma closed_request:
  assumes "\<not> compute_authorized E request" "\<not> legacy_enabled E" "\<not> health_probe request"
  shows "harmless (\<lambda>r. handle_request E (B\<lparr>be_route := r\<rparr>) request)"
proof -
  obtain head body where hb: "(case find_sub blank_line request of
      None \<Rightarrow> (request, []) | Some h \<Rightarrow> (take h request, drop (h + 4) request)) = (head, body)"
    by (cases "case find_sub blank_line request of
      None \<Rightarrow> (request, []) | Some h \<Rightarrow> (take h request, drop (h + 4) request)")
  then have head: "head = request_head request"
    by (auto simp: request_head_def header_limit_def split: option.splits)
  obtain meth p query where l: "request_line head = (meth, p, query)" by (cases "request_line head")
  then have "\<not> (meth = ''GET'' \<and> p = ''/compute/v1/health'')" using assms(3) head by (simp add: health_probe_def)
  from closed_dispatch [OF assms(1,2) this, of B query body]
  have d: "dispatch E (B\<lparr>be_route := r\<rparr>) request meth p query body s = dispatch E (B\<lparr>be_route := r'\<rparr>) request meth p query body s"
    "snd (dispatch E (B\<lparr>be_route := r\<rparr>) request meth p query body s) = s" for r r' s
    unfolding harmless_def by blast+
  have h: "handle_request E (B\<lparr>be_route := r\<rparr>) request s
      = caught (dispatch E (B\<lparr>be_route := r\<rparr>) request meth p query body s)" for r s
    unfolding handle_request_def Let_def hb prod.case l by (rule refl)
  have c: "snd (caught x) = snd x" for x :: "(failure + string) \<times> 's"
    unfolding caught_def by (auto split: prod.splits sum.splits failure.splits)
  show ?thesis
    unfolding harmless_def h by (intro allI conjI) (use d c in metis)+
qed

lemma closed_stream:
  assumes "\<not> compute_authorized E request" "\<not> legacy_enabled E"
  shows "stream_artifact_response E what fs fs' repo io request = stream_artifact_response E what gs gs' repo' io request"
proof -
  obtain meth p query where l: "request_line (case find_sub crlf request of None \<Rightarrow> request | Some e \<Rightarrow> take e request) = (meth, p, query)"
    by (cases "request_line (case find_sub crlf request of None \<Rightarrow> request | Some e \<Rightarrow> take e request)")
  show ?thesis using assms by (simp add: stream_artifact_response_def Let_def l)
qed

text \<open>
  C4: nothing runs without the credential. On a server whose legacy interface is not enabled, a connection
  whose request is neither authorized nor the health probe runs no route and reads no file: what the client
  receives is the same whatever the routes do and whatever the files are, and the state stays as it was.
\<close>

theorem closed_without_credential:
  assumes "\<not> compute_authorized E (read_request pieces)" "\<not> legacy_enabled E" "\<not> health_probe (read_request pieces)"
  shows "serve_connection E (B\<lparr>be_route := r\<rparr>) fs fs' repo io pieces s
       = serve_connection E (B\<lparr>be_route := r'\<rparr>) gs gs' repo' io pieces s
    \<and> snd (serve_connection E (B\<lparr>be_route := r\<rparr>) fs fs' repo io pieces s) = s"
proof
  let ?q = "read_request pieces"
  have h: "handle_request E (B\<lparr>be_route := r\<rparr>) ?q s = handle_request E (B\<lparr>be_route := r'\<rparr>) ?q s"
    "snd (handle_request E (B\<lparr>be_route := r\<rparr>) ?q s) = s"
    using closed_request [OF assms, of B] unfolding harmless_def by blast+
  have t: "stream_artifact_response E (be_what (B\<lparr>be_route := r\<rparr>)) fs fs' repo io ?q
      = stream_artifact_response E (be_what (B\<lparr>be_route := r'\<rparr>)) gs gs' repo' io ?q"
    using closed_stream [OF assms(1,2)] by simp
  show "serve_connection E (B\<lparr>be_route := r\<rparr>) fs fs' repo io pieces s
       = serve_connection E (B\<lparr>be_route := r'\<rparr>) gs gs' repo' io pieces s"
    unfolding serve_connection_def Let_def t h(1) ..
  show "snd (serve_connection E (B\<lparr>be_route := r\<rparr>) fs fs' repo io pieces s) = s"
    using h(2) by (auto simp: serve_connection_def Let_def split: option.split prod.split)
qed

definition sample_io :: io where "sample_io = \<lparr>io_send = (\<lambda>k. 3), io_read = (\<lambda>k. 2)\<rparr>"

theorem closed_without_credential_witness:
  "\<forall>B s. snd (serve_connection sample_settings B [] [] [] sample_io [''POST /api/map/render HTTP/1.1'' @ blank_line] s) = s"
proof (intro allI)
  fix B :: "'s backend" and s
  let ?q = "''POST /api/map/render HTTP/1.1'' @ blank_line"
  have r: "read_request [?q] = concat [?q]"
  proof (rule reassembled)
    show "find_sub blank_line (concat [?q]) = Some 29" by code_simp
    have "content_length (take 29 (concat [?q])) = 0" by code_simp
    then show "length (concat [?q]) = 29 + 4 + content_length (take 29 (concat [?q]))" by simp
  qed (simp_all add: header_cap_def body_cap_def)
  have "\<not> compute_authorized sample_settings (concat [?q])" "\<not> legacy_enabled sample_settings"
    "\<not> health_probe (concat [?q])"
    by code_simp+
  from closed_without_credential [where E = sample_settings and pieces = "[?q]" and B = B and r = "be_route B", unfolded r, OF this]
  show "snd (serve_connection sample_settings B [] [] [] sample_io [?q] s) = s" by simp
qed

section \<open>Reassembly\<close>

text \<open>
  C26: a request is reassembled. However the network cuts a request into pieces, the server reads it whole,
  provided its header is at most 16 MiB, the message at most 1 GiB, and its Content-Length (as the server
  reads it) is the length of its body.
\<close>

theorem request_reassembled:
  assumes "[] \<notin> set pieces" "find_sub blank_line (concat pieces) = Some h" "h + 4 \<le> header_cap"
    and "length (concat pieces) = h + 4 + content_length (take h (concat pieces))" "length (concat pieces) \<le> body_cap"
  shows "read_request pieces = concat pieces"
  using assms by (rule reassembled)

theorem request_reassembled_witness:
  "read_request [''POST /x HTTP/1.1'' @ crlf @ ''Content-Le'', ''ngth: 2'' @ crlf @ [CHR 0x0D], [CHR 0x0A] @ ''{'', ''}'']
   = ''POST /x HTTP/1.1'' @ crlf @ ''Content-Length: 2'' @ blank_line @ ''{}''"
proof -
  let ?p = "[''POST /x HTTP/1.1'' @ crlf @ ''Content-Le'', ''ngth: 2'' @ crlf @ [CHR 0x0D], [CHR 0x0A] @ ''{'', ''}'']"
  have c: "concat ?p = ''POST /x HTTP/1.1'' @ crlf @ ''Content-Length: 2'' @ blank_line @ ''{}''" by code_simp
  have l: "header_lines (take 35 (concat ?p)) = [''POST /x HTTP/1.1'', ''Content-Length: 2'']" by code_simp
  have v: "strip space_tab (insert (CHR 0x0D) space_tab) '' 2'' = ''2''" by code_simp
  have n: "stoul ''2'' = Some 2" by (simp add: stoul_def char_class_defs starts_with_def uintmax_max_def)
  have "content_length (take 35 (concat ?p)) = 2"
    unfolding content_length_def l by (simp add: length_key_def to_lower_def is_upper_def char_code_def v n)
  moreover have "length (concat ?p) = 35 + 4 + 2" by code_simp
  moreover have "find_sub blank_line (concat ?p) = Some 35" by code_simp
  moreover have "35 + 4 \<le> header_cap" "35 + 4 + 2 \<le> body_cap" by (simp_all add: header_cap_def body_cap_def)
  moreover have "[] \<notin> set ?p" by simp
  ultimately have "read_request ?p = concat ?p" by (intro request_reassembled [of ?p 35]) simp_all
  then show ?thesis unfolding c .
qed

section \<open>Streaming\<close>

lemma send_bytes_prefix: "send_bytes io i data = (ok, sent, j) \<Longrightarrow> prefix sent data \<and> (ok \<longrightarrow> sent = data)"
proof (induction io i data arbitrary: ok sent j rule: send_bytes.induct)
  case (1 io i data)
  show ?case
  proof (cases "data = [] \<or> io_send io i = 0")
    case True
    then show ?thesis using 1(2) by (subst (asm) send_bytes.simps) (auto simp: Let_def split: if_splits)
  next
    case False
    let ?n = "io_send io i"
    obtain ok' out j' where r: "send_bytes io (Suc i) (drop ?n data) = (ok', out, j')"
      by (cases "send_bytes io (Suc i) (drop ?n data)")
    have "ok = ok' \<and> sent = take ?n data @ out"
      using 1(2) False r by (subst (asm) send_bytes.simps) (auto simp: Let_def)
    moreover have "prefix out (drop ?n data)" "ok' \<longrightarrow> out = drop ?n data" using 1(1) [OF _ refl _ r] False by auto
    ultimately show ?thesis by (metis append_take_drop_id same_prefix_prefix)
  qed
qed

lemma send_bytes_all: "\<forall>k. 0 < io_send io k \<Longrightarrow> \<exists>j. send_bytes io i data = (True, data, j)"
proof (induction io i data rule: send_bytes.induct)
  case (1 io i data)
  show ?case
  proof (cases "data = []")
    case True
    then show ?thesis by (subst send_bytes.simps) simp
  next
    case False
    have n: "io_send io i \<noteq> 0" using 1(2) by (metis less_numeral_extra(3))
    from 1(1) [OF False refl n 1(2)] obtain j where "send_bytes io (Suc i) (drop (io_send io i) data) = (True, drop (io_send io i) data, j)"
      by blast
    then show ?thesis using False n by (subst send_bytes.simps) (simp add: Let_def)
  qed
qed

lemma take_split: "got \<le> n \<Longrightarrow> take n xs = take got xs @ take (n - got) (drop got xs)"
  by (metis le_add_diff_inverse take_add)

lemma copy_file_prefix: "prefix (copy_file io i j content remaining) (take remaining content)"
proof (induction io i j content remaining rule: copy_file.induct)
  case (1 io i j content remaining)
  let ?got = "min (io_read io j) (min (min remaining chunk_size) (length content))"
  show ?case
  proof (cases "remaining = 0 \<or> ?got = 0")
    case True
    have "copy_file io i j content remaining = []" if "?got = 0"
      by (subst copy_file.simps) (simp only: Let_def that if_True if_cancel refl)
    moreover have "copy_file io i j content 0 = []" by (subst copy_file.simps) simp
    ultimately show ?thesis using True by auto
  next
    case False
    obtain ok sent i' where r: "send_bytes io i (take ?got content) = (ok, sent, i')"
      by (cases "send_bytes io i (take ?got content)")
    note n = False [unfolded de_Morgan_disj]
    have c: "copy_file io i j content remaining
        = sent @ (if ok then copy_file io i' (Suc j) (drop ?got content) (remaining - ?got) else [])"
      by (subst copy_file.simps) (simp only: Let_def r prod.case if_False not_False_eq_True n)
    have t: "take remaining content = take ?got content @ take (remaining - ?got) (drop ?got content)"
      by (rule take_split) simp
    note p = send_bytes_prefix [OF r]
    show ?thesis
    proof (cases ok)
      case True
      have "prefix (copy_file io i' (Suc j) (drop ?got content) (remaining - ?got)) (take (remaining - ?got) (drop ?got content))"
        using 1 [OF n [THEN conjunct1] refl refl n [THEN conjunct2] r [symmetric] refl True] .
      then show ?thesis unfolding c t using p True by simp
    next
      case False
      then show ?thesis unfolding c t using p by (auto simp: prefix_def)
    qed
  qed
qed

lemma copy_file_all:
  assumes "\<forall>k. 0 < io_send io k" "\<forall>k. 0 < io_read io k" "remaining \<le> length content"
  shows "copy_file io i j content remaining = take remaining content"
  using assms(3)
proof (induction remaining arbitrary: i j content rule: less_induct)
  case (less remaining)
  let ?got = "min (io_read io j) (min (min remaining chunk_size) (length content))"
  show ?case
  proof (cases "remaining = 0")
    case True
    then show ?thesis by (subst copy_file.simps) simp
  next
    case False
    then have g: "0 < ?got" using assms(2) less.prems by (auto simp: chunk_size_def)
    obtain i' where r: "send_bytes io i (take ?got content) = (True, take ?got content, i')"
      using send_bytes_all [OF assms(1)] by blast
    have "copy_file io i' (Suc j) (drop ?got content) (remaining - ?got) = take (remaining - ?got) (drop ?got content)"
      by (rule less.IH) (use g False less.prems in auto)
    then have "copy_file io i j content remaining = take ?got content @ take (remaining - ?got) (drop ?got content)"
      using False g r by (subst copy_file.simps) (simp add: Let_def)
    also have "\<dots> = take remaining content" by (rule take_split [symmetric]) simp
    finally show ?thesis .
  qed
qed

text \<open>The responses without a file: a refusal, an error, or an unsatisfiable range.\<close>

definition refusal :: "string \<Rightarrow> bool" where
  "refusal response \<longleftrightarrow>
    (\<exists>st body. st \<in> {401, 404} \<and> response = json_response st body) \<or> (\<exists>size. response = unsatisfiable size)"

definition full_response :: "artifact_file \<Rightarrow> bool \<Rightarrow> string \<Rightarrow> file_range \<Rightarrow> string" where
  "full_response f download content r =
    (let len = (if content = [] then 0 else range_end r - range_start r + 1)
     in artifact_head f download r (length content) len @ take len (drop (range_start r) content))"

lemma send_all_prefix: "prefix (send_all io i data) data"
  unfolding send_all_def by (cases "send_bytes io i data") (auto dest: send_bytes_prefix)

lemma send_all_all: "\<forall>k. 0 < io_send io k \<Longrightarrow> send_all io i data = data"
  unfolding send_all_def using send_bytes_all [of io i data] by auto

lemma sent_artifact:
  assumes "send_artifact io download f content r = Inr out" "valid r" "content \<noteq> [] \<Longrightarrow> range_start r \<le> range_end r \<and> range_end r < length content"
  shows "prefix out (full_response f download content r)
    \<and> ((\<forall>k. 0 < io_send io k \<and> 0 < io_read io k) \<longrightarrow> out = full_response f download content r)"
proof -
  let ?len = "if content = [] then 0 else range_end r - range_start r + 1"
  let ?head = "artifact_head f download r (length content) ?len"
  obtain ok sent i where h: "send_bytes io 0 ?head = (ok, sent, i)" by (cases "send_bytes io 0 ?head")
  note p = send_bytes_prefix [OF h]
  have out: "out = sent @ (if ok \<and> 0 < ?len then copy_file io i 0 (drop (range_start r) content) ?len else [])"
    using assms(1,2) h by (auto simp: send_artifact_def Let_def split: if_splits)
  have cp: "prefix (copy_file io i 0 (drop (range_start r) content) ?len) (take ?len (drop (range_start r) content))"
    by (rule copy_file_prefix)
  have full: "full_response f download content r = ?head @ take ?len (drop (range_start r) content)"
    by (simp add: full_response_def Let_def)
  have "prefix out (full_response f download content r)"
  proof (cases ok)
    case True
    then show ?thesis unfolding out full using p cp by (auto simp: prefix_def)
  next
    case False
    then show ?thesis unfolding out full using p by (auto simp: prefix_def)
  qed
  moreover have "out = full_response f download content r" if io: "\<forall>k. 0 < io_send io k \<and> 0 < io_read io k"
  proof -
    have "ok" using send_bytes_all [of io 0 ?head] io h by auto
    moreover have "copy_file io i 0 (drop (range_start r) content) ?len = take ?len (drop (range_start r) content)"
      if "content \<noteq> []"
      by (rule copy_file_all) (use io assms(3) that in auto)
    ultimately show ?thesis unfolding out full using p by auto
  qed
  ultimately show ?thesis by blast
qed

lemma open_nofollow_regular:
  "open_nofollow fs p = Some (q, Regular content) \<Longrightarrow> entry_at fs q = Some (Regular content)"
  by (auto simp: open_nofollow_def split: if_splits option.splits entry.splits)

lemma open_artifactD:
  assumes "open_artifact fs fs' repo request query = Inr (f, content, r)"
  shows "artifact_file_route fs repo query = Inr f
    \<and> (\<exists>q. entry_at fs' q = Some (Regular content) \<and> prefix (af_run_dir f) q) \<and> (content \<noteq> [] \<longrightarrow> inside (length content) r)"
proof -
  obtain f' where f': "artifact_file_route fs repo query = Inr f'"
    using assms by (cases "artifact_file_route fs repo query") (simp_all add: open_artifact_def)
  obtain q e where o: "open_nofollow fs' (af_path f') = Some (q, e)"
    using assms f' by (cases "open_nofollow fs' (af_path f')") (auto simp: open_artifact_def)
  have "\<exists>c. e = Regular c" using assms f' o by (cases e) (simp_all add: open_artifact_def)
  then obtain c where "e = Regular c" ..
  with assms f' o have f: "artifact_file_route fs repo query = Inr f"
    and q: "open_nofollow fs' (af_path f) = Some (q, Regular content)" "is_server_path_within (af_run_dir f) q"
    and r: "r = parse_file_range (request_header_value request ''Range'') (length content)
              (request_header_value request ''If-Range'' \<noteq> [])"
    by (auto simp: open_artifact_def split: if_splits)
  have "prefix (af_run_dir f) q"
    using q(2) unfolding is_server_path_within_def by (metis take_is_prefix)
  then show ?thesis using f r open_nofollow_regular [OF q(1)] inside_parse by auto
qed

lemma artifact_file_routeD:
  assumes "artifact_file_route fs repo query = Inr f"
  shows "\<exists>run. resolve_run_dir fs repo run = Inr (af_run_dir f)"
  using assms
  by (auto simp: artifact_file_route_def artifact_path_from_id_def resolve_run_file_def res_bind_Inr_iff
      split: option.splits if_splits)

lemma answer_exists: "\<not> a \<Longrightarrow> \<exists>out. (if a then None else if b then Some x else if c then Some y else Some z) = Some out"
  by simp

lemma answer_cases:
  "(if a then None else if b then Some x else if c then Some y else Some z) = Some out \<Longrightarrow> out = x \<or> out = y \<or> out = z"
  by (auto split: if_splits)

text \<open>
  C8: what a client receives of an artifact. The bytes sent for an artifact request are a beginning of a
  refusal, or of a header followed by exactly the announced slice of a regular file; the slice lies inside
  the file, and when it was opened the file lay in the directory to which a run id resolves, whatever other
  processes did to the file system after the request was validated. If the connection stays up and the file
  stays readable, the client receives all of it, however the system cuts the reads and writes.
\<close>

theorem artifact_streamed:
  assumes "stream_artifact_response E what fs fs' repo io request = Some out"
  shows "\<exists>full. (prefix out full \<and> ((\<forall>k. 0 < io_send io k \<and> 0 < io_read io k) \<longrightarrow> out = full))
    \<and> (refusal full
       \<or> (\<exists>f download content r q run. full = full_response f download content r
            \<and> resolve_run_dir fs repo run = Inr (af_run_dir f)
            \<and> entry_at fs' q = Some (Regular content) \<and> prefix (af_run_dir f) q
            \<and> (content = [] \<or> range_start r \<le> range_end r \<and> range_end r < length content)))"
    (is "\<exists>full. ?received full \<and> (refusal full \<or> ?slice full)")
proof -
  obtain meth p query where l: "request_line (case find_sub crlf request of None \<Rightarrow> request | Some e \<Rightarrow> take e request) = (meth, p, query)"
    by (cases "request_line (case find_sub crlf request of None \<Rightarrow> request | Some e \<Rightarrow> take e request)")
  let ?download = "p = ''/api/artifacts/download''"
  have refused: ?thesis if "out = send_all io 0 full" "refusal full" for full
    unfolding that(1) using send_all_prefix [of io 0 full] send_all_all [of io 0 full] that(2)
    by (intro exI [of _ full]) simp
  have r1: "refusal (json_response 401 b)" "refusal (json_response 404 b)" "refusal (unsatisfiable n)" for b n
    unfolding refusal_def by blast+
  let ?answer = "res_bind (open_artifact fs fs' repo request query) (\<lambda>(f, bytes, r). send_artifact io ?download f bytes r)"
  have "out = send_all io 0 (json_response 401 unauthorized_body)
      \<or> out = send_all io 0 (json_response 404 ''{\"error\":\"legacy API disabled\"}'')
      \<or> out = (case ?answer of Inr out \<Rightarrow> out | Inl e \<Rightarrow> send_all io 0 (json_response 404 (json_error_body (exn_text what e))))"
    using assms unfolding stream_artifact_response_def Let_def l prod.case by (rule answer_cases)
  then consider b where "out = send_all io 0 (json_response 401 b)" | b where "out = send_all io 0 (json_response 404 b)"
    | f content r where "open_artifact fs fs' repo request query = Inr (f, content, r)"
        "send_artifact io ?download f content r = Inr out"
  proof (elim disjE)
    assume a: "out = (case ?answer of Inr out \<Rightarrow> out | Inl e \<Rightarrow> send_all io 0 (json_response 404 (json_error_body (exn_text what e))))"
    show thesis
    proof (cases ?answer)
      case (Inl e)
      with a that(2) show thesis by simp
    next
      case (Inr out')
      then obtain x where "open_artifact fs fs' repo request query = Inr x"
        "(case x of (f, bytes, r) \<Rightarrow> send_artifact io ?download f bytes r) = Inr out'"
        unfolding res_bind_Inr_iff by blast
      with a Inr that(3) show thesis by (cases x) simp
    qed
  next
    assume "out = send_all io 0 (json_response 401 unauthorized_body)"
    then show thesis by (rule that(1))
  next
    assume "out = send_all io 0 (json_response 404 ''{\"error\":\"legacy API disabled\"}'')"
    then show thesis by (rule that(2))
  qed
  then show ?thesis
  proof cases
    case (1 b)
    then show ?thesis by (rule refused) (rule r1)
  next
    case (2 b)
    then show ?thesis by (rule refused) (rule r1)
  next
    case (3 f content r)
    note o = open_artifactD [OF 3(1)]
    show ?thesis
    proof (cases "valid r")
      case False
      then have "out = send_all io 0 (unsatisfiable (length content))"
        using 3(2) by (simp add: send_artifact_def Let_def)
      then show ?thesis by (rule refused) (rule r1)
    next
      case True
      then have i: "content \<noteq> [] \<longrightarrow> range_start r \<le> range_end r \<and> range_end r < length content"
        using o by (simp add: inside_def)
      have g: "?received (full_response f ?download content r)"
        by (rule sent_artifact [OF 3(2) True]) (use i in simp)
      obtain run where run: "resolve_run_dir fs repo run = Inr (af_run_dir f)"
        using artifact_file_routeD [OF o [THEN conjunct1]] by blast
      obtain q where q: "entry_at fs' q = Some (Regular content)" "prefix (af_run_dir f) q" using o by blast
      have "?slice (full_response f ?download content r)"
        by (intro exI conjI) (rule refl, rule run, rule q(1), rule q(2), use i in blast)
      with g show ?thesis by (intro exI [of _ "full_response f ?download content r"]) simp
    qed
  qed
qed

definition sample_get :: string where
  "sample_get = ''GET /compute/v1/artifacts?artifactId=x:a.png HTTP/1.1'' @ crlf @ ''Authorization: Bearer k'' @ blank_line"

theorem artifact_streamed_witness:
  "\<exists>out. stream_artifact_response sample_settings (\<lambda>e. []) sample_files sample_files [''r''] sample_io sample_get = Some out
     \<and> (refusal out \<or> (\<exists>f download content r. out = full_response f download content r))"
proof -
  have l: "request_line (case find_sub crlf sample_get of None \<Rightarrow> sample_get | Some e \<Rightarrow> take e sample_get)
      = (''GET'', ''/compute/v1/artifacts'', ''artifactId=x:a.png'')" by code_simp
  have "\<exists>out. stream_artifact_response sample_settings (\<lambda>e. []) sample_files sample_files [''r''] sample_io sample_get = Some out"
    unfolding stream_artifact_response_def Let_def l prod.case by (rule answer_exists) simp
  then obtain out where
    o: "stream_artifact_response sample_settings (\<lambda>e. []) sample_files sample_files [''r''] sample_io sample_get = Some out" ..
  obtain full where
    f: "(prefix out full \<and> ((\<forall>k. 0 < io_send sample_io k \<and> 0 < io_read sample_io k) \<longrightarrow> out = full))
      \<and> (refusal full \<or> (\<exists>f download content r q run. full = full_response f download content r
            \<and> resolve_run_dir sample_files [''r''] run = Inr (af_run_dir f)
            \<and> entry_at sample_files q = Some (Regular content) \<and> prefix (af_run_dir f) q
            \<and> (content = [] \<or> range_start r \<le> range_end r \<and> range_end r < length content)))"
    using artifact_streamed [OF o] by (rule exE)
  have "out = full" using f by (simp add: sample_io_def)
  moreover have "refusal full \<or> (\<exists>f download content r. full = full_response f download content r)"
    by (rule disjE [OF f [THEN conjunct2]], erule disjI1, (erule exE)+, erule conjE, rule disjI2, intro exI, assumption)
  ultimately show ?thesis using o by (intro exI [of _ out]) simp
qed

section \<open>The header that is sent\<close>

definition header_text :: "string list \<Rightarrow> string" where
  "header_text ls = concat (map (\<lambda>l. l @ crlf) ls) @ crlf"

definition cr :: char where "cr = CHR 0x0D"

definition header_line :: "string \<Rightarrow> bool" where
  "header_line l \<longleftrightarrow> l \<noteq> [] \<and> cr \<notin> set l"

lemma skip_char: "c \<noteq> cr \<Longrightarrow> find_sub blank_line (c # s) = map_option Suc (find_sub blank_line s)"
  "c \<noteq> cr \<Longrightarrow> find_sub crlf (c # s) = map_option Suc (find_sub crlf s)"
  by (simp_all add: blank_line_def crlf_def starts_with_def cr_def)

lemma skip_line:
  "cr \<notin> set l \<Longrightarrow> find_sub blank_line (l @ s) = map_option (\<lambda>k. length l + k) (find_sub blank_line s)"
  "cr \<notin> set l \<Longrightarrow> find_sub crlf (l @ s) = map_option (\<lambda>k. length l + k) (find_sub crlf s)"
proof -
  have "find_sub blank_line (l @ s) = map_option (\<lambda>k. length l + k) (find_sub blank_line s)
      \<and> find_sub crlf (l @ s) = map_option (\<lambda>k. length l + k) (find_sub crlf s)" if "cr \<notin> set l"
    using that
  proof (induction l)
    case Nil
    then show ?case by (simp add: option.map_ident)
  next
    case (Cons c l)
    then have c: "c \<noteq> cr" "cr \<notin> set l" by auto
    show ?case using Cons.IH [OF c(2)]
      by (simp only: append_Cons skip_char [OF c(1)] option.map_comp comp_def) simp
  qed
  then show "cr \<notin> set l \<Longrightarrow> find_sub blank_line (l @ s) = map_option (\<lambda>k. length l + k) (find_sub blank_line s)"
    "cr \<notin> set l \<Longrightarrow> find_sub crlf (l @ s) = map_option (\<lambda>k. length l + k) (find_sub crlf s)"
    by blast+
qed

lemma skip_end:
  assumes "c \<noteq> cr"
  shows "find_sub blank_line (crlf @ c # s) = map_option (\<lambda>k. 2 + k) (find_sub blank_line (c # s))"
proof -
  have "\<not> starts_with blank_line (crlf @ c # s)" "\<not> starts_with blank_line (CHR 0x0A # c # s)"
    using assms by (simp_all add: blank_line_def crlf_def starts_with_def cr_def)
  then show ?thesis by (simp add: crlf_def option.map_comp comp_def)
qed

lemma find_crlf: "find_sub crlf (crlf @ s) = Some 0"
  by (simp add: crlf_def starts_with_def)

lemma header_lines_crlf:
  assumes "header_line l"
  shows "header_lines (l @ crlf @ s) = l # header_lines s" "header_lines l = [l]"
proof -
  have l: "cr \<notin> set l" "l \<noteq> []" using assms by (auto simp: header_line_def)
  have f: "find_sub crlf (l @ crlf @ s) = Some (length l)" "find_sub crlf (l @ []) = None"
    unfolding skip_line(2) [OF l(1)] find_crlf by (simp_all add: crlf_def)
  show "header_lines (l @ crlf @ s) = l # header_lines s"
    using l f(1) by (subst header_lines.simps) (simp add: crlf_def)
  show "header_lines l = [l]"
    using l f(2) by (subst header_lines.simps) simp
qed

lemma find_header_end:
  assumes "ls \<noteq> []" "list_all header_line ls"
  shows "\<exists>h. find_sub blank_line (header_text ls @ body) = Some h \<and> h + 4 = length (header_text ls)
    \<and> header_lines (take h (header_text ls)) = ls"
  using assms
proof (induction ls rule: list_nonempty_induct)
  case (single l)
  have l: "cr \<notin> set l" using single by (simp add: header_line_def)
  have "find_sub blank_line (l @ blank_line @ body) = Some (length l)"
    unfolding skip_line(1) [OF l] by (simp add: blank_line_def crlf_def starts_with_def)
  then show ?case using single header_lines_crlf(2) [of l] by (simp add: header_text_def blank_line_def crlf_def)
next
  case (cons l ls)
  then obtain h where h: "find_sub blank_line (header_text ls @ body) = Some h" "h + 4 = length (header_text ls)"
    "header_lines (take h (header_text ls)) = ls" by auto
  obtain c s where c: "header_text ls @ body = c # s" "c \<noteq> cr"
    using cons(1) cons(3) by (cases ls; cases "hd ls") (auto simp: header_text_def header_line_def)
  have t: "header_text (l # ls) = l @ crlf @ header_text ls" by (simp add: header_text_def)
  have "find_sub blank_line (l @ crlf @ c # s) = Some (length l + (2 + h))"
    using cons(3) h(1) by (simp add: header_line_def skip_line skip_end [OF c(2)] c(1))
  moreover have "header_lines (take (length l + (2 + h)) (header_text (l # ls))) = l # ls"
  proof -
    have "take (length l + (2 + h)) (header_text (l # ls)) = l @ crlf @ take h (header_text ls)"
      by (simp add: t crlf_def)
    then show ?thesis using header_lines_crlf(1) [of l] cons(3) h(3) by simp
  qed
  ultimately show ?case using h(2) c(1)
    by (intro exI [of _ "length l + (2 + h)"]) (simp add: t crlf_def)
qed

lemma digit_no_space: "is_digit c \<Longrightarrow> \<not> is_space c \<and> c \<notin> insert cr space_tab"
  by (auto simp: is_digit_def is_space_def space_tab_def char_code_def cr_def)

lemma takeWhile_all: "\<forall>c\<in>set s. p c \<Longrightarrow> takeWhile p s = s"
  by (induction s) auto

lemma dropWhile_none: "\<forall>c\<in>set s. \<not> p c \<Longrightarrow> dropWhile p s = s"
  by (cases s) auto

lemma stoul_digits:
  assumes "n \<le> uintmax_max"
  shows "stoul (strip space_tab (insert (CHR 0x0D) space_tab) (CHR '' '' # nat_digits n)) = Some n"
proof -
  have d: "\<forall>c\<in>set (nat_digits n). is_digit c" using nat_digits_is_digit by blast
  have "strip space_tab (insert (CHR 0x0D) space_tab) (CHR '' '' # nat_digits n) = nat_digits n"
    using d digit_no_space by (simp add: strip_def dropWhile_none cr_def space_tab_def)
  moreover have "\<not> starts_with ''-'' (nat_digits n)" "\<not> starts_with ''+'' (nat_digits n)"
    using d by (cases "nat_digits n"; auto simp: starts_with_def is_digit_def char_code_def)+
  moreover have "dropWhile is_space (nat_digits n) = nat_digits n" using d digit_no_space by (simp add: dropWhile_none)
  moreover have "takeWhile is_digit (nat_digits n) = nat_digits n" using d by (rule takeWhile_all)
  ultimately show ?thesis
    using assms by (simp only: stoul_def Let_def if_False simp_thms dec_value_nat_digits nat_digits_nonempty not_le [symmetric])
qed

definition head_lines :: "artifact_file \<Rightarrow> bool \<Rightarrow> file_range \<Rightarrow> nat \<Rightarrow> nat \<Rightarrow> string list" where
  "head_lines f download r file_size len =
    [''HTTP/1.1 '' @ (if requested r then ''206 Partial Content'' else ''200 OK''), ''Content-Type: '' @ af_type f,
     ''Access-Control-Allow-Origin: *'',
     ''Access-Control-Expose-Headers: Content-Disposition, Content-Length, Content-Range, Accept-Ranges'',
     ''Accept-Ranges: bytes'']
    @ (if requested r then [''Content-Range: bytes '' @ nat_digits (range_start r) @ ''-'' @ nat_digits (range_end r)
          @ ''/'' @ nat_digits file_size] else [])
    @ (if download then [''Content-Disposition: attachment; filename=\"'' @ safe_download_name (af_name f) @ ''\"''] else [])
    @ [''Content-Length: '' @ nat_digits len, ''Connection: close'']"

lemma artifact_head_lines: "artifact_head f download r file_size len = header_text (head_lines f download r file_size len)"
  unfolding artifact_head_def header_text_def head_lines_def blank_line_def by simp

lemma digits_no_cr: "cr \<notin> set (nat_digits n)"
  by (rule non_digit_notin_nat_digits) (simp add: is_digit_def char_code_def cr_def)

lemma safe_name_no_cr: "cr \<notin> set (safe_download_name name)"
  by (auto simp: safe_download_name_def Let_def safe_char_def cr_def is_lower_def is_upper_def is_digit_def char_code_def)

lemma content_type_no_cr: "cr \<notin> set (content_type_from_path p)"
  by (simp add: content_type_from_path_def Let_def cr_def)

lemma head_lines_ok:
  assumes "cr \<notin> set (af_type f)"
  shows "list_all header_line (head_lines f download r file_size len)"
  using assms digits_no_cr safe_name_no_cr by (auto simp: head_lines_def header_line_def cr_def)

lemma head_content_length:
  assumes "len \<le> uintmax_max"
  shows "content_length_line (head_lines f download r file_size len) = len"
  using stoul_digits [OF assms] by (simp add: head_lines_def length_key_def to_lower_def is_upper_def char_code_def)

text \<open>
  C33: the header cannot be broken. Whatever the name of the file, and whatever bytes follow, the first blank
  line of an artifact response is the end of the header the server wrote, and the Content-Length that a reader
  of that header finds is the announced length.
\<close>

theorem artifact_response_framed:
  assumes "artifact_file_route fs repo query = Inr f" "len \<le> uintmax_max"
  shows "\<exists>h. find_sub blank_line (artifact_head f download r file_size len @ body) = Some h
    \<and> h + 4 = length (artifact_head f download r file_size len)
    \<and> content_length (take h (artifact_head f download r file_size len @ body)) = len"
proof -
  have "cr \<notin> set (af_type f)"
    using assms(1) content_type_no_cr
    by (auto simp: artifact_file_route_def res_bind_Inr_iff split: if_splits)
  note ok = head_lines_ok [OF this, of download r file_size len]
  have "head_lines f download r file_size len \<noteq> []" by (simp add: head_lines_def)
  from find_header_end [OF this ok, of body] obtain h where
    h: "find_sub blank_line (header_text (head_lines f download r file_size len) @ body) = Some h"
      "h + 4 = length (header_text (head_lines f download r file_size len))"
      "header_lines (take h (header_text (head_lines f download r file_size len))) = head_lines f download r file_size len"
    by blast
  then have "h \<le> length (header_text (head_lines f download r file_size len))" by linarith
  with h head_content_length [OF assms(2)] show ?thesis
    unfolding artifact_head_lines by (intro exI [of _ h]) (simp add: content_length_def)
qed

theorem artifact_response_framed_witness:
  "\<exists>f h. artifact_file_route sample_files [''r''] ''artifactId=x%3Aa.png'' = Inr f
     \<and> content_length (take h (artifact_head f True (range_init 4) 4 4 @ ''data'')) = 4"
proof -
  have q: "url_decode (get_query_param ''artifactId=x%3Aa.png'' ''artifactId'') = ''x:a.png''" by code_simp
  have "is_regular_file sample_files [''r'', ''fractal_studio'', ''runtime'', ''runs'', ''x'', ''a.png'']"
  proof -
    have w: "wf_files sample_files" by (simp add: wf_files_def sample_files_def plain_name_def)
    note p = resolve_run_file_result [OF sample_served w]
    show ?thesis using status_real [of sample_files] p unfolding is_regular_file_def by (auto simp: status_real)
  qed
  then obtain f where f: "artifact_file_route sample_files [''r''] ''artifactId=x%3Aa.png'' = Inr f"
    using sample_served by (simp add: artifact_file_route_def q artifact_path_from_id_def)
  from artifact_response_framed [OF this, of 4 True "range_init 4" 4 "''data''"] f show ?thesis
    by (auto simp: uintmax_max_def)
qed

section \<open>Identifiers\<close>

lemma lower_hex_ok: "n < 16 \<Longrightarrow> is_hex (lower_hex n)"
  by (auto simp: is_hex_def lower_hex_def is_digit_def char_code_def)

lemma byte_less: "unat (b :: 8 word) < 256"
  using unsigned_less [of b] by simp

lemma hex_pair: "is_hex (lower_hex (unat (b :: 8 word) div 16))" "is_hex (lower_hex (unat b mod 16))"
  using byte_less [of b] by (auto intro: lower_hex_ok)

lemma high_nibble: "unat (w :: 8 word) div 16 = unat (drop_bit 4 w)"
  by (simp add: drop_bit_eq_div unat_div_distrib)

lemma nibble_eqI: "(\<And>n. n \<in> {0, 1, 2, 3, 4, 5, 6, 7} \<Longrightarrow> bit v n = bit (w :: 8 word) n) \<Longrightarrow> v = w"
  by (rule bit_word_eqI) (auto simp: numeral_eq_Suc less_Suc_eq)

lemma nibble_digits: "lower_hex 4 = CHR ''4''" "lower_hex 8 = CHR ''8''" "lower_hex 9 = CHR ''9''"
  "lower_hex 10 = CHR ''a''" "lower_hex 11 = CHR ''b''"
  by code_simp+

lemma version_digit: "lower_hex (unat ((b AND 0x0F) OR 0x40 :: 8 word) div 16) = CHR ''4''"
proof -
  have "drop_bit 4 ((b AND 0x0F) OR 0x40 :: 8 word) = 4"
    by (rule nibble_eqI) (auto simp: bit_drop_bit_eq bit_or_iff bit_and_iff)
  then show ?thesis by (simp only: high_nibble) (simp add: nibble_digits)
qed

lemma variant_digit: "lower_hex (unat ((b AND 0x3F) OR 0x80 :: 8 word) div 16) \<in> {CHR ''8'', CHR ''9'', CHR ''a'', CHR ''b''}"
proof -
  have "drop_bit 4 ((b AND 0x3F) OR 0x80 :: 8 word)
      = (if bit b 5 then if bit b 4 then 11 else 10 else if bit b 4 then 9 else 8)"
    by (rule nibble_eqI) (auto simp: bit_drop_bit_eq bit_or_iff bit_and_iff)
  then show ?thesis by (simp only: high_nibble) (simp add: nibble_digits)
qed

lemma uuid_bytes_length: "length (uuid_bytes r) = 16"
  by (simp add: uuid_bytes_def Let_def)

lemma uuid_bytes_marked:
  "\<exists>b. uuid_bytes r ! 6 = (b AND 0x0F) OR 0x40" "\<exists>b. uuid_bytes r ! 8 = (b AND 0x3F) OR 0x80"
  by (auto simp: uuid_bytes_def Let_def nth_append)

text \<open>
  Every request identifier the server answers with is a UUID: the client's own when it is one, and otherwise a
  fresh one of version 4, whatever the random words are.
\<close>

lemma request_id_uuid: "is_uuid (platform_request_id candidate r)"
proof (cases "is_uuid candidate")
  case False
  have v: "uuid_char (CHR ''V'') (lower_hex (unat (uuid_bytes r ! 6) div 16))"
    "uuid_char (CHR ''R'') (lower_hex (unat (uuid_bytes r ! 8) div 16))"
    using uuid_bytes_marked(1) [of r] version_digit uuid_bytes_marked(2) [of r] variant_digit
    by (fastforce simp: uuid_char_def)+
  have x: "uuid_char (CHR ''x'') (lower_hex (unat b div 16))" "uuid_char (CHR ''x'') (lower_hex (unat b mod 16))"
    for b :: "8 word"
    using hex_pair by (simp_all add: uuid_char_def)
  have u: "[0..<16] = [0, 1, 2, 3, 4, 5, 6, 7, 8, 9, 10, 11, 12, 13, 14, 15 :: nat]" by (simp add: upt_rec)
  show ?thesis
    using False v x by (simp add: platform_request_id_def u hex_byte_def is_uuid_def uuid_pattern_def)
      (simp add: uuid_char_def)
qed (simp add: platform_request_id_def)

end
