(* ===== verification/EscapeGates.thy ===== *)
theory EscapeGates
  imports EscapeTime
begin

text \<open>
  Correctness of the fixed-point kernels of \<^verbatim>\<open>compute/escape_time.hpp\<close>. The Q3.60 and Q4.59
  kernels test cheap bounds (\<^verbatim>\<open>|x| + |y|\<close>, the components) before the squared magnitude; the first
  part shows that no bound changes a result. The second part compares the kernels with the orbit
  over the integers, without a width: a point that has not escaped makes a step that neither wraps
  nor saturates, so the kernels count the iterations of the exact orbit.
\<close>

section \<open>Escape gates\<close>

text \<open>The constants of a render with bailout radius 2, as \<open>make_fixed_viewport_raw\<close> computes them.\<close>

definition radius2 :: "nat \<Rightarrow> fixed_consts" where
  "radius2 FRAC = \<lparr>k_bailout = fixed_two_raw_const FRAC, k_bailout2 = push_bit (FRAC + 2) 1,
     k_two = fixed_two_raw_const FRAC, k_two_sqrt2_floor = fixed_two_sqrt2_floor_raw_const FRAC\<rparr>"

text \<open>A gate agrees with the direct test when the escape decisions agree on every point.\<close>

definition gate_sound :: "nat \<Rightarrow> fixed_escape_gate \<Rightarrow> fixed_consts \<Rightarrow> bool" where
  "gate_sound FRAC gate k \<longleftrightarrow>
    (\<forall>x y. let (e, l1) = fixed_gate gate k x y; m = fixed_mag2_q_sat_cpu FRAC (raw x) (raw y) in
       (e \<longrightarrow> m > k_bailout2 k) \<and> (gate = L1 \<longrightarrow> \<not> e \<longrightarrow> m > k_bailout2 k \<longrightarrow> l1 > k_two k))"

lemma mag2_add_u64_sat:
  "add_u64_sat (fixed_square_q_sat_raw_cpu F a) (fixed_square_q_sat_raw_cpu F b)
     = fixed_mag2_q_sat_cpu F a b"
  by (simp add: add_u64_sat_def fixed_mag2_q_sat_cpu_def Let_def)

lemma finish_can_gate:
  "can_gate need \<Longrightarrow> finish_fixed_escape need F r i m mn mx = finish_fixed_escape need F r i 0 0 0"
  by (simp add: finish_fixed_escape_def can_gate_def track_min_def track_max_def wants_norm_def)

lemma bounded_can_gate:
  "can_gate need \<Longrightarrow> fixed_finish_bounded need F r i mn mx = fixed_finish_bounded need F r i 0 0"
  by (simp add: fixed_finish_bounded_def can_gate_def)

lemma upd_can_gate [simp]:
  "can_gate need \<Longrightarrow> upd_min need mn m = mn" "can_gate need \<Longrightarrow> upd_max need mx m = mx"
  by (simp_all add: can_gate_def upd_min_def upd_max_def)

lemma escape_test_direct:
  assumes "can_gate need"
  shows "fixed_escape_test F Direct need k nx ny mn mx =
    (let sx = fixed_square_q_sat_raw_cpu F (raw nx); sy = fixed_square_q_sat_raw_cpu F (raw ny);
         m = fixed_mag2_q_sat_cpu F (raw nx) (raw ny)
     in (m > k_bailout2 k, m, sx, sy, mn, mx))"
  using assms by (simp add: fixed_escape_test_def fixed_gate_def Let_def mag2_add_u64_sat)

lemma escape_test_gate:
  assumes "gate_sound F gate k" and "can_gate need"
  shows "fst (fixed_escape_test F gate need k nx ny mn mx)
           = fst (fixed_escape_test F Direct need k nx ny mn mx)"
    and "\<not> fst (fixed_escape_test F Direct need k nx ny mn mx) \<Longrightarrow>
         fixed_escape_test F gate need k nx ny mn mx
           = fixed_escape_test F Direct need k nx ny mn mx"
proof -
  obtain e l1 where g: "fixed_gate gate k nx ny = (e, l1)" by (cases "fixed_gate gate k nx ny")
  have s: "e \<Longrightarrow> fixed_mag2_q_sat_cpu F (raw nx) (raw ny) > k_bailout2 k"
    "gate = L1 \<Longrightarrow> \<not> e \<Longrightarrow> fixed_mag2_q_sat_cpu F (raw nx) (raw ny) > k_bailout2 k \<Longrightarrow> l1 > k_two k"
    using assms(1) [unfolded gate_sound_def, rule_format, of nx ny] g by (auto simp: Let_def)
  let ?sx = "fixed_square_q_sat_raw_cpu F (raw nx)" and ?sy = "fixed_square_q_sat_raw_cpu F (raw ny)"
  let ?m = "fixed_mag2_q_sat_cpu F (raw nx) (raw ny)"
  have t: "fixed_escape_test F gate need k nx ny mn mx =
     (if e then (True, 0, 0, 0, mn, mx)
      else (if gate = L1 then l1 > k_two k \<and> ?m > k_bailout2 k else ?m > k_bailout2 k,
            ?m, ?sx, ?sy, mn, mx))"
    using assms(2) by (simp add: fixed_escape_test_def g Let_def mag2_add_u64_sat)
  have d: "fixed_escape_test F Direct need k nx ny mn mx = (?m > k_bailout2 k, ?m, ?sx, ?sy, mn, mx)"
    by (simp add: escape_test_direct [OF assms(2)] Let_def)
  show "fst (fixed_escape_test F gate need k nx ny mn mx)
           = fst (fixed_escape_test F Direct need k nx ny mn mx)"
    unfolding t d using s by (cases e; cases "gate = L1") auto
  show "fixed_escape_test F gate need k nx ny mn mx
           = fixed_escape_test F Direct need k nx ny mn mx"
    if "\<not> fst (fixed_escape_test F Direct need k nx ny mn mx)"
    using that s unfolding t d by (cases e; cases "gate = L1") auto
qed

lemma fixed_loop_gate:
  assumes "gate_sound F gate k" and "can_gate need"
  shows "fixed_loop n F gate need V k c r i x y x2 y2 mn mx
       = fixed_loop n F Direct need V k c r i x y x2 y2 mn' mx'"
proof (induction n arbitrary: i x y x2 y2 mn mx mn' mx')
  case 0
  then show ?case using bounded_can_gate [OF assms(2)] by (metis fixed_loop.simps(1))
next
  case (Suc n)
  show ?case
  proof (cases "step_cached (fx_ops F) V x y x2 y2 (re c) (im c)")
    case None
    then show ?thesis by simp
  next
    case (Some p)
    obtain nx ny where p: "p = (nx, ny)" by (cases p)
    obtain e m a b mn1 mx1 where t: "fixed_escape_test F gate need k nx ny mn mx = (e, m, a, b, mn1, mx1)"
      by (cases "fixed_escape_test F gate need k nx ny mn mx") auto
    obtain m' a' b' where d: "fixed_escape_test F Direct need k nx ny mn mx = (e, m', a', b', mn, mx)"
      and d': "fixed_escape_test F Direct need k nx ny mn' mx' = (e, m', a', b', mn', mx')"
      using escape_test_gate(1) [OF assms, of nx ny mn mx] t
      by (auto simp: escape_test_direct [OF assms(2)] Let_def)
    show ?thesis
    proof (cases e)
      case True
      with Some p t d' show ?thesis
        using finish_can_gate [OF assms(2), of F r i m mn1 mx1]
          finish_can_gate [OF assms(2), of F r i m' mn' mx'] by simp
    next
      case False
      with escape_test_gate(2) [OF assms, of nx ny mn mx] d t
      have "m = m'" "a = a'" "b = b'" by simp_all
      with Some p t d' False show ?thesis by (simp add: Suc.IH [of _ _ _ _ _ mn1 mx1 mn' mx'])
    qed
  qed
qed

lemma precheck_direct:
  assumes "can_gate need"
  shows "fixed_precheck F Direct need k x y r =
    (let sx = fixed_square_q_sat_raw_cpu F (raw x); sy = fixed_square_q_sat_raw_cpu F (raw y);
         m = fixed_mag2_q_sat_cpu F (raw x) (raw y)
     in if m > k_bailout2 k then Inl (finish_fixed_escape need F r 0 0 0 0)
        else Inr (sx, sy, word_of_int u64_max, 0))"
  using assms finish_can_gate [OF assms]
  by (simp add: fixed_precheck_def fixed_gate_def Let_def mag2_add_u64_sat)

lemma precheck_gate:
  assumes "gate_sound F gate k" and "can_gate need"
  shows "fixed_precheck F gate need k x y r = fixed_precheck F Direct need k x y r"
proof (cases "gate = Direct")
  case False
  obtain e l1 where g: "fixed_gate gate k x y = (e, l1)" by (cases "fixed_gate gate k x y")
  have s: "e \<Longrightarrow> fixed_mag2_q_sat_cpu F (raw x) (raw y) > k_bailout2 k"
    "gate = L1 \<Longrightarrow> \<not> e \<Longrightarrow> fixed_mag2_q_sat_cpu F (raw x) (raw y) > k_bailout2 k \<Longrightarrow> l1 > k_two k"
    using assms(1) [unfolded gate_sound_def, rule_format, of x y] g by (auto simp: Let_def)
  have nt: "\<not> track_min need" "\<not> track_max need" "\<not> wants_norm need"
    using assms(2) by (auto simp: can_gate_def)
  let ?sx = "fixed_square_q_sat_raw_cpu F (raw x)" and ?sy = "fixed_square_q_sat_raw_cpu F (raw y)"
  let ?m = "fixed_mag2_q_sat_cpu F (raw x) (raw y)"
  have t: "fixed_precheck F gate need k x y r =
     (if e \<or> (if gate = L1 then l1 > k_two k \<and> ?m > k_bailout2 k else ?m > k_bailout2 k)
      then Inl (finish_fixed_escape need F r 0 0 0 0)
      else Inr (?sx, ?sy, word_of_int u64_max, 0))"
    using nt False finish_can_gate [OF assms(2), of F r 0]
    by (cases e) (simp_all add: fixed_precheck_def g Let_def mag2_add_u64_sat)
  show ?thesis
    unfolding t precheck_direct [OF assms(2)] Let_def using s by (cases e; cases "gate = L1") auto
qed simp

lemma iterate_fixed_gate:
  assumes "gate_sound F gate k" and "can_gate need"
  shows "iterate_fixed_int_masked F gate need V z c n k pre
       = iterate_fixed_int_masked F Direct need V z c n k pre"
proof -
  have "fixed_loop m F gate need V k c r i x y x2 y2 mn mx
      = fixed_loop m F Direct need V k c r i x y x2 y2 mn mx" for m r i x y x2 y2 mn mx
    by (rule fixed_loop_gate [OF assms])
  then show ?thesis
    by (simp only: iterate_fixed_int_masked_def precheck_gate [OF assms])
qed

text \<open>The arithmetic behind the gates.\<close>

lemma uint_abs_le: "uint (abs_i64_to_u64 x) \<le> 2 ^ 63"
  using sint_range [of x] by (simp add: uint_abs_i64 int_limits abs_le_iff)

lemma div_sum_lower:
  fixes p q D :: int
  assumes "0 < D"
  shows "p + q - 2 * (D - 1) \<le> (p div D + q div D) * D"
proof -
  have "p mod D < D" "q mod D < D" using assms by simp_all
  moreover have "p div D * D = p - p mod D" "q div D * D = q - q mod D"
    by (simp_all add: minus_mod_eq_div_mult)
  ultimately have "p - (D - 1) \<le> p div D * D" "q - (D - 1) \<le> q div D * D" by linarith+
  then show ?thesis by (simp add: algebra_simps)
qed

lemma component_escapes:
  fixes a :: int
  assumes "2 ^ (F + 1) < a"
  shows "2 ^ (F + 2) < a * a div 2 ^ F"
proof -
  have p: "0 \<le> (2::int) ^ (F + 1)" by simp
  have "(2 ^ (F + 1) + 1) * (2 ^ (F + 1) + 1) \<le> a * a"
    using assms p by (intro mult_mono) linarith+
  moreover have "(2 ^ (F + 2) + 4) * 2 ^ F \<le> (2 ^ (F + 1) + 1) * (2 ^ (F + 1) + (1::int))"
    by (simp add: algebra_simps power_add)
  ultimately have "(2 ^ (F + 2) + 4) * 2 ^ F \<le> a * a" by linarith
  then have "((2 ^ (F + 2) + 4) * 2 ^ F) div 2 ^ F \<le> a * a div 2 ^ F"
    by (rule zdiv_mono1) simp
  then show ?thesis by simp
qed

lemma l1_escapes:
  fixes a b :: int
  assumes "0x2D413CCCFE779921 < a + b"
  shows "2 ^ 62 < a * a div 2 ^ 60 + b * b div 2 ^ 60"
proof (rule ccontr)
  assume "\<not> ?thesis"
  then have "(a * a div 2 ^ 60 + b * b div 2 ^ 60) * 2 ^ 60 \<le> 2 ^ 62 * 2 ^ 60"
    by (intro mult_right_mono) auto
  with div_sum_lower [of "2 ^ 60" "a * a" "b * b"]
  have up: "a * a + b * b \<le> 2 ^ 122 + 2 ^ 61 - 2" by simp
  have "(a + b) * (a + b) \<le> 2 * (a * a + b * b)"
    using zero_le_square [of "a - b"] by (simp add: algebra_simps)
  moreover have "0x2D413CCCFE779922 * 0x2D413CCCFE779922 \<le> (a + b) * (a + b)"
    using assms by (intro mult_mono) auto
  ultimately show False using up by simp
qed

lemma l1_bounded:
  fixes a b :: int
  assumes "0 \<le> a" "0 \<le> b" "a + b \<le> 2 ^ 61"
  shows "a * a div 2 ^ 60 + b * b div 2 ^ 60 \<le> 2 ^ 62"
proof -
  have "(a + b) * (a + b) \<le> 2 ^ 61 * 2 ^ 61" using assms by (intro mult_mono) auto
  moreover have "a * a + b * b \<le> (a + b) * (a + b)" using assms by (simp add: algebra_simps)
  moreover have "a * a div 2 ^ 60 * 2 ^ 60 \<le> a * a" "b * b div 2 ^ 60 * 2 ^ 60 \<le> b * b"
    by (simp_all add: minus_mod_eq_div_mult [symmetric])
  ultimately show ?thesis by simp
qed

lemma uint_mag2_abs:
  "uint (fixed_mag2_q_sat_cpu F a b)
   = min u64_max (\<bar>sint a\<bar> * \<bar>sint a\<bar> div 2 ^ F + \<bar>sint b\<bar> * \<bar>sint b\<bar> div 2 ^ F)"
  by (simp add: uint_mag2 power2_eq_square flip: abs_mult)

lemma uint_add_u64_sat: "uint (add_u64_sat a b) = min u64_max (uint a + uint b)"
  unfolding add_u64_sat_def Let_def by (rule uint_sat_add)

lemma uint_pow2:
  assumes "n < 64"
  shows "uint (push_bit n 1 :: u64) = 2 ^ n"
proof -
  have "(2::int) ^ n \<le> 2 ^ 63" using assms by (intro power_increasing) auto
  then have "uint (word_of_int (2 ^ n) :: u64) = 2 ^ n"
    by (intro uint_word_of_int_id) (simp_all add: u64_max_def)
  then show ?thesis by (simp add: push_bit_eq_mult)
qed

lemma gate_sound_component: 
  assumes F: "F \<le> 61"
  shows "gate_sound F Component (radius2 F)"
  unfolding gate_sound_def
proof (intro allI)
  fix x y
  let ?a = "\<bar>sint (raw x)\<bar>" and ?b = "\<bar>sint (raw y)\<bar>"
  have c: "uint (k_bailout (radius2 F)) = 2 ^ (F + 1)" "uint (k_bailout2 (radius2 F)) = 2 ^ (F + 2)"
    using F uint_pow2 [of "F + 1"] uint_pow2 [of "F + 2"]
    by (simp_all add: radius2_def fixed_two_raw_const_def)
  have big: "(2::int) ^ (F + 2) < u64_max"
    using power_increasing [of "F + 2" 63 "2::int"] F by (simp add: u64_max_def)
  have ce: "2 ^ (F + 1) < ?a \<Longrightarrow> 2 ^ (F + 2) < ?a * ?a div 2 ^ F"
    "2 ^ (F + 1) < ?b \<Longrightarrow> 2 ^ (F + 2) < ?b * ?b div 2 ^ F"
    using component_escapes [of F ?a] component_escapes [of F ?b] by blast+
  have nn: "0 \<le> ?a * ?a div 2 ^ F" "0 \<le> ?b * ?b div 2 ^ F"
    by (simp_all add: pos_imp_zdiv_nonneg_iff)
  have "2 ^ (F + 1) < ?a \<or> 2 ^ (F + 1) < ?b \<Longrightarrow>
      2 ^ (F + 2) < min u64_max (?a * ?a div 2 ^ F + ?b * ?b div 2 ^ F)"
    using ce nn big by linarith
  then show "let (e, l1) = fixed_gate Component (radius2 F) x y;
        m = fixed_mag2_q_sat_cpu F (raw x) (raw y)
      in (e \<longrightarrow> k_bailout2 (radius2 F) < m) \<and>
         (Component = L1 \<longrightarrow> \<not> e \<longrightarrow> k_bailout2 (radius2 F) < m \<longrightarrow> k_two (radius2 F) < l1)"
    by (simp add: fixed_gate_def Let_def word_le_uint_iff c uint_abs_i64 uint_mag2_abs)
qed

lemma gate_sound_l1: "gate_sound 60 L1 (radius2 60)"
proof -
  have c: "uint (k_bailout (radius2 60)) = 2 ^ 61" "uint (k_bailout2 (radius2 60)) = 2 ^ 62"
    "uint (k_two (radius2 60)) = 2 ^ 61" "uint (k_two_sqrt2_floor (radius2 60)) = 0x2D413CCCFE779921"
    by (simp_all add: radius2_def fixed_two_raw_const_def fixed_two_sqrt2_floor_raw_const_def
        two_sqrt2_q60_floor_def)
  have nn: "0 \<le> \<bar>s\<bar> * \<bar>s\<bar> div 2 ^ 60" for s :: int by (simp add: pos_imp_zdiv_nonneg_iff)
  show ?thesis
    unfolding gate_sound_def
  proof (intro allI)
    fix x y
    let ?a = "\<bar>sint (raw x)\<bar>" and ?b = "\<bar>sint (raw y)\<bar>"
    have ce: "2 ^ 61 < ?a \<Longrightarrow> 2 ^ 62 < ?a * ?a div 2 ^ 60" "2 ^ 61 < ?b \<Longrightarrow> 2 ^ 62 < ?b * ?b div 2 ^ 60"
      using component_escapes [of 60 ?a] component_escapes [of 60 ?b] by simp_all
    have l: "0x2D413CCCFE779921 < ?a + ?b \<Longrightarrow> 2 ^ 62 < ?a * ?a div 2 ^ 60 + ?b * ?b div 2 ^ 60"
      by (rule l1_escapes)
    have b: "2 ^ 62 < ?a * ?a div 2 ^ 60 + ?b * ?b div 2 ^ 60 \<Longrightarrow> 2 ^ 61 < ?a + ?b"
      using l1_bounded [of ?a ?b] by linarith
    show "let (e, l1) = fixed_gate L1 (radius2 60) x y; m = fixed_mag2_q_sat_cpu 60 (raw x) (raw y)
      in (e \<longrightarrow> k_bailout2 (radius2 60) < m) \<and>
         (L1 = L1 \<longrightarrow> \<not> e \<longrightarrow> k_bailout2 (radius2 60) < m \<longrightarrow> k_two (radius2 60) < l1)"
      using ce l b nn [of "sint (raw x)"] nn [of "sint (raw y)"]
      by (auto simp: fixed_gate_def Let_def word_le_uint_iff c uint_abs_i64 uint_add_u64_sat
          uint_mag2_abs u64_max_def)
  qed
qed

section \<open>The exact orbit\<close>

text \<open>The step over the integers, without width: each square and product rounded down.\<close>

definition exact_step :: "nat \<Rightarrow> variant \<Rightarrow> int \<Rightarrow> int \<Rightarrow> int \<Rightarrow> int \<Rightarrow> (int \<times> int) option" where
  "exact_step F V x y cx cy =
    (let s = x * x div 2 ^ F - y * y div 2 ^ F; m = (\<lambda>a b. (2 * a * b) div 2 ^ F) in
     case V of
       Mandelbrot \<Rightarrow> Some (s + cx, m x y + cy)
     | Tri \<Rightarrow> Some (s + cx, - m x y + cy)
     | Boat \<Rightarrow> Some (s + cx, m \<bar>x\<bar> \<bar>y\<bar> + cy)
     | Duck \<Rightarrow> Some (s + cx, m x \<bar>y\<bar> + cy)
     | Bell \<Rightarrow> Some (s + cx, m \<bar>x\<bar> (- y) + cy)
     | Fish \<Rightarrow> Some (\<bar>s\<bar> + cx, m x y + cy)
     | Vase \<Rightarrow> Some (\<bar>s\<bar> + cx, - m x y + cy)
     | Bird \<Rightarrow> Some (\<bar>s\<bar> + cx, \<bar>m x y\<bar> + cy)
     | Mask \<Rightarrow> Some (\<bar>s\<bar> + cx, m x \<bar>y\<bar> + cy)
     | Ship \<Rightarrow> Some (\<bar>s\<bar> + cx, - m \<bar>x\<bar> y + cy)
     | _ \<Rightarrow> None)"

text \<open>\<open>reads v k B\<close>: the fixed-point value \<open>v\<close> reads as the integer \<open>k\<close>, of magnitude at most \<open>B\<close>.\<close>

definition reads :: "fx \<Rightarrow> int \<Rightarrow> int \<Rightarrow> bool" where
  "reads v k B \<longleftrightarrow> sint (raw v) = k \<and> \<bar>k\<bar> \<le> B"

lemma reads_self: "\<bar>sint (raw v)\<bar> \<le> B \<Longrightarrow> reads v (sint (raw v)) B"
  by (simp add: reads_def)

lemma reads_add:
  "reads a i A \<Longrightarrow> reads b j B \<Longrightarrow> A + B < 2 ^ 63 \<Longrightarrow> reads (fx_add a b) (i + j) (A + B)"
  by (auto simp: reads_def int_limits intro!: sint_fx_add)

lemma reads_sub:
  assumes "reads a i A" and "reads b j A" and "0 \<le> i" and "0 \<le> j" and "A < 2 ^ 63"
  shows "reads (fx_sub a b) (i - j) A"
proof -
  have "sint (raw (fx_sub a b)) = sint (raw a) - sint (raw b)"
    using assms by (intro sint_fx_sub) (auto simp: reads_def int_limits)
  then show ?thesis using assms by (auto simp: reads_def)
qed

lemma reads_neg: "reads a i A \<Longrightarrow> A < 2 ^ 63 \<Longrightarrow> reads (fx_neg a) (- i) A"
  by (auto simp: reads_def sint_fx_neg int_limits)

lemma reads_abs: "reads a i A \<Longrightarrow> A < 2 ^ 63 \<Longrightarrow> reads (fx_abs a) \<bar>i\<bar> A"
  by (auto simp: reads_def sint_fx_abs int_limits)

lemma reads_mul:
  "reads a i A \<Longrightarrow> reads b j B \<Longrightarrow> \<bar>i * j div 2 ^ F\<bar> \<le> C \<Longrightarrow> C < 2 ^ 63
     \<Longrightarrow> reads (fx_mul F a b) (i * j div 2 ^ F) C"
  by (auto simp: reads_def sint_fx_mul int_limits abs_le_iff)

lemma reads_two:
  assumes F: "F \<le> 60"
  shows "reads (fx_of_int F 2) (2 ^ (F + 1)) (2 ^ 61)"
proof -
  have le: "(2::int) ^ (F + 1) \<le> 2 ^ 61" using F by (intro power_increasing) auto
  have nn: "(0::int) \<le> 2 ^ (F + 1)" by simp
  have lim: "i64_min \<le> 0" "(2::int) ^ 61 \<le> i64_max" by (simp_all add: int_limits)
  have "raw (fx_of_int F 2) = word_of_int (2 ^ (F + 1))"
    by (simp add: fx_of_int_def push_bit_eq_mult)
  moreover have "sint (word_of_int (2 ^ (F + 1)) :: i64) = 2 ^ (F + 1)"
    using le nn lim by (intro sint_word_of_int) linarith+
  ultimately show ?thesis using le nn by (simp only: reads_def) linarith
qed

text \<open>The doubled product \<^verbatim>\<open>two * a * b\<close> of two components of a point that has not escaped.\<close>

lemma double_product_div:
  fixes i j D :: int
  assumes "0 < D" and "i * i + j * j \<le> (4 * D + 2) * D"
  shows "\<bar>2 * i * j div D\<bar> \<le> 4 * D + 2"
proof -
  have "2 * i * j \<le> i * i + j * j" "- (2 * i * j) \<le> i * i + j * j"
    using zero_le_square [of "i - j"] zero_le_square [of "i + j"] by (simp_all add: algebra_simps)
  then have "2 * i * j \<le> (4 * D + 2) * D" "(- (4 * D + 2)) * D \<le> 2 * i * j" using assms(2) by linarith+
  then have "2 * i * j div D \<le> (4 * D + 2) * D div D" "(- (4 * D + 2)) * D div D \<le> 2 * i * j div D"
    using assms(1) by (blast intro: zdiv_mono1)+
  then show ?thesis using assms(1) by simp
qed

lemma reads_two_mul:
  assumes F: "F \<le> 60" and a: "reads a i (2 ^ (F + 1))" and b: "reads b j (2 ^ (F + 1))"
    and ij: "i * i + j * j \<le> (4 * 2 ^ F + 2) * 2 ^ F"
  shows "reads (fx_mul F (fx_mul F (fx_of_int F 2) a) b) ((2 * i * j) div 2 ^ F) (2 ^ 62 + 3)"
proof -
  have p: "(2::int) ^ F \<le> 2 ^ 60" using F by (intro power_increasing) auto
  have "2 ^ (F + 1) * i div 2 ^ F = 2 * i" by simp
  moreover have "\<bar>i\<bar> \<le> 2 * 2 ^ F" using a by (simp add: reads_def)
  then have "\<bar>2 * i\<bar> \<le> 2 * (2 * 2 ^ 60)" using p by linarith
  then have "\<bar>2 * i\<bar> \<le> 2 ^ 62" by simp
  ultimately have one: "reads (fx_mul F (fx_of_int F 2) a) (2 * i) (2 ^ 62)"
    using reads_mul [OF reads_two [OF F] a, of F "2 ^ 62"] by simp
  have "\<bar>2 * i * j div 2 ^ F\<bar> \<le> 4 * 2 ^ F + 2" by (rule double_product_div [OF _ ij]) simp
  then have "\<bar>2 * i * j div 2 ^ F\<bar> \<le> 2 ^ 62 + 3" using p by simp
  then show ?thesis by (rule reads_mul [OF one b]) simp
qed

lemma reads_square:
  assumes "F \<le> 60" and "sint v * sint v div 2 ^ F \<le> 2 ^ (F + 2)"
  shows "reads (Fx (u64_to_i64_sat (fixed_square_q_sat_raw_cpu F v))) (sint v * sint v div 2 ^ F) (2 ^ 62)"
proof -
  let ?k = "sint v * sint v div 2 ^ F"
  have "(2::int) ^ (F + 2) \<le> 2 ^ 62" using assms(1) by (intro power_increasing) auto
  with assms(2) have k: "0 \<le> ?k" "?k \<le> 2 ^ 62" by (simp_all add: pos_imp_zdiv_nonneg_iff)
  then have u: "uint (fixed_square_q_sat_raw_cpu F v) = ?k"
    by (simp add: uint_square power2_eq_square u64_max_def)
  have "\<not> fixed_square_q_sat_raw_cpu F v > word_of_int i64_max"
    using k u uint_word_of_int_id [of i64_max] by (simp add: word_le_uint_iff int_limits)
  moreover have "sint (fixed_square_q_sat_raw_cpu F v) = ?k"
  proof -
    have "fixed_square_q_sat_raw_cpu F v = word_of_int ?k" using u by (metis word_of_int_uint)
    then show ?thesis using k by (simp only:) (rule sint_word_of_int, simp_all add: int_limits)
  qed
  ultimately show ?thesis using k by (simp add: reads_def u64_to_i64_sat_def)
qed

definition in_disc :: "nat \<Rightarrow> fx \<Rightarrow> fx \<Rightarrow> bool" where
  "in_disc F x y \<longleftrightarrow> \<not> fixed_escaped_q F (raw x) (raw y) (push_bit (F + 2) 1)"

lemma in_disc_bounds:
  assumes F: "F \<le> 60" and d: "in_disc F x y"
  defines "a \<equiv> sint (raw x)" and "b \<equiv> sint (raw y)"
  shows "a * a div 2 ^ F + b * b div 2 ^ F \<le> 2 ^ (F + 2)" "\<bar>a\<bar> \<le> 2 ^ (F + 1)" "\<bar>b\<bar> \<le> 2 ^ (F + 1)"
    "a * a + b * b \<le> (4 * 2 ^ F + 2) * 2 ^ F"
proof -
  have big: "(2::int) ^ (F + 2) < u64_max"
    using power_increasing [of "F + 2" 63 "2::int"] F by (simp add: u64_max_def)
  have "uint (fixed_mag2_q_sat_cpu F (raw x) (raw y)) \<le> uint (push_bit (F + 2) 1 :: u64)"
    using d by (simp add: in_disc_def fixed_escaped_q_def fixed_escaped_q_cpu_def word_le_uint_iff not_less)
  then have "min u64_max (a * a div 2 ^ F + b * b div 2 ^ F) \<le> 2 ^ (F + 2)"
    using F by (simp only: uint_mag2_abs uint_pow2 abs_mult_self_eq a_def b_def)
  with big show s: "a * a div 2 ^ F + b * b div 2 ^ F \<le> 2 ^ (F + 2)" by linarith
  have nn: "0 \<le> a * a div 2 ^ F" "0 \<le> b * b div 2 ^ F" by (simp_all add: pos_imp_zdiv_nonneg_iff)
  show "\<bar>a\<bar> \<le> 2 ^ (F + 1)"
    using component_escapes [of F "\<bar>a\<bar>", unfolded abs_mult_self_eq] s nn by linarith
  show "\<bar>b\<bar> \<le> 2 ^ (F + 1)"
    using component_escapes [of F "\<bar>b\<bar>", unfolded abs_mult_self_eq] s nn by linarith
  have D: "0 < (2::int) ^ F" by simp
  have "2 ^ (F + 2) = 4 * (2::int) ^ F" by simp
  with s have "(a * a div 2 ^ F + b * b div 2 ^ F) * 2 ^ F \<le> (4 * 2 ^ F) * 2 ^ F"
    by (intro mult_right_mono) auto
  with div_sum_lower [OF D, of "a * a" "b * b"]
  have "a * a + b * b \<le> 4 * 2 ^ F * 2 ^ F + 2 * (2 ^ F - 1)" by linarith
  then show "a * a + b * b \<le> (4 * 2 ^ F + 2) * 2 ^ F" by (simp add: distrib_right) 
qed

lemma reads_final: "reads a i A \<Longrightarrow> a = Fx (word_of_int i)"
  by (rule fx_eqI) (auto simp: reads_def)

lemma step_exact:
  assumes F: "F \<le> 60" and d: "in_disc F x y"
    and c: "\<bar>sint (raw cx)\<bar> \<le> 2 ^ 61" "\<bar>sint (raw cy)\<bar> \<le> 2 ^ 61"
    and V: "\<not> variant_is_transcendental V" "V \<noteq> Custom"
  obtains nx ny a b where
    "step_cached (fx_ops F) V x y (Fx (u64_to_i64_sat (fixed_square_q_sat_raw_cpu F (raw x))))
       (Fx (u64_to_i64_sat (fixed_square_q_sat_raw_cpu F (raw y)))) cx cy = Some (nx, ny)"
    "exact_step F V (sint (raw x)) (sint (raw y)) (sint (raw cx)) (sint (raw cy)) = Some (a, b)"
    "reads nx a (2 ^ 62 + 3 + 2 ^ 61)" "reads ny b (2 ^ 62 + 3 + 2 ^ 61)"
proof -
  let ?a = "sint (raw x)" and ?b = "sint (raw y)"
  note B = in_disc_bounds [OF F d]
  have nn: "0 \<le> ?a * ?a div 2 ^ F" "0 \<le> ?b * ?b div 2 ^ F" by (simp_all add: pos_imp_zdiv_nonneg_iff)
  have p61: "(2::int) ^ (F + 1) < 2 ^ 63" using F by (intro power_strict_increasing) auto
  have s: "reads (fx_sub (Fx (u64_to_i64_sat (fixed_square_q_sat_raw_cpu F (raw x))))
      (Fx (u64_to_i64_sat (fixed_square_q_sat_raw_cpu F (raw y)))))
      (?a * ?a div 2 ^ F - ?b * ?b div 2 ^ F) (2 ^ 62)"
    using nn B(1) F by (intro reads_sub reads_square) auto
  have rx: "reads x ?a (2 ^ (F + 1))" and ry: "reads y ?b (2 ^ (F + 1))"
    using B by (simp_all add: reads_def)
  note ax = reads_abs [OF rx p61] and ay = reads_abs [OF ry p61] and ny = reads_neg [OF ry p61]
  have m: "reads (fx_mul F (fx_mul F (fx_of_int F 2) u) v) ((2 * i * j) div 2 ^ F) (2 ^ 62 + 3)"
    if "reads u i (2 ^ (F + 1))" "reads v j (2 ^ (F + 1))" "i * i = ?a * ?a" "j * j = ?b * ?b" for u v i j
    using reads_two_mul [OF F that(1,2)] that(3,4) B(4) by simp
  have rc: "reads cx (sint (raw cx)) (2 ^ 61)" "reads cy (sint (raw cy)) (2 ^ 61)"
    using c by (simp_all add: reads_def)
  have weaken: "reads u i (2 ^ 62) \<Longrightarrow> reads u i (2 ^ 62 + 3)" for u i by (simp add: reads_def)
  have add: "reads u i (2 ^ 62 + 3) \<Longrightarrow> reads w j (2 ^ 61) \<Longrightarrow>
      reads (fx_add u w) (i + j) (2 ^ 62 + 3 + 2 ^ 61)" for u w i j
    by (rule reads_add) simp_all
  note M = m [OF rx ry refl refl] m [OF ax ay] m [OF rx ay refl] m [OF ax ny] m [OF ax ry _ refl]
  note A = add [OF _ rc(1)] add [OF _ rc(2)]
  note S = A(1) [OF weaken [OF s]] A(1) [OF weaken [OF reads_abs [OF s]]]
  note I = A(2) [OF M(1)] A(2) [OF M(2)] A(2) [OF M(3)] A(2) [OF M(4)]
     A(2) [OF reads_neg [OF M(1)]] A(2) [OF reads_abs [OF M(1)]] A(2) [OF reads_neg [OF M(5)]]
  note D = step_cached_def fx_ops_def exact_step_def Let_def
  show thesis
  proof (cases V)
    case Mandelbrot show ?thesis
      by (rule that [OF _ _ S(1) I(1)]) (simp_all add: Mandelbrot D)
  next
    case Tri show ?thesis
      by (rule that [OF _ _ S(1) I(5)]) (simp_all add: Tri D)
  next
    case Boat show ?thesis
      by (rule that [OF _ _ S(1) I(2)]) (simp_all add: Boat D)
  next
    case Duck show ?thesis
      by (rule that [OF _ _ S(1) I(3)]) (simp_all add: Duck D)
  next
    case Bell show ?thesis
      by (rule that [OF _ _ S(1) I(4)]) (simp_all add: Bell D)
  next
    case Fish show ?thesis
      by (rule that [OF _ _ S(2) I(1)]) (simp_all add: Fish D)
  next
    case Vase show ?thesis
      by (rule that [OF _ _ S(2) I(5)]) (simp_all add: Vase D)
  next
    case Bird show ?thesis
      by (rule that [OF _ _ S(2) I(6)]) (simp_all add: Bird D)
  next
    case Mask show ?thesis
      by (rule that [OF _ _ S(2) I(3)]) (simp_all add: Mask D)
  next
    case Ship show ?thesis
      by (rule that [OF _ _ S(2) I(7)]) (simp_all add: Ship D)
  qed (use V in \<open>simp_all add: variant_is_transcendental_def\<close>)
qed

fun exact_escape :: "nat \<Rightarrow> nat \<Rightarrow> variant \<Rightarrow> int \<Rightarrow> int \<Rightarrow> int \<Rightarrow> int \<Rightarrow> int \<Rightarrow> int \<times> bool" where
  "exact_escape 0 F V x y cx cy i = (i, False)"
| "exact_escape (Suc n) F V x y cx cy i =
     (case exact_step F V x y cx cy of
        None \<Rightarrow> (i, False)
      | Some (a, b) \<Rightarrow>
          if 2 ^ (F + 2) < a * a div 2 ^ F + b * b div 2 ^ F then (i, True)
          else exact_escape n F V a b cx cy (i + 1))"

lemma in_disc_iff:
  assumes F: "F \<le> 60"
  shows "in_disc F x y \<longleftrightarrow>
    sint (raw x) * sint (raw x) div 2 ^ F + sint (raw y) * sint (raw y) div 2 ^ F \<le> 2 ^ (F + 2)"
proof -
  have big: "(2::int) ^ (F + 2) < u64_max"
    using power_increasing [of "F + 2" 63 "2::int"] F by (simp add: u64_max_def)
  have "in_disc F x y \<longleftrightarrow> uint (fixed_mag2_q_sat_cpu F (raw x) (raw y)) \<le> uint (push_bit (F + 2) 1 :: u64)"
    by (simp add: in_disc_def fixed_escaped_q_def fixed_escaped_q_cpu_def word_le_uint_iff not_less)
  also have "\<dots> \<longleftrightarrow> min u64_max (sint (raw x) * sint (raw x) div 2 ^ F
      + sint (raw y) * sint (raw y) div 2 ^ F) \<le> 2 ^ (F + 2)"
    using F by (simp only: uint_mag2_abs uint_pow2 abs_mult_self_eq)
  finally show ?thesis using big by linarith
qed

lemma direct_test_disc:
  "fixed_mag2_q_sat_cpu F (raw x) (raw y) > k_bailout2 (radius2 F) \<longleftrightarrow> \<not> in_disc F x y"
  by (simp add: in_disc_def radius2_def fixed_escaped_q_def fixed_escaped_q_cpu_def)

lemma finish_escape_iter:
  "iter_result_wants need Field_Iter \<Longrightarrow> r_iter (finish_fixed_escape need F r i m mn mx) = i"
  "iter_result_wants need Field_Escaped \<Longrightarrow> r_escaped (finish_fixed_escape need F r i m mn mx)"
  by (simp_all add: finish_fixed_escape_def Let_def)

lemma finish_bounded_iter:
  "iter_result_wants need Field_Iter \<Longrightarrow> r_iter (fixed_finish_bounded need F r i mn mx) = i"
  "iter_result_wants need Field_Escaped \<Longrightarrow> \<not> r_escaped (fixed_finish_bounded need F r i mn mx)"
  by (simp_all add: fixed_finish_bounded_def Let_def)

definition square_sat :: "nat \<Rightarrow> fx \<Rightarrow> fx" where
  "square_sat F x = Fx (u64_to_i64_sat (fixed_square_q_sat_raw_cpu F (raw x)))"

lemma escape_test_direct_fst:
  "fixed_escape_test F Direct need (radius2 F) nx ny mn mx =
     (\<not> in_disc F nx ny, fixed_mag2_q_sat_cpu F (raw nx) (raw ny),
      fixed_square_q_sat_raw_cpu F (raw nx), fixed_square_q_sat_raw_cpu F (raw ny),
      upd_min need mn (fixed_mag2_q_sat_cpu F (raw nx) (raw ny)),
      upd_max need mx (fixed_mag2_q_sat_cpu F (raw nx) (raw ny)))"
  by (simp add: fixed_escape_test_def fixed_gate_def Let_def mag2_add_u64_sat direct_test_disc
      del: upd_can_gate)

lemma fixed_loop_exact:
  assumes F: "F \<le> 60" and c: "\<bar>sint (raw (re c))\<bar> \<le> 2 ^ 61" "\<bar>sint (raw (im c))\<bar> \<le> 2 ^ 61"
    and V: "\<not> variant_is_transcendental V" "V \<noteq> Custom"
    and need: "iter_result_wants need Field_Iter" "iter_result_wants need Field_Escaped"
  shows "in_disc F x y \<Longrightarrow>
    \<exists>r'. fixed_loop n F Direct need V (radius2 F) c r i x y (square_sat F x) (square_sat F y) mn mx
          = Some r' \<and>
        (r_iter r', r_escaped r')
          = exact_escape n F V (sint (raw x)) (sint (raw y)) (sint (raw (re c))) (sint (raw (im c))) i"
proof (induction n arbitrary: i x y mn mx)
  case 0
  then show ?case using need by (simp add: finish_bounded_iter)
next
  case (Suc n)
  obtain nx ny a b where
    st: "step_cached (fx_ops F) V x y (square_sat F x) (square_sat F y) (re c) (im c) = Some (nx, ny)"
    and ex: "exact_step F V (sint (raw x)) (sint (raw y)) (sint (raw (re c))) (sint (raw (im c))) = Some (a, b)"
    and r: "reads nx a (2 ^ 62 + 3 + 2 ^ 61)" "reads ny b (2 ^ 62 + 3 + 2 ^ 61)"
    unfolding square_sat_def using step_exact [OF F Suc.prems c V] by metis
  have ab: "sint (raw nx) = a" "sint (raw ny) = b" using r by (simp_all add: reads_def)
  have esc: "in_disc F nx ny \<longleftrightarrow> \<not> 2 ^ (F + 2) < a * a div 2 ^ F + b * b div 2 ^ F"
    by (simp only: in_disc_iff [OF F] ab not_less)
  show ?case
  proof (cases "in_disc F nx ny")
    case True
    with Suc.IH [OF True] ab esc show ?thesis
      by (simp add: st ex escape_test_direct_fst flip: square_sat_def)
  next
    case False
    with need esc show ?thesis
      by (simp add: st ex escape_test_direct_fst finish_escape_iter)
  qed
qed


lemma start_squares_exact:
  "start_squares F x y 0 0 = (fixed_square_q_sat_raw_cpu F (raw x), fixed_square_q_sat_raw_cpu F (raw y))"
proof -
  have "fixed_square_q_sat_raw_cpu F 0 = 0"
    by (rule word_uint_eqI) (simp add: uint_square u64_max_def)
  then show ?thesis by (auto simp: start_squares_def)
qed

lemma start_squares_again:
  "start_squares F x y (fixed_square_q_sat_raw_cpu F (raw x)) (fixed_square_q_sat_raw_cpu F (raw y))
     = (fixed_square_q_sat_raw_cpu F (raw x), fixed_square_q_sat_raw_cpu F (raw y))"
  by (simp add: start_squares_def)

section \<open>Properties\<close>





end
