(* ===== verification/FieldKernel.thy ===== *)
theory FieldKernel
  imports EscapeGates
begin

text \<open>
  The raw-field kernels of \<^verbatim>\<open>compute/map_kernel.cpp\<close>: the cancellation-aware copies of the
  iteration kernels that interactive sessions run, and the two conversions of an iteration result
  to a field value.

  A stale view is abandoned through \<^verbatim>\<open>MapParams::should_cancel\<close> and the atomic flag that all
  threads of a render share. A \<open>canceller\<close> gives what the outside answers at the \<open>k\<close>-th check of this
  thread: whether the hook, if there is one, asks to cancel, and whether another thread has raised
  the flag by then. The state of a kernel is its own view of the flag and the number of checks made.
\<close>

section \<open>Cancellation\<close>

record canceller =
  should_cancel :: "(nat \<Rightarrow> bool) option"
  raised_by_others :: "nat \<Rightarrow> bool"

record cancel_state =
  flag :: bool
  checks :: nat

definition map_render_cancel_requested :: "canceller \<Rightarrow> nat \<Rightarrow> bool" where
  "map_render_cancel_requested p k = (case should_cancel p of None \<Rightarrow> False | Some f \<Rightarrow> f k)"

definition mark_cancelled_if_requested :: "canceller \<Rightarrow> cancel_state \<Rightarrow> bool \<times> cancel_state" where
  "mark_cancelled_if_requested p s =
    (let k = checks s; s = s\<lparr>checks := k + 1\<rparr> in
     if flag s \<or> raised_by_others p k then (True, s\<lparr>flag := True\<rparr>)
     else if map_render_cancel_requested p k then (True, s\<lparr>flag := True\<rparr>)
     else (False, s))"

definition throw_if_cancelled :: "canceller \<Rightarrow> cancel_state \<Rightarrow> unit res" where
  "throw_if_cancelled p s =
    (if flag s \<or> raised_by_others p (checks s) \<or> map_render_cancel_requested p (checks s)
     then Inl (RuntimeError ''cancelled'') else Inr ())"

definition kProgressiveFieldCancelStride :: int where
  "kProgressiveFieldCancelStride = 512"

text \<open>The check at the head of every loop: \<open>(leave, state)\<close>.\<close>

definition poll :: "canceller \<Rightarrow> int \<Rightarrow> cancel_state \<Rightarrow> bool \<times> cancel_state" where
  "poll p i s =
    (if i AND (kProgressiveFieldCancelStride - 1) = 0 then mark_cancelled_if_requested p s
     else (False, s))"

text \<open>\<^verbatim>\<open>return false\<close>, \<^verbatim>\<open>return true\<close> with a result, and a rejected template instance.\<close>

datatype 'r outcome = Rejected | Cancelled | Done 'r

section \<open>The cancellable kernels\<close>

fun quad_loop_c ::
    "canceller \<Rightarrow> nat \<Rightarrow> 's scalar_ops \<Rightarrow> mask \<Rightarrow> variant \<Rightarrow> 's cx \<Rightarrow> 's \<Rightarrow> iter_result \<Rightarrow> int
     \<Rightarrow> 's \<Rightarrow> 's \<Rightarrow> 's \<Rightarrow> 's \<Rightarrow> cancel_state \<Rightarrow> iter_result outcome \<times> cancel_state" where
  "quad_loop_c p 0 S need V c bail r i x y x2 y2 s = (Done (finish_bounded need r i), s)"
| "quad_loop_c p (Suc n) S need V c bail r i x y x2 y2 s =
     (let (leave, s) = poll p i s in
      if leave then (Cancelled, s)
      else case step_cached S V x y x2 y2 (re c) (im c) of
        None \<Rightarrow> (Rejected, s)
      | Some (nx, ny) \<Rightarrow>
          let (finite_z, nx2, ny2, n2_s, n2) = quad_norm S nx ny;
              r = track_extrema need r n2
          in if \<not> finite_z \<or> s_less S bail n2_s then (Done (finish_escape need r i n2), s)
             else quad_loop_c p n S need V c bail r (i + 1) nx ny nx2 ny2 s)"

definition iterate_quadratic_field_cancellable ::
    "'s scalar_ops \<Rightarrow> mask \<Rightarrow> variant \<Rightarrow> 's cx \<Rightarrow> 's cx \<Rightarrow> int \<Rightarrow> fl \<Rightarrow> canceller \<Rightarrow> cancel_state
     \<Rightarrow> iter_result outcome \<times> cancel_state" where
  "iterate_quadratic_field_cancellable S need V z c max_iter bailout_sq p s =
    (if max_iter < 0 then (Done (finish_bounded need (make_iter_result need) max_iter), s)
     else quad_loop_c p (nat max_iter) S need V c (s_of_double S bailout_sq) (make_iter_result need) 0
            (re z) (im z) (s_mul S (re z) (re z)) (s_mul S (im z) (im z)) s)"

fun trig_loop_c ::
    "canceller \<Rightarrow> nat \<Rightarrow> 's scalar_ops \<Rightarrow> libm \<Rightarrow> mask \<Rightarrow> variant \<Rightarrow> 's cx \<Rightarrow> fl \<Rightarrow> iter_result \<Rightarrow> int
     \<Rightarrow> 's cx \<Rightarrow> cancel_state \<Rightarrow> iter_result outcome \<times> cancel_state" where
  "trig_loop_c p 0 S L need V c bailout r i z s = (Done (finish_bounded need r i), s)"
| "trig_loop_c p (Suc n) S L need V c bailout r i z s =
     (let (leave, s) = poll p i s in
      if leave then (Cancelled, s)
      else case variant_step S L V z c of
        None \<Rightarrow> (Rejected, s)
      | Some z \<Rightarrow>
          let (finite_z, zre, zim, n2) = double_norm S z;
              r = track_extrema need r n2
          in if \<not> finite_z \<or> component_escaped zre zim bailout
             then (Done (finish_escape need r i n2), s)
             else trig_loop_c p n S L need V c bailout r (i + 1) z s)"

definition iterate_field_cancellable ::
    "'s scalar_ops \<Rightarrow> libm \<Rightarrow> mask \<Rightarrow> variant \<Rightarrow> 's cx \<Rightarrow> 's cx \<Rightarrow> int \<Rightarrow> fl \<Rightarrow> fl \<Rightarrow> canceller
     \<Rightarrow> cancel_state \<Rightarrow> iter_result outcome \<times> cancel_state" where
  "iterate_field_cancellable S L need V z c max_iter bailout bailout_sq p s =
    (if iter_result_wants need Field_Extra then (Rejected, s)
     else if \<not> variant_is_transcendental V then
       iterate_quadratic_field_cancellable S need V z c max_iter bailout_sq p s
     else if max_iter < 0 then (Done (finish_bounded need (make_iter_result need) max_iter), s)
     else trig_loop_c p (nat max_iter) S L need V c bailout (make_iter_result need) 0 z s)"

text \<open>The inner loop over the earlier points polls as well.\<close>

fun pair_min_c ::
    "canceller \<Rightarrow> 's scalar_ops \<Rightarrow> fl \<Rightarrow> fl \<Rightarrow> int \<Rightarrow> 's cx list \<Rightarrow> fl \<Rightarrow> cancel_state
     \<Rightarrow> fl option \<times> cancel_state" where
  "pair_min_c p S zre zim j [] e s = (Some e, s)"
| "pair_min_c p S zre zim j (prior # rest) e s =
     (let (leave, s) = poll p j s in
      if leave then (None, s)
      else let d2 = pair_d2 S zre zim prior
           in pair_min_c p S zre zim (j + 1) rest (if flt d2 e then d2 else e) s)"

fun pairwise_loop_c ::
    "canceller \<Rightarrow> nat \<Rightarrow> 's scalar_ops \<Rightarrow> libm \<Rightarrow> variant \<Rightarrow> 's cx \<Rightarrow> fl \<Rightarrow> fl \<Rightarrow> int \<Rightarrow> 's cx
     \<Rightarrow> 's cx list \<Rightarrow> fl \<Rightarrow> cancel_state \<Rightarrow> ('s cx list \<times> fl) outcome \<times> cancel_state" where
  "pairwise_loop_c p 0 S L V c bailout bailout_sq i z orbit e s = (Done (orbit, e), s)"
| "pairwise_loop_c p (Suc n) S L V c bailout bailout_sq i z orbit e s =
     (let (leave, s) = poll p i s in
      if leave then (Cancelled, s)
      else case variant_step S L V z c of
        None \<Rightarrow> (Rejected, s)
      | Some z \<Rightarrow>
          let (finite_z, zre, zim, n2) = double_norm S z;
              (m, s) = pair_min_c p S zre zim 0 orbit e s
          in case m of
               None \<Rightarrow> (Cancelled, s)
             | Some e \<Rightarrow>
                 let orbit = orbit @ [z]
                 in if point_escaped V finite_z zre zim n2 bailout bailout_sq
                    then (Done (orbit, e), s)
                    else pairwise_loop_c p n S L V c bailout bailout_sq (i + 1) z orbit e s)"

definition iterate_pairwise_field_cancellable ::
    "'s scalar_ops \<Rightarrow> libm \<Rightarrow> variant \<Rightarrow> 's cx \<Rightarrow> 's cx \<Rightarrow> int \<Rightarrow> fl \<Rightarrow> fl \<Rightarrow> int \<Rightarrow> canceller
     \<Rightarrow> cancel_state \<Rightarrow> iter_result outcome \<times> cancel_state" where
  "iterate_pairwise_field_cancellable S L V z c max_iter bailout bailout_sq pairwise_cap p s =
    (if pairwise_cap \<le> 0 then (Done (pairwise_result PosInf), s)
     else case pairwise_loop_c p (nat (min max_iter pairwise_cap)) S L V c bailout bailout_sq 0 z []
                 PosInf s of
            (Rejected, s) \<Rightarrow> (Rejected, s)
          | (Cancelled, s) \<Rightarrow> (Cancelled, s)
          | (Done (orbit, e), s) \<Rightarrow>
              (Done (pairwise_result (if \<not> feq e PosInf then fsqrt b64 e else e)), s))"

fun fixed_loop_c ::
    "canceller \<Rightarrow> nat \<Rightarrow> nat \<Rightarrow> fixed_escape_gate \<Rightarrow> mask \<Rightarrow> variant \<Rightarrow> fixed_consts \<Rightarrow> fx cx
     \<Rightarrow> iter_result \<Rightarrow> int \<Rightarrow> fx \<Rightarrow> fx \<Rightarrow> fx \<Rightarrow> fx \<Rightarrow> u64 \<Rightarrow> u64 \<Rightarrow> cancel_state
     \<Rightarrow> iter_result outcome \<times> cancel_state" where
  "fixed_loop_c p 0 FRAC gate need V k c r i x y x2 y2 mn mx s =
     (Done (fixed_finish_bounded need FRAC r i mn mx), s)"
| "fixed_loop_c p (Suc n) FRAC gate need V k c r i x y x2 y2 mn mx s =
     (let (leave, s) = poll p i s in
      if leave then (Cancelled, s)
      else case step_cached (fx_ops FRAC) V x y x2 y2 (re c) (im c) of
        None \<Rightarrow> (Rejected, s)
      | Some (nx, ny) \<Rightarrow>
          let (escaped, mag2, nx2, ny2, mn, mx) = fixed_escape_test FRAC gate need k nx ny mn mx
          in if escaped then (Done (finish_fixed_escape need FRAC r i mag2 mn mx), s)
             else fixed_loop_c p n FRAC gate need V k c r (i + 1) nx ny
                    (Fx (u64_to_i64_sat nx2)) (Fx (u64_to_i64_sat ny2)) mn mx s)"

definition iterate_fixed_field_cancellable ::
    "nat \<Rightarrow> fixed_escape_gate \<Rightarrow> mask \<Rightarrow> variant \<Rightarrow> fx cx \<Rightarrow> fx cx \<Rightarrow> int \<Rightarrow> fixed_consts \<Rightarrow> bool
     \<Rightarrow> canceller \<Rightarrow> cancel_state \<Rightarrow> iter_result outcome \<times> cancel_state" where
  "iterate_fixed_field_cancellable FRAC gate need V z c max_iter k precheck p s =
    (if iter_result_wants need Field_Extra \<or> variant_is_transcendental V then (Rejected, s)
     else
       let r = make_iter_result need;
           x = re z; y = im z;
           pre = (if precheck then fixed_precheck FRAC gate need k x y r
                  else Inr (0, 0, word_of_int u64_max, 0))
       in case pre of
            Inl r' \<Rightarrow> (Done r', s)
          | Inr (x2_raw, y2_raw, mn, mx) \<Rightarrow>
              let (x2_raw, y2_raw) = start_squares FRAC x y x2_raw y2_raw;
                  x2 = Fx (u64_to_i64_sat x2_raw); y2 = Fx (u64_to_i64_sat y2_raw)
              in if max_iter < 0 then (Done (fixed_finish_bounded need FRAC r max_iter mn mx), s)
                 else fixed_loop_c p (nat max_iter) FRAC gate need V k c r 0 x y x2 y2 mn mx s)"

section \<open>Field values\<close>

definition NeedEscape :: mask where "NeedEscape = Field_Iter OR Field_Escaped"
definition NeedEscapeSmooth :: mask where "NeedEscapeSmooth = NeedEscape OR Field_Norm"
definition NeedMinAbs :: mask where "NeedMinAbs = Field_MinAbs"
definition NeedMaxAbs :: mask where "NeedMaxAbs = Field_MaxAbs"
definition NeedEnvelope :: mask where "NeedEnvelope = Field_MinAbs OR Field_MaxAbs"

definition raw_field_value :: "metric \<Rightarrow> iter_result \<Rightarrow> fl" where
  "raw_field_value M r =
    (case M of
       MinAbs \<Rightarrow> (if fis_finite (r_min_abs r) then r_min_abs r else Fin 0)
     | MaxAbs \<Rightarrow> (if flt (Fin 0) (r_max_abs r) then r_max_abs r else Fin 0)
     | Envelope \<Rightarrow> (if fis_finite (r_min_abs r)
                   then dmul (Fin (1/2)) (dadd (r_min_abs r) (r_max_abs r)) else Fin 0)
     | MinPairwiseDist \<Rightarrow> (if fis_finite (r_extra r) then r_extra r else Fin 0)
     | _ \<Rightarrow> Fin 0)"

definition normalize_field_static :: "metric \<Rightarrow> iter_result \<Rightarrow> fl \<Rightarrow> fl" where
  "normalize_field_static M r bailout =
    (case M of
       MinAbs \<Rightarrow> (if \<not> fis_finite (r_min_abs r) then Fin 1
                 else fmin (Fin 1) (ddiv (r_min_abs r) bailout))
     | MaxAbs \<Rightarrow> (if fle (r_max_abs r) (Fin 0) then Fin 0
                 else fmin (Fin 1) (ddiv (r_max_abs r) bailout))
     | Envelope \<Rightarrow> (if \<not> fis_finite (r_min_abs r) then Fin 1
                   else fmin (Fin 1) (ddiv (dmul (Fin (1/2)) (dadd (r_min_abs r) (r_max_abs r))) bailout))
     | MinPairwiseDist \<Rightarrow> (if \<not> fis_finite (r_extra r) then Fin 1
                          else fmin (Fin 1) (ddiv (r_extra r) bailout))
     | _ \<Rightarrow> Fin 0)"

definition ceil_div :: "int \<Rightarrow> int \<Rightarrow> int" where
  "ceil_div v step = tdiv (v + step - 1) step"

section \<open>A polled run against the plain run\<close>

text \<open>Whether check \<open>k\<close> fires when nothing fired before it.\<close>

definition fires :: "canceller \<Rightarrow> nat \<Rightarrow> bool" where
  "fires p k \<longleftrightarrow> raised_by_others p k \<or> map_render_cancel_requested p k"

definition plain :: "'r option \<Rightarrow> 'r outcome" where
  "plain v = (case v of None \<Rightarrow> Rejected | Some r \<Rightarrow> Done r)"

text \<open>
  The contract of a cancellable kernel against the kernel it copies, from a state whose flag is
  down: it returns what the plain kernel returns and every check it made was silent, or it is
  cancelled, the last check fired and the flag is up for the other threads.
\<close>

definition polled :: "canceller \<Rightarrow> cancel_state \<Rightarrow> 'r outcome \<times> cancel_state \<Rightarrow> 'r option \<Rightarrow> bool" where
  "polled p s res v \<longleftrightarrow>
    (let (out, s') = res in
     checks s \<le> checks s' \<and>
     (if out = Cancelled
      then flag s' \<and> checks s < checks s' \<and> fires p (checks s' - 1)
           \<and> (\<forall>k. checks s \<le> k \<and> k + 1 < checks s' \<longrightarrow> \<not> fires p k)
      else out = plain v \<and> \<not> flag s' \<and> (\<forall>k. checks s \<le> k \<and> k < checks s' \<longrightarrow> \<not> fires p k)))"

lemma plain_simps [simp]: "plain None = Rejected" "plain (Some r) = Done r"
  by (simp_all add: plain_def)

lemma poll_cases:
  assumes "\<not> flag s"
  obtains (quiet) "poll p i s = (False, s)" "\<not> 512 dvd i"
    | (silent) "poll p i s = (False, s\<lparr>checks := checks s + 1\<rparr>)" "\<not> fires p (checks s)" "512 dvd i"
    | (fired) "poll p i s = (True, s\<lparr>checks := checks s + 1, flag := True\<rparr>)" "fires p (checks s)"
proof -
  have "i AND 511 = 0 \<longleftrightarrow> 512 dvd i"
    using take_bit_eq_mod [of 9 i] by (simp add: take_bit_eq_mask mask_numeral dvd_eq_mod_eq_0)
  then have "poll p i s = (if 512 dvd i then
      (if fires p (checks s) then (True, s\<lparr>checks := checks s + 1, flag := True\<rparr>)
       else (False, s\<lparr>checks := checks s + 1\<rparr>)) else (False, s))"
    using assms by (simp add: poll_def kProgressiveFieldCancelStride_def
        mark_cancelled_if_requested_def Let_def fires_def)
  then show ?thesis using quiet silent fired by (metis (full_types))
qed

lemma polled_done: "\<not> flag s \<Longrightarrow> polled p s (plain v, s) v"
  by (auto simp: polled_def plain_def split: option.split)

lemma polled_fired:
  "fires p (checks s) \<Longrightarrow> polled p s (Cancelled, s\<lparr>checks := checks s + 1, flag := True\<rparr>) v"
  by (auto simp: polled_def)

lemma polled_after_silent:
  assumes "\<not> fires p (checks s)" and "polled p (s\<lparr>checks := checks s + 1\<rparr>) res v"
  shows "polled p s res v"
proof -
  have *: "(checks s \<le> k) = (k = checks s \<or> Suc (checks s) \<le> k)" for k by auto
  show ?thesis
    using assms unfolding polled_def by (auto simp: Let_def * split: if_splits)
qed

text \<open>A loop head: whatever holds of the body from a state with the flag down holds of the loop.\<close>

lemma polled_head:
  assumes "\<not> flag s" and body: "\<And>s. \<not> flag s \<Longrightarrow> polled p s (body s) v"
  shows "polled p s (let (leave, s) = poll p i s in if leave then (Cancelled, s) else body s) v"
  using assms(1)
proof (cases rule: poll_cases [of s p i])
  case quiet
  then show ?thesis using assms by simp
next
  case silent
  then show ?thesis using assms by (simp add: polled_after_silent)
next
  case fired
  then show ?thesis using polled_fired by simp
qed

lemma quad_loop_polled:
  "\<not> flag s \<Longrightarrow> polled p s (quad_loop_c p n S need V c bail r i x y x2 y2 s)
     (quad_loop n S need V c bail r i x y x2 y2)"
proof (induction n arbitrary: i r x y x2 y2 s)
  case 0
  then show ?case using polled_done [of s p "Some _"] by simp
next
  case (Suc n)
  show ?case
    unfolding quad_loop_c.simps
  proof (rule polled_head [OF Suc.prems])
    fix s :: cancel_state assume f: "\<not> flag s"
    note d = polled_done [OF f, of p]
    show "polled p s (case step_cached S V x y x2 y2 (re c) (im c) of
        None \<Rightarrow> (Rejected, s)
      | Some (nx, ny) \<Rightarrow>
          let (finite_z, nx2, ny2, n2_s, n2) = quad_norm S nx ny;
              r = track_extrema need r n2
          in if \<not> finite_z \<or> s_less S bail n2_s then (Done (finish_escape need r i n2), s)
             else quad_loop_c p n S need V c bail r (i + 1) nx ny nx2 ny2 s)
      (quad_loop (Suc n) S need V c bail r i x y x2 y2)"
      using Suc.IH [OF f] d [of None] d [of "Some _"]
      by (auto simp: Let_def split: option.split prod.split)
  qed
qed

lemma trig_loop_polled:
  "\<not> flag s \<Longrightarrow> polled p s (trig_loop_c p n S L need V c bailout r i z s)
     (trig_loop n S L need V c bailout r i z)"
proof (induction n arbitrary: i r z s)
  case 0
  then show ?case using polled_done [of s p "Some _"] by simp
next
  case (Suc n)
  show ?case
    unfolding trig_loop_c.simps
    by (rule polled_head [OF Suc.prems])
       (use Suc.IH polled_done [of _ p None] polled_done [of _ p "Some _"] in
        \<open>auto simp: Let_def split: option.split prod.split\<close>)
qed

lemma fixed_loop_polled:
  "\<not> flag s \<Longrightarrow> polled p s (fixed_loop_c p n F gate need V k c r i x y x2 y2 mn mx s)
     (fixed_loop n F gate need V k c r i x y x2 y2 mn mx)"
proof (induction n arbitrary: i x y x2 y2 mn mx s)
  case 0
  then show ?case using polled_done [of s p "Some _"] by simp
next
  case (Suc n)
  show ?case
    unfolding fixed_loop_c.simps
    by (rule polled_head [OF Suc.prems])
       (use Suc.IH polled_done [of _ p None] polled_done [of _ p "Some _"] in
        \<open>auto simp: Let_def split: option.split prod.split\<close>)
qed

lemma pair_min_polled:
  "\<not> flag s \<Longrightarrow> polled p s
     (case pair_min_c p S zre zim j orbit e s of (m, s) \<Rightarrow>
        ((case m of None \<Rightarrow> Cancelled | Some e \<Rightarrow> Done e), s))
     (Some (pair_min S zre zim orbit e))"
proof (induction orbit arbitrary: j e s)
  case Nil
  then show ?case using polled_done [of s p "Some e"] by (simp add: pair_min_def)
next
  case (Cons a orbit)
  let ?e = "if flt (pair_d2 S zre zim a) e then pair_d2 S zre zim a else e"
  let ?res = "\<lambda>j e s. case pair_min_c p S zre zim j orbit e s of (m, s) \<Rightarrow>
        ((case m of None \<Rightarrow> Cancelled | Some e \<Rightarrow> Done e), s)"
  have m: "pair_min S zre zim (a # orbit) e = pair_min S zre zim orbit ?e"
    by (simp add: pair_min_def Let_def)
  have ih: "\<not> flag s \<Longrightarrow> polled p s (?res (j + 1) ?e s) (Some (pair_min S zre zim (a # orbit) e))" for s
    unfolding m by (rule Cons.IH)
  from Cons.prems show ?case
  proof (cases rule: poll_cases [of s p j])
    case quiet
    with ih [OF Cons.prems] show ?thesis by (simp only: pair_min_c.simps Let_def) simp
  next
    case silent
    from silent(2) show ?thesis
    proof (rule polled_after_silent)
      show "polled p (s\<lparr>checks := checks s + 1\<rparr>)
        (case pair_min_c p S zre zim j (a # orbit) e s of (m, s) \<Rightarrow>
          ((case m of None \<Rightarrow> Cancelled | Some e \<Rightarrow> Done e), s))
        (Some (pair_min S zre zim (a # orbit) e))"
        using ih [of "s\<lparr>checks := checks s + 1\<rparr>"] Cons.prems silent(1)
        by (simp only: pair_min_c.simps Let_def) simp
    qed
  next
    case fired
    with polled_fired [OF fired(2)] show ?thesis by (simp only: pair_min_c.simps Let_def) simp
  qed
qed

lemma polled_trans:
  assumes "polled p s (Done e, s1) u" and "polled p s1 res v"
  shows "polled p s res v"
proof -
  have *: "\<not> fires p k" if "checks s \<le> k" "k < checks s1" for k
    using assms(1) that by (simp add: polled_def)
  have le: "checks s \<le> checks s1" using assms(1) by (simp add: polled_def)
  obtain out s' where r: "res = (out, s')" by (cases res)
  have "\<forall>k. checks s1 \<le> k \<and> Q k \<longrightarrow> \<not> fires p k \<Longrightarrow> \<forall>k. checks s \<le> k \<and> Q k \<longrightarrow> \<not> fires p k" for Q
    using * by (meson linorder_not_le)
  then show ?thesis
    using assms(2) le unfolding polled_def r by (auto split: if_splits)
qed

lemma polled_map:
  "polled p s (out, s') v \<Longrightarrow>
   polled p s (case out of Rejected \<Rightarrow> Rejected | Cancelled \<Rightarrow> Cancelled | Done x \<Rightarrow> Done (f x), s')
     (map_option f v)"
  by (cases out; cases v) (auto simp: polled_def)

lemma pairwise_loop_polled:
  "\<not> flag s \<Longrightarrow> polled p s (pairwise_loop_c p n S L V c bailout bailout_sq i z orbit e s)
     (pairwise_loop n S L V c bailout bailout_sq z orbit e)"
proof (induction n arbitrary: i z orbit e s)
  case 0
  then show ?case using polled_done [of s p "Some _"] by simp
next
  case (Suc n)
  show ?case
    unfolding pairwise_loop_c.simps
  proof (rule polled_head [OF Suc.prems])
    fix s :: cancel_state assume f: "\<not> flag s"
    show "polled p s (case variant_step S L V z c of
        None \<Rightarrow> (Rejected, s)
      | Some z \<Rightarrow>
          let (finite_z, zre, zim, n2) = double_norm S z;
              (m, s) = pair_min_c p S zre zim 0 orbit e s
          in case m of
               None \<Rightarrow> (Cancelled, s)
             | Some e \<Rightarrow>
                 let orbit = orbit @ [z]
                 in if point_escaped V finite_z zre zim n2 bailout bailout_sq
                    then (Done (orbit, e), s)
                    else pairwise_loop_c p n S L V c bailout bailout_sq (i + 1) z orbit e s)
      (pairwise_loop (Suc n) S L V c bailout bailout_sq z orbit e)"
    proof (cases "variant_step S L V z c")
      case None
      then show ?thesis using polled_done [OF f, of p None] by simp
    next
      case (Some z')
      obtain fz zre zim n2 where d: "double_norm S z' = (fz, zre, zim, n2)"
        by (cases "double_norm S z'") auto
      obtain m s1 where m: "pair_min_c p S zre zim 0 orbit e s = (m, s1)"
        by (cases "pair_min_c p S zre zim 0 orbit e s")
      note pm = pair_min_polled [OF f, of p S zre zim 0 orbit e, unfolded m prod.case]
      show ?thesis
      proof (cases m)
        case None
        with pm show ?thesis by (simp add: Some d m polled_def)
      next
        case (Some e')
        with pm have e: "e' = pair_min S zre zim orbit e" and f1: "\<not> flag s1" by (auto simp: polled_def)
        have t: "polled p s res v" if "polled p s1 res v" for res :: "('a cx list \<times> fl) outcome \<times> cancel_state" and v
          using polled_trans [OF _ that] pm Some by simp
        show ?thesis
          using t [OF polled_done [OF f1, of p "Some (orbit @ [z'], e')"]]
            t [OF Suc.IH [OF f1, of "i + 1" z' "orbit @ [z']" e']] e
          by (simp add: \<open>variant_step S L V z c = Some z'\<close> d m Some Let_def)
      qed
    qed
  qed
qed

lemma iterate_field_polled:
  assumes "\<not> flag s"
  shows "polled p s (iterate_field_cancellable S L need V z c n bail bail_sq p s)
           (iterate_masked S L need V z c n bail bail_sq)"
  using assms quad_loop_polled trig_loop_polled polled_done [of s p None] polled_done [of s p "Some _"]
  by (auto simp: iterate_field_cancellable_def iterate_masked_def iterate_quadratic_field_cancellable_def
      iterate_quadratic_cached_masked_def)

lemma iterate_fixed_polled:
  assumes "\<not> flag s"
  shows "polled p s (iterate_fixed_field_cancellable F gate need V z c n k pre p s)
           (iterate_fixed_int_masked F gate need V z c n k pre)"
  using assms fixed_loop_polled polled_done [of s p None] polled_done [of s p "Some _"]
  by (auto simp: iterate_fixed_field_cancellable_def iterate_fixed_int_masked_def Let_def
      split: sum.split prod.split)

lemma iterate_pairwise_polled:
  assumes "\<not> flag s"
  shows "polled p s (iterate_pairwise_field_cancellable S L V z c n bail bail_sq cap p s)
           (map_option fst (iterate_pairwise S L V z c n bail bail_sq cap orbit))"
proof (cases "cap \<le> 0")
  case True
  then show ?thesis using assms polled_done [of s p "Some _"]
    by (simp add: iterate_pairwise_field_cancellable_def iterate_pairwise_def)
next
  case False
  let ?fin = "\<lambda>(orbit, e). pairwise_result (if \<not> feq e PosInf then fsqrt b64 e else e)"
  obtain out s' where l: "pairwise_loop_c p (nat (min n cap)) S L V c bail bail_sq 0 z [] PosInf s = (out, s')"
    by (cases "pairwise_loop_c p (nat (min n cap)) S L V c bail bail_sq 0 z [] PosInf s")
  have "map_option fst (iterate_pairwise S L V z c n bail bail_sq cap orbit)
      = map_option ?fin (pairwise_loop (nat (min n cap)) S L V c bail bail_sq z [] PosInf)"
    using False by (simp add: iterate_pairwise_def split: option.split)
  moreover have "iterate_pairwise_field_cancellable S L V z c n bail bail_sq cap p s
      = (case out of Rejected \<Rightarrow> Rejected | Cancelled \<Rightarrow> Cancelled | Done x \<Rightarrow> Done (?fin x), s')"
    using False by (simp add: iterate_pairwise_field_cancellable_def l split: outcome.split)
  ultimately show ?thesis
    using polled_map [of p s out s' _ ?fin] pairwise_loop_polled [OF assms, of p "nat (min n cap)" S L V c bail bail_sq 0 z "[]" PosInf]
    by (simp only: l)
qed

section \<open>Latency of a cancellation\<close>

lemma poll_count:
  assumes "poll p i s = (False, s')" and "\<not> flag s" and "i \<le> 512 * (int (checks s) - K)"
  shows "i + 1 \<le> 512 * (int (checks s') - K) \<and> \<not> flag s'"
  using assms(2)
proof (cases rule: poll_cases [of s p i])
  case quiet
  with assms have "s' = s" "i \<noteq> 512 * (int (checks s) - K)" by auto
  with assms show ?thesis by simp
next
  case silent
  with assms have "s' = s\<lparr>checks := checks s + 1\<rparr>" by simp
  with assms show ?thesis by simp
next
  case fired
  with assms show ?thesis by simp
qed

lemma quad_loop_count:
  assumes "iter_result_wants need Field_Iter"
  shows "quad_loop_c p n S need V c bail r i x y x2 y2 s = (Done r', s') \<Longrightarrow> \<not> flag s
    \<Longrightarrow> i \<le> 512 * (int (checks s) - K) \<Longrightarrow> r_iter r' \<le> 512 * (int (checks s') - K)"
proof (induction n arbitrary: i r x y x2 y2 s)
  case 0
  then show ?case using assms by (auto simp: finish_bounded_def root_extrema_def Let_def split: if_splits)
next
  case (Suc n)
  obtain s1 where po: "poll p i s = (False, s1)"
    using Suc.prems(1) by (cases "poll p i s") (auto simp: Let_def split: if_splits)
  note c = poll_count [OF po Suc.prems(2,3)]
  show ?case
    using Suc.prems(1) Suc.IH [of _ _ _ _ _ _ s1] c assms
    by (auto simp: po Let_def finish_escape_def root_extrema_def split: option.splits prod.splits if_splits)
qed

lemma trig_loop_count:
  assumes "iter_result_wants need Field_Iter"
  shows "trig_loop_c p n S L need V c bailout r i z s = (Done r', s') \<Longrightarrow> \<not> flag s
    \<Longrightarrow> i \<le> 512 * (int (checks s) - K) \<Longrightarrow> r_iter r' \<le> 512 * (int (checks s') - K)"
proof (induction n arbitrary: i r z s)
  case 0
  then show ?case using assms by (auto simp: finish_bounded_def root_extrema_def Let_def split: if_splits)
next
  case (Suc n)
  obtain s1 where po: "poll p i s = (False, s1)"
    using Suc.prems(1) by (cases "poll p i s") (auto simp: Let_def split: if_splits)
  note c = poll_count [OF po Suc.prems(2,3)]
  show ?case
    using Suc.prems(1) Suc.IH [of _ _ _ s1] c assms
    by (auto simp: po Let_def finish_escape_def root_extrema_def split: option.splits prod.splits if_splits)
qed

lemma fixed_loop_count:
  assumes "iter_result_wants need Field_Iter"
  shows "fixed_loop_c p n F gate need V k c r i x y x2 y2 mn mx s = (Done r', s') \<Longrightarrow> \<not> flag s
    \<Longrightarrow> i \<le> 512 * (int (checks s) - K) \<Longrightarrow> r_iter r' \<le> 512 * (int (checks s') - K)"
proof (induction n arbitrary: i x y x2 y2 mn mx s)
  case 0
  then show ?case using assms by (auto simp: finish_bounded_iter)
next
  case (Suc n)
  obtain s1 where po: "poll p i s = (False, s1)"
    using Suc.prems(1) by (cases "poll p i s") (auto simp: Let_def split: if_splits)
  note c = poll_count [OF po Suc.prems(2,3)]
  show ?case
    using Suc.prems(1) Suc.IH [of _ _ _ _ _ _ _ s1] c assms
    by (auto simp: po Let_def finish_escape_iter split: option.splits prod.splits if_splits)
qed

text \<open>Checks that a finished run made, read off its iteration count.\<close>

lemma polled_silent:
  assumes "polled p s (Done r, s') v" and "i \<le> 512 * (int (checks s') - int (checks s))"
    and "512 * int k < i"
  shows "\<not> fires p (checks s + k)"
proof -
  have "512 * int k < 512 * (int (checks s') - int (checks s))" using assms(2,3) by (rule less_le_trans [rotated])
  then have "int k < int (checks s') - int (checks s)" by simp
  then have "checks s + k < checks s'" by linarith
  with assms(1) show ?thesis by (simp add: polled_def)
qed

text \<open>The tracked extrema of a \<^verbatim>\<open>double\<close> kernel are never negative and never a NaN.\<close>

definition extrema_ok :: "iter_result \<Rightarrow> bool" where
  "extrema_ok r \<longleftrightarrow> fnonneg (r_min_abs r) \<and> fnonneg (r_max_abs r)"

lemma extrema_ok_make: "extrema_ok (make_iter_result need)"
  by (simp add: extrema_ok_def make_iter_result_def Let_def fnonneg_simps)

lemma extrema_ok_track: "extrema_ok r \<Longrightarrow> fnonneg n2 \<Longrightarrow> extrema_ok (track_extrema need r n2)"
  by (simp add: extrema_ok_def track_extrema_def Let_def)

lemma extrema_ok_root: "extrema_ok r \<Longrightarrow> extrema_ok (root_extrema need r)"
  by (simp add: extrema_ok_def root_extrema_def Let_def fnonneg_sqrt)

lemma extrema_ok_finish:
  "extrema_ok r \<Longrightarrow> extrema_ok (finish_escape need r i n2)"
  "extrema_ok r \<Longrightarrow> extrema_ok (finish_bounded need r i)"
  unfolding finish_escape_def finish_bounded_def Let_def
  by (intro extrema_ok_root; simp add: extrema_ok_def)+

lemma quad_norm_nonneg: "quad_norm double_ops x y = (fz, x2, y2, n, n2) \<Longrightarrow> fnonneg n2"
  by (auto simp: quad_norm_def double_ops_def Let_def fnonneg_simps fnonneg_add fnonneg_square
      split: if_splits)

lemma double_norm_nonneg: "double_norm double_ops z = (fz, x, y, n2) \<Longrightarrow> fnonneg n2"
  by (auto simp: double_norm_def double_ops_def dadd_def dmul_def Let_def fnonneg_simps fnonneg_add
      fnonneg_square split: if_splits)

lemma quad_loop_extrema:
  "quad_loop n double_ops need V c bail r i x y x2 y2 = Some r' \<Longrightarrow> extrema_ok r \<Longrightarrow> extrema_ok r'"
  by (induction n arbitrary: r i x y x2 y2)
    (auto simp: Let_def extrema_ok_finish extrema_ok_track dest!: quad_norm_nonneg
      split: option.splits prod.splits if_splits)

lemma trig_loop_extrema:
  "trig_loop n double_ops L need V c bail r i z = Some r' \<Longrightarrow> extrema_ok r \<Longrightarrow> extrema_ok r'"
  by (induction n arbitrary: r i z)
    (auto simp: Let_def extrema_ok_finish extrema_ok_track dest!: double_norm_nonneg
      split: option.splits prod.splits if_splits)

lemma iterate_masked_extrema:
  "iterate_masked double_ops L need V z c n bail bail_sq = Some r \<Longrightarrow> extrema_ok r"
  by (auto simp: iterate_masked_def iterate_quadratic_cached_masked_def extrema_ok_finish
      extrema_ok_make dest!: quad_loop_extrema trig_loop_extrema split: if_splits)

lemma fmin_one_unit:
  "fnonneg v \<Longrightarrow> fis_finite (fmin (Fin 1) v) \<and> 0 \<le> fval (fmin (Fin 1) v) \<and> fval (fmin (Fin 1) v) \<le> 1"
  by (cases v) (auto simp: fmin_def fnonneg_def flt_def fval_def fis_finite_def)

section \<open>Properties\<close>

text \<open>
  C30: the cancellable kernels are the plain kernels. From a state with the flag down, each of the
  four cancellation-aware copies either makes only silent checks and returns exactly what the
  kernel it copies returns, or it is cancelled: then the last check it made, and no earlier one,
  fired, and it leaves the shared flag up.
\<close>

theorem cancellable_kernels_agree:
  assumes "\<not> flag s"
  shows "polled p s (iterate_field_cancellable S L need V z c n bail bail_sq p s)
           (iterate_masked S L need V z c n bail bail_sq)
    \<and> polled p s (iterate_fixed_field_cancellable F gate need V zf cf n k pre p s)
           (iterate_fixed_int_masked F gate need V zf cf n k pre)
    \<and> polled p s (iterate_pairwise_field_cancellable S L V z c n bail bail_sq cap p s)
           (map_option fst (iterate_pairwise S L V z c n bail bail_sq cap orbit))"
  by (intro conjI iterate_field_polled iterate_fixed_polled iterate_pairwise_polled assms)

text \<open>A canceller whose hook fires at its second check, and the initial state.\<close>

definition sample_canceller :: canceller where
  "sample_canceller = \<lparr>should_cancel = Some (\<lambda>k. k = 1), raised_by_others = (\<lambda>_. False)\<rparr>"

theorem cancellable_kernels_agree_witness:
  "\<forall>L. polled sample_canceller \<lparr>flag = False, checks = 0\<rparr>
     (iterate_field_cancellable double_ops L NeedEscape Ship (mk_cx (Fin 0) (Fin 0))
        (mk_cx (Fin 1) (Fin 1)) 1000 (Fin 2) (Fin 4) sample_canceller \<lparr>flag = False, checks = 0\<rparr>)
     (iterate_masked double_ops L NeedEscape Ship (mk_cx (Fin 0) (Fin 0))
        (mk_cx (Fin 1) (Fin 1)) 1000 (Fin 2) (Fin 4))"
  by (intro allI, rule cancellable_kernels_agree [THEN conjunct1]) simp

text \<open>One iteration from the origin in \<^verbatim>\<open>double\<close>, under a hook that fires late.\<close>

lemma f_two: "f_of_int b64 2 = Fin 2"
    using rnd_int [of 2 b64] by (simp add: f_of_int_def b64_def)
lemma two_times_0:  "fmul b64 (Fin 2) (Fin 0) = Fin 0" by (simp add: f_op_defs)
lemma zero_times_0: "fmul b64 (Fin 0) (Fin 0) = Fin 0" by (simp add: f_op_defs)
lemma zero_plus_0:     "fadd b64 (Fin 0) (Fin 0) = Fin 0" by (simp add: f_op_defs rnd_def)
lemma zero_minus_0: "fsub b64 (Fin 0) (Fin 0) = Fin 0"
    by (simp add: f_op_defs rnd_def)
lemma sample_step: "step_cached double_ops Mandelbrot (Fin 0) (Fin 0) (Fin 0) (Fin 0) (Fin 0) (Fin 0) = Some (Fin 0, Fin 0)"
  by (simp add: step_cached_def double_ops_def f_two two_times_0 zero_times_0 zero_plus_0 zero_minus_0)
lemma sample_poll: "poll \<lparr>should_cancel = Some (\<lambda>k. 3 < k), raised_by_others = (\<lambda>_. False)\<rparr> 0 \<lparr>flag = False, checks = 0\<rparr>
  = (False, \<lparr>flag = False, checks = 1\<rparr>)"
  by (simp add: poll_def kProgressiveFieldCancelStride_def mark_cancelled_if_requested_def
        map_render_cancel_requested_def)
lemma sample_norm: "quad_norm double_ops (Fin 0) (Fin 0) = (True, Fin 0, Fin 0, Fin 0, Fin 0)"
  by (simp add: quad_norm_def double_ops_def zero_times_0 zero_plus_0 fis_finite_def Let_def)

lemma bounded_sample_run: "\<exists>r s'. iterate_field_cancellable double_ops L Field_Iter Mandelbrot (mk_cx (Fin 0) (Fin 0)) (mk_cx (Fin 0) (Fin 0)) 1 (Fin 2) (Fin 4)
   \<lparr>should_cancel = Some (\<lambda>k. 3 < k), raised_by_others = (\<lambda>_. False)\<rparr> \<lparr>flag = False, checks = 0\<rparr>
      = (Done r, s') \<and> r_iter r = 1" 
proof -
  have o: "s_mul double_ops = fmul b64" "s_of_double double_ops = (\<lambda>x. x)" "s_less double_ops = flt"
    by (simp_all add: double_ops_def)
  have w: "iter_result_wants Field_Iter Field_Iter" "\<not> iter_result_wants Field_Iter Field_Extra"
    by (simp_all add: iter_result_wants_def field_defs)
  have l: "nat 1 = Suc 0" by simp
  show ?thesis
    unfolding iterate_field_cancellable_def iterate_quadratic_field_cancellable_def l quad_loop_c.simps
    by (simp add: w o variant_is_transcendental_def zero_times_0 sample_step sample_poll sample_norm mk_cx_def finish_bounded_def root_extrema_def Let_def)
qed

text \<open>
  C31: a cancellation is noticed within 512 iterations. When a cancellable kernel returns a pixel
  whose iteration count exceeds \<open>512 * k\<close>, the outside was asked at least \<open>k + 1\<close> times and
  check \<open>k\<close> was silent: a pixel never runs a whole stride past a request to cancel.
\<close>

theorem cancellation_latency:
  assumes "\<not> flag s" and "iter_result_wants need Field_Iter"
    and "iterate_field_cancellable S L need V z c n bail bail_sq p s = (Done r, s')
      \<or> iterate_fixed_field_cancellable F gate need V zf cf n kc False p s = (Done r, s')"
    and "512 * int k < r_iter r"
  shows "\<not> fires p (checks s + k)"
proof -
  have start: "0 \<le> 512 * (int (checks s) - int (checks s))" by simp
  show ?thesis
    using assms(3)
  proof
    assume d: "iterate_field_cancellable S L need V z c n bail bail_sq p s = (Done r, s')"
    have "0 \<le> n"
    proof (rule ccontr)
      assume "\<not> 0 \<le> n"
      with d have "r_iter r = n" using assms(2)
        by (auto simp: iterate_field_cancellable_def iterate_quadratic_field_cancellable_def
            finish_bounded_def root_extrema_def Let_def split: if_splits)
      with \<open>\<not> 0 \<le> n\<close> assms(4) show False by simp
    qed
    with d have "r_iter r \<le> 512 * (int (checks s') - int (checks s))"
      using quad_loop_count [OF assms(2) _ assms(1) start] trig_loop_count [OF assms(2) _ assms(1) start]
      by (auto simp: iterate_field_cancellable_def iterate_quadratic_field_cancellable_def split: if_splits)
    with iterate_field_polled [OF assms(1), of p S L need V z c n bail bail_sq] d assms(4)
    show ?thesis by (simp add: polled_silent)
  next
    assume d: "iterate_fixed_field_cancellable F gate need V zf cf n kc False p s = (Done r, s')"
    have "0 \<le> n"
    proof (rule ccontr)
      assume "\<not> 0 \<le> n"
      with d have "r_iter r = n" using assms(2)
        by (auto simp: iterate_fixed_field_cancellable_def Let_def finish_bounded_iter
            split: if_splits prod.splits)
      with \<open>\<not> 0 \<le> n\<close> assms(4) show False by simp
    qed
    with d have "r_iter r \<le> 512 * (int (checks s') - int (checks s))"
      using fixed_loop_count [OF assms(2) _ assms(1) start]
      by (auto simp: iterate_fixed_field_cancellable_def Let_def split: if_splits prod.splits)
    with iterate_fixed_polled [OF assms(1), of p F gate need V zf cf n kc False] d assms(4)
    show ?thesis by (simp add: polled_silent)
  qed
qed

theorem cancellation_latency_witness:
  "\<not> fires \<lparr>should_cancel = Some (\<lambda>k. 3 < k), raised_by_others = (\<lambda>_. False)\<rparr> (0 + 0)"
proof -
  let ?p = "\<lparr>should_cancel = Some (\<lambda>k. 3 < k), raised_by_others = (\<lambda>_. False)\<rparr>"
  let ?s = "\<lparr>flag = False, checks = 0\<rparr>" and ?z = "mk_cx (Fin 0) (Fin 0)"
  obtain r s' where
    "iterate_field_cancellable double_ops undefined Field_Iter Mandelbrot ?z ?z 1 (Fin 2) (Fin 4) ?p ?s
      = (Done r, s')" "r_iter r = 1" using bounded_sample_run by blast
  then show ?thesis
    using cancellation_latency [of ?s Field_Iter double_ops undefined Mandelbrot ?z ?z 1 "Fin 2" "Fin 4" ?p r s']
    by (simp add: iter_result_wants_def field_defs)
qed

text \<open>
  a normalised field value is a number of the unit interval. For every orbit metric, every
  variant and every pixel, the value that the colour map receives from a finished \<^verbatim>\<open>double\<close>
  kernel and a positive bailout radius is finite and lies between 0 and 1: no NaN, no infinity
  reaches it, also when the orbit diverges to infinity.
\<close>

theorem normalized_field_unit:
  assumes "iterate_masked double_ops L need V z c n bail bail_sq = Some r" and "0 < R"
    and "M \<noteq> MinPairwiseDist"
  shows "fis_finite (normalize_field_static M r (Fin R)) \<and>
    0 \<le> fval (normalize_field_static M r (Fin R)) \<and> fval (normalize_field_static M r (Fin R)) \<le> 1"
proof -
  have ok: "fnonneg (r_min_abs r)" "fnonneg (r_max_abs r)"
    using iterate_masked_extrema [OF assms(1)] by (simp_all add: extrema_ok_def)
  have "fnonneg (ddiv (r_min_abs r) (Fin R))" "fnonneg (ddiv (r_max_abs r) (Fin R))"
    "fnonneg (ddiv (dmul (Fin (1/2)) (dadd (r_min_abs r) (r_max_abs r))) (Fin R))"
    using ok assms(2)
    by (simp_all add: ddiv_def dmul_def dadd_def fnonneg_div fnonneg_scale fnonneg_add)
  from this [THEN fmin_one_unit] assms(3) show ?thesis
    by (cases M) (simp_all add: normalize_field_static_def fis_finite_def fval_def)
qed

theorem normalized_field_unit_witness:
  "\<forall>L. \<exists>r. iterate_masked double_ops L NeedEnvelope Mandelbrot (mk_cx (Fin 0) (Fin 0))
      (mk_cx (Fin 0) (Fin 0)) 0 (Fin 2) (Fin 4) = Some r
    \<and> fval (normalize_field_static Envelope r (Fin 2)) \<le> 1"
proof
  fix L
  have "\<exists>r. iterate_masked double_ops L NeedEnvelope Mandelbrot (mk_cx (Fin 0) (Fin 0))
      (mk_cx (Fin 0) (Fin 0)) 0 (Fin 2) (Fin 4) = Some r"
    by (simp add: iterate_masked_def iterate_quadratic_cached_masked_def NeedEnvelope_def
        iter_result_wants_def field_defs variant_is_transcendental_def)
  then show "\<exists>r. iterate_masked double_ops L NeedEnvelope Mandelbrot (mk_cx (Fin 0) (Fin 0))
      (mk_cx (Fin 0) (Fin 0)) 0 (Fin 2) (Fin 4) = Some r
    \<and> fval (normalize_field_static Envelope r (Fin 2)) \<le> 1"
    using normalized_field_unit [of L NeedEnvelope Mandelbrot "mk_cx (Fin 0) (Fin 0)"
        "mk_cx (Fin 0) (Fin 0)" 0 "Fin 2" "Fin 4" _ 2 Envelope] by auto
qed

end
