(* ===== verification/OrbitJson.thy ===== *)
theory OrbitJson
  imports OrbitProgram JsonValue
begin

text \<open>
  Orbit Programs from JSON (\<^verbatim>\<open>compute/orbit_program_json.cpp\<close>): the reader of a nested program with its
  limits of depth and node count. Everything it accepts is built by the constructors of
  \<^verbatim>\<open>OrbitProgram\<close>, and on well-formed descriptions it computes the same program as a direct construction.
\<close>

section \<open>The reader\<close>

definition MAX_JSON_NODES :: nat where "MAX_JSON_NODES = 256"
definition MAX_JSON_DEPTH :: nat where "MAX_JSON_DEPTH = 32"

definition quoted :: "string \<Rightarrow> string" where
  "quoted name = [CHR 0x27] @ name @ [CHR 0x27]"

text \<open>The three shapes of a parameter: a number, \<^verbatim>\<open>[re, im]\<close>, or \<^verbatim>\<open>{re, im}\<close>.\<close>

definition parameter_shape :: "json \<Rightarrow> string \<Rightarrow> (fl \<times> fl \<times> orbit_type) res" where
  "parameter_shape j name =
    (if is_number j then res_bind (get_double j) (\<lambda>x. Inr (x, Fin 0, Real_Type))
     else case (elements j, find_key j ''re'', find_key j ''im'') of
       ([a, b], _, _) \<Rightarrow>
         if is_number a \<and> is_number b
         then res_bind (get_double a) (\<lambda>x. res_bind (get_double b) (\<lambda>y. Inr (x, y, Complex_Type)))
         else Inl (RuntimeError (''Orbit parameter '' @ quoted name @ '' must be a number, [re, im], or {re, im}''))
     | (_, Some a, Some b) \<Rightarrow>
         if is_number a \<and> is_number b
         then res_bind (get_double a) (\<lambda>x. res_bind (get_double b) (\<lambda>y. Inr (x, y, Complex_Type)))
         else Inl (RuntimeError (''Orbit parameter '' @ quoted name @ '' must be a number, [re, im], or {re, im}''))
     | _ \<Rightarrow> Inl (RuntimeError (''Orbit parameter '' @ quoted name @ '' must be a number, [re, im], or {re, im}'')))"

definition parse_parameter_value :: "json \<Rightarrow> string \<Rightarrow> orbit_parameter res" where
  "parse_parameter_value j name =
    res_bind (parameter_shape j name) (\<lambda>(x, y, ty).
      if \<not> fis_finite x \<or> \<not> fis_finite y
      then Inl (RuntimeError (''Orbit parameter '' @ quoted name @ '' must be finite''))
      else Inr \<lparr>par_name = name, par_value = mk_cx x y, par_type = ty\<rparr>)"

fun parse_parameters :: "(string \<times> json) list \<Rightarrow> orbit_parameter list res" where
  "parse_parameters [] = Inr []"
| "parse_parameters ((name, j) # ps) =
    res_bind (parse_parameter_value j name) (\<lambda>q. res_bind (parse_parameters ps) (\<lambda>qs. Inr (q # qs)))"

text \<open>The name is passed on as a C string.\<close>

definition builtin_variant :: "string \<Rightarrow> variant option" where
  "builtin_variant i =
    (if i = [] then None
     else case variant_from_name (takeWhile (\<lambda>c. c \<noteq> CHR 0x00) i) of
       None \<Rightarrow> None
     | Some v \<Rightarrow> if v = Custom then None else Some v)"

definition parse_formula_node :: "(string \<Rightarrow> string) \<Rightarrow> json \<Rightarrow> program res" where
  "parse_formula_node H j =
    (case find_key j ''formula'' of
       None \<Rightarrow> Inl (RuntimeError ''formula node requires a formula object'')
     | Some f \<Rightarrow>
         throw_if (\<not> is_object f) (RuntimeError ''formula node requires a formula object'')
         (res_bind (json_value get_string f ''type'' []) (\<lambda>formula_type.
          if formula_type = ''builtin'' then
            res_bind (json_value get_string f ''id'' []) (\<lambda>i.
              case builtin_variant i of
                None \<Rightarrow> Inl (RuntimeError (''unknown Orbit builtin formula: '' @ i))
              | Some v \<Rightarrow> builtin H v)
          else if formula_type = ''dsl'' then
            res_bind (json_value get_string f ''source'' []) (\<lambda>source.
            res_bind (case find_key f ''parameters'' of
                None \<Rightarrow> Inr []
              | Some ps \<Rightarrow>
                  if \<not> is_object ps then Inl (RuntimeError ''DSL parameters must be an object'')
                  else parse_parameters (items ps))
              (\<lambda>parameters. formula H source parameters))
          else Inl (RuntimeError (''unsupported Orbit formula type: '' @ formula_type)))))"

text \<open>
  The loop over the steps, with the reader of the nested programs, and the node counter passed through.
\<close>

fun parse_steps ::
    "(json \<Rightarrow> nat \<Rightarrow> (program \<times> nat) res) \<Rightarrow> json list \<Rightarrow> nat \<Rightarrow> ((int \<times> program option) list \<times> nat) res" where
  "parse_steps parse_program [] nodes = Inr ([], nodes)"
| "parse_steps parse_program (st # steps) nodes =
    (case find_key st ''program'' of
       None \<Rightarrow> Inl (RuntimeError ''sequence step requires span and program'')
     | Some p \<Rightarrow>
         (case find_key st ''span'' of
            None \<Rightarrow> Inl (RuntimeError ''sequence span must be a positive integer'')
          | Some w \<Rightarrow>
              throw_if (\<not> is_number_integer w) (RuntimeError ''sequence span must be a positive integer'')
              (res_bind (get_int 64 w) (\<lambda>n.
               throw_if (n < 1 \<or> n > 1000000) (RuntimeError ''sequence span must be in 1..1000000'')
               (res_bind (parse_program p nodes) (\<lambda>(q, nodes).
                res_bind (parse_steps parse_program steps nodes) (\<lambda>(rest, nodes).
                Inr ((n, Some q) # rest, nodes))))))))"

text \<open>
  \<^verbatim>\<open>parseNode\<close>. \<open>levels\<close> is what is left of the depth limit, \<^verbatim>\<open>MAX_JSON_DEPTH - depth + 1\<close>; a node below
  the last level is refused.
\<close>

primrec parse_node :: "nat \<Rightarrow> (string \<Rightarrow> string) \<Rightarrow> json \<Rightarrow> nat \<Rightarrow> (program \<times> nat) res" where
  "parse_node 0 H j nodes =
    throw_if (\<not> is_object j) (RuntimeError ''Orbit Program node must be an object'')
    (Inl (RuntimeError ''Orbit Program nesting exceeds 32 levels''))"
| "parse_node (Suc levels) H j nodes =
    throw_if (\<not> is_object j) (RuntimeError ''Orbit Program node must be an object'')
    (let nodes = nodes + 1 in
     throw_if (nodes > MAX_JSON_NODES) (RuntimeError ''Orbit Program exceeds 256 nodes'')
     (res_bind (json_value get_string j ''type'' []) (\<lambda>type.
      if type = ''formula'' then res_bind (parse_formula_node H j) (\<lambda>p. Inr (p, nodes))
      else if type = ''sequence'' then
        res_bind (json_value get_bool j ''repeat'' True) (\<lambda>repeat.
        throw_if (\<not> repeat) (RuntimeError ''Orbit Program v1 sequences must repeat'')
        (case find_key j ''steps'' of
           None \<Rightarrow> Inl (RuntimeError ''sequence node requires a steps array'')
         | Some steps \<Rightarrow>
             throw_if (\<not> is_array steps) (RuntimeError ''sequence node requires a steps array'')
             (res_bind (parse_steps (parse_node levels H) (elements steps) nodes) (\<lambda>(steps, nodes).
              res_bind (sequence H steps True) (\<lambda>p. Inr (p, nodes))))))
      else Inl (RuntimeError (''unsupported Orbit Program node type: '' @ type)))))"

definition parse_orbit_program_json :: "(string \<Rightarrow> string) \<Rightarrow> json \<Rightarrow> program res" where
  "parse_orbit_program_json H j = res_bind (parse_node MAX_JSON_DEPTH H j 0) (\<lambda>(p, _). Inr p)"

definition escape_analysis_json :: "escape_analysis \<Rightarrow> json" where
  "escape_analysis_json a =
    JObject [(''certifiedRadius'', if has_finite_radius a then JFloat (ea_radius a) else JNull),
      (''reason'', JString (ea_reason a)), (''status'', JString (escape_certification_name (ea_status a)))]"

section \<open>What is accepted, and which exceptions are possible\<close>

text \<open>Exceptions that the route handlers turn into an error response.\<close>

definition reported :: "exn \<Rightarrow> bool" where
  "reported e \<longleftrightarrow> e \<noteq> Undefined \<and> e \<noteq> OutOfRange"

lemma reported_simps [simp]:
  "reported (RuntimeError m)" "reported (FormulaError c p m)" "reported TypeError"
  by (simp_all add: reported_def)

definition reports :: "'a res \<Rightarrow> bool" where
  "reports r \<longleftrightarrow> (\<forall>e. r = Inl e \<longrightarrow> reported e)"

lemma reports_simps [simp]:
  "reports (Inr x)" "reports (Inl e) \<longleftrightarrow> reported e"
  "reports (throw_if b e k) \<longleftrightarrow> (if b then reported e else reports k)"
  by (auto simp: reports_def throw_if_def)

lemma reports_bind [intro]: "reports m \<Longrightarrow> (\<And>x. m = Inr x \<Longrightarrow> reports (f x)) \<Longrightarrow> reports (res_bind m f)"
  by (cases m) (auto simp: reports_def)

lemma reports_get [simp]:
  "reports (get_string j)" "reports (get_bool j)" "reports (get_double j)"
  by (auto simp: reports_def dest: get_errors)

lemma reports_value [simp]: "(\<And>v. reports (get v)) \<Longrightarrow> reports (json_value get j k d)"
  by (auto simp: json_value_def split: option.splits)

lemma reports_builtin [simp]: "reports (builtin H v)"
  by (auto simp: reports_def builtin_def Let_def split: if_splits)

lemma reports_formula [simp]: "reports (formula H source qs)"
  by (auto simp: reports_def dest: formula_error)

lemma reports_sequence [simp]: "reports (sequence H steps rep)"
proof -
  have s: "reports (seq_step st a)" for st a
    by (cases st; cases "snd st") (auto simp: seq_step_def Let_def)
  have "reports (seq_steps sts a)" for sts a
    by (induction sts arbitrary: a) (auto intro: s)
  then show ?thesis by (auto simp: sequence_def Let_def)
qed

lemma reports_shape: "reports (parameter_shape j name)"
  by (auto simp: parameter_shape_def intro!: reports_bind split: list.splits option.splits)

lemma reports_parameter: "reports (parse_parameter_value j name)"
  by (auto simp: parse_parameter_value_def intro!: reports_bind reports_shape split: prod.splits)

lemma reports_parameters [simp]: "reports (parse_parameters ps)"
  by (induction ps rule: parse_parameters.induct) (auto intro!: reports_bind reports_parameter)

lemma reports_formula_node [simp]: "reports (parse_formula_node H j)"
  by (auto simp: parse_formula_node_def intro!: reports_bind split: option.splits)

lemma reports_steps:
  assumes "\<And>v n. reports (parse_program v n)"
  shows "reports (parse_steps parse_program steps nodes)"
  using assms
  by (induction steps arbitrary: nodes)
    (auto simp: is_number_integer_def get_int_def intro!: reports_bind split: option.splits json.splits)

lemma reports_node: "reports (parse_node levels H j nodes)"
  by (induction levels arbitrary: j nodes)
    (auto simp: Let_def intro!: reports_bind reports_steps split: option.splits)

lemma steps_built:
  assumes "parse_steps parse_program steps nodes = Inr (qs, nodes')"
    and "\<And>v n p n'. parse_program v n = Inr (p, n') \<Longrightarrow> built H p \<and> n' \<le> MAX_JSON_NODES"
    and "nodes \<le> MAX_JSON_NODES"
  shows "(\<forall>(k, q)\<in>set qs. \<forall>r. q = Some r \<longrightarrow> built H r) \<and> nodes' \<le> MAX_JSON_NODES"
  using assms
  by (induction steps arbitrary: nodes qs nodes') (fastforce simp: fsd_split split: option.splits)+

lemma formula_node_built: "parse_formula_node H j = Inr p \<Longrightarrow> built H p"
  by (auto simp: parse_formula_node_def fsd_split split: option.splits if_splits
      intro: built_builtin built_formula)

lemma node_built:
  "parse_node levels H j nodes = Inr (p, nodes') \<Longrightarrow> built H p \<and> nodes' \<le> MAX_JSON_NODES"
proof (induction levels arbitrary: j nodes p nodes')
  case 0
  then show ?case by (simp add: throw_if_def split: if_splits)
next
  case (Suc levels)
  obtain ty where ty: "json_value get_string j ''type'' [] = Inr ty" and n: "nodes + 1 \<le> MAX_JSON_NODES"
    using Suc.prems by (auto simp: fsd_split Let_def)
  show ?case
  proof (cases "ty = ''formula''")
    case True
    then show ?thesis using Suc.prems ty n formula_node_built by (auto simp: fsd_split Let_def)
  next
    case False
    obtain steps qs where q: "parse_steps (parse_node levels H) (elements steps) (nodes + 1) = Inr (qs, nodes')"
      "sequence H qs True = Inr p"
      using Suc.prems ty False by (auto simp: fsd_split Let_def split: option.splits if_splits)
    have "(\<forall>(k, q)\<in>set qs. \<forall>r. q = Some r \<longrightarrow> built H r) \<and> nodes' \<le> MAX_JSON_NODES"
      using steps_built [OF q(1) Suc.IH n] by auto
    then show ?thesis using built_sequence [OF _ q(2)] by auto
  qed
qed

section \<open>Which JSON describes which program\<close>

text \<open>
  The format, without the order of the reader's checks. A formula object names a builtin, or holds the source
  of a DSL formula and optionally its parameters; the constructor must accept it.
\<close>

definition describes_formula :: "(string \<Rightarrow> string) \<Rightarrow> json \<Rightarrow> program \<Rightarrow> bool" where
  "describes_formula H f p \<longleftrightarrow>
    (json_value get_string f ''type'' [] = Inr ''builtin'' \<and>
      (\<exists>i v. json_value get_string f ''id'' [] = Inr i \<and> builtin_variant i = Some v \<and> builtin H v = Inr p))
    \<or> (json_value get_string f ''type'' [] = Inr ''dsl'' \<and>
      (\<exists>source qs. json_value get_string f ''source'' [] = Inr source
        \<and> ((find_key f ''parameters'' = None \<and> qs = [])
            \<or> (\<exists>ps. find_key f ''parameters'' = Some ps \<and> is_object ps \<and> parse_parameters (items ps) = Inr qs))
        \<and> formula H source qs = Inr p))"

text \<open>
  \<open>describes H j p k d\<close>: the node \<open>j\<close> describes the program \<open>p\<close>, which its constructor accepts, with \<open>k\<close> nodes
  on \<open>d\<close> levels. A step's span is a 64-bit integer.
\<close>

inductive describes :: "(string \<Rightarrow> string) \<Rightarrow> json \<Rightarrow> program \<Rightarrow> nat \<Rightarrow> nat \<Rightarrow> bool"
  and describes_steps :: "(string \<Rightarrow> string) \<Rightarrow> json list \<Rightarrow> (int \<times> program option) list \<Rightarrow> nat \<Rightarrow> nat \<Rightarrow> bool"
  for H where
  describes_formula_node: "is_object j \<Longrightarrow> json_value get_string j ''type'' [] = Inr ''formula'' \<Longrightarrow>
    find_key j ''formula'' = Some f \<Longrightarrow> is_object f \<Longrightarrow> describes_formula H f p \<Longrightarrow> describes H j p 1 1"
| describes_sequence: "is_object j \<Longrightarrow> json_value get_string j ''type'' [] = Inr ''sequence'' \<Longrightarrow>
    json_value get_bool j ''repeat'' True = Inr True \<Longrightarrow> find_key j ''steps'' = Some steps \<Longrightarrow> is_array steps \<Longrightarrow>
    describes_steps H (elements steps) qs k d \<Longrightarrow> sequence H qs True = Inr p \<Longrightarrow>
    describes H j p (Suc k) (Suc d)"
| describes_no_steps: "describes_steps H [] [] 0 0"
| describes_step: "find_key st ''program'' = Some j \<Longrightarrow> find_key st ''span'' = Some w \<Longrightarrow> is_number_integer w \<Longrightarrow>
    get_int 64 w = Inr n \<Longrightarrow> 1 \<le> n \<Longrightarrow> n \<le> 1000000 \<Longrightarrow> describes H j p k d \<Longrightarrow> describes_steps H sts qs m e \<Longrightarrow>
    describes_steps H (st # sts) ((n, Some p) # qs) (k + m) (max d e)"

inductive_simps describes_simps: "describes H j p k d"
inductive_simps describes_steps_simps [simp]: "describes_steps H [] qs k d" "describes_steps H (st # sts) qs k d"

lemma parse_formula_node_iff:
  "parse_formula_node H j = Inr p \<longleftrightarrow>
    (\<exists>f. find_key j ''formula'' = Some f \<and> is_object f \<and> describes_formula H f p)"
proof (cases "find_key j ''formula''")
  case None
  then show ?thesis by (simp add: parse_formula_node_def)
next
  case (Some f)
  note S = Some
  show ?thesis
  proof (cases "json_value get_string f ''type'' []")
    case (Inl e)
    then show ?thesis using S by (simp add: parse_formula_node_def describes_formula_def throw_if_def)
  next
    case (Inr t)
    show ?thesis
    proof (cases "t = ''builtin''")
      case True
      then show ?thesis using S Inr
        by (auto simp: parse_formula_node_def describes_formula_def fsd_split split: option.splits)
    next
      case False
      then show ?thesis using S Inr
        by (cases "find_key f ''parameters''"; cases "t = ''dsl''")
          (auto simp: parse_formula_node_def describes_formula_def fsd_split split: if_splits)
    qed
  qed
qed

lemma formula_node_describes:
  assumes "is_object j" "json_value get_string j ''type'' [] = Inr ''formula''"
  shows "describes H j p k d \<longleftrightarrow> parse_formula_node H j = Inr p \<and> k = 1 \<and> d = 1"
  unfolding parse_formula_node_iff using assms by (subst describes_simps) auto

lemma sequence_node_describes:
  assumes "is_object j" "json_value get_string j ''type'' [] = Inr ''sequence''"
  shows "describes H j p k d \<longleftrightarrow> json_value get_bool j ''repeat'' True = Inr True
    \<and> (\<exists>steps qs k' d'. find_key j ''steps'' = Some steps \<and> is_array steps
        \<and> describes_steps H (elements steps) qs k' d' \<and> sequence H qs True = Inr p \<and> k = Suc k' \<and> d = Suc d')"
  using assms by (auto simp: describes_simps [of H j])

lemma describes_shape:
  "describes H j p k d \<Longrightarrow> is_object j \<and> 1 \<le> k \<and> 1 \<le> d
    \<and> (\<exists>t. json_value get_string j ''type'' [] = Inr t \<and> (t = ''formula'' \<or> t = ''sequence''))"
  by (auto simp: describes_simps [of H j])

text \<open>The counter is checked at every node; the total decides.\<close>

lemma steps_describe:
  assumes "\<And>v nodes q nodes'. parse_program v nodes = Inr (q, nodes') \<longleftrightarrow>
      (\<exists>k d. describes H v q k d \<and> d \<le> levels \<and> nodes' = nodes + k \<and> nodes' \<le> MAX_JSON_NODES)"
    and "nodes \<le> MAX_JSON_NODES"
  shows "parse_steps parse_program sts nodes = Inr (qs, nodes') \<longleftrightarrow>
    (\<exists>k d. describes_steps H sts qs k d \<and> d \<le> levels \<and> nodes' = nodes + k \<and> nodes' \<le> MAX_JSON_NODES)"
  using assms(2)
proof (induction sts arbitrary: nodes qs nodes')
  case Nil
  then show ?case by auto
next
  case (Cons st sts)
  have "parse_steps parse_program (st # sts) nodes = Inr (qs, nodes') \<longleftrightarrow>
    (\<exists>j w n p r mid. find_key st ''program'' = Some j \<and> find_key st ''span'' = Some w \<and> is_number_integer w
      \<and> get_int 64 w = Inr n \<and> 1 \<le> n \<and> n \<le> 1000000 \<and> qs = (n, Some p) # r
      \<and> parse_program j nodes = Inr (p, mid) \<and> parse_steps parse_program sts mid = Inr (r, nodes'))"
    by (auto simp: fsd_split split: option.splits)
  also have "\<dots> \<longleftrightarrow> (\<exists>j w n p r k m d e. find_key st ''program'' = Some j \<and> find_key st ''span'' = Some w
      \<and> is_number_integer w \<and> get_int 64 w = Inr n \<and> 1 \<le> n \<and> n \<le> 1000000 \<and> qs = (n, Some p) # r
      \<and> describes H j p k d \<and> describes_steps H sts r m e \<and> d \<le> levels \<and> e \<le> levels
      \<and> nodes' = nodes + k + m \<and> nodes' \<le> MAX_JSON_NODES)"
    using Cons.IH by (auto simp: assms(1)) (metis, metis le_add1 le_trans)
  finally show ?case by simp (smt (verit, best) ab_semigroup_add_class.add_ac(1) max.bounded_iff)
qed

lemma node_describes:
  "parse_node levels H j nodes = Inr (p, nodes') \<longleftrightarrow>
    (\<exists>k d. describes H j p k d \<and> d \<le> levels \<and> nodes' = nodes + k \<and> nodes' \<le> MAX_JSON_NODES)"
proof (induction levels arbitrary: j nodes p nodes')
  case 0
  then show ?case using describes_shape [of H j p] by (auto simp: throw_if_def)
next
  case (Suc levels)
  note steps = steps_describe [OF Suc.IH]
  show ?case
  proof (cases "is_object j \<and> nodes + 1 \<le> MAX_JSON_NODES")
    case False
    then show ?thesis by (auto simp: Let_def throw_if_def dest: describes_shape)
  next
    case True
    show ?thesis
    proof (cases "json_value get_string j ''type'' []")
      case (Inl e)
      then show ?thesis using True describes_shape [of H j p] by (auto simp: Let_def throw_if_def)
    next
      case (Inr t)
      consider "t = ''formula''" | "t = ''sequence''" | "t \<noteq> ''formula''" "t \<noteq> ''sequence''" by blast
      then show ?thesis
      proof cases
        case 1
        then show ?thesis using True Inr formula_node_describes [of j H p]
          by (auto simp: Let_def fsd_split)
      next
        case 2
        then have "parse_node (Suc levels) H j nodes = Inr (p, nodes') \<longleftrightarrow>
            json_value get_bool j ''repeat'' True = Inr True \<and> (\<exists>sts qs. find_key j ''steps'' = Some sts \<and> is_array sts
              \<and> parse_steps (parse_node levels H) (elements sts) (nodes + 1) = Inr (qs, nodes') \<and> sequence H qs True = Inr p)"
          using True Inr by (auto simp: Let_def fsd_split split: option.splits)
        also have "\<dots> \<longleftrightarrow> json_value get_bool j ''repeat'' True = Inr True
            \<and> (\<exists>sts qs k d. find_key j ''steps'' = Some sts \<and> is_array sts \<and> describes_steps H (elements sts) qs k d
              \<and> d \<le> levels \<and> nodes' = nodes + 1 + k \<and> nodes' \<le> MAX_JSON_NODES \<and> sequence H qs True = Inr p)"
          using steps [of "nodes + 1"] True by blast
        also have "\<dots> \<longleftrightarrow> (\<exists>k d. describes H j p k d \<and> d \<le> Suc levels \<and> nodes' = nodes + k \<and> nodes' \<le> MAX_JSON_NODES)"
          unfolding sequence_node_describes [OF True [THEN conjunct1] Inr [unfolded 2]]
          by (rule iffI; fastforce)
        finally show ?thesis .
      next
        case 3
        then show ?thesis using True Inr describes_shape [of H j p] by (auto simp: Let_def throw_if_def)
      qed
    qed
  qed
qed

text \<open>The reader accepts exactly the described programs within the limits.\<close>

lemma reader_exact:
  "parse_orbit_program_json H j = Inr p \<longleftrightarrow> (\<exists>k d. describes H j p k d \<and> k \<le> 256 \<and> d \<le> 32)"
proof -
  have "parse_orbit_program_json H j = Inr p \<longleftrightarrow> (\<exists>nodes. parse_node MAX_JSON_DEPTH H j 0 = Inr (p, nodes))"
    by (auto simp: parse_orbit_program_json_def fsd_split)
  then show ?thesis by (auto simp: node_describes MAX_JSON_DEPTH_def MAX_JSON_NODES_def)
qed

section \<open>Descriptions and their direct construction\<close>

datatype spec = Spec_Builtin variant | Spec_Formula string | Spec_Sequence "(int \<times> spec) list"

fun spec_json :: "spec \<Rightarrow> json" where
  "spec_json (Spec_Builtin v) = JObject
     [(''formula'', JObject [(''id'', JString (variant_name v)), (''type'', JString ''builtin'')]),
      (''type'', JString ''formula'')]"
| "spec_json (Spec_Formula source) = JObject
     [(''formula'', JObject [(''source'', JString source), (''type'', JString ''dsl'')]),
      (''type'', JString ''formula'')]"
| "spec_json (Spec_Sequence steps) = JObject
     [(''steps'', JArray (map (\<lambda>(n, s). JObject [(''program'', spec_json s), (''span'', JInt n)]) steps)),
      (''type'', JString ''sequence'')]"

text \<open>The constructors applied bottom up; the first exception from the left ends the construction.\<close>

fun res_list :: "'a res list \<Rightarrow> 'a list res" where
  "res_list [] = Inr []"
| "res_list (m # ms) = res_bind m (\<lambda>x. res_bind (res_list ms) (\<lambda>xs. Inr (x # xs)))"

fun spec_program :: "(string \<Rightarrow> string) \<Rightarrow> spec \<Rightarrow> program res" where
  "spec_program H (Spec_Builtin v) = builtin H v"
| "spec_program H (Spec_Formula source) = formula H source []"
| "spec_program H (Spec_Sequence steps) =
    res_bind (res_list (map (\<lambda>(n, s). res_bind (spec_program H s) (\<lambda>p. Inr (n, Some p))) steps))
      (\<lambda>qs. sequence H qs True)"

fun spec_nodes :: "spec \<Rightarrow> nat" where
  "spec_nodes (Spec_Sequence steps) = 1 + sum_list (map (\<lambda>(n, s). spec_nodes s) steps)"
| "spec_nodes _ = 1"

fun spec_depth :: "spec \<Rightarrow> nat" where
  "spec_depth (Spec_Sequence steps) = 1 + fold max (map (\<lambda>(n, s). spec_depth s) steps) 0"
| "spec_depth _ = 1"

text \<open>The names are of builtins and the spans in range.\<close>

fun spec_ok :: "spec \<Rightarrow> bool" where
  "spec_ok (Spec_Builtin v) = (v \<noteq> Custom)"
| "spec_ok (Spec_Formula source) = True"
| "spec_ok (Spec_Sequence steps) = (\<forall>(n, s)\<in>set steps. 1 \<le> n \<and> n \<le> 1000000 \<and> spec_ok s)"

lemma builtin_variant_name: "v \<noteq> Custom \<Longrightarrow> builtin_variant (variant_name v) = Some v"
  by (cases v) (simp_all add: builtin_variant_def variant_from_name_def variant_table_def)

lemma fold_max_le: "x \<in> set xs \<Longrightarrow> x \<le> fold max xs (a :: nat)" and fold_max_start: "a \<le> fold max xs (a :: nat)"
proof -
  have "a \<le> fold max xs a \<and> (\<forall>x\<in>set xs. x \<le> fold max xs a)" for a
    by (induction xs arbitrary: a) (auto, (meson max.bounded_iff max.cobounded2 order_trans)+)
  then show "x \<in> set xs \<Longrightarrow> x \<le> fold max xs a" "a \<le> fold max xs a" by auto
qed

lemma wrap_span: "1 \<le> n \<Longrightarrow> n \<le> 1000000 \<Longrightarrow> wrap_int 64 n = n"
  by (rule wrap_int_id) simp_all

lemma parse_steps_spec:
  assumes "\<And>n s nodes. (n, s) \<in> set steps \<Longrightarrow> nodes + spec_nodes s \<le> MAX_JSON_NODES \<Longrightarrow>
      parse_program (spec_json s) nodes = res_bind (spec_program H s) (\<lambda>p. Inr (p, nodes + spec_nodes s))"
    and "\<forall>(n, s)\<in>set steps. 1 \<le> n \<and> n \<le> 1000000"
    and "nodes + sum_list (map (\<lambda>(n, s). spec_nodes s) steps) \<le> MAX_JSON_NODES"
  shows "parse_steps parse_program
      (map (\<lambda>(n, s). JObject [(''program'', spec_json s), (''span'', JInt n)]) steps) nodes
    = res_bind (res_list (map (\<lambda>(n, s). res_bind (spec_program H s) (\<lambda>p. Inr (n, Some p))) steps))
        (\<lambda>qs. Inr (qs, nodes + sum_list (map (\<lambda>(n, s). spec_nodes s) steps)))"
  using assms
proof (induction steps arbitrary: nodes)
  case Nil
  then show ?case by simp
next
  case (Cons st steps)
  obtain n s where st: "st = (n, s)" by (cases st)
  have b: "1 \<le> n" "n \<le> 1000000" using Cons.prems(2) by (auto simp: st)
  have p: "parse_program (spec_json s) nodes = res_bind (spec_program H s) (\<lambda>p. Inr (p, nodes + spec_nodes s))"
    using Cons.prems(1) [of n s nodes] Cons.prems(3) by (simp add: st)
  have rest: "parse_steps parse_program
      (map (\<lambda>(n, s). JObject [(''program'', spec_json s), (''span'', JInt n)]) steps) (nodes + spec_nodes s)
    = res_bind (res_list (map (\<lambda>(n, s). res_bind (spec_program H s) (\<lambda>p. Inr (n, Some p))) steps))
        (\<lambda>qs. Inr (qs, nodes + spec_nodes s + sum_list (map (\<lambda>(n, s). spec_nodes s) steps)))"
    using Cons.prems by (intro Cons.IH) (auto simp: st)
  show ?case
    using rest p b
    by (cases "spec_program H s"; cases "res_list (map (\<lambda>(n, s). res_bind (spec_program H s) (\<lambda>p. Inr (n, Some p))) steps)")
      (simp_all add: st find_key_def items_def is_number_integer_def get_int_def wrap_span throw_if_def)
qed

lemma node_reads_spec:
  "spec_ok s \<Longrightarrow> spec_depth s \<le> levels \<Longrightarrow> nodes + spec_nodes s \<le> MAX_JSON_NODES \<Longrightarrow>
    parse_node levels H (spec_json s) nodes = res_bind (spec_program H s) (\<lambda>p. Inr (p, nodes + spec_nodes s))"
proof (induction s arbitrary: levels nodes)
  case (Spec_Builtin v)
  then obtain l where "levels = Suc l" by (cases levels) auto
  then show ?case using Spec_Builtin
    by (simp add: is_object_def Let_def json_value_def find_key_def items_def get_string_def parse_formula_node_def
        builtin_variant_name)
next
  case (Spec_Formula source)
  then obtain l where "levels = Suc l" by (cases levels) auto
  then show ?case using Spec_Formula
    by (simp add: is_object_def Let_def json_value_def find_key_def items_def get_string_def parse_formula_node_def)
next
  case (Spec_Sequence steps)
  then obtain l where l: "levels = Suc l" by (cases levels) auto
  have d: "spec_depth s \<le> l" if "(n, s) \<in> set steps" for n s
  proof -
    have "spec_depth s \<in> set (map (\<lambda>(n, s). spec_depth s) steps)" using that by force
    then show ?thesis using fold_max_le [of "spec_depth s" _ 0] Spec_Sequence.prems(2) l by fastforce
  qed
  have "parse_steps (parse_node l H)
      (map (\<lambda>(n, s). JObject [(''program'', spec_json s), (''span'', JInt n)]) steps) (nodes + 1)
    = res_bind (res_list (map (\<lambda>(n, s). res_bind (spec_program H s) (\<lambda>p. Inr (n, Some p))) steps))
        (\<lambda>qs. Inr (qs, nodes + 1 + sum_list (map (\<lambda>(n, s). spec_nodes s) steps)))"
  proof (rule parse_steps_spec)
    fix n s nodes assume "(n, s) \<in> set steps" "nodes + spec_nodes s \<le> MAX_JSON_NODES"
    then show "parse_node l H (spec_json s) nodes = res_bind (spec_program H s) (\<lambda>p. Inr (p, nodes + spec_nodes s))"
      using Spec_Sequence.prems(1) by (intro Spec_Sequence.IH d) (auto simp: snds.simps)
  qed (use Spec_Sequence.prems in auto)
  then show ?case using Spec_Sequence.prems
    by (cases "res_list (map (\<lambda>(n, s). res_bind (spec_program H s) (\<lambda>p. Inr (n, Some p))) steps)")
      (simp_all add: l is_object_def is_array_def elements_def Let_def json_value_def find_key_def items_def get_string_def)
qed

section \<open>Properties\<close>

text \<open>
  C20: the reader of Orbit Programs is exact and safe. It accepts a JSON value with the program \<open>p\<close> exactly when
  the value describes \<open>p\<close> by the format, with at most 256 nodes on at most 32 levels; such a program is built by
  the checked constructors, every iteration of it is defined, and it obeys the limits of its expressions. It
  refuses every other value with one of the exceptions that the handlers report, never with undefined behaviour.
\<close>

theorem json_program_sound:
  "case parse_orbit_program_json H j of
     Inr p \<Rightarrow> (\<exists>k d. describes H j p k d \<and> k \<le> 256 \<and> d \<le> 32) \<and> built H p
       \<and> (\<exists>w. step M L p z c n = Inr w) \<and> p_node_count p \<le> 256 \<and> p_depth p \<le> 32
   | Inl e \<Rightarrow> (\<nexists>p k d. describes H j p k d \<and> k \<le> 256 \<and> d \<le> 32) \<and> e \<noteq> Undefined \<and> e \<noteq> OutOfRange"
proof (cases "parse_orbit_program_json H j")
  case (Inl e)
  have "reported e" using Inl reports_node [of MAX_JSON_DEPTH H j 0]
    by (auto simp: parse_orbit_program_json_def reports_def fsd_split)
  moreover have "\<nexists>p k d. describes H j p k d \<and> k \<le> 256 \<and> d \<le> 32"
    using Inl reader_exact [of H j] by (metis sum.distinct(1))
  ultimately show ?thesis using Inl by (simp add: reported_def)
next
  case (Inr p)
  have b: "built H p" using Inr by (auto simp: parse_orbit_program_json_def fsd_split dest: node_built)
  moreover have "\<exists>k d. describes H j p k d \<and> k \<le> 256 \<and> d \<le> 32" using Inr reader_exact [of H j p] by blast
  ultimately show ?thesis using Inr built_ok [OF b]
    by (simp add: limits_ok_def MAX_AST_NODES_def MAX_AST_DEPTH_def)
qed

text \<open>
  C36: the reader agrees with the direct construction. The JSON of a description with at most 256 nodes and
  32 levels is read to exactly the program that the constructors build from the description, and is
  rejected exactly when they reject it, with the same exception.
\<close>

theorem json_reads_description:
  assumes "spec_ok s" "spec_depth s \<le> 32" "spec_nodes s \<le> 256"
  shows "parse_orbit_program_json H (spec_json s) = spec_program H s"
proof -
  have "parse_node MAX_JSON_DEPTH H (spec_json s) 0 = res_bind (spec_program H s) (\<lambda>p. Inr (p, 0 + spec_nodes s))"
    using assms by (intro node_reads_spec) (simp_all add: MAX_JSON_DEPTH_def MAX_JSON_NODES_def)
  then show ?thesis by (cases "spec_program H s") (simp_all add: parse_orbit_program_json_def)
qed

definition sample_spec :: spec where
  "sample_spec = Spec_Sequence [(2, Spec_Builtin Mandelbrot), (1, Spec_Sequence [(3, Spec_Builtin Boat)])]"

theorem json_reads_description_witness:
  "\<forall>H. parse_orbit_program_json H (spec_json sample_spec) = spec_program H sample_spec
   \<and> (\<exists>p. spec_program H sample_spec = Inr p)"
proof
  fix H
  have "\<exists>p. spec_program H sample_spec = Inr p"
    by (simp add: sample_spec_def builtin_def sequence_def seq_step_def seq_start_def throw_if_def Let_def
        MAX_SEQUENCE_STEPS_def MAX_AST_NODES_def MAX_AST_DEPTH_def)
  moreover have "parse_orbit_program_json H (spec_json sample_spec) = spec_program H sample_spec"
    by (rule json_reads_description) (simp_all add: sample_spec_def)
  ultimately show "parse_orbit_program_json H (spec_json sample_spec) = spec_program H sample_spec
   \<and> (\<exists>p. spec_program H sample_spec = Inr p)" by simp
qed

end
