(* ===== verification/LnReuse.thy ===== *)
theory LnReuse
  imports JsonValue
begin

text \<open>
  When a stored ln-map may be used again (\<^verbatim>\<open>api/ln_map_reuse.hpp\<close>): the sidecar of the stored map is
  compared with the request, field by field, and the first field that differs is named. A sidecar is
  accepted for exactly the requests that agree with the one that wrote it.
\<close>

section \<open>Comparing one field\<close>

definition ln_map_number_matches :: "json \<Rightarrow> string \<Rightarrow> fl \<Rightarrow> fl \<Rightarrow> bool res" where
  "ln_map_number_matches saved key requested rel_tolerance =
    (case find_key saved key of
       None \<Rightarrow> Inr False
     | Some v \<Rightarrow>
         if \<not> is_number v then Inr False
         else res_bind (get_double v) (\<lambda>actual.
           Inr (if \<not> fis_finite actual \<or> \<not> fis_finite requested then False
                else let scale = fmax (fmax (Fin 1) (fabs actual)) (fabs requested)
                     in fle (fabs (fsub b64 actual requested)) (fmul b64 rel_tolerance scale))))"

definition ln_map_coordinate_matches :: "json \<Rightarrow> string \<Rightarrow> string \<Rightarrow> string \<Rightarrow> fl \<Rightarrow> bool res" where
  "ln_map_coordinate_matches saved number_key string_key requested_string requested_number =
    res_bind (json_value get_string saved string_key []) (\<lambda>saved_string.
      if (requested_string = []) \<noteq> (saved_string = []) then Inr False
      else if requested_string \<noteq> [] then Inr (saved_string = requested_string)
      else ln_map_number_matches saved number_key requested_number (Fin 0))"

definition ln_map_integer_matches :: "json \<Rightarrow> string \<Rightarrow> int \<Rightarrow> bool res" where
  "ln_map_integer_matches saved key requested =
    (case find_key saved key of
       None \<Rightarrow> Inr False
     | Some v \<Rightarrow>
         if \<not> is_number_integer v then Inr False
         else res_bind (get_int 32 v) (\<lambda>i. Inr (i = requested)))"

definition boolean_matches :: "json \<Rightarrow> string \<Rightarrow> bool \<Rightarrow> bool res" where
  "boolean_matches saved key requested =
    (case find_key saved key of
       None \<Rightarrow> Inr False
     | Some v \<Rightarrow> if \<not> is_boolean v then Inr False else res_bind (get_bool v) (\<lambda>b. Inr (b = requested)))"

definition string_matches :: "json \<Rightarrow> string \<Rightarrow> string \<Rightarrow> bool res" where
  "string_matches saved key requested = res_bind (json_value get_string saved key []) (\<lambda>s. Inr (s = requested))"

text \<open>\<^verbatim>\<open>if (!matches) return name;\<close> one after the other.\<close>

fun first_mismatch :: "(string \<times> bool res) list \<Rightarrow> string res" where
  "first_mismatch [] = Inr []"
| "first_mismatch ((name, m) # ms) = res_bind m (\<lambda>ok. if ok then first_mismatch ms else Inr name)"

section \<open>The request\<close>

text \<open>The arguments of \<^verbatim>\<open>lnMapIdentityMismatch\<close>.\<close>

record ln_identity =
  li_center_re_str :: string
  li_center_im_str :: string
  li_center_re :: fl
  li_center_im :: fl
  li_julia :: bool
  li_julia_re :: fl
  li_julia_im :: fl
  li_variant :: string
  li_iterations :: int
  li_bailout_sq :: fl
  li_color_map :: string
  li_color_mode :: string
  li_cycles_per_octave :: fl
  li_depth_octaves :: fl
  li_precision_mode :: string

definition ln_map_identity_mismatch :: "json \<Rightarrow> ln_identity \<Rightarrow> string res" where
  "ln_map_identity_mismatch saved q = first_mismatch
    ([(''centerRe'', ln_map_coordinate_matches saved ''centerRe'' ''centerReStr'' (li_center_re_str q) (li_center_re q)),
      (''centerIm'', ln_map_coordinate_matches saved ''centerIm'' ''centerImStr'' (li_center_im_str q) (li_center_im q)),
      (''julia'', boolean_matches saved ''julia'' (li_julia q))]
     @ (if li_julia q then [(''juliaRe'', ln_map_number_matches saved ''juliaRe'' (li_julia_re q) (Fin 0)),
                            (''juliaIm'', ln_map_number_matches saved ''juliaIm'' (li_julia_im q) (Fin 0))] else [])
     @ [(''variant'', string_matches saved ''variant'' (li_variant q)),
        (''iterations'', ln_map_integer_matches saved ''iterations'' (li_iterations q)),
        (''bailoutSq'', ln_map_number_matches saved ''bailoutSq'' (li_bailout_sq q) (Fin 0)),
        (''colorMap'', string_matches saved ''colorMap'' (li_color_map q)),
        (''lnMapColorMode'', string_matches saved ''lnMapColorMode'' (li_color_mode q)),
        (''lnMapCyclesPerOctave'', ln_map_number_matches saved ''lnMapCyclesPerOctave'' (li_cycles_per_octave q) (Fin 0)),
        (''depthOctaves'', ln_map_number_matches saved ''depthOctaves'' (li_depth_octaves q) (Fin 0)),
        (''precisionMode'', string_matches saved ''precisionMode'' (li_precision_mode q))])"

record ln_generation_identity =
  lg_bailout :: fl
  lg_extra_octaves :: fl
  lg_engine_request :: string
  lg_scalar_request :: string
  lg_fast_fp32_depth_octaves :: fl
  lg_fast_fp64_depth_octaves :: fl
  lg_fast_validate :: bool
  lg_fast_validation_band_octaves :: fl
  lg_fast_validation_sample_rows :: int
  lg_fast_validation_sample_cols :: int
  lg_fast_validation_max_mismatch_ratio :: fl
  lg_fast_validation_max_p99_iter_delta :: int
  lg_fast_validation_max_mean_color_delta :: fl

definition default_ln_generation_identity :: ln_generation_identity where
  "default_ln_generation_identity = \<lparr>lg_bailout = Fin 2, lg_extra_octaves = Fin 7,
     lg_engine_request = ''auto'', lg_scalar_request = ''auto'',
     lg_fast_fp32_depth_octaves = Fin 18, lg_fast_fp64_depth_octaves = Fin 34, lg_fast_validate = True,
     lg_fast_validation_band_octaves = Fin 4, lg_fast_validation_sample_rows = 5,
     lg_fast_validation_sample_cols = 24, lg_fast_validation_max_mismatch_ratio = rnd b64 (1 / 100),
     lg_fast_validation_max_p99_iter_delta = 16, lg_fast_validation_max_mean_color_delta = Fin 8\<rparr>"

definition ln_map_generation_identity_mismatch :: "json \<Rightarrow> ln_generation_identity \<Rightarrow> string res" where
  "ln_map_generation_identity_mismatch saved q = first_mismatch
    [(''bailout'', ln_map_number_matches saved ''bailout'' (lg_bailout q) (Fin 0)),
     (''lnMapExtraOctaves'', ln_map_number_matches saved ''lnMapExtraOctaves'' (lg_extra_octaves q) (Fin 0)),
     (''lnMapEngine'', string_matches saved ''lnMapEngineRequest'' (lg_engine_request q)),
     (''lnMapScalar'', string_matches saved ''lnMapScalarRequest'' (lg_scalar_request q)),
     (''lnMapFastFp32DepthOctaves'',
        ln_map_number_matches saved ''lnMapFastFp32DepthOctaves'' (lg_fast_fp32_depth_octaves q) (Fin 0)),
     (''lnMapFastFp64DepthOctaves'',
        ln_map_number_matches saved ''lnMapFastFp64DepthOctaves'' (lg_fast_fp64_depth_octaves q) (Fin 0)),
     (''lnMapFastValidate'', boolean_matches saved ''lnMapFastValidate'' (lg_fast_validate q)),
     (''lnMapFastValidationBandOctaves'',
        ln_map_number_matches saved ''lnMapFastValidationBandOctaves'' (lg_fast_validation_band_octaves q) (Fin 0)),
     (''lnMapFastValidationSampleRows'',
        ln_map_integer_matches saved ''lnMapFastValidationSampleRows'' (lg_fast_validation_sample_rows q)),
     (''lnMapFastValidationSampleCols'',
        ln_map_integer_matches saved ''lnMapFastValidationSampleCols'' (lg_fast_validation_sample_cols q)),
     (''lnMapFastValidationMaxMismatchRatio'',
        ln_map_number_matches saved ''lnMapFastValidationMaxMismatchRatio''
          (lg_fast_validation_max_mismatch_ratio q) (Fin 0)),
     (''lnMapFastValidationMaxP99IterDelta'',
        ln_map_integer_matches saved ''lnMapFastValidationMaxP99IterDelta'' (lg_fast_validation_max_p99_iter_delta q)),
     (''lnMapFastValidationMaxMeanColorDelta'',
        ln_map_number_matches saved ''lnMapFastValidationMaxMeanColorDelta''
          (lg_fast_validation_max_mean_color_delta q) (Fin 0))]"

text \<open>The assignments of \<^verbatim>\<open>writeLnMapGenerationIdentity\<close>, in their order.\<close>

definition generation_entries :: "ln_generation_identity \<Rightarrow> (string \<times> json) list" where
  "generation_entries d =
    [(''bailout'', JFloat (lg_bailout d)),
     (''lnMapExtraOctaves'', JFloat (lg_extra_octaves d)),
     (''lnMapEngineRequest'', JString (lg_engine_request d)),
     (''lnMapScalarRequest'', JString (lg_scalar_request d)),
     (''lnMapFastFp32DepthOctaves'', JFloat (lg_fast_fp32_depth_octaves d)),
     (''lnMapFastFp64DepthOctaves'', JFloat (lg_fast_fp64_depth_octaves d)),
     (''lnMapFastValidate'', JBool (lg_fast_validate d)),
     (''lnMapFastValidationBandOctaves'', JFloat (lg_fast_validation_band_octaves d)),
     (''lnMapFastValidationSampleRows'', JInt (lg_fast_validation_sample_rows d)),
     (''lnMapFastValidationSampleCols'', JInt (lg_fast_validation_sample_cols d)),
     (''lnMapFastValidationMaxMismatchRatio'', JFloat (lg_fast_validation_max_mismatch_ratio d)),
     (''lnMapFastValidationMaxP99IterDelta'', JInt (lg_fast_validation_max_p99_iter_delta d)),
     (''lnMapFastValidationMaxMeanColorDelta'', JFloat (lg_fast_validation_max_mean_color_delta d))]"

definition write_ln_map_generation_identity :: "ln_generation_identity \<Rightarrow> json \<Rightarrow> json res" where
  "write_ln_map_generation_identity d sidecar = put_all (generation_entries d) sidecar"

section \<open>Doubles and their differences\<close>

text \<open>A value of the type \<^verbatim>\<open>double\<close>: finite, and a multiple of the smallest subnormal.\<close>

definition is_double :: "fl \<Rightarrow> bool" where
  "is_double x \<longleftrightarrow> fis_finite x \<and> (\<exists>m. fval x = of_int m * 2 powi (qmin b64)) \<and> \<bar>fval x\<bar> < 2 powi emax b64"

text \<open>The difference of two different doubles does not round to zero (gradual underflow).\<close>

lemma rnd_rat_nonzero:
  assumes "x = of_int m * 2 powi (qmin F)" and "x \<noteq> 0" and "1 \<le> prec F"
  shows "rnd_rat F x \<noteq> 0"
proof -
  have "m \<noteq> 0" using assms(1,2) by auto
  then have "1 \<le> \<bar>m\<bar>" by simp
  then have "1 \<le> \<bar>of_int m :: rat\<bar>" by (metis of_int_1 of_int_abs of_int_le_iff)
  then have big: "2 powi qmin F \<le> \<bar>x\<bar>" unfolding assms(1) abs_mult by simp
  have "(2::rat) powi (ilog2 \<bar>x\<bar> - prec F + 1) \<le> 2 powi ilog2 \<bar>x\<bar>" using assms(3) by (simp add: two_powi_le_iff)
  also have "\<dots> \<le> \<bar>x\<bar>" using ilog2_spec [of "\<bar>x\<bar>"] assms(2) by simp
  finally have "2 powi quantum F x \<le> \<bar>x\<bar>" using big by (simp add: quantum_def max_def)
  then have "\<bar>rnd_rat F x - x\<bar> \<le> \<bar>x\<bar> / 2" using rnd_rat_error [of F x] by linarith
  then show ?thesis using assms(2) by auto
qed

lemma rnd_zero_iff:
  assumes "x = of_int m * 2 powi (qmin F)" and "1 \<le> prec F"
  shows "fabs (rnd F x) = Fin 0 \<longleftrightarrow> x = 0"
  using rnd_rat_nonzero [OF assms(1) _ assms(2)] by (auto simp: rnd_def Let_def)

lemma difference_zero_iff:
  assumes "is_double a" "is_double b"
  shows "fabs (fsub b64 a b) = Fin 0 \<longleftrightarrow> fval a = fval b"
proof -
  have f: "fis_finite a" "fis_finite b" and va: "fval (fneg b) = - fval b" using assms
    by (cases b; simp add: is_double_def fis_finite_def fval_def)+
  obtain m n where m: "fval a = of_int m * 2 powi (qmin b64)" and n: "fval b = of_int n * 2 powi (qmin b64)"
    using assms by (auto simp: is_double_def)
  have d: "fval a - fval b = of_int (m - n) * 2 powi (qmin b64)" by (simp add: m n left_diff_distrib)
  have s: "fsub b64 a b = (if a = NegZero \<and> fneg b = NegZero then NegZero else rnd b64 (fval a - fval b))"
    using f va by (cases a; cases b) (auto simp: fsub_def fadd_def fis_finite_def)
  have z: "a = NegZero \<and> fneg b = NegZero \<Longrightarrow> fval a = fval b"
    by (cases b) (auto simp: fval_def split: if_splits)
  show ?thesis unfolding s using rnd_zero_iff [OF d] z by (auto simp: b64_def)
qed

lemma fle_zero_iff: "fle (fabs x) (fmul b64 (Fin 0) y) \<longleftrightarrow> fabs x = Fin 0" if "fis_finite y" for x y
  using that by (cases x; cases y) (auto simp: fle_def flt_def feq_def fmul_def fis_finite_def fval_def signed_zero_def)

lemma fmax_finite: "fis_finite a \<Longrightarrow> fis_finite b \<Longrightarrow> fis_finite (fmax a b)"
  by (simp add: fmax_def)

lemma fabs_finite: "fis_finite a \<Longrightarrow> fis_finite (fabs a)"
  by (cases a) (auto simp: fis_finite_def)

lemma number_matches_float:
  assumes "find_key saved key = Some (JFloat a)" "is_double a" "is_double r"
  shows "ln_map_number_matches saved key r (Fin 0) = Inr (fval a = fval r)"
proof -
  have f: "fis_finite a" "fis_finite r" using assms by (simp_all add: is_double_def)
  then have "fis_finite (fmax (fmax (Fin 1) (fabs a)) (fabs r))"
    by (intro fmax_finite fabs_finite) (simp_all add: fis_finite_def)
  then show ?thesis using assms f
    by (simp add: ln_map_number_matches_def is_number_def get_double_def fle_zero_iff difference_zero_iff Let_def)
qed

text \<open>A finite result of a rounding to \<^verbatim>\<open>double\<close> is a double.\<close>

lemma rnd_double: "fis_finite (rnd b64 x) \<Longrightarrow> is_double (rnd b64 x)"
proof -
  assume f: "fis_finite (rnd b64 x)"
  have q: "\<exists>m. rnd_rat b64 y = of_int m * 2 powi (qmin b64)" for y
  proof -
    obtain n where n: "quantum b64 y = qmin b64 + int n"
      using quantum_ge [of b64 y] zle_iff_zadd by blast
    have "rnd_rat b64 y = of_int (rhe (y / 2 powi quantum b64 y) * 2 ^ n) * 2 powi (qmin b64)"
      unfolding rnd_rat_def by (simp add: n power_int_add)
    then show ?thesis by blast
  qed
  have z: "\<exists>m. (0::rat) = of_int m * 2 powi (qmin b64)" by (rule exI [of _ 0]) simp
  show ?thesis using f q [of x] z
    by (auto simp: is_double_def rnd_def Let_def fval_def fis_finite_def split: if_splits)
qed

text \<open>The numbers of a parsed file are integers and doubles.\<close>

definition double_numbers :: "json \<Rightarrow> bool" where
  "double_numbers saved \<longleftrightarrow> (\<forall>k a. find_key saved k = Some (JFloat a) \<longrightarrow> fis_finite a \<longrightarrow> is_double a)"

lemma saved_double:
  assumes "double_numbers saved" "find_key saved key = Some v" "get_double v = Inr a" "fis_finite a"
  shows "is_double a"
  using assms by (cases v) (auto simp: double_numbers_def get_double_def f_of_int_def intro: rnd_double)

text \<open>With no tolerance the comparison is that of the numbers: two doubles with one value are not told apart.\<close>

lemma number_matches_iff:
  assumes "double_numbers saved" "is_double r"
  shows "ln_map_number_matches saved key r (Fin 0) = (case find_key saved key of None \<Rightarrow> Inr False
    | Some v \<Rightarrow> if \<not> is_number v then Inr False
        else res_bind (get_double v) (\<lambda>a. Inr (fis_finite a \<and> fval a = fval r)))"
proof -
  have r: "fis_finite r" using assms(2) by (simp add: is_double_def)
  have "fle (fabs (fsub b64 a r)) (fmul b64 (Fin 0) (fmax (fmax (Fin 1) (fabs a)) (fabs r))) \<longleftrightarrow> fval a = fval r"
    if "find_key saved key = Some v" "get_double v = Inr a" "fis_finite a" for v a
  proof -
    have "fis_finite (fmax (fmax (Fin 1) (fabs a)) (fabs r))"
      using that(3) r by (intro fmax_finite fabs_finite) (simp_all add: fis_finite_def)
    then show ?thesis using saved_double [OF assms(1) that] assms(2) by (simp add: fle_zero_iff difference_zero_iff)
  qed
  then show ?thesis using r
    by (auto simp: ln_map_number_matches_def Let_def res_bind_def split: option.splits sum.splits)
qed

lemma number_exact:
  assumes "double_numbers saved" "is_double r" "ln_map_number_matches saved key r (Fin 0) = Inr True"
  shows "map_option (map_sum id fval \<circ> get_double) (find_key saved key) = Some (Inr (fval r))"
  using assms(3) unfolding number_matches_iff [OF assms(1,2)]
  by (auto simp: fsd_split split: option.splits if_splits)

lemma number_cong:
  "double_numbers saved \<Longrightarrow> is_double r \<Longrightarrow> is_double r' \<Longrightarrow> fval r = fval r' \<Longrightarrow>
    ln_map_number_matches saved key r (Fin 0) = ln_map_number_matches saved key r' (Fin 0)"
  by (simp add: number_matches_iff split: option.split)

section \<open>A sidecar is accepted for exactly the identity that wrote it\<close>

definition doubles_of :: "ln_generation_identity \<Rightarrow> fl list" where
  "doubles_of d = [lg_bailout d, lg_extra_octaves d, lg_fast_fp32_depth_octaves d, lg_fast_fp64_depth_octaves d,
     lg_fast_validation_band_octaves d, lg_fast_validation_max_mismatch_ratio d,
     lg_fast_validation_max_mean_color_delta d]"

definition ints_of :: "ln_generation_identity \<Rightarrow> int list" where
  "ints_of d = [lg_fast_validation_sample_rows d, lg_fast_validation_sample_cols d,
     lg_fast_validation_max_p99_iter_delta d]"

text \<open>The values of the fields' C++ types, the numbers finite.\<close>

definition typed_identity :: "ln_generation_identity \<Rightarrow> bool" where
  "typed_identity d \<longleftrightarrow> list_all is_double (doubles_of d) \<and> list_all (\<lambda>i. - (2 ^ 31) \<le> i \<and> i < 2 ^ 31) (ints_of d)"

text \<open>Equal requests; \<^verbatim>\<open>==\<close> on doubles identifies the two zeros.\<close>

definition same_identity :: "ln_generation_identity \<Rightarrow> ln_generation_identity \<Rightarrow> bool" where
  "same_identity d q \<longleftrightarrow> map fval (doubles_of d) = map fval (doubles_of q) \<and> ints_of d = ints_of q
     \<and> lg_engine_request d = lg_engine_request q \<and> lg_scalar_request d = lg_scalar_request q
     \<and> lg_fast_validate d = lg_fast_validate q"

lemma put_all_find:
  "is_object j \<Longrightarrow> \<exists>s. put_all es j = Inr s \<and> is_object s \<and>
     find_key s = (\<lambda>k. case map_of (rev es) k of Some v \<Rightarrow> Some v | None \<Rightarrow> find_key j k)"
proof (induction es arbitrary: j)
  case Nil
  then show ?case by simp
next
  case (Cons e es)
  obtain k v where e: "e = (k, v)" by (cases e)
  obtain j' where j': "json_put k v j = Inr j'" using json_put_object [OF Cons.prems] by blast
  then have o: "is_object j'" and f: "find_key j' = (find_key j)(k \<mapsto> v)" using json_put_find by auto
  obtain s where s: "put_all es j' = Inr s" "is_object s"
    "find_key s = (\<lambda>k. case map_of (rev es) k of Some v \<Rightarrow> Some v | None \<Rightarrow> find_key j' k)"
    using Cons.IH [OF o] by blast
  have "find_key s = (\<lambda>k. case map_of (rev (e # es)) k of Some v \<Rightarrow> Some v | None \<Rightarrow> find_key j k)"
    unfolding s(3) f by (auto simp: e map_add_def fun_eq_iff split: option.splits)
  then show ?case using s(1,2) j' by (simp add: e)
qed

lemma integer_matches_int:
  "find_key saved key = Some (JInt i) \<Longrightarrow> - (2 ^ 31) \<le> i \<Longrightarrow> i < 2 ^ 31 \<Longrightarrow>
    ln_map_integer_matches saved key r = Inr (i = r)"
  using wrap_int_id [of 32 i] by (simp add: ln_map_integer_matches_def is_number_integer_def get_int_def)

lemma boolean_matches_bool:
  "find_key saved key = Some (JBool b) \<Longrightarrow> boolean_matches saved key r = Inr (b = r)"
  by (simp add: boolean_matches_def is_boolean_def get_bool_def)

lemma string_matches_string:
  "is_object saved \<Longrightarrow> find_key saved key = Some (JString t) \<Longrightarrow> string_matches saved key r = Inr (t = r)"
  by (simp add: string_matches_def json_value_def get_string_def)

lemma generation_accepts:
  assumes "is_object sidecar" "typed_identity d" "typed_identity q"
  shows "\<exists>s. write_ln_map_generation_identity d sidecar = Inr s
    \<and> (\<exists>m. ln_map_generation_identity_mismatch s q = Inr m \<and> (m = [] \<longleftrightarrow> same_identity d q))"
proof -
  obtain s where s: "write_ln_map_generation_identity d sidecar = Inr s" "is_object s"
    and f: "find_key s = (\<lambda>k. case map_of (rev (generation_entries d)) k of Some v \<Rightarrow> Some v | None \<Rightarrow> find_key sidecar k)"
    using put_all_find [OF assms(1)] by (auto simp: write_ln_map_generation_identity_def)
  note fk = f [THEN fun_cong]
  have D: "is_double x" if "x \<in> set (doubles_of d) \<union> set (doubles_of q)" for x
    using that assms(2,3) by (auto simp: typed_identity_def list_all_iff)
  have I: "- (2 ^ 31) \<le> i \<and> i < 2 ^ 31" if "i \<in> set (ints_of d)" for i
    using that assms(2) by (auto simp: typed_identity_def list_all_iff)
  have num: "ln_map_number_matches s k r (Fin 0) = Inr (fval a = fval r)"
    if "map_of (rev (generation_entries d)) k = Some (JFloat a)" "a \<in> set (doubles_of d)" "r \<in> set (doubles_of q)" for k a r
    using that D by (intro number_matches_float) (auto simp: f)
  have int: "ln_map_integer_matches s k r = Inr (i = r)"
    if "map_of (rev (generation_entries d)) k = Some (JInt i)" "i \<in> set (ints_of d)" for k i r
    using that I by (intro integer_matches_int) (auto simp: f)
  have str: "string_matches s k r = Inr (t = r)" if "map_of (rev (generation_entries d)) k = Some (JString t)" for k t r
    using that s by (intro string_matches_string) (auto simp: f)
  have bool: "boolean_matches s k r = Inr (b = r)" if "map_of (rev (generation_entries d)) k = Some (JBool b)" for k b r
    using that by (intro boolean_matches_bool) (auto simp: f)
  show ?thesis
    using s(1)
    by (simp add: ln_map_generation_identity_mismatch_def num int str bool generation_entries_def doubles_of_def ints_of_def
        same_identity_def)
qed

section \<open>Coordinates\<close>

lemma first_mismatch_accepts: "first_mismatch ms = Inr [] \<Longrightarrow> (n, m) \<in> set ms \<Longrightarrow> n \<noteq> [] \<Longrightarrow>
    list_all (\<lambda>(n, m). n \<noteq> []) ms \<Longrightarrow> m = Inr True"
  by (induction ms) (auto simp: fsd_split split: if_splits)

lemma coordinate_exact:
  "ln_map_coordinate_matches saved nk sk str x = Inr True \<Longrightarrow> json_value get_string saved sk [] = Inr str"
  by (auto simp: ln_map_coordinate_matches_def fsd_split split: if_splits)

lemma string_exact: "string_matches saved k r = Inr True \<Longrightarrow> json_value get_string saved k [] = Inr r"
  by (auto simp: string_matches_def res_bind_def split: sum.splits)

lemma boolean_exact: "boolean_matches saved k r = Inr True \<Longrightarrow> find_key saved k = Some (JBool r)"
  by (auto simp: boolean_matches_def is_boolean_def get_bool_def split: option.splits json.splits if_splits)

lemma integer_exact: "ln_map_integer_matches saved k r = Inr True \<Longrightarrow> map_option (get_int 32) (find_key saved k) = Some (Inr r)"
  by (auto simp: ln_map_integer_matches_def res_bind_def split: option.splits sum.splits if_splits)

lemma identity_fields:
  assumes "ln_map_identity_mismatch saved q = Inr []"
  shows "ln_map_coordinate_matches saved ''centerRe'' ''centerReStr'' (li_center_re_str q) (li_center_re q) = Inr True"
    and "ln_map_coordinate_matches saved ''centerIm'' ''centerImStr'' (li_center_im_str q) (li_center_im q) = Inr True"
    and "boolean_matches saved ''julia'' (li_julia q) = Inr True"
    and "string_matches saved ''variant'' (li_variant q) = Inr True"
    and "ln_map_integer_matches saved ''iterations'' (li_iterations q) = Inr True"
    and "string_matches saved ''colorMap'' (li_color_map q) = Inr True"
    and "string_matches saved ''lnMapColorMode'' (li_color_mode q) = Inr True"
    and "string_matches saved ''precisionMode'' (li_precision_mode q) = Inr True"
    and "li_julia q \<Longrightarrow> ln_map_number_matches saved ''juliaRe'' (li_julia_re q) (Fin 0) = Inr True"
    and "li_julia q \<Longrightarrow> ln_map_number_matches saved ''juliaIm'' (li_julia_im q) (Fin 0) = Inr True"
    and "ln_map_number_matches saved ''bailoutSq'' (li_bailout_sq q) (Fin 0) = Inr True"
    and "ln_map_number_matches saved ''lnMapCyclesPerOctave'' (li_cycles_per_octave q) (Fin 0) = Inr True"
    and "ln_map_number_matches saved ''depthOctaves'' (li_depth_octaves q) (Fin 0) = Inr True"
proof -
  note acc = first_mismatch_accepts [OF assms [unfolded ln_map_identity_mismatch_def]]
  show "ln_map_coordinate_matches saved ''centerRe'' ''centerReStr'' (li_center_re_str q) (li_center_re q) = Inr True"
    by (rule acc [of "''centerRe''"]) auto
  show "ln_map_coordinate_matches saved ''centerIm'' ''centerImStr'' (li_center_im_str q) (li_center_im q) = Inr True"
    by (rule acc [of "''centerIm''"]) auto
  show "boolean_matches saved ''julia'' (li_julia q) = Inr True" by (rule acc [of "''julia''"]) auto
  show "string_matches saved ''variant'' (li_variant q) = Inr True" by (rule acc [of "''variant''"]) auto
  show "ln_map_integer_matches saved ''iterations'' (li_iterations q) = Inr True"
    by (rule acc [of "''iterations''"]) auto
  show "string_matches saved ''colorMap'' (li_color_map q) = Inr True" by (rule acc [of "''colorMap''"]) auto
  show "string_matches saved ''lnMapColorMode'' (li_color_mode q) = Inr True"
    by (rule acc [of "''lnMapColorMode''"]) auto
  show "string_matches saved ''precisionMode'' (li_precision_mode q) = Inr True"
    by (rule acc [of "''precisionMode''"]) auto
  show "li_julia q \<Longrightarrow> ln_map_number_matches saved ''juliaRe'' (li_julia_re q) (Fin 0) = Inr True"
    by (rule acc [of "''juliaRe''"]) auto
  show "li_julia q \<Longrightarrow> ln_map_number_matches saved ''juliaIm'' (li_julia_im q) (Fin 0) = Inr True"
    by (rule acc [of "''juliaIm''"]) auto
  show "ln_map_number_matches saved ''bailoutSq'' (li_bailout_sq q) (Fin 0) = Inr True"
    by (rule acc [of "''bailoutSq''"]) auto
  show "ln_map_number_matches saved ''lnMapCyclesPerOctave'' (li_cycles_per_octave q) (Fin 0) = Inr True"
    by (rule acc [of "''lnMapCyclesPerOctave''"]) auto
  show "ln_map_number_matches saved ''depthOctaves'' (li_depth_octaves q) (Fin 0) = Inr True"
    by (rule acc [of "''depthOctaves''"]) auto
qed

text \<open>The numbers of a request are doubles.\<close>

definition typed_request :: "ln_identity \<Rightarrow> bool" where
  "typed_request q \<longleftrightarrow> list_all is_double [li_center_re q, li_center_im q, li_julia_re q, li_julia_im q,
     li_bailout_sq q, li_cycles_per_octave q, li_depth_octaves q]"

text \<open>
  The requests for one map: a centre is its decimal string, or its number when no string is given; the
  parameter counts for a Julia set only; numbers are equal as numbers, everything else exactly.
\<close>

definition same_map :: "ln_identity \<Rightarrow> ln_identity \<Rightarrow> bool" where
  "same_map q q' \<longleftrightarrow>
     li_center_re_str q = li_center_re_str q' \<and> (li_center_re_str q = [] \<longrightarrow> fval (li_center_re q) = fval (li_center_re q'))
     \<and> li_center_im_str q = li_center_im_str q' \<and> (li_center_im_str q = [] \<longrightarrow> fval (li_center_im q) = fval (li_center_im q'))
     \<and> li_julia q = li_julia q'
     \<and> (li_julia q \<longrightarrow> fval (li_julia_re q) = fval (li_julia_re q') \<and> fval (li_julia_im q) = fval (li_julia_im q'))
     \<and> li_variant q = li_variant q' \<and> li_iterations q = li_iterations q'
     \<and> fval (li_bailout_sq q) = fval (li_bailout_sq q')
     \<and> li_color_map q = li_color_map q' \<and> li_color_mode q = li_color_mode q'
     \<and> fval (li_cycles_per_octave q) = fval (li_cycles_per_octave q')
     \<and> fval (li_depth_octaves q) = fval (li_depth_octaves q')
     \<and> li_precision_mode q = li_precision_mode q'"

lemma coordinate_number_exact:
  "ln_map_coordinate_matches saved nk sk [] x = Inr True \<Longrightarrow> ln_map_number_matches saved nk x (Fin 0) = Inr True"
  by (auto simp: ln_map_coordinate_matches_def fsd_split split: if_splits)

lemma coordinate_cong:
  assumes "double_numbers saved" "is_double x" "is_double x'" "str = [] \<longrightarrow> fval x = fval x'"
  shows "ln_map_coordinate_matches saved nk sk str x = ln_map_coordinate_matches saved nk sk str x'"
proof -
  have n: "str = [] \<Longrightarrow> ln_map_number_matches saved nk x (Fin 0) = ln_map_number_matches saved nk x' (Fin 0)"
    using number_cong [OF assms(1-3)] assms(4) by simp
  then show ?thesis
    by (cases "json_value get_string saved sk []") (auto simp: ln_map_coordinate_matches_def)
qed

text \<open>The comparison does not distinguish the requests for one map.\<close>

lemma mismatch_cong:
  assumes "double_numbers saved" "typed_request q" "typed_request q'" "same_map q q'"
  shows "ln_map_identity_mismatch saved q = ln_map_identity_mismatch saved q'"
proof -
  have n: "ln_map_number_matches saved k (f q) (Fin 0) = ln_map_number_matches saved k (f q') (Fin 0)"
    if "is_double (f q)" "is_double (f q')" "fval (f q) = fval (f q')" for k f
    using number_cong [OF assms(1) that] .
  have t: "is_double (li_center_re p)" "is_double (li_center_im p)" "is_double (li_julia_re p)" "is_double (li_julia_im p)"
    "is_double (li_bailout_sq p)" "is_double (li_cycles_per_octave p)" "is_double (li_depth_octaves p)"
    if "p = q \<or> p = q'" for p
    using that assms(2,3) by (auto simp: typed_request_def)
  note sm = assms(4) [unfolded same_map_def]
  have c: "ln_map_coordinate_matches saved ''centerRe'' ''centerReStr'' (li_center_re_str q) (li_center_re q)
      = ln_map_coordinate_matches saved ''centerRe'' ''centerReStr'' (li_center_re_str q') (li_center_re q')"
    "ln_map_coordinate_matches saved ''centerIm'' ''centerImStr'' (li_center_im_str q) (li_center_im q)
      = ln_map_coordinate_matches saved ''centerIm'' ''centerImStr'' (li_center_im_str q') (li_center_im q')"
    using coordinate_cong [OF assms(1) t(1) t(1)] coordinate_cong [OF assms(1) t(2) t(2)] sm by metis+
  have j: "li_julia q \<Longrightarrow> ln_map_number_matches saved ''juliaRe'' (li_julia_re q) (Fin 0)
        = ln_map_number_matches saved ''juliaRe'' (li_julia_re q') (Fin 0)"
    "li_julia q \<Longrightarrow> ln_map_number_matches saved ''juliaIm'' (li_julia_im q) (Fin 0)
        = ln_map_number_matches saved ''juliaIm'' (li_julia_im q') (Fin 0)"
    using sm by (auto intro!: n t)
  have r: "ln_map_number_matches saved k (li_bailout_sq q) (Fin 0) = ln_map_number_matches saved k (li_bailout_sq q') (Fin 0)"
    "ln_map_number_matches saved k (li_cycles_per_octave q) (Fin 0)
      = ln_map_number_matches saved k (li_cycles_per_octave q') (Fin 0)"
    "ln_map_number_matches saved k (li_depth_octaves q) (Fin 0)
      = ln_map_number_matches saved k (li_depth_octaves q') (Fin 0)" for k
    using sm by (auto intro!: n t)
  show ?thesis
    unfolding ln_map_identity_mismatch_def c r using sm j by (cases "li_julia q") simp_all
qed

lemma accepted_same_map:
  assumes "double_numbers saved" "typed_request q" "typed_request q'"
    and "ln_map_identity_mismatch saved q = Inr []" "ln_map_identity_mismatch saved q' = Inr []"
  shows "same_map q q'"
proof -
  note f = identity_fields [OF assms(4)] and f' = identity_fields [OF assms(5)]
  note e = coordinate_exact [OF f(1)] coordinate_exact [OF f(2)] boolean_exact [OF f(3)] string_exact [OF f(4)]
    integer_exact [OF f(5)] string_exact [OF f(6)] string_exact [OF f(7)] string_exact [OF f(8)]
  note e' = coordinate_exact [OF f'(1)] coordinate_exact [OF f'(2)] boolean_exact [OF f'(3)] string_exact [OF f'(4)]
    integer_exact [OF f'(5)] string_exact [OF f'(6)] string_exact [OF f'(7)] string_exact [OF f'(8)]
  have n: "fval a = fval b"
    if "ln_map_number_matches saved k a (Fin 0) = Inr True" "ln_map_number_matches saved k b (Fin 0) = Inr True"
      "is_double a" "is_double b" for k a b
    using number_exact [OF assms(1) that(3,1)] number_exact [OF assms(1) that(4,2)] by simp
  have str: "li_center_re_str q = li_center_re_str q'" "li_center_im_str q = li_center_im_str q'" "li_julia q = li_julia q'"
    "li_variant q = li_variant q'" "li_iterations q = li_iterations q'" "li_color_map q = li_color_map q'"
    "li_color_mode q = li_color_mode q'" "li_precision_mode q = li_precision_mode q'"
    using e unfolding e' by simp_all
  have c: "fval (li_center_re q) = fval (li_center_re q')" if "li_center_re_str q = []"
    using coordinate_number_exact f(1) f'(1) str(1) that assms(2,3) by (intro n) (auto simp: typed_request_def)
  have d: "fval (li_center_im q) = fval (li_center_im q')" if "li_center_im_str q = []"
    using coordinate_number_exact f(2) f'(2) str(2) that assms(2,3) by (intro n) (auto simp: typed_request_def)
  have j: "fval (li_julia_re q) = fval (li_julia_re q')" "fval (li_julia_im q) = fval (li_julia_im q')" if "li_julia q"
    using n [OF f(9) f'(9)] n [OF f(10) f'(10)] that str(3) assms(2,3) by (auto simp: typed_request_def)
  have r: "fval (li_bailout_sq q) = fval (li_bailout_sq q')" "fval (li_cycles_per_octave q) = fval (li_cycles_per_octave q')"
    "fval (li_depth_octaves q) = fval (li_depth_octaves q')"
    using n [OF f(11) f'(11)] n [OF f(12) f'(12)] n [OF f(13) f'(13)] assms(2,3) by (auto simp: typed_request_def)
  show ?thesis unfolding same_map_def using str c d j r by blast
qed

section \<open>Properties\<close>

text \<open>
  C18: reuse is exact. The sidecar that is written for an identity can be compared with every request
  without an exception, and it is accepted for exactly the requests whose fields are equal, number by
  number; no rounding lets a different request pass.
\<close>

theorem sidecar_accepts_exactly:
  assumes "is_object sidecar" "typed_identity d" "typed_identity q"
  shows "\<exists>s. write_ln_map_generation_identity d sidecar = Inr s
    \<and> (\<exists>m. ln_map_generation_identity_mismatch s q = Inr m \<and> (m = [] \<longleftrightarrow> same_identity d q))"
  using assms by (rule generation_accepts)

lemma default_typed: "typed_identity (default_ln_generation_identity\<lparr>lg_fast_validation_max_mismatch_ratio := Fin 1\<rparr>)"
proof -
  have "is_double (Fin (of_int i))" if "\<bar>i\<bar> < 100" for i
  proof -
    have "(of_int i :: rat) = of_int (i * 2 ^ 1074) * 2 powi (- 1074)" by (simp add: power_int_minus)
    moreover have "\<bar>of_int i :: rat\<bar> < 2 powi 1024"
    proof -
      have "\<bar>of_int i :: rat\<bar> < 100" using that by (metis of_int_abs of_int_less_iff of_int_numeral)
      then show ?thesis by simp
    qed
    ultimately have "(\<exists>m. (of_int i :: rat) = of_int m * 2 powi (- 1074)) \<and> \<bar>of_int i :: rat\<bar> < 2 powi 1024" by blast
    then show ?thesis by (simp only: is_double_def b64_def fval_def fis_finite_def fl.case fmt.simps simp_thms)
  qed
  from this [of 1] this [of 2] this [of 4] this [of 7] this [of 8] this [of 18] this [of 34]
  show ?thesis by (simp add: typed_identity_def doubles_of_def ints_of_def default_ln_generation_identity_def)
qed

theorem sidecar_accepts_exactly_witness:
  "\<exists>d s. write_ln_map_generation_identity d (JObject []) = Inr s
    \<and> ln_map_generation_identity_mismatch s d = Inr []
    \<and> ln_map_generation_identity_mismatch s (d\<lparr>lg_engine_request := ''cuda''\<rparr>) \<noteq> Inr []"
proof -
  let ?d = "default_ln_generation_identity\<lparr>lg_fast_validation_max_mismatch_ratio := Fin 1\<rparr>"
  have o: "is_object (JObject [])" by (simp add: is_object_def)
  have t: "typed_identity (?d\<lparr>lg_engine_request := ''cuda''\<rparr>)"
    using default_typed by (simp add: typed_identity_def doubles_of_def ints_of_def)
  have same: "same_identity ?d ?d" and other: "\<not> same_identity ?d (?d\<lparr>lg_engine_request := ''cuda''\<rparr>)"
    by (simp_all add: same_identity_def default_ln_generation_identity_def)
  obtain s where s: "write_ln_map_generation_identity ?d (JObject []) = Inr s"
    "ln_map_generation_identity_mismatch s ?d = Inr []"
    using sidecar_accepts_exactly [OF o default_typed default_typed] same by auto
  with sidecar_accepts_exactly [OF o default_typed t] other
  have "ln_map_generation_identity_mismatch s (?d\<lparr>lg_engine_request := ''cuda''\<rparr>) \<noteq> Inr []" by auto
  with s show ?thesis by blast
qed

text \<open>
  C38: one map per sidecar. When a sidecar accepts a request, it accepts another request exactly when the
  two are for the same map: they agree on every part of the identity, a centre given as a decimal string by
  its string, whatever double the string rounds to, and every number exactly.
\<close>

theorem accepted_requests_agree:
  assumes "double_numbers saved" "typed_request q" "typed_request q'"
    and "ln_map_identity_mismatch saved q = Inr []"
  shows "ln_map_identity_mismatch saved q' = Inr [] \<longleftrightarrow> same_map q q'"
  using accepted_same_map [OF assms] mismatch_cong [OF assms(1-3)] assms(4) by auto

definition sample_sidecar :: json where
  "sample_sidecar = JObject [(''bailoutSq'', JInt 0), (''centerImStr'', JString ''0.1''), (''centerReStr'', JString ''0.2''),
     (''colorMap'', JString ''inferno''), (''depthOctaves'', JInt 0), (''iterations'', JInt 100), (''julia'', JBool False),
     (''lnMapColorMode'', JString ''m''), (''lnMapCyclesPerOctave'', JInt 0), (''precisionMode'', JString ''fast''),
     (''variant'', JString ''mandelbrot'')]"

definition sample_identity :: "fl \<Rightarrow> ln_identity" where
  "sample_identity re = \<lparr>li_center_re_str = ''0.2'', li_center_im_str = ''0.1'', li_center_re = re, li_center_im = Fin 0,
     li_julia = False, li_julia_re = Fin 0, li_julia_im = Fin 0, li_variant = ''mandelbrot'', li_iterations = 100,
     li_bailout_sq = Fin 0, li_color_map = ''inferno'', li_color_mode = ''m'', li_cycles_per_octave = Fin 0,
     li_depth_octaves = Fin 0, li_precision_mode = ''fast''\<rparr>"

lemma sample_zero: "find_key saved key = Some (JInt 0) \<Longrightarrow> ln_map_number_matches saved key (Fin 0) (Fin 0) = Inr True"
proof -
  assume k: "find_key saved key = Some (JInt 0)"
  have z: "f_of_int b64 0 = Fin 0" "fsub b64 (Fin 0) (Fin 0) = Fin 0"
    by (simp_all add: f_of_int_def fsub_def fadd_def fval_def rnd_def)
  have m: "fmul b64 (Fin 0) (Fin 1) = Fin 0"
    by (simp add: fmul_def fis_finite_def fval_def signed_zero_def fsign_def)
  have x: "fmax (fmax (Fin 1) (Fin 0)) (Fin 0) = Fin 1" by (simp add: fmax_def)
  have f: "fis_finite (Fin 0)" by (simp add: fis_finite_def)
  show ?thesis
    by (simp add: ln_map_number_matches_def is_number_def get_double_def k z m x f)
qed

lemma sample_keys:
  "find_key sample_sidecar ''bailoutSq'' = Some (JInt 0)" "find_key sample_sidecar ''depthOctaves'' = Some (JInt 0)"
  "find_key sample_sidecar ''lnMapCyclesPerOctave'' = Some (JInt 0)"
  "find_key sample_sidecar ''centerReStr'' = Some (JString ''0.2'')"
  "find_key sample_sidecar ''centerImStr'' = Some (JString ''0.1'')"
  "find_key sample_sidecar ''julia'' = Some (JBool False)" "find_key sample_sidecar ''iterations'' = Some (JInt 100)"
  "find_key sample_sidecar ''variant'' = Some (JString ''mandelbrot'')"
  "find_key sample_sidecar ''colorMap'' = Some (JString ''inferno'')"
  "find_key sample_sidecar ''lnMapColorMode'' = Some (JString ''m'')"
  "find_key sample_sidecar ''precisionMode'' = Some (JString ''fast'')"
  by (simp_all add: sample_sidecar_def find_key_def items_def)

lemma sample_object: "is_object sample_sidecar"
  by (simp add: sample_sidecar_def is_object_def)

lemma sample_accepted: "ln_map_identity_mismatch sample_sidecar (sample_identity re) = Inr []"
  by (simp add: ln_map_identity_mismatch_def sample_identity_def sample_keys sample_object sample_zero
      ln_map_coordinate_matches_def json_value_def get_string_def boolean_matches_def is_boolean_def get_bool_def
      string_matches_def ln_map_integer_matches_def is_number_integer_def get_int_def wrap_int_def)

lemma sample_typed:
  "double_numbers sample_sidecar" "typed_request (sample_identity (Fin 0))" "typed_request (sample_identity NegZero)"
proof -
  have "(0::rat) = of_int 0 * 2 powi (- 1074)" by simp
  then have "is_double (Fin 0)" "is_double NegZero"
    by (auto simp: is_double_def fis_finite_def fval_def b64_def simp del: of_int_0)
  then show "typed_request (sample_identity (Fin 0))" "typed_request (sample_identity NegZero)"
    by (simp_all add: typed_request_def sample_identity_def)
  show "double_numbers sample_sidecar"
    by (auto simp: double_numbers_def sample_sidecar_def find_key_def items_def split: if_splits)
qed

theorem accepted_requests_agree_witness:
  "ln_map_identity_mismatch sample_sidecar (sample_identity NegZero) = Inr []
   \<and> ln_map_identity_mismatch sample_sidecar ((sample_identity (Fin 0))\<lparr>li_center_re_str := ''0.20''\<rparr>) \<noteq> Inr []"
proof -
  have t: "typed_request ((sample_identity (Fin 0))\<lparr>li_center_re_str := ''0.20''\<rparr>)"
    using sample_typed(2) by (simp add: typed_request_def)
  show ?thesis
    using accepted_requests_agree [OF sample_typed(1,2) sample_typed(3) sample_accepted]
      accepted_requests_agree [OF sample_typed(1,2) t sample_accepted]
    by (simp add: same_map_def sample_identity_def)
qed

end
