(* ===== verification/ColorProgram.thy ===== *)
theory ColorProgram
  imports JsonValue
begin

text \<open>
  Colour programs (\<^verbatim>\<open>compute/color_program.cpp\<close>, \<^verbatim>\<open>compute/color_program_json.cpp\<close>): gradients that a
  client submits as JSON. The reader accepts only valid gradients, and a valid gradient gives every input a
  colour between the colours of two neighbouring stops.
\<close>

section \<open>Programs\<close>

type_synonym u8 = "8 word"

record program_color =
  pc_r :: u8
  pc_g :: u8
  pc_b :: u8

record program_color_stop =
  st_at :: fl
  st_color :: program_color

datatype color_wrap = Wrap_Clamp | Wrap_Repeat | Wrap_Mirror

record color_program =
  cp_stops :: "program_color_stop list"
  cp_wrap :: color_wrap
  cp_cycles :: fl
  cp_phase :: fl
  cp_interior :: program_color
  cp_invalid :: program_color

section \<open>Evaluation\<close>

definition wrapped :: "fl \<Rightarrow> color_wrap \<Rightarrow> fl" where
  "wrapped x wrap =
    (case wrap of
       Wrap_Clamp \<Rightarrow> fclamp x (Fin 0) (Fin 1)
     | Wrap_Repeat \<Rightarrow>
         let result = fsub b64 x (ffloor x) in if flt result (Fin 0) then fadd b64 result (Fin 1) else result
     | Wrap_Mirror \<Rightarrow>
         let result = ffmod x (Fin 2);
             result = (if flt result (Fin 0) then fadd b64 result (Fin 2) else result)
         in if fle result (Fin 1) then result else fsub b64 (Fin 2) result)"

text \<open>\<^verbatim>\<open>std::lround\<close> of a value outside the range of \<^verbatim>\<open>long\<close> is unspecified: \<open>None\<close>.\<close>

definition mix_channel :: "u8 \<Rightarrow> u8 \<Rightarrow> fl \<Rightarrow> u8 option" where
  "mix_channel left right amount =
    (let mixed = fadd b64 (fmul b64 (f_of_int b64 (uint left)) (fsub b64 (Fin 1) amount))
                   (fmul b64 (f_of_int b64 (uint right)) amount)
     in map_option (\<lambda>i. word_of_int (max 0 (min 255 (wrap_int 32 i)))) (fllround mixed))"

definition mix_stops :: "program_color_stop \<Rightarrow> program_color_stop \<Rightarrow> fl \<Rightarrow> program_color option" where
  "mix_stops left right x =
    (let width = fmax (rnd b64 (1 / 10 ^ 12)) (fsub b64 (st_at right) (st_at left));
         amount = fclamp (fdiv b64 (fsub b64 x (st_at left)) width) (Fin 0) (Fin 1);
         l = st_color left; r = st_color right
     in Option.bind (mix_channel (pc_r l) (pc_r r) amount) (\<lambda>cr.
        Option.bind (mix_channel (pc_g l) (pc_g r) amount) (\<lambda>cg.
        Option.bind (mix_channel (pc_b l) (pc_b r) amount) (\<lambda>cb.
        Some \<lparr>pc_r = cr, pc_g = cg, pc_b = cb\<rparr>))))"

fun find_stop :: "fl \<Rightarrow> program_color_stop \<Rightarrow> program_color_stop list \<Rightarrow> program_color option" where
  "find_stop x left [] = Some (st_color left)"
| "find_stop x left (right # stops) =
    (if fle x (st_at right) then mix_stops left right x else find_stop x right stops)"

definition colorize :: "color_program \<Rightarrow> fl \<Rightarrow> program_color option" where
  "colorize p input =
    (if \<not> fis_finite input then Some (cp_invalid p)
     else case cp_stops p of
       first # second # stops \<Rightarrow>
         (let x = wrapped (fadd b64 (fmul b64 input (cp_cycles p)) (cp_phase p)) (cp_wrap p)
          in if fle x (st_at first) then Some (st_color first) else find_stop x first (second # stops))
     | _ \<Rightarrow> Some (cp_invalid p))"

definition colorize_interior :: "color_program \<Rightarrow> program_color" where
  "colorize_interior p = cp_interior p"

definition colorize_invalid :: "color_program \<Rightarrow> program_color" where
  "colorize_invalid p = cp_invalid p"

section \<open>The reader\<close>

definition color_hex_digit :: "char \<Rightarrow> int" where
  "color_hex_digit c =
    (let n = int (char_code c) in
     if 48 \<le> n \<and> n \<le> 57 then n - 48
     else if 97 \<le> n \<and> n \<le> 102 then 10 + n - 97
     else if 65 \<le> n \<and> n \<le> 70 then 10 + n - 65 else - 1)"

definition color_byte :: "string \<Rightarrow> nat \<Rightarrow> int option" where
  "color_byte s i =
    (let high = color_hex_digit (s ! (1 + i * 2)); low = color_hex_digit (s ! (2 + i * 2))
     in if high < 0 \<or> low < 0 then None else Some (high * 16 + low))"

definition parse_color :: "json \<Rightarrow> string \<Rightarrow> program_color res" where
  "parse_color j field =
    (case j of
       JString s \<Rightarrow>
         if length s \<noteq> 7 \<or> s ! 0 \<noteq> CHR ''#'' then Inl (RuntimeError (field @ '' must be #RRGGBB''))
         else (case (color_byte s 0, color_byte s 1, color_byte s 2) of
                 (Some r, Some g, Some b) \<Rightarrow>
                   Inr \<lparr>pc_r = word_of_int r, pc_g = word_of_int g, pc_b = word_of_int b\<rparr>
               | _ \<Rightarrow> Inl (RuntimeError (field @ '' must be #RRGGBB'')))
     | _ \<Rightarrow> Inl (RuntimeError (field @ '' must be #RRGGBB'')))"

fun reject_unknown :: "(string \<times> json) list \<Rightarrow> string list \<Rightarrow> string \<Rightarrow> unit res" where
  "reject_unknown [] allowed object_name = Inr ()"
| "reject_unknown ((name, v) # m) allowed object_name =
    (if name \<notin> set allowed then Inl (RuntimeError (object_name @ '' contains unknown field: '' @ name))
     else reject_unknown m allowed object_name)"

definition parse_stop :: "json \<Rightarrow> fl \<Rightarrow> program_color_stop res" where
  "parse_stop j previous =
    throw_if (\<not> is_object j) (RuntimeError ''color stop must be an object'')
    (res_bind (reject_unknown (items j) [''at'', ''color''] ''color stop'') (\<lambda>_.
     case (find_key j ''at'', find_key j ''color'') of
       (Some a, Some c) \<Rightarrow>
         throw_if (\<not> is_number a) (RuntimeError ''color stop requires numeric at and #RRGGBB color'')
         (res_bind (get_double a) (\<lambda>x.
          throw_if (\<not> fis_finite x \<or> flt x (Fin 0) \<or> flt (Fin 1) x \<or> fle x previous)
            (RuntimeError ''color stop positions must be finite and strictly increasing in [0,1]'')
          (res_bind (parse_color c ''color stop color'') (\<lambda>color. Inr \<lparr>st_at = x, st_color = color\<rparr>))))
     | _ \<Rightarrow> Inl (RuntimeError ''color stop requires numeric at and #RRGGBB color'')))"

fun parse_stops :: "json list \<Rightarrow> fl \<Rightarrow> program_color_stop list res" where
  "parse_stops [] previous = Inr []"
| "parse_stops (j # js) previous =
    res_bind (parse_stop j previous) (\<lambda>s. res_bind (parse_stops js (st_at s)) (\<lambda>ss. Inr (s # ss)))"

definition wrap_of :: "string \<Rightarrow> color_wrap res" where
  "wrap_of name =
    (if name = ''repeat'' then Inr Wrap_Repeat
     else if name = ''mirror'' then Inr Wrap_Mirror
     else if name \<noteq> ''clamp'' then Inl (RuntimeError ''colorProgram.wrap must be clamp, repeat, or mirror'')
     else Inr Wrap_Clamp)"

definition color_or :: "program_color \<Rightarrow> json \<Rightarrow> string \<Rightarrow> string \<Rightarrow> program_color res" where
  "color_or d j key field = (case find_key j key of None \<Rightarrow> Inr d | Some c \<Rightarrow> parse_color c field)"

definition parse_stop_list :: "json \<Rightarrow> program_color_stop list res" where
  "parse_stop_list j =
    (case find_key j ''stops'' of
       None \<Rightarrow> Inl (RuntimeError ''colorProgram.stops must contain 2..16 entries'')
     | Some a \<Rightarrow>
         throw_if (\<not> is_array a \<or> length (elements a) < 2 \<or> length (elements a) > 16)
           (RuntimeError ''colorProgram.stops must contain 2..16 entries'')
         (res_bind (parse_stops (elements a) (Fin (- 1))) (\<lambda>stops.
          throw_if (\<not> feq (st_at (hd stops)) (Fin 0) \<or> \<not> feq (st_at (last stops)) (Fin 1))
            (RuntimeError ''colorProgram stops must start at 0 and end at 1'')
          (Inr stops))))"

definition parse_color_program_json :: "json \<Rightarrow> color_program res" where
  "parse_color_program_json j =
    throw_if (\<not> is_object j) (RuntimeError ''colorProgram must be an object'')
    (res_bind (reject_unknown (items j) [''schemaVersion'', ''type'', ''interpolation'', ''wrap'', ''cycles'',
        ''phase'', ''interiorColor'', ''invalidColor'', ''stops''] ''colorProgram'') (\<lambda>_.
     res_bind (json_value (get_int 32) j ''schemaVersion'' 0) (\<lambda>version.
     throw_if (version \<noteq> 1) (RuntimeError ''colorProgram.schemaVersion must be 1'')
     (res_bind (json_value get_string j ''type'' []) (\<lambda>type.
     throw_if (type \<noteq> ''gradient'') (RuntimeError ''colorProgram.type must be gradient'')
     (res_bind (json_value get_string j ''interpolation'' ''rgb'') (\<lambda>interpolation.
     throw_if (interpolation \<noteq> ''rgb'') (RuntimeError ''colorProgram.interpolation must be rgb'')
     (res_bind (json_value get_string j ''wrap'' ''clamp'') (\<lambda>wrap_name.
     res_bind (wrap_of wrap_name) (\<lambda>wrap.
     res_bind (json_value get_double j ''cycles'' (Fin 1)) (\<lambda>cycles.
     res_bind (json_value get_double j ''phase'' (Fin 0)) (\<lambda>phase.
     throw_if (\<not> flt (Fin 0) cycles \<or> flt (Fin 256) cycles \<or> \<not> fis_finite cycles)
       (RuntimeError ''colorProgram.cycles must be finite and in (0,256]'')
     (throw_if (\<not> fis_finite phase) (RuntimeError ''colorProgram.phase must be finite'')
     (res_bind (color_or \<lparr>pc_r = 255, pc_g = 255, pc_b = 255\<rparr> j ''interiorColor'' ''colorProgram.interiorColor'') (\<lambda>interior.
     res_bind (color_or \<lparr>pc_r = 255, pc_g = 0, pc_b = 255\<rparr> j ''invalidColor'' ''colorProgram.invalidColor'') (\<lambda>invalid.
     res_bind (parse_stop_list j) (\<lambda>stops.
     Inr \<lparr>cp_stops = stops, cp_wrap = wrap, cp_cycles = cycles, cp_phase = phase, cp_interior = interior,
       cp_invalid = invalid\<rparr>)))))))))))))))))"

section \<open>Rounding errors of small operands\<close>

text \<open>Two finite values are near when they differ by at most \<open>2 ^ -43\<close>, half a unit in the last place at 1024.\<close>

definition eps :: rat where "eps = 1 / 2 ^ 43"

lemma eps_bounds: "0 < eps" "eps \<le> 1 / 1000000000" by (simp_all add: eps_def)

lemma rnd_near:
  assumes "\<bar>x\<bar> < 1024"
  shows "fis_finite (rnd b64 x)" "\<bar>fval (rnd b64 x) - x\<bar> \<le> eps"
proof -
  have e: "\<bar>rnd_rat b64 x - x\<bar> \<le> eps" if "x \<noteq> 0"
  proof -
    have "\<bar>x\<bar> < 2 powi 10" using assms by simp
    then have "quantum b64 x \<le> 10 - prec b64" using that by (intro quantum_le) (simp_all add: b64_def)
    then have "quantum b64 x \<le> - 43" by (simp add: b64_def)
    then have "(2::rat) powi quantum b64 x \<le> 2 powi (- 43)" by (simp only: two_powi_le_iff)
    moreover have "(2::rat) powi (- 43) = eps" by (simp add: eps_def)
    ultimately have "2 powi quantum b64 x / 2 \<le> eps" using two_powi_pos [of "quantum b64 x"] by linarith
    then show ?thesis using rnd_rat_error [of b64 x] by linarith
  qed
  have small: "\<bar>rnd_rat b64 x\<bar> < 2 powi emax b64" if "x \<noteq> 0"
  proof -
    have "\<bar>rnd_rat b64 x\<bar> \<le> 1025" using e [OF that] assms eps_bounds by linarith
    also have "(1025::rat) < 2 powi emax b64" by (simp add: b64_def)
    finally show ?thesis .
  qed
  show "fis_finite (rnd b64 x)" using small by (auto simp: rnd_def Let_def fis_finite_def not_le [symmetric])
  show "\<bar>fval (rnd b64 x) - x\<bar> \<le> eps"
    using e small by (auto simp: rnd_def Let_def fval_def eps_def not_le [symmetric])
qed

lemma fadd_near:
  assumes "fis_finite a" "fis_finite b" "\<bar>fval a + fval b\<bar> < 1024"
  shows "fis_finite (fadd b64 a b)" "\<bar>fval (fadd b64 a b) - (fval a + fval b)\<bar> \<le> eps"
  using rnd_near [OF assms(3)] assms(1,2) eps_bounds(1)
  by (cases a; cases b; auto simp: fadd_def fis_finite_def fval_def)+

lemma fmul_near:
  assumes "fis_finite a" "fis_finite b" "\<bar>fval a * fval b\<bar> < 1024"
  shows "fis_finite (fmul b64 a b)" "\<bar>fval (fmul b64 a b) - fval a * fval b\<bar> \<le> eps"
proof -
  have n: "a \<noteq> NaN" "b \<noteq> NaN" using assms(1,2) by (auto simp: fis_finite_def)
  have z: "fis_finite (signed_zero s)" "fval (signed_zero s) = 0" for s
    by (simp_all add: signed_zero_def fis_finite_def fval_def)
  show "fis_finite (fmul b64 a b)" "\<bar>fval (fmul b64 a b) - fval a * fval b\<bar> \<le> eps"
    using rnd_near [OF assms(3)] assms(1,2) n z eps_bounds(1) by (simp_all add: fmul_def Let_def)
qed

lemma fneg_finite: "fis_finite b \<Longrightarrow> fis_finite (fneg b) \<and> fval (fneg b) = - fval b"
  by (cases b) (auto simp: fis_finite_def fval_def)

lemma fsub_near:
  assumes "fis_finite a" "fis_finite b" "\<bar>fval a - fval b\<bar> < 1024"
  shows "fis_finite (fsub b64 a b)" "\<bar>fval (fsub b64 a b) - (fval a - fval b)\<bar> \<le> eps"
  using fadd_near [of a "fneg b"] fneg_finite [OF assms(2)] assms by (simp_all add: fsub_def)

section \<open>Mixing stays between its ends\<close>

lemma u8_double: "fis_finite (f_of_int b64 (uint (x :: u8)))" "fval (f_of_int b64 (uint (x :: u8))) = of_int (uint x)"
proof -
  have "0 \<le> uint x" "uint x < 2 ^ 8" using uint_lt2p [of x] by simp_all
  then have "\<bar>uint x\<bar> < 2 ^ nat (prec b64)" by (simp add: b64_def)
  then have "rnd b64 (of_int (uint x)) = Fin (of_int (uint x))" by (rule rnd_int) (simp_all add: b64_def)
  then show "fis_finite (f_of_int b64 (uint x))" "fval (f_of_int b64 (uint x)) = of_int (uint x)"
    by (simp_all add: f_of_int_def fis_finite_def fval_def)
qed

lemma round_between:
  assumes "of_int m - 1 / 2 < x" "x < of_int n + (1 / 2 :: rat)" "0 \<le> m"
  shows "m \<le> rat_round_away x \<and> rat_round_away x \<le> n"
proof (cases "0 \<le> x")
  case True
  have "m \<le> \<lfloor>x + 1 / 2\<rfloor>" "\<lfloor>x + 1 / 2\<rfloor> \<le> n" using assms(1,2) by linarith+
  then show ?thesis using True by (simp add: rat_round_away_def)
next
  case False
  have "(of_int m :: rat) < 1" using assms(1) False by linarith
  then have m: "m = 0" using assms(3) by linarith
  have "\<lfloor>- x + 1 / 2\<rfloor> = 0" using assms(1) False m by linarith
  moreover have "(- 1 :: rat) < of_int n" using assms(1,2) m by simp
  then have "0 \<le> n" by linarith
  ultimately show ?thesis using False m by (simp add: rat_round_away_def)
qed

lemma convex_between:
  fixes l r a :: rat
  assumes "0 \<le> a" "a \<le> 1"
  shows "min l r \<le> l * (1 - a) + r * a" "l * (1 - a) + r * a \<le> max l r"
proof -
  have "min l r * (1 - a) + min l r * a \<le> l * (1 - a) + r * a"
    using assms by (intro add_mono mult_right_mono) auto
  then show "min l r \<le> l * (1 - a) + r * a" by (simp add: algebra_simps)
  have "l * (1 - a) + r * a \<le> max l r * (1 - a) + max l r * a"
    using assms by (intro add_mono mult_right_mono) auto
  then show "l * (1 - a) + r * a \<le> max l r" by (simp add: algebra_simps)
qed

lemma mixed_near:
  fixes l r :: u8
  assumes "fis_finite amount" "0 \<le> fval amount" "fval amount \<le> 1"
  defines "mixed \<equiv> fadd b64 (fmul b64 (f_of_int b64 (uint l)) (fsub b64 (Fin 1) amount))
      (fmul b64 (f_of_int b64 (uint r)) amount)"
  shows "fis_finite mixed"
    "\<bar>fval mixed - (of_int (uint l) * (1 - fval amount) + of_int (uint r) * fval amount)\<bar> < 1 / 4"
proof -
  define L R a where "L = (of_int (uint l) :: rat)" and "R = (of_int (uint r) :: rat)" and "a = fval amount"
  have bl: "0 \<le> L" "L \<le> 255" and br: "0 \<le> R" "R \<le> 255"
  proof -
    have "0 \<le> uint l" "uint l \<le> 255" "0 \<le> uint r" "uint r \<le> 255" using uint_lt2p [of l] uint_lt2p [of r] by auto
    then show "0 \<le> L" "L \<le> 255" "0 \<le> R" "R \<le> 255" unfolding L_def R_def by linarith+
  qed
  have a: "0 \<le> a" "a \<le> 1" using assms by (simp_all add: a_def)
  define t where "t = fsub b64 (Fin 1) amount"
  have one: "fis_finite (Fin 1)" "fval (Fin 1) = 1" by (simp_all add: fis_finite_def fval_def)
  have t: "fis_finite t" "\<bar>fval t - (1 - a)\<bar> \<le> eps"
    using fsub_near [OF one(1) assms(1)] one a unfolding t_def a_def by auto
  have tb: "\<bar>fval t\<bar> \<le> 2" using t(2) a eps_bounds by linarith
  have lt: "\<bar>L * fval t\<bar> < 1024"
  proof -
    have "\<bar>L * fval t\<bar> \<le> 255 * 2" unfolding abs_mult using bl tb by (intro mult_mono) auto
    then show ?thesis by simp
  qed
  define u where "u = fmul b64 (f_of_int b64 (uint l)) t"
  have u: "fis_finite u" "\<bar>fval u - L * fval t\<bar> \<le> eps"
    using fmul_near [OF u8_double(1) t(1), of l] lt unfolding u_def u8_double(2) L_def by simp_all
  have ra: "\<bar>R * a\<bar> < 1024"
  proof -
    have "\<bar>R * a\<bar> \<le> 255 * 1" unfolding abs_mult using br a by (intro mult_mono) auto
    then show ?thesis by simp
  qed
  define v where "v = fmul b64 (f_of_int b64 (uint r)) amount"
  have v: "fis_finite v" "\<bar>fval v - R * a\<bar> \<le> eps"
    using fmul_near [OF u8_double(1) assms(1), of r] ra unfolding v_def u8_double(2) R_def a_def by simp_all
  have lta: "\<bar>L * fval t - L * (1 - a)\<bar> \<le> 255 * eps"
  proof -
    have "\<bar>L * fval t - L * (1 - a)\<bar> = \<bar>L\<bar> * \<bar>fval t - (1 - a)\<bar>"
      by (simp add: abs_mult [symmetric] right_diff_distrib)
    also have "\<dots> \<le> 255 * eps" using bl t(2) by (intro mult_mono) auto
    finally show ?thesis .
  qed
  have mm: "mixed = fadd b64 u v" by (simp add: mixed_def u_def v_def t_def)
  have c: "\<bar>L * (1 - a) + R * a\<bar> \<le> 255" using convex_between [OF a, of L R] bl br by (auto simp: min_def max_def split: if_splits)
  have near: "\<bar>fval u + fval v - (L * (1 - a) + R * a)\<bar> \<le> 257 * eps" using u(2) v(2) lta by linarith
  have "\<bar>fval u + fval v\<bar> < 1024" using near c eps_bounds by linarith
  from fadd_near [OF u(1) v(1) this] show "fis_finite mixed"
    "\<bar>fval mixed - (of_int (uint l) * (1 - fval amount) + of_int (uint r) * fval amount)\<bar> < 1 / 4"
    unfolding mm L_def [symmetric] R_def [symmetric] a_def [symmetric] using near eps_bounds by linarith+
qed

lemma mix_channel_between:
  assumes "fis_finite amount" "0 \<le> fval amount" "fval amount \<le> 1"
  shows "\<exists>c. mix_channel l r amount = Some c \<and> min l r \<le> c \<and> c \<le> max l r"
proof -
  define mixed where "mixed = fadd b64 (fmul b64 (f_of_int b64 (uint l)) (fsub b64 (Fin 1) amount))
      (fmul b64 (f_of_int b64 (uint r)) amount)"
  note m = mixed_near [OF assms, of l r, folded mixed_def]
  define lo hi where "lo = min (uint l) (uint r)" and "hi = max (uint l) (uint r)"
  have b: "0 \<le> lo" "hi \<le> 255" using uint_lt2p [of l] uint_lt2p [of r] by (auto simp: lo_def hi_def)
  have "of_int lo - 1 / 2 < fval mixed" "fval mixed < of_int hi + 1 / 2"
    using m(2) convex_between [OF assms(2,3), of "of_int (uint l)" "of_int (uint r)"]
    unfolding lo_def hi_def of_int_min of_int_max by linarith+
  from round_between [OF this b(1)] have i: "lo \<le> rat_round_away (fval mixed)" "rat_round_away (fval mixed) \<le> hi" by auto
  define i where "i = rat_round_away (fval mixed)"
  have ib: "lo \<le> i" "i \<le> hi" "0 \<le> i" "i \<le> 255" using i b by (simp_all add: i_def)
  have "fllround mixed = Some i" using m(1) ib by (simp add: fllround_def i_def [symmetric] Let_def)
  moreover have "wrap_int 32 i = i" using ib by (intro wrap_int_id) auto
  ultimately have c: "mix_channel l r amount = Some (word_of_int i)"
    using ib by (simp add: mix_channel_def mixed_def [symmetric] Let_def)
  have "uint (word_of_int i :: u8) = i" using ib by (simp add: uint_word_of_int)
  then have "min l r \<le> word_of_int i \<and> word_of_int i \<le> max l r"
    using ib by (auto simp: min_def max_def word_le_def lo_def hi_def split: if_splits)
  with c show ?thesis by blast
qed

section \<open>Valid programs\<close>

definition between :: "program_color \<Rightarrow> program_color \<Rightarrow> program_color \<Rightarrow> bool" where
  "between a b c \<longleftrightarrow> min (pc_r a) (pc_r b) \<le> pc_r c \<and> pc_r c \<le> max (pc_r a) (pc_r b)
     \<and> min (pc_g a) (pc_g b) \<le> pc_g c \<and> pc_g c \<le> max (pc_g a) (pc_g b)
     \<and> min (pc_b a) (pc_b b) \<le> pc_b c \<and> pc_b c \<le> max (pc_b a) (pc_b b)"

definition valid_stops :: "program_color_stop list \<Rightarrow> bool" where
  "valid_stops ss \<longleftrightarrow> 2 \<le> length ss \<and> length ss \<le> 16
     \<and> (\<forall>s\<in>set ss. fis_finite (st_at s) \<and> 0 \<le> fval (st_at s) \<and> fval (st_at s) \<le> 1)
     \<and> sorted_wrt (\<lambda>s t. fval (st_at s) < fval (st_at t)) ss
     \<and> fval (st_at (hd ss)) = 0 \<and> fval (st_at (last ss)) = 1"

definition valid_program :: "color_program \<Rightarrow> bool" where
  "valid_program p \<longleftrightarrow> valid_stops (cp_stops p) \<and> fis_finite (cp_cycles p) \<and> 0 < fval (cp_cycles p)
     \<and> fval (cp_cycles p) \<le> 256 \<and> fis_finite (cp_phase p)"

lemma flt_finite: "fis_finite a \<Longrightarrow> fis_finite b \<Longrightarrow> flt a b \<longleftrightarrow> fval a < fval b"
  by (cases a; cases b) (auto simp: flt_def fis_finite_def)

lemma fle_finite: "fis_finite a \<Longrightarrow> fis_finite b \<Longrightarrow> fle a b \<longleftrightarrow> fval a \<le> fval b"
  by (cases a; cases b) (auto simp: fle_def flt_def feq_def fis_finite_def)

lemma finite_Fin [simp]: "fis_finite (Fin x)" and fval_Fin [simp]: "fval (Fin x) = x"
  by (simp_all add: fis_finite_def fval_def)

subsection \<open>The reader accepts only valid programs\<close>

lemma parse_stop_ok:
  assumes "parse_stop j previous = Inr s"
  shows "fis_finite (st_at s) \<and> 0 \<le> fval (st_at s) \<and> fval (st_at s) \<le> 1
    \<and> (fis_finite previous \<longrightarrow> fval previous < fval (st_at s))"
proof -
  obtain x c where x: "fis_finite x" "\<not> flt x (Fin 0)" "\<not> flt (Fin 1) x" "\<not> fle x previous" "s = \<lparr>st_at = x, st_color = c\<rparr>"
    using assms by (auto simp: parse_stop_def fsd_split split: option.splits)
  then show ?thesis using fle_finite [of x previous] by (auto simp: flt_finite not_le)
qed

lemma parse_stops_ok:
  "parse_stops js previous = Inr ss \<Longrightarrow> length ss = length js
    \<and> (\<forall>s\<in>set ss. fis_finite (st_at s) \<and> 0 \<le> fval (st_at s) \<and> fval (st_at s) \<le> 1
        \<and> (fis_finite previous \<longrightarrow> fval previous < fval (st_at s)))
    \<and> sorted_wrt (\<lambda>s t. fval (st_at s) < fval (st_at t)) ss"
proof (induction js previous arbitrary: ss rule: parse_stops.induct)
  case (1 previous)
  then show ?case by simp
next
  case (2 j js previous)
  then obtain s rest where s: "parse_stop j previous = Inr s" "parse_stops js (st_at s) = Inr rest" "ss = s # rest"
    by (auto simp: fsd_split)
  from parse_stop_ok [OF s(1)] "2.IH" [OF s(1,2)] show ?case unfolding s(3) by fastforce
qed

lemma parse_stop_list_ok:
  assumes "parse_stop_list j = Inr ss"
  shows "valid_stops ss"
proof -
  obtain a where a: "2 \<le> length (elements a)" "length (elements a) \<le> 16" "parse_stops (elements a) (Fin (- 1)) = Inr ss"
    "feq (st_at (hd ss)) (Fin 0)" "feq (st_at (last ss)) (Fin 1)"
    using assms by (auto simp: parse_stop_list_def fsd_split not_less split: option.splits)
  note ok = parse_stops_ok [OF a(3)]
  have ne: "ss \<noteq> []" using ok a(1) by auto
  then have "fis_finite (st_at (hd ss))" "fis_finite (st_at (last ss))" using ok by auto
  then have "fval (st_at (hd ss)) = 0" "fval (st_at (last ss)) = 1" using a(4,5) by (auto simp: feq_def)
  then show ?thesis using ok a(1,2) by (auto simp: valid_stops_def)
qed

lemma parse_program_ok:
  assumes "parse_color_program_json j = Inr p"
  shows "valid_program p"
proof -
  obtain cycles phase stops where s: "parse_stop_list j = Inr stops"
    "flt (Fin 0) cycles" "\<not> flt (Fin 256) cycles" "fis_finite cycles" "fis_finite phase"
    "cp_stops p = stops" "cp_cycles p = cycles" "cp_phase p = phase"
    using assms unfolding parse_color_program_json_def by (auto simp: res_bind_Inr_iff throw_if_Inr_iff)
  then show ?thesis using parse_stop_list_ok [OF s(1)]
    by (simp add: valid_program_def flt_finite)
qed

subsection \<open>Every input has a colour\<close>

lemma fclamp_unit:
  assumes "v \<noteq> NaN"
  shows "fis_finite (fclamp v (Fin 0) (Fin 1))" "0 \<le> fval (fclamp v (Fin 0) (Fin 1))" "fval (fclamp v (Fin 0) (Fin 1)) \<le> 1"
  using assms by (cases v; simp add: fclamp_def flt_def fval_def fis_finite_def)+

lemma fdiv_not_NaN:
  "a \<noteq> NaN \<Longrightarrow> fis_finite b \<Longrightarrow> fval b \<noteq> 0 \<Longrightarrow> fdiv F a b \<noteq> NaN"
  by (cases a; cases b) (auto simp: fdiv_def fis_finite_def signed_inf_def signed_zero_def rnd_def Let_def fval_def)

lemma fsub_not_NaN: "a \<noteq> NaN \<Longrightarrow> fis_finite b \<Longrightarrow> fsub F a b \<noteq> NaN"
  by (cases a; cases b) (auto simp: fsub_def fadd_def fis_finite_def rnd_def Let_def)

lemma mix_stops_between:
  assumes "x \<noteq> NaN" "fis_finite (st_at l)" "fis_finite (st_at r)" "0 \<le> fval (st_at l)" "fval (st_at l) \<le> 1"
    "0 \<le> fval (st_at r)" "fval (st_at r) \<le> 1"
  shows "\<exists>c. mix_stops l r x = Some c \<and> between (st_color l) (st_color r) c"
proof -
  define tiny where "tiny = rnd b64 (1 / 10 ^ 12)"
  have tiny: "fis_finite tiny" "0 < fval tiny"
  proof -
    have b: "\<bar>1 / 10 ^ 12 :: rat\<bar> < 1024" by simp
    have "eps < 1 / 10 ^ 12" by (simp add: eps_def)
    with rnd_near(2) [OF b] show "0 < fval tiny" unfolding tiny_def by linarith
    show "fis_finite tiny" using rnd_near(1) [OF b] unfolding tiny_def .
  qed
  define width where "width = fmax tiny (fsub b64 (st_at r) (st_at l))"
  have d: "fis_finite (fsub b64 (st_at r) (st_at l))" using assms by (intro fsub_near) auto
  then have w: "fis_finite width" "0 < fval width" using tiny by (auto simp: width_def fmax_def flt_finite)
  define amount where "amount = fclamp (fdiv b64 (fsub b64 x (st_at l)) width) (Fin 0) (Fin 1)"
  have "fdiv b64 (fsub b64 x (st_at l)) width \<noteq> NaN"
    using assms w by (intro fdiv_not_NaN fsub_not_NaN) auto
  note a = fclamp_unit [OF this, folded amount_def]
  obtain cr cg cb where
    "mix_channel (pc_r (st_color l)) (pc_r (st_color r)) amount = Some cr"
    "mix_channel (pc_g (st_color l)) (pc_g (st_color r)) amount = Some cg"
    "mix_channel (pc_b (st_color l)) (pc_b (st_color r)) amount = Some cb"
    "between (st_color l) (st_color r) \<lparr>pc_r = cr, pc_g = cg, pc_b = cb\<rparr>"
    using mix_channel_between [OF a, of "pc_r (st_color l)" "pc_r (st_color r)"]
      mix_channel_between [OF a, of "pc_g (st_color l)" "pc_g (st_color r)"]
      mix_channel_between [OF a, of "pc_b (st_color l)" "pc_b (st_color r)"] by (auto simp: between_def)
  then show ?thesis
    unfolding mix_stops_def Let_def tiny_def [symmetric] width_def [symmetric] amount_def [symmetric] by simp
qed

lemma between_self: "between a b a" "between a b b"
  by (auto simp: between_def)

text \<open>Two neighbours in a list.\<close>

definition neighbours :: "'a list \<Rightarrow> 'a \<Rightarrow> 'a \<Rightarrow> bool" where
  "neighbours xs a b \<longleftrightarrow> (\<exists>ys zs. xs = ys @ a # b # zs)"

lemma neighbours_Cons: "neighbours xs a b \<Longrightarrow> neighbours (x # xs) a b"
  unfolding neighbours_def by (metis append_Cons)

lemma find_stop_between:
  assumes "stops \<noteq> []"
    "\<forall>s\<in>set (left # stops). fis_finite (st_at s) \<and> 0 \<le> fval (st_at s) \<and> fval (st_at s) \<le> 1"
  shows "\<exists>l r c. find_stop x left stops = Some c \<and> neighbours (left # stops) l r \<and> between (st_color l) (st_color r) c"
  using assms
proof (induction x left stops rule: find_stop.induct)
  case (1 x left)
  then show ?case by simp
next
  case (2 x left right stops)
  have n: "neighbours (left # right # stops) left right" by (metis append_Nil neighbours_def)
  show ?case
  proof (cases "fle x (st_at right)")
    case True
    then have "x \<noteq> NaN" by (auto simp: fle_def flt_def feq_def)
    then obtain c where "mix_stops left right x = Some c" "between (st_color left) (st_color right) c"
      using mix_stops_between [of x left right] "2.prems"(2) by auto
    then show ?thesis using True n by auto
  next
    case False
    show ?thesis
    proof (cases "stops = []")
      case True
      then show ?thesis using False n between_self
        by (intro exI [of _ left] exI [of _ right] exI [of _ "st_color right"]) auto
    next
      case ne: False
      then show ?thesis using "2.IH" [OF False ne] "2.prems" False neighbours_Cons by fastforce
    qed
  qed
qed

lemma colorize_ok:
  assumes "valid_stops (cp_stops p)" "fis_finite input"
  shows "\<exists>l r c. colorize p input = Some c \<and> neighbours (cp_stops p) l r \<and> between (st_color l) (st_color r) c"
proof -
  obtain a b rest where s: "cp_stops p = a # b # rest"
    using assms(1) by (cases "cp_stops p" rule: remdups_adj.cases) (auto simp: valid_stops_def)
  define x where "x = wrapped (fadd b64 (fmul b64 input (cp_cycles p)) (cp_phase p)) (cp_wrap p)"
  have c: "colorize p input = (if fle x (st_at a) then Some (st_color a) else find_stop x a (b # rest))"
    using assms(2) by (simp add: colorize_def s x_def Let_def)
  have n: "neighbours (cp_stops p) a b" unfolding s by (metis append_Nil neighbours_def)
  show ?thesis
  proof (cases "fle x (st_at a)")
    case True
    then show ?thesis using c n between_self by auto
  next
    case False
    have "\<exists>l r c. find_stop x a (b # rest) = Some c \<and> neighbours (a # b # rest) l r \<and> between (st_color l) (st_color r) c"
      using assms(1) s by (intro find_stop_between) (auto simp: valid_stops_def)
    then show ?thesis using c False s by simp
  qed
qed

section \<open>Properties\<close>

text \<open>
  C34: a colour program that the reader accepts colours every input. The program has between 2 and 16 stops
  that increase strictly from 0 to 1; the colour of a finite input exists, rounding included, and lies in
  every channel between the colours of two neighbouring stops; other inputs get the colour for invalid
  values.
\<close>

theorem accepted_program_colors:
  assumes "parse_color_program_json j = Inr p"
  shows "valid_program p \<and>
    (if fis_finite input
     then \<exists>l r c. colorize p input = Some c \<and> neighbours (cp_stops p) l r \<and> between (st_color l) (st_color r) c
     else colorize p input = Some (colorize_invalid p))"
proof -
  have v: "valid_program p" by (rule parse_program_ok [OF assms])
  then show ?thesis using colorize_ok [of p input]
    by (simp add: valid_program_def colorize_def colorize_invalid_def)
qed

definition sample_gradient :: json where
  "sample_gradient = JObject [(''schemaVersion'', JInt 1),
     (''stops'', JArray [JObject [(''at'', JFloat (Fin 0)), (''color'', JString ''#000000'')],
        JObject [(''at'', JFloat (Fin 1)), (''color'', JString ''#ff8000'')]]),
     (''type'', JString ''gradient'')]"

lemma sample_gradient_accepted:
  "parse_color_program_json sample_gradient = Inr \<lparr>cp_stops = [\<lparr>st_at = Fin 0, st_color = \<lparr>pc_r = 0, pc_g = 0, pc_b = 0\<rparr>\<rparr>,
     \<lparr>st_at = Fin 1, st_color = \<lparr>pc_r = 255, pc_g = 128, pc_b = 0\<rparr>\<rparr>], cp_wrap = Wrap_Clamp, cp_cycles = Fin 1,
     cp_phase = Fin 0, cp_interior = \<lparr>pc_r = 255, pc_g = 255, pc_b = 255\<rparr>,
     cp_invalid = \<lparr>pc_r = 255, pc_g = 0, pc_b = 255\<rparr>\<rparr>"
proof -
  have c: "parse_color (JString ''#000000'') f = Inr \<lparr>pc_r = 0, pc_g = 0, pc_b = 0\<rparr>"
    "parse_color (JString ''#ff8000'') f = Inr \<lparr>pc_r = 255, pc_g = 128, pc_b = 0\<rparr>" for f
    by (simp_all add: parse_color_def color_byte_def color_hex_digit_def char_code_def Let_def)
  have stop: "parse_stop (JObject [(''at'', JFloat (Fin x)), (''color'', JString t)]) (Fin y)
      = res_bind (parse_color (JString t) ''color stop color'') (\<lambda>color. Inr \<lparr>st_at = Fin x, st_color = color\<rparr>)"
    if "0 \<le> x" "x \<le> 1" "y < x" for x y t
    using that by (simp add: parse_stop_def is_object_def items_def find_key_def is_number_def get_double_def throw_if_def)
  have stops: "parse_stop_list sample_gradient = Inr [\<lparr>st_at = Fin 0, st_color = \<lparr>pc_r = 0, pc_g = 0, pc_b = 0\<rparr>\<rparr>,
     \<lparr>st_at = Fin 1, st_color = \<lparr>pc_r = 255, pc_g = 128, pc_b = 0\<rparr>\<rparr>]"
    by (simp add: sample_gradient_def parse_stop_list_def find_key_def items_def is_array_def elements_def stop c)
  have keys: "find_key sample_gradient ''schemaVersion'' = Some (JInt 1)" "find_key sample_gradient ''type'' = Some (JString ''gradient'')"
    "find_key sample_gradient ''interpolation'' = None" "find_key sample_gradient ''wrap'' = None"
    "find_key sample_gradient ''cycles'' = None" "find_key sample_gradient ''phase'' = None"
    "find_key sample_gradient ''interiorColor'' = None" "find_key sample_gradient ''invalidColor'' = None"
    "is_object sample_gradient"
    by (simp_all add: sample_gradient_def find_key_def items_def is_object_def)
  have unknown: "reject_unknown (items sample_gradient) [''schemaVersion'', ''type'', ''interpolation'', ''wrap'', ''cycles'',
        ''phase'', ''interiorColor'', ''invalidColor'', ''stops''] ''colorProgram'' = Inr ()"
    by (simp add: sample_gradient_def items_def)
  show ?thesis
    by (simp add: parse_color_program_json_def unknown json_value_def keys get_int_def get_string_def wrap_int_def
        wrap_of_def color_or_def stops)
qed

theorem accepted_program_colors_witness:
  "\<exists>p c. parse_color_program_json sample_gradient = Inr p \<and> colorize p (Fin (1 / 2)) = Some c \<and> pc_b c = 0"
proof -
  let ?a = "\<lparr>st_at = Fin 0, st_color = \<lparr>pc_r = 0, pc_g = 0, pc_b = 0\<rparr>\<rparr> :: program_color_stop"
  let ?b = "\<lparr>st_at = Fin 1, st_color = \<lparr>pc_r = 255, pc_g = 128, pc_b = 0\<rparr>\<rparr> :: program_color_stop"
  have n: "neighbours [?a, ?b] l r \<Longrightarrow> l = ?a \<and> r = ?b" for l r
    by (auto simp: neighbours_def Cons_eq_append_conv)
  show ?thesis
    using accepted_program_colors [OF sample_gradient_accepted, of "Fin (1 / 2)"] n
    by (fastforce simp: sample_gradient_accepted between_def)
qed

text \<open>
  A schema version that is a number too large for an \<^verbatim>\<open>int\<close> is converted all the same, which C++ leaves
  undefined.
\<close>

lemma huge_schema_version:
  "parse_color_program_json (JObject [(''schemaVersion'', JFloat (Fin (10 ^ 30)))]) = Inl Undefined"
  by (simp add: parse_color_program_json_def is_object_def items_def json_value_def find_key_def get_int_def rtrunc_def)

end
