(* ===== verification/Colormap.thy ===== *)
theory Colormap
  imports ColorProgram EscapeTime
begin

text \<open>
  The palettes (\<^verbatim>\<open>compute/colormap.hpp\<close>) and the colouring of a computed field
  (\<^verbatim>\<open>colorize_direct\<close> in \<^verbatim>\<open>compute/colorize.cpp\<close>). \<^verbatim>\<open>std::log2\<close> and \<^verbatim>\<open>std::cos\<close> are the arguments \<open>lg\<close>
  and \<open>m_cos L\<close>. A conversion of a number outside the range of \<^verbatim>\<open>int\<close> is undefined, so a colour is an
  option; the theorems show when it exists.
\<close>

section \<open>Palettes\<close>

datatype colormap =
    ClassicCos | Mod17 | HsvWheel | Tri765 | Grayscale | HsRainbow | Inferno | Viridis | Twilight | EmberBlue
  | Spectral1530

definition colormap_table :: "(string \<times> colormap) list" where
  "colormap_table = [(''classic_cos'', ClassicCos), (''mod17'', Mod17), (''hsv_wheel'', HsvWheel), (''tri765'', Tri765),
     (''grayscale'', Grayscale), (''hs_rainbow'', HsRainbow), (''inferno'', Inferno), (''viridis'', Viridis),
     (''twilight'', Twilight), (''ember_blue'', EmberBlue), (''spectral1530'', Spectral1530)]"

text \<open>The name is a C string, compared character by character up to its end.\<close>

definition colormap_from_name :: "string \<Rightarrow> colormap option" where
  "colormap_from_name name = map_of colormap_table (takeWhile (\<lambda>c. c \<noteq> CHR 0x00) name)"

type_synonym rgb = "u8 \<times> u8 \<times> u8"

text \<open>\<^verbatim>\<open>static_cast<int>\<close> of a double: undefined when the truncated value is not an \<^verbatim>\<open>int\<close>.\<close>

definition f_to_i32 :: "fl \<Rightarrow> int option" where
  "f_to_i32 x =
    (if fis_finite x \<and> - (2 ^ 31) \<le> rtrunc (fval x) \<and> rtrunc (fval x) < 2 ^ 31 then Some (rtrunc (fval x)) else None)"

definition smooth_mu :: "(fl \<Rightarrow> fl) \<Rightarrow> int \<Rightarrow> fl \<Rightarrow> fl" where
  "smooth_mu lg iter nrm =
    (if flt (Fin 1) nrm
     then let mu = fsub b64 (fadd b64 (f_of_int b64 iter) (Fin 1)) (lg (lg nrm)) in if flt (Fin 0) mu then mu else Fin 0
     else f_of_int b64 iter)"

definition clamp255 :: "int \<Rightarrow> int" where
  "clamp255 v = (if v < 0 then 0 else if v > 255 then 255 else v)"

definition byte :: "int \<Rightarrow> u8" where "byte v = word_of_int (clamp255 v)"

definition rgb_of :: "int \<Rightarrow> int \<Rightarrow> int \<Rightarrow> rgb" where
  "rgb_of r g b = (word_of_int r, word_of_int g, word_of_int b)"

definition gray :: "u8 \<Rightarrow> rgb" where "gray v = (v, v, v)"
definition white :: rgb where "white = gray 255"

definition pi_const :: fl where "pi_const = rnd b64 (3141592653589793 / 10 ^ 15)"

definition cos_color :: "libm \<Rightarrow> fl \<Rightarrow> fl \<Rightarrow> fl" where
  "cos_color L n freq = fsub b64 (Fin 128) (fmul b64 (Fin 128) (m_cos L (fmul b64 (fmul b64 freq n) pi_const)))"

section \<open>Gradients\<close>

type_synonym color_stop = "fl \<times> int \<times> int \<times> int"

definition mix_int :: "fl \<Rightarrow> int \<Rightarrow> int \<Rightarrow> u8 option" where
  "mix_int u a z =
    map_option (\<lambda>i. byte (wrap_int 32 i))
      (fllround (fadd b64 (fmul b64 (f_of_int b64 a) (fsub b64 (Fin 1) u)) (fmul b64 (f_of_int b64 z) u)))"

definition stop_color :: "color_stop \<Rightarrow> rgb" where
  "stop_color s = (case s of (t, r, g, b) \<Rightarrow> (byte r, byte g, byte b))"

fun gradient_scan :: "fl \<Rightarrow> color_stop \<Rightarrow> color_stop list \<Rightarrow> rgb option" where
  "gradient_scan t s [] = Some (stop_color s)"
| "gradient_scan t (t0, r0, g0, b0) ((t1, r1, g1, b1) # stops) =
    (if fle t t1 then
       (let width = fmax (rnd b64 (1 / 10 ^ 12)) (fsub b64 t1 t0);
            u = fdiv b64 (fsub b64 t t0) width
        in Option.bind (mix_int u r0 r1) (\<lambda>r. Option.bind (mix_int u g0 g1) (\<lambda>g. Option.bind (mix_int u b0 b1) (\<lambda>b.
           Some (r, g, b)))))
     else gradient_scan t (t1, r1, g1, b1) stops)"

definition gradient_stops :: "color_stop list \<Rightarrow> fl \<Rightarrow> rgb option" where
  "gradient_stops stops t =
    (let t = (if flt t (Fin 0) then Fin 0 else t);
         t = (if flt (Fin 1) t then Fin 1 else t)
     in if fle t (fst (hd stops)) then Some (stop_color (hd stops)) else gradient_scan t (hd stops) (tl stops))"

definition cent :: "int \<Rightarrow> fl" where "cent n = rnd b64 (of_int n / 100)"

definition palette_stops :: "colormap \<Rightarrow> color_stop list option" where
  "palette_stops palette =
    (case palette of
       Inferno \<Rightarrow> Some [(cent 0, 0, 0, 4), (cent 14, 31, 12, 72), (cent 28, 85, 15, 109), (cent 42, 136, 34, 106),
         (cent 56, 186, 54, 85), (cent 70, 227, 89, 51), (cent 84, 249, 140, 10), (cent 94, 252, 195, 55),
         (cent 100, 252, 255, 164)]
     | Viridis \<Rightarrow> Some [(cent 0, 68, 1, 84), (cent 25, 59, 82, 139), (cent 50, 33, 145, 140), (cent 75, 94, 201, 98),
         (cent 100, 253, 231, 37)]
     | Twilight \<Rightarrow> Some [(cent 0, 32, 24, 70), (cent 18, 63, 92, 180), (cent 36, 58, 150, 165), (cent 54, 240, 210, 120),
         (cent 72, 210, 90, 90), (cent 88, 90, 50, 110), (cent 100, 32, 24, 70)]
     | EmberBlue \<Rightarrow> Some [(cent 0, 5, 8, 32), (cent 22, 10, 70, 120), (cent 48, 55, 190, 185), (cent 72, 245, 172, 75),
         (cent 100, 255, 246, 210)]
     | _ \<Rightarrow> None)"

text \<open>\<^verbatim>\<open>colorize_gradient_palette_bgr\<close> is false for a palette without stops; \<open>k\<close> is what follows then.\<close>

definition with_gradient :: "fl \<Rightarrow> colormap \<Rightarrow> rgb option \<Rightarrow> rgb option" where
  "with_gradient t palette k = (case palette_stops palette of Some stops \<Rightarrow> gradient_stops stops t | None \<Rightarrow> k)"

section \<open>Colour wheels\<close>

definition hsv_to_rgb :: "fl \<Rightarrow> fl \<Rightarrow> fl \<Rightarrow> (int \<times> int \<times> int) option" where
  "hsv_to_rgb h s v =
    (let c = fmul b64 v s;
         hh = fdiv b64 h (Fin 60);
         x = fmul b64 c (fsub b64 (Fin 1) (fabs (fsub b64 (ffmod hh (Fin 2)) (Fin 1))));
         z = Fin 0;
         (rr, gg, bb) =
           (if flt hh (Fin 1) then (c, x, z) else if flt hh (Fin 2) then (x, c, z) else if flt hh (Fin 3) then (z, c, x)
            else if flt hh (Fin 4) then (z, x, c) else if flt hh (Fin 5) then (x, z, c) else (c, z, x));
         m = fsub b64 v c;
         channel = (\<lambda>y. map_option clamp255 (f_to_i32 (fmul b64 (fadd b64 y m) (Fin 255))))
     in Option.bind (channel rr) (\<lambda>r. Option.bind (channel gg) (\<lambda>g. Option.bind (channel bb) (\<lambda>b. Some (r, g, b)))))"

definition rainbow_from_index :: "int \<Rightarrow> rgb" where
  "rainbow_from_index idx =
    (if idx \<le> 0 then gray 0
     else if idx \<ge> 1785 then white
     else
       let (a0, a1, a2) =
         (if 255 < idx \<and> idx < 510 then (510 - idx, idx - 255, 0)
          else if 509 < idx \<and> idx < 765 then (idx - 510, 255, 0)
          else if 764 < idx \<and> idx < 1020 then (1020 - idx, 1020 - idx, idx - 765)
          else if 1019 < idx \<and> idx < 1275 then (idx - 1020, 0, 255)
          else if 1274 < idx \<and> idx < 1530 then (1530 - idx, idx - 1275, 255)
          else if idx > 1529 then (idx - 1530, 255, 255)
          else (idx, 0, 0))
       in (byte a1, byte a2, byte a0))"

definition hue1530 :: "int \<Rightarrow> rgb" where
  "hue1530 idx =
    (let idx = tmod idx 1530;
         idx = (if idx < 0 then idx + 1530 else idx);
         seg = tdiv idx 255; d = tmod idx 255
     in if seg = 0 then rgb_of 0 255 d
        else if seg = 1 then rgb_of 0 (255 - d) 255
        else if seg = 2 then rgb_of d 0 255
        else if seg = 3 then rgb_of 255 0 (255 - d)
        else if seg = 4 then rgb_of 255 d 0
        else rgb_of (255 - d) 255 0)"

text \<open>The three bands of \<^verbatim>\<open>Tri765\<close>.\<close>

definition tri_band :: "int \<Rightarrow> int \<Rightarrow> rgb" where
  "tri_band band d =
    (if band = 0 then (byte (255 - d), byte d, byte 255)
     else if band = 1 then (byte d, byte 255, byte (255 - d))
     else (byte 255, byte (255 - d), byte d))"

definition hsv_rgb :: "fl \<Rightarrow> rgb option" where
  "hsv_rgb h = map_option (\<lambda>(r, g, b). rgb_of r g b) (hsv_to_rgb h (Fin 1) (Fin 1))"

section \<open>Colouring a pixel\<close>

text \<open>The legacy rainbow: white for zero and for a number that is not finite.\<close>

definition colorize_field_hs :: "(fl \<Rightarrow> fl) \<Rightarrow> fl \<Rightarrow> rgb option" where
  "colorize_field_hs lg x =
    (if fle x (Fin 0) \<or> \<not> fis_finite x then Some white
     else let r = fmul b64 (fsub b64 (fdiv b64 (Fin 36) (Fin 35)) (lg x)) (Fin 35)
          in map_option (\<lambda>i. rainbow_from_index (max 0 (min 1785 i))) (f_to_i32 r))"

definition smooth_escape_color :: "libm \<Rightarrow> fl \<Rightarrow> fl \<Rightarrow> colormap \<Rightarrow> rgb option" where
  "smooth_escape_color L mu t palette =
    with_gradient t palette
    (case palette of
       HsvWheel \<Rightarrow> hsv_rgb (fmul b64 t (Fin 360))
     | Tri765 \<Rightarrow>
         (let mf = fmul b64 t (Fin 765)
          in Option.bind (f_to_i32 mf) (\<lambda>m.
             Option.bind (f_to_i32 (fmul b64 (fsub b64 mf (f_of_int b64 m)) (Fin 255))) (\<lambda>d.
             Some (tri_band (tmod (tdiv m 255) 3) d))))
     | Grayscale \<Rightarrow> map_option (\<lambda>v. gray (byte v)) (f_to_i32 (fmul b64 t (Fin 255)))
     | Spectral1530 \<Rightarrow>
         (if flt mu (Fin 255) then map_option (\<lambda>v. (0, byte v, 0)) (f_to_i32 mu)
          else map_option hue1530 (f_to_i32 (ffmod (fsub b64 mu (Fin 255)) (Fin 1530))))
     | Mod17 \<Rightarrow> map_option (\<lambda>i. gray (byte (tmod i 17 * 15))) (f_to_i32 mu)
     | _ \<Rightarrow>
         Option.bind (f_to_i32 (cos_color L t (Fin 53))) (\<lambda>r. Option.bind (f_to_i32 (cos_color L t (Fin 27))) (\<lambda>g.
         Option.bind (f_to_i32 (cos_color L t (Fin 139))) (\<lambda>b. Some (byte r, byte g, byte b)))))"

definition plain_escape_color :: "libm \<Rightarrow> int \<Rightarrow> fl \<Rightarrow> colormap \<Rightarrow> rgb option" where
  "plain_escape_color L iter n palette =
    with_gradient n palette
    (case palette of
       Mod17 \<Rightarrow> Some (byte (tmod iter 256), byte (tdiv iter 256), byte (tmod iter 17 * 17))
     | HsvWheel \<Rightarrow> hsv_rgb (fdiv b64 (ffmod (f_of_int b64 iter) (Fin 1440)) (Fin 4))
     | Tri765 \<Rightarrow> (let m = tmod iter 765 in Some (tri_band (tdiv m 255) (tmod m 255)))
     | Grayscale \<Rightarrow> map_option (\<lambda>v. gray (byte v)) (f_to_i32 (fmul b64 n (Fin 255)))
     | Spectral1530 \<Rightarrow>
         Some (if iter < 255 then (0, word_of_int iter, 0) else hue1530 (tmod (iter - 255) 1530))
     | _ \<Rightarrow>
         Option.bind (f_to_i32 (cos_color L n (Fin 53))) (\<lambda>r. Option.bind (f_to_i32 (cos_color L n (Fin 27))) (\<lambda>g.
         Option.bind (f_to_i32 (cos_color L n (Fin 139))) (\<lambda>b. Some (byte r, byte g, byte b)))))"

definition colorize_escape :: "libm \<Rightarrow> (fl \<Rightarrow> fl) \<Rightarrow> int \<Rightarrow> int \<Rightarrow> colormap \<Rightarrow> fl \<Rightarrow> bool \<Rightarrow> rgb option" where
  "colorize_escape L lg iter max_iter palette nrm smooth =
    (if iter \<ge> max_iter then Some white
     else if smooth then
       (let mu = smooth_mu lg iter nrm; t = ffmod (fdiv b64 mu (Fin 32)) (Fin 1)
        in smooth_escape_color L mu t palette)
     else
       (let n = fdiv b64 (fadd b64 (f_of_int b64 iter) (Fin 1)) (fadd b64 (f_of_int b64 max_iter) (Fin 2))
        in plain_escape_color L iter n palette))"

definition colorize_field_smooth :: "(fl \<Rightarrow> fl) \<Rightarrow> fl \<Rightarrow> colormap \<Rightarrow> rgb option" where
  "colorize_field_smooth lg x palette =
    (if fle x (Fin 0) then Some white
     else
       let base_val = fsub b64 (Fin 2) (lg x);
           cycle = ffmod (fdiv b64 base_val (Fin 8)) (Fin 1);
           cycle = (if flt cycle (Fin 0) then fadd b64 cycle (Fin 1) else cycle);
           index = (\<lambda>k. map_option (max 0) (f_to_i32 (fmul b64 (Fin k) base_val)))
       in with_gradient cycle palette
         (case palette of
            HsvWheel \<Rightarrow> Option.bind (index 180) (\<lambda>i. hsv_rgb (fdiv b64 (f_of_int b64 (tmod i 1440)) (Fin 4)))
          | Tri765 \<Rightarrow> map_option (\<lambda>i. let m = tmod i 765 in tri_band (tdiv m 255) (tmod m 255)) (index 96)
          | HsRainbow \<Rightarrow> map_option (\<lambda>i. rainbow_from_index (max 0 (min 1785 i))) (f_to_i32 (fmul b64 (Fin 35) base_val))
          | Spectral1530 \<Rightarrow> map_option hue1530 (index 191)
          | _ \<Rightarrow> map_option (\<lambda>i. gray (word_of_int (tmod i 256))) (index 32)))"

definition colorize_unit_field :: "libm \<Rightarrow> fl \<Rightarrow> colormap \<Rightarrow> rgb option" where
  "colorize_unit_field L v01 palette =
    (let v01 = (if flt v01 (Fin 0) then Fin 0 else v01);
         v01 = (if flt (Fin 1) v01 then Fin 1 else v01);
         turn = fmul b64 (fmul b64 v01 (Fin 2)) pi_const;
         wave = (\<lambda>x. map_option byte (f_to_i32 (fsub b64 (Fin 128) (fmul b64 (Fin 128) (m_cos L x)))))
     in with_gradient v01 palette
       (case palette of
          Grayscale \<Rightarrow> map_option (\<lambda>v. gray (byte v)) (f_to_i32 (fmul b64 v01 (Fin 255)))
        | HsvWheel \<Rightarrow> hsv_rgb (fmul b64 v01 (Fin 360))
        | Tri765 \<Rightarrow> map_option (\<lambda>m. tri_band (tmod (tdiv m 255) 3) (tmod m 255)) (f_to_i32 (fmul b64 v01 (Fin 765)))
        | Mod17 \<Rightarrow> map_option (\<lambda>i. gray (word_of_int (min 16 i * 15))) (f_to_i32 (fmul b64 v01 (Fin 17)))
        | HsRainbow \<Rightarrow> map_option (\<lambda>i. rainbow_from_index (min 1785 i)) (f_to_i32 (fmul b64 v01 (Fin 1785)))
        | Spectral1530 \<Rightarrow> map_option (\<lambda>i. hue1530 (min 1529 i)) (f_to_i32 (fmul b64 v01 (Fin 1530)))
        | _ \<Rightarrow>
            Option.bind (wave turn) (\<lambda>r.
            Option.bind (wave (fadd b64 turn (rnd b64 (2094395 / 10 ^ 6)))) (\<lambda>g.
            Option.bind (wave (fadd b64 turn (rnd b64 (418879 / 10 ^ 5)))) (\<lambda>b. Some (r, g, b))))))"

section \<open>Colouring a field\<close>

definition normalize_raw_field :: "fl \<Rightarrow> fl \<Rightarrow> fl" where
  "normalize_raw_field r bailout =
    (if \<not> fis_finite r then Fin 1
     else if fle r (Fin 0) then Fin 0
     else fmin (Fin 1) (fdiv b64 r bailout))"

text \<open>
  What \<^verbatim>\<open>colorize_direct\<close> reads of the parameters; the field is the frame in row order: the iteration
  counts with the squared magnitudes (no magnitudes unless they were recorded), or the values.
\<close>

record color_params =
  co_colormap :: colormap
  co_program :: "color_program option"
  co_iterations :: int
  co_bailout :: fl
  co_smooth :: bool

definition program_rgb :: "program_color \<Rightarrow> rgb" where
  "program_rgb c = (pc_r c, pc_g c, pc_b c)"

definition escape_pixel :: "libm \<Rightarrow> (fl \<Rightarrow> fl) \<Rightarrow> color_params \<Rightarrow> bool \<Rightarrow> int \<Rightarrow> fl \<Rightarrow> rgb option" where
  "escape_pixel L lg p smooth iter nrm =
    (case co_program p of
       Some cp \<Rightarrow>
         (if iter \<ge> co_iterations p then Some (program_rgb (colorize_interior cp))
          else
            let input = (if smooth then fdiv b64 (smooth_mu lg iter nrm) (Fin 32)
                 else fdiv b64 (fadd b64 (f_of_int b64 iter) (Fin 1)) (fadd b64 (f_of_int b64 (co_iterations p)) (Fin 2)))
            in map_option program_rgb (colorize cp input))
     | None \<Rightarrow> colorize_escape L lg iter (co_iterations p) (co_colormap p) nrm smooth)"

definition field_pixel :: "libm \<Rightarrow> (fl \<Rightarrow> fl) \<Rightarrow> color_params \<Rightarrow> fl \<Rightarrow> rgb option" where
  "field_pixel L lg p fv =
    (case co_program p of
       Some cp \<Rightarrow>
         (if \<not> fis_finite fv then Some (program_rgb (colorize_invalid cp))
          else map_option program_rgb (colorize cp (normalize_raw_field fv (co_bailout p))))
     | None \<Rightarrow>
         if co_colormap p = HsRainbow then colorize_field_hs lg fv
         else if co_smooth p then colorize_field_smooth lg fv (co_colormap p)
         else colorize_unit_field L (normalize_raw_field fv (co_bailout p)) (co_colormap p))"

fun all_some :: "'a option list \<Rightarrow> 'a list option" where
  "all_some [] = Some []"
| "all_some (x # xs) = Option.bind x (\<lambda>y. map_option ((#) y) (all_some xs))"

datatype field_data = Escape_Field "int list" "fl list" | Value_Field "fl list"

definition colorize_direct :: "libm \<Rightarrow> (fl \<Rightarrow> fl) \<Rightarrow> color_params \<Rightarrow> field_data \<Rightarrow> rgb list option" where
  "colorize_direct L lg p field =
    (case field of
       Escape_Field iters norms \<Rightarrow>
         (let smooth = (co_smooth p \<and> norms \<noteq> [] \<and> length norms = length iters)
          in all_some (map (\<lambda>i. escape_pixel L lg p smooth (iters ! i) (if smooth then norms ! i else Fin 0)) [0..<length iters]))
     | Value_Field vs \<Rightarrow> all_some (map (field_pixel L lg p) vs))"

end
