(* ===== verification/ColormapProperties.thy ===== *)
theory ColormapProperties
  imports Colormap
begin

text \<open>
  Where the palettes are defined: intervals of doubles with integer bounds are closed under the rounded
  operations, so every conversion to \<^verbatim>\<open>int\<close> in the palettes stays in range. The colour wheels are exact.
\<close>

section \<open>Intervals\<close>

definition fin_in :: "int \<Rightarrow> int \<Rightarrow> fl \<Rightarrow> bool" where
  "fin_in a b x \<longleftrightarrow> fis_finite x \<and> of_int a \<le> fval x \<and> fval x \<le> of_int b"

lemma fin_in_mono: "fin_in a b x \<Longrightarrow> a' \<le> a \<Longrightarrow> b \<le> b' \<Longrightarrow> fin_in a' b' x"
  unfolding fin_in_def by (metis dual_order.trans of_int_le_iff)

lemma fin_in_Fin: "of_int a \<le> x \<Longrightarrow> x \<le> of_int b \<Longrightarrow> fin_in a b (Fin x)"
  by (simp add: fin_in_def)

lemma rnd_rat_int_bounds:
  assumes "of_int a \<le> x" "x \<le> of_int b" "\<bar>a\<bar> < 2 ^ 53" "\<bar>b\<bar> < 2 ^ 53"
  shows "of_int a \<le> rnd_rat b64 x \<and> rnd_rat b64 x \<le> of_int b"
proof (cases "x = 0")
  case True
  then show ?thesis using assms by (simp add: rnd_rat_def)
next
  case False
  have "\<bar>of_int a :: rat\<bar> < 2 ^ 53" "\<bar>of_int b :: rat\<bar> < 2 ^ 53"
    using assms(3,4) by (metis of_int_abs of_int_less_iff of_int_numeral of_int_power)+
  then have "\<bar>x\<bar> < 2 powi 53" using assms(1,2) by simp
  then have "quantum b64 x \<le> 0" using False quantum_le [of x 53 b64] by (simp add: b64_def)
  then obtain k where k: "quantum b64 x = - int k" by (metis nonpos_int_cases)
  have s: "x / 2 powi quantum b64 x = x * 2 ^ k" by (simp add: k power_int_minus divide_inverse)
  have r: "rnd_rat b64 x = of_int (rhe (x * 2 ^ k)) / 2 ^ k"
    unfolding rnd_rat_def s by (simp add: k power_int_minus divide_inverse)
  have "rhe (x * 2 ^ k) \<le> b * 2 ^ k" using assms(2) by (intro rhe_le_of_int) simp
  moreover have "a * 2 ^ k \<le> rhe (x * 2 ^ k)" using assms(1) by (intro of_int_le_rhe) simp
  ultimately have "of_int a * 2 ^ k \<le> (of_int (rhe (x * 2 ^ k)) :: rat)" "(of_int (rhe (x * 2 ^ k)) :: rat) \<le> of_int b * 2 ^ k"
    by (metis of_int_le_iff of_int_mult of_int_numeral of_int_power)+
  then show ?thesis unfolding r by (simp add: le_divide_eq divide_le_eq)
qed

lemma rnd_in:
  assumes "of_int a \<le> x" "x \<le> of_int b" "\<bar>a\<bar> < 2 ^ 53" "\<bar>b\<bar> < 2 ^ 53"
  shows "fin_in a b (rnd b64 x)"
proof -
  note r = rnd_rat_int_bounds [OF assms]
  have "\<bar>of_int a :: rat\<bar> < 2 ^ 53" "\<bar>of_int b :: rat\<bar> < 2 ^ 53"
    using assms(3,4) by (metis of_int_abs of_int_less_iff of_int_numeral of_int_power)+
  with r have "\<bar>rnd_rat b64 x\<bar> < 2 ^ 53" by linarith
  also have "(2 :: rat) ^ 53 < 2 powi emax b64" by (simp add: b64_def)
  finally have "\<not> 2 powi emax b64 \<le> \<bar>rnd_rat b64 x\<bar>" by simp
  then show ?thesis using r assms(1,2) by (auto simp: rnd_def Let_def fin_in_def fis_finite_def fval_def)
qed

lemma fadd_in:
  assumes "fin_in a b x" "fin_in c d y" "\<bar>a + c\<bar> < 2 ^ 53" "\<bar>b + d\<bar> < 2 ^ 53"
  shows "fin_in (a + c) (b + d) (fadd b64 x y)"
proof -
  have s: "of_int (a + c) \<le> fval x + fval y" "fval x + fval y \<le> of_int (b + d)" using assms(1,2) by (auto simp: fin_in_def)
  show ?thesis using rnd_in [OF s assms(3,4)] assms(1,2)
    by (cases x; cases y) (auto simp: fadd_def fin_in_def fis_finite_def fval_def)
qed

lemma fneg_in: "fin_in c d y \<Longrightarrow> fin_in (- d) (- c) (fneg y)"
  using fneg_finite [of y] by (auto simp: fin_in_def)

lemma fsub_in:
  assumes "fin_in a b x" "fin_in c d y" "\<bar>a - d\<bar> < 2 ^ 53" "\<bar>b - c\<bar> < 2 ^ 53"
  shows "fin_in (a - d) (b - c) (fsub b64 x y)"
  using fadd_in [OF assms(1) fneg_in [OF assms(2)]] assms(3,4) by (simp add: fsub_def)

lemma fmul_product_in:
  assumes "fis_finite x" "fis_finite y" "of_int a \<le> fval x * fval y" "fval x * fval y \<le> of_int b" "\<bar>a\<bar> < 2 ^ 53" "\<bar>b\<bar> < 2 ^ 53"
  shows "fin_in a b (fmul b64 x y)"
proof -
  have n: "x \<noteq> NaN" "y \<noteq> NaN" using assms(1,2) by (auto simp: fis_finite_def)
  have z: "fis_finite (signed_zero s)" "fval (signed_zero s) = 0" for s
    by (simp_all add: signed_zero_def fis_finite_def fval_def)
  show ?thesis using rnd_in [OF assms(3-6)] assms(1-4) n z by (auto simp: fmul_def fin_in_def Let_def)
qed

lemma fmul_in:
  assumes "fin_in a b x" "fin_in c d y" "0 \<le> a" "0 \<le> c" "b * d < 2 ^ 53"
  shows "fin_in (a * c) (b * d) (fmul b64 x y)"
proof -
  have p: "of_int (a * c) \<le> fval x * fval y" "fval x * fval y \<le> of_int (b * d)"
    using assms(1-4) unfolding fin_in_def of_int_mult by (intro mult_mono; force)+
  have "(0::int) \<le> a * c" using assms(3,4) by simp
  moreover have "a * c \<le> b * d" using p by (metis of_int_le_iff order_trans)
  ultimately show ?thesis using assms by (intro fmul_product_in p) (auto simp: fin_in_def)
qed

lemma fmul_sym_in:
  assumes "fin_in (- a) a x" "fin_in (- b) b y" "0 \<le> a" "0 \<le> b" "a * b < 2 ^ 53"
  shows "fin_in (- (a * b)) (a * b) (fmul b64 x y)"
proof -
  have "\<bar>fval x\<bar> \<le> of_int a" "\<bar>fval y\<bar> \<le> of_int b" using assms(1,2) by (auto simp: fin_in_def)
  then have "\<bar>fval x * fval y\<bar> \<le> of_int (a * b)" unfolding abs_mult of_int_mult by (intro mult_mono) auto
  then have "of_int (- (a * b)) \<le> fval x * fval y" "fval x * fval y \<le> of_int (a * b)" by auto
  then show ?thesis using assms by (intro fmul_product_in) (auto simp: fin_in_def)
qed

lemma fdiv_quotient_in:
  assumes "fis_finite x" "fis_finite y" "fval y \<noteq> 0" "of_int a \<le> fval x / fval y" "fval x / fval y \<le> of_int b"
    "\<bar>a\<bar> < 2 ^ 53" "\<bar>b\<bar> < 2 ^ 53"
  shows "fin_in a b (fdiv b64 x y)"
proof -
  have n: "x \<noteq> NaN" "y \<noteq> NaN" using assms(1,2) by (auto simp: fis_finite_def)
  have z: "fis_finite (signed_zero s)" "fval (signed_zero s) = 0" for s
    by (simp_all add: signed_zero_def fis_finite_def fval_def)
  show ?thesis using rnd_in [OF assms(4-7)] assms(1-5) n z by (auto simp: fdiv_def fin_in_def Let_def)
qed

lemma fdiv_const_in:
  assumes "fin_in (a * k) (b * k) x" "0 < k" "\<bar>a\<bar> < 2 ^ 53" "\<bar>b\<bar> < 2 ^ 53"
  shows "fin_in a b (fdiv b64 x (Fin (of_int k)))"
proof -
  have k: "0 < (of_int k :: rat)" using assms(2) by simp
  have "of_int a \<le> fval x / of_int k" "fval x / of_int k \<le> of_int b"
    using assms(1) k by (simp_all add: fin_in_def le_divide_eq divide_le_eq)
  then show ?thesis using assms k by (intro fdiv_quotient_in) (auto simp: fin_in_def)
qed

lemma fabs_in: "fin_in (- a) a x \<Longrightarrow> fin_in 0 a (fabs x)"
  by (cases x) (auto simp: fin_in_def fis_finite_def fval_def)

lemma ffmod_in:
  assumes "fin_in a b x" "0 \<le> a" "0 < k"
  shows "fin_in 0 k (ffmod x (Fin (of_int k)))"
proof -
  have k: "(0::rat) < of_int k" using assms(3) by simp
  have x: "fis_finite x" "0 \<le> fval x" using assms(1,2) by (auto simp: fin_in_def)
  have n: "x \<noteq> NaN" using x(1) by (auto simp: fis_finite_def)
  define q where "q = fval x / of_int k"
  have q: "0 \<le> q" "fval x = q * of_int k" using x k by (simp_all add: q_def)
  have "0 \<le> q - of_int \<lfloor>q\<rfloor>" "q - of_int \<lfloor>q\<rfloor> \<le> 1" by linarith+
  then have "0 \<le> (q - of_int \<lfloor>q\<rfloor>) * of_int k" "(q - of_int \<lfloor>q\<rfloor>) * of_int k \<le> 1 * of_int k"
    using k by (auto intro: mult_right_mono)
  then have "0 \<le> fval x - of_int (rtrunc q) * of_int k" "fval x - of_int (rtrunc q) * of_int k \<le> of_int k"
    using q by (simp_all add: rtrunc_def left_diff_distrib)
  then show ?thesis using x n k
    by (auto simp: ffmod_def fin_in_def Let_def q_def signed_zero_def fis_finite_def fval_def)
qed

lemma f_to_i32_in:
  assumes "fin_in a b x" "- (2 ^ 31) \<le> a" "b < 2 ^ 31"
  obtains i where "f_to_i32 x = Some i" "a \<le> i" "i \<le> b"
proof -
  have "of_int a \<le> fval x" "fval x \<le> of_int b" using assms(1) by (auto simp: fin_in_def)
  then have "a \<le> rtrunc (fval x)" "rtrunc (fval x) \<le> b" unfolding rtrunc_def by (cases "0 \<le> fval x"; simp; linarith)+
  then show thesis using assms by (intro that [of "rtrunc (fval x)"]) (auto simp: f_to_i32_def fin_in_def)
qed

lemma f_of_int_in: "\<bar>i\<bar> < 2 ^ 53 \<Longrightarrow> fin_in i i (f_of_int b64 i)"
  unfolding f_of_int_def by (rule rnd_in) auto

section \<open>What is used of the library\<close>

text \<open>The documented behaviour of \<^verbatim>\<open>std::cos\<close> and \<^verbatim>\<open>std::log2\<close> on doubles.\<close>

definition cos_ok :: "libm \<Rightarrow> bool" where
  "cos_ok L \<longleftrightarrow> (\<forall>x. fis_finite x \<longrightarrow> fin_in (- 1) 1 (m_cos L x))"

definition log2_ok :: "(fl \<Rightarrow> fl) \<Rightarrow> bool" where
  "log2_ok lg \<longleftrightarrow> lg PosInf = PosInf
     \<and> (\<forall>x. fis_finite x \<and> 0 < fval x \<longrightarrow> fin_in (- 1075) 1024 (lg x) \<and> (1 < fval x \<longrightarrow> 0 < fval (lg x)))"

section \<open>The building blocks are defined\<close>

definition defined :: "'a option \<Rightarrow> bool" where
  "defined r \<longleftrightarrow> r \<noteq> None"

lemma defined_simps [simp]:
  "defined (Some x)" "defined (map_option f r) \<longleftrightarrow> defined r"
  by (simp_all add: defined_def)

lemma defined_bind: "defined r \<Longrightarrow> (\<And>x. r = Some x \<Longrightarrow> defined (f x)) \<Longrightarrow> defined (Option.bind r f)"
  by (cases r) (auto simp: defined_def)

lemma f_to_i32_defined: "fin_in a b x \<Longrightarrow> - (2 ^ 31) \<le> a \<Longrightarrow> b < 2 ^ 31 \<Longrightarrow> defined (f_to_i32 x)"
  by (metis f_to_i32_in defined_simps(1))

lemma smooth_mu_in:
  assumes "log2_ok lg" "0 \<le> iter" "iter \<le> 2 ^ 30"
  shows "fin_in 0 (2 ^ 30 + 2000) (smooth_mu lg iter nrm)"
proof (cases "flt (Fin 1) nrm")
  case False
  then show ?thesis using f_of_int_in [of iter] assms(2,3) by (auto simp: smooth_mu_def intro: fin_in_mono)
next
  case True
  have i: "fin_in (iter + 1) (iter + 1) (fadd b64 (f_of_int b64 iter) (Fin 1))"
    using assms(2,3) by (intro fadd_in f_of_int_in fin_in_Fin) auto
  define mu where "mu = fsub b64 (fadd b64 (f_of_int b64 iter) (Fin 1)) (lg (lg nrm))"
  have s: "smooth_mu lg iter nrm = (if flt (Fin 0) mu then mu else Fin 0)" using True by (simp add: smooth_mu_def mu_def)
  have z: "fin_in 0 (2 ^ 30 + 2000) (Fin 0)" by (rule fin_in_Fin) simp_all
  show ?thesis
  proof (cases "nrm = PosInf")
    case inf: True
    have "fadd b64 (f_of_int b64 iter) (Fin 1) \<noteq> PosInf" "fadd b64 (f_of_int b64 iter) (Fin 1) \<noteq> NaN"
      using i by (auto simp: fin_in_def fis_finite_def)
    then have "\<not> flt (Fin 0) mu" using inf assms(1) by (simp add: mu_def log2_ok_def fsub_def fadd_def flt_def)
    then show ?thesis using s z by simp
  next
    case False
    then have n: "fis_finite nrm" "1 < fval nrm" using True by (cases nrm; auto simp: flt_def fis_finite_def fval_def)+
    have l: "fis_finite (lg nrm)" "0 < fval (lg nrm)" using n assms(1) by (auto simp: log2_ok_def fin_in_def)
    then have ll: "fin_in (- 1075) 1024 (lg (lg nrm))" using assms(1) by (auto simp: log2_ok_def)
    have m: "fin_in (iter + 1 - 1024) (iter + 1 - (- 1075)) mu"
      unfolding mu_def using assms(2,3) by (intro fsub_in i ll) auto
    have "fin_in 0 (iter + 1 - (- 1075)) mu" if "flt (Fin 0) mu"
      using that m flt_finite [of "Fin 0" mu] by (auto simp: fin_in_def)
    then show ?thesis unfolding s using z assms(3) by (auto intro: fin_in_mono)
  qed
qed

lemma hsv_defined:
  assumes "fin_in 0 360 h"
  shows "defined (hsv_rgb h)"
proof -
  define x where "x = fmul b64 (fmul b64 (Fin 1) (Fin 1))
      (fsub b64 (Fin 1) (fabs (fsub b64 (ffmod (fdiv b64 h (Fin 60)) (Fin 2)) (Fin 1))))"
  have one: "fin_in 1 1 (Fin 1)" by (rule fin_in_Fin) simp_all
  have c: "fin_in 1 1 (fmul b64 (Fin 1) (Fin 1))" using fmul_in [OF one one] by simp
  have hh: "fin_in 0 6 (fdiv b64 h (Fin 60))" using fdiv_const_in [of 0 60 6 h] assms by simp
  have "fin_in 0 2 (ffmod (fdiv b64 h (Fin 60)) (Fin 2))" using ffmod_in [OF hh, of 2] by simp
  from fsub_in [OF this one] have "fin_in (- 1) 1 (fsub b64 (ffmod (fdiv b64 h (Fin 60)) (Fin 2)) (Fin 1))" by simp
  from fsub_in [OF one fabs_in [OF this]]
  have "fin_in 0 1 (fsub b64 (Fin 1) (fabs (fsub b64 (ffmod (fdiv b64 h (Fin 60)) (Fin 2)) (Fin 1))))" by simp
  from fmul_in [OF c this] have x: "fin_in 0 1 x" by (simp add: x_def)
  have m: "fin_in 0 0 (fsub b64 (Fin 1) (fmul b64 (Fin 1) (Fin 1)))" using fsub_in [OF one c] by simp
  have ch: "defined (f_to_i32 (fmul b64 (fadd b64 y (fsub b64 (Fin 1) (fmul b64 (Fin 1) (Fin 1)))) (Fin 255)))"
    if "fin_in 0 1 y" for y
  proof -
    have "fin_in 0 1 (fadd b64 y (fsub b64 (Fin 1) (fmul b64 (Fin 1) (Fin 1))))" using fadd_in [OF that m] by simp
    then have "fin_in (0 * 0) (1 * 255) (fmul b64 (fadd b64 y (fsub b64 (Fin 1) (fmul b64 (Fin 1) (Fin 1)))) (Fin 255))"
      by (rule fmul_in) (auto intro: fin_in_Fin)
    then show ?thesis by (rule f_to_i32_defined) simp_all
  qed
  have c1: "fin_in 0 1 (fmul b64 (Fin 1) (Fin 1))" using c by (rule fin_in_mono) simp_all
  have z: "fin_in 0 1 (Fin 0)" by (rule fin_in_Fin) simp_all
  note chs = ch [OF c1] ch [OF x] ch [OF z]
  show ?thesis
    unfolding hsv_rgb_def hsv_to_rgb_def Let_def x_def [symmetric] using chs
    by (auto intro!: defined_bind split: prod.splits)
qed

lemma pi_in: "fin_in 3 4 pi_const"
  unfolding pi_const_def by (rule rnd_in) simp_all

lemma wave_in:
  assumes "cos_ok L" "fis_finite x"
  shows "fin_in 0 256 (fsub b64 (Fin 128) (fmul b64 (Fin 128) (m_cos L x)))"
proof -
  have c: "fin_in (- 1) 1 (m_cos L x)" using assms by (simp add: cos_ok_def)
  have k: "fin_in (- 128) 128 (Fin 128)" and k': "fin_in 128 128 (Fin 128)" by (auto intro: fin_in_Fin)
  from fmul_sym_in [OF k c] have "fin_in (- 128) 128 (fmul b64 (Fin 128) (m_cos L x))" by simp
  from fsub_in [OF k' this] show ?thesis by simp
qed

lemma cos_color_defined:
  assumes "cos_ok L" "fin_in 0 1 n" "0 \<le> k" "k \<le> 1000"
  shows "defined (f_to_i32 (cos_color L n (Fin (of_int k))))"
proof -
  have k: "fin_in 0 1000 (Fin (of_int k))" using assms(3,4) by (intro fin_in_Fin) auto
  have "fin_in 0 (1000 * 1) (fmul b64 (Fin (of_int k)) n)" using fmul_in [OF k assms(2)] by simp
  from fmul_in [OF this pi_in] have "fis_finite (fmul b64 (fmul b64 (Fin (of_int k)) n) pi_const)"
    by (simp add: fin_in_def)
  from wave_in [OF assms(1) this] show ?thesis
    unfolding cos_color_def by (rule f_to_i32_defined) simp_all
qed

lemmas cos_color_consts = cos_color_defined [where k = 53, simplified] cos_color_defined [where k = 27, simplified]
  cos_color_defined [where k = 139, simplified]

section \<open>Gradients are defined\<close>

definition stop_ok :: "color_stop \<Rightarrow> bool" where
  "stop_ok s = (case s of (t, r, g, b) \<Rightarrow> fin_in 0 1 t \<and> \<bar>r\<bar> \<le> 255 \<and> \<bar>g\<bar> \<le> 255 \<and> \<bar>b\<bar> \<le> 255)"

lemma mix_int_defined:
  assumes u: "fin_in (- 2000000000000) 2000000000000 u" and a: "\<bar>a\<bar> \<le> 255" and z: "\<bar>z\<bar> \<le> 255"
  shows "defined (mix_int u a z)"
proof -
  have i: "fin_in (- 255) 255 (f_of_int b64 k)" if "\<bar>k\<bar> \<le> 255" for k
    by (rule fin_in_mono [of k k]) (use f_of_int_in [of k] that in auto)
  have one: "fin_in 1 1 (Fin 1)" by (rule fin_in_Fin) simp_all
  have d: "fin_in (- 2000000000001) 2000000000001 (fsub b64 (Fin 1) u)"
    by (rule fin_in_mono [OF fsub_in [OF one u]]) simp_all
  have p: "fin_in (- (255 * 2000000000001)) (255 * 2000000000001) (fmul b64 (f_of_int b64 a) (fsub b64 (Fin 1) u))"
    by (rule fmul_sym_in [OF i [OF a] d]) simp_all
  have q: "fin_in (- (255 * 2000000000000)) (255 * 2000000000000) (fmul b64 (f_of_int b64 z) u)"
    by (rule fmul_sym_in [OF i [OF z] u]) simp_all
  have r: "fin_in (- 2000000000000000) 2000000000000000
      (fadd b64 (fmul b64 (f_of_int b64 a) (fsub b64 (Fin 1) u)) (fmul b64 (f_of_int b64 z) u))"
    by (rule fin_in_mono [OF fadd_in [OF p q]]) simp_all
  have "defined (fllround x)" if x: "fin_in (- 2000000000000000) 2000000000000000 x" for x
  proof -
    have "- 2000000000000000 \<le> fval x" "fval x \<le> 2000000000000000" using x by (auto simp: fin_in_def)
    then have "- 3000000000000000 \<le> rat_round_away (fval x) \<and> rat_round_away (fval x) \<le> 3000000000000000"
      unfolding rat_round_away_def by (cases "0 \<le> fval x"; simp; linarith)
    then show ?thesis using x by (auto simp: fllround_def fin_in_def Let_def defined_def)
  qed
  with r show ?thesis by (simp add: mix_int_def)
qed

lemma width_in:
  assumes "fin_in 0 1 t0" "fin_in 0 1 t1" "fin_in 0 1 t"
  shows "fin_in (- 2000000000000) 2000000000000 (fdiv b64 (fsub b64 t t0) (fmax (rnd b64 (1 / 10 ^ 12)) (fsub b64 t1 t0)))"
proof -
  define w where "w = fmax (rnd b64 (1 / 10 ^ 12)) (fsub b64 t1 t0)"
  have b: "\<bar>1 / 10 ^ 12 :: rat\<bar> < 1024" by simp
  have e: "1 / 2000000000000 \<le> 1 / 10 ^ 12 - eps" by (simp add: eps_def)
  have tiny: "fis_finite (rnd b64 (1 / 10 ^ 12))" "1 / 2000000000000 \<le> fval (rnd b64 (1 / 10 ^ 12))"
    using rnd_near [OF b] e by (auto simp: abs_le_iff)
  have d: "fin_in (- 1) 1 (fsub b64 x y)" if "fin_in 0 1 x" "fin_in 0 1 y" for x y using fsub_in [OF that] by simp
  have w: "fis_finite w" "1 / 2000000000000 \<le> fval w"
    using tiny d [OF assms(2,1)] by (auto simp: w_def fmax_def flt_finite fin_in_def)
  have n: "fis_finite (fsub b64 t t0)" "\<bar>fval (fsub b64 t t0)\<bar> \<le> 1" using d [OF assms(3,1)] by (auto simp: fin_in_def)
  have pos: "0 < fval w" using w(2) by linarith
  have "\<bar>fval (fsub b64 t t0) / fval w\<bar> \<le> 1 / (1 / 2000000000000)"
    unfolding abs_divide using n w pos by (intro frac_le) auto
  then have q: "- 2000000000000 \<le> fval (fsub b64 t t0) / fval w" "fval (fsub b64 t t0) / fval w \<le> 2000000000000"
    using abs_le_D1 abs_le_D2 by (fastforce, fastforce)
  show ?thesis
    unfolding w_def [symmetric] by (rule fdiv_quotient_in) (use n(1) w(1) pos q in simp_all)
qed

lemma gradient_scan_defined:
  "stop_ok s \<Longrightarrow> list_all stop_ok stops \<Longrightarrow> t = NaN \<or> fin_in 0 1 t \<Longrightarrow> defined (gradient_scan t s stops)"
proof (induction t s stops rule: gradient_scan.induct)
  case (1 t s)
  then show ?case by simp
next
  case (2 t t0 r0 g0 b0 t1 r1 g1 b1 stops)
  show ?case
  proof (cases "fle t t1")
    case True
    then have "fin_in 0 1 t" using "2.prems"(3) by (auto simp: fle_def flt_def feq_def)
    then have u: "fin_in (- 2000000000000) 2000000000000
        (fdiv b64 (fsub b64 t t0) (fmax (rnd b64 (1 / 10 ^ 12)) (fsub b64 t1 t0)))"
      using "2.prems"(1,2) by (intro width_in) (simp_all add: stop_ok_def)
    have b: "\<bar>r0\<bar> \<le> 255" "\<bar>g0\<bar> \<le> 255" "\<bar>b0\<bar> \<le> 255" "\<bar>r1\<bar> \<le> 255" "\<bar>g1\<bar> \<le> 255" "\<bar>b1\<bar> \<le> 255"
      using "2.prems"(1,2) by (simp_all add: stop_ok_def)
    show ?thesis unfolding gradient_scan.simps Let_def if_P [OF True]
      by (intro defined_bind mix_int_defined u b) simp_all
  next
    case False
    then show ?thesis using 2 by simp
  qed
qed

lemma gradient_defined:
  assumes "stops \<noteq> []" "list_all stop_ok stops"
  shows "defined (gradient_stops stops t)"
proof -
  define t' where "t' = (if flt (Fin 1) (if flt t (Fin 0) then Fin 0 else t) then Fin 1 else (if flt t (Fin 0) then Fin 0 else t))"
  have "t' = NaN \<or> fin_in 0 1 t'"
    by (cases t) (auto simp: t'_def flt_def fin_in_def fis_finite_def fval_def)
  then show ?thesis using assms gradient_scan_defined [of "hd stops" "tl stops" t']
    unfolding gradient_stops_def Let_def t'_def [symmetric] by (cases stops) auto
qed

lemma palette_stops_ok: "palette_stops palette = Some stops \<Longrightarrow> stops \<noteq> [] \<and> list_all stop_ok stops"
proof -
  have c: "fin_in 0 1 (cent n)" if "0 \<le> n" "n \<le> 100" for n
    unfolding cent_def using that by (intro rnd_in) auto
  show "palette_stops palette = Some stops \<Longrightarrow> ?thesis"
    by (cases palette) (auto simp: palette_stops_def stop_ok_def c)
qed

lemma with_gradient_defined: "(palette_stops palette = None \<Longrightarrow> defined k) \<Longrightarrow> defined (with_gradient t palette k)"
  using palette_stops_ok gradient_defined by (auto simp: with_gradient_def split: option.splits)

section \<open>Every palette is defined\<close>

lemma scaled_defined:
  assumes "fin_in 0 1 t" "0 \<le> k" "k < 2 ^ 30"
  shows "defined (f_to_i32 (fmul b64 t (Fin (of_int k))))"
proof -
  have "fin_in 0 k (Fin (of_int k))" using assms(2) by (intro fin_in_Fin) auto
  from fmul_in [OF assms(1) this] assms have "fin_in 0 k (fmul b64 t (Fin (of_int k)))" by simp
  then show ?thesis by (rule f_to_i32_defined) (use assms in auto)
qed

lemmas scaled_consts = scaled_defined [where k = 255, simplified] scaled_defined [where k = 765, simplified]
  scaled_defined [where k = 17, simplified] scaled_defined [where k = 1785, simplified]
  scaled_defined [where k = 1530, simplified]

lemma turn_in: "fin_in 0 1 t \<Longrightarrow> fin_in 0 360 (fmul b64 t (Fin 360))"
  using fmul_in [of 0 1 t 0 360 "Fin 360"] fin_in_Fin [of 0 360 360] by simp

lemma smooth_escape_defined:
  assumes "cos_ok L" "fin_in 0 (2 ^ 30 + 2000) mu" "fin_in 0 1 t"
  shows "defined (smooth_escape_color L mu t palette)"
proof -
  have mu: "fin_in 0 1073743824 mu" using assms(2) by simp
  have tri: "defined (Option.bind (f_to_i32 (fmul b64 t (Fin 765))) (\<lambda>m.
     Option.bind (f_to_i32 (fmul b64 (fsub b64 (fmul b64 t (Fin 765)) (f_of_int b64 m)) (Fin 255))) (\<lambda>d.
     Some (tri_band (tmod (tdiv m 255) 3) d))))"
  proof -
    have mf: "fin_in 0 765 (fmul b64 t (Fin 765))"
      using fmul_in [of 0 1 t 0 765 "Fin 765"] fin_in_Fin [of 0 765 765] assms(3) by simp
    then obtain m where m: "f_to_i32 (fmul b64 t (Fin 765)) = Some m" "0 \<le> m" "m \<le> 765" by (rule f_to_i32_in) auto
    have "fin_in m m (f_of_int b64 m)" using m by (intro f_of_int_in) auto
    then have "fin_in 0 765 (f_of_int b64 m)" by (rule fin_in_mono) (use m in auto)
    from fsub_in [OF mf this] have f: "fin_in (- 765) 765 (fsub b64 (fmul b64 t (Fin 765)) (f_of_int b64 m))" by simp
    have k: "fin_in (- 255) 255 (Fin 255)" by (rule fin_in_Fin) simp_all
    from fmul_sym_in [OF f k]
    have "defined (f_to_i32 (fmul b64 (fsub b64 (fmul b64 t (Fin 765)) (f_of_int b64 m)) (Fin 255)))"
      by (intro f_to_i32_defined [of "- 195075" 195075]) simp_all
    with m(1) show ?thesis by (auto intro: defined_bind)
  qed
  have muf: "defined (f_to_i32 mu)" using mu by (rule f_to_i32_defined) simp_all
  have spec: "defined (f_to_i32 (ffmod (fsub b64 mu (Fin 255)) (Fin 1530)))" if "\<not> flt mu (Fin 255)"
  proof -
    have "fin_in 255 1073743824 mu" using that mu flt_finite [of mu "Fin 255"] by (auto simp: fin_in_def)
    from fsub_in [OF this fin_in_Fin [of 255 255 255]]
    have "fin_in 0 1073743569 (fsub b64 mu (Fin 255))" by simp
    from ffmod_in [OF this, of 1530] show ?thesis by (intro f_to_i32_defined [of 0 1530]) simp_all
  qed
  show ?thesis unfolding smooth_escape_color_def
    by (rule with_gradient_defined)
      (cases palette; simp add: hsv_defined turn_in assms tri scaled_consts muf spec Let_def palette_stops_def;
        intro defined_bind cos_color_consts assms; simp)
qed

lemma plain_escape_defined:
  assumes "cos_ok L" "0 \<le> iter" "iter \<le> 2 ^ 30" "fin_in 0 1 n"
  shows "defined (plain_escape_color L iter n palette)"
proof -
  have "fin_in iter iter (f_of_int b64 iter)" using assms(2,3) by (intro f_of_int_in) auto
  from ffmod_in [OF this assms(2), of 1440] have "fin_in 0 1440 (ffmod (f_of_int b64 iter) (Fin 1440))" by simp
  then have "fin_in 0 360 (fdiv b64 (ffmod (f_of_int b64 iter) (Fin 1440)) (Fin 4))"
    using fdiv_const_in [of 0 4 360] by simp
  note h = hsv_defined [OF this]
  show ?thesis unfolding plain_escape_color_def
    by (rule with_gradient_defined)
      (cases palette; simp add: h assms scaled_consts Let_def palette_stops_def;
        intro defined_bind cos_color_consts assms; simp)
qed

lemma colorize_escape_defined:
  assumes "cos_ok L" "log2_ok lg" "0 \<le> iter" "max_iter \<le> 2 ^ 30"
  shows "defined (colorize_escape L lg iter max_iter palette nrm smooth)"
proof (cases "iter \<ge> max_iter")
  case True
  then show ?thesis by (simp add: colorize_escape_def)
next
  case False
  then have i: "iter \<le> 2 ^ 30" using assms(4) by simp
  show ?thesis
  proof (cases smooth)
    case True
    have mu: "fin_in 0 (2 ^ 30 + 2000) (smooth_mu lg iter nrm)" by (rule smooth_mu_in [OF assms(2,3) i])
    then have "fin_in (0 * 32) (2 ^ 30 * 32) (smooth_mu lg iter nrm)" by (rule fin_in_mono) simp_all
    then have "fin_in 0 (2 ^ 30) (fdiv b64 (smooth_mu lg iter nrm) (Fin 32))" using fdiv_const_in [of 0 32 "2 ^ 30"] by simp
    from ffmod_in [OF this, of 1] have "fin_in 0 1 (ffmod (fdiv b64 (smooth_mu lg iter nrm) (Fin 32)) (Fin 1))" by simp
    then show ?thesis using True False smooth_escape_defined [OF assms(1) mu] by (simp add: colorize_escape_def Let_def)
  next
    case ns: False
    have a: "fin_in (iter + 1) (iter + 1) (fadd b64 (f_of_int b64 iter) (Fin 1))"
      using assms(3) i by (intro fadd_in f_of_int_in fin_in_Fin) auto
    have b: "fin_in (max_iter + 2) (max_iter + 2) (fadd b64 (f_of_int b64 max_iter) (Fin 2))"
      using assms(3,4) False by (intro fadd_in f_of_int_in fin_in_Fin) auto
    define x y where "x = fadd b64 (f_of_int b64 iter) (Fin 1)" and "y = fadd b64 (f_of_int b64 max_iter) (Fin 2)"
    have xy: "fis_finite x" "fis_finite y" "fval x = of_int (iter + 1)" "fval y = of_int (max_iter + 2)"
      using a b by (auto simp: fin_in_def x_def y_def)
    have "(of_int (iter + 1) :: rat) \<le> of_int (max_iter + 2)" "(0 :: rat) \<le> of_int (iter + 1)" "(0 :: rat) < of_int (max_iter + 2)"
      using assms(3) False by simp_all
    then have "0 \<le> fval x / fval y" "fval x / fval y \<le> 1" "fval y \<noteq> 0" unfolding xy by (simp_all add: divide_le_eq)
    then have "fin_in 0 1 (fdiv b64 x y)" using xy by (intro fdiv_quotient_in) auto
    from plain_escape_defined [OF assms(1,3) i this] show ?thesis
      using False ns by (simp add: colorize_escape_def Let_def x_def y_def)
  qed
qed

lemma colorize_unit_field_defined:
  assumes "cos_ok L" "v \<noteq> NaN"
  shows "defined (colorize_unit_field L v palette)"
proof -
  define w where "w = (if flt (Fin 1) (if flt v (Fin 0) then Fin 0 else v) then Fin 1 else (if flt v (Fin 0) then Fin 0 else v))"
  have w: "fin_in 0 1 w"
    using assms(2) by (cases v) (auto simp: w_def flt_def fin_in_def fis_finite_def fval_def)
  define turn where "turn = fmul b64 (fmul b64 w (Fin 2)) pi_const"
  have "fin_in 0 2 (fmul b64 w (Fin 2))" using fmul_in [OF w fin_in_Fin [of 2 2 2]] by simp
  from fmul_in [OF this pi_in] have t: "fin_in 0 8 turn" by (simp add: turn_def)
  have s: "fis_finite (fadd b64 turn (rnd b64 q))" if "0 \<le> q" "q \<le> 5" for q
  proof -
    have "fin_in 0 5 (rnd b64 q)" using that by (intro rnd_in) auto
    from fadd_in [OF t this] show ?thesis by (simp add: fin_in_def)
  qed
  have wv: "fis_finite x \<Longrightarrow> defined (f_to_i32 (fsub b64 (Fin 128) (fmul b64 (Fin 128) (m_cos L x))))" for x
    by (rule f_to_i32_defined [OF wave_in [OF assms(1)]]) simp_all
  have tf: "fis_finite turn" using t by (simp add: fin_in_def)
  have d: "defined (Option.bind (map_option byte (f_to_i32 (fsub b64 (Fin 128) (fmul b64 (Fin 128) (m_cos L turn))))) (\<lambda>r.
    Option.bind (map_option byte (f_to_i32 (fsub b64 (Fin 128) (fmul b64 (Fin 128) (m_cos L (fadd b64 turn (rnd b64 (2094395 / 10 ^ 6)))))))) (\<lambda>g.
    Option.bind (map_option byte (f_to_i32 (fsub b64 (Fin 128) (fmul b64 (Fin 128) (m_cos L (fadd b64 turn (rnd b64 (418879 / 10 ^ 5)))))))) (\<lambda>b.
      Some (r, g, b)))))"
    using wv [OF tf] wv [OF s [of "2094395 / 10 ^ 6"]] wv [OF s [of "418879 / 10 ^ 5"]]
    by (intro defined_bind) simp_all
  show ?thesis
    unfolding colorize_unit_field_def Let_def w_def [symmetric] turn_def [symmetric]
    by (rule with_gradient_defined)
      (cases palette; simp only: colormap.case palette_stops_def option.simps defined_simps d hsv_defined [OF turn_in [OF w]]
        scaled_consts [OF w])
qed

lemma log2_in: "log2_ok lg \<Longrightarrow> fis_finite x \<Longrightarrow> \<not> fle x (Fin 0) \<Longrightarrow> fin_in (- 1075) 1024 (lg x)"
  using fle_finite [of x "Fin 0"] by (auto simp: log2_ok_def)

lemma colorize_field_hs_defined:
  assumes "log2_ok lg"
  shows "defined (colorize_field_hs lg x)"
proof (cases "fle x (Fin 0) \<or> \<not> fis_finite x")
  case True
  then show ?thesis by (simp add: colorize_field_hs_def)
next
  case False
  have "fin_in (1 * 35) (2 * 35) (Fin 36)" by (rule fin_in_Fin) simp_all
  then have q: "fin_in 1 2 (fdiv b64 (Fin 36) (Fin 35))" using fdiv_const_in [of 1 35 2 "Fin 36"] by simp
  have "fin_in (- 1077) 1077 (fsub b64 (fdiv b64 (Fin 36) (Fin 35)) (lg x))"
    by (rule fin_in_mono [OF fsub_in [OF q log2_in [OF assms, of x]]]) (use False in auto)
  from fmul_sym_in [OF this fin_in_Fin [of "- 35" 35 35]]
  have "defined (f_to_i32 (fmul b64 (fsub b64 (fdiv b64 (Fin 36) (Fin 35)) (lg x)) (Fin 35)))"
    by (intro f_to_i32_defined [of "- 37695" 37695]) simp_all
  then show ?thesis using False by (simp add: colorize_field_hs_def Let_def)
qed

lemma tmod_range: "0 \<le> i \<Longrightarrow> 0 < k \<Longrightarrow> 0 \<le> tmod i k \<and> tmod i k < k"
  by (simp add: tmod_nonneg)

lemma colorize_field_smooth_defined:
  assumes "log2_ok lg" "fis_finite x"
  shows "defined (colorize_field_smooth lg x palette)"
proof (cases "fle x (Fin 0)")
  case True
  then show ?thesis by (simp add: colorize_field_smooth_def)
next
  case False
  have two: "fin_in 2 2 (Fin 2)" by (rule fin_in_Fin) simp_all
  have b: "fin_in (- 1077) 1077 (fsub b64 (Fin 2) (lg x))"
    by (rule fin_in_mono [OF fsub_in [OF two log2_in [OF assms False]]]) simp_all
  have idx: "defined (f_to_i32 (fmul b64 (Fin (of_int k)) (fsub b64 (Fin 2) (lg x))))" if "0 \<le> k" "k \<le> 200" for k
  proof -
    have "fin_in (- k) k (Fin (of_int k))" using that(1) by (intro fin_in_Fin) auto
    from fmul_sym_in [OF this b that(1)] that
    have "fin_in (- (k * 1077)) (k * 1077) (fmul b64 (Fin (of_int k)) (fsub b64 (Fin 2) (lg x)))" by simp
    then show ?thesis by (rule f_to_i32_defined) (use that in auto)
  qed
  have h: "defined (hsv_rgb (fdiv b64 (f_of_int b64 (tmod (max 0 i) 1440)) (Fin 4)))" for i
  proof -
    have t: "0 \<le> tmod (max 0 i) 1440" "tmod (max 0 i) 1440 < 1440" using tmod_range [of "max 0 i" 1440] by auto
    then have "fin_in (0 * 4) (360 * 4) (f_of_int b64 (tmod (max 0 i) 1440))"
      by (intro fin_in_mono [OF f_of_int_in]) auto
    from fdiv_const_in [OF this] show ?thesis by (intro hsv_defined) simp
  qed
  note ids = idx [of 180, simplified] idx [of 96, simplified] idx [of 35, simplified] idx [of 191, simplified] idx [of 32, simplified]
  show ?thesis unfolding colorize_field_smooth_def Let_def if_not_P [OF False]
    by (rule with_gradient_defined)
      (cases palette; simp add: ids palette_stops_def; rule defined_bind; auto simp: ids h)
qed

section \<open>Frames\<close>

lemma all_some_defined: "list_all defined xs \<Longrightarrow> \<exists>ys. all_some xs = Some ys \<and> length ys = length xs"
  by (induction xs) (auto simp: defined_def)

lemma program_defined:
  assumes "valid_program cp"
  shows "defined (colorize cp input)"
proof (cases "fis_finite input")
  case True
  then show ?thesis using colorize_ok [of cp input] assms by (auto simp: valid_program_def)
next
  case False
  then show ?thesis by (simp add: colorize_def)
qed

lemma normalize_not_NaN: "normalize_raw_field r bailout \<noteq> NaN"
  by (auto simp: normalize_raw_field_def fmin_def flt_def)

text \<open>
  Fields that \<^verbatim>\<open>colorize_direct\<close> can colour: counts that are not negative, and for the smooth palettes
  values that are finite.
\<close>

definition field_ok :: "color_params \<Rightarrow> field_data \<Rightarrow> bool" where
  "field_ok p field =
    (case field of
       Escape_Field iters norms \<Rightarrow> list_all (\<lambda>i. 0 \<le> i) iters
     | Value_Field vs \<Rightarrow>
         co_program p = None \<and> co_smooth p \<and> co_colormap p \<noteq> HsRainbow \<longrightarrow> list_all fis_finite vs)"

definition frame_size :: "field_data \<Rightarrow> nat" where
  "frame_size field = (case field of Escape_Field iters norms \<Rightarrow> length iters | Value_Field vs \<Rightarrow> length vs)"

lemma direct_defined:
  assumes "cos_ok L" "log2_ok lg" "co_iterations p \<le> 2 ^ 30" "pred_option valid_program (co_program p)" "field_ok p field"
  shows "\<exists>frame. colorize_direct L lg p field = Some frame \<and> length frame = frame_size field"
proof (cases field)
  case (Escape_Field iters norms)
  have "defined (escape_pixel L lg p smooth i nrm)" if "0 \<le> i" for smooth i nrm
    using assms that by (auto simp: escape_pixel_def program_defined colorize_escape_defined Let_def split: option.splits)
  then have "list_all defined (map (\<lambda>i. escape_pixel L lg p s (iters ! i) (n i)) [0..<length iters])" for s n
    using assms(5) by (simp add: Escape_Field field_ok_def list_all_iff)
  from all_some_defined [OF this] show ?thesis
    by (simp add: colorize_direct_def Escape_Field frame_size_def Let_def)
next
  case (Value_Field vs)
  have "defined (field_pixel L lg p v)" if "v \<in> set vs" for v
    using assms that
    by (auto simp: Value_Field field_ok_def list_all_iff field_pixel_def program_defined colorize_field_hs_defined
        colorize_field_smooth_defined colorize_unit_field_defined normalize_not_NaN split: option.splits)
  then have "list_all defined (map (field_pixel L lg p) vs)" by (simp add: list_all_iff)
  from all_some_defined [OF this] show ?thesis by (simp add: colorize_direct_def Value_Field frame_size_def)
qed

section \<open>The hue wheel\<close>

definition wheel :: "int \<Rightarrow> int \<Rightarrow> int \<times> int \<times> int" where
  "wheel seg d =
    (if seg = 0 then (0, 255, d) else if seg = 1 then (0, 255 - d, 255) else if seg = 2 then (d, 0, 255)
     else if seg = 3 then (255, 0, 255 - d) else if seg = 4 then (255, d, 0) else (255 - d, 255, 0))"

lemma hue_wheel_at:
  assumes "0 \<le> seg" "seg \<le> 5" "0 \<le> d" "d \<le> 254" "0 \<le> k"
  shows "hue1530 (1530 * k + (255 * seg + d)) = (case wheel seg d of (r, g, b) \<Rightarrow> rgb_of r g b)"
proof -
  let ?i = "1530 * k + (255 * seg + d)"
  have i: "0 \<le> ?i" using assms by simp
  have m: "?i mod 1530 = 255 * seg + d" using assms by (simp add: mod_pos_pos_trivial)
  have "tmod ?i 1530 = ?i mod 1530" by (rule tmod_nonneg [OF i]) simp
  then have t: "tmod ?i 1530 = 255 * seg + d" using m by simp
  have j: "0 \<le> 255 * seg + d" using assms by simp
  have q: "tdiv (255 * seg + d) 255 = seg" "tmod (255 * seg + d) 255 = d"
    using tdiv_nonneg [OF j, of 255] tmod_nonneg [OF j, of 255] assms(3,4) by auto
  have "seg = 0 \<or> seg = 1 \<or> seg = 2 \<or> seg = 3 \<or> seg = 4 \<or> seg = 5" using assms by linarith
  then show ?thesis unfolding hue1530_def t Let_def using j q by (elim disjE) (simp_all add: wheel_def)
qed

lemma hue_split: "0 \<le> (i::int) \<Longrightarrow> \<exists>k seg d. i = 1530 * k + (255 * seg + d) \<and> 0 \<le> k \<and> 0 \<le> seg \<and> seg \<le> 5 \<and> 0 \<le> d \<and> d \<le> 254"
  by (intro exI [of _ "i div 1530"] exI [of _ "i mod 1530 div 255"] exI [of _ "i mod 1530 mod 255"]) auto

definition rgb_distance :: "rgb \<Rightarrow> rgb \<Rightarrow> int" where
  "rgb_distance a b = (case (a, b) of ((r, g, b), (r', g', b')) \<Rightarrow>
     \<bar>uint r - uint r'\<bar> + \<bar>uint g - uint g'\<bar> + \<bar>uint b - uint b'\<bar>)"

lemma uint_u8: "0 \<le> v \<Longrightarrow> v \<le> 255 \<Longrightarrow> uint (word_of_int v :: u8) = v"
  by (simp add: uint_word_of_int)

lemma rgb_distance_of:
  assumes "0 \<le> r" "r \<le> 255" "0 \<le> g" "g \<le> 255" "0 \<le> b" "b \<le> 255"
    and "0 \<le> r'" "r' \<le> 255" "0 \<le> g'" "g' \<le> 255" "0 \<le> b'" "b' \<le> 255"
  shows "rgb_distance (rgb_of r g b) (rgb_of r' g' b') = \<bar>r - r'\<bar> + \<bar>g - g'\<bar> + \<bar>b - b'\<bar>"
  unfolding rgb_distance_def rgb_of_def prod.case
  by (simp only: byte_def uint_u8 assms)

lemma hue_step:
  assumes "0 \<le> i"
  shows "rgb_distance (hue1530 i) (hue1530 (i + 1)) = 1"
proof -
  obtain k seg d where i: "i = 1530 * k + (255 * seg + d)" "0 \<le> k" "0 \<le> seg" "seg \<le> 5" "0 \<le> d" "d \<le> 254"
    using hue_split [OF assms] by blast
  have seg: "seg = 0 \<or> seg = 1 \<or> seg = 2 \<or> seg = 3 \<or> seg = 4 \<or> seg = 5" using i by linarith
  note h = hue_wheel_at [OF i(3,4,5,6,2), folded i(1)]
  consider "d < 254" | "d = 254" "seg < 5" | "d = 254" "seg = 5" using i by linarith
  then show ?thesis
  proof cases
    case 1
    have e: "i + 1 = 1530 * k + (255 * seg + (d + 1))" using i by simp
    have n: "hue1530 (i + 1) = (case wheel seg (d + 1) of (r, g, b) \<Rightarrow> rgb_of r g b)"
      unfolding e by (rule hue_wheel_at) (use i(2-6) 1 in auto)
    show ?thesis unfolding h n using seg i 1 by (auto simp: wheel_def rgb_distance_of)
  next
    case 2
    have e: "i + 1 = 1530 * k + (255 * (seg + 1) + 0)" using i 2 by simp
    have n: "hue1530 (i + 1) = (case wheel (seg + 1) 0 of (r, g, b) \<Rightarrow> rgb_of r g b)"
      unfolding e by (rule hue_wheel_at) (use i(2-6) 2 in auto)
    show ?thesis unfolding h n using seg 2 by (auto simp: wheel_def rgb_distance_of)
  next
    case 3
    have e: "i + 1 = 1530 * (k + 1) + (255 * 0 + 0)" using i 3 by simp
    have n: "hue1530 (i + 1) = (case wheel 0 0 of (r, g, b) \<Rightarrow> rgb_of r g b)"
      unfolding e by (rule hue_wheel_at) (use i(2-6) TrueI in auto)
    show ?thesis unfolding h n using 3 by (auto simp: wheel_def rgb_distance_of)
  qed
qed

section \<open>Properties\<close>


definition sample_libm :: libm where
  "sample_libm = \<lparr>m_sin = (\<lambda>x. Fin 0), m_cos = (\<lambda>x. Fin 1), m_sinh = (\<lambda>x. Fin 0), m_cosh = (\<lambda>x. Fin 1), m_exp = (\<lambda>x. Fin 1)\<rparr>"


text \<open>
  The hue wheel has no seam: from every index to the next one, also where the index wraps at 1530 and
  where one of the six ramps ends, exactly one channel moves and by exactly one step.
\<close>

theorem hue_wheel_steps: "0 \<le> i \<Longrightarrow> rgb_distance (hue1530 i) (hue1530 (i + 1)) = 1"
  by (rule hue_step)

theorem hue_wheel_steps_witness: "rgb_distance (hue1530 1529) (hue1530 1530) = 1"
  using hue_wheel_steps [of 1529] by simp

text \<open>The comment above \<^verbatim>\<open>rainbow_from_index\<close> puts purple at index 510 and red at 765.\<close>

lemma rainbow_comment: "rainbow_from_index 510 = rgb_of 255 0 0" "rainbow_from_index 765 = rgb_of 255 0 255"
  by (simp_all add: rainbow_from_index_def byte_def clamp255_def rgb_of_def)

text \<open>\<^verbatim>\<open>colorize_field_smooth_bgr\<close> paints "zero / invalid" white, but only tests \<open>x \<le> 0\<close>: a value that is not a
  number reaches the conversion to \<^verbatim>\<open>int\<close>.\<close>

lemma smooth_field_invalid:
  assumes "lg NaN = NaN"
  shows "colorize_field_smooth lg NaN HsvWheel = None"
  using assms
  by (simp add: colorize_field_smooth_def with_gradient_def palette_stops_def Let_def fle_def flt_def fsub_def fadd_def
      fmul_def f_to_i32_def feq_def fis_finite_def)

end
