(* ===== verification/Resource.thy ===== *)
theory Resource
  imports Prelude "HOL-Library.AList" "HOL-Library.List_Lexorder"
begin

text \<open>
  The lock table of heavy tasks (\<^verbatim>\<open>core/resource_manager.cpp\<close>). Every public operation runs under the
  manager's mutex, so an execution of several threads is a sequence of whole operations, the step
  relation \<open>lock_step\<close> below. The table is an association list: \<^verbatim>\<open>unordered_map\<close> has no order, and
  \<^verbatim>\<open>snapshot\<close> sorts.
\<close>

section \<open>Data\<close>

record resource_state =
  rs_active :: int
  rs_limit :: int
  rs_run :: string
  rs_task :: string

type_synonym resource_table = "(string \<times> resource_state) list"

record lease =
  l_owned :: bool
  l_run :: string
  l_task :: string
  l_locks :: "string list"

definition no_lease :: lease where
  "no_lease = \<lparr>l_owned = False, l_run = [], l_task = [], l_locks = []\<rparr>"

definition default_resource :: resource_state where
  "default_resource = \<lparr>rs_active = 0, rs_limit = 1, rs_run = [], rs_task = []\<rparr>"

text \<open>\<^verbatim>\<open>resources_[name]\<close>: a missing entry is created.\<close>

definition resource_at :: "resource_table \<Rightarrow> string \<Rightarrow> resource_state" where
  "resource_at t name = (case map_of t name of None \<Rightarrow> default_resource | Some r \<Rightarrow> r)"

section \<open>Operations\<close>

definition resource_manager :: resource_table where
  "resource_manager =
    fold (\<lambda>n. AList.update n \<lparr>rs_active = 0, rs_limit = 1, rs_run = [], rs_task = []\<rparr>)
      [''video_export'', ''transition_volume'', ''benchmark'', ''cuda_heavy'', ''cpu_heavy''] []"

text \<open>The first loop: the table with its entries created, and the first lock that is taken.\<close>

fun check_locks :: "string list \<Rightarrow> resource_table \<Rightarrow> (string \<times> string) option \<times> resource_table" where
  "check_locks [] t = (None, t)"
| "check_locks (name # names) t =
    (let r = resource_at t name;
         r = (if rs_limit r \<le> 0 then r\<lparr>rs_limit := 1\<rparr> else r);
         t = AList.update name r t
     in if rs_active r \<ge> rs_limit r then (Some (name, rs_run r), t) else check_locks names t)"

fun take_locks :: "string \<Rightarrow> string \<Rightarrow> string list \<Rightarrow> resource_table \<Rightarrow> resource_table" where
  "take_locks run task [] t = t"
| "take_locks run task (name # names) t =
    (let r = resource_at t name in
     take_locks run task names
       (AList.update name (r\<lparr>rs_active := rs_active r + 1, rs_run := run, rs_task := task\<rparr>) t))"

datatype acquire_result = Acquired lease | Conflict string string

text \<open>
  \<^verbatim>\<open>tryAcquire\<close>. Assigning to a lease that is still owned releases it first, and \<^verbatim>\<open>release\<close> locks the
  mutex that \<^verbatim>\<open>tryAcquire\<close> holds, which is undefined for a \<^verbatim>\<open>std::mutex\<close>.
\<close>

definition try_acquire ::
    "string \<Rightarrow> string \<Rightarrow> string list \<Rightarrow> lease \<Rightarrow> resource_table
     \<Rightarrow> (acquire_result \<times> resource_table) res" where
  "try_acquire run task locks out t =
    (case check_locks locks t of
       (Some (name, holder), t) \<Rightarrow> Inr (Conflict name holder, t)
     | (None, t) \<Rightarrow>
         let t = take_locks run task locks t in
         if l_owned out then Inl Undefined
         else Inr (Acquired \<lparr>l_owned = True, l_run = run, l_task = task, l_locks = locks\<rparr>, t))"

definition release_entry :: "string \<Rightarrow> resource_state \<Rightarrow> resource_state" where
  "release_entry run r =
    (let r = (if rs_active r > 0 then r\<lparr>rs_active := rs_active r - 1\<rparr> else r)
     in if rs_active r = 0 \<or> rs_run r = run then r\<lparr>rs_run := [], rs_task := []\<rparr> else r)"

fun release_locks :: "string \<Rightarrow> string list \<Rightarrow> resource_table \<Rightarrow> resource_table" where
  "release_locks run [] t = t"
| "release_locks run (name # names) t =
    (case map_of t name of
       None \<Rightarrow> release_locks run names t
     | Some r \<Rightarrow> release_locks run names (AList.update name (release_entry run r) t))"

text \<open>\<^verbatim>\<open>Lease::release\<close>, also run by the destructor.\<close>

definition lease_release :: "lease \<Rightarrow> resource_table \<Rightarrow> lease \<times> resource_table" where
  "lease_release l t =
    (if \<not> l_owned l then (l, t) else (l\<lparr>l_owned := False\<rparr>, release_locks (l_run l) (l_locks l) t))"

text \<open>
  Move construction and move assignment; the pair is (target, source). The source keeps no owner; its
  strings and its vector are moved from, so they are empty. The guard against a self assignment is
  about addresses and has no counterpart for values.
\<close>

definition lease_move :: "lease \<Rightarrow> lease \<times> lease" where
  "lease_move other = (other, no_lease)"

definition lease_assign :: "lease \<Rightarrow> lease \<Rightarrow> resource_table \<Rightarrow> (lease \<times> lease) \<times> resource_table" where
  "lease_assign target other t =
    (let (_, t) = lease_release target t in (lease_move other, t))"

record lock_snapshot =
  ls_name :: string
  ls_active :: int
  ls_limit :: int
  ls_run :: string
  ls_task :: string

definition snapshot :: "resource_table \<Rightarrow> lock_snapshot list" where
  "snapshot t = sort_key ls_name
     (map (\<lambda>(n, r). \<lparr>ls_name = n, ls_active = rs_active r, ls_limit = rs_limit r, ls_run = rs_run r,
        ls_task = rs_task r\<rparr>) t)"

section \<open>Executions\<close>

text \<open>The table and the leases that are held; a request names each lock once, as all callers do.\<close>

inductive lock_step :: "resource_table \<times> lease list \<Rightarrow> resource_table \<times> lease list \<Rightarrow> bool" where
  acquire: "distinct locks \<Longrightarrow> try_acquire run task locks no_lease t = Inr (Acquired l, t')
    \<Longrightarrow> lock_step (t, ls) (t', l # ls)"
| refuse: "try_acquire run task locks no_lease t = Inr (Conflict n h, t')
    \<Longrightarrow> lock_step (t, ls) (t', ls)"
| release: "l \<in> set ls \<Longrightarrow> lock_step (t, ls) (snd (lease_release l t), remove1 l ls)"

inductive lock_reachable :: "resource_table \<times> lease list \<Rightarrow> bool" where
  idle: "lock_reachable (resource_manager, [])"
| more: "lock_reachable s \<Longrightarrow> lock_step s s' \<Longrightarrow> lock_reachable s'"

section \<open>The table counts the leases\<close>

definition active_of :: "resource_table \<Rightarrow> string \<Rightarrow> int" where
  "active_of t n = rs_active (resource_at t n)"

definition held :: "lease list \<Rightarrow> string \<Rightarrow> int" where
  "held ls n = (\<Sum>l\<leftarrow>ls. int (count_list (l_locks l) n))"

definition lock_inv :: "resource_table \<times> lease list \<Rightarrow> bool" where
  "lock_inv s \<longleftrightarrow>
    (\<forall>n. rs_limit (resource_at (fst s) n) = 1 \<and> active_of (fst s) n = held (snd s) n
       \<and> held (snd s) n \<le> 1)
    \<and> (\<forall>l\<in>set (snd s). l_owned l)"

lemma resource_at_update [simp]:
  "resource_at (AList.update n r t) m = (if m = n then r else resource_at t m)"
  by (simp add: resource_at_def update_conv')

lemma check_locks_same:
  "check_locks names t = (c, t') \<Longrightarrow> \<forall>n. rs_limit (resource_at t n) = 1
   \<Longrightarrow> resource_at t' = resource_at t \<and> (c = None \<longrightarrow> (\<forall>n\<in>set names. active_of t n < 1))"
proof (induction names arbitrary: t)
  case (Cons a names)
  have same: "resource_at (AList.update a (resource_at t a) t) = resource_at t" by auto
  show ?case
  proof (cases "rs_active (resource_at t a) \<ge> 1")
    case True
    with Cons.prems same show ?thesis by (auto simp: Let_def)
  next
    case False
    then have "check_locks names (AList.update a (resource_at t a) t) = (c, t')"
      using Cons.prems by (simp add: Let_def)
    with Cons.IH [OF this] Cons.prems(2) same False show ?thesis
      by (auto simp: active_of_def)
  qed
qed simp

lemma take_locks_active:
  "active_of (take_locks run task names t) n = active_of t n + int (count_list names n)"
  "rs_limit (resource_at (take_locks run task names t) n) = rs_limit (resource_at t n)"
  by (induction names arbitrary: t) (simp_all add: active_of_def Let_def)

lemma active_of_None: "map_of t n = None \<Longrightarrow> active_of t n = 0"
  by (simp add: active_of_def resource_at_def default_resource_def)

lemma release_entry_facts [simp]:
  "rs_limit (release_entry run r) = rs_limit r"
  "rs_active (release_entry run r) = (if 0 < rs_active r then rs_active r - 1 else rs_active r)"
  by (simp_all add: release_entry_def Let_def)

lemma resource_at_Some: "map_of t n = Some r \<Longrightarrow> resource_at t n = r"
  by (simp add: resource_at_def)

lemma release_locks_limit:
  "rs_limit (resource_at (release_locks run names t) n) = rs_limit (resource_at t n)"
  by (induction names arbitrary: t) (auto simp: resource_at_Some split: option.split)

lemma release_locks_active:
  "\<forall>n. int (count_list names n) \<le> active_of t n \<Longrightarrow>
   active_of (release_locks run names t) n = active_of t n - int (count_list names n)"
proof (induction names arbitrary: t)
  case (Cons a names)
  have "1 \<le> active_of t a" using Cons.prems [rule_format, of a] by simp
  then obtain r where r: "map_of t a = Some r" "1 \<le> rs_active r"
    using active_of_None [of t a] by (cases "map_of t a") (auto simp: active_of_def resource_at_def)
  let ?t = "AList.update a (release_entry run r) t"
  have act: "active_of ?t m = active_of t m - (if m = a then 1 else 0)" for m
    using r by (simp add: active_of_def resource_at_Some)
  have "int (count_list names m) \<le> active_of ?t m" for m
    using Cons.prems [rule_format, of m] act [of m] by (auto split: if_splits)
  then have "active_of (release_locks run names ?t) n = active_of ?t n - int (count_list names n)"
    by (intro Cons.IH) simp
  with r act show ?case by simp
qed simp

lemma held_remove1:
  "l \<in> set ls \<Longrightarrow> held (remove1 l ls) n = held ls n - int (count_list (l_locks l) n)"
  by (induction ls) (auto simp: held_def)

lemma held_ge: "l \<in> set ls \<Longrightarrow> int (count_list (l_locks l) n) \<le> held ls n"
proof (induction ls)
  case (Cons a ls)
  have "0 \<le> held ls n" by (induction ls) (auto simp: held_def)
  with Cons show ?case by (auto simp: held_def)
qed simp

lemma count_list_distinct: "distinct xs \<Longrightarrow> count_list xs n = (if n \<in> set xs then 1 else 0)"
  by (induction xs) auto

lemma lock_inv_start: "lock_inv (resource_manager, [])"
  by (simp add: lock_inv_def resource_manager_def held_def active_of_def resource_at_def default_resource_def
      update_conv')

lemma lock_step_inv:
  assumes "lock_step s s'" and "lock_inv s"
  shows "lock_inv s'"
  using assms
proof (induction rule: lock_step.induct)
  case (acquire locks run task t l t' ls)
  obtain t1 where c: "check_locks locks t = (None, t1)" "t' = take_locks run task locks t1"
    "l = \<lparr>l_owned = True, l_run = run, l_task = task, l_locks = locks\<rparr>"
    using acquire(2) by (auto simp: try_acquire_def no_lease_def Let_def split: prod.splits option.splits)
  have i: "\<forall>n. rs_limit (resource_at t n) = 1" "\<And>n. active_of t n = held ls n"
    "\<And>n. held ls n \<le> 1" "\<forall>l\<in>set ls. l_owned l"
    using acquire(3) by (simp_all add: lock_inv_def)
  from check_locks_same [OF c(1) i(1)]
  have t1: "resource_at t1 = resource_at t" "\<forall>n\<in>set locks. active_of t n < 1" by simp_all
  have a1: "active_of t1 n = active_of t n" for n by (simp add: active_of_def t1)
  have "held (l # ls) n = held ls n + (if n \<in> set locks then 1 else 0)" for n
    using acquire(1) by (simp add: held_def c(3) count_list_distinct)
  with i t1 show ?case
    by (auto simp: lock_inv_def c(2,3) take_locks_active a1 count_list_distinct [OF acquire(1)])
next
  case (refuse run task locks t n h t' ls)
  obtain x where c: "check_locks locks t = (Some x, t')"
    using refuse(1) by (auto simp: try_acquire_def Let_def no_lease_def split: prod.splits option.splits)
  have "resource_at t' = resource_at t"
    using check_locks_same [OF c] refuse(2) by (simp add: lock_inv_def)
  with refuse(2) show ?case by (simp add: lock_inv_def active_of_def)
next
  case (release l ls t)
  have i: "\<forall>n. rs_limit (resource_at t n) = 1" "\<And>n. active_of t n = held ls n"
    "\<And>n. held ls n \<le> 1" "\<forall>l\<in>set ls. l_owned l"
    using release(2) by (simp_all add: lock_inv_def)
  have "\<forall>n. int (count_list (l_locks l) n) \<le> active_of t n"
    using held_ge [OF release(1)] i(2) by simp
  then have a: "active_of (release_locks (l_run l) (l_locks l) t) n = held (remove1 l ls) n" for n
    using release_locks_active [of "l_locks l" t "l_run l" n] held_remove1 [OF release(1)] i(2) by simp
  have "held (remove1 l ls) n \<le> 1" for n
    using held_remove1 [OF release(1), of n] i(3) [of n] by linarith
  with a i release(1) show ?case
    by (auto simp: lock_inv_def lease_release_def release_locks_limit dest: notin_set_remove1)
qed

lemma lock_reachable_inv: "lock_reachable s \<Longrightarrow> lock_inv s"
  by (induction rule: lock_reachable.induct) (auto intro: lock_inv_start lock_step_inv)

section \<open>Properties\<close>



text \<open>
  a refused request leaves nothing behind, and a request is granted exactly when all its locks are
  free: in a reachable state, asking for distinct locks none of which is held succeeds, and asking for
  a held one is a conflict that changes no entry.
\<close>

theorem acquire_iff_free:
  assumes "lock_reachable (t, ls)"
  shows "\<exists>r t'. try_acquire run task locks no_lease t = Inr (r, t') \<and>
    ((\<exists>l. r = Acquired l) \<longleftrightarrow> (\<forall>n\<in>set locks. held ls n = 0)) \<and>
    ((\<exists>n h. r = Conflict n h) \<longrightarrow> resource_at t' = resource_at t)"
proof -
  have inv: "\<forall>n. rs_limit (resource_at t n) = 1" "\<And>n. active_of t n = held ls n"
    using lock_reachable_inv [OF assms] by (simp_all add: lock_inv_def)
  have ge: "0 \<le> held ls n" for n by (induction ls) (auto simp: held_def)
  have conflict: "check_locks names t = (Some (m, h), t') \<Longrightarrow> m \<in> set names \<and> active_of t m \<ge> 1" 
    if "\<forall>n. rs_limit (resource_at t n) = 1" for names t m h t'
    using that
  proof (induction names arbitrary: t)
    case (Cons a names)
    have same: "resource_at (AList.update a (resource_at t a) t) = resource_at t" by auto
    show ?case
    proof (cases "rs_active (resource_at t a) \<ge> 1")
      case True
      with Cons.prems show ?thesis by (auto simp: Let_def active_of_def)
    next
      case False
      then have c: "check_locks names (AList.update a (resource_at t a) t) = (Some (m, h), t')"
        using Cons.prems by (simp add: Let_def)
      show ?thesis using Cons.IH [OF c] Cons.prems(2) by (auto simp: active_of_def same)
    qed
  qed simp
  obtain c t1 where c: "check_locks locks t = (c, t1)" by (cases "check_locks locks t")
  note cs = check_locks_same [OF c inv(1)]
  show ?thesis
  proof (cases c)
    case None
    have "held ls n = 0" if "n \<in> set locks" for n
      using cs None inv(2) ge [of n] that by force
    with c None show ?thesis by (simp add: try_acquire_def no_lease_def Let_def)
  next
    case (Some mh)
    obtain m h where mh: "mh = (m, h)" by (cases mh)
    have "m \<in> set locks \<and> held ls m \<ge> 1"
      using conflict [OF inv(1), of locks m h t1] c Some mh inv(2) by simp
    then have "\<not> (\<forall>n\<in>set locks. held ls n = 0)" by force
    with c cs Some mh show ?thesis by (simp add: try_acquire_def no_lease_def Let_def)
  qed
qed

theorem acquire_iff_free_witness:
  "\<exists>l t'. try_acquire ''run-1'' ''bench'' [''benchmark'', ''cpu_heavy''] no_lease resource_manager
     = Inr (Acquired l, t')"
proof -
  have "\<forall>n\<in>set [''benchmark'', ''cpu_heavy'']. held [] n = 0" by (simp add: held_def)
  with acquire_iff_free [OF idle, of "''run-1''" "''bench''" "[''benchmark'', ''cpu_heavy'']"]
  show ?thesis by auto
qed

text \<open>
  The test comes before any of the locks is taken, so a list that names a lock twice passes it and is
  counted twice, above the limit.
\<close>

lemma duplicate_names_overbook:
  "\<exists>l t'. try_acquire ''run-1'' ''bench'' [''benchmark'', ''benchmark''] no_lease resource_manager = Inr (Acquired l, t')
     \<and> rs_active (resource_at t' ''benchmark'') = 2 \<and> rs_limit (resource_at t' ''benchmark'') = 1"
  by (simp add: try_acquire_def no_lease_def resource_manager_def resource_at_def Let_def)

end
