(* ===== verification/Db.thy ===== *)
theory Db
  imports IeeeFloat "HOL-Library.List_Lexorder" "HOL-Library.Product_Lexorder" "HOL-Library.Multiset"
begin

text \<open>
  The persistent store (\<^verbatim>\<open>core/db.cpp\<close>): five tables and the SQL statements of the class \<^verbatim>\<open>Db\<close>, each
  translated to the table operation that its text denotes. What SQLite itself contributes is the
  parameter \<^verbatim>\<open>sqlite\<close> of every operation: whether the statement fails, the order of rows the
  \<^verbatim>\<open>ORDER BY\<close> leaves open, and what a \<^verbatim>\<open>REAL NOT NULL\<close> column holds for a bound double.
\<close>

section \<open>Rows and tables\<close>

record special_point =
  sp_id :: string
  sp_family :: string
  sp_point_type :: string
  sp_k :: int
  sp_p :: int
  sp_re :: fl
  sp_im :: fl
  sp_source_mode :: string
  sp_created_at :: string

record run_row =
  rr_id :: string
  rr_module :: string
  rr_status :: string
  rr_params :: string
  rr_started :: int
  rr_finished :: int
  rr_output_dir :: string

record artifact_row =
  ar_row_id :: int
  ar_run_id :: string
  ar_kind :: string
  ar_path :: string
  ar_meta :: string

record custom_variant =
  cv_hash :: string
  cv_name :: string
  cv_formula :: string
  cv_bailout :: fl
  cv_so_path :: string
  cv_created_at :: string

record compute_request =
  cr_key :: string
  cr_hash :: string
  cr_response :: string
  cr_completed :: int

text \<open>\<^verbatim>\<open>db_artifact_seq\<close> is the largest row id ever given out (\<^verbatim>\<open>AUTOINCREMENT\<close>).\<close>

record db =
  db_schema :: "(string \<times> string list) list"
  db_special_points :: "special_point list"
  db_runs :: "run_row list"
  db_artifacts :: "artifact_row list"
  db_artifact_seq :: int
  db_custom_variants :: "custom_variant list"
  db_compute_requests :: "compute_request list"

record sqlite =
  sq_failure :: "string option"
  sq_constraint :: "string \<Rightarrow> string"
  sq_real :: "fl \<Rightarrow> fl option"
  sq_order_runs :: "run_row list \<Rightarrow> run_row list"
  sq_order_variants :: "custom_variant list \<Rightarrow> custom_variant list"

text \<open>Documented behaviour: \<^verbatim>\<open>ORDER BY key DESC\<close> permutes the rows into descending order of the key.\<close>

definition orders_desc :: "('r \<Rightarrow> 'k::linorder) \<Rightarrow> ('r list \<Rightarrow> 'r list) \<Rightarrow> bool" where
  "orders_desc key f \<longleftrightarrow> (\<forall>xs. mset (f xs) = mset xs \<and> sorted_wrt (\<lambda>a b. key a \<ge> key b) (f xs))"

text \<open>\<^verbatim>\<open>checkSqlite\<close>: a failing statement throws with SQLite's message and changes no table.\<close>

definition check_sqlite :: "sqlite \<Rightarrow> 'a res \<Rightarrow> 'a res" where
  "check_sqlite q k = (case sq_failure q of Some m \<Rightarrow> Inl (RuntimeError m) | None \<Rightarrow> k)"

lemma check_sqlite_ok [simp]: "sq_failure q = None \<Longrightarrow> check_sqlite q k = k"
  by (simp add: check_sqlite_def)

lemma check_sqlite_Inr [fsd_split]: "check_sqlite q k = Inr y \<longleftrightarrow> sq_failure q = None \<and> k = Inr y"
  by (simp add: check_sqlite_def split: option.split)

text \<open>Texts are bound and read back as C strings: they end at the first NUL.\<close>

definition c_str :: "string \<Rightarrow> string" where
  "c_str s = takeWhile (\<lambda>c. c \<noteq> CHR 0x00) s"

lemma c_str_idem [simp]: "c_str (c_str s) = c_str s"
  unfolding c_str_def by (rule takeWhile_idem)

definition bind_run :: "run_row \<Rightarrow> run_row" where
  "bind_run r = \<lparr>rr_id = c_str (rr_id r), rr_module = c_str (rr_module r), rr_status = c_str (rr_status r),
     rr_params = c_str (rr_params r), rr_started = rr_started r, rr_finished = rr_finished r,
     rr_output_dir = c_str (rr_output_dir r)\<rparr>"

section \<open>Tables with a primary key\<close>

text \<open>\<^verbatim>\<open>ON CONFLICT(key) DO UPDATE\<close> overwrites the row in place, \<^verbatim>\<open>INSERT OR REPLACE\<close> deletes it first.\<close>

fun upsert :: "('r \<Rightarrow> string) \<Rightarrow> 'r \<Rightarrow> 'r list \<Rightarrow> 'r list" where
  "upsert key r [] = [r]"
| "upsert key r (x # xs) = (if key x = key r then r # xs else x # upsert key r xs)"

definition insert_or_replace :: "('r \<Rightarrow> string) \<Rightarrow> 'r \<Rightarrow> 'r list \<Rightarrow> 'r list" where
  "insert_or_replace key r xs = filter (\<lambda>x. key x \<noteq> key r) xs @ [r]"

definition select_key :: "('r \<Rightarrow> string) \<Rightarrow> string \<Rightarrow> 'r list \<Rightarrow> 'r option" where
  "select_key key k xs = find (\<lambda>x. key x = k) xs"

text \<open>The contract of a table with a primary key, and what follows from it for a history of writes.\<close>

locale keyed_table =
  fixes key :: "'r \<Rightarrow> string"
    and put :: "'r \<Rightarrow> 't \<Rightarrow> 't"
    and get :: "string \<Rightarrow> 't \<Rightarrow> 'r option"
  assumes get_put: "get k (put r t) = (if k = key r then Some r else get k t)"
begin

lemma get_history:
  "get k (fold put rs t) = (case find (\<lambda>r. key r = k) (rev rs) of Some r \<Rightarrow> Some r | None \<Rightarrow> get k t)"
proof (induction rs rule: rev_induct)
  case (snoc r rs)
  then show ?case by (auto simp: get_put)
qed simp

lemma get_history_last: "get (key r) (put r (fold put rs t)) = Some r"
  by (simp add: get_put)

lemma get_history_other: "\<forall>r\<in>set rs. key r \<noteq> k \<Longrightarrow> get k (fold put rs t) = get k t"
  by (induction rs arbitrary: t) (auto simp: get_put)

end

lemma select_upsert: "select_key key k (upsert key r xs) = (if k = key r then Some r else select_key key k xs)"
  by (induction xs) (auto simp: select_key_def)

lemma find_append: "find P (xs @ ys) = (case find P xs of Some x \<Rightarrow> Some x | None \<Rightarrow> find P ys)"
  by (induction xs) auto

lemma select_replace:
  "select_key key k (insert_or_replace key r xs) = (if k = key r then Some r else select_key key k xs)"
proof -
  have "find (\<lambda>x. key x = k) (filter (\<lambda>x. key x \<noteq> key r) xs)
      = (if k = key r then None else find (\<lambda>x. key x = k) xs)"
    by (induction xs) auto
  then show ?thesis
    by (auto simp: select_key_def insert_or_replace_def find_append split: option.split)
qed

interpretation run_table: keyed_table rr_id "upsert rr_id" "select_key rr_id"
  by unfold_locales (rule select_upsert)

interpretation request_table: keyed_table cr_key "insert_or_replace cr_key" "select_key cr_key"
  by unfold_locales (rule select_replace)

interpretation variant_table: keyed_table cv_hash "insert_or_replace cv_hash" "select_key cv_hash"
  by unfold_locales (rule select_replace)

lemma upsert_keys: "distinct (map key xs) \<Longrightarrow> distinct (map key (upsert key r xs))
    \<and> set (map key (upsert key r xs)) = insert (key r) (set (map key xs))"
  by (induction xs) auto

section \<open>Schema\<close>

definition schema_tables :: "(string \<times> string list) list" where
  "schema_tables =
    [(''special_points'', [''id'', ''family'', ''point_type'', ''k'', ''p'', ''re'', ''im'', ''source_mode'',
        ''created_at'']),
     (''runs'', [''id'', ''module'', ''status'', ''params_json'', ''started_at'', ''finished_at'', ''output_dir'']),
     (''artifacts'', [''row_id'', ''run_id'', ''kind'', ''path'', ''meta_json'']),
     (''custom_variants'', [''hash'', ''name'', ''formula'', ''bailout'', ''so_path'', ''created_at'']),
     (''compute_requests'', [''idempotency_key'', ''request_hash'', ''response_json'', ''completed_at''])]"

definition create_if_not_exists ::
    "string \<times> string list \<Rightarrow> (string \<times> string list) list \<Rightarrow> (string \<times> string list) list" where
  "create_if_not_exists t s = (if map_of s (fst t) = None then s @ [t] else s)"

definition table_has_column :: "(string \<times> string list) list \<Rightarrow> string \<Rightarrow> string \<Rightarrow> bool" where
  "table_has_column s table column =
    (case map_of s table of None \<Rightarrow> False | Some cols \<Rightarrow> column \<in> set cols)"

definition add_column ::
    "string \<Rightarrow> string \<Rightarrow> (string \<times> string list) list \<Rightarrow> (string \<times> string list) list" where
  "add_column table column s = map (\<lambda>(t, cols). (t, if t = table then cols @ [column] else cols)) s"

definition ensure_schema :: "sqlite \<Rightarrow> db \<Rightarrow> db res" where
  "ensure_schema q d = check_sqlite q
    (let s = fold create_if_not_exists schema_tables (db_schema d);
         s = (if table_has_column s ''compute_requests'' ''request_hash'' then s
              else add_column ''compute_requests'' ''request_hash'' s)
     in Inr (d\<lparr>db_schema := s\<rparr>))"

section \<open>Special points\<close>

definition insert_special_point :: "sqlite \<Rightarrow> special_point \<Rightarrow> db \<Rightarrow> db res" where
  "insert_special_point q r d = check_sqlite q
    (case (sq_real q (sp_re r), sq_real q (sp_im r)) of
       (None, _) \<Rightarrow> Inl (RuntimeError (sq_constraint q ''special_points.re''))
     | (_, None) \<Rightarrow> Inl (RuntimeError (sq_constraint q ''special_points.im''))
     | (Some x, Some y) \<Rightarrow>
         let row = \<lparr>sp_id = c_str (sp_id r), sp_family = c_str (sp_family r),
               sp_point_type = c_str (sp_point_type r), sp_k = sp_k r, sp_p = sp_p r, sp_re = x, sp_im = y,
               sp_source_mode = c_str (sp_source_mode r), sp_created_at = c_str (sp_created_at r)\<rparr>
         in if select_key sp_id (sp_id row) (db_special_points d) \<noteq> None
            then Inl (RuntimeError (sq_constraint q ''special_points.id''))
            else Inr (d\<lparr>db_special_points := db_special_points d @ [row]\<rparr>))"

definition list_special_points :: "sqlite \<Rightarrow> string \<Rightarrow> int \<Rightarrow> int \<Rightarrow> db \<Rightarrow> special_point list res" where
  "list_special_points q family k p d = check_sqlite q
    (let rows = filter (\<lambda>r. (family = [] \<or> sp_family r = c_str family) \<and> (k \<ge> 0 \<longrightarrow> sp_k r = k)
           \<and> (p \<ge> 0 \<longrightarrow> sp_p r = p)) (db_special_points d)
     in Inr (take 500 (rev (sort_key (\<lambda>r. (sp_created_at r, sp_id r)) rows))))"

section \<open>Runs\<close>

definition upsert_run :: "sqlite \<Rightarrow> run_row \<Rightarrow> db \<Rightarrow> db res" where
  "upsert_run q r d = check_sqlite q (Inr (d\<lparr>db_runs := upsert rr_id (bind_run r) (db_runs d)\<rparr>))"

definition interrupted :: "run_row \<Rightarrow> bool" where
  "interrupted r \<longleftrightarrow> rr_status r \<in> {''queued'', ''running''}"

text \<open>The result is \<^verbatim>\<open>sqlite3_changes\<close>, the number of rows the statement updated.\<close>

definition cancel_interrupted_runs :: "sqlite \<Rightarrow> int \<Rightarrow> db \<Rightarrow> (int \<times> db) res" where
  "cancel_interrupted_runs q finished d = check_sqlite q
    (Inr (int (length (filter interrupted (db_runs d))),
      d\<lparr>db_runs := map (\<lambda>r. if interrupted r then r\<lparr>rr_status := ''cancelled'', rr_finished := finished\<rparr>
        else r) (db_runs d)\<rparr>))"

function split_segments :: "string \<Rightarrow> string list" where
  "split_segments f =
    (let seg = takeWhile (\<lambda>c. c \<noteq> CHR '','') f in
     case dropWhile (\<lambda>c. c \<noteq> CHR '','') f of
       [] \<Rightarrow> [seg]
     | comma # rest \<Rightarrow> seg # split_segments rest)"
  by pat_completeness auto
termination
proof (relation "measure length")
  fix f seg comma rest
  assume "dropWhile (\<lambda>c. c \<noteq> CHR '','') f = comma # (rest :: string)"
  then show "(rest, f) \<in> measure length"
    using length_dropWhile_le [of "\<lambda>c. c \<noteq> CHR '',''" f] by simp
qed simp

declare split_segments.simps [simp del]

definition split_module_filter :: "string \<Rightarrow> string list" where
  "split_module_filter f = (if f = [] then [] else split_segments f)"

text \<open>The \<^verbatim>\<open>WHERE\<close> clause that \<^verbatim>\<open>listRuns\<close> and \<^verbatim>\<open>countRuns\<close> build.\<close>

definition run_matches :: "string \<Rightarrow> string \<Rightarrow> run_row \<Rightarrow> bool" where
  "run_matches module_filter status_filter r =
    (let mods = split_module_filter module_filter in
     (mods = [] \<or> rr_module r \<in> set (List.map c_str mods))
     \<and> (status_filter = [] \<or> rr_status r = c_str status_filter))"

definition list_runs :: "sqlite \<Rightarrow> int \<Rightarrow> int \<Rightarrow> string \<Rightarrow> string \<Rightarrow> db \<Rightarrow> run_row list res" where
  "list_runs q limit offset module_filter status_filter d = check_sqlite q
    (let rows = sq_order_runs q (filter (run_matches module_filter status_filter) (db_runs d))
     in Inr (take (nat (if limit > 0 then limit else 200)) (drop (nat (max 0 offset)) rows)))"

definition list_runs_all :: "sqlite \<Rightarrow> int \<Rightarrow> db \<Rightarrow> run_row list res" where
  "list_runs_all q limit d = list_runs q limit 0 [] [] d"

definition count_runs :: "sqlite \<Rightarrow> string \<Rightarrow> string \<Rightarrow> db \<Rightarrow> int res" where
  "count_runs q module_filter status_filter d = check_sqlite q
    (Inr (int (length (filter (run_matches module_filter status_filter) (db_runs d)))))"

definition distinct_modules :: "sqlite \<Rightarrow> db \<Rightarrow> string list res" where
  "distinct_modules q d = check_sqlite q (Inr (sort (remdups (List.map rr_module (db_runs d)))))"

definition get_run_row :: "sqlite \<Rightarrow> string \<Rightarrow> db \<Rightarrow> run_row res" where
  "get_run_row q run_id d = check_sqlite q
    (case select_key rr_id (c_str run_id) (db_runs d) of
       None \<Rightarrow> Inl (RuntimeError (''run not found: '' @ run_id))
     | Some r \<Rightarrow> Inr r)"

section \<open>Artifacts\<close>

definition insert_artifact :: "sqlite \<Rightarrow> artifact_row \<Rightarrow> db \<Rightarrow> (int \<times> db) res" where
  "insert_artifact q r d = check_sqlite q
    (let n = db_artifact_seq d + 1;
         row = \<lparr>ar_row_id = n, ar_run_id = c_str (ar_run_id r), ar_kind = c_str (ar_kind r),
           ar_path = c_str (ar_path r), ar_meta = c_str (ar_meta r)\<rparr>
     in Inr (n, d\<lparr>db_artifacts := db_artifacts d @ [row], db_artifact_seq := n\<rparr>))"

definition list_artifacts :: "sqlite \<Rightarrow> string \<Rightarrow> db \<Rightarrow> artifact_row list res" where
  "list_artifacts q run_id d = check_sqlite q
    (Inr (sort_key ar_row_id (filter (\<lambda>a. ar_run_id a = c_str run_id) (db_artifacts d))))"

definition list_artifacts_by_kind :: "sqlite \<Rightarrow> string \<Rightarrow> int \<Rightarrow> db \<Rightarrow> artifact_row list res" where
  "list_artifacts_by_kind q kind limit d = check_sqlite q
    (let rows = filter (\<lambda>a. kind = [] \<or> ar_kind a = c_str kind) (db_artifacts d)
     in Inr (take (nat (if limit > 0 then limit else 200)) (rev (sort_key ar_row_id rows))))"

definition get_artifact_by_id :: "sqlite \<Rightarrow> int \<Rightarrow> db \<Rightarrow> artifact_row res" where
  "get_artifact_by_id q row_id d = check_sqlite q
    (case find (\<lambda>a. ar_row_id a = row_id) (db_artifacts d) of
       None \<Rightarrow> Inl (RuntimeError (''artifact not found: '' @ show_int row_id))
     | Some a \<Rightarrow> Inr a)"

section \<open>Compute requests and custom variants\<close>

definition get_compute_request_response :: "sqlite \<Rightarrow> string \<Rightarrow> db \<Rightarrow> (string \<times> string) option res" where
  "get_compute_request_response q k d = check_sqlite q
    (Inr (case select_key cr_key (c_str k) (db_compute_requests d) of
       None \<Rightarrow> None
     | Some r \<Rightarrow> Some (cr_hash r, cr_response r)))"

definition upsert_compute_request_response ::
    "sqlite \<Rightarrow> string \<Rightarrow> string \<Rightarrow> string \<Rightarrow> int \<Rightarrow> db \<Rightarrow> db res" where
  "upsert_compute_request_response q k request_hash response completed d = check_sqlite q
    (let row = \<lparr>cr_key = c_str k, cr_hash = c_str request_hash, cr_response = c_str response,
           cr_completed = completed\<rparr>
     in Inr (d\<lparr>db_compute_requests := insert_or_replace cr_key row (db_compute_requests d)\<rparr>))"

definition insert_custom_variant :: "sqlite \<Rightarrow> custom_variant \<Rightarrow> db \<Rightarrow> db res" where
  "insert_custom_variant q r d = check_sqlite q
    (case sq_real q (cv_bailout r) of
       None \<Rightarrow> Inl (RuntimeError (sq_constraint q ''custom_variants.bailout''))
     | Some b \<Rightarrow>
         let row = \<lparr>cv_hash = c_str (cv_hash r), cv_name = c_str (cv_name r), cv_formula = c_str (cv_formula r),
               cv_bailout = b, cv_so_path = c_str (cv_so_path r), cv_created_at = c_str (cv_created_at r)\<rparr>
         in Inr (d\<lparr>db_custom_variants := insert_or_replace cv_hash row (db_custom_variants d)\<rparr>))"

definition list_custom_variants :: "sqlite \<Rightarrow> db \<Rightarrow> custom_variant list res" where
  "list_custom_variants q d = check_sqlite q
    (Inr (take 200 (sq_order_variants q (db_custom_variants d))))"

definition get_custom_variant_by_hash :: "sqlite \<Rightarrow> string \<Rightarrow> db \<Rightarrow> custom_variant option res" where
  "get_custom_variant_by_hash q h d = check_sqlite q
    (Inr (select_key cv_hash (c_str h) (db_custom_variants d)))"

definition delete_custom_variant :: "sqlite \<Rightarrow> string \<Rightarrow> db \<Rightarrow> db res" where
  "delete_custom_variant q h d = check_sqlite q
    (Inr (d\<lparr>db_custom_variants := filter (\<lambda>r. cv_hash r \<noteq> c_str h) (db_custom_variants d)\<rparr>))"

section \<open>Lemmas\<close>

lemma split_segments_join:
  "split_segments f \<noteq> [] \<and> (\<forall>seg\<in>set (split_segments f). CHR '','' \<notin> set seg)
   \<and> concat (map (\<lambda>seg. seg @ '','') (split_segments f)) = f @ '',''"
proof (induction f rule: split_segments.induct)
  case (1 f)
  let ?seg = "takeWhile (\<lambda>c. c \<noteq> CHR '','') f"
  have seg: "CHR '','' \<notin> set ?seg" by (auto dest: set_takeWhileD)
  show ?case
  proof (cases "dropWhile (\<lambda>c. c \<noteq> CHR '','') f")
    case Nil
    then have "?seg = f" using takeWhile_dropWhile_id [of "\<lambda>c. c \<noteq> CHR '',''" f] by simp
    moreover have "split_segments f = [?seg]" using Nil by (subst split_segments.simps) (simp only: Let_def list.case)
    ultimately show ?thesis using seg by simp
  next
    case (Cons comma rest)
    then have c: "comma = CHR '',''" by (auto simp: dropWhile_eq_Cons_conv)
    then have f: "f = ?seg @ CHR '','' # rest"
      using takeWhile_dropWhile_id [of "\<lambda>c. c \<noteq> CHR '',''" f] Cons by simp
    have e: "split_segments f = ?seg # split_segments rest"
      using Cons by (subst split_segments.simps) (simp add: Let_def)
    note IH = "1.IH" [OF refl Cons]
    have "concat (map (\<lambda>seg. seg @ '','') (split_segments f)) = ?seg @ '','' @ rest @ '',''"
      by (simp add: e IH)
    also have "\<dots> = f @ '',''" by (subst (2) f) simp
    finally show ?thesis using seg IH by (simp add: e)
  qed
qed

lemma concat_pages: "concat (map (\<lambda>i. take m (drop (i * m) xs)) [0..<n]) = take (n * m) xs"
proof (induction n)
  case (Suc n)
  have "take (Suc n * m) xs = take (n * m) xs @ take m (drop (n * m) xs)"
    using take_add [of "n * m" m xs] by (simp add: add.commute)
  with Suc show ?case by simp
qed simp

lemma list_runs_page:
  assumes "sq_failure q = None" and "0 < L"
  shows "list_runs q L (int i * L) mf sf d
    = Inr (take (nat L) (drop (i * nat L) (sq_order_runs q (filter (run_matches mf sf) (db_runs d)))))"
  using assms by (simp add: list_runs_def nat_mult_distrib)

lemma paging:
  assumes "sq_failure q = None" and "orders_desc rr_started (sq_order_runs q)" and "0 < L"
    and "count_runs q mf sf d = Inr total_rows" and "total_rows \<le> int n * L"
  shows "\<exists>page rows. (\<forall>i. list_runs q L (int i * L) mf sf d = Inr (page i))
    \<and> concat (map page [0..<n]) = rows \<and> int (length rows) = total_rows
    \<and> mset rows = mset (filter (run_matches mf sf) (db_runs d))
    \<and> sorted_wrt (\<lambda>a b. rr_started a \<ge> rr_started b) rows"
proof -
  let ?rows = "sq_order_runs q (filter (run_matches mf sf) (db_runs d))"
  let ?page = "\<lambda>i. take (nat L) (drop (i * nat L) ?rows)"
  have m: "mset ?rows = mset (filter (run_matches mf sf) (db_runs d))"
    and s: "sorted_wrt (\<lambda>a b. rr_started a \<ge> rr_started b) ?rows"
    using assms(2) by (auto simp: orders_desc_def)
  have len: "int (length ?rows) = total_rows"
    using assms(1,4) mset_eq_length [OF m] by (simp add: count_runs_def)
  have "length ?rows \<le> n * nat L"
  proof -
    have "int (length ?rows) \<le> int (n * nat L)" using len assms(3,5) by simp
    then show ?thesis by linarith
  qed
  then have "concat (map ?page [0..<n]) = ?rows" by (simp add: concat_pages)
  with m s len list_runs_page [OF assms(1,3)] show ?thesis
    by (intro exI [of _ ?page] exI [of _ ?rows]) simp
qed

definition artifacts_wf :: "db \<Rightarrow> bool" where
  "artifacts_wf d \<longleftrightarrow> sorted_wrt (\<lambda>a b. ar_row_id a < ar_row_id b) (db_artifacts d)
    \<and> (\<forall>a\<in>set (db_artifacts d). 0 < ar_row_id a \<and> ar_row_id a \<le> db_artifact_seq d) \<and> 0 \<le> db_artifact_seq d"

lemma insert_artifact_wf:
  "insert_artifact q r d = Inr (n, d') \<Longrightarrow> artifacts_wf d \<Longrightarrow> artifacts_wf d'"
  by (fastforce simp: insert_artifact_def artifacts_wf_def sorted_wrt_append Let_def fsd_split)

lemma sort_key_row_ids:
  assumes "sorted_wrt (\<lambda>a b. ar_row_id a < ar_row_id b) xs"
  shows "sort_key ar_row_id xs = xs"
proof (rule sort_key_id_if_sorted)
  have "sorted_wrt (\<lambda>a b. ar_row_id a \<le> ar_row_id b) xs"
    using assms by (rule sorted_wrt_mono_rel [rotated]) simp
  then show "sorted (map ar_row_id xs)" by (simp add: sorted_wrt_map)
qed

lemma sort_key_filter_wf:
  "artifacts_wf d \<Longrightarrow> sort_key ar_row_id (filter P (db_artifacts d)) = filter P (db_artifacts d)"
  by (rule sort_key_row_ids) (simp add: artifacts_wf_def sorted_wrt_filter)

lemma create_if_not_exists_lookup:
  "map_of (create_if_not_exists t s) n
   = (case map_of s n of Some c \<Rightarrow> Some c | None \<Rightarrow> if n = fst t then Some (snd t) else None)"
  by (auto simp: create_if_not_exists_def map_add_def split: option.splits)

lemma fold_create_lookup:
  "map_of (fold create_if_not_exists ts s) n
   = (case map_of s n of Some c \<Rightarrow> Some c | None \<Rightarrow> map_of ts n)"
  by (induction ts arbitrary: s) (auto simp: create_if_not_exists_lookup split: option.splits)

lemma fold_create_present: "\<forall>t\<in>set ts. map_of s (fst t) \<noteq> None \<Longrightarrow> fold create_if_not_exists ts s = s"
  by (induction ts) (auto simp: create_if_not_exists_def)

lemma add_column_lookup:
  "map_of (add_column t c s) n = map_option (\<lambda>cols. if n = t then cols @ [c] else cols) (map_of s n)"
  by (induction s) (auto simp: add_column_def)

section \<open>Properties\<close>

text \<open>
  paging through \<^verbatim>\<open>listRuns\<close> is complete and without repetition. With any module and status filter
  and any positive page size, enough consecutive pages put together are exactly the matching runs, each
  as often as the table has it and newest first, and their number is what \<^verbatim>\<open>countRuns\<close> reports.
\<close>

theorem runs_paged:
  assumes "sq_failure q = None" and "orders_desc rr_started (sq_order_runs q)" and "0 < L"
    and "count_runs q mf sf d = Inr total_rows" and "total_rows \<le> int n * L"
  shows "\<exists>page rows. (\<forall>i. list_runs q L (int i * L) mf sf d = Inr (page i))
    \<and> concat (map page [0..<n]) = rows \<and> int (length rows) = total_rows
    \<and> mset rows = mset (filter (run_matches mf sf) (db_runs d))
    \<and> sorted_wrt (\<lambda>a b. rr_started a \<ge> rr_started b) rows"
  using assms by (rule paging)

definition sample_sqlite :: sqlite where
  "sample_sqlite = \<lparr>sq_failure = None, sq_constraint = (\<lambda>c. ''constraint failed: '' @ c),
     sq_real = (\<lambda>x. if x = NaN then None else Some x),
     sq_order_runs = (\<lambda>rs. rev (sort_key rr_started rs)),
     sq_order_variants = (\<lambda>rs. rev (sort_key cv_created_at rs))\<rparr>"

definition sample_run :: "string \<Rightarrow> string \<Rightarrow> int \<Rightarrow> run_row" where
  "sample_run i st t = \<lparr>rr_id = i, rr_module = ''map'', rr_status = st, rr_params = [], rr_started = t,
     rr_finished = 0, rr_output_dir = []\<rparr>"

definition empty_db :: db where
  "empty_db = \<lparr>db_schema = [], db_special_points = [], db_runs = [], db_artifacts = [], db_artifact_seq = 0,
     db_custom_variants = [], db_compute_requests = []\<rparr>"

lemma rev_sort_orders_desc: "orders_desc key (\<lambda>rs. rev (sort_key key rs))"
proof -
  have "sorted_wrt (\<lambda>a b. key a \<ge> key b) (rev (sort_key key xs))" for xs
    using sorted_sort_key [of key xs] by (simp add: sorted_wrt_rev sorted_wrt_map)
  then show ?thesis by (simp add: orders_desc_def)
qed

theorem runs_paged_witness:
  "\<exists>page. (\<forall>i. list_runs sample_sqlite 1 (int i * 1) [] [] (empty_db\<lparr>db_runs :=
       [sample_run ''a'' ''queued'' 1, sample_run ''b'' ''running'' 2]\<rparr>) = Inr (page i))
    \<and> length (concat (map page [0..<2])) = 2"
proof -
  let ?d = "empty_db\<lparr>db_runs := [sample_run ''a'' ''queued'' 1, sample_run ''b'' ''running'' 2]\<rparr>"
  have "count_runs sample_sqlite [] [] ?d = Inr 2"
    by (simp add: count_runs_def sample_sqlite_def run_matches_def split_module_filter_def empty_db_def)
  from runs_paged [OF _ _ _ this, of 1 2] show ?thesis
    using rev_sort_orders_desc [of rr_started] by (force simp: sample_sqlite_def)
qed

text \<open>
  startup reconciliation. After \<^verbatim>\<open>cancelInterruptedRuns\<close> no row is queued or running; the rows keep
  their ids and their order; a row that was interrupted is now cancelled and carries the given finishing
  time, every other row is unchanged; and the result is the number of rows that changed state.
\<close>

theorem interrupted_runs_cancelled:
  assumes "cancel_interrupted_runs q now d = Inr (n, d')"
  shows "filter interrupted (db_runs d') = [] \<and> map rr_id (db_runs d') = map rr_id (db_runs d)
    \<and> list_all2 (\<lambda>r r'. if interrupted r then rr_status r' = ''cancelled'' \<and> rr_finished r' = now
        \<and> rr_started r' = rr_started r \<and> rr_output_dir r' = rr_output_dir r else r' = r)
      (db_runs d) (db_runs d')
    \<and> n = int (length (filter interrupted (db_runs d))) \<and> db_artifacts d' = db_artifacts d"
  using assms by (auto simp: cancel_interrupted_runs_def fsd_split interrupted_def filter_empty_conv
      list_all2_conv_all_nth)

theorem interrupted_runs_cancelled_witness:
  "\<exists>d'. cancel_interrupted_runs sample_sqlite 9 (empty_db\<lparr>db_runs :=
      [sample_run ''a'' ''queued'' 1, sample_run ''b'' ''failed'' 2]\<rparr>) = Inr (1, d')
    \<and> filter interrupted (db_runs d') = []"
proof -
  let ?d = "empty_db\<lparr>db_runs := [sample_run ''a'' ''queued'' 1, sample_run ''b'' ''failed'' 2]\<rparr>"
  obtain d' where "cancel_interrupted_runs sample_sqlite 9 ?d = Inr (1, d')"
    by (simp add: cancel_interrupted_runs_def sample_sqlite_def sample_run_def interrupted_def)
  with interrupted_runs_cancelled [OF this] show ?thesis by blast
qed

text \<open>
  A module filter is read back from its text. The values of a non-empty filter are non-empty in
  number, contain no comma, and joined with commas they are the filter again, so the empty segments that
  select runs without a module are kept.
\<close>

theorem module_filter_roundtrip:
  assumes "f \<noteq> []"
  shows "split_module_filter f \<noteq> [] \<and> (\<forall>seg\<in>set (split_module_filter f). CHR '','' \<notin> set seg)
    \<and> concat (map (\<lambda>seg. seg @ '','') (split_module_filter f)) = f @ '',''"
  using assms split_segments_join [of f] by (simp add: split_module_filter_def)

theorem module_filter_roundtrip_witness:
  "concat (map (\<lambda>seg. seg @ '','') (split_module_filter ''map,,ln-map'')) = ''map,,ln-map,''"
  using module_filter_roundtrip [of "''map,,ln-map''"] by simp

text \<open>
  artifact ids. In a well-formed table a new artifact gets an id that no row has, is found under
  that id with the texts it was given, comes last in the listing of its run and first in the unfiltered
  listing by kind, and the table stays well-formed, also for every older row.
\<close>

theorem artifact_inserted:
  assumes "artifacts_wf d" and "insert_artifact q r d = Inr (n, d')"
  shows "artifacts_wf d' \<and> n \<notin> ar_row_id ` set (db_artifacts d) \<and>
    (\<exists>row. get_artifact_by_id q n d' = Inr row \<and> ar_kind row = c_str (ar_kind r) \<and> ar_path row = c_str (ar_path r)
      \<and> list_artifacts q (ar_run_id r) d' = Inr (filter (\<lambda>a. ar_run_id a = c_str (ar_run_id r)) (db_artifacts d) @ [row])
      \<and> list_artifacts_by_kind q [] 1 d' = Inr [row])"
proof -
  have wf: "artifacts_wf d'" using assms by (rule insert_artifact_wf [rotated])
  have q: "sq_failure q = None" using assms(2) by (simp add: insert_artifact_def fsd_split)
  let ?row = "\<lparr>ar_row_id = n, ar_run_id = c_str (ar_run_id r), ar_kind = c_str (ar_kind r),
           ar_path = c_str (ar_path r), ar_meta = c_str (ar_meta r)\<rparr>"
  have n: "n = db_artifact_seq d + 1" and d': "db_artifacts d' = db_artifacts d @ [?row]"
    using assms(2) by (auto simp: insert_artifact_def Let_def q)
  have fresh: "n \<notin> ar_row_id ` set (db_artifacts d)"
    using assms(1) n by (force simp: artifacts_wf_def)
  then have "find (\<lambda>a. ar_row_id a = n) (db_artifacts d) = None" by (auto simp: find_None_iff)
  then have "get_artifact_by_id q n d' = Inr ?row"
    by (simp add: get_artifact_by_id_def q d' find_append)
  moreover have "list_artifacts q (ar_run_id r) d'
      = Inr (filter (\<lambda>a. ar_run_id a = c_str (ar_run_id r)) (db_artifacts d) @ [?row])"
    using sort_key_filter_wf [OF wf, of "\<lambda>a. ar_run_id a = c_str (ar_run_id r)"]
    by (simp add: list_artifacts_def q d')
  moreover have "list_artifacts_by_kind q [] 1 d' = Inr [?row]"
    using sort_key_filter_wf [OF wf, of "\<lambda>a. True"] by (simp add: list_artifacts_by_kind_def q d')
  ultimately show ?thesis using wf fresh by (intro conjI exI [of _ ?row]) simp_all
qed

theorem artifact_inserted_witness:
  "\<exists>d'. insert_artifact sample_sqlite \<lparr>ar_row_id = 0, ar_run_id = ''a'', ar_kind = ''image'', ar_path = ''p'',
      ar_meta = []\<rparr> empty_db = Inr (1, d') \<and> artifacts_wf d'"
proof -
  let ?r = "\<lparr>ar_row_id = 0, ar_run_id = ''a'', ar_kind = ''image'', ar_path = ''p'', ar_meta = []\<rparr>"
  obtain d' where d': "insert_artifact sample_sqlite ?r empty_db = Inr (1, d')"
    by (simp add: insert_artifact_def sample_sqlite_def empty_db_def Let_def)
  have "artifacts_wf empty_db" by (simp add: artifacts_wf_def empty_db_def)
  from artifact_inserted [OF this d'] have "artifacts_wf d'" by simp
  with d' show ?thesis by (intro exI [of _ d']) simp
qed

text \<open>
  the response cache of the compute interface. After any history of successful writes, looking up an
  idempotency key gives the request hash and response of the last write under that key, or what the
  table held before when the history has none.
\<close>

fun write_requests ::
    "sqlite \<Rightarrow> (string \<times> string \<times> string \<times> int) list \<Rightarrow> db \<Rightarrow> db res" where
  "write_requests q [] d = Inr d"
| "write_requests q ((k, h, resp, t) # ws) d =
    res_bind (upsert_compute_request_response q k h resp t d) (write_requests q ws)"

lemma write_requests_table:
  "write_requests q ws d = Inr d' \<Longrightarrow> db_compute_requests d'
   = fold (insert_or_replace cr_key) (map (\<lambda>(k, h, resp, t). \<lparr>cr_key = c_str k, cr_hash = c_str h,
       cr_response = c_str resp, cr_completed = t\<rparr>) ws) (db_compute_requests d)"
  by (induction q ws d rule: write_requests.induct)
    (auto simp: upsert_compute_request_response_def Let_def fsd_split)

theorem idempotency_cache:
  assumes "sq_failure q = None" and "write_requests q ws d = Inr d'"
  shows "get_compute_request_response q key d' =
    (case find (\<lambda>(k, h, resp, t). c_str k = c_str key) (rev ws) of
       Some (k, h, resp, t) \<Rightarrow> Inr (Some (c_str h, c_str resp))
     | None \<Rightarrow> get_compute_request_response q key d)"
proof -
  let ?row = "\<lambda>(k, h, resp, t). \<lparr>cr_key = c_str k, cr_hash = c_str h, cr_response = c_str resp, cr_completed = t\<rparr>"
  have f: "find (\<lambda>r. cr_key r = c_str key) (map ?row xs)
      = map_option ?row (find (\<lambda>(k, h, resp, t). c_str k = c_str key) xs)" for xs
    by (induction xs) auto
  show ?thesis
    by (auto simp: get_compute_request_response_def assms(1) write_requests_table [OF assms(2)]
        request_table.get_history f rev_map split: option.split)
qed

theorem idempotency_cache_witness:
  "\<exists>d'. write_requests sample_sqlite [(''k'', ''h'', ''r1'', 1), (''k'', ''h'', ''r2'', 2)] empty_db = Inr d'
    \<and> get_compute_request_response sample_sqlite ''k'' d' = Inr (Some (''h'', ''r2''))"
proof -
  let ?ws = "[(''k'', ''h'', ''r1'', 1), (''k'', ''h'', ''r2'', 2)]"
  obtain d' where d': "write_requests sample_sqlite ?ws empty_db = Inr d'"
    by (simp add: upsert_compute_request_response_def sample_sqlite_def)
  have "sq_failure sample_sqlite = None" by (simp add: sample_sqlite_def)
  from idempotency_cache [OF this d', of "''k''"] d' show ?thesis by (auto simp: c_str_def)
qed

text \<open>
  Schema upgrade. Whatever tables an older database has, as long as each of them has the columns it
  was created with (\<^verbatim>\<open>compute_requests\<close> possibly without \<^verbatim>\<open>request_hash\<close>), after \<^verbatim>\<open>ensureSchema\<close> every table
  has every column that the statements name, and running it again changes nothing.
\<close>

theorem schema_ensured:
  assumes "sq_failure q = None"
    and "\<forall>t cols old. (t, cols) \<in> set schema_tables \<longrightarrow> map_of (db_schema d) t = Some old \<longrightarrow>
      set cols - {''request_hash''} \<subseteq> set old"
  shows "\<exists>d'. ensure_schema q d = Inr d' \<and> ensure_schema q d' = Inr d' \<and>
    (\<forall>t cols c. (t, cols) \<in> set schema_tables \<longrightarrow> c \<in> set cols \<longrightarrow> table_has_column (db_schema d') t c)"
proof -
  define s where "s = fold create_if_not_exists schema_tables (db_schema d)"
  define s' where "s' = (if table_has_column s ''compute_requests'' ''request_hash'' then s
      else add_column ''compute_requests'' ''request_hash'' s)"
  have dist: "distinct (map fst schema_tables)" by (simp add: schema_tables_def)
  have s: "\<exists>old. map_of s t = Some old \<and> set cols - {''request_hash''} \<subseteq> set old"
    if "(t, cols) \<in> set schema_tables" for t cols
    using that assms(2) map_of_eq_Some_iff [OF dist, of t cols]
    by (cases "map_of (db_schema d) t") (auto simp: s_def fold_create_lookup)
  have cr: "t = ''compute_requests''" if "(t, cols) \<in> set schema_tables" "''request_hash'' \<in> set cols" for t cols
    using that by (auto simp: schema_tables_def)
  have "(''compute_requests'', [''idempotency_key'', ''request_hash'', ''response_json'', ''completed_at''])
      \<in> set schema_tables" by (simp add: schema_tables_def)
  from s [OF this] obtain old where "map_of s ''compute_requests'' = Some old" by blast
  then have rh: "table_has_column s' ''compute_requests'' ''request_hash''"
    by (simp add: s'_def table_has_column_def add_column_lookup)
  have cols: "table_has_column s' t c" if "(t, cols) \<in> set schema_tables" "c \<in> set cols" for t cols c
    using s [OF that(1)] that cr [OF that(1)] rh
    by (cases "c = ''request_hash''") (auto simp: s'_def table_has_column_def add_column_lookup)
  have "map_of s' t \<noteq> None" if "(t, cols) \<in> set schema_tables" for t cols
    using s [OF that] by (auto simp: s'_def add_column_lookup)
  then have keep: "fold create_if_not_exists schema_tables s' = s'"
    by (intro fold_create_present) auto
  have e1: "ensure_schema q d = Inr (d\<lparr>db_schema := s'\<rparr>)"
    by (simp only: ensure_schema_def check_sqlite_ok [OF assms(1)] Let_def s_def s'_def)
  have e2: "ensure_schema q (d\<lparr>db_schema := s'\<rparr>) = Inr (d\<lparr>db_schema := s'\<rparr>)"
    by (simp add: ensure_schema_def assms(1) keep rh)
  show ?thesis
    by (rule exI [of _ "d\<lparr>db_schema := s'\<rparr>"]) (use e1 e2 cols in \<open>force\<close>)
qed

theorem schema_ensured_witness:
  "\<exists>d'. ensure_schema sample_sqlite (empty_db\<lparr>db_schema := [(''compute_requests'',
       [''idempotency_key'', ''response_json'', ''completed_at''])]\<rparr>) = Inr d'
     \<and> table_has_column (db_schema d') ''compute_requests'' ''request_hash''"
proof -
  let ?d = "empty_db\<lparr>db_schema := [(''compute_requests'',
      [''idempotency_key'', ''response_json'', ''completed_at''])]\<rparr>"
  have "sq_failure sample_sqlite = None" by (simp add: sample_sqlite_def)
  moreover have "\<forall>t cols old. (t, cols) \<in> set schema_tables \<longrightarrow> map_of (db_schema ?d) t = Some old \<longrightarrow>
      set cols - {''request_hash''} \<subseteq> set old"
    by (auto simp: schema_tables_def split: if_splits)
  ultimately show ?thesis
    using schema_ensured [of sample_sqlite ?d] by (force simp: schema_tables_def)
qed

text \<open>
  The special-point listing is the newest matches. It has at most 500 rows, each a stored row that
  passes the family, k and p filters, newest first with ties broken by id; a matching row that is not
  listed is no newer than any listed one, and is left out only because 500 rows are.
\<close>

theorem special_points_listed:
  assumes "list_special_points q family k p d = Inr rows"
  shows "length rows \<le> 500
    \<and> sorted_wrt (\<lambda>a b. (sp_created_at a, sp_id a) \<ge> (sp_created_at b, sp_id b)) rows
    \<and> (\<forall>r. r \<in> set rows \<longrightarrow> r \<in> set (db_special_points d) \<and> (family \<noteq> [] \<longrightarrow> sp_family r = c_str family)
        \<and> (0 \<le> k \<longrightarrow> sp_k r = k) \<and> (0 \<le> p \<longrightarrow> sp_p r = p))
    \<and> (\<forall>r. r \<in> set (db_special_points d) \<longrightarrow> (family = [] \<or> sp_family r = c_str family) \<longrightarrow>
        (0 \<le> k \<longrightarrow> sp_k r = k) \<longrightarrow> (0 \<le> p \<longrightarrow> sp_p r = p) \<longrightarrow> r \<notin> set rows \<longrightarrow>
        length rows = 500 \<and> (\<forall>x\<in>set rows. (sp_created_at r, sp_id r) \<le> (sp_created_at x, sp_id x)))"
proof -
  let ?key = "\<lambda>r. (sp_created_at r, sp_id r)"
  define ms where "ms = filter (\<lambda>r. (family = [] \<or> sp_family r = c_str family) \<and> (k \<ge> 0 \<longrightarrow> sp_k r = k)
           \<and> (p \<ge> 0 \<longrightarrow> sp_p r = p)) (db_special_points d)"
  define all where "all = rev (sort_key ?key ms)"
  have rows: "rows = take 500 all"
    using assms by (simp add: list_special_points_def fsd_split ms_def all_def Let_def)
  have set_all: "set all = set ms" by (simp add: all_def)
  have sorted_all: "sorted_wrt (\<lambda>a b. ?key a \<ge> ?key b) all"
    using sorted_sort_key [of ?key ms] by (simp add: all_def sorted_wrt_rev sorted_wrt_map)
  have split: "all = rows @ drop 500 all" by (simp add: rows)
  have both: "sorted_wrt (\<lambda>a b. ?key a \<ge> ?key b) (rows @ drop 500 all)"
    by (subst split [symmetric]) (rule sorted_all)
  have cross: "?key r \<le> ?key x" if "r \<in> set (drop 500 all)" "x \<in> set rows" for r x
    using both that unfolding sorted_wrt_append by blast
  have left: "length rows = 500 \<and> r \<in> set (drop 500 all)" if "r \<in> set ms" "r \<notin> set rows" for r
  proof -
    have r: "r \<in> set (drop 500 all)" using that set_all set_append [of rows "drop 500 all", folded split] by blast
    then have "500 < length all" by (cases "length all \<le> 500") auto
    with r show ?thesis by (simp add: rows)
  qed
  have "sorted_wrt (\<lambda>a b. ?key a \<ge> ?key b) rows" using sorted_all by (simp only: rows sorted_wrt_take)
  moreover have "set rows \<subseteq> set ms" using set_all by (auto simp: rows dest: in_set_takeD)
  ultimately show ?thesis using left cross by (auto simp: rows ms_def)
qed

theorem special_points_listed_witness:
  "\<exists>rows. list_special_points sample_sqlite [] 2 (- 1) (empty_db\<lparr>db_special_points :=
       [\<lparr>sp_id = ''a'', sp_family = ''m'', sp_point_type = ''c'', sp_k = 2, sp_p = 1, sp_re = Fin 0, sp_im = Fin 0,
         sp_source_mode = ''s'', sp_created_at = ''t''\<rparr>]\<rparr>) = Inr rows \<and> length rows \<le> 500 \<and> rows \<noteq> []"
proof -
  let ?p = "\<lparr>sp_id = ''a'', sp_family = ''m'', sp_point_type = ''c'', sp_k = 2, sp_p = 1, sp_re = Fin 0, sp_im = Fin 0,
         sp_source_mode = ''s'', sp_created_at = ''t''\<rparr>"
  have "list_special_points sample_sqlite [] 2 (- 1) (empty_db\<lparr>db_special_points := [?p]\<rparr>) = Inr [?p]"
    by (simp add: list_special_points_def sample_sqlite_def)
  from special_points_listed [OF this] this show ?thesis by simp
qed

end
