(* ===== verification/JobRunner.thy ===== *)
theory JobRunner
  imports Db FileSystem
begin

text \<open>
  Jobs (\<^verbatim>\<open>core/job_runner.cpp\<close>): the in-memory record of every run, written through to the store, the
  output directories, cancellation and the count of background workers. Each member function is one
  definition from the state before to its result, an exception included, and the state after. Run
  metadata is guarded by one mutex, so an execution of several threads is a sequence of these steps.
\<close>

section \<open>State\<close>

record artifact =
  art_module :: string
  art_path :: string
  art_kind :: string

record run_record =
  run_id :: string
  run_status :: string
  run_output_dir :: string
  run_artifacts :: "artifact list"

record active_task =
  at_run_id :: string
  at_task_type :: string
  at_status :: string
  at_progress :: string
  at_started :: int
  at_elapsed :: int
  at_cancelable :: bool
  at_cancel_requested :: bool

record cancel_result =
  cq_status :: string
  cq_cancelable :: bool
  cq_requested :: bool
  cq_accepted :: bool

text \<open>
  \<^verbatim>\<open>jr_tokens\<close> maps a run to its \<^verbatim>\<open>shared_ptr<atomic<bool>>\<close>, an address of \<^verbatim>\<open>jr_cells\<close> that the run's
  workers keep and poll; \<^verbatim>\<open>jr_last_stamp\<close> and \<^verbatim>\<open>jr_sequence\<close> are the statics of \<^verbatim>\<open>makeRunId\<close>.
  \<^verbatim>\<open>jr_db\<close> is \<^verbatim>\<open>None\<close> for a runner without a store.
\<close>

record runner =
  jr_root :: path
  jr_files :: files
  jr_db :: "db option"
  jr_tasks :: nat
  jr_shutting_down :: bool
  jr_runs :: "(string \<times> run_record) list"
  jr_modules :: "string \<rightharpoonup> string"
  jr_params :: "string \<rightharpoonup> string"
  jr_progress :: "string \<rightharpoonup> string"
  jr_started :: "string \<rightharpoonup> int"
  jr_requested :: "string \<rightharpoonup> bool"
  jr_tokens :: "string \<rightharpoonup> nat"
  jr_cancelable :: "string \<rightharpoonup> bool"
  jr_cells :: "bool list"
  jr_last_stamp :: string
  jr_sequence :: "32 word"

text \<open>What a call meets: the SQLite of its statement, the clock, the local time of its n-th look at it,
  and what the operating system refuses.\<close>

record call =
  ca_sql :: sqlite
  ca_now :: int
  ca_stamp :: "nat \<Rightarrow> string"
  ca_refuse :: "fs_op \<Rightarrow> bool"

type_synonym 'a job_outcome = "'a res \<times> runner"

definition not_found :: "string \<Rightarrow> exn" where
  "not_found i = RuntimeError (''run not found: '' @ i)"

section \<open>Run ids and directories\<close>

definition category_for_module :: "string \<Rightarrow> string" where
  "category_for_module m =
    (if m \<in> {''video-export'', ''zoom-video'', ''video-preview'', ''transition-video-export'',
         ''transition-video-preview''} then ''videos''
     else if m = ''ln-map'' then ''ln-maps''
     else if m = ''map'' \<or> m = ''map-export'' then ''maps''
     else if m = ''start-frame'' then ''frames''
     else if m \<in> {''hs-mesh'', ''hs-field'', ''transition-mesh'', ''transition-voxels''} then ''meshes''
     else if m = ''special-points-search'' \<or> m = ''special-points-enumerate'' then ''points''
     else if m = ''benchmark'' then ''benchmark''
     else if m = [] then ''misc''
     else m)"

definition pad3 :: "nat \<Rightarrow> string" where
  "pad3 n = (let ds = nat_digits n in replicate (3 - length ds) (CHR ''0'') @ ds)"

definition make_run_id :: "string \<Rightarrow> runner \<Rightarrow> string \<times> runner" where
  "make_run_id stamp s =
    (let s = (if stamp = jr_last_stamp s then s\<lparr>jr_sequence := jr_sequence s + 1\<rparr>
              else s\<lparr>jr_last_stamp := stamp, jr_sequence := 0\<rparr>)
     in (if jr_sequence s = 0 then stamp else stamp @ ''-'' @ pad3 (unat (jr_sequence s)), s))"

definition run_id_exists_anywhere :: "files \<Rightarrow> path \<Rightarrow> string \<Rightarrow> bool" where
  "run_id_exists_anywhere fs rt i =
    (let runs_root = path_append rt ''runs'' in
     path_exists fs (path_append runs_root i)
     \<or> list_ex (\<lambda>p. is_directory fs p \<and> path_exists fs (path_append p i)) (directory_entries fs runs_root))"

text \<open>The loop of \<^verbatim>\<open>createRun\<close>, from an attempt on; the result is the id and the output directory.\<close>

fun allocate :: "call \<Rightarrow> path \<Rightarrow> nat \<Rightarrow> nat \<Rightarrow> runner \<Rightarrow> (string \<times> path) option job_outcome" where
  "allocate ca category_dir attempt 0 s = (Inr None, s)"
| "allocate ca category_dir attempt (Suc n) s =
    (let (i, s) = make_run_id (ca_stamp ca attempt) s in
     if run_id_exists_anywhere (jr_files s) (jr_root s) i then allocate ca category_dir (Suc attempt) n s
     else let dir = path_append category_dir i in
       case create_directory (ca_refuse ca) dir (jr_files s) of
         ((_, True), fs) \<Rightarrow> (Inr (Some (i, dir)), s\<lparr>jr_files := fs\<rparr>)
       | ((True, _), fs) \<Rightarrow>
           (Inl (RuntimeError (''failed to create run output directory: '' @ path_string dir)), s)
       | ((False, False), fs) \<Rightarrow> allocate ca category_dir (Suc attempt) n s)"

definition run_row_of :: "string \<Rightarrow> string \<Rightarrow> string \<Rightarrow> string \<Rightarrow> int \<Rightarrow> int \<Rightarrow> string \<Rightarrow> run_row" where
  "run_row_of i mdl st params started finished dir =
    \<lparr>rr_id = i, rr_module = mdl, rr_status = st, rr_params = params, rr_started = started,
     rr_finished = finished, rr_output_dir = dir\<rparr>"

text \<open>\<^verbatim>\<open>if (db_) db_->upsertRun(row)\<close>.\<close>

definition store_run :: "call \<Rightarrow> run_row \<Rightarrow> runner \<Rightarrow> runner res" where
  "store_run ca row s =
    (case jr_db s of
       None \<Rightarrow> Inr s
     | Some d \<Rightarrow> res_bind (upsert_run (ca_sql ca) row d) (\<lambda>d. Inr (s\<lparr>jr_db := Some d\<rparr>)))"

definition remember_run :: "string \<Rightarrow> string \<Rightarrow> int \<Rightarrow> run_record \<Rightarrow> runner \<Rightarrow> runner" where
  "remember_run mdl params started run s =
    s\<lparr>jr_runs := AList.update (run_id run) run (jr_runs s),
      jr_modules := (jr_modules s)(run_id run \<mapsto> mdl),
      jr_params := (jr_params s)(run_id run \<mapsto> params),
      jr_started := (jr_started s)(run_id run \<mapsto> started),
      jr_requested := (jr_requested s)(run_id run \<mapsto> False),
      jr_tokens := (jr_tokens s)(run_id run \<mapsto> length (jr_cells s)),
      jr_cells := jr_cells s @ [False],
      jr_cancelable := (jr_cancelable s)(run_id run \<mapsto> False)\<rparr>"

definition forget_run :: "string \<Rightarrow> runner \<Rightarrow> runner" where
  "forget_run i s =
    s\<lparr>jr_runs := AList.delete i (jr_runs s),
      jr_modules := (jr_modules s)(i := None),
      jr_params := (jr_params s)(i := None),
      jr_started := (jr_started s)(i := None),
      jr_requested := (jr_requested s)(i := None),
      jr_tokens := (jr_tokens s)(i := None),
      jr_cancelable := (jr_cancelable s)(i := None)\<rparr>"

definition create_run :: "call \<Rightarrow> string \<Rightarrow> string \<Rightarrow> runner \<Rightarrow> run_record job_outcome" where
  "create_run ca mdl params s =
    (let category_dir = path_append (path_append (jr_root s) ''runs'') (category_for_module mdl);
         s = s\<lparr>jr_files := snd (create_directories (ca_refuse ca) category_dir (jr_files s))\<rparr>
     in case allocate ca category_dir 0 1000 s of
       (Inl e, s) \<Rightarrow> (Inl e, s)
     | (Inr None, s) \<Rightarrow> (Inl (RuntimeError ''failed to allocate unique run output directory''), s)
     | (Inr (Some (i, dir)), s) \<Rightarrow>
         let run = \<lparr>run_id = i, run_status = ''queued'', run_output_dir = path_string dir, run_artifacts = []\<rparr>;
             s = remember_run mdl params (ca_now ca) run s
         in case store_run ca (run_row_of i mdl ''queued'' params (ca_now ca) 0 (path_string dir)) s of
              Inr s \<Rightarrow> (Inr run, s)
            | Inl e \<Rightarrow>
                let s = forget_run i s
                in (Inl e, s\<lparr>jr_files := remove_all (ca_refuse ca) (path_of (run_output_dir run)) (jr_files s)\<rparr>))"

section \<open>Status, progress and artifacts\<close>

definition get_run :: "string \<Rightarrow> runner \<Rightarrow> run_record job_outcome" where
  "get_run i s = (case map_of (jr_runs s) i of None \<Rightarrow> (Inl (not_found i), s) | Some r \<Rightarrow> (Inr r, s))"

definition terminal_status :: "string \<Rightarrow> bool" where
  "terminal_status st \<longleftrightarrow> st \<in> {''completed'', ''failed'', ''cancelled''}"

definition active_status :: "string \<Rightarrow> bool" where
  "active_status st \<longleftrightarrow> st \<in> {''queued'', ''running''}"

text \<open>\<^verbatim>\<open>runModules_[runId]\<close> on a missing key inserts the default.\<close>

definition at_or :: "'v \<Rightarrow> (string \<rightharpoonup> 'v) \<Rightarrow> string \<Rightarrow> 'v" where
  "at_or d m i = (case m i of None \<Rightarrow> d | Some v \<Rightarrow> v)"

definition set_status :: "call \<Rightarrow> string \<Rightarrow> string \<Rightarrow> runner \<Rightarrow> unit job_outcome" where
  "set_status ca i st s =
    (case map_of (jr_runs s) i of
       None \<Rightarrow> (Inl (not_found i), s)
     | Some r \<Rightarrow>
         let finished = (if terminal_status st then ca_now ca else 0);
             mdl = at_or [] (jr_modules s) i;
             params = at_or [] (jr_params s) i;
             started = at_or 0 (jr_started s) i;
             s = s\<lparr>jr_runs := AList.update i (r\<lparr>run_status := st\<rparr>) (jr_runs s),
                   jr_modules := (jr_modules s)(i \<mapsto> mdl),
                   jr_params := (jr_params s)(i \<mapsto> params),
                   jr_started := (jr_started s)(i \<mapsto> started)\<rparr>
         in case store_run ca (run_row_of i mdl st params started finished (run_output_dir r)) s of
              Inl e \<Rightarrow> (Inl e, s)
            | Inr s \<Rightarrow> (Inr (), s))"

definition set_progress :: "call \<Rightarrow> string \<Rightarrow> string \<Rightarrow> runner \<Rightarrow> unit job_outcome" where
  "set_progress ca i text s =
    (case map_of (jr_runs s) i of
       None \<Rightarrow> (Inl (not_found i), s)
     | Some r \<Rightarrow>
         let s = s\<lparr>jr_progress := (jr_progress s)(i \<mapsto> text)\<rparr> in
         if run_output_dir r = [] then (Inr (), s)
         else let dir = path_of (run_output_dir r);
                  final = path_append dir ''progress.json'';
                  tmp = path_append dir ''progress.json.tmp'';
                  fs = snd (write_file (ca_refuse ca) tmp text (jr_files s));
                  (failed, fs) = rename_file (ca_refuse ca) tmp final fs;
                  fs = (if failed
                        then snd (rename_file (ca_refuse ca) tmp final (snd (remove_file (ca_refuse ca) final fs)))
                        else fs)
              in (Inr (), s\<lparr>jr_files := fs\<rparr>))"

definition resolve_output_dir :: "call \<Rightarrow> string \<Rightarrow> runner \<Rightarrow> string" where
  "resolve_output_dir ca i s =
    (case map_of (jr_runs s) i of
       Some r \<Rightarrow> run_output_dir r
     | None \<Rightarrow>
         (case jr_db s of
            None \<Rightarrow> []
          | Some d \<Rightarrow> (case get_run_row (ca_sql ca) i d of Inl _ \<Rightarrow> [] | Inr row \<Rightarrow> rr_output_dir row)))"

definition get_progress :: "call \<Rightarrow> string \<Rightarrow> runner \<Rightarrow> string" where
  "get_progress ca i s =
    (case jr_progress s i of
       Some text \<Rightarrow> text
     | None \<Rightarrow>
         let dir = (case map_of (jr_runs s) i of None \<Rightarrow> [] | Some r \<Rightarrow> run_output_dir r);
             dir = (if dir = [] then resolve_output_dir ca i s else dir);
             text = (if dir = [] then [] else read_file (jr_files s) (path_append (path_of dir) ''progress.json''))
         in if text = [] then ''{}'' else text)"

definition add_artifact :: "call \<Rightarrow> string \<Rightarrow> artifact \<Rightarrow> runner \<Rightarrow> unit job_outcome" where
  "add_artifact ca i a s =
    (case map_of (jr_runs s) i of
       None \<Rightarrow> (Inl (not_found i), s)
     | Some r \<Rightarrow>
         let s = s\<lparr>jr_runs := AList.update i (r\<lparr>run_artifacts := run_artifacts r @ [a]\<rparr>) (jr_runs s)\<rparr> in
         case jr_db s of
           None \<Rightarrow> (Inr (), s)
         | Some d \<Rightarrow>
             (case insert_artifact (ca_sql ca) \<lparr>ar_row_id = 0, ar_run_id = i, ar_kind = art_kind a,
                  ar_path = art_path a, ar_meta = []\<rparr> d of
                Inl e \<Rightarrow> (Inl e, s)
              | Inr (_, d) \<Rightarrow> (Inr (), s\<lparr>jr_db := Some d\<rparr>)))"

section \<open>Cancellation\<close>

definition request_cancel :: "string \<Rightarrow> runner \<Rightarrow> cancel_result job_outcome" where
  "request_cancel i s =
    (case map_of (jr_runs s) i of
       None \<Rightarrow> (Inl (not_found i), s)
     | Some r \<Rightarrow>
         let cancelable = at_or False (jr_cancelable s) i;
             result = \<lparr>cq_status = run_status r, cq_cancelable = cancelable, cq_requested = False,
               cq_accepted = False\<rparr>
         in if \<not> active_status (run_status r) \<or> \<not> cancelable then (Inr result, s)
            else let s = s\<lparr>jr_requested := (jr_requested s)(i \<mapsto> True)\<rparr>;
                     s = (case jr_tokens s i of
                            None \<Rightarrow> s
                          | Some a \<Rightarrow> s\<lparr>jr_cells := (jr_cells s)[a := True]\<rparr>)
                 in (Inr (result\<lparr>cq_requested := True, cq_accepted := True\<rparr>), s))"

definition is_cancel_requested :: "string \<Rightarrow> runner \<Rightarrow> bool" where
  "is_cancel_requested i s = at_or False (jr_requested s) i"

definition cancel_token :: "string \<Rightarrow> runner \<Rightarrow> nat job_outcome" where
  "cancel_token i s =
    (case jr_tokens s i of None \<Rightarrow> (Inl (not_found i), s) | Some a \<Rightarrow> (Inr a, s))"

definition set_cancelable :: "string \<Rightarrow> bool \<Rightarrow> runner \<Rightarrow> unit job_outcome" where
  "set_cancelable i b s =
    (case map_of (jr_runs s) i of
       None \<Rightarrow> (Inl (not_found i), s)
     | Some _ \<Rightarrow> (Inr (), s\<lparr>jr_cancelable := (jr_cancelable s)(i \<mapsto> b)\<rparr>))"

section \<open>Queries and lifetime\<close>

definition run_elapsed_ms :: "call \<Rightarrow> string \<Rightarrow> runner \<Rightarrow> int" where
  "run_elapsed_ms ca i s = (case jr_started s i of None \<Rightarrow> 0 | Some t \<Rightarrow> max 0 (ca_now ca - t))"

definition active_tasks :: "call \<Rightarrow> runner \<Rightarrow> active_task list" where
  "active_tasks ca s =
    map (\<lambda>(i, r). let started = at_or 0 (jr_started s) i in
        \<lparr>at_run_id = i, at_task_type = at_or [] (jr_modules s) i, at_status = run_status r,
         at_progress = at_or ''{}'' (jr_progress s) i, at_started = started,
         at_elapsed = (if started > 0 then max 0 (ca_now ca - started) else 0),
         at_cancelable = at_or False (jr_cancelable s) i,
         at_cancel_requested = at_or False (jr_requested s) i\<rparr>)
      (filter (\<lambda>(i, r). active_status (run_status r)) (jr_runs s))"

text \<open>Taking a worker's token, its deleter, and the destructor, which waits until no token is left.\<close>

definition background_task_token :: "runner \<Rightarrow> unit job_outcome" where
  "background_task_token s =
    (if jr_shutting_down s then (Inl (RuntimeError ''JobRunner is shutting down''), s)
     else (Inr (), s\<lparr>jr_tasks := jr_tasks s + 1\<rparr>))"

definition release_task_token :: "runner \<Rightarrow> runner" where
  "release_task_token s = (if jr_tasks s > 0 then s\<lparr>jr_tasks := jr_tasks s - 1\<rparr> else s)"

definition begin_shutdown :: "runner \<Rightarrow> runner" where
  "begin_shutdown s = s\<lparr>jr_shutting_down := True\<rparr>"

definition can_finish_shutdown :: "runner \<Rightarrow> bool" where
  "can_finish_shutdown s \<longleftrightarrow> jr_shutting_down s \<and> jr_tasks s = 0"

text \<open>
  The constructor: whether the lock file opens, whether the exclusive and then the shared lock are
  granted. Only the process that gets the exclusive lock reconciles the runs of earlier processes.
\<close>

definition job_runner ::
    "call \<Rightarrow> path \<Rightarrow> db option \<Rightarrow> files \<Rightarrow> bool \<Rightarrow> bool \<Rightarrow> bool \<Rightarrow> runner res" where
  "job_runner ca rt store fs opens exclusive shared =
    (case create_directories (ca_refuse ca) (path_append rt ''runs'') fs of
       (True, _) \<Rightarrow> Inl (RuntimeError ''cannot create directories'')
     | (False, fs) \<Rightarrow>
         if \<not> opens then Inl (RuntimeError ''failed to open JobRunner ownership lock'')
         else res_bind
           (case store of
              None \<Rightarrow> Inr None
            | Some d \<Rightarrow>
                if exclusive
                then res_bind (cancel_interrupted_runs (ca_sql ca) (ca_now ca) d) (\<lambda>(_, d). Inr (Some d))
                else Inr (Some d))
           (\<lambda>store.
             if \<not> shared then Inl (RuntimeError ''failed to acquire JobRunner ownership lock'')
             else Inr \<lparr>jr_root = rt, jr_files = fs, jr_db = store, jr_tasks = 0, jr_shutting_down = False,
               jr_runs = [], jr_modules = Map.empty, jr_params = Map.empty, jr_progress = Map.empty,
               jr_started = Map.empty, jr_requested = Map.empty, jr_tokens = Map.empty,
               jr_cancelable = Map.empty, jr_cells = [], jr_last_stamp = [], jr_sequence = 0\<rparr>))"

end
