(* ===== verification/JobInvariants.thy ===== *)
theory JobInvariants
  imports JobRunner
begin

text \<open>
  Executions of a job runner and what holds along them: a cancellation reaches the run's worker, the
  store mirrors the memory, run ids and directories are fresh, and shutdown waits for the workers.
\<close>

section \<open>Executions\<close>

datatype job_op =
    Create_run string string
  | Set_status string string
  | Set_progress string string
  | Add_artifact string artifact
  | Request_cancel string
  | Set_cancelable string bool
  | Take_token
  | Release_token
  | Shutdown

fun apply_op :: "call \<Rightarrow> job_op \<Rightarrow> runner \<Rightarrow> runner" where
  "apply_op ca (Create_run mdl params) s = snd (create_run ca mdl params s)"
| "apply_op ca (Set_status i st) s = snd (set_status ca i st s)"
| "apply_op ca (Set_progress i text) s = snd (set_progress ca i text s)"
| "apply_op ca (Add_artifact i a) s = snd (add_artifact ca i a s)"
| "apply_op ca (Request_cancel i) s = snd (request_cancel i s)"
| "apply_op ca (Set_cancelable i b) s = snd (set_cancelable i b s)"
| "apply_op ca Take_token s = snd (background_task_token s)"
| "apply_op ca Release_token s = release_task_token s"
| "apply_op ca Shutdown s = begin_shutdown s"

text \<open>Finite executions whose calls all satisfy \<open>P\<close>; operations may throw and the execution goes on.\<close>

inductive executes :: "(call \<Rightarrow> bool) \<Rightarrow> runner \<Rightarrow> runner \<Rightarrow> bool" for P where
  none: "executes P s s"
| step: "executes P s s' \<Longrightarrow> P ca \<Longrightarrow> executes P s (apply_op ca job s')"

lemma executes_invariant:
  assumes "\<And>ca job s. P ca \<Longrightarrow> Q s \<Longrightarrow> Q (apply_op ca job s)" and "executes P s s'" and "Q s"
  shows "Q s'"
  using assms(2,3) by (induction rule: executes.induct) (auto intro: assms(1))

lemma executes_weaken: "executes P s s' \<Longrightarrow> (\<And>ca. P ca \<Longrightarrow> R ca) \<Longrightarrow> executes R s s'"
  by (induction rule: executes.induct) (auto intro: executes.intros)

section \<open>What single operations leave alone\<close>

text \<open>The state without its files and without the statics of \<^verbatim>\<open>makeRunId\<close>.\<close>

definition core :: "runner \<Rightarrow> runner" where
  "core s = s\<lparr>jr_last_stamp := [], jr_sequence := 0, jr_files := []\<rparr>"

lemma core_updates [simp]:
  "core (s\<lparr>jr_last_stamp := x\<rparr>) = core s"
  "core (s\<lparr>jr_sequence := y\<rparr>) = core s"
  "core (s\<lparr>jr_files := z\<rparr>) = core s"
  by (simp_all add: core_def)

lemma core_eqD:
  assumes "core s' = core s"
  shows "jr_root s' = jr_root s" "jr_db s' = jr_db s" "jr_tasks s' = jr_tasks s"
    "jr_shutting_down s' = jr_shutting_down s" "jr_runs s' = jr_runs s" "jr_modules s' = jr_modules s"
    "jr_params s' = jr_params s" "jr_progress s' = jr_progress s" "jr_started s' = jr_started s"
    "jr_requested s' = jr_requested s" "jr_tokens s' = jr_tokens s" "jr_cancelable s' = jr_cancelable s"
    "jr_cells s' = jr_cells s"
  using assms by (cases s; cases s'; simp add: core_def)+

lemma core_make_run_id: "make_run_id st s = (i, s') \<Longrightarrow> core s' = core s \<and> jr_files s' = jr_files s"
  by (auto simp: make_run_id_def Let_def split: if_splits)

lemma allocate_facts:
  "allocate ca dir k n s = (r, s') \<Longrightarrow> core s' = core s \<and>
   (case r of Inr (Some (i, p)) \<Rightarrow>
        \<not> run_id_exists_anywhere (jr_files s) (jr_root s) i \<and> p = path_append dir i
        \<and> create_directory (ca_refuse ca) p (jr_files s) = ((False, True), jr_files s')
        \<and> (\<exists>j s1. i = fst (make_run_id (ca_stamp ca j) s1))
    | _ \<Rightarrow> jr_files s' = jr_files s)"
proof (induction n arbitrary: k s)
  case (Suc n)
  obtain i s1 where m: "make_run_id (ca_stamp ca k) s = (i, s1)" by (cases "make_run_id (ca_stamp ca k) s")
  from core_make_run_id [OF m] have c: "core s1 = core s" "jr_files s1 = jr_files s" "jr_root s1 = jr_root s"
    by (auto dest: core_eqD)
  show ?case
  proof (cases "run_id_exists_anywhere (jr_files s1) (jr_root s1) i")
    case True
    with Suc.IH [of "Suc k" s1] Suc.prems m c show ?thesis by (simp split: sum.splits option.splits prod.splits)
  next
    case False
    obtain ec ok fs where d: "create_directory (ca_refuse ca) (path_append dir i) (jr_files s1) = ((ec, ok), fs)"
      by (cases "create_directory (ca_refuse ca) (path_append dir i) (jr_files s1)") auto
    have ec: "ok \<Longrightarrow> \<not> ec" using d by (auto simp: create_directory_def split: if_splits option.splits)
    consider "ok" | "ec" "\<not> ok" | "\<not> ec" "\<not> ok" by blast
    then show ?thesis
    proof cases
      case 1
      with Suc.prems m d False ec have "r = Inr (Some (i, path_append dir i))" "s' = s1\<lparr>jr_files := fs\<rparr>"
        by (auto simp: Let_def)
      moreover have "i = fst (make_run_id (ca_stamp ca k) s)" by (simp add: m)
      ultimately show ?thesis using 1 c d ec False by auto
    next
      case 2
      with Suc.prems m d False c show ?thesis by (auto simp: Let_def)
    next
      case 3
      with Suc.prems m d False have "allocate ca dir (Suc k) n s1 = (r, s')" by (simp add: Let_def)
      with Suc.IH [of "Suc k" s1] c show ?thesis by (simp split: sum.splits option.splits prod.splits)
    qed
  qed
qed auto

text \<open>The three outcomes of \<^verbatim>\<open>createRun\<close>, with the state before the maps are touched.\<close>

lemma create_run_cases:
  assumes "create_run ca mdl params s = (r, s')"
  obtains (failed) e where "r = Inl e" "core s' = core s"
    | (stored) i p s1 run s2 where "core s1 = core s" "r = Inr run"
      "run = \<lparr>run_id = i, run_status = ''queued'', run_output_dir = path_string p, run_artifacts = []\<rparr>"
      "s2 = remember_run mdl params (ca_now ca) run s1"
      "store_run ca (run_row_of i mdl ''queued'' params (ca_now ca) 0 (path_string p)) s2 = Inr s'"
      "p = path_append (path_append (path_append (jr_root s) ''runs'') (category_for_module mdl)) i"
      "\<exists>fs. fs = snd (create_directories (ca_refuse ca)
          (path_append (path_append (jr_root s) ''runs'') (category_for_module mdl)) (jr_files s))
        \<and> \<not> run_id_exists_anywhere fs (jr_root s) i
        \<and> create_directory (ca_refuse ca) p fs = ((False, True), jr_files s1)"
      "\<exists>j s1. i = fst (make_run_id (ca_stamp ca j) s1)"
    | (refused) i p s1 run s2 e where "core s1 = core s" "r = Inl e"
      "run = \<lparr>run_id = i, run_status = ''queued'', run_output_dir = path_string p, run_artifacts = []\<rparr>"
      "s2 = remember_run mdl params (ca_now ca) run s1"
      "store_run ca (run_row_of i mdl ''queued'' params (ca_now ca) 0 (path_string p)) s2 = Inl e"
      "s' = (forget_run i s2)\<lparr>jr_files := remove_all (ca_refuse ca) (path_of (path_string p)) (jr_files s1)\<rparr>"
      "p = path_append (path_append (path_append (jr_root s) ''runs'') (category_for_module mdl)) i"
      "\<exists>fs. fs = snd (create_directories (ca_refuse ca)
          (path_append (path_append (jr_root s) ''runs'') (category_for_module mdl)) (jr_files s))
        \<and> \<not> run_id_exists_anywhere fs (jr_root s) i
        \<and> create_directory (ca_refuse ca) p fs = ((False, True), jr_files s1)"
      "\<exists>j s1. i = fst (make_run_id (ca_stamp ca j) s1)"
proof -
  define cat where "cat = path_append (path_append (jr_root s) ''runs'') (category_for_module mdl)"
  define s0 where "s0 = s\<lparr>jr_files := snd (create_directories (ca_refuse ca) cat (jr_files s))\<rparr>"
  obtain a s1 where al: "allocate ca cat 0 1000 s0 = (a, s1)" by (cases "allocate ca cat 0 1000 s0")
  have s0: "core s0 = core s" "jr_root s0 = jr_root s" by (simp_all add: s0_def)
  note af = allocate_facts [OF al]
  consider e where "a = Inl e" | "a = Inr None" | i p where "a = Inr (Some (i, p))"
    by (cases a) (auto, metis not_Some_eq surj_pair)
  then show ?thesis
  proof cases
    case (1 e)
    with assms al have "r = Inl e" "s' = s1" by (simp_all add: create_run_def cat_def [symmetric] s0_def [symmetric])
    with failed af s0 show ?thesis by simp
  next
    case 2
    with assms al have "r = Inl (RuntimeError ''failed to allocate unique run output directory'')" "s' = s1"
      by (simp_all add: create_run_def cat_def [symmetric] s0_def [symmetric])
    with failed af s0 show ?thesis by simp
  next
    case (3 i p)
    define run where
      "run = \<lparr>run_id = i, run_status = ''queued'', run_output_dir = path_string p, run_artifacts = []\<rparr>"
    define s2 where "s2 = remember_run mdl params (ca_now ca) run s1"
    have facts: "core s1 = core s" "p = path_append cat i"
      "\<exists>fs. fs = snd (create_directories (ca_refuse ca) cat (jr_files s))
        \<and> \<not> run_id_exists_anywhere fs (jr_root s) i
        \<and> create_directory (ca_refuse ca) p fs = ((False, True), jr_files s1)"
      "\<exists>j s1. i = fst (make_run_id (ca_stamp ca j) s1)"
      using af 3 s0 by (auto simp: s0_def)
    have f2: "jr_files s2 = jr_files s1" by (simp add: s2_def remember_run_def)
    let ?row = "run_row_of i mdl ''queued'' params (ca_now ca) 0 (path_string p)"
    have unf: "create_run ca mdl params s = (case store_run ca ?row s2 of Inr s \<Rightarrow> (Inr run, s)
        | Inl e \<Rightarrow> (Inl e, (forget_run i s2)\<lparr>jr_files := remove_all (ca_refuse ca)
            (path_of (path_string p)) (jr_files (forget_run i s2))\<rparr>))"
      using al 3 by (simp add: create_run_def cat_def [symmetric] s0_def [symmetric] run_def s2_def Let_def
          cong: sum.case_cong)
    have f3: "jr_files (forget_run i s2) = jr_files s1" by (simp add: forget_run_def f2)
    show ?thesis
    proof (cases "store_run ca ?row s2")
      case (Inl e)
      with unf assms f3 refused [OF facts(1) _ run_def s2_def Inl _ facts(2) [unfolded cat_def] facts(3) [unfolded cat_def] facts(4)]
      show ?thesis by simp
    next
      case (Inr x)
      with unf assms stored [OF facts(1) _ run_def s2_def _ facts(2) [unfolded cat_def] facts(3) [unfolded cat_def] facts(4)]
      show ?thesis by simp
    qed
  qed
qed

section \<open>Cancellation tokens\<close>

definition tokens_inv :: "runner \<Rightarrow> bool" where
  "tokens_inv s \<longleftrightarrow>
    (\<forall>i. map_of (jr_runs s) i \<noteq> None \<longrightarrow> jr_tokens s i \<noteq> None)
    \<and> (\<forall>i a. jr_tokens s i = Some a \<longrightarrow> a < length (jr_cells s) \<and> jr_cells s ! a = is_cancel_requested i s)
    \<and> (\<forall>i j a. jr_tokens s i = Some a \<longrightarrow> jr_tokens s j = Some a \<longrightarrow> i = j)"

lemma tokens_inv_cong:
  assumes "tokens_inv s" and "jr_tokens s' = jr_tokens s" and "jr_cells s' = jr_cells s"
    and "jr_requested s' = jr_requested s" and "\<forall>i. map_of (jr_runs s') i \<noteq> None \<longrightarrow> map_of (jr_runs s) i \<noteq> None"
  shows "tokens_inv s'"
  using assms by (auto simp: tokens_inv_def is_cancel_requested_def)

lemma tokens_inv_core: "tokens_inv s \<Longrightarrow> core s' = core s \<Longrightarrow> tokens_inv s'"
proof -
  assume t: "tokens_inv s" and c: "core s' = core s"
  show ?thesis by (rule tokens_inv_cong [OF t]) (simp_all add: core_eqD [OF c])
qed

lemma tokens_inv_remember: "tokens_inv s \<Longrightarrow> tokens_inv (remember_run mdl params t run s)"
  by (auto simp: tokens_inv_def remember_run_def is_cancel_requested_def at_or_def nth_append update_conv' less_Suc_eq
      split: if_splits dest: less_imp_neq)

lemma tokens_inv_forget: "tokens_inv s \<Longrightarrow> tokens_inv (forget_run i s)"
  by (auto simp: tokens_inv_def forget_run_def is_cancel_requested_def at_or_def delete_conv' split: if_splits)

lemma store_run_same:
  "store_run ca row s = Inr s' \<Longrightarrow> s' = s\<lparr>jr_db := jr_db s'\<rparr>"
  by (auto simp: store_run_def fsd_split split: option.splits)

lemma tokens_inv_db: "tokens_inv s \<Longrightarrow> tokens_inv (s\<lparr>jr_db := d\<rparr>)"
  "tokens_inv s \<Longrightarrow> tokens_inv (s\<lparr>jr_files := f\<rparr>)"
  by (auto intro: tokens_inv_cong)

lemma tokens_inv_store: "store_run ca row s = Inr s' \<Longrightarrow> tokens_inv s \<Longrightarrow> tokens_inv s'"
  by (subst store_run_same, assumption) (rule tokens_inv_db)

lemma tokens_inv_create: "tokens_inv s \<Longrightarrow> tokens_inv (snd (create_run ca mdl params s))"
proof -
  assume t: "tokens_inv s"
  obtain r s' where c: "create_run ca mdl params s = (r, s')" by (cases "create_run ca mdl params s")
  from c have "tokens_inv s'"
  proof (cases rule: create_run_cases)
    case (failed e)
    with t show ?thesis by (auto intro: tokens_inv_core)
  next
    case (stored i p s1 run s2)
    with t show ?thesis by (metis tokens_inv_core tokens_inv_remember tokens_inv_store)
  next
    case (refused i p s1 run s2 e)
    with t show ?thesis by (metis tokens_inv_core tokens_inv_remember tokens_inv_forget tokens_inv_db(2))
  qed
  with c show ?thesis by simp
qed

lemma set_status_result:
  assumes "map_of (jr_runs s) i = Some r"
  obtains s1 where "s1 = s\<lparr>jr_runs := AList.update i (r\<lparr>run_status := st\<rparr>) (jr_runs s),
        jr_modules := (jr_modules s)(i \<mapsto> at_or [] (jr_modules s) i),
        jr_params := (jr_params s)(i \<mapsto> at_or [] (jr_params s) i),
        jr_started := (jr_started s)(i \<mapsto> at_or 0 (jr_started s) i)\<rparr>"
    and "set_status ca i st s = (case store_run ca (run_row_of i (at_or [] (jr_modules s) i) st
          (at_or [] (jr_params s) i) (at_or 0 (jr_started s) i) (if terminal_status st then ca_now ca else 0)
          (run_output_dir r)) s1 of Inl e \<Rightarrow> (Inl e, s1) | Inr s \<Rightarrow> (Inr (), s))"
  using that assms by (simp add: set_status_def Let_def)

lemma tokens_inv_set_status: "tokens_inv s \<Longrightarrow> tokens_inv (snd (set_status ca i st s))"
proof (cases "map_of (jr_runs s) i")
  case (Some r)
  assume t: "tokens_inv s"
  from Some obtain s1 where s1: "s1 = s\<lparr>jr_runs := AList.update i (r\<lparr>run_status := st\<rparr>) (jr_runs s),
        jr_modules := (jr_modules s)(i \<mapsto> at_or [] (jr_modules s) i),
        jr_params := (jr_params s)(i \<mapsto> at_or [] (jr_params s) i),
        jr_started := (jr_started s)(i \<mapsto> at_or 0 (jr_started s) i)\<rparr>"
    and e: "set_status ca i st s = (case store_run ca (run_row_of i (at_or [] (jr_modules s) i) st
          (at_or [] (jr_params s) i) (at_or 0 (jr_started s) i) (if terminal_status st then ca_now ca else 0)
          (run_output_dir r)) s1 of Inl e \<Rightarrow> (Inl e, s1) | Inr s \<Rightarrow> (Inr (), s))"
    by (rule set_status_result)
  have "tokens_inv s1" by (rule tokens_inv_cong [OF t]) (auto simp: s1 update_conv' Some split: if_splits)
  then show ?thesis by (simp add: e tokens_inv_store split: sum.split)
qed (simp add: set_status_def)

lemma set_progress_same:
  "snd (set_progress ca i text s) = s\<lparr>jr_progress := jr_progress (snd (set_progress ca i text s)),
     jr_files := jr_files (snd (set_progress ca i text s))\<rparr>"
  by (auto simp: set_progress_def Let_def split: option.split prod.split)

lemma tokens_inv_request: "tokens_inv s \<Longrightarrow> tokens_inv (snd (request_cancel i s))"
  by (cases "map_of (jr_runs s) i")
    (auto simp: request_cancel_def Let_def tokens_inv_def is_cancel_requested_def at_or_def nth_list_update
      split: option.splits if_splits)

lemma tokens_inv_op: "tokens_inv s \<Longrightarrow> tokens_inv (apply_op ca job s)"
proof (cases job)
  case (Set_progress i msg)
  assume "tokens_inv s"
  then show ?thesis unfolding Set_progress apply_op.simps
    by (subst set_progress_same) (rule tokens_inv_cong, assumption, simp_all)
next
  case (Add_artifact i a)
  assume "tokens_inv s"
  then show ?thesis unfolding Add_artifact apply_op.simps
    by (rule tokens_inv_cong) (auto simp: add_artifact_def update_conv' Let_def split: option.splits sum.splits prod.splits)
next
  case (Set_cancelable i b)
  assume "tokens_inv s"
  then show ?thesis unfolding Set_cancelable apply_op.simps
    by (rule tokens_inv_cong) (auto simp: set_cancelable_def split: option.splits)
qed (auto simp: tokens_inv_create tokens_inv_set_status tokens_inv_request background_task_token_def
    release_task_token_def begin_shutdown_def elim!: tokens_inv_cong)

text \<open>A cell that is set stays set, and it stays where it is.\<close>

definition cells_kept :: "runner \<Rightarrow> runner \<Rightarrow> bool" where
  "cells_kept s s' \<longleftrightarrow> length (jr_cells s) \<le> length (jr_cells s')
    \<and> (\<forall>a<length (jr_cells s). jr_cells s ! a \<longrightarrow> jr_cells s' ! a)"

lemma cells_kept_refl: "jr_cells s' = jr_cells s \<Longrightarrow> cells_kept s s'"
  by (simp add: cells_kept_def)

lemma cells_kept_trans: "cells_kept s s' \<Longrightarrow> cells_kept s' s'' \<Longrightarrow> cells_kept s s''"
  by (auto simp: cells_kept_def)

lemma cells_kept_create: "cells_kept s (snd (create_run ca mdl params s))"
proof -
  obtain r s' where c: "create_run ca mdl params s = (r, s')" by (cases "create_run ca mdl params s")
  have k: "cells_kept s s2" if "core s1 = core s" "s2 = remember_run mdl params t run s1" for s1 s2 t run
    using core_eqD(13) [OF that(1)] that(2) by (simp add: cells_kept_def remember_run_def nth_append)
  from c have "cells_kept s s'"
  proof (cases rule: create_run_cases)
    case (failed e)
    then show ?thesis by (intro cells_kept_refl) (rule core_eqD(13))
  next
    case (stored i p s1 run s2)
    have "jr_cells s' = jr_cells s2" by (subst store_run_same [OF stored(5)]) simp
    with k [OF stored(1,4)] show ?thesis by (simp add: cells_kept_def)
  next
    case (refused i p s1 run s2 e)
    have "jr_cells s' = jr_cells s2" by (simp add: refused(6) forget_run_def)
    with k [OF refused(1,4)] show ?thesis by (simp add: cells_kept_def)
  qed
  with c show ?thesis by simp
qed

lemma set_status_cells: "jr_cells (snd (set_status ca i st s)) = jr_cells s"
proof (cases "map_of (jr_runs s) i")
  case (Some r)
  then show ?thesis
    by (auto simp: set_status_def Let_def store_run_def fsd_split res_bind_def split: sum.split option.split)
qed (simp add: set_status_def)

lemma cells_kept_op: "cells_kept s (apply_op ca job s)"
proof (cases job)
  case (Set_progress i msg)
  show ?thesis unfolding Set_progress apply_op.simps
    by (subst set_progress_same) (simp add: cells_kept_def)
next
  case (Request_cancel i)
  have "xs ! a \<Longrightarrow> a < length xs \<Longrightarrow> xs[b := True] ! a" for xs a b by (cases "a = b") simp_all
  with Request_cancel show ?thesis
    by (auto simp: request_cancel_def cells_kept_def Let_def split: option.splits)
qed (auto simp: cells_kept_create set_status_cells add_artifact_def set_cancelable_def background_task_token_def
    release_task_token_def begin_shutdown_def Let_def intro!: cells_kept_refl split: option.splits sum.splits prod.splits)

lemma cells_kept_executes: "executes P s s' \<Longrightarrow> cells_kept s s'"
  by (induction rule: executes.induct) (auto intro: cells_kept_refl cells_kept_trans cells_kept_op)

text \<open>A runner as the constructor leaves it: it knows no run.\<close>

definition fresh_runner :: "runner \<Rightarrow> bool" where
  "fresh_runner s \<longleftrightarrow> jr_runs s = [] \<and> jr_tokens s = Map.empty \<and> jr_tasks s = 0 \<and> \<not> jr_shutting_down s"

lemma job_runner_fresh: "job_runner ca rt store fs a b c = Inr s \<Longrightarrow> fresh_runner s"
  by (auto simp: job_runner_def fresh_runner_def fsd_split split: prod.splits bool.splits if_splits)

lemma tokens_inv_executes: "executes P s s' \<Longrightarrow> fresh_runner s \<Longrightarrow> tokens_inv s'"
  using executes_invariant [of P tokens_inv] tokens_inv_op
  by (metis fresh_runner_def map_of.simps(1) option.distinct(1) tokens_inv_def)

lemma request_cancel_accepted:
  assumes "tokens_inv s" and "request_cancel i s = (Inr res, s')" and "cq_accepted res"
  shows "\<exists>a. cancel_token i s = (Inr a, s) \<and> a < length (jr_cells s') \<and> jr_cells s' ! a \<and> is_cancel_requested i s'"
proof -
  obtain r where r: "map_of (jr_runs s) i = Some r"
    using assms(2) by (cases "map_of (jr_runs s) i") (auto simp: request_cancel_def)
  with assms(1) obtain a where a: "jr_tokens s i = Some a" "a < length (jr_cells s)"
    by (force simp: tokens_inv_def)
  with assms(2,3) r show ?thesis
    by (auto simp: request_cancel_def Let_def cancel_token_def is_cancel_requested_def at_or_def split: if_splits)
qed

section \<open>The store mirrors the memory\<close>

definition row_matches :: "run_row \<Rightarrow> run_record \<Rightarrow> string \<Rightarrow> string \<Rightarrow> int \<Rightarrow> bool" where
  "row_matches row r mdl params started \<longleftrightarrow>
    rr_status row = c_str (run_status r) \<and> rr_output_dir row = c_str (run_output_dir r)
    \<and> rr_module row = c_str mdl \<and> rr_params row = c_str params \<and> rr_started row = started
    \<and> (rr_finished row \<noteq> 0 \<longleftrightarrow> terminal_status (run_status r))"

definition mirror :: "runner \<Rightarrow> bool" where
  "mirror s \<longleftrightarrow> (\<forall>d i r. jr_db s = Some d \<longrightarrow> map_of (jr_runs s) i = Some r \<longrightarrow> c_str i = i \<and>
    (\<exists>row. select_key rr_id i (db_runs d) = Some row \<and>
      row_matches row r (at_or [] (jr_modules s) i) (at_or [] (jr_params s) i) (at_or 0 (jr_started s) i)))"

text \<open>Calls whose statement does not fail, at a time after 1970, with a time stamp that is a C string.\<close>

definition healthy :: "call \<Rightarrow> bool" where
  "healthy ca \<longleftrightarrow> sq_failure (ca_sql ca) = None \<and> 0 < ca_now ca \<and> (\<forall>n. CHR 0x00 \<notin> set (ca_stamp ca n))"

lemma c_str_id: "CHR 0x00 \<notin> set s \<Longrightarrow> c_str s = s"
  by (simp add: c_str_def takeWhile_eq_all_conv) blast

lemma make_run_id_c_str: "CHR 0x00 \<notin> set st \<Longrightarrow> c_str (fst (make_run_id st s)) = fst (make_run_id st s)"
proof -
  assume "CHR 0x00 \<notin> set st"
  moreover have "CHR 0x00 \<notin> set (pad3 n)" for n
    using non_digit_notin_nat_digits [of "CHR 0x00" n] by (auto simp: pad3_def Let_def is_digit_def char_code_def)
  ultimately show ?thesis by (intro c_str_id) (auto simp: make_run_id_def Let_def)
qed

lemma store_run_healthy:
  "healthy ca \<Longrightarrow> jr_db s = Some d \<Longrightarrow> store_run ca row s
   = Inr (s\<lparr>jr_db := Some (d\<lparr>db_runs := upsert rr_id (bind_run row) (db_runs d)\<rparr>)\<rparr>)"
  by (simp add: store_run_def upsert_run_def healthy_def)

lemma store_run_total: "healthy ca \<Longrightarrow> \<exists>s'. store_run ca row s = Inr s'"
proof (cases "jr_db s")
  case None
  then show ?thesis by (simp add: store_run_def)
qed (simp add: store_run_healthy)

lemma mirror_cong:
  assumes "mirror s" and "map_option db_runs (jr_db s') = map_option db_runs (jr_db s)"
    and "\<And>i r'. map_of (jr_runs s') i = Some r' \<Longrightarrow> \<exists>r. map_of (jr_runs s) i = Some r
      \<and> run_status r' = run_status r \<and> run_output_dir r' = run_output_dir r"
    and "jr_modules s' = jr_modules s" "jr_params s' = jr_params s" "jr_started s' = jr_started s"
  shows "mirror s'"
  unfolding mirror_def
proof (intro allI impI)
  fix d' i r'
  assume d': "jr_db s' = Some d'" and r': "map_of (jr_runs s') i = Some r'"
  from assms(2) d' obtain d where d: "jr_db s = Some d" "db_runs d' = db_runs d" by (cases "jr_db s") auto
  from assms(3) [OF r'] obtain r where r: "map_of (jr_runs s) i = Some r" "run_status r' = run_status r"
    "run_output_dir r' = run_output_dir r" by blast
  from assms(1) d(1) r(1) show "c_str i = i \<and> (\<exists>row. select_key rr_id i (db_runs d') = Some row \<and>
      row_matches row r' (at_or [] (jr_modules s') i) (at_or [] (jr_params s') i) (at_or 0 (jr_started s') i))"
    unfolding mirror_def row_matches_def d(2) assms(4-6) r(2,3) by blast
qed

lemma mirror_put:
  assumes "mirror s" and "healthy ca" and "store_run ca row s1 = Inr s'"
    and "rr_id row = i" and "c_str i = i" and "jr_db s1 = jr_db s"
    and "map_of (jr_runs s1) i = Some r"
    and "row_matches (bind_run row) r (at_or [] (jr_modules s1) i) (at_or [] (jr_params s1) i) (at_or 0 (jr_started s1) i)"
    and others: "\<And>j. j \<noteq> i \<Longrightarrow> map_of (jr_runs s1) j = map_of (jr_runs s) j \<and> jr_modules s1 j = jr_modules s j
      \<and> jr_params s1 j = jr_params s j \<and> jr_started s1 j = jr_started s j"
  shows "mirror s'"
  unfolding mirror_def
proof (intro allI impI)
  fix d' j r'
  assume d': "jr_db s' = Some d'" and r': "map_of (jr_runs s') j = Some r'"
  have same: "jr_runs s' = jr_runs s1" "jr_modules s' = jr_modules s1" "jr_params s' = jr_params s1"
    "jr_started s' = jr_started s1"
    by (subst store_run_same [OF assms(3)], simp)+
  obtain d where d: "jr_db s1 = Some d"
    using assms(3) d' by (cases "jr_db s1") (auto simp: store_run_def)
  with assms(3) store_run_healthy [OF assms(2) d, of row] d'
  have d'': "db_runs d' = upsert rr_id (bind_run row) (db_runs d)" by auto
  have get: "select_key rr_id j (db_runs d') = (if j = i then Some (bind_run row) else select_key rr_id j (db_runs d))"
    using assms(4,5) by (simp add: d'' run_table.get_put bind_run_def)
  show "c_str j = j \<and> (\<exists>row. select_key rr_id j (db_runs d') = Some row \<and>
      row_matches row r' (at_or [] (jr_modules s') j) (at_or [] (jr_params s') j) (at_or 0 (jr_started s') j))"
  proof (cases "j = i")
    case True
    with assms(5,7,8) r' get same show ?thesis by auto
  next
    case False
    with others [OF False] r' same have "map_of (jr_runs s) j = Some r'" by simp
    with assms(1,6) d have "c_str j = j \<and> (\<exists>row. select_key rr_id j (db_runs d) = Some row \<and>
      row_matches row r' (at_or [] (jr_modules s) j) (at_or [] (jr_params s) j) (at_or 0 (jr_started s) j))"
      unfolding mirror_def by metis
    with False get same others [OF False] show ?thesis by (simp add: at_or_def)
  qed
qed

lemma mirror_core: "mirror s \<Longrightarrow> core s' = core s \<Longrightarrow> mirror s'"
proof -
  assume m: "mirror s" and c: "core s' = core s"
  show ?thesis by (rule mirror_cong [OF m]) (simp_all add: core_eqD [OF c])
qed

lemma mirror_create: "mirror s \<Longrightarrow> healthy ca \<Longrightarrow> mirror (snd (create_run ca mdl params s))"
proof -
  assume m: "mirror s" and h: "healthy ca"
  obtain r s' where c: "create_run ca mdl params s = (r, s')" by (cases "create_run ca mdl params s")
  from c have "mirror s'"
  proof (cases rule: create_run_cases)
    case (failed e)
    with m show ?thesis by (auto intro: mirror_core)
  next
    case (stored i p s1 run s2)
    have i: "c_str i = i" using stored(8) make_run_id_c_str h by (auto simp: healthy_def)
    have m1: "mirror s1" using m stored(1) by (rule mirror_core)
    have ru: "run_id run = i" "run_status run = ''queued''" "run_output_dir run = path_string p"
      by (simp_all add: stored(3))
    show ?thesis
      by (rule mirror_put [OF m1 h stored(5) _ i, where r = run])
        (simp_all add: stored(4) remember_run_def run_row_of_def ru update_conv' row_matches_def bind_run_def at_or_def
          terminal_status_def)
  next
    case (refused i p s1 run s2 e)
    with store_run_total [OF h] show ?thesis by (metis Inl_Inr_False)
  qed
  with c show ?thesis by simp
qed

lemma mirror_set_status: "mirror s \<Longrightarrow> healthy ca \<Longrightarrow> mirror (snd (set_status ca i st s))"
proof (cases "map_of (jr_runs s) i")
  case (Some r)
  assume m: "mirror s" and h: "healthy ca"
  from Some obtain s1 where s1: "s1 = s\<lparr>jr_runs := AList.update i (r\<lparr>run_status := st\<rparr>) (jr_runs s),
        jr_modules := (jr_modules s)(i \<mapsto> at_or [] (jr_modules s) i),
        jr_params := (jr_params s)(i \<mapsto> at_or [] (jr_params s) i),
        jr_started := (jr_started s)(i \<mapsto> at_or 0 (jr_started s) i)\<rparr>"
    and e: "set_status ca i st s = (case store_run ca (run_row_of i (at_or [] (jr_modules s) i) st
          (at_or [] (jr_params s) i) (at_or 0 (jr_started s) i) (if terminal_status st then ca_now ca else 0)
          (run_output_dir r)) s1 of Inl e \<Rightarrow> (Inl e, s1) | Inr s \<Rightarrow> (Inr (), s))"
    by (rule set_status_result)
  let ?row = "run_row_of i (at_or [] (jr_modules s) i) st (at_or [] (jr_params s) i)
    (at_or 0 (jr_started s) i) (if terminal_status st then ca_now ca else 0) (run_output_dir r)"
  obtain s' where s': "store_run ca ?row s1 = Inr s'" using store_run_total [OF h] by blast
  show ?thesis
  proof (cases "jr_db s")
    case None
    then have "jr_db s' = None" using s' by (auto simp: store_run_def s1)
    with e s' show ?thesis by (simp add: mirror_def)
  next
    case (Some d)
    with m \<open>map_of (jr_runs s) i = Some r\<close> have i: "c_str i = i" by (auto simp: mirror_def)
    have "mirror s'"
      by (rule mirror_put [OF m h s' _ i, where r = "r\<lparr>run_status := st\<rparr>"])
        (use h in \<open>simp_all add: s1 run_row_of_def update_conv' row_matches_def bind_run_def at_or_def healthy_def\<close>)
    with e s' show ?thesis by simp
  qed
qed (simp add: set_status_def)

lemma request_cancel_same:
  "snd (request_cancel i s) = s\<lparr>jr_requested := jr_requested (snd (request_cancel i s)),
     jr_cells := jr_cells (snd (request_cancel i s))\<rparr>"
  by (auto simp: request_cancel_def Let_def split: option.split)

lemma mirror_op: "mirror s \<Longrightarrow> healthy ca \<Longrightarrow> mirror (apply_op ca job s)"
proof (cases job)
  case (Set_progress i msg)
  assume "mirror s"
  then show ?thesis unfolding Set_progress apply_op.simps
    by (subst set_progress_same) (rule mirror_cong, assumption, simp_all)
next
  case (Add_artifact i a)
  assume "mirror s"
  then show ?thesis unfolding Add_artifact apply_op.simps
    by (rule mirror_cong) (auto simp: add_artifact_def insert_artifact_def update_conv' Let_def fsd_split
        split: option.splits sum.splits prod.splits if_splits)
next
  case (Request_cancel i)
  assume "mirror s"
  then show ?thesis unfolding Request_cancel apply_op.simps
    by (subst request_cancel_same) (rule mirror_cong, assumption, simp_all)
next
  case (Set_cancelable i b)
  assume "mirror s"
  then show ?thesis unfolding Set_cancelable apply_op.simps
    by (rule mirror_cong) (auto simp: set_cancelable_def split: option.splits)
qed (auto simp: mirror_create mirror_set_status background_task_token_def
    release_task_token_def begin_shutdown_def elim!: mirror_cong)

lemma mirror_executes: "executes healthy s s' \<Longrightarrow> fresh_runner s \<Longrightarrow> mirror s'"
proof -
  assume e: "executes healthy s s'" and "fresh_runner s"
  then have "mirror s" by (simp add: mirror_def fresh_runner_def)
  with e show ?thesis by (rule executes_invariant [rotated]) (rule mirror_op)
qed

end
