(* ===== verification/JobProperties.thy ===== *)
theory JobProperties
  imports JobInvariants
begin

text \<open>
  The properties of the job runner: cancellation, the mirrored store, fresh run directories, distinct run
  ids, progress that survives a restart, reconciliation at startup and orderly shutdown.
\<close>

section \<open>A concrete runner\<close>

definition idle_runner :: "path \<Rightarrow> files \<Rightarrow> db option \<Rightarrow> runner" where
  "idle_runner rt fs store = \<lparr>jr_root = rt, jr_files = fs, jr_db = store, jr_tasks = 0, jr_shutting_down = False,
     jr_runs = [], jr_modules = Map.empty, jr_params = Map.empty, jr_progress = Map.empty,
     jr_started = Map.empty, jr_requested = Map.empty, jr_tokens = Map.empty, jr_cancelable = Map.empty,
     jr_cells = [], jr_last_stamp = [], jr_sequence = 0\<rparr>"

definition sample_call :: call where
  "sample_call = \<lparr>ca_sql = sample_sqlite, ca_now = 5, ca_stamp = (\<lambda>n. ''t''), ca_refuse = (\<lambda>x. False)\<rparr>"

definition sample_record :: run_record where
  "sample_record = \<lparr>run_id = ''t'', run_status = ''queued'', run_output_dir = ''/runs/maps/t'', run_artifacts = []\<rparr>"

lemma allocate_1000:
  "allocate ca dir k 1000 s = allocate ca dir k (Suc 999) s"
  by simp

lemma create_sample:
  "\<exists>s. create_run sample_call ''map'' [] (idle_runner [] [] (Some empty_db)) = (Inr sample_record, s)
    \<and> jr_runs s = [(''t'', sample_record)] \<and> jr_cancelable s ''t'' = Some False \<and> (\<exists>d. jr_db s = Some d)"
proof -
  have a: "path_append [''runs''] ''maps'' = [''runs'', ''maps'']"
    "path_append [''runs'', ''maps''] ''t'' = [''runs'', ''maps'', ''t'']" "path_append [] ''runs'' = [''runs'']"
    "path_append [''runs''] ''t'' = [''runs'', ''t'']"
    by (simp_all add: path_append_plain)
  define fs where "fs = [([''runs'', ''maps''], Directory), ([''runs''], Directory)]"
  have cd: "create_directories (\<lambda>x. False) [''runs'', ''maps''] [] = (False, fs)"
    by (simp add: create_directories_def create_directory_def canonical_def look_up_def step_to_def entry_at_def fs_def
        upt_rec max_links_def)
  define s where "s = (idle_runner [] [] (Some empty_db))\<lparr>jr_files := fs, jr_last_stamp := ''t''\<rparr>"
  have nx: "\<not> run_id_exists_anywhere fs [] ''t''"
    by (simp add: run_id_exists_anywhere_def a path_exists_def status_def canonical_def look_up_def step_to_def
        entry_at_def fs_def directory_entries_def children_def path_append_plain Let_def is_directory_def)
  have mk: "create_directory (\<lambda>x. False) [''runs'', ''maps'', ''t''] fs
      = ((False, True), ([''runs'', ''maps'', ''t''], Directory) # fs)"
    by (simp add: create_directory_def canonical_def look_up_def step_to_def entry_at_def fs_def)
  have m: "make_run_id ''t'' ((idle_runner [] [] (Some empty_db))\<lparr>jr_files := fs\<rparr>) = (''t'', s)"
    by (simp add: make_run_id_def idle_runner_def s_def)
  have s: "jr_files s = fs" "jr_root s = []" by (simp_all add: s_def idle_runner_def)
  have al: "allocate sample_call [''runs'', ''maps''] 0 1000 ((idle_runner [] [] (Some empty_db))\<lparr>jr_files := fs\<rparr>)
      = (Inr (Some (''t'', [''runs'', ''maps'', ''t''])), s\<lparr>jr_files := ([''runs'', ''maps'', ''t''], Directory) # fs\<rparr>)"
    unfolding allocate_1000 allocate.simps using nx
    by (simp add: sample_call_def m s a mk Let_def del: allocate.simps)
  have cat: "category_for_module ''map'' = ''maps''" by (simp add: category_for_module_def)
  have ps: "path_string [''runs'', ''maps'', ''t''] = ''/runs/maps/t''" by (simp add: path_string_def)
  have i: "jr_root (idle_runner [] [] (Some empty_db)) = []" "jr_files (idle_runner [] [] (Some empty_db)) = []"
    by (simp_all add: idle_runner_def)
  have rf: "ca_refuse sample_call = (\<lambda>x. False)" "ca_sql sample_call = sample_sqlite" by (simp_all add: sample_call_def)
  show ?thesis
    unfolding create_run_def Let_def i cat a rf cd snd_conv al
    by (simp add: ps store_run_def remember_run_def s_def idle_runner_def upsert_run_def rf sample_sqlite_def
        sample_record_def empty_db_def)
qed
lemma sample_execution:
  "\<exists>s2 s3 res. executes healthy (idle_runner [] [] (Some empty_db)) s2
     \<and> map_of (jr_runs s2) ''t'' = Some sample_record \<and> (\<exists>d. jr_db s2 = Some d)
     \<and> request_cancel ''t'' s2 = (Inr res, s3) \<and> cq_accepted res"
proof -
  let ?s0 = "idle_runner [] [] (Some empty_db)"
  from create_sample obtain s1 where s1: "create_run sample_call ''map'' [] ?s0 = (Inr sample_record, s1)"
    "jr_runs s1 = [(''t'', sample_record)]" "\<exists>d. jr_db s1 = Some d" by blast
  define s2 where "s2 = apply_op sample_call (Set_cancelable ''t'' True) s1"
  have h: "healthy sample_call" by (simp add: healthy_def sample_call_def sample_sqlite_def)
  have "executes healthy ?s0 (apply_op sample_call (Create_run ''map'' []) ?s0)"
    using h by (rule executes.step [OF executes.none])
  then have "executes healthy ?s0 s1" by (simp add: s1)
  from executes.step [OF this h, of "Set_cancelable ''t'' True"] have e: "executes healthy ?s0 s2"
    unfolding s2_def .
  have s2: "jr_runs s2 = [(''t'', sample_record)]" "jr_cancelable s2 ''t'' = Some True" "jr_db s2 = jr_db s1"
    by (simp_all add: s2_def set_cancelable_def s1)
  have "\<exists>res s3. request_cancel ''t'' s2 = (Inr res, s3) \<and> cq_accepted res"
    by (simp add: request_cancel_def s2 at_or_def active_status_def sample_record_def Let_def)
  with e s2 s1(3) show ?thesis by auto
qed

lemma idle_fresh: "fresh_runner (idle_runner rt fs store)"
  by (simp add: fresh_runner_def idle_runner_def)

section \<open>Run ids\<close>

definition seq_value :: "string \<Rightarrow> nat" where
  "seq_value ds = foldl (\<lambda>v c. 10 * v + digit_val c) 0 ds"

lemma seq_value_digits: "seq_value (nat_digits n) = n"
proof (induction n rule: nat_digits.induct)
  case (1 n)
  show ?case
  proof (cases "n < 10")
    case True
    then show ?thesis by (subst nat_digits.simps) (simp add: seq_value_def)
  next
    case False
    with 1 show ?thesis by (subst nat_digits.simps) (simp add: seq_value_def)
  qed
qed

lemma seq_value_pad3: "seq_value (pad3 n) = n"
proof -
  have z: "foldl (\<lambda>v c. 10 * v + digit_val c) 0 (replicate k (CHR ''0'')) = 0" for k
    by (induction k) (simp_all add: digit_val_def char_code_def)
  have "seq_value (replicate k (CHR ''0'') @ ds) = seq_value ds" for k ds
    by (simp add: seq_value_def z)
  then show ?thesis by (simp add: pad3_def Let_def seq_value_digits)
qed

text \<open>The position of an id in time: its stamp and its number within the second.\<close>

definition id_key :: "nat \<Rightarrow> string \<Rightarrow> string \<times> nat" where
  "id_key L i = (take L i, if length i = L then 0 else seq_value (drop (L + 1) i))"

fun run_ids :: "string list \<Rightarrow> runner \<Rightarrow> string list" where
  "run_ids [] s = []"
| "run_ids (st # sts) s = (let (i, s) = make_run_id st s in i # run_ids sts s)"

lemma make_run_id_key:
  assumes "make_run_id st s = (i, s')" and "length st = L" and "unat (jr_sequence s) + 1 < 2 ^ 32"
    and "jr_last_stamp s \<le> st"
  shows "id_key L i = (jr_last_stamp s', unat (jr_sequence s'))" and "jr_last_stamp s' = st"
    and "unat (jr_sequence s') \<le> unat (jr_sequence s) + 1"
    and "(jr_last_stamp s, unat (jr_sequence s)) < (jr_last_stamp s', unat (jr_sequence s'))"
proof -
  have inc: "unat (jr_sequence s + 1) = unat (jr_sequence s) + 1"
    using assms(3) by (simp add: unat_word_ariths)
  have nz: "x = 0 \<longleftrightarrow> unat x = 0" for x :: "32 word" by (simp add: unat_eq_0)
  have id: "i = (if jr_sequence s' = 0 then st else st @ ''-'' @ pad3 (unat (jr_sequence s')))"
    and s': "jr_last_stamp s' = st"
      "jr_sequence s' = (if st = jr_last_stamp s then jr_sequence s + 1 else 0)"
    using assms(1) by (auto simp: make_run_id_def Let_def split: if_splits)
  show "id_key L i = (jr_last_stamp s', unat (jr_sequence s'))"
    using id assms(2) by (simp add: id_key_def s'(1) seq_value_pad3)
  show "jr_last_stamp s' = st" by (rule s')
  show "unat (jr_sequence s') \<le> unat (jr_sequence s) + 1" using s'(2) inc by simp
  show "(jr_last_stamp s, unat (jr_sequence s)) < (jr_last_stamp s', unat (jr_sequence s'))"
    using s' inc assms(4) by (auto simp: less_prod_def)
qed

lemma run_ids_keys:
  assumes "\<forall>st\<in>set sts. length st = L" and "sorted sts" and "\<forall>st\<in>set sts. jr_last_stamp s \<le> st"
    and "unat (jr_sequence s) + length sts < 2 ^ 32"
  shows "distinct (run_ids sts s)
    \<and> (\<forall>i\<in>set (run_ids sts s). (jr_last_stamp s, unat (jr_sequence s)) < id_key L i)"
  using assms
proof (induction sts arbitrary: s)
  case (Cons st sts)
  obtain i s' where m: "make_run_id st s = (i, s')" by (cases "make_run_id st s")
  have key: "id_key L i = (jr_last_stamp s', unat (jr_sequence s'))" "jr_last_stamp s' = st"
    "unat (jr_sequence s') \<le> unat (jr_sequence s) + 1"
    "(jr_last_stamp s, unat (jr_sequence s)) < (jr_last_stamp s', unat (jr_sequence s'))"
    using make_run_id_key [OF m, of L] Cons.prems by simp_all
  have IH: "distinct (run_ids sts s')
    \<and> (\<forall>i\<in>set (run_ids sts s'). (jr_last_stamp s', unat (jr_sequence s')) < id_key L i)"
    using Cons.prems key by (intro Cons.IH) auto
  with key have "i \<notin> set (run_ids sts s')" by fastforce
  moreover have "(jr_last_stamp s, unat (jr_sequence s)) < id_key L j" if "j \<in> set (i # run_ids sts s')" for j
    using that
  proof (cases "j = i")
    case False
    with that IH have "(jr_last_stamp s', unat (jr_sequence s')) < id_key L j" by simp
    with key(4) show ?thesis by (rule less_trans)
  qed (simp only: key(1,4))
  moreover have "run_ids (st # sts) s = i # run_ids sts s'" by (simp add: m)
  ultimately show ?case using IH by (simp only: distinct.simps) blast
qed simp

text \<open>
  run ids are unique. However many runs are created within a second, as long as the clock does not
  go back, stamps have one length (as those of the format have) and fewer than 2^32 are made, the ids of
  consecutive calls of \<^verbatim>\<open>makeRunId\<close> are pairwise different.
\<close>

theorem run_ids_distinct:
  assumes "\<forall>st\<in>set sts. length st = L" and "sorted sts" and "jr_last_stamp s = []"
    and "length sts + unat (jr_sequence s) < 2 ^ 32"
  shows "distinct (run_ids sts s)"
  using assms run_ids_keys [of sts L s] by simp

theorem run_ids_distinct_witness:
  "distinct (run_ids [''260101-120000'', ''260101-120000'', ''260101-120001''] (idle_runner [] [] None))"
  by (rule run_ids_distinct [where L = 13]) (simp_all add: idle_runner_def)

section \<open>Cancellation\<close>

text \<open>
  C3: an accepted cancellation reaches the worker. In any execution from a new runner, whatever fails in
  it, when \<^verbatim>\<open>requestCancel\<close> accepts, the atomic flag that \<^verbatim>\<open>cancelToken\<close> handed to the run's worker is set
  and stays set for the rest of the execution.
\<close>

theorem cancellation_reaches_worker:
  assumes "fresh_runner s0" and "executes (\<lambda>_. True) s0 s1" and "request_cancel i s1 = (Inr res, s2)"
    and "cq_accepted res" and "executes (\<lambda>_. True) s2 s3"
  shows "\<exists>a. cancel_token i s1 = (Inr a, s1) \<and> is_cancel_requested i s2 \<and> jr_cells s3 ! a"
proof -
  have "tokens_inv s1" using assms(2,1) by (rule tokens_inv_executes)
  from request_cancel_accepted [OF this assms(3,4)] obtain a where
    "cancel_token i s1 = (Inr a, s1)" "a < length (jr_cells s2)" "jr_cells s2 ! a" "is_cancel_requested i s2" by blast
  with cells_kept_executes [OF assms(5)] show ?thesis by (auto simp: cells_kept_def)
qed

theorem cancellation_reaches_worker_witness:
  "\<exists>s1 s2 res a. request_cancel ''t'' s1 = (Inr res, s2) \<and> cq_accepted res
     \<and> cancel_token ''t'' s1 = (Inr a, s1) \<and> jr_cells s2 ! a"
proof -
  from sample_execution obtain s1 s2 res where e: "executes healthy (idle_runner [] [] (Some empty_db)) s1"
    and r: "request_cancel ''t'' s1 = (Inr res, s2)" "cq_accepted res" by blast
  from e have "executes (\<lambda>_. True) (idle_runner [] [] (Some empty_db)) s1" by (rule executes_weaken) simp
  from cancellation_reaches_worker [OF idle_fresh this r executes.none] r show ?thesis by blast
qed

text \<open>
  The decision of \<^verbatim>\<open>requestCancel\<close>. An unknown run is an error; a known one is cancelled exactly when
  it is queued or running and was marked cancelable, and otherwise nothing changes; the answer reports
  the status and both flags.
\<close>

theorem cancel_decision:
  "case map_of (jr_runs s) i of
     None \<Rightarrow> request_cancel i s = (Inl (not_found i), s)
   | Some r \<Rightarrow> \<exists>res s'. request_cancel i s = (Inr res, s') \<and> cq_status res = run_status r
       \<and> cq_accepted res = (run_status r \<in> {''queued'', ''running''} \<and> jr_cancelable s i = Some True)
       \<and> cq_requested res = cq_accepted res \<and> (cq_accepted res \<or> s' = s) \<and> jr_runs s' = jr_runs s"
  by (auto simp: request_cancel_def Let_def at_or_def active_status_def split: option.split)

section \<open>The store\<close>

text \<open>
  C2: write-through. In any execution from a new runner in which no statement fails, every run in memory
  has a row in the store with its current status, directory, module, parameters and start time, and the
  row has a finishing time exactly when the status is completed, failed or cancelled.
\<close>

theorem store_mirrors_memory:
  assumes "fresh_runner s0" and "executes healthy s0 s" and "jr_db s = Some d"
    and "map_of (jr_runs s) i = Some r" and "sq_failure q = None"
  shows "\<exists>row. get_run_row q i d = Inr row \<and> rr_status row = c_str (run_status r)
    \<and> rr_output_dir row = c_str (run_output_dir r) \<and> rr_module row = c_str (at_or [] (jr_modules s) i)
    \<and> rr_params row = c_str (at_or [] (jr_params s) i) \<and> rr_started row = at_or 0 (jr_started s) i
    \<and> (rr_finished row \<noteq> 0 \<longleftrightarrow> run_status r \<in> {''completed'', ''failed'', ''cancelled''})"
proof -
  have "mirror s" using assms(2,1) by (rule mirror_executes)
  with assms(3,4) obtain row where "c_str i = i" "select_key rr_id i (db_runs d) = Some row"
    "row_matches row r (at_or [] (jr_modules s) i) (at_or [] (jr_params s) i) (at_or 0 (jr_started s) i)"
    unfolding mirror_def by blast
  with assms(5) show ?thesis
    by (intro exI [of _ row]) (simp add: get_run_row_def row_matches_def terminal_status_def)
qed

theorem store_mirrors_memory_witness:
  "\<exists>(s :: runner) (d :: db) (row :: run_row). jr_db s = Some d \<and> map_of (jr_runs s) ''t'' = Some sample_record
     \<and> get_run_row sample_sqlite ''t'' d = Inr row \<and> rr_status row = ''queued''"
proof -
  from sample_execution obtain s d where e: "executes healthy (idle_runner [] [] (Some empty_db)) s"
    and r: "map_of (jr_runs s) ''t'' = Some sample_record" "jr_db s = Some d" by blast
  have "sq_failure sample_sqlite = None" by (simp add: sample_sqlite_def)
  from store_mirrors_memory [OF idle_fresh e r(2,1) this]
  obtain row where "get_run_row sample_sqlite ''t'' d = Inr row" "rr_status row = c_str (run_status sample_record)"
    by blast
  moreover have "c_str (run_status sample_record) = ''queued''" by (simp add: sample_record_def c_str_def)
  ultimately show ?thesis using r by (intro exI [of _ s] exI [of _ d] exI [of _ row]) simp
qed

text \<open>
  where write-through ends. When the statement of a status change fails, \<^verbatim>\<open>setStatus\<close> throws after
  the status in memory has changed, so the memory is ahead of the store, whose rows are as before.
\<close>

theorem status_ahead_of_store:
  assumes "map_of (jr_runs s) i = Some r" and "jr_db s = Some d" and "sq_failure (ca_sql ca) = Some msg"
  shows "\<exists>s'. set_status ca i st s = (Inl (RuntimeError msg), s') \<and> jr_db s' = Some d
    \<and> get_run i s' = (Inr (r\<lparr>run_status := st\<rparr>), s')"
  using assms by (simp add: set_status_def Let_def store_run_def upsert_run_def check_sqlite_def get_run_def update_conv')

theorem status_ahead_of_store_witness:
  "\<exists>s' d. set_status (sample_call\<lparr>ca_sql := sample_sqlite\<lparr>sq_failure := Some ''database is locked''\<rparr>\<rparr>) ''t'' ''completed''
      ((idle_runner [] [] (Some empty_db))\<lparr>jr_runs := [(''t'', sample_record)]\<rparr>)
    = (Inl (RuntimeError ''database is locked''), s') \<and> jr_db s' = Some empty_db
    \<and> get_run ''t'' s' = (Inr (sample_record\<lparr>run_status := ''completed''\<rparr>), s')"
  using status_ahead_of_store [of "(idle_runner [] [] (Some empty_db))\<lparr>jr_runs := [(''t'', sample_record)]\<rparr>" "''t''"
      sample_record empty_db "sample_call\<lparr>ca_sql := sample_sqlite\<lparr>sq_failure := Some ''database is locked''\<rparr>\<rparr>"
      "''database is locked''" "''completed''"]
  by (auto simp: idle_runner_def)

text \<open>
  C40: startup. A runner starts with no run, no lock and no task. The process that obtains the exclusive lock
  rewrites the store: a row whose status is queued or running becomes cancelled with the given finishing
  time, every other row, the order and the artifacts are kept, and no row is left queued or running. A
  process that joins others leaves the store as it is.
\<close>

theorem startup_reconciles:
  assumes "job_runner ca rt (Some d) fs opens exclusive shared = Inr s"
  shows "fresh_runner s \<and> shared \<and>
    (if exclusive then
       jr_db s = Some (d\<lparr>db_runs := map (\<lambda>r. if rr_status r = ''queued'' \<or> rr_status r = ''running''
         then r\<lparr>rr_status := ''cancelled'', rr_finished := ca_now ca\<rparr> else r) (db_runs d)\<rparr>)
       \<and> (\<forall>d'. jr_db s = Some d' \<longrightarrow> (\<forall>r\<in>set (db_runs d'). rr_status r \<noteq> ''queued'' \<and> rr_status r \<noteq> ''running''))
     else jr_db s = Some d)"
proof -
  have "fresh_runner s" using assms by (rule job_runner_fresh)
  with assms show ?thesis
    by (auto simp: job_runner_def fsd_split cancel_interrupted_runs_def interrupted_def
        split: prod.splits bool.splits if_splits)
qed

theorem startup_reconciles_witness:
  "\<exists>s. job_runner sample_call [] (Some (empty_db\<lparr>db_runs :=
        [sample_run ''a'' ''running'' 1, sample_run ''b'' ''queued'' 2, sample_run ''c'' ''completed'' 3]\<rparr>)) [] True True True
      = Inr s
    \<and> map_option (map rr_status \<circ> db_runs) (jr_db s) = Some [''cancelled'', ''cancelled'', ''completed'']"
proof -
  let ?d = "empty_db\<lparr>db_runs :=
    [sample_run ''a'' ''running'' 1, sample_run ''b'' ''queued'' 2, sample_run ''c'' ''completed'' 3]\<rparr>"
  have "\<exists>s. job_runner sample_call [] (Some ?d) [] True True True = Inr s"
    by (simp add: job_runner_def cancel_interrupted_runs_def sample_call_def sample_sqlite_def path_append_plain
        create_directories_def create_directory_def canonical_def look_up_def entry_at_def)
  then obtain s where s: "job_runner sample_call [] (Some ?d) [] True True True = Inr s" by blast
  with startup_reconciles [OF s] show ?thesis by (intro exI [of _ s]) (simp add: sample_run_def)
qed

section \<open>Run directories\<close>

lemma make_run_id_plain: "plain_name st \<Longrightarrow> plain_name (fst (make_run_id st s))"
proof -
  assume st: "plain_name st"
  have d: "CHR ''/'' \<notin> set (pad3 n)" for n
    using non_digit_notin_nat_digits [of "CHR ''/''" n] by (auto simp: pad3_def Let_def is_digit_def char_code_def)
  have "plain_name (st @ ''-'' @ x)" if "CHR ''/'' \<notin> set x" for x
    using st that by (cases st rule: list.exhaust; auto simp: plain_name_def Cons_eq_append_conv append_eq_Cons_conv)
  with st d show ?thesis by (auto simp: make_run_id_def Let_def)
qed

lemma plain_nameD: "plain_name c \<Longrightarrow> c \<notin> {[], ''.'', ''..''} \<and> CHR ''/'' \<notin> set c"
  by (simp add: plain_name_def)

text \<open>
  \<^verbatim>\<open>createRun\<close> makes a new run or none. On success the run's directory did not exist and no entry of
  its id was anywhere below the runs directory, the directory exists now, and the run is known, queued,
  and not cancelled. On failure no run is added to memory and the store is unchanged.
\<close>

theorem create_run_new_or_none:
  assumes "names_ok (jr_root s)" and "\<forall>n. plain_name (ca_stamp ca n)"
  shows "case create_run ca mdl params s of
      (Inr run, s') \<Rightarrow>
        (\<exists>fs. fs = snd (create_directories (ca_refuse ca)
              (path_append (path_append (jr_root s) ''runs'') (category_for_module mdl)) (jr_files s))
          \<and> \<not> run_id_exists_anywhere fs (jr_root s) (run_id run)
          \<and> \<not> path_exists fs (path_of (run_output_dir run)))
        \<and> is_directory (jr_files s') (path_of (run_output_dir run))
        \<and> get_run (run_id run) s' = (Inr run, s') \<and> run_status run = ''queued''
        \<and> \<not> is_cancel_requested (run_id run) s'
    | (Inl e, s') \<Rightarrow> jr_db s' = jr_db s
        \<and> (\<forall>i r. map_of (jr_runs s') i = Some r \<longrightarrow> map_of (jr_runs s) i = Some r)"
proof -
  obtain r s' where c: "create_run ca mdl params s = (r, s')" by (cases "create_run ca mdl params s")
  from c show ?thesis
  proof (cases rule: create_run_cases)
    case (failed e)
    with c show ?thesis by (simp add: core_eqD [OF failed(2)])
  next
    case (stored i p s1 run s2)
    obtain fs where fs: "fs = snd (create_directories (ca_refuse ca)
          (path_append (path_append (jr_root s) ''runs'') (category_for_module mdl)) (jr_files s))"
      "\<not> run_id_exists_anywhere fs (jr_root s) i"
      "create_directory (ca_refuse ca) p fs = ((False, True), jr_files s1)"
      using stored(7) by blast
    have i: "plain_name i" using stored(8) assms(2) make_run_id_plain by blast
    then have p: "p = path_append (path_append (jr_root s) ''runs'') (category_for_module mdl) @ [i]"
      using plain_nameD [OF i] by (simp add: stored(6) path_append_plain)
    have parsed: "path_of (path_string p) = p"
      using assms(1) by (intro path_of_path_string) (simp add: stored(6))
    have last: "last p \<notin> {[], ''.'', ''..''}" using p plain_nameD [OF i] by simp
    note new = create_directory_done [OF fs(3) last]
    have s': "jr_files s' = jr_files s1" "jr_runs s' = jr_runs s2" "jr_requested s' = jr_requested s2"
      by (subst store_run_same [OF stored(5)], simp add: stored(4) remember_run_def)+
    show ?thesis
      using c stored(2) fs(1,2) new s' by (simp add: stored(3,4) parsed get_run_def remember_run_def update_conv'
          is_cancel_requested_def at_or_def)
  next
    case (refused i p s1 run s2 e)
    have s1: "jr_db s1 = jr_db s" "jr_runs s1 = jr_runs s" using core_eqD [OF refused(1)] by simp_all
    show ?thesis
      using c refused(2) by (auto simp: refused(3,4,6) forget_run_def remember_run_def delete_conv' update_conv' s1
          split: if_splits)
  qed
qed

theorem create_run_new_or_none_witness:
  "\<exists>s'. create_run sample_call ''map'' [] (idle_runner [] [] (Some empty_db)) = (Inr sample_record, s')
    \<and> is_directory (jr_files s') (path_of ''/runs/maps/t'')"
proof -
  from create_sample obtain s' where s': "create_run sample_call ''map'' [] (idle_runner [] [] (Some empty_db))
      = (Inr sample_record, s')" by blast
  have "names_ok (jr_root (idle_runner [] [] (Some empty_db)))" "\<forall>n. plain_name (ca_stamp sample_call n)"
    by (simp_all add: idle_runner_def sample_call_def plain_name_def)
  from create_run_new_or_none [OF this, of "''map''" "[]"] s' show ?thesis
    by (auto simp: sample_record_def)
qed

section \<open>Progress\<close>

lemma set_progress_total: "map_of (jr_runs s) i = Some r \<Longrightarrow> \<exists>s'. set_progress ca i msg s = (Inr (), s')"
  by (simp add: set_progress_def Let_def case_prod_beta)

text \<open>
  C37: progress survives a restart. When the run's directory is a real directory whose progress files are
  not directories or links, and the system refuses nothing, the text given to \<^verbatim>\<open>setProgress\<close> is what
  \<^verbatim>\<open>getProgress\<close> returns, also in a later process that knows the run only from the store, and no
  temporary file is left.
\<close>

theorem progress_survives_restart:
  assumes "map_of (jr_runs s) i = Some r" and "run_output_dir r \<noteq> []" and "dir = path_of (run_output_dir r)"
    and "real_path (jr_files s) dir" and "entry_at (jr_files s) dir = Some Directory"
    and "free_name (jr_files s) (dir @ [''progress.json''])" and "free_name (jr_files s) (dir @ [''progress.json.tmp''])"
    and "\<forall>x. \<not> ca_refuse ca x" and "msg \<noteq> []"
    and "set_progress ca i msg s = (Inr (), s')"
    and later: "jr_files t = jr_files s'" "jr_progress t i = None" "map_of (jr_runs t) i = None"
      "jr_db t = Some d" "get_run_row (ca_sql ca') i d = Inr row" "rr_output_dir row = run_output_dir r"
  shows "get_progress ca i s' = msg \<and> get_progress ca' i t = msg
    \<and> entry_at (jr_files s') (dir @ [''progress.json.tmp'']) = None"
proof -
  let ?tmp = "dir @ [''progress.json.tmp'']" and ?final = "dir @ [''progress.json'']"
  have names: "path_append dir ''progress.json.tmp'' = ?tmp" "path_append dir ''progress.json'' = ?final"
    by (simp_all add: path_append_plain)
  from write_in_directory [OF assms(4,5) _ assms(7), of "ca_refuse ca" msg] assms(8)
  obtain f1 where w: "write_file (ca_refuse ca) ?tmp msg (jr_files s) = (False, f1)"
    and f1: "\<And>p. entry_at f1 p = (if p = ?tmp then Some (Regular msg) else entry_at (jr_files s) p)" by auto
  have d1: "real_path f1 dir" "entry_at f1 dir = Some Directory"
    using assms(4) by (rule real_path_leaf) (use assms(5) f1 in auto)
  have "free_name f1 ?final" using assms(6) by (simp add: free_name_def f1)
  from rename_in_directory [OF d1 _ _ this, of "''progress.json.tmp''" msg "ca_refuse ca"] assms(8) f1
  obtain f2 where rn: "rename_file (ca_refuse ca) ?tmp ?final f1 = (False, f2)"
    and f2: "\<And>p. entry_at f2 p = (if p = ?final then Some (Regular msg) else if p = ?tmp then None else entry_at f1 p)"
    by auto
  have d2: "real_path f2 dir" "entry_at f2 dir = Some Directory"
    using d1(1) by (rule real_path_leaf) (use d1(2) f2 in auto)
  have s': "jr_files s' = f2" "jr_progress s' i = Some msg"
    using assms(1,2,10) w rn by (auto simp: set_progress_def Let_def assms(3) [symmetric] names)
  have "read_file f2 ?final = msg"
    using d2 f2 by (intro read_in_directory) simp_all
  then have "get_progress ca' i t = msg"
    using later assms(2,9) by (simp add: get_progress_def resolve_output_dir_def Let_def s' assms(3) [symmetric] names)
  with s' f2 show ?thesis by (simp add: get_progress_def)
qed

theorem progress_survives_restart_witness:
  "\<exists>s s' t. set_progress sample_call ''t'' ''{done}'' s = (Inr (), s') \<and> jr_files t = jr_files s'
     \<and> jr_runs t = [] \<and> get_progress sample_call ''t'' t = ''{done}''"
proof -
  let ?dir = "[''runs'', ''maps'', ''t'']"
  let ?fs = "[([''runs''], Directory), ([''runs'', ''maps''], Directory), (?dir, Directory)]"
  let ?s = "(idle_runner [] ?fs None)\<lparr>jr_runs := [(''t'', sample_record)]\<rparr>"
  let ?row = "\<lparr>rr_id = ''t'', rr_module = ''map'', rr_status = ''queued'', rr_params = [], rr_started = 1,
     rr_finished = 0, rr_output_dir = ''/runs/maps/t''\<rparr>"
  let ?d = "empty_db\<lparr>db_runs := [?row]\<rparr>"
  have parsed: "?dir = path_of ''/runs/maps/t''"
    using path_of_path_string [of ?dir] by (simp add: path_string_def)
  obtain s' where s': "set_progress sample_call ''t'' ''{done}'' ?s = (Inr (), s')"
    using set_progress_total [of ?s "''t''" sample_record] by auto
  let ?t = "idle_runner [] (jr_files s') (Some ?d)"
  have e: "entry_at ?fs ?dir = Some Directory" "entry_at ?fs (?dir @ [n]) = None" for n by (simp_all add: entry_at_def)
  have "real_path ?fs [''runs'']"
    using real_path_snoc [of ?fs "[]" "''runs''"] by (simp add: entry_at_def is_link_def)
  then have "real_path ?fs [''runs'', ''maps'']"
    using real_path_snoc [of ?fs "[''runs'']" "''maps''"] by (simp add: entry_at_def is_link_def)
  then have r: "real_path ?fs ?dir"
    using real_path_snoc [of ?fs "[''runs'', ''maps'']" "''t''"] by (simp add: entry_at_def is_link_def)
  have "map_of (jr_runs ?s) ''t'' = Some sample_record" by simp
  moreover have "run_output_dir sample_record \<noteq> []" "?dir = path_of (run_output_dir sample_record)"
    using parsed by (simp_all add: sample_record_def)
  moreover have "jr_files ?s = ?fs" by (simp add: idle_runner_def)
  moreover have "free_name ?fs (?dir @ [''progress.json''])" "free_name ?fs (?dir @ [''progress.json.tmp''])"
    by (simp_all only: free_name_def e option.case)
  moreover have "\<forall>x. \<not> ca_refuse sample_call x" by (simp add: sample_call_def)
  moreover have "jr_files ?t = jr_files s'" "jr_progress ?t ''t'' = None" "map_of (jr_runs ?t) ''t'' = None" "jr_db ?t = Some ?d"
    "get_run_row (ca_sql sample_call) ''t'' ?d = Inr ?row" "rr_output_dir ?row = run_output_dir sample_record"
    by (simp_all add: idle_runner_def get_run_row_def sample_call_def sample_sqlite_def c_str_def select_key_def
        sample_record_def)
  ultimately have "get_progress sample_call ''t'' ?t = ''{done}''"
    using progress_survives_restart [of ?s "''t''" sample_record ?dir sample_call "''{done}''" s' ?t ?d sample_call ?row]
      s' r e by simp
  with s' show ?thesis by (intro exI [of _ ?s] exI [of _ s'] exI [of _ ?t]) (simp add: idle_runner_def)
qed

section \<open>Shutdown\<close>

lemma tasks_op: "jr_shutting_down s \<Longrightarrow> jr_shutting_down (apply_op ca job s) \<and> jr_tasks (apply_op ca job s) \<le> jr_tasks s"
proof (cases job)
  case (Create_run mdl params)
  assume d: "jr_shutting_down s"
  obtain r s' where c: "create_run ca mdl params s = (r, s')" by (cases "create_run ca mdl params s")
  from c have "jr_shutting_down s' = jr_shutting_down s \<and> jr_tasks s' = jr_tasks s"
  proof (cases rule: create_run_cases)
    case (failed e)
    then show ?thesis using core_eqD(3,4) by blast
  next
    case (stored i p s1 run s2)
    show ?thesis
      by (subst (1 2) store_run_same [OF stored(5)]) (simp add: stored(4) remember_run_def core_eqD [OF stored(1)])
  next
    case (refused i p s1 run s2 e)
    show ?thesis by (simp add: refused(6,4) forget_run_def remember_run_def core_eqD [OF refused(1)])
  qed
  with c d Create_run show ?thesis by simp
next
  case (Set_status i st)
  assume "jr_shutting_down s"
  then show ?thesis unfolding Set_status apply_op.simps
    by (auto simp: set_status_def Let_def store_run_def res_bind_def split: option.split sum.split)
next
  case (Set_progress i msg)
  assume "jr_shutting_down s"
  then show ?thesis unfolding Set_progress apply_op.simps by (subst (1 2) set_progress_same) simp
next
  case (Request_cancel i)
  assume "jr_shutting_down s"
  then show ?thesis unfolding Request_cancel apply_op.simps by (subst (1 2) request_cancel_same) simp
qed (auto simp: add_artifact_def set_cancelable_def background_task_token_def release_task_token_def
    begin_shutdown_def Let_def split: option.split sum.split prod.split)

lemma release_all: "jr_shutting_down s \<Longrightarrow> can_finish_shutdown ((release_task_token ^^ jr_tasks s) s)"
proof (induction "jr_tasks s" arbitrary: s)
  case (Suc n)
  have t: "jr_tasks (release_task_token s) = n" "jr_shutting_down (release_task_token s)"
    using Suc.hyps(2) Suc.prems by (simp_all add: release_task_token_def)
  have "(release_task_token ^^ jr_tasks s) s = (release_task_token ^^ n) (release_task_token s)"
    using Suc.hyps(2) by (metis funpow_Suc_right o_apply)
  with Suc.hyps(1) [of "release_task_token s"] t show ?case by simp
qed (simp add: can_finish_shutdown_def)

text \<open>
  C39: shutdown is orderly. Once the destructor has set the flag, whatever the other threads do, no new
  worker token is given out and the count only falls; when the workers that hold a token have released
  it, the destructor's wait is over and stays over.
\<close>

theorem shutdown_orderly:
  assumes "jr_shutting_down s" and "executes P s s'"
  shows "background_task_token s' = (Inl (RuntimeError ''JobRunner is shutting down''), s')
    \<and> jr_tasks s' \<le> jr_tasks s \<and> can_finish_shutdown ((release_task_token ^^ jr_tasks s') s')
    \<and> (can_finish_shutdown s \<longrightarrow> can_finish_shutdown s')"
proof -
  have "jr_shutting_down s' \<and> jr_tasks s' \<le> jr_tasks s"
    using assms(2,1) by (induction rule: executes.induct) (auto dest: tasks_op intro: order_trans)
  with release_all [of s'] show ?thesis by (auto simp: background_task_token_def can_finish_shutdown_def)
qed

theorem shutdown_orderly_witness:
  "\<exists>s :: runner. jr_tasks s = 2 \<and> jr_shutting_down s \<and> can_finish_shutdown ((release_task_token ^^ 2) s)"
proof -
  let ?s = "(idle_runner [] [] None)\<lparr>jr_tasks := 2, jr_shutting_down := True\<rparr>"
  have "jr_shutting_down ?s" by simp
  from shutdown_orderly [OF this executes.none] show ?thesis by (intro exI [of _ ?s]) simp
qed

end
