(* ===== verification/ComputeApi.thy ===== *)
theory ComputeApi
  imports OrbitJson Colormap HttpServer Db
begin

text \<open>
  The Compute API, version 1 (\<^verbatim>\<open>api/routes_compute_v1.cpp\<close>): the table of capabilities and the validation of a
  request against it. An error is the status and the JSON body of an \<^verbatim>\<open>HttpError\<close>, or an exception that leaves
  the route. The messages of exceptions (\<open>what\<close>) and SHA-256 are parameters.
\<close>

section \<open>Errors\<close>

datatype api_failure = Api_Error int json | Api_Exn exn

type_synonym 'a api = "api_failure + 'a"

definition api_bind :: "'e + 'a \<Rightarrow> ('a \<Rightarrow> 'e + 'b) \<Rightarrow> 'e + 'b" where
  "api_bind m f = (case m of Inl e \<Rightarrow> Inl e | Inr x \<Rightarrow> f x)"

definition api_of :: "'a res \<Rightarrow> 'a api" where
  "api_of r = (case r of Inl e \<Rightarrow> Inl (Api_Exn e) | Inr x \<Rightarrow> Inr x)"

text \<open>A condition of the code: throw, or go on.\<close>

definition refuse_if :: "bool \<Rightarrow> 'e \<Rightarrow> 'e + 'a \<Rightarrow> 'e + 'a" where
  "refuse_if b e k = (if b then Inl e else k)"

lemma api_bind_simps [simp]: "api_bind (Inl e) f = Inl e" "api_bind (Inr x) f = f x"
  by (simp_all add: api_bind_def)

lemma api_bind_Inr [fsd_split]: "api_bind m f = Inr y \<longleftrightarrow> (\<exists>x. m = Inr x \<and> f x = Inr y)"
  by (cases m) auto

lemma api_bind_Inl [fsd_split]: "api_bind m f = Inl e \<longleftrightarrow> m = Inl e \<or> (\<exists>x. m = Inr x \<and> f x = Inl e)"
  by (cases m) auto

lemma api_of_simps [simp]: "api_of (Inl e) = Inl (Api_Exn e)" "api_of (Inr x) = Inr x"
  by (simp_all add: api_of_def)

lemma api_of_Inr [fsd_split]: "api_of r = Inr y \<longleftrightarrow> r = Inr y"
  by (cases r) auto

lemma api_of_Inl [fsd_split]: "api_of r = Inl e \<longleftrightarrow> (\<exists>x. r = Inl x \<and> e = Api_Exn x)"
  by (cases r) auto

lemma refuse_if_simps [simp]: "refuse_if True e k = Inl e" "refuse_if False e k = k"
  by (simp_all add: refuse_if_def)

lemma refuse_if_Inr [fsd_split]: "refuse_if b e k = Inr y \<longleftrightarrow> \<not> b \<and> k = Inr y"
  by (simp add: refuse_if_def)

lemma refuse_if_Inl [fsd_split]: "refuse_if b e k = Inl e' \<longleftrightarrow> b \<and> e' = e \<or> \<not> b \<and> k = Inl e'"
  by (auto simp: refuse_if_def)

text \<open>
  An object written as a list of members: nlohmann keeps the members in the order of their keys.
\<close>

definition obj :: "(string \<times> json) list \<Rightarrow> json" where
  "obj kvs = JObject (fold (\<lambda>(k, v). put_entry k v) kvs [])"

lemma obj_find [simp]: "find_key (obj kvs) k = map_of (rev kvs) k"
proof -
  have "map_of (fold (\<lambda>(k, v). put_entry k v) kvs m) = map_of m ++ map_of (rev kvs)" for m
    by (induction kvs arbitrary: m) (auto simp: fun_eq_iff map_add_def split: option.splits)
  then show ?thesis by (simp add: find_key_def items_def obj_def)
qed

lemma obj_object [simp]: "is_object (obj kvs)"
  by (simp add: is_object_def obj_def)

text \<open>\<^verbatim>\<open>computeError\<close>, \<^verbatim>\<open>badRequest\<close> and \<^verbatim>\<open>unsupported\<close>.\<close>

definition compute_error :: "string \<Rightarrow> string \<Rightarrow> json \<Rightarrow> json" where
  "compute_error code message details =
    obj [(''error'', obj [(''code'', JString code), (''message'', JString message), (''details'', details)])]"

definition bad_request :: "string \<Rightarrow> string \<Rightarrow> json \<Rightarrow> api_failure" where
  "bad_request code message details = Api_Error 400 (compute_error code message details)"

definition unsupported :: "string \<Rightarrow> string \<Rightarrow> api_failure" where
  "unsupported kind message =
    Api_Error 422 (compute_error ''UNSUPPORTED_CAPABILITY'' message (obj [(''kind'', JString kind)]))"

definition at_field :: "string \<Rightarrow> string \<Rightarrow> json" where
  "at_field kind field = obj [(''kind'', JString kind), (''field'', JString field)]"

definition with_value :: "string \<Rightarrow> string \<Rightarrow> string \<Rightarrow> json" where
  "with_value kind field v = obj [(''kind'', JString kind), (''field'', JString field), (''value'', JString v)]"

section \<open>Capabilities\<close>

record capability =
  cap_kind :: string
  cap_persistent :: bool
  cap_preview :: bool
  cap_orbit :: bool
  cap_profile :: string
  cap_metrics :: string
  cap_engines :: string
  cap_scalars :: string
  cap_media :: string

definition capability_row ::
    "string \<Rightarrow> bool \<Rightarrow> bool \<Rightarrow> bool \<Rightarrow> string \<Rightarrow> string \<Rightarrow> string \<Rightarrow> string \<Rightarrow> string \<Rightarrow> capability" where
  "capability_row k p v orbit profile ms es ss outs =
    \<lparr>cap_kind = k, cap_persistent = p, cap_preview = v, cap_orbit = orbit, cap_profile = profile, cap_metrics = ms,
     cap_engines = es, cap_scalars = ss, cap_media = outs\<rparr>"

definition compute_capabilities :: "capability list" where
  "compute_capabilities =
   [capability_row ''map_image'' True True True ''builtin_2d_or_safe_dsl''
      ''escape,min_abs,max_abs,envelope,min_pairwise_dist,mandel_ship_agree''
      ''auto,openmp,avx2,avx512,cuda,hybrid'' ''auto,fp32,fp64,fx64,fp80,fp128'' ''image/png,application/octet-stream'',
    capability_row ''transition_image'' True True False ''axis_pair_or_multi'' ''escape,min_abs,max_abs,envelope''
      ''auto,openmp,avx2,cuda'' ''auto,fp32,fp64,fx64,fp80,fp128'' ''image/png,application/octet-stream'',
    capability_row ''raw_field'' False True True ''builtin_2d_or_safe_dsl''
      ''escape,min_abs,max_abs,envelope,min_pairwise_dist''
      ''auto,openmp,avx2,avx512,cuda,hybrid'' ''auto,fp32,fp64,fx64,fp80,fp128'' ''application/json'',
    capability_row ''ln_map'' True False True ''builtin_2d_or_safe_dsl'' ''escape''
      ''auto,openmp,avx2,avx512,cuda'' ''auto,fp32,fp64,fx64,fp80,fp128'' ''image/png,application/json'',
    capability_row ''zoom_video'' True False True ''builtin_2d_or_safe_dsl'' ''escape''
      ''auto,openmp,avx2,avx512,cuda,hybrid'' ''auto,fp32,fp64,fx64,fp80,fp128'' ''video/mp4,image/png,application/json'',
    capability_row ''legacy_zoom_video'' True False False ''ln_map_sidecar_snapshot'' ''escape''
      ''auto,openmp,avx2,avx512,cuda,hybrid'' ''auto,fp32,fp64,fx64,fp80,fp128'' ''video/mp4'',
    capability_row ''video_preview'' False True True ''builtin_2d_or_safe_dsl'' ''escape''
      ''auto,openmp'' ''fp64'' ''application/json,image/png'',
    capability_row ''transition_video'' True False False ''axis_pair_or_multi'' ''escape,min_abs,max_abs,envelope''
      ''auto,openmp,avx2,cuda'' ''auto,fp32,fp64,fx64,fp80,fp128'' ''video/mp4,image/png,application/json'',
    capability_row ''transition_video_preview'' False True False ''axis_pair_or_multi''
      ''escape,min_abs,max_abs,envelope''
      ''auto,openmp,avx2,cuda'' ''auto,fp32,fp64,fx64,fp80,fp128'' ''application/json,image/png'',
    capability_row ''hs_mesh'' True False True ''builtin_2d_or_safe_dsl''
      ''escape,min_abs,max_abs,envelope,min_pairwise_dist''
      ''auto,openmp'' ''fp64'' ''model/gltf-binary,application/sla'',
    capability_row ''hs_field'' True False True ''builtin_2d_or_safe_dsl''
      ''escape,min_abs,max_abs,envelope,min_pairwise_dist''
      ''auto,openmp'' ''fp64'' ''application/octet-stream,application/json'',
    capability_row ''transition_mesh'' True False False ''axis_pair_or_multi'' ''escape''
      ''auto,openmp,avx2,cuda'' ''auto,fp32,fp64'' ''model/gltf-binary,application/sla'',
    capability_row ''transition_voxels'' True False False ''axis_pair_or_multi'' ''escape''
      ''auto,openmp,avx2,cuda'' ''auto,fp32,fp64'' ''application/sla'',
    capability_row ''special_points_enumerate'' True False False ''mandelbrot_special_points'' ''newton_residual''
      ''openmp'' ''fp64,mpfr'' ''application/json'',
    capability_row ''special_points_search'' True False False ''mandelbrot_special_points'' ''newton_residual''
      ''openmp'' ''fp64,mpfr'' ''application/json'',
    capability_row ''special_points_auto'' False True False ''mandelbrot_special_points'' ''newton_residual''
      ''openmp'' ''fp64,mpfr'' ''application/json'',
    capability_row ''special_points_seed'' False True False ''mandelbrot_special_points'' ''newton_residual''
      ''openmp'' ''fp64,mpfr'' ''application/json'',
    capability_row ''special_points_snap'' False True False ''mandelbrot_special_points'' ''newton_residual''
      ''openmp'' ''fp64,mpfr'' ''application/json'',
    capability_row ''benchmark'' True False False ''builtin_benchmark_workloads'' ''escape''
      ''available_candidates'' ''available_candidates'' ''application/json'']"

definition find_capability :: "string \<Rightarrow> capability option" where
  "find_capability kind = find (\<lambda>c. cap_kind c = kind) compute_capabilities"

text \<open>
  The two loops over a list separated by commas: a segment ends at the next comma or at the end. The first
  collects the segments that are not empty, the second looks for one segment.
\<close>

function comma_separated_array :: "string \<Rightarrow> string list" where
  "comma_separated_array s =
    (case str_find (CHR '','') s of
       None \<Rightarrow> (if s = [] then [] else [s])
     | Some comma \<Rightarrow>
         (if comma > 0 then [take comma s] else []) @ comma_separated_array (drop (comma + 1) s))"
  by pat_completeness auto

function comma_separated_contains :: "string \<Rightarrow> string \<Rightarrow> bool" where
  "comma_separated_contains s wanted =
    (case str_find (CHR '','') s of
       None \<Rightarrow> s = wanted
     | Some comma \<Rightarrow> take comma s = wanted \<or> comma_separated_contains (drop (comma + 1) s) wanted)"
  by pat_completeness auto

termination comma_separated_array
  by (relation "measure length") (auto dest: str_find_Some)

termination comma_separated_contains
  by (relation "measure (length \<circ> fst)") (auto dest: str_find_Some)

declare comma_separated_array.simps [simp del] comma_separated_contains.simps [simp del]

section \<open>Values that a capability advertises\<close>

text \<open>\<^verbatim>\<open>payload.contains(k) && !payload[k].is_null()\<close>, with the member.\<close>

definition given :: "json \<Rightarrow> string \<Rightarrow> json option" where
  "given j k = (case find_key j k of None \<Rightarrow> None | Some JNull \<Rightarrow> None | Some v \<Rightarrow> Some v)"

definition require_string_field :: "string \<Rightarrow> json \<Rightarrow> string \<Rightarrow> string api" where
  "require_string_field kind payload field =
    (case find_key payload field of
       None \<Rightarrow> Inl (Api_Exn Undefined)
     | Some (JString s) \<Rightarrow> Inr s
     | Some _ \<Rightarrow> Inl (bad_request ''INVALID_REQUEST'' (field @ '' must be a string'') (at_field kind field)))"

definition validate_advertised_value :: "string \<Rightarrow> json \<Rightarrow> string \<Rightarrow> string \<Rightarrow> unit api" where
  "validate_advertised_value kind payload field allowed =
    (if given payload field = None then Inr ()
     else api_bind (require_string_field kind payload field) (\<lambda>v.
       refuse_if (\<not> comma_separated_contains allowed v)
         (Api_Error 422 (compute_error ''UNSUPPORTED_CAPABILITY'' (''unsupported '' @ field)
           (obj [(''kind'', JString kind), (''field'', JString field), (''value'', JString v),
             (''allowed'', JArray (map JString (comma_separated_array allowed)))])))
         (Inr ())))"

definition validate_builtin_variant_value :: "string \<Rightarrow> json \<Rightarrow> string \<Rightarrow> bool \<Rightarrow> unit api" where
  "validate_builtin_variant_value kind j field axis_only =
    (case j of
       JString name \<Rightarrow>
         (let known = (case variant_from_name (c_str name) of None \<Rightarrow> False | Some v \<Rightarrow> v \<noteq> Custom);
              axis_compatible = (case variant_from_name (c_str name) of None \<Rightarrow> False | Some v \<Rightarrow> v \<noteq> Custom \<and> v \<le> Ship)
          in refuse_if (\<not> known \<or> axis_only \<and> \<not> axis_compatible)
               (Api_Error 422 (compute_error ''UNSUPPORTED_CAPABILITY''
                 (if axis_only then ''variant has no axis-transition lift'' else ''unknown built-in variant'')
                 (with_value kind field name)))
               (Inr ()))
     | _ \<Rightarrow> Inl (bad_request ''INVALID_REQUEST'' (field @ '' must be a canonical variant string'') (at_field kind field)))"

text \<open>A loop of checks: the first that throws ends it.\<close>

fun check_all :: "('a \<Rightarrow> unit api) \<Rightarrow> 'a list \<Rightarrow> unit api" where
  "check_all f [] = Inr ()"
| "check_all f (x # xs) = api_bind (f x) (\<lambda>_. check_all f xs)"

definition validate_axis_leg :: "string \<Rightarrow> json \<Rightarrow> unit api" where
  "validate_axis_leg kind leg =
    (if is_object leg then
       (case find_key leg ''variant'' of
          None \<Rightarrow> Inl (bad_request ''INVALID_REQUEST'' ''transition leg requires variant'' (at_field kind ''transitionLegs''))
        | Some v \<Rightarrow> validate_builtin_variant_value kind v ''transitionLegs.variant'' True)
     else validate_builtin_variant_value kind leg ''transitionLegs.variant'' True)"

definition validate_axis_list :: "string \<Rightarrow> json \<Rightarrow> string \<Rightarrow> (json \<Rightarrow> unit api) \<Rightarrow> unit api" where
  "validate_axis_list kind payload field f =
    (case given payload field of
       None \<Rightarrow> Inr ()
     | Some a \<Rightarrow>
         refuse_if (\<not> is_array a) (bad_request ''INVALID_REQUEST'' (field @ '' must be an array'') (at_field kind field))
         (check_all f (elements a)))"

definition validate_axis_variants :: "string \<Rightarrow> json \<Rightarrow> unit api" where
  "validate_axis_variants kind payload =
    api_bind (check_all (\<lambda>field.
        case given payload field of
          None \<Rightarrow> Inr ()
        | Some v \<Rightarrow> validate_builtin_variant_value kind v field True) [''transitionFrom'', ''transitionTo'']) (\<lambda>_.
    api_bind (validate_axis_list kind payload ''transitionVariants''
        (\<lambda>v. validate_builtin_variant_value kind v ''transitionVariants'' True)) (\<lambda>_.
    validate_axis_list kind payload ''transitionLegs'' (validate_axis_leg kind)))"

definition validate_leg_weight :: "string \<Rightarrow> json \<Rightarrow> unit api" where
  "validate_leg_weight kind leg =
    (case find_key leg ''weight'' of
       None \<Rightarrow> Inl (bad_request ''INVALID_REQUEST'' ''each transition leg requires a numeric weight''
                (at_field kind ''transitionLegs.weight''))
     | Some w \<Rightarrow>
         refuse_if (\<not> is_number w) (bad_request ''INVALID_REQUEST'' ''each transition leg requires a numeric weight''
           (at_field kind ''transitionLegs.weight''))
         (api_bind (api_of (get_double w)) (\<lambda>weight.
          refuse_if (\<not> flt (Fin 0) weight \<or> \<not> fis_finite weight)
            (bad_request ''INVALID_REQUEST'' ''transition leg weight must be finite and positive''
              (at_field kind ''transitionLegs.weight''))
          (Inr ()))))"

definition theta_field :: string where "theta_field = ''transitionThetaMilliDeg''"

definition validate_transition_image_payload :: "string \<Rightarrow> json \<Rightarrow> unit api" where
  "validate_transition_image_payload kind payload =
    (case find_key payload theta_field of
       Some (JInt i) \<Rightarrow>
         api_bind (api_of (get_int 64 (JInt i))) (\<lambda>theta.
         refuse_if (theta < -180000 \<or> theta > 180000)
           (bad_request ''INVALID_REQUEST'' (theta_field @ '' must be within -180000..180000'') (at_field kind theta_field))
         (case given payload ''transitionLegs'' of
            Some legs \<Rightarrow>
              refuse_if (\<not> is_array legs \<or> elements legs = [] \<or> length (elements legs) > 4)
                (bad_request ''INVALID_REQUEST'' ''transitionLegs must contain 1..4 entries''
                  (at_field kind ''transitionLegs''))
              (check_all (validate_leg_weight kind) (elements legs))
          | None \<Rightarrow>
              check_all (\<lambda>field. refuse_if (given payload field = None)
                (bad_request ''INVALID_REQUEST'' (field @ '' is required for pair transition'') (at_field kind field))
                (Inr ())) [''transitionFrom'', ''transitionTo'']))
     | _ \<Rightarrow> Inl (bad_request ''INVALID_REQUEST'' (theta_field @ '' must be an integer'') (at_field kind theta_field)))"

text \<open>The members that make a map request an axis transition.\<close>

definition transition_fields :: "string list" where
  "transition_fields = [''transitionTheta'', ''transitionThetaMilliDeg'', ''transitionFrom'', ''transitionTo'',
     ''transitionVariants'', ''transitionLegs'']"

definition validate_capability_payload :: "string \<Rightarrow> json \<Rightarrow> capability \<Rightarrow> unit api" where
  "validate_capability_payload kind payload c =
    api_bind (validate_advertised_value kind payload ''metric'' (cap_metrics c)) (\<lambda>_.
    api_bind (validate_advertised_value kind payload ''engine'' (cap_engines c)) (\<lambda>_.
    api_bind (validate_advertised_value kind payload ''scalarType'' (cap_scalars c)) (\<lambda>_.
      if cap_profile c = ''builtin_2d_or_safe_dsl'' then
        api_bind (case given payload ''variant'' of
            None \<Rightarrow> Inr ()
          | Some v \<Rightarrow> validate_builtin_variant_value kind v ''variant'' False) (\<lambda>_.
        refuse_if (kind = ''map_image'' \<and> (\<exists>f\<in>set transition_fields. json_contains payload f))
          (unsupported kind ''axis transition fields require kind=transition_image'')
          (Inr ()))
      else if cap_profile c = ''axis_pair_or_multi'' then
        api_bind (validate_axis_variants kind payload) (\<lambda>_.
          if kind = ''transition_image'' then validate_transition_image_payload kind payload else Inr ())
      else Inr ())))"

section \<open>Colours and Orbit Programs\<close>

text \<open>\<^verbatim>\<open>catch (const std::exception&)\<close> around a reader: undefined behaviour is not an exception.\<close>

definition catch_std :: "(exn \<Rightarrow> api_failure) \<Rightarrow> 'a res \<Rightarrow> 'a api" where
  "catch_std h r = (case r of
      Inr x \<Rightarrow> Inr x
    | Inl e \<Rightarrow> Inl (if e = Undefined then Api_Exn Undefined else h e))"

definition validate_color_payload :: "(exn \<Rightarrow> string) \<Rightarrow> string \<Rightarrow> json \<Rightarrow> unit api" where
  "validate_color_payload what kind payload =
    api_bind (case given payload ''colorMap'' of
        None \<Rightarrow> Inr ()
      | Some (JString name) \<Rightarrow>
          refuse_if (colormap_from_name name = None)
            (Api_Error 422 (compute_error ''UNSUPPORTED_CAPABILITY'' ''unknown built-in colorMap''
              (with_value kind ''colorMap'' name)))
            (Inr ())
      | Some _ \<Rightarrow> Inl (bad_request ''INVALID_COLOR_MAP'' ''colorMap must be a string'' (at_field kind ''colorMap''))) (\<lambda>_.
    case given payload ''colorProgram'' of
      None \<Rightarrow> Inr ()
    | Some program \<Rightarrow>
        refuse_if (kind \<noteq> ''map_image'' \<and> kind \<noteq> ''transition_image'')
          (unsupported kind ''colorProgram v1 is currently supported only by static 2D images'')
        (refuse_if (given payload ''colorMap'' \<noteq> None)
          (bad_request ''INVALID_COLOR_PROGRAM'' ''colorMap and colorProgram are mutually exclusive'' (obj []))
        (refuse_if (case find_key payload ''colorMode'' of None \<Rightarrow> False | Some (JString _) \<Rightarrow> False | Some _ \<Rightarrow> True)
          (bad_request ''INVALID_COLOR_PROGRAM'' ''colorMode must be a string'' (obj []))
        (api_bind (api_of (json_value get_string payload ''colorMode'' ''direct'')) (\<lambda>mode.
         refuse_if (mode \<noteq> ''direct'') (unsupported kind ''colorProgram v1 requires colorMode=direct'')
         (api_bind (catch_std (\<lambda>e. bad_request ''INVALID_COLOR_PROGRAM'' (what e) (at_field kind ''colorProgram''))
            (parse_color_program_json program)) (\<lambda>_. Inr ())))))))"

definition orbit_failure :: "(exn \<Rightarrow> string) \<Rightarrow> exn \<Rightarrow> api_failure" where
  "orbit_failure what e =
    (case e of
       FormulaError code pos msg \<Rightarrow> bad_request code (what e) (obj [(''position'', JInt (int pos))])
     | _ \<Rightarrow> bad_request ''INVALID_ORBIT_PROGRAM'' (what e) (obj []))"

definition validate_orbit_payload ::
    "(string \<Rightarrow> string) \<Rightarrow> (exn \<Rightarrow> string) \<Rightarrow> string \<Rightarrow> json \<Rightarrow> bool \<Rightarrow> program option api" where
  "validate_orbit_payload H what kind payload persistent =
    (case find_capability kind of
       None \<Rightarrow> Inl (unsupported kind (if persistent then ''unknown persistent Compute kind'' else ''unknown preview Compute kind''))
     | Some c \<Rightarrow>
         refuse_if (if persistent then \<not> cap_persistent c else \<not> cap_preview c)
           (unsupported kind (if persistent then ''unknown persistent Compute kind'' else ''unknown preview Compute kind''))
         (api_bind (validate_capability_payload kind payload c) (\<lambda>_.
          api_bind (validate_color_payload what kind payload) (\<lambda>_.
          case given payload ''orbitProgram'' of
            None \<Rightarrow> Inr None
          | Some program \<Rightarrow>
              refuse_if (\<not> cap_orbit c)
                (unsupported kind ''this Compute build supports Orbit Program only for 2D/Julia map and HS outputs'')
              (api_bind (api_of (json_value get_string payload ''metric'' ''escape'')) (\<lambda>metric.
               refuse_if (metric \<noteq> ''escape'' \<and> (kind = ''map_image'' \<or> kind = ''raw_field'' \<or> metric = ''mandel_ship_agree''))
                 (unsupported kind ''requested metric is not compatible with Orbit Program'')
               (refuse_if (json_contains payload ''transitionTheta'' \<or> json_contains payload theta_field
                   \<or> json_contains payload ''transitionVariants'')
                 (unsupported kind ''Orbit Program cannot be combined with axis transition'')
               (api_bind (catch_std (orbit_failure what) (parse_orbit_program_json H program)) (\<lambda>p. Inr (Some p))))))))))"

section \<open>The envelope of a request\<close>

text \<open>\<^verbatim>\<open>parseEnvelope\<close> on the parsed body; the key is read only for persistent runs.\<close>

definition parse_envelope :: "bool \<Rightarrow> json \<Rightarrow> (string \<times> string \<times> json) api" where
  "parse_envelope with_key envelope =
    api_bind (api_of (json_value (get_int 32) envelope ''schemaVersion'' 0)) (\<lambda>version.
    refuse_if (version \<noteq> 1) (bad_request ''UNSUPPORTED_SCHEMA_VERSION'' ''schemaVersion must be 1''
      (obj [(''received'', JInt version)]))
    (api_bind (api_of (json_value get_string envelope ''kind'' [])) (\<lambda>kind.
     refuse_if (kind = []) (bad_request ''INVALID_REQUEST'' ''kind is required'' (obj []))
     (case find_key envelope ''payload'' of
        None \<Rightarrow> Inl (bad_request ''INVALID_REQUEST'' ''payload must be an object'' (obj []))
      | Some payload \<Rightarrow>
          refuse_if (\<not> is_object payload) (bad_request ''INVALID_REQUEST'' ''payload must be an object'' (obj []))
          (refuse_if (json_contains envelope ''orbitProgram'')
            (unsupported kind ''orbitProgram is not enabled in this Compute build'')
          (if \<not> with_key then Inr (kind, [], payload)
           else api_bind (api_of (json_value get_string envelope ''idempotencyKey'' [])) (\<lambda>key.
             refuse_if (key = [] \<or> length key > 200)
               (bad_request ''INVALID_IDEMPOTENCY_KEY'' ''idempotencyKey must contain 1..200 characters'' (obj []))
             (Inr (kind, key, payload)))))))))"

section \<open>The capabilities document\<close>

text \<open>
  \<^verbatim>\<open>computeV1CapabilitiesRoute\<close>. The version of the renderer, the report on the hardware and the switch of
  the native compiler are the arguments.
\<close>

definition array_of :: "string \<Rightarrow> json" where
  "array_of s = JArray (map JString (comma_separated_array s))"

definition capability_json :: "capability \<Rightarrow> json" where
  "capability_json c =
    obj [(''kind'', JString (cap_kind c)), (''persistent'', JBool (cap_persistent c)),
      (''preview'', JBool (cap_preview c)), (''orbitProgram'', JBool (cap_orbit c)),
      (''variantProfile'', JString (cap_profile c)), (''metrics'', array_of (cap_metrics c)),
      (''engines'', array_of (cap_engines c)), (''scalars'', array_of (cap_scalars c)),
      (''outputMediaTypes'', array_of (cap_media c))]"

definition builtin_variant_list :: string where
  "builtin_variant_list = ''mandelbrot,tricorn,burning_ship,celtic,heart,buffalo,perp_buffalo,celtic_ship,mandelceltic,perp_ship,sin_z,cos_z,exp_z,sinh_z,cosh_z,tan_z''"

definition axis_variant_list :: string where
  "axis_variant_list = ''mandelbrot,tricorn,burning_ship,celtic,heart,buffalo,perp_buffalo,celtic_ship,mandelceltic,perp_ship''"

definition color_map_list :: string where
  "color_map_list = ''classic_cos,mod17,hsv_wheel,tri765,grayscale,hs_rainbow,inferno,viridis,twilight,ember_blue,spectral1530''"

definition flags :: "(string \<times> bool) list \<Rightarrow> json" where
  "flags kvs = obj (map (\<lambda>(k, b). (k, JBool b)) kvs)"

definition compute_capabilities_json :: "string \<Rightarrow> json \<Rightarrow> bool \<Rightarrow> json" where
  "compute_capabilities_json renderer hardware legacy_compiler =
    obj [(''schemaVersion'', JInt 1), (''rendererVersion'', JString renderer),
      (''persistentKinds'', JArray (map (JString \<circ> cap_kind) (filter cap_persistent compute_capabilities))),
      (''previewKinds'', JArray (map (JString \<circ> cap_kind) (filter cap_preview compute_capabilities))),
      (''jobs'', JArray (map capability_json compute_capabilities)),
      (''builtInVariants'', array_of builtin_variant_list),
      (''axisTransitionVariants'', array_of axis_variant_list),
      (''orbitPrograms'', flags [(''formula'', True), (''sequence'', True), (''weightedSchedule'', False),
         (''outputBlend'', False), (''axisTransition'', True), (''axisMulti'', True)]),
      (''orbitCompatibility'', flags [(''mapImage'', True), (''transitionImage'', False), (''rawField'', True),
         (''julia'', True), (''lnMap'', True), (''hsField'', True), (''hsMesh'', True), (''zoomVideo'', True),
         (''transitionVideo'', False), (''transitionMesh'', False), (''transitionVoxels'', False)]),
      (''customFormula'', flags [(''legacyNativeCompile'', legacy_compiler), (''safeDsl'', True)]),
      (''coloring'', obj [(''builtInColorMaps'', array_of color_map_list), (''customGradient'', JBool True),
         (''customGradientSchemaVersion'', JInt 1),
         (''customGradientKinds'', JArray [JString ''map_image'', JString ''transition_image'']),
         (''customGradientMaxStops'', JInt 16),
         (''staticImageColorModes'', JArray [JString ''direct'', JString ''eq_full'', JString ''eq_center'']),
         (''cyclesPerOctave'', obj [(''minimumExclusive'', JFloat (Fin 0)), (''maximum'', JFloat (Fin 64))])]),
      (''escapeSemantics'', flags [(''certifiedRadius'', True), (''strictUnverified'', True)]),
      (''hardware'', hardware)]"

end
