(* ===== verification/ComputeApiProperties.thy ===== *)
theory ComputeApiProperties
  imports ComputeApi
begin

text \<open>
  Theorems on the validation of Compute requests: what is accepted is what the capabilities document announces,
  and how a request is refused.
\<close>

section \<open>Lists of names\<close>

lemma comma_contains_iff:
  "wanted \<noteq> [] \<Longrightarrow> comma_separated_contains s wanted \<longleftrightarrow> wanted \<in> set (comma_separated_array s)"
proof (induction s wanted rule: comma_separated_contains.induct)
  case (1 s wanted)
  show ?case
  proof (cases "str_find (CHR '','') s")
    case None
    then show ?thesis using 1 by (auto simp: comma_separated_contains.simps [of s] comma_separated_array.simps [of s])
  next
    case (Some i)
    then have "take i s \<noteq> [] \<longleftrightarrow> 0 < i" using str_find_Some [OF Some] by auto
    with Some 1 show ?thesis
      by (auto simp: comma_separated_contains.simps [of s] comma_separated_array.simps [of s])
  qed
qed


lemma elements_array_of: "elements (array_of s) = map JString (comma_separated_array s)"
  by (simp add: elements_def array_of_def)

lemma find_capability_Some: "find_capability k = Some c \<Longrightarrow> c \<in> set compute_capabilities \<and> cap_kind c = k"
  by (auto simp: find_capability_def find_Some_iff in_set_conv_nth)

lemma advertised_ok_iff:
  "validate_advertised_value kind payload field allowed = Inr ()
   \<longleftrightarrow> (given payload field = None
      \<or> (\<exists>v. given payload field = Some (JString v) \<and> comma_separated_contains allowed v))"
  by (auto simp: validate_advertised_value_def require_string_field_def given_def fsd_split split: option.splits json.splits)


lemma no_empty_names:
  "\<forall>c\<in>set compute_capabilities. \<not> comma_separated_contains (cap_metrics c) []
    \<and> \<not> comma_separated_contains (cap_engines c) [] \<and> \<not> comma_separated_contains (cap_scalars c) []"
  by code_simp

lemma advertised_listed:
  assumes "validate_advertised_value kind payload field allowed = Inr ()" and "\<not> comma_separated_contains allowed []"
    and "given payload field = Some v"
  shows "v \<in> set (elements (array_of allowed))"
proof -
  obtain s where v: "v = JString s" and c: "comma_separated_contains allowed s"
    using assms(1,3) by (auto simp: advertised_ok_iff)
  from c assms(2) have "s \<noteq> []" by auto
  with c v show ?thesis by (simp add: elements_array_of comma_contains_iff)
qed

section \<open>Accepted requests\<close>

definition compute_jobs :: "json \<Rightarrow> json list" where
  "compute_jobs doc = (case find_key doc ''jobs'' of None \<Rightarrow> [] | Some a \<Rightarrow> elements a)"

definition job_list :: "json \<Rightarrow> string \<Rightarrow> json list" where
  "job_list job name = (case find_key job name of None \<Rightarrow> [] | Some a \<Rightarrow> elements a)"

lemma compute_jobs_doc: "compute_jobs (compute_capabilities_json r hw leg) = map capability_json compute_capabilities"
  by (simp add: compute_jobs_def compute_capabilities_json_def elements_def)

lemma capability_json_find:
  "find_key (capability_json c) ''kind'' = Some (JString (cap_kind c))"
  "find_key (capability_json c) ''persistent'' = Some (JBool (cap_persistent c))"
  "find_key (capability_json c) ''preview'' = Some (JBool (cap_preview c))"
  "find_key (capability_json c) ''orbitProgram'' = Some (JBool (cap_orbit c))"
  "job_list (capability_json c) ''metrics'' = elements (array_of (cap_metrics c))"
  "job_list (capability_json c) ''engines'' = elements (array_of (cap_engines c))"
  "job_list (capability_json c) ''scalars'' = elements (array_of (cap_scalars c))"
  by (simp_all add: capability_json_def job_list_def)

lemma accepted_cases:
  assumes "validate_orbit_payload H what kind payload persistent = Inr r"
  obtains c where "find_capability kind = Some c" "if persistent then cap_persistent c else cap_preview c"
    "validate_capability_payload kind payload c = Inr ()" "validate_color_payload what kind payload = Inr ()"
    "r = None \<or> cap_orbit c"
  using assms
  by (auto simp: validate_orbit_payload_def fsd_split split: option.splits if_splits)

text \<open>
  C14: What validation accepts is what the capabilities document announces. The document has an entry of the
  request's kind with the flag of the interface it came through, every metric, engine and scalar type that the
  request names is in the entry's list, and an Orbit Program is accepted only where the entry says so.
\<close>
theorem accepted_request_advertised:
  assumes "validate_orbit_payload H what kind payload persistent = Inr r"
  shows "\<exists>job\<in>set (compute_jobs (compute_capabilities_json renderer hardware legacy)).
    find_key job ''kind'' = Some (JString kind)
    \<and> find_key job (if persistent then ''persistent'' else ''preview'') = Some (JBool True)
    \<and> (\<forall>v\<in>set_option (given payload ''metric''). v \<in> set (job_list job ''metrics''))
    \<and> (\<forall>v\<in>set_option (given payload ''engine''). v \<in> set (job_list job ''engines''))
    \<and> (\<forall>v\<in>set_option (given payload ''scalarType''). v \<in> set (job_list job ''scalars''))
    \<and> (r \<noteq> None \<longrightarrow> find_key job ''orbitProgram'' = Some (JBool True))"
proof -
  from assms obtain c where c: "find_capability kind = Some c" "if persistent then cap_persistent c else cap_preview c"
    and v: "validate_capability_payload kind payload c = Inr ()" "validate_color_payload what kind payload = Inr ()"
    and o: "r = None \<or> cap_orbit c"
    by (rule accepted_cases)
  from find_capability_Some [OF c(1)] have m: "c \<in> set compute_capabilities" and k: "cap_kind c = kind" by simp_all
  from v(1) have a: "validate_advertised_value kind payload ''metric'' (cap_metrics c) = Inr ()"
      "validate_advertised_value kind payload ''engine'' (cap_engines c) = Inr ()"
      "validate_advertised_value kind payload ''scalarType'' (cap_scalars c) = Inr ()"
    by (simp_all add: validate_capability_payload_def fsd_split)
  have n: "\<not> comma_separated_contains (cap_metrics c) []" "\<not> comma_separated_contains (cap_engines c) []"
      "\<not> comma_separated_contains (cap_scalars c) []"
    using no_empty_names m by auto
  show ?thesis
  proof (intro bexI [of _ "capability_json c"] conjI)
    show "capability_json c \<in> set (compute_jobs (compute_capabilities_json renderer hardware legacy))"
      using m by (simp add: compute_jobs_doc)
  qed (use c(2) k o advertised_listed [OF a(1) n(1)] advertised_listed [OF a(2) n(2)] advertised_listed [OF a(3) n(3)]
      in \<open>auto simp: capability_json_find\<close>)
qed

definition sample_map_request :: json where
  "sample_map_request = obj [(''variant'', JString ''boat''), (''engine'', JString ''hybrid''), (''metric'', JString ''envelope'')]"

theorem accepted_request_advertised_witness:
  "validate_orbit_payload id (\<lambda>_. []) ''map_image'' sample_map_request True = Inr None
   \<and> (\<exists>job\<in>set (compute_jobs (compute_capabilities_json ''dev'' JNull False)).
        find_key job ''kind'' = Some (JString ''map_image'') \<and> JString ''hybrid'' \<in> set (job_list job ''engines''))"
proof
  show v: "validate_orbit_payload id (\<lambda>_. []) ''map_image'' sample_map_request True = Inr None" by code_simp
  have "given sample_map_request ''engine'' = Some (JString ''hybrid'')" by code_simp
  then show "\<exists>job\<in>set (compute_jobs (compute_capabilities_json ''dev'' JNull False)).
        find_key job ''kind'' = Some (JString ''map_image'') \<and> JString ''hybrid'' \<in> set (job_list job ''engines'')"
    using accepted_request_advertised [OF v, of "''dev''" JNull False] by fastforce
qed

section \<open>Variants\<close>

lemma variant_lists:
  "set (comma_separated_array builtin_variant_list) = variant_name ` {v. v \<noteq> Custom}"
  "set (comma_separated_array axis_variant_list) = variant_name ` {v. v \<le> Ship}"
proof -
  have U: "{v. v \<noteq> Custom} = {Mandelbrot, Tri, Boat, Duck, Bell, Fish, Vase, Bird, Mask, Ship, SinZ, CosZ, ExpZ, SinhZ, CoshZ, TanZ}"
  proof (rule set_eqI)
    fix v show "v \<in> {v. v \<noteq> Custom} \<longleftrightarrow> v \<in> {Mandelbrot, Tri, Boat, Duck, Bell, Fish, Vase, Bird, Mask, Ship, SinZ, CosZ, ExpZ, SinhZ, CoshZ, TanZ}"
      by (cases v) simp_all
  qed
  have S: "{v. v \<le> Ship} = {Mandelbrot, Tri, Boat, Duck, Bell, Fish, Vase, Bird, Mask, Ship}"
  proof (rule set_eqI)
    fix v show "v \<in> {v. v \<le> Ship} \<longleftrightarrow> v \<in> {Mandelbrot, Tri, Boat, Duck, Bell, Fish, Vase, Bird, Mask, Ship}"
      by (cases v) (simp_all add: less_eq_variant_def)
  qed
  have "comma_separated_array builtin_variant_list = map variant_name
      [Mandelbrot, Tri, Boat, Duck, Bell, Fish, Vase, Bird, Mask, Ship, SinZ, CosZ, ExpZ, SinhZ, CoshZ, TanZ]" by code_simp
  then show "set (comma_separated_array builtin_variant_list) = variant_name ` {v. v \<noteq> Custom}" by (simp add: U)
  have "comma_separated_array axis_variant_list = map variant_name
      [Mandelbrot, Tri, Boat, Duck, Bell, Fish, Vase, Bird, Mask, Ship]" by code_simp
  then show "set (comma_separated_array axis_variant_list) = variant_name ` {v. v \<le> Ship}" by (simp add: S)
qed

lemma variant_name_inj: "variant_name v = variant_name w \<longleftrightarrow> v = w"
  by (cases v; cases w) simp_all

text \<open>
  The variants that are accepted are the announced ones, by any of their names: a value passes exactly when it
  is a string whose first NUL-terminated part names a variant whose canonical name is in the document's list, the
  list of axis variants where a transition needs a lift.
\<close>
theorem variant_accepted_iff_listed:
  "validate_builtin_variant_value kind j field axis_only = Inr ()
   \<longleftrightarrow> (\<exists>n v. j = JString n \<and> variant_from_name (c_str n) = Some v
        \<and> variant_name v \<in> set (comma_separated_array (if axis_only then axis_variant_list else builtin_variant_list)))"
proof -
  have "Ship < Custom" by (simp add: less_variant_def)
  then have "v \<le> Ship \<Longrightarrow> v \<noteq> Custom" for v :: variant by auto
  then show ?thesis
    by (auto simp: validate_builtin_variant_value_def Let_def fsd_split variant_lists variant_name_inj image_iff
        simp del: variant_name.simps split: json.splits option.splits)
qed

section \<open>Refusals\<close>

text \<open>An \<^verbatim>\<open>HttpError\<close> of the client's making.\<close>

definition client_error :: "api_failure \<Rightarrow> bool" where
  "client_error e = (case e of Api_Error st _ \<Rightarrow> st = 400 \<or> st = 422 | Api_Exn _ \<Rightarrow> False)"

definition refuses :: "'a api \<Rightarrow> bool" where
  "refuses r \<longleftrightarrow> (\<forall>e. r = Inl e \<longrightarrow> client_error e)"

lemma client_error_simps [simp]:
  "client_error (bad_request a b c)" "client_error (unsupported a b)" "client_error (Api_Error 422 j)"
  "\<not> client_error (Api_Exn x)"
  by (simp_all add: client_error_def bad_request_def unsupported_def)

lemma refuses_simps [simp]:
  "refuses (Inr x)" "refuses (Inl e) \<longleftrightarrow> client_error e"
  by (simp_all add: refuses_def)

lemma refuses_bind [simp]: "refuses (api_bind m f) \<longleftrightarrow> refuses m \<and> (\<forall>x. m = Inr x \<longrightarrow> refuses (f x))"
  by (cases m) (auto simp: refuses_def)

lemma refuses_if [simp]: "refuses (refuse_if b e k) \<longleftrightarrow> (if b then client_error e else refuses k)"
  by (auto simp: refuses_def refuse_if_def)

lemma refuses_all: "(\<And>x. refuses (f x)) \<Longrightarrow> refuses (check_all f xs)"
  by (induction xs) auto

lemma refuses_advertised [simp]: "refuses (validate_advertised_value kind payload field allowed)"
  by (auto simp: validate_advertised_value_def require_string_field_def given_def split: option.splits json.splits)

lemma refuses_variant [simp]: "refuses (validate_builtin_variant_value kind j field ax)"
  by (auto simp: validate_builtin_variant_value_def Let_def split: json.splits)

lemma refuses_leg [simp]: "refuses (validate_axis_leg kind leg)"
  by (simp add: validate_axis_leg_def split: option.splits)

lemma refuses_axis_list: "(\<And>x. refuses (f x)) \<Longrightarrow> refuses (validate_axis_list kind payload field f)"
  by (auto simp: validate_axis_list_def refuses_all split: option.splits)

lemma refuses_axis [simp]: "refuses (validate_axis_variants kind payload)"
  by (simp add: validate_axis_variants_def refuses_axis_list split: option.splits)

lemma refuses_weight [simp]: "refuses (validate_leg_weight kind leg)"
  by (auto simp: validate_leg_weight_def dest!: get_double_number split: option.splits)

lemma refuses_transition [simp]: "refuses (validate_transition_image_payload kind payload)"
  by (auto simp: validate_transition_image_payload_def get_int_def refuses_all split: option.splits json.splits)

lemma refuses_capability [simp]: "refuses (validate_capability_payload kind payload c)"
  by (auto simp: validate_capability_payload_def split: option.splits)

lemma reject_unknown_defined [simp]: "reject_unknown m allowed name \<noteq> Inl Undefined"
  by (induction m allowed name rule: reject_unknown.induct) auto

lemma parse_color_defined [simp]: "parse_color j field \<noteq> Inl Undefined"
  by (auto simp: parse_color_def split: json.splits option.splits)

lemma get_defined [simp]:
  "get_string j \<noteq> Inl Undefined" "get_bool j \<noteq> Inl Undefined" "get_double j \<noteq> Inl Undefined"
  by (auto dest: get_errors)

lemma value_defined [simp]:
  "(\<And>v. get v \<noteq> Inl Undefined) \<Longrightarrow> json_value get j k d \<noteq> Inl Undefined"
  by (auto simp: json_value_def split: option.splits)

lemma parse_stop_defined [simp]: "parse_stop j x \<noteq> Inl Undefined"
  by (auto simp: parse_stop_def fsd_split split: option.splits)

lemma parse_stops_defined [simp]: "parse_stops js x \<noteq> Inl Undefined"
  by (induction js x rule: parse_stops.induct) (auto simp: fsd_split)

lemma parse_stop_list_defined [simp]: "parse_stop_list j \<noteq> Inl Undefined"
  by (auto simp: parse_stop_list_def fsd_split split: option.splits)

lemma wrap_of_defined [simp]: "wrap_of n \<noteq> Inl Undefined"
  by (simp add: wrap_of_def)

lemma color_or_defined [simp]: "color_or d j k f \<noteq> Inl Undefined"
  by (simp add: color_or_def split: option.splits)

lemma color_program_undefined:
  assumes "parse_color_program_json j = Inl Undefined"
  shows "\<exists>v. find_key j ''schemaVersion'' = Some v \<and> get_int 32 v = Inl Undefined"
proof -
  from assms have "json_value (get_int 32) j ''schemaVersion'' 0 = Inl Undefined"
    by (auto simp: parse_color_program_json_def fsd_split)
  then show ?thesis by (auto simp: json_value_def split: if_splits option.splits)
qed

lemma refuses_catch:
  "catch_std h r = Inl e \<Longrightarrow> (\<And>x. client_error (h x)) \<Longrightarrow> client_error e \<or> e = Api_Exn Undefined \<and> r = Inl Undefined"
  by (auto simp: catch_std_def split: sum.splits if_splits)

lemma refuses_dest: "refuses r \<Longrightarrow> r = Inl e \<Longrightarrow> client_error e"
  by (simp add: refuses_def)

lemma color_payload_refusal:
  assumes obj: "is_object payload" and e: "validate_color_payload what kind payload = Inl e"
  shows "client_error e \<or> e = Api_Exn Undefined
    \<and> (\<exists>p. given payload ''colorProgram'' = Some p \<and> parse_color_program_json p = Inl Undefined)"
proof -
  have mode: "case find_key payload ''colorMode'' of None \<Rightarrow> True | Some (JString _) \<Rightarrow> True | Some _ \<Rightarrow> False
      \<Longrightarrow> \<exists>m. json_value get_string payload ''colorMode'' ''direct'' = Inr m"
    using obj by (auto simp: json_value_def get_string_def split: option.splits json.splits)
  show ?thesis
    using e mode
    by (auto simp: validate_color_payload_def fsd_split split: option.splits json.splits
        dest!: refuses_catch)
qed

text \<open>
  A request that validation refuses is refused with an \<^verbatim>\<open>HttpError\<close> of status 400 or 422, with two exceptions.
  A \<^verbatim>\<open>null\<close> metric beside an Orbit Program leaves the route as nlohmann's type error, and a colour program with a
  \<^verbatim>\<open>schemaVersion\<close> that does not fit an \<^verbatim>\<open>int\<close> is undefined behaviour.
\<close>
theorem refusals_are_client_errors:
  assumes obj: "is_object payload" and e: "validate_orbit_payload H what kind payload persistent = Inl e"
  shows "client_error e
    \<or> e = Api_Exn TypeError \<and> find_key payload ''metric'' = Some JNull \<and> given payload ''orbitProgram'' \<noteq> None
    \<or> e = Api_Exn Undefined \<and> (\<exists>p v. given payload ''colorProgram'' = Some p \<and> find_key p ''schemaVersion'' = Some v
        \<and> get_int 32 v = Inl Undefined)"
proof -
  have defined: "parse_orbit_program_json H j \<noteq> Inl Undefined" for j
  proof -
    have "reports (parse_orbit_program_json H j)"
      by (auto simp: parse_orbit_program_json_def intro!: reports_bind reports_node)
    then show ?thesis by (auto simp: reports_def reported_def)
  qed
  have orbit_client: "client_error (orbit_failure what x)" for x
    by (simp add: orbit_failure_def split: exn.splits)
  have null_metric: "find_key payload ''metric'' = Some JNull"
    if "json_value get_string payload ''metric'' ''escape'' = Inl x"
      "validate_capability_payload kind payload c = Inr ()" for x c
    using that obj
    by (auto simp: json_value_def validate_capability_payload_def advertised_ok_iff given_def get_string_def fsd_split
        split: option.splits json.splits)
  show ?thesis
  proof (cases "find_capability kind")
    case None
    with e have "client_error e" by (auto simp: validate_orbit_payload_def)
    then show ?thesis by simp
  next
    case (Some c)
    consider (client) "client_error e" | (color) "validate_color_payload what kind payload = Inl e"
      | (metric) x where "validate_capability_payload kind payload c = Inr ()" "given payload ''orbitProgram'' \<noteq> None"
          "json_value get_string payload ''metric'' ''escape'' = Inl x" "e = Api_Exn x"
      | (orbit) p where "catch_std (orbit_failure what) (parse_orbit_program_json H p) = Inl e"
      using e Some refuses_dest [OF refuses_capability]
      by (auto simp: validate_orbit_payload_def fsd_split split: option.splits if_splits)
    then show ?thesis
    proof cases
      case color
      from color_payload_refusal [OF obj color] show ?thesis by (auto dest: color_program_undefined)
    next
      case (metric x)
      then have "x = TypeError" using json_value_error [OF metric(3)] by auto
      with metric null_metric [OF metric(3,1)] show ?thesis by simp
    next
      case (orbit p)
      from refuses_catch [OF this orbit_client] defined show ?thesis by blast
    qed simp
  qed
qed

definition null_metric_request :: json where
  "null_metric_request = obj [(''metric'', JNull), (''orbitProgram'', JObject [])]"

theorem refusals_are_client_errors_witness:
  "validate_orbit_payload id (\<lambda>_. []) ''map_image'' null_metric_request True = Inl (Api_Exn TypeError)
   \<and> find_key null_metric_request ''metric'' = Some JNull \<and> is_object null_metric_request"
proof -
  have e: "validate_orbit_payload id (\<lambda>_. []) ''map_image'' null_metric_request True = Inl (Api_Exn TypeError)"
    by code_simp
  have o: "is_object null_metric_request" by (simp add: null_metric_request_def)
  from refusals_are_client_errors [OF o e] e o show ?thesis by simp
qed

section \<open>Where the document and the code part\<close>

text \<open>
  The document announces Orbit Programs for axis transitions (\<^verbatim>\<open>orbitPrograms.axisTransition\<close>), yet no request with an
  Orbit Program and a transition angle is accepted.
\<close>

lemma axis_orbit_announced:
  "find_key (the (find_key (compute_capabilities_json r hw leg) ''orbitPrograms'')) ''axisTransition'' = Some (JBool True)"
  by (simp add: compute_capabilities_json_def flags_def)

lemma axis_orbit_refused:
  "validate_orbit_payload H what kind payload persistent = Inr (Some p)
   \<Longrightarrow> \<not> json_contains payload ''transitionTheta'' \<and> \<not> json_contains payload theta_field
     \<and> \<not> json_contains payload ''transitionVariants''"
  by (auto simp: validate_orbit_payload_def fsd_split split: option.splits if_splits)

text \<open>The angle is converted to 64 bits before it is compared: \<open>2 ^ 64 - 1\<close> passes as \<open>- 1\<close>.\<close>

definition wrapped_angle_request :: json where
  "wrapped_angle_request = obj [(theta_field, JInt (2 ^ 64 - 1)), (''transitionFrom'', JString ''mandelbrot''),
     (''transitionTo'', JString ''burning_ship'')]"

lemma wrapped_angle_accepted:
  "validate_orbit_payload id (\<lambda>_. []) ''transition_image'' wrapped_angle_request True = Inr None"
  by code_simp

end
