(* ===== verification/RunRoutes.thy ===== *)
theory RunRoutes
  imports ComputeApi JobRunner Resource UrlCodec
begin

text \<open>
  The routes over the runs (\<^verbatim>\<open>api/routes_runs.cpp\<close>): the list of runs, the status of one, the active tasks and the
  cancellation. Errors are those of the API; \<open>reader\<close> is nlohmann's parser.
\<close>

section \<open>Parameters of a query\<close>

text \<open>\<^verbatim>\<open>std::stoi\<close>; \<open>None\<close> is either of its exceptions.\<close>

definition stoi :: "string \<Rightarrow> int option" where
  "stoi v =
    (let t = dropWhile is_space v;
         negative = (t \<noteq> [] \<and> hd t = CHR ''-'');
         ds = takeWhile is_digit (if t \<noteq> [] \<and> (hd t = CHR ''-'' \<or> hd t = CHR ''+'') then tl t else t);
         n = foldl (\<lambda>a d. 10 * a + int (digit_val d)) 0 ds;
         i = (if negative then - n else n)
     in if ds = [] \<or> i < - (2 ^ 31) \<or> 2 ^ 31 \<le> i then None else Some i)"

definition int_param :: "string \<Rightarrow> string \<Rightarrow> int \<Rightarrow> int" where
  "int_param query key dflt =
    (let raw = get_query_param query key
     in if raw = [] then dflt else case stoi raw of None \<Rightarrow> dflt | Some i \<Rightarrow> i)"

section \<open>The routes\<close>

text \<open>\<^verbatim>\<open>openDb\<close>: the file that the runner writes.\<close>

definition opened :: "runner \<Rightarrow> db res" where
  "opened s = (case jr_db s of None \<Rightarrow> Inl (RuntimeError ''unable to open database file'') | Some d \<Rightarrow> Inr d)"

definition run_item :: "active_task list \<Rightarrow> run_row \<Rightarrow> json" where
  "run_item tasks r =
    (let t = find (\<lambda>t. at_run_id t = rr_id r) tasks;
         flag = (\<lambda>f. JBool (case t of None \<Rightarrow> False | Some t \<Rightarrow> f t))
     in obj [(''id'', JString (rr_id r)), (''module'', JString (rr_module r)), (''status'', JString (rr_status r)),
          (''startedAt'', JInt (rr_started r)), (''finishedAt'', JInt (rr_finished r)),
          (''outputDir'', JString (rr_output_dir r)),
          (''cancelable'', flag at_cancelable), (''cancelRequested'', flag at_cancel_requested)])"

definition page_limit :: "string \<Rightarrow> int" where
  "page_limit query = (let limit = int_param query ''limit'' 50 in if limit < 1 \<or> limit > 200 then 200 else limit)"

definition page_offset :: "string \<Rightarrow> int" where
  "page_offset query = (let offset = int_param query ''offset'' 0 in if offset < 0 then 0 else offset)"

definition runs_list_route :: "call \<Rightarrow> string \<Rightarrow> runner \<Rightarrow> json res" where
  "runs_list_route ca query s =
    (let module_filter = url_decode (get_query_param query ''module'');
         status_filter = url_decode (get_query_param query ''status'')
     in res_bind (opened s) (\<lambda>d.
        res_bind (list_runs (ca_sql ca) (page_limit query) (page_offset query) module_filter status_filter d) (\<lambda>rows.
        res_bind (count_runs (ca_sql ca) module_filter status_filter d) (\<lambda>count.
        res_bind (distinct_modules (ca_sql ca) d) (\<lambda>modules.
        Inr (obj [(''items'', JArray (map (run_item (active_tasks ca s)) rows)), (''totalCount'', JInt count),
          (''modules'', JArray (map JString modules))]))))))"

definition path_filename :: "string \<Rightarrow> string" where
  "path_filename p = rev (takeWhile (\<lambda>c. c \<noteq> CHR ''/'') (rev p))"

definition artifact_item :: "string \<Rightarrow> artifact_row \<Rightarrow> json" where
  "artifact_item run a =
    (let name = path_filename (ar_path a);
         artifact_id = run @ '':'' @ name
     in obj [(''artifactId'', JString artifact_id), (''name'', JString name), (''kind'', JString (ar_kind a)),
          (''downloadUrl'', JString (''/api/artifacts/download?artifactId='' @ artifact_id)),
          (''contentUrl'', JString (''/api/artifacts/content?artifactId='' @ artifact_id)),
          (''localPath'', JString (ar_path a))])"

definition run_status_route :: "(string \<Rightarrow> string + json) \<Rightarrow> call \<Rightarrow> string \<Rightarrow> runner \<Rightarrow> json res" where
  "run_status_route reader ca query s =
    (let run = get_query_param query ''runId''
     in throw_if (run = []) (RuntimeError ''runId required'')
        (res_bind (opened s) (\<lambda>d.
         res_bind (get_run_row (ca_sql ca) run d) (\<lambda>row.
         let text1 = get_progress ca run s;
             progress = (if text1 = [] then obj [] else case reader text1 of Inr j \<Rightarrow> j | Inl _ \<Rightarrow> obj [])
         in res_bind (list_artifacts (ca_sql ca) run d) (\<lambda>artifacts.
            Inr (obj [(''id'', JString (rr_id row)), (''module'', JString (rr_module row)), (''status'', JString (rr_status row)),
              (''startedAt'', JInt (rr_started row)), (''finishedAt'', JInt (rr_finished row)),
              (''outputDir'', JString (rr_output_dir row)),
              (''cancelRequested'', JBool ((rr_status row = ''queued'' \<or> rr_status row = ''running'') \<and> is_cancel_requested run s)),
              (''progress'', progress), (''artifacts'', JArray (map (artifact_item run) artifacts))]))))))"

text \<open>The progress of a task is shown with the members that the interface lists.\<close>

definition task_item :: "(string \<Rightarrow> string + json) \<Rightarrow> active_task \<Rightarrow> json res" where
  "task_item reader t =
    (let progress = (case reader (if at_progress t = [] then ''{}'' else at_progress t) of Inr j \<Rightarrow> j | Inl _ \<Rightarrow> obj [])
     in res_bind (json_value get_string progress ''stage'' []) (\<lambda>stage.
        res_bind (json_value get_string progress ''finalFrameEngine'' []) (\<lambda>e.
        res_bind (json_value get_string progress ''engine'' e) (\<lambda>engine.
        res_bind (json_value get_string progress ''finalFrameScalar'' []) (\<lambda>sc.
        res_bind (json_value get_string progress ''scalar'' sc) (\<lambda>scalar.
        res_bind (json_value get_string progress ''taskType'' (at_task_type t)) (\<lambda>task.
        Inr (obj [(''runId'', JString (at_run_id t)), (''taskType'', JString task), (''status'', JString (at_status t)),
          (''stage'', JString stage), (''engine'', JString engine), (''scalar'', JString scalar),
          (''startedAt'', JInt (at_started t)), (''elapsedMs'', JInt (at_elapsed t)),
          (''cancelable'', JBool (at_cancelable t)), (''cancelRequested'', JBool (at_cancel_requested t)),
          (''progress'', progress)]))))))))"

definition lock_item :: "lock_snapshot \<Rightarrow> json" where
  "lock_item l =
    obj [(''name'', JString (ls_name l)), (''active'', JInt (ls_active l)), (''limit'', JInt (ls_limit l)),
      (''busy'', JBool (ls_active l > 0)), (''activeRunId'', JString (ls_run l)), (''taskType'', JString (ls_task l))]"

text \<open>What a loop over a JSON value visits.\<close>

definition iterated :: "json \<Rightarrow> json list" where
  "iterated j = (case j of JArray xs \<Rightarrow> xs | JObject m \<Rightarrow> map snd m | JNull \<Rightarrow> [] | _ \<Rightarrow> [j])"

fun res_map :: "('a \<Rightarrow> 'b res) \<Rightarrow> 'a list \<Rightarrow> 'b list res" where
  "res_map f [] = Inr []"
| "res_map f (x # xs) = res_bind (f x) (\<lambda>y. res_bind (res_map f xs) (\<lambda>ys. Inr (y # ys)))"

definition active_tasks_route :: "(string \<Rightarrow> string + json) \<Rightarrow> call \<Rightarrow> resource_table \<Rightarrow> runner \<Rightarrow> json res" where
  "active_tasks_route reader ca table s =
    res_bind (res_map (task_item reader) (active_tasks ca s)) (\<lambda>items.
    Inr (obj [(''items'', JArray items), (''resourceLocks'', JArray (map lock_item (snapshot table)))]))"

text \<open>\<^verbatim>\<open>cancelRunRoute\<close> with the run's identifier, and with a body that names it.\<close>

definition cancel_answer :: "string \<Rightarrow> cancel_result \<Rightarrow> json" where
  "cancel_answer run result =
    obj [(''runId'', JString run),
      (''status'', JString (if cq_requested result then ''cancel_requested'' else cq_status result)),
      (''accepted'', JBool (cq_accepted result)), (''cancelRequested'', JBool (cq_requested result))]"

definition cancel_run_route :: "string \<Rightarrow> runner \<Rightarrow> json api \<times> runner" where
  "cancel_run_route run s =
    (case request_cancel run s of
       (Inl e, s) \<Rightarrow> (Inl (Api_Exn e), s)
     | (Inr result, s) \<Rightarrow>
         (if (cq_status result = ''queued'' \<or> cq_status result = ''running'') \<and> \<not> cq_cancelable result
          then Inl (Api_Error 409 (obj [(''error'', JString ''run is not cancelable''), (''runId'', JString run),
            (''status'', JString (cq_status result))]))
          else Inr (cancel_answer run result), s))"

definition cancel_run_body_route :: "json \<Rightarrow> runner \<Rightarrow> json api \<times> runner" where
  "cancel_run_body_route j s =
    (case json_value get_string j ''runId'' [] of
       Inl e \<Rightarrow> (Inl (Api_Exn e), s)
     | Inr run \<Rightarrow>
         if run = [] then (Inl (Api_Exn (RuntimeError ''runId required'')), s) else cancel_run_route run s)"

end
