(* ===== verification/ComputeRuns.thy ===== *)
theory ComputeRuns
  imports RunRoutes EngineSelect
begin

text \<open>
  The runs of the Compute API (\<^verbatim>\<open>api/routes_compute_v1.cpp\<close>): starting a run at most once for an idempotency key,
  its status, its cancellation and the report on the hardware that computed it. The state is the job runner with
  its store. The routes that start the work are those of the HTTP server's \<^verbatim>\<open>backend\<close>, an argument.
\<close>

section \<open>Errors of the API as failures of a route\<close>

definition failure_of :: "'s backend \<Rightarrow> api_failure \<Rightarrow> failure" where
  "failure_of B e =
    (case e of
       Api_Error st j \<Rightarrow> Http_Error st (be_dump B j)
     | Api_Exn x \<Rightarrow> if x = Undefined then Lost else Std_Error (be_what B x))"

definition from_api :: "'s backend \<Rightarrow> 'a api \<Rightarrow> ('s, 'a) act" where
  "from_api B r = (\<lambda>s. (case r of Inl e \<Rightarrow> Inl (failure_of B e) | Inr x \<Rightarrow> Inr x, s))"

definition adapter_error :: "string \<Rightarrow> string \<Rightarrow> api_failure" where
  "adapter_error kind message =
    Api_Error 500 (compute_error ''COMPUTE_ADAPTER_ERROR'' message (obj [(''kind'', JString kind)]))"

definition parse_legacy_response :: "'s backend \<Rightarrow> string \<Rightarrow> string \<Rightarrow> json api" where
  "parse_legacy_response B body kind =
    (case be_parse B body of
       Inr j \<Rightarrow> Inr j
     | Inl _ \<Rightarrow> Inl (adapter_error kind ''legacy route returned invalid JSON''))"

definition normalized_run_response :: "string \<Rightarrow> json \<Rightarrow> json api" where
  "normalized_run_response kind legacy =
    api_bind (api_of (json_value get_string legacy ''runId'' [])) (\<lambda>run.
    refuse_if (run = []) (adapter_error kind ''persistent route did not return runId'')
    (api_bind (api_of (json_value get_string legacy ''status'' ''completed'')) (\<lambda>st.
     let data = [(''computeRunId'', JString run), (''kind'', JString kind), (''status'', JString st), (''legacyResult'', legacy)]
          @ (case find_key legacy ''effective'' of None \<Rightarrow> [] | Some e \<Rightarrow> [(''effective'', e)])
     in Inr (obj [(''schemaVersion'', JInt 1), (''data'', obj data)]))))"

section \<open>Starting the work\<close>

text \<open>The route of each kind, and the members it adds to the payload.\<close>

definition run_targets :: "(string \<times> (string \<times> json) list \<times> legacy_endpoint) list" where
  "run_targets =
   (let background = [(''background'', JBool True)];
        still = [(''taskType'', JString ''still_export''), (''background'', JBool True)]
    in [(''map_image'', still, Map_Render), (''transition_image'', still, Map_Render),
        (''ln_map'', background, Ln_Map_Render), (''zoom_video'', background, Video_Export),
        (''legacy_zoom_video'', background, Zoom_Video), (''transition_video'', background, Transition_Video_Export),
        (''hs_mesh'', background, Hs_Mesh), (''hs_field'', background, Hs_Field),
        (''transition_mesh'', background, Transition_Mesh), (''transition_voxels'', background, Transition_Voxels),
        (''special_points_enumerate'', background, Special_Points_Enumerate),
        (''special_points_search'', [], Special_Points_Search), (''benchmark'', background, Benchmark)])"

definition run_payload :: "'s backend \<Rightarrow> json \<Rightarrow> string \<Rightarrow> ('s, json) act" where
  "run_payload B payload kind =
    (case map_of run_targets kind of
       None \<Rightarrow> from_api B (Inl (unsupported kind ''unknown persistent Compute job kind''))
     | Some (extra, endpoint) \<Rightarrow>
         act_bind (from_api B (api_of (put_all extra payload))) (\<lambda>payload.
         act_bind (be_route B (Legacy endpoint (be_dump B payload))) (\<lambda>r.
         from_api B (parse_legacy_response B (rp_body r) kind))))"

section \<open>Idempotent creation\<close>

text \<open>What the row of a key says about a request with this hash; a row of an older version has no hash.\<close>

datatype replay = Run_Now | Replay string | Key_Conflict

definition replay_decision :: "(string \<times> string) option \<Rightarrow> string \<Rightarrow> replay" where
  "replay_decision cached request_hash =
    (case cached of
       None \<Rightarrow> Run_Now
     | Some (h, response) \<Rightarrow> if h \<noteq> [] \<and> h \<noteq> request_hash then Key_Conflict else Replay response)"

definition conflict_error :: "string \<Rightarrow> api_failure" where
  "conflict_error key =
    Api_Error 409 (compute_error ''IDEMPOTENCY_CONFLICT'' ''idempotencyKey was already used for a different Compute request''
      (obj [(''idempotencyKey'', JString key)]))"

definition request_hash_of :: "(string \<Rightarrow> string) \<Rightarrow> 's backend \<Rightarrow> string \<Rightarrow> json \<Rightarrow> string" where
  "request_hash_of H B kind payload = H (kind @ [CHR 0x0A] @ be_dump B payload)"

text \<open>A statement on the store of the runner; \<^verbatim>\<open>openDb\<close> opens the file that the runner writes.\<close>

definition on_db :: "runner backend \<Rightarrow> (db \<Rightarrow> ('a \<times> db) res) \<Rightarrow> (runner, 'a) act" where
  "on_db B f = (\<lambda>s.
    case jr_db s of
      None \<Rightarrow> (Inl (Std_Error ''unable to open database file''), s)
    | Some d \<Rightarrow>
        (case f d of
           Inl e \<Rightarrow> (Inl (failure_of B (Api_Exn e)), s)
         | Inr (x, d) \<Rightarrow> (Inr x, s\<lparr>jr_db := Some d\<rparr>)))"

definition read_db :: "runner backend \<Rightarrow> (db \<Rightarrow> 'a res) \<Rightarrow> (runner, 'a) act" where
  "read_db B f = on_db B (\<lambda>d. res_bind (f d) (\<lambda>x. Inr (x, d)))"

text \<open>The part under the lock of the key.\<close>

definition create_locked ::
    "(string \<Rightarrow> string) \<Rightarrow> runner backend \<Rightarrow> call \<Rightarrow> string \<Rightarrow> string \<Rightarrow> json \<Rightarrow> (runner, string) act" where
  "create_locked H B ca kind key payload =
    (let request_hash = request_hash_of H B kind payload in
     act_bind (read_db B (get_compute_request_response (ca_sql ca) key)) (\<lambda>cached.
     case replay_decision cached request_hash of
       Key_Conflict \<Rightarrow> from_api B (Inl (conflict_error key))
     | Replay response \<Rightarrow> act_return response
     | Run_Now \<Rightarrow>
         act_bind (run_payload B payload kind) (\<lambda>legacy.
         act_bind (from_api B (normalized_run_response kind legacy)) (\<lambda>j.
         let response = be_dump B j in
         act_bind (on_db B (\<lambda>d. res_bind (upsert_compute_request_response (ca_sql ca) key request_hash response (ca_now ca) d)
           (\<lambda>d. Inr ((), d)))) (\<lambda>_.
         act_return response)))))"

definition compute_create_run ::
    "(string \<Rightarrow> string) \<Rightarrow> runner backend \<Rightarrow> call \<Rightarrow> string \<Rightarrow> (runner, string) act" where
  "compute_create_run H B ca body =
    act_bind (from_api B (parse_envelope True (parse_json_body B body))) (\<lambda>(kind, key, payload).
    act_bind (from_api B (validate_orbit_payload H (be_what B) kind payload True)) (\<lambda>_.
    create_locked H B ca kind key payload))"

definition compute_validate :: "(string \<Rightarrow> string) \<Rightarrow> 's backend \<Rightarrow> string \<Rightarrow> bool \<Rightarrow> ('s, unit) act" where
  "compute_validate H B body persistent =
    act_bind (from_api B (parse_envelope False (parse_json_body B body))) (\<lambda>(kind, _, payload).
    act_bind (from_api B (validate_orbit_payload H (be_what B) kind payload persistent)) (\<lambda>_. act_return ()))"

text \<open>\<^verbatim>\<open>computeV1PreviewJsonRoute\<close>\<close>

definition preview_targets :: "(string \<times> legacy_endpoint) list" where
  "preview_targets =
   [(''raw_field'', Map_Field), (''video_preview'', Video_Preview), (''transition_video_preview'', Transition_Video_Preview),
    (''special_points_auto'', Special_Points_Auto), (''special_points_seed'', Special_Points_Seed),
    (''special_points_snap'', Special_Points_Snap)]"

definition compute_preview_json :: "(string \<Rightarrow> string) \<Rightarrow> 's backend \<Rightarrow> string \<Rightarrow> ('s, string) act" where
  "compute_preview_json H B body =
    act_bind (from_api B (parse_envelope False (parse_json_body B body))) (\<lambda>(kind, _, payload).
    act_bind (from_api B (validate_orbit_payload H (be_what B) kind payload False)) (\<lambda>_.
    case map_of preview_targets kind of
      None \<Rightarrow> from_api B (Inl (unsupported kind
        (if kind = ''map_image'' \<or> kind = ''transition_image'' then ''static image preview uses the binary HTTP adapter''
         else ''unknown preview Compute kind'')))
    | Some endpoint \<Rightarrow>
        act_bind (be_route B (Legacy endpoint (be_dump B payload))) (\<lambda>r.
        act_bind (from_api B (parse_legacy_response B (rp_body r) kind)) (\<lambda>legacy.
        act_return (be_dump B (obj [(''schemaVersion'', JInt 1), (''data'', legacy)]))))))"

section \<open>Evidence of the hardware\<close>

definition mentions :: "string \<Rightarrow> string \<Rightarrow> bool" where
  "mentions s part \<longleftrightarrow> find_sub part s \<noteq> None"

definition hardware_class_for_engine :: "string \<Rightarrow> string" where
  "hardware_class_for_engine engine =
    (let cuda = mentions engine ''cuda'';
         cpu = (mentions engine ''openmp'' \<or> mentions engine ''avx2'' \<or> mentions engine ''avx512''
           \<or> mentions engine ''perturbation'')
     in if cuda \<and> cpu then ''hybrid'' else if cuda then ''gpu'' else if cpu then ''cpu'' else ''unknown'')"

definition requested_engine_matches :: "string \<Rightarrow> string \<Rightarrow> bool" where
  "requested_engine_matches wanted actual =
    (if wanted = [] \<or> wanted = ''auto'' \<or> actual = [] then True else mentions actual wanted)"

definition kernel_flag :: "string \<Rightarrow> json \<Rightarrow> bool res" where
  "kernel_flag st progress =
    (if st = ''completed'' then json_value get_bool progress ''kernelReported'' False else Inr False)"

text \<open>\<^verbatim>\<open>progress.value(key, progress.value(other, ""))\<close>\<close>

definition value_or :: "json \<Rightarrow> string \<Rightarrow> string \<Rightarrow> string res" where
  "value_or j key other = res_bind (json_value get_string j other []) (\<lambda>d. json_value get_string j key d)"

definition runtime_available :: "capabilities \<Rightarrow> string \<Rightarrow> bool" where
  "runtime_available caps cls =
    (if cls = ''gpu'' then rc_cuda_runtime caps
     else if cls = ''hybrid'' then rc_cuda_runtime caps \<and> rc_openmp_runtime caps
     else if cls = ''cpu'' then rc_openmp_runtime caps else False)"

definition single_path_evidence :: "capabilities \<Rightarrow> string \<Rightarrow> json \<Rightarrow> json \<Rightarrow> json res" where
  "single_path_evidence caps st progress params =
    res_bind (json_value get_string params ''engine'' ''auto'') (\<lambda>requested_engine.
    res_bind (json_value get_string params ''scalarType'' ''auto'') (\<lambda>requested_scalar.
    res_bind (value_or progress ''engine'' ''finalFrameEngine'') (\<lambda>actual_engine.
    res_bind (value_or progress ''scalar'' ''finalFrameScalar'') (\<lambda>actual_scalar.
    res_bind (kernel_flag st progress) (\<lambda>flag.
    let cls = hardware_class_for_engine actual_engine;
        kernel_reported = (flag \<and> actual_engine \<noteq> []);
        engine_fallback = (kernel_reported \<and> \<not> requested_engine_matches requested_engine actual_engine)
    in res_bind (json_value get_double progress ''elapsedMs'' (Fin 0)) (\<lambda>elapsed.
       Inr (obj [(''requestedEngine'', JString requested_engine), (''requestedScalar'', JString requested_scalar),
         (''actualEngine'', JString actual_engine), (''actualScalar'', JString actual_scalar),
         (''hardwareClass'', JString cls), (''kernelReported'', JBool kernel_reported),
         (''runtimeAvailable'', JBool (runtime_available caps cls)), (''engineFallback'', JBool engine_fallback),
         (''evidenceSource'', JString (if kernel_reported then ''kernel_completion_telemetry'' else ''not_yet_reported'')),
         (''elapsedMs'', JFloat elapsed),
         (''fallbackReason'', if engine_fallback
            then JString ''requested engine was not reported by the completed kernel'' else JNull)])))))))"

definition hardware_execution_json :: "capabilities \<Rightarrow> string \<Rightarrow> json \<Rightarrow> json \<Rightarrow> json res" where
  "hardware_execution_json caps st progress params =
    res_bind (json_value Inr progress ''details'' (obj [])) (\<lambda>details.
      case find_key details ''hardwareExecutions'' of
        Some (JArray paths) \<Rightarrow>
          res_bind (kernel_flag st progress) (\<lambda>flag.
          res_bind (json_value get_double progress ''elapsedMs'' (Fin 0)) (\<lambda>elapsed.
          Inr (obj [(''mode'', JString ''multi_path''), (''kernelReported'', JBool flag),
            (''evidenceSource'', JString ''benchmark_candidate_telemetry''), (''paths'', JArray paths),
            (''elapsedMs'', JFloat elapsed)])))
      | _ \<Rightarrow> single_path_evidence caps st progress params)"

section \<open>Status and cancellation\<close>

definition run_unknown :: "string \<Rightarrow> api_failure" where
  "run_unknown run =
    Api_Error 404 (compute_error ''COMPUTE_RUN_NOT_FOUND'' ''Compute run was not found'' (obj [(''computeRunId'', JString run)]))"

definition require_compute_run :: "string \<Rightarrow> runner \<Rightarrow> unit api" where
  "require_compute_run run s =
    (case fst (get_run run s) of
       Inr _ \<Rightarrow> Inr ()
     | Inl (RuntimeError m) \<Rightarrow>
         if starts_with ''run not found:'' m then Inl (run_unknown run) else Inl (Api_Exn (RuntimeError m))
     | Inl e \<Rightarrow> Inl (Api_Exn e))"

definition public_artifact :: "json \<Rightarrow> json res" where
  "public_artifact a =
    res_bind (json_value get_string a ''artifactId'' []) (\<lambda>i.
    res_bind (json_value get_string a ''name'' []) (\<lambda>name.
    res_bind (json_value get_string a ''kind'' []) (\<lambda>kind.
    Inr (obj [(''artifactId'', JString i), (''name'', JString name), (''kind'', JString kind)]))))"

definition status_data :: "capabilities \<Rightarrow> string \<Rightarrow> json \<Rightarrow> json \<Rightarrow> json res" where
  "status_data caps run legacy params =
    res_bind (json_value Inr legacy ''progress'' (obj [])) (\<lambda>progress.
    res_bind (json_value Inr legacy ''artifacts'' (JArray [])) (\<lambda>listed.
    res_bind (res_map public_artifact (iterated listed)) (\<lambda>artifacts.
    res_bind (json_value get_string legacy ''status'' []) (\<lambda>st.
    res_bind (json_value get_string legacy ''module'' []) (\<lambda>mdl.
    res_bind (json_value (get_int 64) legacy ''startedAt'' 0) (\<lambda>started.
    res_bind (json_value (get_int 64) legacy ''finishedAt'' 0) (\<lambda>finished.
    res_bind (json_value get_bool legacy ''cancelRequested'' False) (\<lambda>cancel.
    res_bind (hardware_execution_json caps st progress params) (\<lambda>evidence.
    Inr (obj [(''computeRunId'', JString run), (''status'', JString st), (''module'', JString mdl),
      (''startedAt'', JInt started), (''finishedAt'', JInt finished), (''cancelRequested'', JBool cancel),
      (''progress'', progress), (''hardwareExecution'', evidence), (''artifacts'', JArray artifacts)]))))))))))"

text \<open>The parameters of the run as stored, an empty object when they cannot be read.\<close>

definition stored_params :: "runner backend \<Rightarrow> call \<Rightarrow> string \<Rightarrow> runner \<Rightarrow> json" where
  "stored_params B ca run s =
    (case res_bind (opened s) (get_run_row (ca_sql ca) run) of
       Inl _ \<Rightarrow> obj []
     | Inr row \<Rightarrow> (case be_parse B (rr_params row) of Inl _ \<Rightarrow> obj [] | Inr j \<Rightarrow> j))"

definition compute_run_status :: "runner backend \<Rightarrow> call \<Rightarrow> capabilities \<Rightarrow> string \<Rightarrow> runner \<Rightarrow> json api" where
  "compute_run_status B ca caps run s =
    api_bind (require_compute_run run s) (\<lambda>_.
    api_bind (api_of (run_status_route (be_parse B) ca (''runId='' @ run) s)) (\<lambda>j.
    api_bind (parse_legacy_response B (be_dump B j) ''run_status'') (\<lambda>legacy.
    api_bind (api_of (status_data caps run legacy (stored_params B ca run s))) (\<lambda>data.
    Inr (obj [(''schemaVersion'', JInt 1), (''data'', data)])))))"

definition cancel_data :: "string \<Rightarrow> json \<Rightarrow> json res" where
  "cancel_data run legacy =
    res_bind (json_value get_string legacy ''status'' []) (\<lambda>st.
    res_bind (json_value get_bool legacy ''accepted'' False) (\<lambda>accepted.
    res_bind (json_value get_bool legacy ''cancelRequested'' False) (\<lambda>wanted.
    Inr (obj [(''computeRunId'', JString run), (''status'', JString st), (''accepted'', JBool accepted),
      (''cancelRequested'', JBool wanted)]))))"

definition compute_cancel_run :: "runner backend \<Rightarrow> string \<Rightarrow> runner \<Rightarrow> json api \<times> runner" where
  "compute_cancel_run B run s =
    (case require_compute_run run s of
       Inl e \<Rightarrow> (Inl e, s)
     | Inr _ \<Rightarrow>
         (case cancel_run_route run s of
            (Inl e, s) \<Rightarrow> (Inl e, s)
          | (Inr j, s) \<Rightarrow>
              (api_bind (parse_legacy_response B (be_dump B j) ''cancel'') (\<lambda>legacy.
               api_bind (api_of (cancel_data run legacy)) (\<lambda>data.
               Inr (obj [(''schemaVersion'', JInt 1), (''data'', data)]))), s)))"

section \<open>The routes of the HTTP server\<close>

definition json_reply :: "string \<Rightarrow> reply" where
  "json_reply body = \<lparr>rp_status = 200, rp_body = body, rp_type = ''application/json'', rp_headers = []\<rparr>"

definition dumped :: "'s backend \<Rightarrow> ('s \<Rightarrow> json api \<times> 's) \<Rightarrow> ('s, reply) act" where
  "dumped B f = (\<lambda>s. case f s of
      (Inl e, s) \<Rightarrow> (Inl (failure_of B e), s)
    | (Inr j, s) \<Rightarrow> (Inr (json_reply (be_dump B j)), s))"

definition health_json :: "string \<Rightarrow> json" where
  "health_json renderer =
    obj [(''schemaVersion'', JInt 1), (''status'', JString ''ok''), (''service'', JString ''fractal-studio-compute''),
      (''rendererVersion'', JString renderer)]"

text \<open>What the routes of the API take from the process: SHA-256, the version, the hardware and its report.\<close>

record compute_env =
  ev_hash :: "string \<Rightarrow> string"
  ev_renderer :: string
  ev_caps :: capabilities
  ev_report :: json
  ev_legacy_compiler :: bool

definition compute_api_routes :: "compute_env \<Rightarrow> call \<Rightarrow> runner backend \<Rightarrow> runner backend" where
  "compute_api_routes E ca B = B\<lparr>be_route := (\<lambda>c. case c of
      Compute_Health \<Rightarrow> dumped B (\<lambda>s. (Inr (health_json (ev_renderer E)), s))
    | Compute_Capabilities \<Rightarrow> dumped B (\<lambda>s.
        (Inr (compute_capabilities_json (ev_renderer E) (ev_report E) (ev_legacy_compiler E)), s))
    | Compute_Validate body \<Rightarrow> act_bind (compute_validate (ev_hash E) B body False) (\<lambda>_. act_return (json_reply []))
    | Compute_Preview body \<Rightarrow> act_bind (compute_preview_json (ev_hash E) B body) (\<lambda>r. act_return (json_reply r))
    | Compute_Create_Run body \<Rightarrow> act_bind (compute_create_run (ev_hash E) B ca body) (\<lambda>r. act_return (json_reply r))
    | Compute_Status run \<Rightarrow> dumped B (\<lambda>s. (compute_run_status B ca (ev_caps E) run s, s))
    | Compute_Cancel run body \<Rightarrow> dumped B (compute_cancel_run B run)
    | _ \<Rightarrow> be_route B c)\<rparr>"

end
