(* ===== verification/IdempotencyLocks.thy ===== *)
theory IdempotencyLocks
  imports ComputeRuns
begin

text \<open>
  Concurrent requests that create runs (\<^verbatim>\<open>idempotencyLock\<close> and \<^verbatim>\<open>computeV1CreateRunRoute\<close> in
  \<^verbatim>\<open>api/routes_compute_v1.cpp\<close>). Each request is a thread. The table of weak pointers maps a key to the mutex that
  was made for it last; the pointer has expired when no thread holds the mutex alive. A step is one action that
  other threads can observe, so an execution is any interleaving.
\<close>

section \<open>State\<close>

datatype request_outcome = Response string | Refused_key | Failed

datatype phase =
    Arrived
  | Waiting nat
  | Checking nat
  | Missed nat
  | Started nat string
  | Finishing nat request_outcome
  | Leaving nat request_outcome
  | Finished request_outcome

text \<open>The mutex that a thread keeps alive, and the one it owns.\<close>

fun mutex_of :: "phase \<Rightarrow> nat option" where
  "mutex_of (Waiting m) = Some m"
| "mutex_of (Checking m) = Some m"
| "mutex_of (Missed m) = Some m"
| "mutex_of (Started m r) = Some m"
| "mutex_of (Finishing m r) = Some m"
| "mutex_of (Leaving m r) = Some m"
| "mutex_of _ = None"

fun owned_by :: "phase \<Rightarrow> nat option" where
  "owned_by (Checking m) = Some m"
| "owned_by (Missed m) = Some m"
| "owned_by (Started m r) = Some m"
| "owned_by (Finishing m r) = Some m"
| "owned_by _ = None"

text \<open>
  \<open>lt_started\<close> records the requests whose work was started and \<open>lt_lost\<close> those of them whose response could not be
  stored. The rows are those of the table of requests.
\<close>

record lock_table =
  lt_weak :: "string \<rightharpoonup> nat"
  lt_made :: nat
  lt_owner :: "nat \<rightharpoonup> nat"
  lt_phases :: "phase list"
  lt_rows :: "string \<rightharpoonup> string \<times> string"
  lt_started :: "nat list"
  lt_lost :: "nat list"

definition alive :: "phase list \<Rightarrow> nat \<Rightarrow> bool" where
  "alive ps m \<longleftrightarrow> (\<exists>p\<in>set ps. mutex_of p = Some m)"

text \<open>\<^verbatim>\<open>idempotencyLock\<close>: \<^verbatim>\<open>weak.lock()\<close> or a new mutex.\<close>

definition idempotency_lock :: "string \<Rightarrow> lock_table \<Rightarrow> nat \<times> lock_table" where
  "idempotency_lock key s =
    (case lt_weak s key of
       Some m \<Rightarrow>
         if alive (lt_phases s) m then (m, s)
         else (lt_made s, s\<lparr>lt_weak := (lt_weak s)(key \<mapsto> lt_made s), lt_made := lt_made s + 1\<rparr>)
     | None \<Rightarrow> (lt_made s, s\<lparr>lt_weak := (lt_weak s)(key \<mapsto> lt_made s), lt_made := lt_made s + 1\<rparr>))"

definition at_phase :: "nat \<Rightarrow> phase \<Rightarrow> lock_table \<Rightarrow> lock_table" where
  "at_phase i p s = s\<lparr>lt_phases := (lt_phases s)[i := p]\<rparr>"

section \<open>Steps\<close>

text \<open>A request is its key and its hash. The route that does the work may fail, and so may each statement.\<close>

inductive create_step :: "(string \<times> string) list \<Rightarrow> lock_table \<Rightarrow> lock_table \<Rightarrow> bool" for reqs where
  arrive: "i < length reqs \<Longrightarrow> lt_phases s ! i = Arrived \<Longrightarrow> idempotency_lock (fst (reqs ! i)) s = (m, s')
    \<Longrightarrow> create_step reqs s (at_phase i (Waiting m) s')"
| lock: "i < length reqs \<Longrightarrow> lt_phases s ! i = Waiting m \<Longrightarrow> lt_owner s m = None
    \<Longrightarrow> create_step reqs s (at_phase i (Checking m) (s\<lparr>lt_owner := (lt_owner s)(m \<mapsto> i)\<rparr>))"
| replay: "i < length reqs \<Longrightarrow> lt_phases s ! i = Checking m
    \<Longrightarrow> replay_decision (lt_rows s (c_str (fst (reqs ! i)))) (snd (reqs ! i)) = Replay r
    \<Longrightarrow> create_step reqs s (at_phase i (Finishing m (Response r)) s)"
| conflict: "i < length reqs \<Longrightarrow> lt_phases s ! i = Checking m
    \<Longrightarrow> replay_decision (lt_rows s (c_str (fst (reqs ! i)))) (snd (reqs ! i)) = Key_Conflict
    \<Longrightarrow> create_step reqs s (at_phase i (Finishing m Refused_key) s)"
| miss: "i < length reqs \<Longrightarrow> lt_phases s ! i = Checking m
    \<Longrightarrow> replay_decision (lt_rows s (c_str (fst (reqs ! i)))) (snd (reqs ! i)) = Run_Now
    \<Longrightarrow> create_step reqs s (at_phase i (Missed m) s)"
| look_fails: "i < length reqs \<Longrightarrow> lt_phases s ! i = Checking m
    \<Longrightarrow> create_step reqs s (at_phase i (Finishing m Failed) s)"
| run: "i < length reqs \<Longrightarrow> lt_phases s ! i = Missed m
    \<Longrightarrow> create_step reqs s (at_phase i (Started m r) (s\<lparr>lt_started := lt_started s @ [i]\<rparr>))"
| run_fails: "i < length reqs \<Longrightarrow> lt_phases s ! i = Missed m
    \<Longrightarrow> create_step reqs s (at_phase i (Finishing m Failed) s)"
| store: "i < length reqs \<Longrightarrow> lt_phases s ! i = Started m r
    \<Longrightarrow> create_step reqs s (at_phase i (Finishing m (Response r))
        (s\<lparr>lt_rows := (lt_rows s)(c_str (fst (reqs ! i)) \<mapsto> (snd (reqs ! i), r))\<rparr>))"
| store_fails: "i < length reqs \<Longrightarrow> lt_phases s ! i = Started m r
    \<Longrightarrow> create_step reqs s (at_phase i (Finishing m Failed) (s\<lparr>lt_lost := lt_lost s @ [i]\<rparr>))"
| unlock: "i < length reqs \<Longrightarrow> lt_phases s ! i = Finishing m r
    \<Longrightarrow> create_step reqs s (at_phase i (Leaving m r) (s\<lparr>lt_owner := (lt_owner s)(m := None)\<rparr>))"
| release: "i < length reqs \<Longrightarrow> lt_phases s ! i = Leaving m r
    \<Longrightarrow> create_step reqs s (at_phase i (Finished r) s)"

definition fresh_table :: "(string \<times> string) list \<Rightarrow> (string \<rightharpoonup> string \<times> string) \<Rightarrow> lock_table" where
  "fresh_table reqs rows = \<lparr>lt_weak = Map.empty, lt_made = 0, lt_owner = Map.empty,
     lt_phases = replicate (length reqs) Arrived, lt_rows = rows, lt_started = [], lt_lost = []\<rparr>"

inductive reached :: "(string \<times> string) list \<Rightarrow> (string \<rightharpoonup> string \<times> string) \<Rightarrow> lock_table \<Rightarrow> bool" for reqs rows where
  initial: "reached reqs rows (fresh_table reqs rows)"
| later: "reached reqs rows s \<Longrightarrow> create_step reqs s s' \<Longrightarrow> reached reqs rows s'"

section \<open>Mutual exclusion\<close>

lemma at_phase_simps [simp]:
  "lt_weak (at_phase i p s) = lt_weak s" "lt_made (at_phase i p s) = lt_made s" "lt_owner (at_phase i p s) = lt_owner s"
  "lt_rows (at_phase i p s) = lt_rows s" "lt_started (at_phase i p s) = lt_started s" "lt_lost (at_phase i p s) = lt_lost s"
  "lt_phases (at_phase i p s) = (lt_phases s)[i := p]"
  by (simp_all add: at_phase_def)

text \<open>
  Every mutex that a thread holds alive is the one its key names, no two keys name the same one, and the thread
  that is past the lock is its owner.
\<close>

definition locks_inv :: "(string \<times> string) list \<Rightarrow> lock_table \<Rightarrow> bool" where
  "locks_inv reqs s \<longleftrightarrow>
    length (lt_phases s) = length reqs
    \<and> (\<forall>k m. lt_weak s k = Some m \<longrightarrow> m < lt_made s)
    \<and> (\<forall>k k' m. lt_weak s k = Some m \<longrightarrow> lt_weak s k' = Some m \<longrightarrow> k = k')
    \<and> (\<forall>i<length reqs. \<forall>m. mutex_of (lt_phases s ! i) = Some m \<longrightarrow> lt_weak s (fst (reqs ! i)) = Some m)
    \<and> (\<forall>i<length reqs. \<forall>m. owned_by (lt_phases s ! i) = Some m \<longrightarrow> lt_owner s m = Some i)"

lemma owned_mutex: "owned_by p = Some m \<Longrightarrow> mutex_of p = Some m"
  by (cases p) auto

lemma idempotency_lock_cases:
  assumes "idempotency_lock key s = (m, s')"
  obtains "s' = s" "lt_weak s key = Some m"
  | "s' = s\<lparr>lt_weak := (lt_weak s)(key \<mapsto> m), lt_made := m + 1\<rparr>" "m = lt_made s"
    "\<And>m'. lt_weak s key = Some m' \<Longrightarrow> \<not> alive (lt_phases s) m'"
proof (cases "\<exists>m'. lt_weak s key = Some m' \<and> alive (lt_phases s) m'")
  case True
  then show ?thesis using assms that(1) by (auto simp: idempotency_lock_def)
next
  case False
  then have "s' = s\<lparr>lt_weak := (lt_weak s)(key \<mapsto> m), lt_made := m + 1\<rparr>" "m = lt_made s"
    using assms by (auto simp: idempotency_lock_def split: option.splits if_splits)
  then show ?thesis using False that(2) by blast
qed

lemma locks_inv_fresh: "locks_inv reqs (fresh_table reqs rows)"
  by (simp add: locks_inv_def fresh_table_def)

lemma locks_invD:
  assumes "locks_inv reqs s"
  shows "length (lt_phases s) = length reqs"
    and "lt_weak s k = Some m \<Longrightarrow> m < lt_made s"
    and "lt_weak s k = Some m \<Longrightarrow> lt_weak s k' = Some m \<Longrightarrow> k = k'"
    and "i < length reqs \<Longrightarrow> mutex_of (lt_phases s ! i) = Some m \<Longrightarrow> lt_weak s (fst (reqs ! i)) = Some m"
    and "i < length reqs \<Longrightarrow> owned_by (lt_phases s ! i) = Some m \<Longrightarrow> lt_owner s m = Some i"
  using assms unfolding locks_inv_def by blast+

lemma locks_inv_phase:
  assumes inv: "locks_inv reqs s" and i: "i < length reqs"
    and p: "mutex_of p = None \<or> mutex_of p = mutex_of (lt_phases s ! i)"
    and s': "lt_weak s' = lt_weak s" "lt_made s' = lt_made s" "lt_phases s' = (lt_phases s)[i := p]"
    and owner: "\<And>j m. j < length reqs \<Longrightarrow> owned_by ((lt_phases s)[i := p] ! j) = Some m \<Longrightarrow> lt_owner s' m = Some j"
  shows "locks_inv reqs s'"
proof -
  have "lt_weak s (fst (reqs ! j)) = Some m" if "j < length reqs" "mutex_of ((lt_phases s)[i := p] ! j) = Some m" for j m
    using that p locks_invD(4) [OF inv, of j m] i locks_invD(1) [OF inv]
    by (cases "j = i") (auto simp: nth_list_update)
  then show ?thesis
    using locks_invD(1-3) [OF inv] owner unfolding locks_inv_def s' by simp
qed

lemma locks_inv_arrive:
  assumes inv: "locks_inv reqs s" and i: "i < length reqs" "lt_phases s ! i = Arrived"
    and lock: "idempotency_lock (fst (reqs ! i)) s = (m, s')"
  shows "locks_inv reqs (at_phase i (Waiting m) s')"
proof -
  note len = locks_invD(1) [OF inv]
  have owned: "owned_by ((lt_phases s)[i := Waiting m] ! j) = Some n \<Longrightarrow> j < length reqs \<Longrightarrow> lt_owner s n = Some j" for j n
    using locks_invD(5) [OF inv, of j n] len i by (cases "j = i") simp_all
  show ?thesis using lock
  proof (cases rule: idempotency_lock_cases)
    case 1
    have "lt_weak s (fst (reqs ! j)) = Some n" if "j < length reqs" "mutex_of ((lt_phases s)[i := Waiting m] ! j) = Some n" for j n
      using that 1(2) locks_invD(4) [OF inv, of j n] len i by (cases "j = i") auto
    then show ?thesis using locks_invD(1-3) [OF inv] owned unfolding locks_inv_def 1(1) by simp
  next
    case 2
    have other: "lt_weak s' (fst (reqs ! j)) = Some n"
      if j: "j < length reqs" "mutex_of ((lt_phases s)[i := Waiting m] ! j) = Some n" for j n
    proof (cases "j = i")
      case True
      with j len i 2(1) show ?thesis by simp
    next
      case False
      with j have n: "mutex_of (lt_phases s ! j) = Some n" by simp
      with j len have a: "alive (lt_phases s) n" by (auto simp: alive_def intro!: bexI [of _ "lt_phases s ! j"])
      from locks_invD(4) [OF inv j(1) n] 2(3) a have "fst (reqs ! j) \<noteq> fst (reqs ! i)" by auto
      with locks_invD(4) [OF inv j(1) n] 2(1) show ?thesis by simp
    qed
    have weak: "lt_weak s' k = Some n \<Longrightarrow> n < lt_made s'" for k n
      using locks_invD(2) [OF inv, of k n] 2(1,2) by (auto split: if_splits)
    have inj: "k = k'" if "lt_weak s' k = Some n" "lt_weak s' k' = Some n" for k k' n
      using that locks_invD(3) [OF inv, of k n k'] locks_invD(2) [OF inv, of k n] locks_invD(2) [OF inv, of k' n] 2(1,2)
      by (auto split: if_splits)
    have "lt_phases s' = lt_phases s" "lt_owner s' = lt_owner s" using 2(1) by simp_all
    then show ?thesis using weak inj other owned len unfolding locks_inv_def by simp
  qed
qed

lemma locks_inv_lock:
  assumes inv: "locks_inv reqs s" and i: "i < length reqs" "lt_phases s ! i = Waiting m" and free: "lt_owner s m = None"
  shows "locks_inv reqs (at_phase i (Checking m) (s\<lparr>lt_owner := (lt_owner s)(m \<mapsto> i)\<rparr>))"
proof (rule locks_inv_phase [OF inv i(1), of "Checking m"])
  fix j n
  assume j: "j < length reqs" "owned_by ((lt_phases s)[i := Checking m] ! j) = Some n"
  show "lt_owner (at_phase i (Checking m) (s\<lparr>lt_owner := (lt_owner s)(m \<mapsto> i)\<rparr>)) n = Some j"
    using j i free locks_invD(1) [OF inv] locks_invD(5) [OF inv, of j n] by (cases "j = i") auto
qed (use i in simp_all)

lemma locks_inv_unlock:
  assumes inv: "locks_inv reqs s" and i: "i < length reqs" "lt_phases s ! i = Finishing m r"
  shows "locks_inv reqs (at_phase i (Leaving m r) (s\<lparr>lt_owner := (lt_owner s)(m := None)\<rparr>))"
proof (rule locks_inv_phase [OF inv i(1), of "Leaving m r"])
  fix j n
  assume j: "j < length reqs" "owned_by ((lt_phases s)[i := Leaving m r] ! j) = Some n"
  have "lt_owner s m = Some i" using locks_invD(5) [OF inv i(1)] i(2) by simp
  then show "lt_owner (at_phase i (Leaving m r) (s\<lparr>lt_owner := (lt_owner s)(m := None)\<rparr>)) n = Some j"
    using j i locks_invD(1) [OF inv] locks_invD(5) [OF inv, of j n] by (cases "j = i") auto
qed (use i in simp_all)

lemma locks_inv_stay:
  assumes inv: "locks_inv reqs s" and i: "i < length reqs"
    and p: "mutex_of p = None \<or> mutex_of p = mutex_of (lt_phases s ! i)" "owned_by p = None \<or> owned_by p = owned_by (lt_phases s ! i)"
    and s': "lt_weak s' = lt_weak s" "lt_made s' = lt_made s" "lt_owner s' = lt_owner s" "lt_phases s' = lt_phases s"
  shows "locks_inv reqs (at_phase i p s')"
proof (rule locks_inv_phase [OF inv i p(1)])
  fix j m
  assume j: "j < length reqs" "owned_by ((lt_phases s)[i := p] ! j) = Some m"
  show "lt_owner (at_phase i p s') m = Some j"
    using j p(2) i s' locks_invD(1) [OF inv] locks_invD(5) [OF inv, of j m] by (cases "j = i") auto
qed (use s' in simp_all)

lemma locks_inv_step:
  assumes "create_step reqs s s'" and "locks_inv reqs s"
  shows "locks_inv reqs s'"
  using assms(1)
proof (cases rule: create_step.cases)
  case arrive
  then show ?thesis using locks_inv_arrive [OF assms(2)] by simp
next
  case lock
  then show ?thesis using locks_inv_lock [OF assms(2)] by simp
next
  case unlock
  then show ?thesis using locks_inv_unlock [OF assms(2)] by simp
qed (auto intro!: locks_inv_stay [OF assms(2)])

lemma reached_locks: "reached reqs rows s \<Longrightarrow> locks_inv reqs s"
  by (induction rule: reached.induct) (auto intro: locks_inv_fresh locks_inv_step)

text \<open>Two requests with the same key are never past the lock at the same time.\<close>

lemma exclusive:
  assumes inv: "locks_inv reqs s" and "i < length reqs" "j < length reqs" "fst (reqs ! i) = fst (reqs ! j)"
    and "owned_by (lt_phases s ! i) = Some m" "owned_by (lt_phases s ! j) = Some n"
  shows "i = j"
proof -
  have "m = n"
    using locks_invD(4) [OF inv assms(2) owned_mutex [OF assms(5)]] locks_invD(4) [OF inv assms(3) owned_mutex [OF assms(6)]]
      assms(4) by simp
  then show ?thesis
    using locks_invD(5) [OF inv assms(2,5)] locks_invD(5) [OF inv assms(3,6)] by simp
qed

section \<open>At most one run for a key\<close>

definition running :: "phase \<Rightarrow> bool" where
  "running p \<longleftrightarrow> (case p of Started _ _ \<Rightarrow> True | _ \<Rightarrow> False)"

definition past_miss :: "phase \<Rightarrow> bool" where
  "past_miss p \<longleftrightarrow> (case p of Started _ _ \<Rightarrow> True | Missed _ \<Rightarrow> True | _ \<Rightarrow> False)"

fun answer :: "phase \<Rightarrow> string option" where
  "answer (Finishing m (Response r)) = Some r"
| "answer (Leaving m (Response r)) = Some r"
| "answer (Finished (Response r)) = Some r"
| "answer _ = None"

definition with_key :: "(string \<times> string) list \<Rightarrow> string \<Rightarrow> nat list \<Rightarrow> nat" where
  "with_key reqs k is = length (filter (\<lambda>i. fst (reqs ! i) = k) is)"

lemma with_key_append [simp]: "with_key reqs k (is @ [i]) = with_key reqs k is + (if fst (reqs ! i) = k then 1 else 0)"
  by (simp add: with_key_def)

definition in_work :: "(string \<times> string) list \<Rightarrow> lock_table \<Rightarrow> string \<Rightarrow> bool" where
  "in_work reqs s k \<longleftrightarrow> (\<exists>i<length reqs. fst (reqs ! i) = k \<and> running (lt_phases s ! i))"

text \<open>
  A key with a row has no request in work or about to be, the runs that were started for a key are accounted for,
  and every answer is the row's.
\<close>

definition jobs_inv :: "(string \<times> string) list \<Rightarrow> lock_table \<Rightarrow> bool" where
  "jobs_inv reqs s \<longleftrightarrow>
    (\<forall>i<length reqs. past_miss (lt_phases s ! i) \<longrightarrow> lt_rows s (c_str (fst (reqs ! i))) = None)
    \<and> (\<forall>k. with_key reqs k (lt_started s) \<le> with_key reqs k (lt_lost s)
          + (if lt_rows s (c_str k) \<noteq> None \<or> in_work reqs s k then 1 else 0))
    \<and> (\<forall>i<length reqs. \<forall>r. answer (lt_phases s ! i) = Some r \<longrightarrow>
          (\<exists>h. lt_rows s (c_str (fst (reqs ! i))) = Some (h, r) \<and> (h = [] \<or> h = snd (reqs ! i))))"

definition plain_keys :: "(string \<times> string) list \<Rightarrow> bool" where
  "plain_keys reqs \<longleftrightarrow> (\<forall>q\<in>set reqs. c_str (fst q) = fst q)"

lemma past_miss_owned: "past_miss p \<Longrightarrow> \<exists>m. owned_by p = Some m"
  by (auto simp: past_miss_def split: phase.splits)

lemma running_past_miss: "running p \<Longrightarrow> past_miss p"
  by (auto simp: past_miss_def running_def split: phase.splits)

lemma running_simps [simp]: "running (Started m r)" "past_miss (Started m r)" "past_miss (Missed m)"
  by (simp_all add: running_def past_miss_def)

lemma not_running [simp]:
  "\<not> running Arrived" "\<not> running (Waiting m)" "\<not> running (Checking m)" "\<not> running (Missed m)"
  "\<not> running (Finishing m r)" "\<not> running (Leaving m r)" "\<not> running (Finished r)"
  "\<not> past_miss Arrived" "\<not> past_miss (Waiting m)" "\<not> past_miss (Checking m)"
  "\<not> past_miss (Finishing m r)" "\<not> past_miss (Leaving m r)" "\<not> past_miss (Finished r)"
  by (simp_all add: running_def past_miss_def)

lemma jobs_invD:
  assumes "jobs_inv reqs s"
  shows "i < length reqs \<Longrightarrow> past_miss (lt_phases s ! i) \<Longrightarrow> lt_rows s (c_str (fst (reqs ! i))) = None"
    and "with_key reqs k (lt_started s) \<le> with_key reqs k (lt_lost s)
          + (if lt_rows s (c_str k) \<noteq> None \<or> in_work reqs s k then 1 else 0)"
    and "i < length reqs \<Longrightarrow> answer (lt_phases s ! i) = Some r \<Longrightarrow>
          \<exists>h. lt_rows s (c_str (fst (reqs ! i))) = Some (h, r) \<and> (h = [] \<or> h = snd (reqs ! i))"
  using assms unfolding jobs_inv_def by blast+

text \<open>A step that starts, stores and loses nothing.\<close>

lemma jobs_inv_quiet:
  assumes inv: "jobs_inv reqs s" and len: "length (lt_phases s) = length reqs" and i: "i < length reqs"
    and same: "lt_rows s' = lt_rows s" "lt_started s' = lt_started s" "lt_lost s' = lt_lost s" "lt_phases s' = lt_phases s"
    and p: "\<not> running p" "\<not> running (lt_phases s ! i)"
    and miss: "past_miss p \<Longrightarrow> lt_rows s (c_str (fst (reqs ! i))) = None"
    and ans: "\<And>r. answer p = Some r \<Longrightarrow> \<exists>h. lt_rows s (c_str (fst (reqs ! i))) = Some (h, r) \<and> (h = [] \<or> h = snd (reqs ! i))"
  shows "jobs_inv reqs (at_phase i p s')"
proof -
  have w: "in_work reqs (at_phase i p s') k = in_work reqs s k" for k
  proof -
    have "running ((lt_phases s)[i := p] ! j) = running (lt_phases s ! j)" for j
      using p i len by (cases "j = i") simp_all
    then show ?thesis by (simp add: in_work_def same)
  qed
  have 1: "lt_rows s (c_str (fst (reqs ! j))) = None" if "j < length reqs" "past_miss ((lt_phases s)[i := p] ! j)" for j
    using that jobs_invD(1) [OF inv, of j] miss i len by (cases "j = i") simp_all
  have 2: "\<exists>h. lt_rows s (c_str (fst (reqs ! j))) = Some (h, r) \<and> (h = [] \<or> h = snd (reqs ! j))"
    if "j < length reqs" "answer ((lt_phases s)[i := p] ! j) = Some r" for j r
    using that jobs_invD(3) [OF inv, of j r] ans i len by (cases "j = i") simp_all
  show ?thesis
    using 1 2 jobs_invD(2) [OF inv] unfolding jobs_inv_def by (simp add: w same)
qed

lemma in_work_update:
  "i < length reqs \<Longrightarrow> length (lt_phases s) = length reqs \<Longrightarrow> fst (reqs ! i) \<noteq> k
   \<Longrightarrow> lt_phases s' = (lt_phases s)[i := p] \<Longrightarrow> in_work reqs s' k \<longleftrightarrow> in_work reqs s k"
  unfolding in_work_def by (metis nth_list_update_neq)

lemma no_other_work:
  assumes "locks_inv reqs s" and "i < length reqs" and "past_miss (lt_phases s ! i)"
    and "j < length reqs" and "fst (reqs ! j) = fst (reqs ! i)" and "past_miss (lt_phases s ! j)"
  shows "j = i"
  using exclusive [OF assms(1,4,2,5)] past_miss_owned [OF assms(3)] past_miss_owned [OF assms(6)] by blast

lemma jobs_inv_run:
  assumes inv: "jobs_inv reqs s" "locks_inv reqs s" and i: "i < length reqs" "lt_phases s ! i = Missed m"
  shows "jobs_inv reqs (at_phase i (Started m r) (s\<lparr>lt_started := lt_started s @ [i]\<rparr>))" (is "jobs_inv reqs ?t")
proof -
  note len = locks_invD(1) [OF inv(2)]
  have row: "lt_rows s (c_str (fst (reqs ! i))) = None" using jobs_invD(1) [OF inv(1) i(1)] i(2) by simp
  have idle: "\<not> in_work reqs s (fst (reqs ! i))"
    using no_other_work [OF inv(2) i(1)] i(2) running_past_miss by (fastforce simp: in_work_def)
  have "with_key reqs k (lt_started ?t) \<le> with_key reqs k (lt_lost ?t)
      + (if lt_rows ?t (c_str k) \<noteq> None \<or> in_work reqs ?t k then 1 else 0)" for k
  proof (cases "k = fst (reqs ! i)")
    case True
    have "in_work reqs ?t k" using i(1) len True by (auto simp: in_work_def intro!: exI [of _ i])
    with True row idle jobs_invD(2) [OF inv(1), of k] show ?thesis by simp
  next
    case False
    then show ?thesis using jobs_invD(2) [OF inv(1), of k] in_work_update [OF i(1) len, of k ?t] by simp
  qed
  moreover have "lt_rows s (c_str (fst (reqs ! j))) = None" if "j < length reqs" "past_miss (lt_phases ?t ! j)" for j
    using that jobs_invD(1) [OF inv(1), of j] row len by (cases "j = i") simp_all
  moreover have "answer (lt_phases ?t ! j) = Some x \<Longrightarrow> answer (lt_phases s ! j) = Some x" if "j < length reqs" for j x
    using that len by (cases "j = i") simp_all
  ultimately show ?thesis using jobs_invD(3) [OF inv(1)] unfolding jobs_inv_def by simp
qed

lemma jobs_inv_store:
  assumes inv: "jobs_inv reqs s" "locks_inv reqs s" and keys: "plain_keys reqs"
    and i: "i < length reqs" "lt_phases s ! i = Started m r"
  shows "jobs_inv reqs (at_phase i (Finishing m (Response r))
     (s\<lparr>lt_rows := (lt_rows s)(c_str (fst (reqs ! i)) \<mapsto> (snd (reqs ! i), r))\<rparr>))" (is "jobs_inv reqs ?t")
proof -
  note len = locks_invD(1) [OF inv(2)]
  have row: "lt_rows s (c_str (fst (reqs ! i))) = None" using jobs_invD(1) [OF inv(1) i(1)] i(2) by simp
  have plain: "c_str (fst (reqs ! j)) = fst (reqs ! j)" if "j < length reqs" for j
    using keys that by (simp add: plain_keys_def)
  have "lt_rows ?t (c_str (fst (reqs ! j))) = None" if j: "j < length reqs" "past_miss (lt_phases ?t ! j)" for j
  proof -
    from j len have "j \<noteq> i" "past_miss (lt_phases s ! j)" by (cases "j = i"; simp)+
    with no_other_work [OF inv(2) i(1) _ j(1)] i(2) have "fst (reqs ! j) \<noteq> fst (reqs ! i)" by auto
    with plain [OF j(1)] plain [OF i(1)] jobs_invD(1) [OF inv(1) j(1) \<open>past_miss (lt_phases s ! j)\<close>] show ?thesis by simp
  qed
  moreover have "with_key reqs k (lt_started ?t) \<le> with_key reqs k (lt_lost ?t)
      + (if lt_rows ?t (c_str k) \<noteq> None \<or> in_work reqs ?t k then 1 else 0)" for k
    using jobs_invD(2) [OF inv(1), of k] in_work_update [OF i(1) len, of k ?t]
    by (cases "k = fst (reqs ! i)") (auto split: if_splits)
  moreover have "\<exists>h. lt_rows ?t (c_str (fst (reqs ! j))) = Some (h, x) \<and> (h = [] \<or> h = snd (reqs ! j))"
    if j: "j < length reqs" "answer (lt_phases ?t ! j) = Some x" for j x
  proof (cases "j = i")
    case True
    with j len show ?thesis by simp
  next
    case False
    with j len have "answer (lt_phases s ! j) = Some x" by simp
    from jobs_invD(3) [OF inv(1) j(1) this] row show ?thesis by auto
  qed
  ultimately show ?thesis unfolding jobs_inv_def by blast
qed

lemma jobs_inv_store_fails:
  assumes inv: "jobs_inv reqs s" "locks_inv reqs s" and i: "i < length reqs" "lt_phases s ! i = Started m r"
  shows "jobs_inv reqs (at_phase i (Finishing m Failed) (s\<lparr>lt_lost := lt_lost s @ [i]\<rparr>))" (is "jobs_inv reqs ?t")
proof -
  note len = locks_invD(1) [OF inv(2)]
  have "with_key reqs k (lt_started ?t) \<le> with_key reqs k (lt_lost ?t)
      + (if lt_rows ?t (c_str k) \<noteq> None \<or> in_work reqs ?t k then 1 else 0)" for k
    using jobs_invD(2) [OF inv(1), of k] in_work_update [OF i(1) len, of k ?t]
    by (cases "k = fst (reqs ! i)") (auto split: if_splits)
  moreover have "past_miss (lt_phases ?t ! j) \<Longrightarrow> past_miss (lt_phases s ! j)"
    "answer (lt_phases ?t ! j) = Some x \<Longrightarrow> answer (lt_phases s ! j) = Some x" if "j < length reqs" for j x
    using that len by (cases "j = i"; simp)+
  ultimately show ?thesis using jobs_invD(1,3) [OF inv(1)] unfolding jobs_inv_def by simp
qed

lemma replay_decision_cases:
  "replay_decision c h = Replay r \<longleftrightarrow> (\<exists>g. c = Some (g, r) \<and> (g = [] \<or> g = h))"
  "replay_decision c h = Run_Now \<longleftrightarrow> c = None"
  by (auto simp: replay_decision_def split: option.splits)

lemma jobs_inv_step:
  assumes "create_step reqs s s'" and inv: "jobs_inv reqs s" "locks_inv reqs s" and keys: "plain_keys reqs"
  shows "jobs_inv reqs s'"
proof -
  note len = locks_invD(1) [OF inv(2)]
  note quiet = jobs_inv_quiet [OF inv(1) len]
  show ?thesis using assms(1)
  proof (cases rule: create_step.cases)
    case (arrive i m t)
    from arrive(4) have "lt_rows t = lt_rows s" "lt_started t = lt_started s" "lt_lost t = lt_lost s" "lt_phases t = lt_phases s"
      by (auto elim: idempotency_lock_cases)
    with arrive show ?thesis by (auto intro!: quiet)
  next
    case (run i m r)
    then show ?thesis using jobs_inv_run [OF inv] by simp
  next
    case (store i m r)
    then show ?thesis using jobs_inv_store [OF inv keys] by simp
  next
    case (store_fails i m r)
    then show ?thesis using jobs_inv_store_fails [OF inv] by simp
  next
    case (replay i m r)
    then show ?thesis by (auto intro!: quiet simp: replay_decision_cases)
  next
    case (miss i m)
    then show ?thesis by (auto intro!: quiet simp: replay_decision_cases)
  next
    case (unlock i m r)
    then show ?thesis using jobs_invD(3) [OF inv(1), of i] by (cases r) (auto intro!: quiet)
  next
    case (release i m r)
    then show ?thesis using jobs_invD(3) [OF inv(1), of i] by (cases r) (auto intro!: quiet)
  qed (auto intro!: quiet)
qed

lemma jobs_inv_fresh: "jobs_inv reqs (fresh_table reqs rows)"
  by (simp add: jobs_inv_def fresh_table_def with_key_def)

lemma reached_jobs: "reached reqs rows s \<Longrightarrow> plain_keys reqs \<Longrightarrow> jobs_inv reqs s"
  by (induction rule: reached.induct) (auto intro: jobs_inv_fresh jobs_inv_step reached_locks)

section \<open>Playing an interleaving\<close>

datatype move = Arrive | Lock | Look | Run string | Store | Lose | Unlock | Release

definition perform :: "(string \<times> string) list \<Rightarrow> nat \<Rightarrow> move \<Rightarrow> lock_table \<Rightarrow> lock_table option" where
  "perform reqs i mv s =
    (if length reqs \<le> i then None
     else case (mv, lt_phases s ! i) of
       (Arrive, Arrived) \<Rightarrow> (case idempotency_lock (fst (reqs ! i)) s of (m, s') \<Rightarrow> Some (at_phase i (Waiting m) s'))
     | (Lock, Waiting m) \<Rightarrow>
         (if lt_owner s m = None then Some (at_phase i (Checking m) (s\<lparr>lt_owner := (lt_owner s)(m \<mapsto> i)\<rparr>)) else None)
     | (Look, Checking m) \<Rightarrow>
         Some (at_phase i (case replay_decision (lt_rows s (c_str (fst (reqs ! i)))) (snd (reqs ! i)) of
           Replay r \<Rightarrow> Finishing m (Response r) | Key_Conflict \<Rightarrow> Finishing m Refused_key | Run_Now \<Rightarrow> Missed m) s)
     | (Run r, Missed m) \<Rightarrow> Some (at_phase i (Started m r) (s\<lparr>lt_started := lt_started s @ [i]\<rparr>))
     | (Store, Started m r) \<Rightarrow> Some (at_phase i (Finishing m (Response r))
         (s\<lparr>lt_rows := (lt_rows s)(c_str (fst (reqs ! i)) \<mapsto> (snd (reqs ! i), r))\<rparr>))
     | (Lose, Started m r) \<Rightarrow> Some (at_phase i (Finishing m Failed) (s\<lparr>lt_lost := lt_lost s @ [i]\<rparr>))
     | (Unlock, Finishing m r) \<Rightarrow> Some (at_phase i (Leaving m r) (s\<lparr>lt_owner := (lt_owner s)(m := None)\<rparr>))
     | (Release, Leaving m r) \<Rightarrow> Some (at_phase i (Finished r) s)
     | _ \<Rightarrow> None)"

fun play :: "(string \<times> string) list \<Rightarrow> (nat \<times> move) list \<Rightarrow> lock_table \<Rightarrow> lock_table option" where
  "play reqs [] s = Some s"
| "play reqs ((i, mv) # moves) s = (case perform reqs i mv s of None \<Rightarrow> None | Some s \<Rightarrow> play reqs moves s)"

lemma perform_step: "perform reqs i mv s = Some s' \<Longrightarrow> create_step reqs s s'"
  by (auto simp: perform_def intro: create_step.intros split: if_splits move.splits phase.splits replay.splits prod.splits)

lemma play_reached: "play reqs moves s = Some s' \<Longrightarrow> reached reqs rows s \<Longrightarrow> reached reqs rows s'"
  by (induction reqs moves s rule: play.induct) (auto dest: perform_step intro: reached.later split: option.splits)

section \<open>Progress\<close>

definition owner_inv :: "(string \<times> string) list \<Rightarrow> lock_table \<Rightarrow> bool" where
  "owner_inv reqs s \<longleftrightarrow>
    (\<forall>m j. lt_owner s m = Some j \<longrightarrow> j < length reqs \<and> owned_by (lt_phases s ! j) = Some m)"

lemma owner_inv_stay:
  assumes "owner_inv reqs s" and "i < length reqs" and "length (lt_phases s) = length reqs"
    and "owned_by p = owned_by (lt_phases s ! i)" and "lt_owner s' = lt_owner s" "lt_phases s' = lt_phases s"
  shows "owner_inv reqs (at_phase i p s')"
  using assms unfolding owner_inv_def by (auto simp: nth_list_update)

lemma owner_inv_step:
  assumes "create_step reqs s s'" and inv: "owner_inv reqs s" "length (lt_phases s) = length reqs"
  shows "owner_inv reqs s'"
  using assms(1)
proof (cases rule: create_step.cases)
  case (arrive i m t)
  from arrive(4) have "lt_owner t = lt_owner s" "lt_phases t = lt_phases s" by (auto elim: idempotency_lock_cases)
  with arrive inv show ?thesis by (auto intro!: owner_inv_stay)
next
  case (lock i m)
  have "owned_by ((lt_phases s)[i := Checking m] ! j) = Some n" if "lt_owner s n = Some j" for j n
    using that inv lock(3) unfolding owner_inv_def by (cases "j = i") fastforce+
  with lock inv show ?thesis unfolding owner_inv_def by auto
next
  case (unlock i m r)
  have "owned_by ((lt_phases s)[i := Leaving m r] ! j) = Some n" if "lt_owner s n = Some j" "n \<noteq> m" for j n
    using that inv unlock(3) unfolding owner_inv_def by (cases "j = i") fastforce+
  with unlock inv show ?thesis unfolding owner_inv_def by auto
qed (use inv in \<open>auto intro!: owner_inv_stay\<close>)

lemma reached_owner: "reached reqs rows s \<Longrightarrow> owner_inv reqs s"
proof (induction rule: reached.induct)
  case initial
  show ?case by (simp add: owner_inv_def fresh_table_def)
next
  case (later s s')
  then show ?case using owner_inv_step locks_invD(1) [OF reached_locks] by blast
qed

fun rank :: "phase \<Rightarrow> nat" where
  "rank Arrived = 7" | "rank (Waiting m) = 6" | "rank (Checking m) = 5" | "rank (Missed m) = 4"
| "rank (Started m r) = 3" | "rank (Finishing m r) = 2" | "rank (Leaving m r) = 1" | "rank (Finished r) = 0"

definition work_left :: "lock_table \<Rightarrow> nat" where
  "work_left s = sum_list (map rank (lt_phases s))"

lemma work_left_update:
  assumes "i < length (lt_phases s)" and "rank p < rank (lt_phases s ! i)" and "lt_phases s' = lt_phases s"
  shows "work_left (at_phase i p s') < work_left s"
proof -
  have u: "sum_list ((map rank (lt_phases s))[i := rank p]) + map rank (lt_phases s) ! i
      = sum_list (map rank (lt_phases s)) + rank p"
    using assms(1) elem_le_sum_list [of i "map rank (lt_phases s)"] by (simp add: sum_list_update)
  then show ?thesis using assms by (simp add: work_left_def map_update)
qed

lemma step_rank:
  assumes "create_step reqs s s'" and len: "length (lt_phases s) = length reqs"
  shows "work_left s' < work_left s"
  using assms(1)
proof (cases rule: create_step.cases)
  case (arrive i m t)
  from arrive(4) have "lt_phases t = lt_phases s" by (auto elim: idempotency_lock_cases)
  with arrive len show ?thesis by (auto intro!: work_left_update)
qed (use len in \<open>auto intro!: work_left_update\<close>)

lemma owner_can_step:
  assumes "i < length reqs" and "owned_by (lt_phases s ! i) = Some m"
  shows "\<exists>s'. create_step reqs s s'"
  using assms by (cases "lt_phases s ! i") (auto intro: create_step.intros)

lemma can_step:
  assumes r: "reached reqs rows s" and i: "i < length reqs" "\<forall>r. lt_phases s ! i \<noteq> Finished r"
  shows "\<exists>s'. create_step reqs s s'"
proof (cases "lt_phases s ! i")
  case Arrived
  then show ?thesis using i(1) create_step.arrive [of i reqs s] by (metis prod.collapse)
next
  case (Waiting m)
  show ?thesis
  proof (cases "lt_owner s m")
    case None
    with Waiting i(1) show ?thesis by (blast intro: create_step.lock)
  next
    case (Some j)
    with reached_owner [OF r] show ?thesis unfolding owner_inv_def by (blast intro: owner_can_step)
  qed
next
  case (Leaving m x)
  with i(1) show ?thesis by (blast intro: create_step.release)
next
  case (Finished x)
  with i(2) show ?thesis by blast
qed (use owner_can_step [OF i(1)] in auto)

inductive create_steps :: "(string \<times> string) list \<Rightarrow> nat \<Rightarrow> lock_table \<Rightarrow> lock_table \<Rightarrow> bool" for reqs where
  no_step: "create_steps reqs 0 s s"
| one_more: "create_steps reqs n s s' \<Longrightarrow> create_step reqs s' s'' \<Longrightarrow> create_steps reqs (Suc n) s s''"

lemma create_steps_reached:
  "create_steps reqs n s s' \<Longrightarrow> reached reqs rows s \<Longrightarrow> reached reqs rows s' \<and> n + work_left s' \<le> work_left s"
proof (induction rule: create_steps.induct)
  case (one_more n s s' s'')
  then have "reached reqs rows s'" "n + work_left s' \<le> work_left s" by blast+
  moreover from this have "work_left s'' < work_left s'"
    using step_rank [OF one_more(2) locks_invD(1) [OF reached_locks]] by blast
  ultimately show ?case using one_more(2) by (auto intro: reached.later)
qed simp

section \<open>Theorems\<close>

text \<open>
  C9: However requests interleave, a key starts at most one run, apart from runs whose response could not be stored,
  and two requests with the same key that are both answered get the same response. Keys are free of NUL, at which
  SQLite would cut them.
\<close>
theorem one_run_per_key:
  assumes "reached reqs rows s" and "plain_keys reqs"
  shows "with_key reqs k (lt_started s) \<le> with_key reqs k (lt_lost s) + 1
    \<and> (\<forall>i<length reqs. \<forall>j<length reqs. fst (reqs ! i) = k \<and> fst (reqs ! j) = k \<longrightarrow>
        (\<forall>a b. lt_phases s ! i = Finished (Response a) \<and> lt_phases s ! j = Finished (Response b) \<longrightarrow> a = b))"
proof -
  note inv = reached_jobs [OF assms]
  have "a = b" if "i < length reqs" "j < length reqs" "fst (reqs ! i) = k" "fst (reqs ! j) = k"
    "lt_phases s ! i = Finished (Response a)" "lt_phases s ! j = Finished (Response b)" for i j a b
    using that jobs_invD(3) [OF inv, of i a] jobs_invD(3) [OF inv, of j b] by auto
  moreover have "with_key reqs k (lt_started s) \<le> with_key reqs k (lt_lost s) + 1"
    using jobs_invD(2) [OF inv, of k] by (simp split: if_splits)
  ultimately show ?thesis by blast
qed

definition twin_requests :: "(string \<times> string) list" where
  "twin_requests = [(''k'', ''h''), (''k'', ''h'')]"

definition twin_moves :: "(nat \<times> move) list" where
  "twin_moves = [(0, Arrive), (1, Arrive), (1, Lock), (1, Look), (1, Run ''r''), (1, Store), (1, Unlock), (0, Lock),
     (0, Look), (1, Release), (0, Unlock), (0, Release)]"

lemma twin_end:
  "\<exists>s. reached twin_requests Map.empty s \<and> lt_started s = [1] \<and> lt_lost s = []
    \<and> lt_phases s = [Finished (Response ''r''), Finished (Response ''r'')]"
proof -
  have "case play twin_requests twin_moves (fresh_table twin_requests Map.empty) of
      None \<Rightarrow> False
    | Some s \<Rightarrow> lt_started s = [1] \<and> lt_lost s = [] \<and> lt_phases s = [Finished (Response ''r''), Finished (Response ''r'')]"
    by code_simp
  then show ?thesis using play_reached [OF _ reached.initial] by (fastforce split: option.splits)
qed

theorem one_run_per_key_witness:
  "\<exists>s. reached twin_requests Map.empty s \<and> lt_started s = [1] \<and> with_key twin_requests ''k'' [1] \<le> 1"
proof -
  from twin_end obtain s where s: "reached twin_requests Map.empty s" "lt_started s = [1]" "lt_lost s = []" by blast
  have "plain_keys twin_requests" by (simp add: plain_keys_def twin_requests_def c_str_def)
  from one_run_per_key [OF s(1) this, of "''k''"] s show ?thesis by (auto simp: with_key_def)
qed

text \<open>
  Creating runs ends. An execution has at most seven steps per request, and as long as a request is not finished
  some request can take a step: no two requests wait for each other.
\<close>
theorem create_requests_end:
  assumes "create_steps reqs n (fresh_table reqs rows) s"
  shows "n \<le> 7 * length reqs \<and> ((\<forall>p\<in>set (lt_phases s). \<exists>r. p = Finished r) \<or> (\<exists>s'. create_step reqs s s'))"
proof -
  note r = create_steps_reached [OF assms reached.initial]
  have "work_left (fresh_table reqs rows) = 7 * length reqs"
    by (simp add: work_left_def fresh_table_def sum_list_replicate)
  then have "n \<le> 7 * length reqs" using r by linarith
  moreover have "\<exists>s'. create_step reqs s s'" if "\<not> (\<forall>p\<in>set (lt_phases s). \<exists>r. p = Finished r)"
  proof -
    from that obtain i where "i < length (lt_phases s)" "\<forall>r. lt_phases s ! i \<noteq> Finished r" by (auto simp: in_set_conv_nth)
    with locks_invD(1) [OF reached_locks] r can_step show ?thesis by metis
  qed
  ultimately show ?thesis by blast
qed

lemma play_steps: "play reqs moves s' = Some s'' \<Longrightarrow> create_steps reqs n s s' \<Longrightarrow> create_steps reqs (n + length moves) s s''"
proof (induction reqs moves s' arbitrary: n rule: play.induct)
  case (2 reqs i mv moves s')
  then obtain t where t: "perform reqs i mv s' = Some t" "play reqs moves t = Some s''" by (auto split: option.splits)
  from "2.IH" [OF t create_steps.one_more [OF 2(3) perform_step [OF t(1)]]] show ?case by simp
qed simp

theorem create_requests_end_witness:
  "\<exists>s. create_steps twin_requests 12 (fresh_table twin_requests Map.empty) s \<and> (12::nat) \<le> 7 * length twin_requests"
proof -
  have "play twin_requests twin_moves (fresh_table twin_requests Map.empty) \<noteq> None" by code_simp
  then obtain s where "play twin_requests twin_moves (fresh_table twin_requests Map.empty) = Some s" by blast
  from play_steps [OF this create_steps.no_step] have s: "create_steps twin_requests 12 (fresh_table twin_requests Map.empty) s"
    by (simp add: twin_moves_def eval_nat_numeral)
  from create_requests_end [OF s] s show ?thesis by blast
qed

text \<open>
  The lock is taken for the whole key, the row is that of its part before the first NUL: two keys that differ
  after it exclude each other neither from the lock nor from the work, and both runs are started.
\<close>

definition nul_requests :: "(string \<times> string) list" where
  "nul_requests = [(''k'', ''h''), ([CHR ''k'', CHR 0x00], ''h'')]"

definition nul_moves :: "(nat \<times> move) list" where
  "nul_moves = [(0, Arrive), (1, Arrive), (0, Lock), (1, Lock), (0, Look), (1, Look), (0, Run ''a''), (1, Run ''b'')]"

lemma nul_key_runs_twice:
  "\<exists>s. reached nul_requests Map.empty s \<and> lt_started s = [0, 1] \<and> lt_lost s = []
    \<and> c_str (fst (nul_requests ! 0)) = c_str (fst (nul_requests ! 1))"
proof -
  have "case play nul_requests nul_moves (fresh_table nul_requests Map.empty) of
      None \<Rightarrow> False | Some s \<Rightarrow> lt_started s = [0, 1] \<and> lt_lost s = []" by code_simp
  then obtain s where "reached nul_requests Map.empty s" "lt_started s = [0, 1]" "lt_lost s = []"
    using play_reached [OF _ reached.initial] by (fastforce split: option.splits)
  moreover have "c_str (fst (nul_requests ! 0)) = c_str (fst (nul_requests ! 1))" by (simp add: nul_requests_def c_str_def)
  ultimately show ?thesis by blast
qed

end
