(* ===== verification/ComputeRunsProperties.thy ===== *)
theory ComputeRunsProperties
  imports IdempotencyLocks JobProperties
begin

text \<open>
  Theorems on the runs of the Compute API: a repeated request is answered from the store and starts nothing, the
  handler refines the concurrent protocol, and what the report on the hardware says.
\<close>

section \<open>The table of requests\<close>

definition requests_of :: "runner \<Rightarrow> compute_request list option" where
  "requests_of s = map_option db_compute_requests (jr_db s)"

lemma requests_core: "core s' = core s \<Longrightarrow> requests_of s' = requests_of s"
  using core_eqD(2) [of s' s] by (simp add: requests_of_def)

lemma requests_store_run: "store_run ca row s = Inr s' \<Longrightarrow> requests_of s' = requests_of s"
  by (auto simp: store_run_def requests_of_def upsert_run_def fsd_split split: option.splits)

lemma requests_updates [simp]:
  "requests_of (s\<lparr>jr_runs := a\<rparr>) = requests_of s" "requests_of (s\<lparr>jr_modules := b\<rparr>) = requests_of s"
  "requests_of (s\<lparr>jr_params := c\<rparr>) = requests_of s" "requests_of (s\<lparr>jr_started := d\<rparr>) = requests_of s"
  "requests_of (s\<lparr>jr_requested := e\<rparr>) = requests_of s" "requests_of (s\<lparr>jr_tokens := f\<rparr>) = requests_of s"
  "requests_of (s\<lparr>jr_cells := g\<rparr>) = requests_of s" "requests_of (s\<lparr>jr_cancelable := h\<rparr>) = requests_of s"
  "requests_of (s\<lparr>jr_files := i\<rparr>) = requests_of s" "requests_of (s\<lparr>jr_progress := j\<rparr>) = requests_of s"
  "requests_of (s\<lparr>jr_tasks := k\<rparr>) = requests_of s" "requests_of (s\<lparr>jr_shutting_down := l\<rparr>) = requests_of s"
  by (simp_all add: requests_of_def)

lemma requests_set_status: "requests_of (snd (set_status ca i st s)) = requests_of s"
  by (auto simp: set_status_def Let_def dest: requests_store_run split: option.splits sum.splits)

lemma requests_set_progress: "requests_of (snd (set_progress ca i x s)) = requests_of s"
  by (auto simp: set_progress_def Let_def split: option.splits prod.splits)

lemma requests_add_artifact: "requests_of (snd (add_artifact ca i a s)) = requests_of s"
  by (auto simp: add_artifact_def Let_def requests_of_def insert_artifact_def fsd_split split: option.splits sum.splits prod.splits)

lemma requests_cancel: "requests_of (snd (request_cancel i s)) = requests_of s"
  by (auto simp: request_cancel_def Let_def split: option.splits)

lemma requests_cancelable: "requests_of (snd (set_cancelable i b s)) = requests_of s"
  by (auto simp: set_cancelable_def split: option.splits)

lemma requests_create: "requests_of (snd (create_run ca mdl params s)) = requests_of s"
proof -
  obtain r s' where c: "create_run ca mdl params s = (r, s')" by (cases "create_run ca mdl params s")
  from c have "requests_of s' = requests_of s"
  proof (cases rule: create_run_cases)
    case (failed e)
    then show ?thesis by (intro requests_core)
  next
    case (stored i p s1 run s2)
    then show ?thesis using requests_store_run [OF stored(5)] requests_core [OF stored(1)] by (simp add: remember_run_def)
  next
    case (refused i p s1 run s2 e)
    then show ?thesis using requests_core [OF refused(1)] by (simp add: remember_run_def forget_run_def)
  qed
  with c show ?thesis by simp
qed

lemma requests_kept: "requests_of (apply_op ca job s) = requests_of s"
  by (cases job)
    (simp_all add: requests_create requests_set_status requests_set_progress requests_add_artifact requests_cancel
      requests_cancelable background_task_token_def release_task_token_def begin_shutdown_def)

lemma requests_executes: "executes P s s' \<Longrightarrow> requests_of s' = requests_of s"
  by (induction rule: executes.induct) (simp_all add: requests_kept)

section \<open>The handler under the lock\<close>

text \<open>The rows of the store, as the concurrent protocol sees them.\<close>

definition request_rows :: "runner \<Rightarrow> string \<rightharpoonup> string \<times> string" where
  "request_rows s k =
    (case requests_of s of
       None \<Rightarrow> None
     | Some rs \<Rightarrow> map_option (\<lambda>r. (cr_hash r, cr_response r)) (select_key cr_key k rs))"

lemma request_rows_eq: "requests_of s = requests_of t \<Longrightarrow> request_rows s = request_rows t"
  by (simp add: request_rows_def fun_eq_iff)

lemma lookup_rows:
  "jr_db s = Some d \<Longrightarrow> sq_failure q = None \<Longrightarrow> get_compute_request_response q key d = Inr (request_rows s (c_str key))"
  by (auto simp: get_compute_request_response_def request_rows_def requests_of_def split: option.splits)

lemma store_rows:
  "upsert_compute_request_response q key h r now d = Inr d'
   \<Longrightarrow> request_rows (s\<lparr>jr_db := Some d'\<rparr>) = (request_rows (s\<lparr>jr_db := Some d\<rparr>))(c_str key \<mapsto> (c_str h, c_str r))"
  by (auto simp: upsert_compute_request_response_def Let_def fsd_split request_rows_def requests_of_def fun_eq_iff
      request_table.get_put)

text \<open>
  What the handler relies on: the routes that do the work leave the table of requests alone, and hashes and printed
  JSON are texts without NUL.
\<close>

definition routes_keep_requests :: "runner backend \<Rightarrow> bool" where
  "routes_keep_requests B \<longleftrightarrow> (\<forall>c s. requests_of (snd (be_route B c s)) = requests_of s)"

definition plain_texts :: "(string \<Rightarrow> string) \<Rightarrow> runner backend \<Rightarrow> bool" where
  "plain_texts H B \<longleftrightarrow> (\<forall>x. c_str (H x) = H x \<and> H x \<noteq> []) \<and> (\<forall>j. c_str (be_dump B j) = be_dump B j)"

lemma run_payload_keeps:
  assumes "routes_keep_requests B" and "run_payload B payload kind s = (r, s')"
  shows "requests_of s' = requests_of s"
proof (cases "map_of run_targets kind")
  case None
  with assms(2) show ?thesis by (simp add: run_payload_def from_api_def)
next
  case (Some t)
  obtain extra endpoint where t: "t = (extra, endpoint)" by (cases t)
  have k: "requests_of (snd (be_route B c s)) = requests_of s" for c using assms(1) by (simp add: routes_keep_requests_def)
  show ?thesis
    using assms(2) Some t k
    by (auto simp: run_payload_def from_api_def act_bind_def split: sum.splits prod.splits) (metis snd_conv)+
qed

text \<open>Every outcome of the part under the lock.\<close>

lemma create_locked_cases:
  assumes keep: "routes_keep_requests B" and texts: "plain_texts H B"
    and c: "create_locked H B ca kind key payload s = (r, s')"
  obtains (look_fails) e where "r = Inl e" "request_rows s' = request_rows s"
  | (conflict) "r = Inl (failure_of B (conflict_error key))" "s' = s"
      "replay_decision (request_rows s (c_str key)) (request_hash_of H B kind payload) = Key_Conflict"
  | (replayed) x where "r = Inr x" "s' = s"
      "replay_decision (request_rows s (c_str key)) (request_hash_of H B kind payload) = Replay x"
  | (run_fails) e where "r = Inl e" "request_rows s' = request_rows s"
      "replay_decision (request_rows s (c_str key)) (request_hash_of H B kind payload) = Run_Now"
  | (stored) x where "r = Inr x"
      "replay_decision (request_rows s (c_str key)) (request_hash_of H B kind payload) = Run_Now"
      "request_rows s' = (request_rows s)(c_str key \<mapsto> (request_hash_of H B kind payload, x))"
proof -
  let ?h = "request_hash_of H B kind payload"
  have h: "c_str ?h = ?h" using texts by (simp add: plain_texts_def request_hash_of_def)
  show ?thesis
  proof (cases "\<exists>d. jr_db s = Some d \<and> sq_failure (ca_sql ca) = None")
    case False
    then have "(\<exists>e. r = Inl e) \<and> s' = s"
      using c by (auto simp: create_locked_def Let_def act_bind_def read_db_def on_db_def get_compute_request_response_def
          check_sqlite_def split: option.splits)
    with look_fails show ?thesis by blast
  next
    case True
    then obtain d where d: "jr_db s = Some d" "sq_failure (ca_sql ca) = None" by blast
    have same: "s\<lparr>jr_db := Some d\<rparr> = s" using d(1) by simp
    have look: "read_db B (get_compute_request_response (ca_sql ca) key) s = (Inr (request_rows s (c_str key)), s)"
      using d same by (simp add: read_db_def on_db_def lookup_rows)
    show ?thesis
    proof (cases "replay_decision (request_rows s (c_str key)) ?h")
      case (Replay x)
      with c look have "r = Inr x" "s' = s" by (simp_all add: create_locked_def Let_def act_bind_def act_return_def)
      with Replay replayed show ?thesis by blast
    next
      case Key_Conflict
      with c look have "r = Inl (failure_of B (conflict_error key))" "s' = s"
        by (simp_all add: create_locked_def Let_def act_bind_def from_api_def)
      with Key_Conflict conflict show ?thesis by blast
    next
      case Run_Now
      obtain a t where run: "run_payload B payload kind s = (a, t)" by (cases "run_payload B payload kind s")
      note kept = request_rows_eq [OF run_payload_keeps [OF keep run]]
      show ?thesis
      proof (cases "\<exists>x. r = Inr x")
        case False
        then obtain e where "r = Inl e" by (cases r) auto
        moreover from this have "s' = t"
          using c look Run_Now run
          by (auto simp: create_locked_def Let_def act_bind_def from_api_def on_db_def act_return_def
              split: sum.splits prod.splits option.splits)
        ultimately show ?thesis using run_fails Run_Now kept by blast
      next
        case True
        then obtain x where x: "r = Inr x" by blast
        obtain j dt d' where j: "x = be_dump B j" "jr_db t = Some dt" and u: "s' = t\<lparr>jr_db := Some d'\<rparr>"
          "upsert_compute_request_response (ca_sql ca) key ?h x (ca_now ca) dt = Inr d'"
          using c look Run_Now run x
          by (auto simp: create_locked_def Let_def act_bind_def from_api_def on_db_def act_return_def fsd_split
              split: sum.splits prod.splits option.splits)
        have tt: "t\<lparr>jr_db := Some dt\<rparr> = t" using j(2) by simp
        have "c_str x = x" using texts j(1) by (simp add: plain_texts_def)
        then have "request_rows s' = (request_rows t)(c_str key \<mapsto> (?h, x))"
          using store_rows [OF u(2), of t] unfolding tt h u(1) by simp
        with kept x Run_Now stored show ?thesis by simp
      qed
    qed
  qed
qed

text \<open>
  C10: A repeated request is answered from the store. Once a request with a key was answered, then after anything the
  job runner did meanwhile (its workers' progress, other runs, failing statements) a request with that key and the
  same content gets the same response, one with another content is a conflict, and neither starts anything: the
  state stays as it is. No row is of the old version without hashes.
\<close>
theorem repeated_request_replayed:
  assumes B: "routes_keep_requests B" "plain_texts H B"
    and rows: "\<forall>k h x. request_rows s k = Some (h, x) \<longrightarrow> h \<noteq> []"
    and one: "parse_envelope True (parse_json_body B body) = Inr (kind, key, payload)"
    and first: "compute_create_run H B ca body s = (Inr response, s1)"
    and later: "executes P s1 s2" "jr_db s2 \<noteq> None" "sq_failure (ca_sql ca') = None"
    and two: "parse_envelope True (parse_json_body B body') = Inr (kind', key', payload')" "c_str key' = c_str key"
    and valid: "validate_orbit_payload H (be_what B) kind' payload' True = Inr p"
  shows "compute_create_run H B ca' body' s2
    = (if request_hash_of H B kind' payload' = request_hash_of H B kind payload
       then Inr response else Inl (failure_of B (conflict_error key')), s2)"
proof -
  let ?h = "request_hash_of H B kind payload"
  from first one have "create_locked H B ca kind key payload s = (Inr response, s1)"
    by (auto simp: compute_create_run_def act_bind_def from_api_def split: sum.splits)
  from B this have row: "request_rows s1 (c_str key) = Some (?h, response)"
  proof (cases rule: create_locked_cases)
    case (replayed x)
    then show ?thesis using rows by (auto simp: replay_decision_cases)
  qed simp_all
  have h: "?h \<noteq> []" using B(2) by (simp add: plain_texts_def request_hash_of_def)
  have now: "request_rows s2 (c_str key') = Some (?h, response)"
    using row request_rows_eq [OF requests_executes [OF later(1)]] two(2) by simp
  obtain d where d: "jr_db s2 = Some d" using later(2) by blast
  have same: "s2\<lparr>jr_db := Some d\<rparr> = s2" using d by simp
  have look: "read_db B (get_compute_request_response (ca_sql ca') key') s2 = (Inr (Some (?h, response)), s2)"
    using lookup_rows [OF d later(3), of key'] now by (simp add: read_db_def on_db_def d same)
  show ?thesis
    using look two(1) valid h
    by (simp add: compute_create_run_def act_bind_def from_api_def create_locked_def Let_def replay_decision_def act_return_def)
qed

text \<open>A backend whose routes answer at once.\<close>

definition sample_envelope :: json where
  "sample_envelope = obj [(''schemaVersion'', JInt 1), (''kind'', JString ''map_image''), (''idempotencyKey'', JString ''k''),
     (''payload'', obj [])]"

definition sample_backend :: "runner backend" where
  "sample_backend =
    \<lparr>be_parse = (\<lambda>x. Inr (if x = ''b'' then sample_envelope else obj [(''runId'', JString ''r'')])),
     be_dump = (\<lambda>j. ''{}''), be_what = (\<lambda>e. []), be_route = (\<lambda>c s. (Inr (json_reply ''x''), s)),
     be_production = (\<lambda>s a b c. False), be_random = (\<lambda>s. (0, 0))\<rparr>"

definition sample_server :: runner where
  "sample_server = idle_runner [] [] (Some empty_db)"

lemma sample_facts:
  "routes_keep_requests sample_backend" "plain_texts (\<lambda>x. ''h'') sample_backend"
  "request_rows sample_server k = None"
  "parse_envelope True (parse_json_body sample_backend ''b'') = Inr (''map_image'', ''k'', obj [])"
  "validate_orbit_payload (\<lambda>x. ''h'') (\<lambda>e. []) ''map_image'' (obj []) True = Inr None"
proof -
  show "routes_keep_requests sample_backend" by (simp add: routes_keep_requests_def sample_backend_def)
  show "plain_texts (\<lambda>x. ''h'') sample_backend" by (simp add: plain_texts_def sample_backend_def c_str_def)
  show "request_rows sample_server k = None"
    by (simp add: request_rows_def requests_of_def sample_server_def idle_runner_def empty_db_def select_key_def)
  have "parse_envelope True sample_envelope = Inr (''map_image'', ''k'', obj [])" by code_simp
  then show "parse_envelope True (parse_json_body sample_backend ''b'') = Inr (''map_image'', ''k'', obj [])"
    by (simp add: parse_json_body_def sample_backend_def)
  show "validate_orbit_payload (\<lambda>x. ''h'') (\<lambda>e. []) ''map_image'' (obj []) True = Inr None" by code_simp
qed

lemma sample_created:
  "\<exists>s1. compute_create_run (\<lambda>x. ''h'') sample_backend sample_call ''b'' sample_server = (Inr ''{}'', s1)
    \<and> jr_db s1 \<noteq> None"
proof -
  have t: "map_of run_targets ''map_image''
      = Some ([(''taskType'', JString ''still_export''), (''background'', JBool True)], Map_Render)"
    by (simp add: run_targets_def Let_def)
  have p: "\<exists>j. put_all [(''taskType'', JString ''still_export''), (''background'', JBool True)] (obj []) = Inr j"
    by (simp add: json_put_def obj_def)
  have run: "\<exists>x. run_payload sample_backend (obj []) ''map_image'' sample_server = (Inr (obj [(''runId'', JString ''r'')]), sample_server)"
    using p by (auto simp: run_payload_def t act_bind_def from_api_def sample_backend_def json_reply_def parse_legacy_response_def)
  have n: "\<exists>j. normalized_run_response ''map_image'' (obj [(''runId'', JString ''r'')]) = Inr j"
    by (simp add: normalized_run_response_def json_value_def get_string_def Let_def)
  have look: "read_db sample_backend (get_compute_request_response (ca_sql sample_call) ''k'') sample_server = (Inr None, sample_server)"
    using lookup_rows [of sample_server empty_db "ca_sql sample_call" "''k''"] sample_facts(3)
    by (simp add: read_db_def on_db_def sample_server_def idle_runner_def sample_call_def sample_sqlite_def)
  have w: "be_what sample_backend = (\<lambda>e. [])" "be_dump sample_backend = (\<lambda>j. ''{}'')" by (simp_all add: sample_backend_def)
  have db: "jr_db sample_server = Some empty_db" by (simp add: sample_server_def idle_runner_def)
  have up: "\<exists>d. upsert_compute_request_response (ca_sql sample_call) k h x n empty_db = Inr d" for k h x n
    by (simp add: upsert_compute_request_response_def Let_def sample_call_def sample_sqlite_def)
  show ?thesis
    using run n up [of "''k''" "''h''" "''{}''" "ca_now sample_call"]
    by (auto simp: compute_create_run_def act_bind_def from_api_def sample_facts w create_locked_def Let_def look
        replay_decision_def request_hash_of_def on_db_def db act_return_def)
qed

theorem repeated_request_replayed_witness:
  "\<exists>s1. compute_create_run (\<lambda>x. ''h'') sample_backend sample_call ''b'' sample_server = (Inr ''{}'', s1)
    \<and> compute_create_run (\<lambda>x. ''h'') sample_backend sample_call ''b'' s1 = (Inr ''{}'', s1)"
proof -
  obtain s1 where s1: "compute_create_run (\<lambda>x. ''h'') sample_backend sample_call ''b'' sample_server = (Inr ''{}'', s1)" "jr_db s1 \<noteq> None"
    using sample_created by blast
  have v: "validate_orbit_payload (\<lambda>x. ''h'') (be_what sample_backend) ''map_image'' (obj []) True = Inr None"
    using sample_facts(5) by (simp add: sample_backend_def)
  have "compute_create_run (\<lambda>x. ''h'') sample_backend sample_call ''b'' s1
      = (if request_hash_of (\<lambda>x. ''h'') sample_backend ''map_image'' (obj []) = request_hash_of (\<lambda>x. ''h'') sample_backend ''map_image'' (obj [])
         then Inr ''{}'' else Inl (failure_of sample_backend (conflict_error ''k'')), s1)"
    by (rule repeated_request_replayed [OF sample_facts(1,2) _ sample_facts(4) s1(1) executes.none s1(2) _ sample_facts(4) refl v])
      (simp_all add: sample_facts(3) sample_call_def sample_sqlite_def)
  with s1 show ?thesis by simp
qed

text \<open>
  C13: The handler is a path of the concurrent protocol. From the moment that a request owns the lock of its key, what
  \<^verbatim>\<open>computeV1CreateRunRoute\<close> does to the table of requests and what it answers is what the steps of its thread do.
\<close>
theorem handler_refines_protocol:
  assumes B: "routes_keep_requests B" "plain_texts H B"
    and c: "create_locked H B ca kind key payload s = (r, s')"
    and t: "i < length reqs" "reqs ! i = (key, request_hash_of H B kind payload)" "length (lt_phases t) = length reqs"
      "lt_phases t ! i = Checking m" "lt_rows t = request_rows s"
  shows "\<exists>n t' out. create_steps reqs n t t' \<and> lt_phases t' ! i = Finishing m out \<and> lt_rows t' = request_rows s'
    \<and> (case r of Inr x \<Rightarrow> out = Response x | Inl e \<Rightarrow> out = Failed \<or> out = Refused_key \<and> e = failure_of B (conflict_error key))"
proof -
  let ?h = "request_hash_of H B kind payload"
  have one: "create_step reqs t u \<Longrightarrow> create_steps reqs 1 t u" for u
    using create_steps.one_more [OF create_steps.no_step] by simp
  have miss: "create_step reqs t (at_phase i (Missed m) t)"
    if "replay_decision (request_rows s (c_str key)) ?h = Run_Now"
    using t that by (intro create_step.miss) simp_all
  from B c show ?thesis
  proof (cases rule: create_locked_cases)
    case (look_fails e)
    have "create_step reqs t (at_phase i (Finishing m Failed) t)" using t by (intro create_step.look_fails) simp_all
    from one [OF this] look_fails t show ?thesis
      by (intro exI [of _ 1] exI [of _ "at_phase i (Finishing m Failed) t"] exI [of _ Failed]) simp
  next
    case conflict
    have "create_step reqs t (at_phase i (Finishing m Refused_key) t)" using t conflict(3) by (intro create_step.conflict) simp_all
    from one [OF this] conflict t show ?thesis
      by (intro exI [of _ 1] exI [of _ "at_phase i (Finishing m Refused_key) t"] exI [of _ Refused_key]) simp
  next
    case (replayed x)
    have "create_step reqs t (at_phase i (Finishing m (Response x)) t)" using t replayed(3) by (intro create_step.replay) simp_all
    from one [OF this] replayed t show ?thesis
      by (intro exI [of _ 1] exI [of _ "at_phase i (Finishing m (Response x)) t"] exI [of _ "Response x"]) simp
  next
    case (run_fails e)
    let ?u = "at_phase i (Finishing m Failed) (at_phase i (Missed m) t)"
    have "create_step reqs (at_phase i (Missed m) t) ?u" using t by (intro create_step.run_fails) simp_all
    then have "create_steps reqs (Suc 1) t ?u" using one [OF miss [OF run_fails(3)]] by (intro create_steps.one_more)
    with run_fails t show ?thesis by (intro exI [of _ "Suc 1"] exI [of _ ?u] exI [of _ Failed]) simp
  next
    case (stored x)
    let ?a = "at_phase i (Missed m) t"
    let ?b = "at_phase i (Started m x) (?a\<lparr>lt_started := lt_started ?a @ [i]\<rparr>)"
    let ?u = "at_phase i (Finishing m (Response x)) (?b\<lparr>lt_rows := (lt_rows ?b)(c_str (fst (reqs ! i)) \<mapsto> (snd (reqs ! i), x))\<rparr>)"
    have "create_step reqs ?a ?b" using t by (intro create_step.run) simp_all
    moreover have "create_step reqs ?b ?u" using t by (intro create_step.store) simp_all
    ultimately have "create_steps reqs (Suc (Suc 1)) t ?u"
      using one [OF miss [OF stored(2)]] by (blast intro: create_steps.one_more)
    with stored t show ?thesis by (intro exI [of _ "Suc (Suc 1)"] exI [of _ ?u] exI [of _ "Response x"]) simp
  qed
qed

theorem handler_refines_protocol_witness:
  "\<exists>n t' s'. create_locked (\<lambda>x. ''h'') sample_backend sample_call ''map_image'' ''k'' (obj []) sample_server = (Inr ''{}'', s')
    \<and> create_steps [(''k'', ''h'')] n (at_phase 0 (Checking 0) (fresh_table [(''k'', ''h'')] Map.empty)) t'
    \<and> lt_phases t' ! 0 = Finishing 0 (Response ''{}'') \<and> lt_rows t' = request_rows s'"
proof -
  let ?t = "at_phase 0 (Checking 0) (fresh_table [(''k'', ''h'')] Map.empty)"
  obtain s' where "compute_create_run (\<lambda>x. ''h'') sample_backend sample_call ''b'' sample_server = (Inr ''{}'', s')"
    using sample_created by blast
  then have c: "create_locked (\<lambda>x. ''h'') sample_backend sample_call ''map_image'' ''k'' (obj []) sample_server = (Inr ''{}'', s')"
    by (auto simp: compute_create_run_def act_bind_def from_api_def sample_facts(4) split: sum.splits)
  have rows: "lt_rows ?t = request_rows sample_server"
    using sample_facts(3) by (simp add: fresh_table_def fun_eq_iff)
  have "[(''k'', ''h'')] ! 0 = (''k'', request_hash_of (\<lambda>x. ''h'') sample_backend ''map_image'' (obj []))"
    by (simp add: request_hash_of_def)
  from handler_refines_protocol [OF sample_facts(1,2) c _ this _ _ rows, of 0] c show ?thesis
    by (auto simp: fresh_table_def)
qed

section \<open>Cancellation\<close>

lemma request_cancel_result:
  assumes "request_cancel run s = (Inr res, s')"
  obtains r where "map_of (jr_runs s) run = Some r" "cq_accepted res \<longrightarrow> active_status (run_status r)"
    "cq_accepted res \<or> s' = s"
  using assms by (auto simp: request_cancel_def Let_def split: option.splits if_splits)

lemma cancel_answer_find:
  "is_object (cancel_answer run res)"
  "find_key (cancel_answer run res) ''accepted'' = Some (JBool (cq_accepted res))"
  "find_key (cancel_answer run res) ''cancelRequested'' = Some (JBool (cq_requested res))"
  "find_key (cancel_answer run res) ''status''
    = Some (JString (if cq_requested res then ''cancel_requested'' else cq_status res))"
  by (simp_all add: cancel_answer_def)

lemma cancel_route_result:
  assumes "cancel_run_route run s = (Inr j, s')"
  obtains res where "request_cancel run s = (Inr res, s')"
    "j = cancel_answer run res"
  using assms by (auto simp: cancel_run_route_def split: sum.splits prod.splits if_splits)

lemma compute_cancel_result:
  assumes "\<forall>res. be_parse B (be_dump B (cancel_answer run res)) = Inr (cancel_answer run res)" and "compute_cancel_run B run s = (Inr j, s')"
  obtains res data where "request_cancel run s = (Inr res, s')" "find_key j ''data'' = Some data"
    "find_key data ''accepted'' = Some (JBool (cq_accepted res))"
proof -
  from assms(2) obtain c where c: "cancel_run_route run s = (Inr c, s')"
    and j: "api_bind (parse_legacy_response B (be_dump B c) ''cancel'') (\<lambda>legacy. api_bind (api_of (cancel_data run legacy))
       (\<lambda>data. Inr (obj [(''schemaVersion'', JInt 1), (''data'', data)]))) = Inr j"
    by (auto simp: compute_cancel_run_def split: sum.splits prod.splits)
  from c obtain res where res: "request_cancel run s = (Inr res, s')"
    "c = cancel_answer run res"
    by (rule cancel_route_result)
  have p: "parse_legacy_response B (be_dump B c) ''cancel'' = Inr c" using assms(1) res(2) by (simp add: parse_legacy_response_def)
  from j obtain data where data: "cancel_data run c = Inr data" "find_key j ''data'' = Some data" by (auto simp: p fsd_split)
  from data(1) have "find_key data ''accepted'' = Some (JBool (cq_accepted res))"
    by (auto simp: cancel_data_def res(2) cancel_answer_find json_value_def get_bool_def fsd_split)
  with res(1) data(2) that show ?thesis by blast
qed

text \<open>
  The answer to a cancellation is true. When the API says that it accepted a cancellation, the run was queued or
  running and the flag that its worker polls is up; when it says that it did not, nothing has changed. The printed answer is read back as it was.
\<close>
theorem cancel_answer_truthful:
  assumes parse: "\<forall>res. be_parse B (be_dump B (cancel_answer run res)) = Inr (cancel_answer run res)" and inv: "tokens_inv s"
    and c: "compute_cancel_run B run s = (Inr j, s')"
  shows "\<exists>data accepted. find_key j ''data'' = Some data \<and> find_key data ''accepted'' = Some (JBool accepted)
    \<and> (if accepted
       then \<exists>r a. map_of (jr_runs s) run = Some r \<and> active_status (run_status r) \<and> jr_tokens s' run = Some a
          \<and> a < length (jr_cells s') \<and> jr_cells s' ! a \<and> is_cancel_requested run s'
       else s' = s)"
proof -
  from parse c obtain res data where res: "request_cancel run s = (Inr res, s')"
    and j: "find_key j ''data'' = Some data" "find_key data ''accepted'' = Some (JBool (cq_accepted res))"
    by (rule compute_cancel_result)
  from res obtain r where r: "map_of (jr_runs s) run = Some r"
    and acc: "cq_accepted res \<longrightarrow> active_status (run_status r)" "cq_accepted res \<or> s' = s"
    by (rule request_cancel_result)
  have "\<exists>a. jr_tokens s' run = Some a \<and> a < length (jr_cells s') \<and> jr_cells s' ! a \<and> is_cancel_requested run s'"
    if "cq_accepted res"
  proof -
    from inv r obtain a where a: "jr_tokens s run = Some a" "a < length (jr_cells s)" by (auto simp: tokens_inv_def)
    with res that r show ?thesis
      by (auto simp: request_cancel_def Let_def is_cancel_requested_def at_or_def split: if_splits)
  qed
  with acc j r show ?thesis
    by (intro exI [of _ data] exI [of _ "cq_accepted res"]) auto
qed

text \<open>A printer of such answers for a run \<open>r\<close>, and its reader.\<close>

definition flag_char :: "bool \<Rightarrow> char" where "flag_char b = (if b then CHR ''1'' else CHR ''0'')"

definition print_answer :: "json \<Rightarrow> string" where
  "print_answer j =
    (case (find_key j ''accepted'', find_key j ''cancelRequested'', find_key j ''status'') of
       (Some (JBool a), Some (JBool q), Some (JString st)) \<Rightarrow> flag_char a # flag_char q # st
     | _ \<Rightarrow> [])"

definition read_answer :: "string \<Rightarrow> json" where
  "read_answer x = obj [(''runId'', JString ''r''), (''status'', JString (drop 2 x)),
     (''accepted'', JBool (x ! 0 = CHR ''1'')), (''cancelRequested'', JBool (x ! 1 = CHR ''1''))]"

lemma read_print_answer: "read_answer (print_answer (cancel_answer ''r'' res)) = cancel_answer ''r'' res"
  by (simp add: read_answer_def print_answer_def cancel_answer_def flag_char_def)

definition busy_server :: runner where
  "busy_server = sample_server\<lparr>jr_runs := [(''r'', sample_record\<lparr>run_status := ''running''\<rparr>)],
     jr_tokens := [''r'' \<mapsto> 0], jr_cells := [False], jr_cancelable := [''r'' \<mapsto> True]\<rparr>"

theorem cancel_answer_truthful_witness:
  "\<exists>j s'. compute_cancel_run (sample_backend\<lparr>be_parse := \<lambda>x. Inr (read_answer x), be_dump := print_answer\<rparr>) ''r'' busy_server
      = (Inr j, s') \<and> jr_cells s' = [True]
    \<and> (\<exists>data. find_key j ''data'' = Some data \<and> find_key data ''accepted'' = Some (JBool True))"
proof -
  let ?B = "sample_backend\<lparr>be_parse := \<lambda>x. Inr (read_answer x), be_dump := print_answer\<rparr>"
  have inv: "tokens_inv busy_server"
    by (simp add: tokens_inv_def busy_server_def sample_server_def idle_runner_def is_cancel_requested_def at_or_def)
  have p: "\<forall>res. be_parse ?B (be_dump ?B (cancel_answer ''r'' res)) = Inr (cancel_answer ''r'' res)"
    by (simp add: read_print_answer)
  have q: "\<exists>res s'. request_cancel ''r'' busy_server = (Inr res, s') \<and> cq_accepted res \<and> cq_cancelable res \<and> jr_cells s' = [True]"
    by (simp add: request_cancel_def busy_server_def sample_server_def idle_runner_def Let_def active_status_def at_or_def)
  then obtain res s' where rs: "request_cancel ''r'' busy_server = (Inr res, s')" "cq_accepted res" "cq_cancelable res" "jr_cells s' = [True]"
    by blast
  have cell: "jr_cells busy_server = [False]" by (simp add: busy_server_def)
  have g: "require_compute_run ''r'' busy_server = Inr ()"
    by (simp add: require_compute_run_def get_run_def busy_server_def)
  obtain j where j: "compute_cancel_run ?B ''r'' busy_server = (Inr j, s')"
  proof
    show "compute_cancel_run ?B ''r'' busy_server
      = (Inr (obj [(''schemaVersion'', JInt 1), (''data'', obj [(''computeRunId'', JString ''r''),
          (''status'', JString (if cq_requested res then ''cancel_requested'' else cq_status res)),
          (''accepted'', JBool (cq_accepted res)), (''cancelRequested'', JBool (cq_requested res))])]), s')"
      using rs(1-3) by (simp add: compute_cancel_run_def g cancel_run_route_def parse_legacy_response_def read_print_answer
          cancel_data_def cancel_answer_find json_value_def get_string_def get_bool_def)
  qed
  from cancel_answer_truthful [OF p inv j] rs(4) cell j show ?thesis by (auto split: if_splits)
qed

section \<open>Evidence of the hardware\<close>

text \<open>
  The tile scheduler reports the engine of a frame that both processors rendered as \<^verbatim>\<open>hybrid\<close>, which names neither:
  the report of such a run says \<^verbatim>\<open>unknown\<close> and that no runtime is available.
\<close>

lemma hybrid_run_unknown:
  "\<exists>j. hardware_execution_json caps ''completed''
      (obj [(''engine'', JString ''hybrid''), (''scalar'', JString ''fp64''), (''kernelReported'', JBool True)]) (obj []) = Inr j
    \<and> find_key j ''kernelReported'' = Some (JBool True)
    \<and> find_key j ''hardwareClass'' = Some (JString ''unknown'') \<and> find_key j ''runtimeAvailable'' = Some (JBool False)"
proof -
  have m: "hardware_class_for_engine ''hybrid'' = ''unknown''" by code_simp
  show ?thesis
    by (simp add: hardware_execution_json_def json_value_def single_path_evidence_def get_string_def get_bool_def get_double_def
        value_or_def kernel_flag_def Let_def m runtime_available_def)
qed

text \<open>
  What a status report says of the engines. A fallback is reported exactly for a completed run whose kernel named
  the engine it used, when the request named another one; until then the report claims neither a kernel nor a
  fallback, and the evidence says so.
\<close>
lemma fallback_reported_iff:
  assumes "single_path_evidence caps st progress params = Inr j"
    and "json_value get_string params ''engine'' ''auto'' = Inr wanted"
    and "value_or progress ''engine'' ''finalFrameEngine'' = Inr actual"
  shows "\<exists>reported. find_key j ''kernelReported'' = Some (JBool reported)
    \<and> (reported \<longleftrightarrow> st = ''completed'' \<and> actual \<noteq> [] \<and> json_value get_bool progress ''kernelReported'' False = Inr True)
    \<and> find_key j ''engineFallback'' = Some (JBool (reported \<and> wanted \<noteq> [] \<and> wanted \<noteq> ''auto'' \<and> find_sub wanted actual = None))
    \<and> find_key j ''evidenceSource'' = Some (JString (if reported then ''kernel_completion_telemetry'' else ''not_yet_reported''))"
proof -
  from assms obtain flag where flag: "kernel_flag st progress = Inr flag"
    and j: "find_key j ''kernelReported'' = Some (JBool (flag \<and> actual \<noteq> []))"
      "find_key j ''engineFallback'' = Some (JBool ((flag \<and> actual \<noteq> []) \<and> \<not> requested_engine_matches wanted actual))"
      "find_key j ''evidenceSource''
        = Some (JString (if flag \<and> actual \<noteq> [] then ''kernel_completion_telemetry'' else ''not_yet_reported''))"
    unfolding single_path_evidence_def res_bind_Inr_iff Let_def
    by (elim exE conjE) (clarsimp simp: assms(2,3))
  have "flag \<longleftrightarrow> st = ''completed'' \<and> json_value get_bool progress ''kernelReported'' False = Inr True"
    using flag by (auto simp: kernel_flag_def split: if_splits)
  moreover have "(flag \<and> actual \<noteq> []) \<and> \<not> requested_engine_matches wanted actual
      \<longleftrightarrow> (flag \<and> actual \<noteq> []) \<and> wanted \<noteq> [] \<and> wanted \<noteq> ''auto'' \<and> find_sub wanted actual = None"
    by (auto simp: requested_engine_matches_def mentions_def)
  ultimately show ?thesis using j by (intro exI [of _ "flag \<and> actual \<noteq> []"]) auto
qed

end
