(* ===== verification/PlatformCompute.thy ===== *)
theory PlatformCompute
  imports ComputeRuns
begin

text \<open>
  The interface for the platform (\<^verbatim>\<open>api/routes_platform_compute.cpp\<close>): a stricter contract in front of the Compute
  API, with its own names for engines and scalars, and errors that say nothing of the inside.
\<close>

section \<open>Failures\<close>

text \<open>\<^verbatim>\<open>ContractError\<close> with status, code and message, or what left an inner route.\<close>

datatype contract_failure = Contract_Error int string string | Inner failure

type_synonym 'a contract = "contract_failure + 'a"

definition contract_reject :: "int \<Rightarrow> string \<Rightarrow> string \<Rightarrow> 'a contract" where
  "contract_reject st code message = Inl (Contract_Error st code message)"

definition invalid :: "string \<Rightarrow> contract_failure" where
  "invalid message = Contract_Error 400 ''invalid_request'' message"

text \<open>An exception that is not an \<^verbatim>\<open>HttpError\<close>.\<close>

definition inner_exn :: "exn \<Rightarrow> contract_failure" where
  "inner_exn e = Inner (if e = Undefined then Lost else Std_Error [])"

definition contract_of :: "'a res \<Rightarrow> 'a contract" where
  "contract_of r = (case r of Inl e \<Rightarrow> Inl (inner_exn e) | Inr x \<Rightarrow> Inr x)"

section \<open>Members of a request\<close>

definition max_body_bytes :: nat where "max_body_bytes = 2 ^ 20"
definition max_artifact_bytes :: int where "max_artifact_bytes = 524288000"

definition strict_object :: "'s backend \<Rightarrow> string \<Rightarrow> json contract" where
  "strict_object B body =
    refuse_if (length body > max_body_bytes)
      (Contract_Error 413 ''request_too_large'' ''request body exceeds the Compute contract limit'')
    (case be_parse B body of
       Inl _ \<Rightarrow> contract_reject 400 ''invalid_json'' ''request body must be valid JSON''
     | Inr j \<Rightarrow> refuse_if (\<not> is_object j) (invalid ''request body must be a JSON object'') (Inr j))"

definition required :: "json \<Rightarrow> string \<Rightarrow> json contract" where
  "required j field =
    (case given j field of None \<Rightarrow> Inl (invalid (field @ '' is required'')) | Some v \<Rightarrow> Inr v)"

definition too_large :: "string \<Rightarrow> string \<Rightarrow> contract_failure" where
  "too_large field message = Contract_Error 413 ''request_limit_exceeded'' (field @ message)"

definition require_string :: "json \<Rightarrow> string \<Rightarrow> nat \<Rightarrow> string contract" where
  "require_string j field max_length =
    api_bind (required j field) (\<lambda>item.
      case item of
        JString s \<Rightarrow>
          refuse_if (s = []) (invalid (field @ '' must not be empty''))
          (refuse_if (length s > max_length) (too_large field '' exceeds the maximum length'') (Inr s))
      | _ \<Rightarrow> Inl (invalid (field @ '' must be a string'')))"

definition optional_string :: "json \<Rightarrow> string \<Rightarrow> nat \<Rightarrow> string contract" where
  "optional_string j field max_length =
    (case given j field of
       None \<Rightarrow> Inr []
     | Some (JString s) \<Rightarrow> refuse_if (length s > max_length) (too_large field '' exceeds the maximum length'') (Inr s)
     | Some _ \<Rightarrow> Inl (invalid (field @ '' must be a string'')))"

definition finite_number :: "string \<Rightarrow> json \<Rightarrow> fl contract" where
  "finite_number field item =
    refuse_if (\<not> is_number item) (invalid (field @ '' must be a number''))
    (api_bind (contract_of (get_double item)) (\<lambda>x.
     refuse_if (\<not> fis_finite x) (invalid (field @ '' must be finite'')) (Inr x)))"

definition require_finite_number :: "json \<Rightarrow> string \<Rightarrow> fl contract" where
  "require_finite_number j field = api_bind (required j field) (finite_number field)"

definition optional_finite_number :: "json \<Rightarrow> string \<Rightarrow> fl \<Rightarrow> fl contract" where
  "optional_finite_number j field fallback =
    (case given j field of None \<Rightarrow> Inr fallback | Some v \<Rightarrow> finite_number field v)"

definition require_bounded_integer :: "json \<Rightarrow> string \<Rightarrow> int \<Rightarrow> int \<Rightarrow> int contract" where
  "require_bounded_integer j field minimum maximum =
    api_bind (required j field) (\<lambda>item.
    refuse_if (\<not> is_number_integer item) (invalid (field @ '' must be an integer''))
    (api_bind (contract_of (get_int 64 item)) (\<lambda>i.
     refuse_if (i < minimum) (invalid (field @ '' is below the minimum''))
     (refuse_if (i > maximum) (too_large field '' exceeds the maximum'') (Inr i)))))"

definition optional_positive :: "json \<Rightarrow> string \<Rightarrow> unit contract" where
  "optional_positive j field =
    (if given j field = None then Inr ()
     else api_bind (optional_finite_number j field (Fin 0)) (\<lambda>x.
       refuse_if (\<not> flt (Fin 0) x) (invalid (field @ '' must be greater than zero'')) (Inr ())))"

definition optional_boolean :: "json \<Rightarrow> string \<Rightarrow> unit contract" where
  "optional_boolean j field =
    (case given j field of
       None \<Rightarrow> Inr ()
     | Some v \<Rightarrow> refuse_if (\<not> is_boolean v) (invalid (field @ '' must be a boolean'')) (Inr ()))"

definition require_client_job_id :: "json \<Rightarrow> string contract" where
  "require_client_job_id j =
    api_bind (require_string j ''clientJobId'' 36) (\<lambda>i.
    refuse_if (\<not> is_uuid i) (Contract_Error 400 ''invalid_client_job_id'' ''clientJobId must be a UUID'') (Inr i))"

definition validate_optional_request_id :: "json \<Rightarrow> unit contract" where
  "validate_optional_request_id j =
    (case given j ''requestId'' of
       None \<Rightarrow> Inr ()
     | Some v \<Rightarrow> refuse_if (case v of JString s \<Rightarrow> \<not> is_uuid s | _ \<Rightarrow> True)
         (Contract_Error 400 ''invalid_request_id'' ''requestId must be a UUID'') (Inr ()))"

section \<open>Names of engines and scalars\<close>

definition map_engine :: "json \<Rightarrow> string contract" where
  "map_engine j =
    api_bind (optional_string j ''engine'' 16) (\<lambda>engine.
      if engine = [] \<or> engine = ''auto'' then Inr ''auto''
      else if engine = ''cpu'' then Inr ''openmp''
      else if engine = ''cuda'' then Inr ''cuda''
      else Inl (invalid ''engine must be auto, cpu, or cuda''))"

definition map_map_scalar :: "json \<Rightarrow> string contract" where
  "map_map_scalar j =
    api_bind (optional_string j ''scalarType'' 24) (\<lambda>scalar.
      if scalar = [] \<or> scalar = ''auto'' then Inr ''auto''
      else if scalar = ''float'' then Inr ''fp32''
      else if scalar = ''double'' then Inr ''fp64''
      else if scalar = ''long_double'' then Inr ''fp80''
      else Inl (invalid ''scalarType must be auto, float, double, or long_double''))"

section \<open>Validation of requests\<close>

definition positive_number :: "json \<Rightarrow> string \<Rightarrow> unit contract" where
  "positive_number j field =
    api_bind (require_finite_number j field) (\<lambda>x.
    refuse_if (\<not> flt (Fin 0) x) (invalid (field @ '' must be greater than zero'')) (Inr ()))"

definition optional_number :: "json \<Rightarrow> string \<Rightarrow> unit contract" where
  "optional_number j field =
    (if given j field = None then Inr ()
     else api_bind (optional_finite_number j field (Fin 0)) (\<lambda>_. Inr ()))"

definition validate_contract_colors :: "(exn \<Rightarrow> string) \<Rightarrow> json \<Rightarrow> unit contract" where
  "validate_contract_colors what j =
    api_bind (optional_string j ''colorMap'' 64) (\<lambda>color_map.
    refuse_if (color_map \<noteq> [] \<and> colormap_from_name color_map = None) (invalid ''colorMap is not a supported built-in ID'')
    (case given j ''colorProgram'' of
       None \<Rightarrow> Inr ()
     | Some program \<Rightarrow>
         refuse_if (color_map \<noteq> []) (invalid ''colorMap and colorProgram are mutually exclusive'')
         (api_bind (contract_of (json_value get_string j ''colorMode'' ''direct'')) (\<lambda>mode.
          refuse_if (mode \<noteq> ''direct'') (invalid ''colorProgram v1 requires colorMode=direct'')
          (case parse_color_program_json program of
             Inr _ \<Rightarrow> Inr ()
           | Inl e \<Rightarrow> Inl (if e = Undefined then Inner Lost else invalid (what e)))))))"

definition put_member :: "string \<Rightarrow> json \<Rightarrow> json \<Rightarrow> json contract" where
  "put_member k v j = contract_of (json_put k v j)"

definition validate_map :: "(exn \<Rightarrow> string) \<Rightarrow> int \<Rightarrow> json \<Rightarrow> json contract" where
  "validate_map what maximum j =
    api_bind (require_bounded_integer j ''width'' 1 maximum) (\<lambda>_.
    api_bind (require_bounded_integer j ''height'' 1 maximum) (\<lambda>_.
    api_bind (require_bounded_integer j ''iterations'' 1 1000000) (\<lambda>_.
    api_bind (require_string j ''variant'' 64) (\<lambda>_.
    api_bind (require_finite_number j ''centerRe'') (\<lambda>_.
    api_bind (require_finite_number j ''centerIm'') (\<lambda>_.
    api_bind (positive_number j ''scale'') (\<lambda>_.
    api_bind (validate_contract_colors what j) (\<lambda>_.
    api_bind (optional_boolean j ''julia'') (\<lambda>_.
    api_bind (optional_number j ''juliaRe'') (\<lambda>_.
    api_bind (optional_number j ''juliaIm'') (\<lambda>_.
    api_bind (optional_positive j ''bailout'') (\<lambda>_.
    api_bind (validate_optional_request_id j) (\<lambda>_.
    api_bind (map_engine j) (\<lambda>engine.
    api_bind (put_member ''engine'' (JString engine) j) (\<lambda>j.
    api_bind (map_map_scalar j) (\<lambda>scalar.
    put_member ''scalarType'' (JString scalar) j))))))))))))))))"

definition validate_hs_mesh :: "json \<Rightarrow> json contract" where
  "validate_hs_mesh j =
    api_bind (require_finite_number j ''centerRe'') (\<lambda>_.
    api_bind (require_finite_number j ''centerIm'') (\<lambda>_.
    api_bind (positive_number j ''scale'') (\<lambda>_.
    api_bind (require_bounded_integer j ''resolution'' 8 1024) (\<lambda>_.
    api_bind (require_bounded_integer j ''iterations'' 1 1000000) (\<lambda>_.
    api_bind (require_string j ''variant'' 64) (\<lambda>_.
    api_bind (optional_number j ''heightScale'') (\<lambda>_.
    api_bind (optional_positive j ''heightClamp'') (\<lambda>_.
    api_bind (optional_positive j ''bailout'') (\<lambda>_.
    Inr j)))))))))"

definition validate_transition_mesh :: "json \<Rightarrow> json contract" where
  "validate_transition_mesh j =
    api_bind (require_finite_number j ''centerX'') (\<lambda>_.
    api_bind (require_finite_number j ''centerY'') (\<lambda>_.
    api_bind (require_finite_number j ''centerZ'') (\<lambda>_.
    api_bind (positive_number j ''extent'') (\<lambda>_.
    api_bind (require_bounded_integer j ''resolution'' 8 1024) (\<lambda>_.
    api_bind (require_bounded_integer j ''iterations'' 1 10000) (\<lambda>_.
    api_bind (require_string j ''transitionFrom'' 64) (\<lambda>_.
    api_bind (require_string j ''transitionTo'' 64) (\<lambda>_.
    api_bind (optional_positive j ''bailout'') (\<lambda>_.
    api_bind (optional_number j ''iso'') (\<lambda>_.
    api_bind (map_engine j) (\<lambda>engine.
    api_bind (put_member ''engine'' (JString engine) j) (\<lambda>j.
    api_bind (optional_string j ''scalarType'' 16) (\<lambda>scalar.
    refuse_if (scalar \<noteq> [] \<and> scalar \<noteq> ''fp32'' \<and> scalar \<noteq> ''fp64'') (invalid ''scalarType must be fp32 or fp64'')
    (if scalar = [] then put_member ''scalarType'' (JString ''fp32'') j else Inr j))))))))))))))"

section \<open>Routes\<close>

text \<open>A route reads and changes the runner; the inner routes fail with a \<open>failure\<close>.\<close>

type_synonym 'a platform = "runner \<Rightarrow> 'a contract \<times> runner"

definition pf_return :: "'a \<Rightarrow> 'a platform" where
  "pf_return x = (\<lambda>s. (Inr x, s))"

definition pf_bind :: "'a platform \<Rightarrow> ('a \<Rightarrow> 'b platform) \<Rightarrow> 'b platform" where
  "pf_bind m f = (\<lambda>s. case m s of (Inl e, s) \<Rightarrow> (Inl e, s) | (Inr x, s) \<Rightarrow> f x s)"

definition checked :: "'a contract \<Rightarrow> 'a platform" where
  "checked r = (\<lambda>s. (r, s))"

definition inner :: "(runner, 'a) act \<Rightarrow> 'a platform" where
  "inner m = (\<lambda>s. case m s of (Inl e, s) \<Rightarrow> (Inl (Inner e), s) | (Inr x, s) \<Rightarrow> (Inr x, s))"

text \<open>\<^verbatim>\<open>j.at(key)\<close>\<close>

definition json_at :: "json \<Rightarrow> string \<Rightarrow> json res" where
  "json_at j k = (if \<not> is_object j then Inl TypeError else case find_key j k of None \<Rightarrow> Inl OutOfRange | Some v \<Rightarrow> Inr v)"

definition parse_json_response :: "'s backend \<Rightarrow> string \<Rightarrow> json contract" where
  "parse_json_response B body =
    (case be_parse B body of
       Inl _ \<Rightarrow> contract_of (Inl (RuntimeError ''internal Compute adapter returned invalid JSON''))
     | Inr j \<Rightarrow> Inr j)"

definition ok_reply :: "'s backend \<Rightarrow> json \<Rightarrow> reply" where
  "ok_reply B j = json_reply (be_dump B j)"

definition compute_envelope :: "string \<Rightarrow> string \<Rightarrow> json \<Rightarrow> json" where
  "compute_envelope kind client_job payload =
    obj [(''schemaVersion'', JInt 1), (''kind'', JString kind), (''idempotencyKey'', JString client_job), (''payload'', payload)]"

definition platform_create_run ::
    "compute_env \<Rightarrow> runner backend \<Rightarrow> call \<Rightarrow> string \<Rightarrow> json \<Rightarrow> string \<Rightarrow> reply platform" where
  "platform_create_run E B ca kind payload client_job =
    pf_bind (checked (put_member ''clientJobId'' (JString client_job) payload)) (\<lambda>payload.
    pf_bind (inner (compute_create_run (ev_hash E) B ca (be_dump B (compute_envelope kind client_job payload)))) (\<lambda>text1.
    pf_bind (checked (parse_json_response B text1)) (\<lambda>internal.
    pf_bind (checked (contract_of (json_at internal ''data''))) (\<lambda>data.
    pf_bind (checked (contract_of (json_at data ''computeRunId''))) (\<lambda>run.
    pf_bind (checked (contract_of (json_value get_string data ''status'' ''queued''))) (\<lambda>st.
    pf_return (ok_reply B (obj [(''runId'', run), (''clientJobId'', JString client_job), (''status'', JString st)]))))))))"

text \<open>A run that the platform may see: its stored parameters name a client job.\<close>

definition run_hidden :: contract_failure where
  "run_hidden = Contract_Error 404 ''run_not_found'' ''Compute run was not found''"

definition platform_run :: "runner backend \<Rightarrow> call \<Rightarrow> string \<Rightarrow> runner \<Rightarrow> (run_row \<times> json) contract" where
  "platform_run B ca run s =
    refuse_if (run = [] \<or> length run > 128) (invalid ''runId must contain 1..128 characters'')
    (refuse_if (validate_run_id run \<noteq> Inr ()) (invalid ''runId contains invalid path characters'')
    (case res_bind (opened s) (get_run_row (ca_sql ca) run) of
       Inl _ \<Rightarrow> Inl run_hidden
     | Inr row \<Rightarrow>
         (case be_parse B (rr_params row) of
            Inl _ \<Rightarrow> contract_reject 500 ''compute_failure'' ''Compute run metadata is invalid''
          | Inr params \<Rightarrow>
              api_bind (contract_of (json_value get_string params ''clientJobId'' [])) (\<lambda>client_job.
              refuse_if (\<not> is_uuid client_job) run_hidden (Inr (row, params))))))"

text \<open>\<^verbatim>\<open>std::clamp\<close>, and \<^verbatim>\<open>std::lround\<close> to an \<^verbatim>\<open>int\<close>.\<close>

definition progress_percent :: "string \<Rightarrow> json \<Rightarrow> int res" where
  "progress_percent st progress =
    (if st = ''completed'' then Inr 100
     else if st = ''queued'' then Inr 0
     else res_bind (json_value get_double progress ''percent'' (Fin 0)) (\<lambda>percent.
       let p = (if fis_finite percent then percent else Fin 0);
           clamped = (if flt p (Fin 0) then Fin 0 else if flt (Fin 100) p then Fin 100 else p)
       in case fllround clamped of None \<Rightarrow> Inl Undefined | Some i \<Rightarrow> Inr (wrap_int 32 i)))"

text \<open>A conversion to \<^verbatim>\<open>uintmax_t\<close>.\<close>

definition get_size :: "json \<Rightarrow> int res" where
  "get_size j =
    (case j of
       JInt i \<Rightarrow> Inr (i mod 2 ^ 64)
     | JBool b \<Rightarrow> Inr (if b then 1 else 0)
     | JFloat x \<Rightarrow>
         (if fis_finite x \<and> 0 \<le> rtrunc (fval x) \<and> rtrunc (fval x) < 2 ^ 64 then Inr (rtrunc (fval x)) else Inl Undefined)
     | _ \<Rightarrow> Inl TypeError)"

definition public_media :: "string list" where
  "public_media = [''image/png'', ''video/mp4'', ''model/gltf-binary'', ''model/stl'']"

fun any_video :: "json list \<Rightarrow> bool res" where
  "any_video [] = Inr False"
| "any_video (j # js) =
    res_bind (json_value get_string j ''mediaType'' []) (\<lambda>m. if m = ''video/mp4'' then Inr True else any_video js)"

fun public_artifact_list :: "bool \<Rightarrow> json list \<Rightarrow> json list res" where
  "public_artifact_list has_video [] = Inr []"
| "public_artifact_list has_video (j # js) =
    res_bind (json_value get_string j ''mediaType'' []) (\<lambda>m.
    let media = (if m = ''application/sla'' then ''model/stl'' else m)
    in if media \<notin> set public_media then public_artifact_list has_video js
       else res_bind (json_value get_size j ''sizeBytes'' 0) (\<lambda>bytes.
         if bytes = 0 \<or> bytes > max_artifact_bytes then public_artifact_list has_video js
         else res_bind (json_value get_string j ''artifactId'' []) (\<lambda>i.
              res_bind (public_artifact_list has_video js) (\<lambda>rest.
              Inr (obj [(''artifactId'', JString i),
                (''purpose'', JString (if has_video \<and> media = ''image/png'' then ''preview_source'' else ''master'')),
                (''mediaType'', JString media), (''sizeBytes'', JInt bytes)] # rest)))))"

definition public_artifacts :: "runner backend \<Rightarrow> string \<Rightarrow> string \<Rightarrow> json list platform" where
  "public_artifacts B run st =
    (if st \<noteq> ''completed'' then pf_return []
     else pf_bind (inner (be_route B (Compute_Manifest run))) (\<lambda>r.
       pf_bind (checked (parse_json_response B (rp_body r))) (\<lambda>manifest.
       pf_bind (checked (contract_of (json_value Inr manifest ''artifacts'' (JArray [])))) (\<lambda>listed.
       pf_bind (checked (contract_of (any_video (iterated listed)))) (\<lambda>has_video.
       checked (contract_of (public_artifact_list has_video (iterated listed))))))))"

definition platform_run_status :: "compute_env \<Rightarrow> runner backend \<Rightarrow> call \<Rightarrow> string \<Rightarrow> reply platform" where
  "platform_run_status E B ca run =
    pf_bind (\<lambda>s. (platform_run B ca run s, s)) (\<lambda>found.
    pf_bind (inner (dumped B (\<lambda>s. (compute_run_status B ca (ev_caps E) run s, s)))) (\<lambda>r.
    pf_bind (checked (parse_json_response B (rp_body r))) (\<lambda>internal.
    pf_bind (checked (contract_of (json_at internal ''data''))) (\<lambda>data.
    pf_bind (checked (contract_of (json_value get_string data ''status'' (rr_status (fst found))))) (\<lambda>st.
    pf_bind (checked (contract_of (json_value Inr data ''progress'' (obj [])))) (\<lambda>progress.
    pf_bind (checked (contract_of (json_at (snd found) ''clientJobId''))) (\<lambda>client_job.
    pf_bind (checked (contract_of (progress_percent st progress))) (\<lambda>percent.
    pf_bind (public_artifacts B run st) (\<lambda>artifacts.
    pf_return (ok_reply B (obj ([(''runId'', JString run), (''clientJobId'', client_job), (''status'', JString st),
       (''progressPercent'', JInt percent), (''artifacts'', JArray artifacts)]
       @ (if st = ''failed'' then [(''error'', JString ''compute_failed'')] else [])))))))))))))"

definition method_check :: "string \<Rightarrow> string \<Rightarrow> unit platform" where
  "method_check wanted_method meth =
    checked (refuse_if (meth \<noteq> wanted_method) (Contract_Error 405 ''method_not_allowed'' ''method not allowed'') (Inr ()))"

definition must_be_true :: "json \<Rightarrow> string \<Rightarrow> unit contract" where
  "must_be_true j field =
    api_bind (required j field) (\<lambda>v. refuse_if (v \<noteq> JBool True) (invalid (field @ '' must be true'')) (Inr ()))"

definition video_payload :: "(exn \<Rightarrow> string) \<Rightarrow> json \<Rightarrow> json contract" where
  "video_payload what j =
    api_bind (validate_map what 4096 j) (\<lambda>payload.
    api_bind (contract_of (json_value (get_int 32) payload ''width'' 0)) (\<lambda>w.
    api_bind (contract_of (json_value (get_int 32) payload ''height'' 0)) (\<lambda>h.
    refuse_if (w < 128 \<or> h < 128) (invalid ''video width and height must be at least 128'')
    (api_bind (require_bounded_integer payload ''fps'' 1 60) (\<lambda>_.
     api_bind (require_finite_number payload ''durationSeconds'') (\<lambda>duration.
     refuse_if (\<not> flt (Fin 0) duration) (invalid ''durationSeconds must be greater than zero'')
     (refuse_if (flt (Fin 30) duration) (too_large ''durationSeconds'' '' exceeds the maximum'')
     (api_bind (put_member ''durationSec'' (JFloat duration) payload) (\<lambda>payload.
      Inr (JObject (filter (\<lambda>(k, v). k \<noteq> ''durationSeconds'') (items payload))))))))))))"

definition platform_route_impl ::
    "compute_env \<Rightarrow> runner backend \<Rightarrow> call \<Rightarrow> string \<Rightarrow> string \<Rightarrow> string \<Rightarrow> string \<Rightarrow> reply platform" where
  "platform_route_impl E B ca meth p query body =
    (let object = checked (strict_object B body);
         what = be_what B;
         job = (\<lambda>kind validate. pf_bind (method_check ''POST'' meth) (\<lambda>_.
           pf_bind object (\<lambda>j.
           pf_bind (checked (require_client_job_id j)) (\<lambda>client_job.
           pf_bind (checked (validate j)) (\<lambda>payload.
           platform_create_run E B ca kind payload client_job)))))
     in if p = ''/api/map/render-inline'' then
          pf_bind (method_check ''POST'' meth) (\<lambda>_.
          pf_bind object (\<lambda>j.
          pf_bind (checked (validate_map what 1024 j)) (\<lambda>payload.
          inner (be_route B (Map_Render_Inline (be_dump B payload))))))
        else if p = ''/api/map/render'' then
          job ''map_image'' (\<lambda>j. api_bind (must_be_true j ''stillExport'') (\<lambda>_.
            api_bind (must_be_true j ''background'') (\<lambda>_. validate_map what 4096 j)))
        else if p = ''/api/video/export'' then job ''zoom_video'' (video_payload what)
        else if p = ''/api/hs/mesh'' then job ''hs_mesh'' validate_hs_mesh
        else if p = ''/api/transition/mesh'' then job ''transition_mesh'' validate_transition_mesh
        else if p = ''/api/runs/status'' then
          pf_bind (method_check ''GET'' meth) (\<lambda>_.
          platform_run_status E B ca (url_decode (get_query_param query ''runId'')))
        else if p = ''/api/runs/cancel'' then
          pf_bind (method_check ''POST'' meth) (\<lambda>_.
          pf_bind object (\<lambda>j.
          pf_bind (checked (refuse_if (length (items j) \<noteq> 1 \<or> \<not> json_contains j ''runId'')
            (invalid ''cancel request only accepts runId'') (Inr ()))) (\<lambda>_.
          pf_bind (checked (require_string j ''runId'' 128)) (\<lambda>run.
          pf_bind (\<lambda>s. (platform_run B ca run s, s)) (\<lambda>_.
          pf_bind (inner (dumped B (compute_cancel_run B run))) (\<lambda>_.
          pf_return (ok_reply B (obj [(''runId'', JString run), (''status'', JString ''cancel_requested'')]))))))))
        else checked (contract_reject 404 ''not_found'' ''Compute route was not found''))"

section \<open>What the platform is told\<close>

definition mapped_internal_error_code :: "'s backend \<Rightarrow> int \<Rightarrow> string \<Rightarrow> string" where
  "mapped_internal_error_code B st body =
    (let internal = (case be_parse B body of
           Inl _ \<Rightarrow> []
         | Inr j \<Rightarrow> (case res_bind (json_at j ''error'') (\<lambda>e. json_value get_string e ''code'' []) of Inl _ \<Rightarrow> [] | Inr c \<Rightarrow> c))
     in if internal = ''IDEMPOTENCY_CONFLICT'' then ''idempotency_conflict''
        else if internal = ''UNSUPPORTED_CAPABILITY'' then ''unsupported_capability''
        else if internal = ''COMPUTE_RUN_NOT_FOUND'' then ''run_not_found''
        else if st = 400 \<or> st = 422 then ''invalid_request''
        else if st = 404 then ''run_not_found''
        else if st = 409 then ''compute_conflict''
        else if st = 413 then ''request_limit_exceeded''
        else if st = 429 then ''compute_rate_limited''
        else ''compute_failure'')"

definition safe_internal_message :: "int \<Rightarrow> string \<Rightarrow> string" where
  "safe_internal_message st code =
    (if code = ''idempotency_conflict'' then ''clientJobId was already used for a different request''
     else if code = ''unsupported_capability'' then ''requested Compute capability is not supported''
     else if code = ''run_not_found'' then ''Compute run was not found''
     else if st = 400 \<or> st = 422 then ''request was rejected by Compute validation''
     else if st = 409 then ''Compute request conflicts with current state''
     else if st = 413 then ''request exceeds the Compute contract limit''
     else if st = 429 then ''Compute rate limit exceeded''
     else ''Compute request failed'')"

definition platform_failure :: "'s backend \<Rightarrow> string \<Rightarrow> contract_failure \<Rightarrow> failure" where
  "platform_failure B request_id e =
    (case e of
       Contract_Error st code message \<Rightarrow> Http_Error st (problem_body B code message request_id)
     | Inner (Http_Error st body) \<Rightarrow>
         (let code = mapped_internal_error_code B st body
          in Http_Error (if st = 422 then 400 else st) (problem_body B code (safe_internal_message st code) request_id))
     | Inner (Std_Error _) \<Rightarrow> Http_Error 500 (problem_body B ''compute_failure'' ''Compute request failed'' request_id)
     | Inner Lost \<Rightarrow> Lost)"

definition platform_compute_api_route ::
    "compute_env \<Rightarrow> runner backend \<Rightarrow> call \<Rightarrow> string \<Rightarrow> string \<Rightarrow> string \<Rightarrow> string \<Rightarrow> string \<Rightarrow> (runner, reply) act" where
  "platform_compute_api_route E B ca meth p query body request_id = (\<lambda>s.
    case platform_route_impl E B ca meth p query body s of
      (Inl e, s) \<Rightarrow> (Inl (platform_failure B request_id e), s)
    | (Inr r, s) \<Rightarrow> (Inr r, s))"

text \<open>\<^verbatim>\<open>platformComputeRequestUsesProductionContract\<close>\<close>

definition uses_production_contract :: "runner backend \<Rightarrow> call \<Rightarrow> runner \<Rightarrow> string \<Rightarrow> string \<Rightarrow> string \<Rightarrow> bool" where
  "uses_production_contract B ca s p query body =
    (if p = ''/api/map/render-inline'' then
       (case be_parse B body of
          Inl _ \<Rightarrow> True
        | Inr j \<Rightarrow> (case find_key j ''requestId'' of Some (JString i) \<Rightarrow> is_uuid i | _ \<Rightarrow> False))
     else if p \<in> {''/api/map/render'', ''/api/video/export'', ''/api/hs/mesh'', ''/api/transition/mesh''} then
       (case be_parse B body of Inl _ \<Rightarrow> False | Inr j \<Rightarrow> json_contains j ''clientJobId'')
     else
       (let run = (if p = ''/api/runs/status'' then Inr (url_decode (get_query_param query ''runId''))
                   else if p = ''/api/runs/cancel'' then
                     (case be_parse B body of
                        Inl e \<Rightarrow> Inl (RuntimeError e)
                      | Inr j \<Rightarrow> if is_object j then json_value get_string j ''runId'' [] else Inr [])
                   else Inr []);
            decided = res_bind run (\<lambda>run.
              if run = [] then Inr True
              else res_bind (res_bind (opened s) (get_run_row (ca_sql ca) run)) (\<lambda>row.
                case be_parse B (rr_params row) of
                  Inl e \<Rightarrow> Inl (RuntimeError e)
                | Inr params \<Rightarrow> res_bind (json_value get_string params ''clientJobId'' []) (\<lambda>i. Inr (is_uuid i))))
        in case decided of Inr b \<Rightarrow> b | Inl _ \<Rightarrow> p = ''/api/runs/status'' \<or> p = ''/api/runs/cancel''))"

end
