(* ===== verification/PlatformProperties.thy ===== *)
theory PlatformProperties
  imports PlatformCompute
begin

text \<open>
  Theorems on the interface for the platform: every refusal is a published problem, an accepted request lies within
  the limits and within what the Compute API accepts, and progress is a percentage.
\<close>

section \<open>Refusals\<close>

definition published_codes :: "string set" where
  "published_codes =
   {''invalid_request'', ''invalid_json'', ''request_too_large'', ''request_limit_exceeded'', ''invalid_client_job_id'',
    ''invalid_request_id'', ''method_not_allowed'', ''not_found'', ''run_not_found'', ''compute_failure'',
    ''idempotency_conflict'', ''unsupported_capability'', ''compute_conflict'', ''compute_rate_limited''}"

text \<open>A failure that the platform may be told.\<close>

fun publishable :: "contract_failure \<Rightarrow> bool" where
  "publishable (Contract_Error st code message) \<longleftrightarrow> st \<in> {400, 404, 405, 413, 500} \<and> code \<in> published_codes"
| "publishable (Inner f) \<longleftrightarrow> True"

definition tells :: "'a contract \<Rightarrow> bool" where
  "tells r \<longleftrightarrow> (case r of Inl e \<Rightarrow> publishable e | Inr _ \<Rightarrow> True)"

lemma publishable_simps [simp]: "publishable (invalid m)" "publishable (too_large f m)" "publishable (inner_exn e)" "publishable run_hidden"
  by (simp_all add: invalid_def too_large_def inner_exn_def run_hidden_def published_codes_def)

lemma tells_simps [simp]: "tells (Inl e) \<longleftrightarrow> publishable e" "tells (Inr x)"
  by (simp_all add: tells_def)

lemma tells_bind [simp]: "tells (api_bind m f) \<longleftrightarrow> tells m \<and> (\<forall>x. m = Inr x \<longrightarrow> tells (f x))"
  by (cases m) auto

lemma tells_refuse [simp]: "tells (refuse_if b e k) \<longleftrightarrow> (if b then publishable e else tells k)"
  by (simp add: refuse_if_def)

lemma tells_contract_of [simp]: "tells (contract_of r)"
  by (simp add: contract_of_def split: sum.splits)

lemma tells_members [simp]:
  "tells (strict_object B body)" "tells (required j f)" "tells (require_string j f n)" "tells (optional_string j f n)"
  "tells (finite_number f v)" "tells (require_finite_number j f)" "tells (optional_finite_number j f x)"
  "tells (require_bounded_integer j f lo hi)" "tells (optional_positive j f)" "tells (optional_boolean j f)"
  "tells (require_client_job_id j)" "tells (validate_optional_request_id j)" "tells (positive_number j f)"
  "tells (optional_number j f)" "tells (put_member k v j)" "tells (must_be_true j f)"
proof -
  show s: "tells (required j f)" for f by (simp add: required_def split: option.splits)
  show rs: "tells (require_string j f n)" for f n by (simp add: require_string_def s split: json.splits)
  show "tells (optional_string j f n)" by (simp add: optional_string_def split: option.splits json.splits)
  show fn: "tells (finite_number f v)" for v by (simp add: finite_number_def)
  show rf: "tells (require_finite_number j f)" by (simp add: require_finite_number_def s fn)
  show opt: "tells (optional_finite_number j f x)" for x by (simp add: optional_finite_number_def fn split: option.splits)
  show "tells (require_bounded_integer j f lo hi)" by (simp add: require_bounded_integer_def s)
  show "tells (optional_positive j f)" by (simp add: optional_positive_def opt)
  show "tells (optional_boolean j f)" by (simp add: optional_boolean_def split: option.splits)
  show "tells (require_client_job_id j)" by (simp add: require_client_job_id_def rs published_codes_def)
  show "tells (validate_optional_request_id j)"
    by (simp add: validate_optional_request_id_def published_codes_def split: option.splits)
  show "tells (positive_number j f)" by (simp add: positive_number_def rf)
  show "tells (optional_number j f)" by (simp add: optional_number_def opt)
  show "tells (put_member k v j)" by (simp add: put_member_def)
  show "tells (must_be_true j f)" by (simp add: must_be_true_def s)
  show "tells (strict_object B body)" by (simp add: strict_object_def contract_reject_def published_codes_def split: sum.splits)
qed

lemma tells_validators [simp]:
  "tells (map_engine j)" "tells (map_map_scalar j)" "tells (validate_contract_colors what j)" "tells (validate_map what n j)"
  "tells (validate_hs_mesh j)" "tells (validate_transition_mesh j)" "tells (video_payload what j)"
proof -
  show e: "tells (map_engine j)" by (simp add: map_engine_def)
  show sc: "tells (map_map_scalar j)" for j by (simp add: map_map_scalar_def)
  show c: "tells (validate_contract_colors what j)" by (simp add: validate_contract_colors_def split: option.splits sum.splits)
  show m: "tells (validate_map what n j)" for n by (simp add: validate_map_def e sc c)
  show "tells (validate_hs_mesh j)" by (simp add: validate_hs_mesh_def)
  show "tells (validate_transition_mesh j)" by (simp add: validate_transition_mesh_def e)
  show "tells (video_payload what j)" by (simp add: video_payload_def m)
qed

definition tells_all :: "'a platform \<Rightarrow> bool" where
  "tells_all m \<longleftrightarrow> (\<forall>s. tells (fst (m s)))"

lemma tells_all_bind: "tells_all m \<Longrightarrow> (\<And>x. tells_all (f x)) \<Longrightarrow> tells_all (pf_bind m f)"
  by (auto simp: tells_all_def pf_bind_def split: prod.splits sum.splits) (metis fst_conv tells_simps(1))+

lemma tells_all_simps [simp]:
  "tells_all (pf_return x)" "tells_all (checked r) \<longleftrightarrow> tells r" "tells_all (inner a)"
  by (auto simp: tells_all_def pf_return_def checked_def inner_def split: prod.splits sum.splits)

lemma tells_platform_run [simp]: "tells_all (\<lambda>s. (platform_run B ca run s, s))"
  by (auto simp: tells_all_def platform_run_def contract_reject_def published_codes_def split: sum.splits)

lemma tells_method [simp]: "tells_all (method_check w m)"
  by (simp add: method_check_def published_codes_def)

lemma tells_response [simp]: "tells (parse_json_response B x)"
  by (simp add: parse_json_response_def split: sum.splits)

lemma tells_create [simp]: "tells_all (platform_create_run E B ca kind payload job)"
  unfolding platform_create_run_def by (intro tells_all_bind) simp_all

lemma tells_artifacts [simp]: "tells_all (public_artifacts B run st)"
  by (simp add: public_artifacts_def tells_all_bind)

lemma tells_status [simp]: "tells_all (platform_run_status E B ca run)"
  unfolding platform_run_status_def
  apply (rule tells_all_bind, rule tells_platform_run)
  apply (rule tells_all_bind, rule tells_all_simps(3))
  apply (rule tells_all_bind, simp)
  apply (rule tells_all_bind, simp only: tells_all_simps tells_contract_of)
  apply (rule tells_all_bind, simp only: tells_all_simps tells_contract_of)
  apply (rule tells_all_bind, simp only: tells_all_simps tells_contract_of)
  apply (rule tells_all_bind, simp only: tells_all_simps tells_contract_of)
  apply (rule tells_all_bind, simp only: tells_all_simps tells_contract_of)
  apply (rule tells_all_bind, rule tells_artifacts, rule tells_all_simps(1))
  done

lemma tells_job:
  assumes "\<And>j. tells (validate j)"
  shows "tells_all (pf_bind (method_check ''POST'' meth) (\<lambda>_. pf_bind (checked (strict_object B body)) (\<lambda>j.
    pf_bind (checked (require_client_job_id j)) (\<lambda>client_job. pf_bind (checked (validate j)) (\<lambda>payload.
    platform_create_run E B ca kind payload client_job)))))"
  by (rule tells_all_bind, rule tells_method)
    (rule tells_all_bind, simp, rule tells_all_bind, simp, rule tells_all_bind, simp add: assms, rule tells_create)

lemma tells_cancel:
  "tells_all (pf_bind (method_check ''POST'' meth) (\<lambda>_. pf_bind (checked (strict_object B body)) (\<lambda>j.
    pf_bind (checked (refuse_if (b j)
      (invalid ''cancel request only accepts runId'') (Inr ()))) (\<lambda>_.
    pf_bind (checked (require_string j ''runId'' 128)) (\<lambda>run.
    pf_bind (\<lambda>s. (platform_run B ca run s, s)) (\<lambda>_.
    pf_bind (inner (dumped B (compute_cancel_run B run))) (\<lambda>_. pf_return (f run))))))))"
  by (rule tells_all_bind, rule tells_method, rule tells_all_bind, simp, rule tells_all_bind)
    (simp, rule tells_all_bind, simp, rule tells_all_bind, rule tells_platform_run, rule tells_all_bind,
      rule tells_all_simps(3), rule tells_all_simps(1))

lemma tells_inline:
  "tells_all (pf_bind (method_check ''POST'' meth) (\<lambda>_. pf_bind (checked (strict_object B body)) (\<lambda>j.
    pf_bind (checked (validate_map what n j)) (\<lambda>payload. inner (f payload)))))"
  by (rule tells_all_bind, rule tells_method, rule tells_all_bind, simp, rule tells_all_bind) (simp, rule tells_all_simps(3))

lemma tells_status_route: "tells_all (pf_bind (method_check ''GET'' meth) (\<lambda>_. platform_run_status E B ca run))"
  by (rule tells_all_bind, rule tells_method, rule tells_status)

lemma tells_route: "tells_all (platform_route_impl E B ca meth p query body)"
  unfolding platform_route_impl_def Let_def
  by (simp add: tells_inline tells_cancel tells_status_route tells_job contract_reject_def published_codes_def)

definition safe_messages :: "string set" where
  "safe_messages =
   {''clientJobId was already used for a different request'', ''requested Compute capability is not supported'',
    ''Compute run was not found'', ''request was rejected by Compute validation'',
    ''Compute request conflicts with current state'', ''request exceeds the Compute contract limit'',
    ''Compute rate limit exceeded'', ''Compute request failed''}"

lemma mapped_code_published [simp]: "mapped_internal_error_code B st body \<in> published_codes"
  by (simp add: mapped_internal_error_code_def Let_def published_codes_def)

lemma safe_message: "safe_internal_message st code \<in> safe_messages"
  by (simp add: safe_internal_message_def safe_messages_def)

text \<open>
  C21: Whatever fails, the platform is told a problem of the contract. A failed request is an \<^verbatim>\<open>HttpError\<close> whose body is
  the problem with one of the published codes and the request's identifier, its status is never 422, and when an
  inner route failed the message is one of eight fixed texts: nothing of the inner error but its status and its
  class passes. Only undefined behaviour has no such answer.
\<close>
theorem platform_told_published_problem:
  assumes "platform_compute_api_route E B ca meth p query body request_id s = (Inl e, s')"
  shows "e = Lost \<or> (\<exists>st code message. e = Http_Error st (problem_body B code message request_id)
    \<and> st \<noteq> 422 \<and> code \<in> published_codes
    \<and> (message \<in> safe_messages
       \<or> platform_route_impl E B ca meth p query body s = (Inl (Contract_Error st code message), s')))"
proof -
  from assms obtain c where c: "platform_route_impl E B ca meth p query body s = (Inl c, s')"
    and e: "e = platform_failure B request_id c"
    by (auto simp: platform_compute_api_route_def split: prod.splits sum.splits)
  have "tells (fst (platform_route_impl E B ca meth p query body s))" using tells_route by (simp add: tells_all_def)
  then have pub: "publishable c" by (simp add: c)
  show ?thesis
  proof (cases c)
    case (Contract_Error st code message)
    with pub have "st \<noteq> 422" "code \<in> published_codes" by auto
    with Contract_Error e c show ?thesis
      by (intro disjI2 exI [of _ st] exI [of _ code] exI [of _ message]) (simp add: platform_failure_def)
  next
    case (Inner f)
    show ?thesis
    proof (cases f)
      case (Http_Error st body')
      let ?code = "mapped_internal_error_code B st body'"
      have "e = Http_Error (if st = 422 then 400 else st) (problem_body B ?code (safe_internal_message st ?code) request_id)"
        using Inner Http_Error e by (simp add: platform_failure_def Let_def)
      then show ?thesis using safe_message mapped_code_published [of B st body']
        by (intro disjI2 exI [of _ "if st = 422 then 400 else st"] exI [of _ ?code] exI [of _ "safe_internal_message st ?code"]) simp
    next
      case (Std_Error x)
      have "e = Http_Error 500 (problem_body B ''compute_failure'' ''Compute request failed'' request_id)"
        using Inner Std_Error e by (simp add: platform_failure_def)
      moreover have "''compute_failure'' \<in> published_codes" "''Compute request failed'' \<in> safe_messages"
        by (simp_all add: published_codes_def safe_messages_def)
      ultimately show ?thesis
        by (intro disjI2 exI [of _ 500] exI [of _ "''compute_failure''"] exI [of _ "''Compute request failed''"]) simp
    next
      case Lost
      with Inner e show ?thesis by (simp add: platform_failure_def)
    qed
  qed
qed

definition sample_platform :: "runner backend" where
  "sample_platform =
    \<lparr>be_parse = (\<lambda>x. Inl []), be_dump = (\<lambda>j. ''{}''), be_what = (\<lambda>e. []), be_route = (\<lambda>c s. (Inl Lost, s)),
     be_production = (\<lambda>s a b c. True), be_random = (\<lambda>s. (0, 0))\<rparr>"

theorem platform_told_published_problem_witness:
  "\<forall>E ca s. platform_compute_api_route E sample_platform ca ''GET'' ''/api/hs/mesh'' [] [] ''i'' s
      = (Inl (Http_Error 405 (problem_body sample_platform ''method_not_allowed'' ''method not allowed'' ''i'')), s)
   \<and> ''method_not_allowed'' \<in> published_codes"
proof (intro allI)
  fix E ca s
  have e: "platform_compute_api_route E sample_platform ca ''GET'' ''/api/hs/mesh'' [] [] ''i'' s
      = (Inl (Http_Error 405 (problem_body sample_platform ''method_not_allowed'' ''method not allowed'' ''i'')), s)"
    by (simp add: platform_compute_api_route_def platform_route_impl_def Let_def pf_bind_def method_check_def checked_def
        platform_failure_def)
  from platform_told_published_problem [OF e]
  show "platform_compute_api_route E sample_platform ca ''GET'' ''/api/hs/mesh'' [] [] ''i'' s
      = (Inl (Http_Error 405 (problem_body sample_platform ''method_not_allowed'' ''method not allowed'' ''i'')), s)
   \<and> ''method_not_allowed'' \<in> published_codes" by (simp add: e published_codes_def)
qed

section \<open>Accepted requests\<close>

text \<open>An identifier of a client's job is a UUID, and so free of NUL and at most 200 characters long.\<close>

lemma require_string_ok:
  assumes "require_string j f n = Inr s"
  shows "s \<noteq> [] \<and> length s \<le> n"
proof -
  from assms obtain item where "(case item of
        JString s \<Rightarrow> refuse_if (s = []) (invalid (f @ '' must not be empty''))
          (refuse_if (length s > n) (too_large f '' exceeds the maximum length'') (Inr s))
      | _ \<Rightarrow> Inl (invalid (f @ '' must be a string''))) = Inr s"
    unfolding require_string_def api_bind_Inr by blast
  then show ?thesis by (cases item) (auto simp: refuse_if_Inr)
qed

lemma client_job_plain:
  assumes "require_client_job_id j = Inr i"
  shows "is_uuid i \<and> c_str i = i \<and> i \<noteq> [] \<and> length i \<le> 200"
proof -
  from assms have u: "is_uuid i" "i \<noteq> []" "length i \<le> 36"
    using require_string_ok by (auto simp: require_client_job_id_def api_bind_Inr refuse_if_Inr)
  have "uuid_char p (CHR 0x00) \<Longrightarrow> False" if "p \<in> set uuid_pattern" for p
    using that by (auto simp: uuid_char_def uuid_pattern_def is_hex_def is_digit_def char_code_def split: if_splits)
  then have "CHR 0x00 \<notin> set i" using u(1) by (auto simp: is_uuid_def list_all2_conv_all_nth in_set_conv_nth) metis
  then show ?thesis using u by (auto simp: c_str_def takeWhile_eq_all_conv)
qed

lemma bounded_integer_ok:
  assumes "require_bounded_integer j f lo hi = Inr n"
  shows "\<exists>i. find_key j f = Some (JInt i) \<and> n = wrap_int 64 i \<and> lo \<le> n \<and> n \<le> hi"
  using assms
  by (auto simp: require_bounded_integer_def required_def given_def contract_of_def get_int_def fsd_split is_number_integer_def
      split: option.splits json.splits sum.splits)

lemma map_engine_ok: "map_engine j = Inr e \<Longrightarrow> e \<in> {''auto'', ''openmp'', ''cuda''}"
  by (auto simp: map_engine_def fsd_split split: if_splits)

lemma map_scalar_ok: "map_map_scalar j = Inr e \<Longrightarrow> e \<in> {''auto'', ''fp32'', ''fp64'', ''fp80''}"
  by (auto simp: map_map_scalar_def fsd_split split: if_splits)

lemma put_member_find: "put_member k v j = Inr j' \<Longrightarrow> find_key j' = (find_key j)(k \<mapsto> v)"
  by (auto simp: put_member_def contract_of_def json_put_find split: sum.splits)

text \<open>
  A map request that the contract accepts is one that the Compute API accepts as far as it is translated. The
  sizes and the iterations are in their ranges as 64-bit numbers, and the engine and the scalar type, renamed from
  the platform's names, pass the check against what the map and the video kinds advertise.
\<close>
theorem translated_request_advertised:
  assumes "validate_map what n j = Inr j'" and "c \<in> set compute_capabilities"
    and "cap_kind c = ''map_image'' \<or> cap_kind c = ''zoom_video''"
  shows "(\<exists>w h k. find_key j' ''width'' = Some (JInt w) \<and> find_key j' ''height'' = Some (JInt h)
        \<and> find_key j' ''iterations'' = Some (JInt k) \<and> wrap_int 64 w \<in> {1..n} \<and> wrap_int 64 h \<in> {1..n}
        \<and> wrap_int 64 k \<in> {1..1000000})
    \<and> validate_advertised_value (cap_kind c) j' ''engine'' (cap_engines c) = Inr ()
    \<and> validate_advertised_value (cap_kind c) j' ''scalarType'' (cap_scalars c) = Inr ()"
proof -
  from assms(1) obtain e s j1 where e: "map_engine j = Inr e" "put_member ''engine'' (JString e) j = Inr j1"
    and s: "map_map_scalar j1 = Inr s" "put_member ''scalarType'' (JString s) j1 = Inr j'"
    and w: "\<exists>n1. require_bounded_integer j ''width'' 1 n = Inr n1" "\<exists>n1. require_bounded_integer j ''height'' 1 n = Inr n1"
      "\<exists>n1. require_bounded_integer j ''iterations'' 1 1000000 = Inr n1"
    by (auto simp: validate_map_def fsd_split)
  have f: "find_key j' = (find_key j)(''engine'' \<mapsto> JString e, ''scalarType'' \<mapsto> JString s)"
    using put_member_find [OF e(2)] put_member_find [OF s(2)] by simp
  have g: "given j' ''engine'' = Some (JString e)" "given j' ''scalarType'' = Some (JString s)" by (simp_all add: given_def f)
  have all: "list_all (\<lambda>c. cap_kind c = ''map_image'' \<or> cap_kind c = ''zoom_video'' \<longrightarrow>
      list_all (comma_separated_contains (cap_engines c)) [''auto'', ''openmp'', ''cuda'']
      \<and> list_all (comma_separated_contains (cap_scalars c)) [''auto'', ''fp32'', ''fp64'', ''fp80'']) compute_capabilities"
    by code_simp
  then have "comma_separated_contains (cap_engines c) e" "comma_separated_contains (cap_scalars c) s"
    using assms(2,3) map_engine_ok [OF e(1)] map_scalar_ok [OF s(1)] by (auto simp: list_all_iff)
  then have a: "validate_advertised_value (cap_kind c) j' ''engine'' (cap_engines c) = Inr ()"
    "validate_advertised_value (cap_kind c) j' ''scalarType'' (cap_scalars c) = Inr ()"
    using f by (simp_all add: validate_advertised_value_def require_string_field_def g)
  from w bounded_integer_ok have "\<exists>i. find_key j ''width'' = Some (JInt i) \<and> wrap_int 64 i \<in> {1..n}"
    "\<exists>i. find_key j ''height'' = Some (JInt i) \<and> wrap_int 64 i \<in> {1..n}"
    "\<exists>i. find_key j ''iterations'' = Some (JInt i) \<and> wrap_int 64 i \<in> {1..1000000}" by fastforce+
  with a show ?thesis by (auto simp: f)
qed

section \<open>Progress\<close>

text \<open>Progress is a percentage whatever the worker wrote, and reading it is defined.\<close>

lemma progress_percent_range:
  "progress_percent st progress \<noteq> Inl Undefined
   \<and> (\<forall>n. progress_percent st progress = Inr n \<longrightarrow> 0 \<le> n \<and> n \<le> 100)"
proof -
  have r: "\<exists>i. fllround (if flt p (Fin 0) then Fin 0 else if flt (Fin 100) p then Fin 100 else p) = Some i \<and> 0 \<le> i \<and> i \<le> 100"
    if "fis_finite p" for p
  proof -
    let ?c = "if flt p (Fin 0) then Fin 0 else if flt (Fin 100) p then Fin 100 else p"
    have c: "fis_finite ?c" "0 \<le> fval ?c" "fval ?c \<le> 100" using that by (auto simp: flt_finite)
    then have "0 \<le> rat_round_away (fval ?c)" "rat_round_away (fval ?c) \<le> 100"
      by (auto simp: rat_round_away_def floor_le_iff le_floor_iff)
    with c show ?thesis by (simp add: fllround_def Let_def)
  qed
  have w: "0 \<le> i \<Longrightarrow> i \<le> 100 \<Longrightarrow> wrap_int 32 i = i" for i by (rule wrap_int_id) simp_all
  show ?thesis
  proof (cases "st = ''completed'' \<or> st = ''queued''")
    case True
    then show ?thesis by (auto simp: progress_percent_def)
  next
    case False
    show ?thesis
    proof (cases "json_value get_double progress ''percent'' (Fin 0)")
      case (Inl e)
      then have "e = TypeError" by (auto dest: json_value_error get_errors)
      with Inl False show ?thesis by (simp add: progress_percent_def)
    next
      case (Inr x)
      have "fis_finite (if fis_finite x then x else Fin 0)" by simp
      from r [OF this] w False Inr show ?thesis by (auto simp: progress_percent_def Let_def)
    qed
  qed
qed

end
