(* ===== verification/Spec2Isabelle.thy ===== *)
theory Spec2Isabelle
  imports MeshIoProperties HeightProperties TileProperties HttpProperties FieldKernel OrbitProgram OrbitJson LnReuse ColormapProperties Resource JobProperties RunPaths UrlCodec EngineSelect ComputeApiProperties ComputeRunsProperties PlatformProperties
begin

text \<open>
  \<^bold>\<open>Fractal Studio: the compute backend\<close>

  The program (\<^verbatim>\<open>backend/src\<close>, C++20) is an HTTP service that renders escape-time fractals: images, raw
  fields, meshes and videos. A request enters through \<^verbatim>\<open>core/http_server.cpp\<close>, which checks the credential
  and dispatches it to a route of \<^verbatim>\<open>api/\<close>. A route validates JSON, asks \<^verbatim>\<open>core/job_runner.cpp\<close> for a run
  (an identifier, a directory and a row of the store \<^verbatim>\<open>core/db.cpp\<close>), takes the locks of
  \<^verbatim>\<open>core/resource_manager.cpp\<close>, chooses an engine (\<^verbatim>\<open>compute/engine_select.cpp\<close>) and calls the kernels of
  \<^verbatim>\<open>compute/\<close>, which poll the run's cancellation flag. The files of a finished run are served from its
  directory, and only from there (\<^verbatim>\<open>api/routes_common.hpp\<close>, \<^verbatim>\<open>api/routes_artifacts.cpp\<close>).

  \<^bold>\<open>Conventions.\<close> An exception is a value: \<open>'a res\<close> is \<open>exn + 'a\<close> (\<open>Prelude\<close>), and \<open>Undefined\<close> marks a step that
  the C++ standard leaves undefined, so a theorem that excludes it is a safety theorem. Machine integers are
  words (\<open>64 word\<close>, \<open>8 word\<close>) where they wrap; \<^verbatim>\<open>float\<close>, \<^verbatim>\<open>double\<close> and \<^verbatim>\<open>long double\<close> are exact rationals
  rounded after each operation (\<open>IeeeFloat\<close>), so the theorems on them are theorems about IEEE arithmetic. State
  is a record that operations return updated; what threads do is a step relation over all interleavings. What
  is not in the repository is an argument: libm and its error, SHA-256, SQLite's failures and tie order, the
  clock, random bits, what the operating system refuses, nlohmann's parser and printer.

  \<^bold>\<open>Theories, bottom up\<close>

  \<^item> \<open>Prelude\<close>: exceptions as values, characters, C++ division, decimal digits, generic lemmas and the
    collection \<open>fsd_split\<close> that takes a fallible computation apart.
  \<^item> \<open>IeeeFloat\<close>: rounding to nearest even, arithmetic, comparison and conversion of the floating types.
  \<^item> \<open>JsonValue\<close>: the value type of nlohmann::json with its lookups and conversions.
  \<^item> \<open>Variants\<close> (\<^verbatim>\<open>compute/complex.hpp\<close>, \<^verbatim>\<open>scalar.hpp\<close>, \<^verbatim>\<open>variants.hpp\<close>): complex numbers over an abstract scalar,
    the sixteen iteration formulas, their names, and the steps that reuse squares. The locale \<open>quad_scalar\<close>
    states what the cached steps need of a scalar; it is interpreted for \<^verbatim>\<open>double\<close> here and for the three
    fixed-point formats in \<open>Fixed64\<close>.
  \<^item> \<open>Fixed64\<close>, \<open>FixedRaw\<close> (\<^verbatim>\<open>scalar/fx64.hpp\<close>, \<^verbatim>\<open>fx64_raw.hpp\<close>): saturating 64-bit fixed point on words, and the
    raw helpers of the fixed-point render paths.
  \<^item> \<open>EscapeTime\<close>, \<open>EscapeGates\<close> (\<^verbatim>\<open>compute/escape_time.hpp\<close>): the four pixel kernels with their escape gates; the
    fixed-point kernel never wraps before it escapes, and each gate decides as the direct test does.
  \<^item> \<open>MapParams\<close>, \<open>FieldKernel\<close> (\<^verbatim>\<open>map_kernel.hpp\<close>, \<^verbatim>\<open>map_kernel.cpp\<close>): the parameters of a map, the order in which
    tiles are shown, and the cancellation-aware kernels of the raw fields.
  \<^item> \<open>OrbitLexer\<close>, \<open>OrbitParser\<close>, \<open>OrbitCode\<close>, \<open>OrbitProgram\<close>, \<open>OrbitJson\<close> (\<^verbatim>\<open>orbit_program.cpp\<close>,
    \<^verbatim>\<open>orbit_program_json.cpp\<close>): the user formula language from characters to the stack machine. The compiler
    refines the tree: one iteration of the bytecode returns the value of the parsed expression.
  \<^item> \<open>ColorProgram\<close>, \<open>Colormap\<close>, \<open>ColormapProperties\<close> (\<^verbatim>\<open>color_program.cpp\<close>, \<^verbatim>\<open>color_program_json.cpp\<close>,
    \<^verbatim>\<open>colormap.hpp\<close>, \<^verbatim>\<open>colorize.cpp\<close>): gradients and palettes; intervals show that every conversion stays in range.
  \<^item> \<open>TileScheduler\<close>, \<open>TileProperties\<close> (\<^verbatim>\<open>tile_scheduler.cpp\<close>, \<^verbatim>\<open>parallel.hpp\<close>): the tiles of a frame and the
    protocol of the workers that claim them, as a step relation over every interleaving.
  \<^item> \<open>MeshData\<close>, \<open>MarchingCubes\<close>, \<open>MarchingTables\<close>, \<open>MarchingProperties\<close> (\<^verbatim>\<open>mesh.hpp\<close>, \<^verbatim>\<open>marching_cubes.cpp\<close>): the
    tables and the walk; a check of all 256 corner patterns shows that neighbouring cells agree on a face.
  \<^item> \<open>HeightField\<close>, \<open>HeightProperties\<close>, \<open>MeshIo\<close>, \<open>MeshIoProperties\<close> (\<^verbatim>\<open>hs/heightfield_mesh.cpp\<close>, \<^verbatim>\<open>mesh_io.cpp\<close>):
    the height field with its mesh, and the bytes of STL and GLB files, read back by a reader of the format.
  \<^item> \<open>EngineSelect\<close> (\<^verbatim>\<open>engine_select.cpp\<close>, \<^verbatim>\<open>cpu_features.cpp\<close>): capabilities, the benchmark cache and the choice.
  \<^item> \<open>Db\<close> (\<^verbatim>\<open>core/db.cpp\<close>): the tables and each SQL statement. The locale \<open>keyed_table\<close> is the contract of a table
    with a primary key, interpreted for the tables of runs, of idempotent requests and of custom variants.
  \<^item> \<open>FileSystem\<close>, \<open>RunPaths\<close> (\<^verbatim>\<open>routes_common.hpp\<close>, \<^verbatim>\<open>routes_artifacts.cpp\<close>): paths, links, directories and
    \<^verbatim>\<open>canonical\<close>; the resolution of a run and of a file in it.
  \<^item> \<open>JobRunner\<close>, \<open>JobInvariants\<close>, \<open>JobProperties\<close> (\<^verbatim>\<open>core/job_runner.cpp\<close>): every member function, then executions
    of any operations in any order with the invariants that rule induction gives.
  \<^item> \<open>Resource\<close> (\<^verbatim>\<open>core/resource_manager.cpp\<close>): the locks of heavy tasks.
  \<^item> \<open>HttpRange\<close>, \<open>UrlCodec\<close>, \<open>HttpServer\<close>, \<open>HttpProperties\<close> (\<^verbatim>\<open>core/http_range.hpp\<close>, \<^verbatim>\<open>core/http_server.cpp\<close>):
    reading a request in pieces, the credential, the dispatch and the streaming of files.
  \<^item> \<open>LnReuse\<close> (\<^verbatim>\<open>api/ln_map_reuse.hpp\<close>): when a stored ln-map may be used again.
  \<^item> \<open>ComputeApi\<close>, \<open>ComputeApiProperties\<close> (\<^verbatim>\<open>api/routes_compute_v1.cpp\<close>): the capabilities table and document and the
    validation of requests against it; errors are the status and body of an \<^verbatim>\<open>HttpError\<close>.
  \<^item> \<open>RunRoutes\<close> (\<^verbatim>\<open>api/routes_runs.cpp\<close>): list, status, active tasks and cancellation of runs.
  \<^item> \<open>ComputeRuns\<close>, \<open>ComputeRunsProperties\<close>, \<open>IdempotencyLocks\<close> (\<^verbatim>\<open>api/routes_compute_v1.cpp\<close>): creation of runs with
    idempotency keys, previews, status, hardware evidence and cancellation. \<open>IdempotencyLocks\<close> is the table of weak
    pointers to mutexes with concurrent requests as a step relation.
  \<^item> \<open>PlatformCompute\<close>, \<open>PlatformProperties\<close> (\<^verbatim>\<open>api/routes_platform_compute.cpp\<close>): the contract with the platform over
    the Compute API, and the translation of every failure.
  \<^bold>\<open>What the lemmas show\<close>

  \<^item> Refinement: the compiled formula computes its tree, the fixed-point kernel follows the orbit over unbounded
    integers, the store mirrors the runner's memory, a client receives the slice of the file it was told, and the
    handler that creates runs is a path of the concurrent protocol.
  \<^item> Exactness: the reader of Orbit Programs accepts exactly what the format describes, a sidecar exactly the requests
    for its map, and what the Compute API accepts is what its capabilities document announces.
  \<^item> Safety under every interleaving: locks, workers, tiles, cancellation and idempotent requests. Reachable states are inductive, and
    the invariants follow by rule induction.
  \<^item> Confinement: what is served lies in the directory of the named run, and nothing runs without the credential.
  \<^item> Termination, with explicit bounds: the parser returns on every source, the workers' executions end.
  \<^item> Round trips: identity sidecars, GLB, progress files, HTTP headers, program descriptions.
  \<^item> Errors: what a reader refuses is refused with a reported exception, and the inputs on which the code leaves
    the defined behaviour are characterised exactly (rows of the triangle table without an end mark, a metric
    without a height field).

  \<^bold>\<open>Bounds and fuel\<close>

  No model is truncated by its fuel. The parser's fuel is the length of the source plus two, and it is proved to
  be enough for every source. The readers of nested programs count down the code's own limit of 32 levels; 256
  nodes is the code's limit too. Run directories are tried 1000 times, as in the code, and \<^verbatim>\<open>canonical\<close> follows
  at most 40 links, which is the limit of the operating system. The request caps are 16 MiB of header and 1 GiB of
  body. Tile ranks have at most 31 bits. The workers' executions have at most two steps for each worker and seven
  for each tile, those of the requests that create runs at most seven steps for each request. Theorems on meshes
  assume sizes at which indices fit their type (twelve vertices for each cell below \<open>2 ^ 32\<close>; a
  height field of at most 4096 by 4096).

  \<^bold>\<open>Not modelled\<close>

  \<^item> CUDA sources and AVX2/AVX-512 kernels: intrinsics and device code over a run time that is not in the
    repository. They restate the scalar kernels that are modelled.
  \<^item> \<^verbatim>\<open>ln_map.cpp\<close>, \<^verbatim>\<open>transition_kernel.cpp\<close>, \<^verbatim>\<open>transition_volume.cpp\<close>, \<^verbatim>\<open>special_points*.cpp\<close>, \<^verbatim>\<open>perturbation.cpp\<close>:
    numerical drivers over libm, OpenMP, OpenCV, MPFR and \<^verbatim>\<open>__float128\<close>, whose results depend on those libraries.
  \<^item> \<^verbatim>\<open>routes_video.cpp\<close>, \<^verbatim>\<open>routes_map.cpp\<close> and the smaller routes: threads around ffmpeg, OpenCV and the kernels. The
    Compute API calls them through an argument. Its manifest, which hashes files, and its report of the hardware
    are arguments too.
  \<^item> The notification of condition variables: where a thread waits, the model has the condition it waits for.
  \<^item> A file that changes, or whose \<^verbatim>\<open>lseek\<close> fails, after it was opened for streaming; the numbers inside the JSON
    chunk of a GLB file.
  \<^item> The pixels that the tile renderers write (the protocol that claims and counts tiles is modelled), the
    creation of parent directories before a file is written, nlohmann's printer and the bytes of a \<^verbatim>\<open>float\<close>.
  \<^item> Probes of the hardware, \<^verbatim>\<open>main.cpp\<close>, tests, and the services in other languages.
\<close>

end
